(* ===== verification/Prelude.thy ===== *)
theory Prelude
  imports Complex_Main
begin

text \<open>
  The vocabulary every other theory of the development shares: the exceptions the modelled
  functions raise, Python's text helpers that the repositories call (\<open>str.strip\<close>, the
  decimal rendering of an integer, the lowercase SHA-256 shape test), and the lemmas on sums over
  the rows of a finite table with which every conservation law is proved.

  Text is a HOL \<open>string\<close>: one \<open>char\<close> stands for one Python code point below 256, so a length
  here counts code points, as \<open>len\<close> does. Whole numbers are \<open>int\<close>, as Python's are unbounded.
\<close>

named_theorems row_lookup \<open>attribute lookups in the rows the repositories build\<close>

named_theorems outcome_rules \<open>what each outcome of an operation says about the table\<close>

section \<open>Exceptions as values\<close>

text \<open>
  \<open>Value_Error\<close> is Python's \<open>ValueError\<close> (and \<open>TypeError\<close>) for a bad argument,
  \<open>Dependency_Failure\<close> a repository's private failure class, \<open>Provider_Error\<close> any exception of
  the table client that the code does not translate, \<open>Account_Conflict\<close> the lifecycle
  repository's refusal.
\<close>

datatype err = Value_Error | Dependency_Failure | Provider_Error | Account_Conflict

type_synonym 'a result = "err + 'a"

fun is_ok :: "'a result \<Rightarrow> bool" where
  "is_ok (Inl _) = False"
| "is_ok (Inr _) = True"

lemma is_ok_iff: "is_ok r \<longleftrightarrow> (\<exists>x. r = Inr x)"
  by (cases r) auto

section \<open>Text\<close>

definition py_space :: "char \<Rightarrow> bool" where
  "py_space c = (let n = (of_char c :: nat) in
     (9 \<le> n \<and> n \<le> 13) \<or> (28 \<le> n \<and> n \<le> 32) \<or> n = 133 \<or> n = 160)"

definition strip :: "string \<Rightarrow> string" where
  "strip s = rev (dropWhile py_space (rev (dropWhile py_space s)))"

definition hex_digit :: "char \<Rightarrow> bool" where
  "hex_digit c = (c \<in> set ''0123456789abcdef'')"

text \<open>Sixty-four lowercase hexadecimal digits: what every repository takes for a SHA-256 digest.\<close>

definition sha_text :: "string \<Rightarrow> bool" where
  "sha_text s = (length s = 64 \<and> list_all hex_digit s)"

definition digit_char :: "nat \<Rightarrow> char" where
  "digit_char d = char_of (48 + d)"

fun nat_text :: "nat \<Rightarrow> string" where
  "nat_text n = (if n < 10 then [digit_char n] else nat_text (n div 10) @ [digit_char (n mod 10)])"

declare nat_text.simps [simp del]

text \<open>The \<open>0<width>d\<close> format of a non-negative number.\<close>

definition padded :: "nat \<Rightarrow> nat \<Rightarrow> string" where
  "padded w n = (let s = nat_text n in replicate (w - length s) (digit_char 0) @ s)"

definition text_nat :: "string \<Rightarrow> nat" where
  "text_nat s = fold (\<lambda>c a. 10 * a + (of_char c - 48)) s 0"

lemma of_char_digit: "d < 10 \<Longrightarrow> (of_char (digit_char d) :: nat) = 48 + d"
  by (simp add: digit_char_def of_char_of)

lemma text_nat_append: "text_nat (s @ [c]) = 10 * text_nat s + (of_char c - 48)"
  by (simp add: text_nat_def)

lemma text_nat_text: "text_nat (nat_text n) = n"
proof (induction n rule: nat_text.induct)
  case (1 n)
  show ?case
  proof (cases "n < 10")
    case True
    then show ?thesis by (simp add: nat_text.simps [of n] text_nat_def of_char_digit)
  next
    case False
    with "1.IH" have "text_nat (nat_text (n div 10)) = n div 10" by simp
    with False show ?thesis
      by (simp add: nat_text.simps [of n] text_nat_append of_char_digit)
  qed
qed

lemma text_nat_zeros: "text_nat (replicate k (digit_char 0) @ s) = text_nat s"
proof (induction k)
  case 0
  show ?case by simp
next
  case (Suc k)
  then show ?case by (simp add: text_nat_def of_char_digit)
qed

lemma text_nat_padded: "text_nat (padded w n) = n"
  by (simp add: padded_def Let_def text_nat_zeros text_nat_text)

lemma length_nat_text: "n < 10 ^ k \<Longrightarrow> 0 < k \<Longrightarrow> length (nat_text n) \<le> k"
proof (induction k arbitrary: n)
  case 0
  then show ?case by simp
next
  case (Suc k)
  show ?case
  proof (cases "n < 10")
    case True
    then show ?thesis by (simp add: nat_text.simps [of n])
  next
    case False
    with Suc.prems have "0 < k" by (cases k) auto
    moreover from Suc.prems have "n div 10 < 10 ^ k"
      by (simp add: less_mult_imp_div_less mult.commute)
    ultimately have "length (nat_text (n div 10)) \<le> k" by (rule Suc.IH [rotated])
    with False show ?thesis by (simp add: nat_text.simps [of n])
  qed
qed

lemma length_padded: "n < 10 ^ w \<Longrightarrow> 0 < w \<Longrightarrow> length (padded w n) = w"
  using length_nat_text [of n w] by (simp add: padded_def Let_def)

lemma padded_inject: "padded w m = padded w n \<Longrightarrow> m = n"
  by (metis text_nat_padded)

section \<open>Sums over the rows of a table\<close>

text \<open>
  \<open>total w t\<close> adds up what each row of the finite map \<open>t\<close> weighs under \<open>w\<close>: the tokens a
  reservation row holds, one for each admitted case, one for each admission receipt. A write
  changes the sum by the difference it makes at its own key.
\<close>

definition total :: "('k \<Rightarrow> 'v \<Rightarrow> int) \<Rightarrow> ('k \<Rightarrow> 'v option) \<Rightarrow> int" where
  "total w t = (\<Sum>k\<in>dom t. w k (the (t k)))"

definition weight_at :: "('k \<Rightarrow> 'v \<Rightarrow> int) \<Rightarrow> ('k \<Rightarrow> 'v option) \<Rightarrow> 'k \<Rightarrow> int" where
  "weight_at w t k = (case t k of None \<Rightarrow> 0 | Some v \<Rightarrow> w k v)"

lemma total_upd:
  assumes "finite (dom t)"
  shows "total w (t(k \<mapsto> v)) = total w t - weight_at w t k + w k v"
proof (cases "t k")
  case None
  then have k: "k \<notin> dom t" by (simp add: domIff)
  have "(\<Sum>x\<in>dom t. w x (the ((t(k \<mapsto> v)) x))) = (\<Sum>x\<in>dom t. w x (the (t x)))"
    using k by (intro sum.cong) auto
  with assms k None show ?thesis by (simp add: total_def weight_at_def)
next
  case (Some u)
  then have k: "k \<in> dom t" by (simp add: domIff)
  have "(\<Sum>x\<in>dom t. w x (the ((t(k \<mapsto> v)) x)))
      = w k v + (\<Sum>x\<in>dom t - {k}. w x (the ((t(k \<mapsto> v)) x)))"
    using assms k by (subst sum.remove [of _ k]) auto
  also have "(\<Sum>x\<in>dom t - {k}. w x (the ((t(k \<mapsto> v)) x))) = (\<Sum>x\<in>dom t - {k}. w x (the (t x)))"
    by (intro sum.cong) auto
  also have "\<dots> = total w t - w k u"
    using assms k Some by (simp add: total_def sum.remove [of _ k])
  finally show ?thesis
    using k Some by (simp add: total_def weight_at_def insert_absorb)
qed

lemma total_cong:
  assumes "dom s = dom t" "\<And>k v v'. s k = Some v \<Longrightarrow> t k = Some v' \<Longrightarrow> w k v = w k v'"
  shows "total w s = total w t"
  unfolding total_def using assms(1)
proof (rule sum.cong)
  fix k
  assume "k \<in> dom t"
  with assms show "w k (the (s k)) = w k (the (t k))" by (metis domD option.sel)
qed

lemma total_nonneg: "(\<And>k v. t k = Some v \<Longrightarrow> 0 \<le> w k v) \<Longrightarrow> 0 \<le> total w t"
  unfolding total_def by (rule sum_nonneg) auto

lemma total_ge_member:
  assumes "finite (dom t)" "t k = Some v" "\<And>j u. t j = Some u \<Longrightarrow> 0 \<le> w j u"
  shows "w k v \<le> total w t"
proof -
  have "w k (the (t k)) \<le> (\<Sum>j\<in>dom t. w j (the (t j)))"
    using assms by (intro member_le_sum) auto
  with assms(2) show ?thesis by (simp add: total_def)
qed

end
