(* ===== verification/Py_Value.thy ===== *)
theory Py_Value
  imports Prelude
begin

text \<open>
  The dynamically typed values a stored row holds, as the Python code sees them, and the guards the
  repositories put between a row and a number or a text: \<open>stored_int\<close> of \<open>db/dynamodb.py\<close>, the
  \<open>_whole\<close> / \<open>_stored_count\<close> / \<open>_stored_nonnegative_int\<close> family, and \<open>_required_text\<close>.

  A finite \<open>Decimal\<close> or \<open>float\<close> is the rational number it denotes; the special values (NaN and
  the infinities) are one constructor each, since every guard treats them alike.
\<close>

section \<open>Values\<close>

datatype pyval =
    PNone
  | PBool bool
  | PInt int
  | PDec rat
  | PDec_Special
  | PFloat rat
  | PFloat_Special
  | PStr string
  | PList "pyval list"
  | PDict "(string \<times> pyval) list"

fun is_pstr :: "pyval \<Rightarrow> bool" where
  "is_pstr (PStr _) = True"
| "is_pstr _ = False"

fun is_pbool :: "pyval \<Rightarrow> bool" where
  "is_pbool (PBool _) = True"
| "is_pbool _ = False"

text \<open>The number Python's \<open>==\<close> compares: \<open>True\<close> is 1, and an \<open>int\<close> equals an equal \<open>Decimal\<close>.\<close>

fun py_num :: "pyval \<Rightarrow> rat option" where
  "py_num (PBool b) = Some (if b then 1 else 0)"
| "py_num (PInt n) = Some (of_int n)"
| "py_num (PDec q) = Some q"
| "py_num (PFloat q) = Some q"
| "py_num _ = None"

text \<open>
  Python's \<open>==\<close> on the scalar values a row's attributes are compared with. NaN equals nothing, and
  no infinity is ever compared; two containers are compared by structure.
\<close>

definition py_eq :: "pyval \<Rightarrow> pyval \<Rightarrow> bool" where
  "py_eq a b = (case (py_num a, py_num b) of
       (Some p, Some q) \<Rightarrow> p = q
     | (None, None) \<Rightarrow> a = b \<and> a \<noteq> PDec_Special \<and> a \<noteq> PFloat_Special
     | _ \<Rightarrow> False)"

lemma py_eq_str [simp]: "py_eq v (PStr s) \<longleftrightarrow> v = PStr s" "py_eq (PStr s) v \<longleftrightarrow> v = PStr s"
  by (cases v; auto simp: py_eq_def)+

lemma py_eq_int: "py_eq v (PInt n) \<longleftrightarrow> py_num v = Some (of_int n)"
  by (cases v) (auto simp: py_eq_def)

section \<open>Whole numbers\<close>

definition rat_whole :: "rat \<Rightarrow> int option" where
  "rat_whole q = (if of_int \<lfloor>q\<rfloor> = q then Some \<lfloor>q\<rfloor> else None)"

lemma rat_whole_of_int [simp]: "rat_whole (of_int n) = Some n"
  by (simp add: rat_whole_def)

lemma rat_whole_SomeD: "rat_whole q = Some n \<Longrightarrow> q = of_int n"
  by (auto simp: rat_whole_def split: if_splits)

text \<open>
  \<open>stored_int\<close> of \<open>db/dynamodb.py\<close>: a whole number as the table gives it back; a \<open>bool\<close> is none,
  a \<open>Decimal\<close> or \<open>float\<close> only when it is integral.
\<close>

fun stored_int :: "pyval \<Rightarrow> int option" where
  "stored_int (PBool _) = None"
| "stored_int (PInt n) = Some n"
| "stored_int (PDec q) = rat_whole q"
| "stored_int (PFloat q) = rat_whole q"
| "stored_int _ = None"

text \<open>The \<open>int\<close>-or-integral-\<open>Decimal\<close> reading inside the repositories' own count guards.\<close>

fun exact_int :: "pyval \<Rightarrow> int option" where
  "exact_int (PBool _) = None"
| "exact_int (PInt n) = Some n"
| "exact_int (PDec q) = rat_whole q"
| "exact_int _ = None"

lemma exact_int_py_num: "exact_int v = Some n \<Longrightarrow> py_num v = Some (of_int n)"
  by (cases v) (auto dest: rat_whole_SomeD)

lemma exact_int_stored_int: "exact_int v = Some n \<Longrightarrow> stored_int v = Some n"
  by (cases v) auto

text \<open>\<open>models/allowance.py\<close>: the largest exact count, \<open>(1 << 63) - 1\<close>.\<close>

definition MAX_EXACT_COUNT :: int where
  "MAX_EXACT_COUNT = 2 ^ 63 - 1"

lemma MAX_EXACT_COUNT_value: "MAX_EXACT_COUNT = 9223372036854775807"
  by (simp add: MAX_EXACT_COUNT_def)

text \<open>The range guard shared by \<open>weekly_counter._whole\<close> and \<open>allowance_repo._stored_count\<close>.\<close>

definition whole_in_range :: "bool \<Rightarrow> pyval \<Rightarrow> int option" where
  "whole_in_range positive v =
     (case exact_int v of
        None \<Rightarrow> None
      | Some n \<Rightarrow> if (if positive then 1 else 0) \<le> n \<and> n \<le> MAX_EXACT_COUNT then Some n else None)"

lemma whole_in_range_SomeD:
  assumes "whole_in_range p v = Some n"
  shows "exact_int v = Some n" and "0 \<le> n" and "n \<le> MAX_EXACT_COUNT" and "p \<Longrightarrow> 1 \<le> n"
  using assms by (auto simp: whole_in_range_def split: option.splits if_splits)

lemma whole_in_range_PInt [simp]:
  "whole_in_range p (PInt n) = (if (if p then 1 else 0) \<le> n \<and> n \<le> MAX_EXACT_COUNT then Some n else None)"
  by (simp add: whole_in_range_def)

section \<open>Texts\<close>

text \<open>
  \<open>allowance_repo._required_text\<close>: a \<open>str\<close> without surrounding whitespace, of 1 to
  \<open>maximum\<close> code points.
\<close>

definition required_text :: "nat \<Rightarrow> pyval \<Rightarrow> string option" where
  "required_text maximum v =
     (case v of
        PStr s \<Rightarrow> if s = strip s \<and> 1 \<le> length s \<and> length s \<le> maximum then Some s else None
      | _ \<Rightarrow> None)"

text \<open>\<open>allowance_repo._sha256\<close>: sixty-four lowercase hexadecimal digits.\<close>

definition sha256_text :: "pyval \<Rightarrow> string option" where
  "sha256_text v =
     (case required_text 64 v of None \<Rightarrow> None | Some s \<Rightarrow> if sha_text s then Some s else None)"

lemma required_text_SomeD:
  assumes "required_text n v = Some s"
  shows "v = PStr s" and "s = strip s" and "1 \<le> length s" and "length s \<le> n"
  using assms by (auto simp: required_text_def split: pyval.splits if_splits)

lemma hex_digit_not_space: "hex_digit c \<Longrightarrow> \<not> py_space c"
  by (auto simp: hex_digit_def py_space_def)

lemma strip_sha_text: "sha_text s \<Longrightarrow> strip s = s"
proof -
  assume s: "sha_text s"
  have keep: "list_all hex_digit xs \<Longrightarrow> dropWhile py_space xs = xs" for xs
    by (cases xs) (auto dest: hex_digit_not_space)
  from s have "list_all hex_digit s" by (simp add: sha_text_def)
  then show "strip s = s" by (simp add: strip_def keep)
qed

lemma sha256_text_PStr [simp]: "sha256_text (PStr s) = (if sha_text s then Some s else None)"
proof (cases "sha_text s")
  case True
  then have "strip s = s" "length s = 64" by (simp_all add: strip_sha_text sha_text_def)
  with True show ?thesis by (simp add: sha256_text_def required_text_def)
next
  case False
  then show ?thesis by (auto simp: sha256_text_def split: option.splits dest: required_text_SomeD)
qed

lemma sha256_text_SomeD: "sha256_text v = Some s \<Longrightarrow> v = PStr s \<and> sha_text s"
  by (auto simp: sha256_text_def split: option.splits if_splits dest: required_text_SomeD)

text \<open>A \<open>StrEnum\<close> or text attribute read as a boolean: \<open>allowance_repo._stored_bool\<close>.\<close>

fun stored_bool :: "pyval \<Rightarrow> bool option" where
  "stored_bool (PBool b) = Some b"
| "stored_bool _ = None"

section \<open>Rows\<close>

text \<open>
  A row is a mapping from attribute names to values. \<open>item_get\<close> is \<open>item.get(name)\<close>, which is
  \<open>None\<close> for an absent attribute; \<open>dict_of\<close> is a dict literal and \<open>i ++ j\<close> is \<open>{**i, **j}\<close>.
\<close>

type_synonym item = "string \<Rightarrow> pyval option"

definition item_get :: "item \<Rightarrow> string \<Rightarrow> pyval" where
  "item_get i a = (case i a of None \<Rightarrow> PNone | Some v \<Rightarrow> v)"

definition dict_of :: "(string \<times> pyval) list \<Rightarrow> item" where
  "dict_of kvs = map_of kvs"

lemma item_get_dict_Nil [row_lookup]: "item_get (dict_of []) a = PNone"
  by (simp add: item_get_def dict_of_def)

lemma item_get_dict_Cons [row_lookup]:
  "item_get (dict_of ((b, v) # kvs)) a = (if a = b then v else item_get (dict_of kvs) a)"
  by (simp add: item_get_def dict_of_def)

lemma item_get_upd [row_lookup]:
  "item_get (i(b \<mapsto> v)) a = (if a = b then v else item_get i a)"
  by (simp add: item_get_def)

lemma item_get_merge_Nil [row_lookup]: "item_get (i ++ dict_of []) a = item_get i a"
  by (simp add: item_get_def dict_of_def map_add_def)

lemma item_get_merge_Cons [row_lookup]:
  "item_get (i ++ dict_of ((b, v) # kvs)) a = (if a = b then v else item_get (i ++ dict_of kvs) a)"
  by (simp add: item_get_def dict_of_def map_add_def)

lemma dict_of_None: "dict_of kvs a = None \<longleftrightarrow> a \<notin> fst ` set kvs"
  by (simp add: dict_of_def map_of_eq_None_iff)

lemma merge_None: "(i ++ dict_of kvs) a = None \<longleftrightarrow> i a = None \<and> a \<notin> fst ` set kvs"
  by (auto simp: map_add_None dict_of_None)

text \<open>Lists and dicts cannot be members of a set: \<open>in\<close> raises \<open>TypeError\<close>.\<close>

fun unhashable :: "pyval \<Rightarrow> bool" where
  "unhashable (PList _) = True"
| "unhashable (PDict _) = True"
| "unhashable _ = False"

end
