(* ===== verification/Table_Store.thy ===== *)
theory Table_Store
  imports Py_Value
begin

text \<open>
  The single DynamoDB table as the repositories use it: strongly consistent reads of one row and
  atomic conditional transactions (\<open>TransactWriteItems\<close>).

  The service is not part of the repository. The operations below therefore take a client
  (\<open>'w db\<close>: a read and a transaction over a world \<open>'w\<close>) as an argument, and the locale
  \<open>store\<close> states what the service documents: a read returns the stored row or fails, a transaction
  that reports success was applied atomically with every condition holding, and one that reports
  an error may still have been applied (a lost response). Between any two calls other clients may
  act; what they may do is the relation \<open>env\<close>.

  The condition and update semantics are those of the repository's own double of the table,
  \<open>tests/fakes/dynamodb.py\<close>, and the serialization rule (numbers come back as \<open>Decimal\<close>, a
  top-level \<open>None\<close> is not written) that of \<open>account_deletion_repo._serialize_operation\<close>.
\<close>

section \<open>Conditions and write operations\<close>

type_synonym key = "string \<times> string"

type_synonym table = "key \<Rightarrow> item option"

datatype cond =
    C_True
  | C_Absent string
  | C_Present string
  | C_Eq string pyval
  | C_After string string
  | C_And cond cond
  | C_Or cond cond
  | C_Below string int
  | C_Above string int

datatype upd =
    U_Set string pyval
  | U_Set_If_Absent string pyval
  | U_Add string int
  | U_Remove string

datatype op =
    Put item cond
  | Check key cond
  | Update key "upd list" cond

text \<open>A value as it comes back from the table.\<close>

fun as_stored :: "pyval \<Rightarrow> pyval" where
  "as_stored (PInt n) = PDec (of_int n)"
| "as_stored (PFloat q) = PDec q"
| "as_stored (PFloat_Special) = PDec_Special"
| "as_stored (PList vs) = PList (map as_stored vs)"
| "as_stored (PDict kvs) = PDict (map (\<lambda>(k, v). (k, as_stored v)) kvs)"
| "as_stored v = v"

text \<open>A put row as it is serialized: top-level \<open>None\<close> attributes are left out.\<close>

definition stored_item :: "item \<Rightarrow> item" where
  "stored_item i = (\<lambda>a. case i a of
       None \<Rightarrow> None
     | Some v \<Rightarrow> if v = PNone then None else Some (as_stored v))"

lemma as_stored_PNone [simp]: "as_stored v = PNone \<longleftrightarrow> v = PNone"
  by (cases v) auto

lemma as_stored_PStr [simp]: "as_stored v = PStr s \<longleftrightarrow> v = PStr s"
  by (cases v) auto

lemma as_stored_PBool [simp]: "as_stored v = PBool b \<longleftrightarrow> v = PBool b"
  by (cases v) auto

lemma as_stored_idem [simp]: "as_stored (as_stored v) = as_stored v"
proof (induction v)
  case (PDict kvs)
  then show ?case by (auto simp: snds.simps)
qed auto

lemma py_num_as_stored [simp]: "py_num (as_stored v) = py_num v" if "\<not> is_pbool v"
  using that by (cases v) auto

lemma exact_int_as_stored: "exact_int v = Some n \<Longrightarrow> exact_int (as_stored v) = Some n"
  by (cases v) auto

lemma whole_in_range_as_stored:
  "whole_in_range p v = Some n \<Longrightarrow> whole_in_range p (as_stored v) = Some n"
  by (auto simp: whole_in_range_def exact_int_as_stored split: option.splits if_splits
      dest: exact_int_as_stored)

lemma required_text_as_stored [simp]: "required_text n (as_stored v) = required_text n v"
  by (cases v) (auto simp: required_text_def)

lemma sha256_text_as_stored [simp]: "sha256_text (as_stored v) = sha256_text v"
  by (simp add: sha256_text_def)

lemma stored_bool_as_stored [simp]: "stored_bool (as_stored v) = stored_bool v"
  by (cases v) auto

lemma item_get_stored [row_lookup]: "item_get (stored_item i) a = as_stored (item_get i a)"
  by (auto simp: item_get_def stored_item_def split: option.splits)

lemma stored_item_None: "stored_item i a = None \<longleftrightarrow> item_get i a = PNone"
  by (auto simp: item_get_def stored_item_def split: option.splits)

text \<open>
  Equality in a condition: the attribute must be present, numbers compare as numbers, and a
  boolean is not a number (unlike in Python).
\<close>

definition db_eq :: "pyval \<Rightarrow> pyval \<Rightarrow> bool" where
  "db_eq stored expected = (as_stored stored = as_stored expected)"

text \<open>
  Texts are compared by their UTF-8 bytes, that is by the code of each character; a comparison with a
  text holds of texts only, and one with a number of numbers only.
\<close>

fun text_less :: "string \<Rightarrow> string \<Rightarrow> bool" where
  "text_less [] [] = False"
| "text_less [] (d # ds) = True"
| "text_less (c # cs) [] = False"
| "text_less (c # cs) (d # ds) =
     ((of_char c :: nat) < of_char d \<or> (c = d \<and> text_less cs ds))"

lemma text_less_irrefl [simp]: "\<not> text_less s s"
  by (induction s) auto

lemma text_less_trans: "text_less a b \<Longrightarrow> text_less b c \<Longrightarrow> text_less a c"
proof (induction a b arbitrary: c rule: text_less.induct)
  case (4 x xs y ys)
  then show ?case by (cases c) auto
qed (auto elim: text_less.elims)

primrec cond_holds :: "cond \<Rightarrow> item \<Rightarrow> bool" where
  "cond_holds C_True i = True"
| "cond_holds (C_Absent a) i = (i a = None)"
| "cond_holds (C_Present a) i = (i a \<noteq> None)"
| "cond_holds (C_Eq a v) i = (case i a of None \<Rightarrow> False | Some u \<Rightarrow> db_eq u v)"
| "cond_holds (C_After a s) i = (case item_get i a of PStr u \<Rightarrow> text_less s u | _ \<Rightarrow> False)"
| "cond_holds (C_And c d) i = (cond_holds c i \<and> cond_holds d i)"
| "cond_holds (C_Or c d) i = (cond_holds c i \<or> cond_holds d i)"
| "cond_holds (C_Below a n) i = (case as_stored (item_get i a) of PDec q \<Rightarrow> q < of_int n | _ \<Rightarrow> False)"
| "cond_holds (C_Above a n) i = (case as_stored (item_get i a) of PDec q \<Rightarrow> of_int n < q | _ \<Rightarrow> False)"

lemmas cond_holds_And = cond_holds.simps(6)

definition row_at :: "table \<Rightarrow> key \<Rightarrow> item" where
  "row_at t k = (case t k of None \<Rightarrow> Map.empty | Some i \<Rightarrow> i)"

definition item_key :: "item \<Rightarrow> key option" where
  "item_key i = (case (item_get i ''PK'', item_get i ''SK'') of
       (PStr p, PStr s) \<Rightarrow> Some (p, s)
     | _ \<Rightarrow> None)"

fun op_key :: "op \<Rightarrow> key option" where
  "op_key (Put i c) = item_key i"
| "op_key (Check k c) = Some k"
| "op_key (Update k us c) = Some k"

fun op_cond :: "op \<Rightarrow> cond" where
  "op_cond (Put i c) = c"
| "op_cond (Check k c) = c"
| "op_cond (Update k us c) = c"

definition op_ok :: "table \<Rightarrow> op \<Rightarrow> bool" where
  "op_ok t oper = (case op_key oper of None \<Rightarrow> False | Some k \<Rightarrow> cond_holds (op_cond oper) (row_at t k))"

definition num_plus :: "pyval \<Rightarrow> int \<Rightarrow> pyval" where
  "num_plus v n = (case py_num v of Some q \<Rightarrow> PDec (q + of_int n) | None \<Rightarrow> PDec (of_int n))"

fun upd_apply :: "item \<Rightarrow> upd \<Rightarrow> item \<Rightarrow> item" where
  "upd_apply old (U_Set a v) i = i(a \<mapsto> as_stored v)"
| "upd_apply old (U_Set_If_Absent a v) i = (if old a = None then i(a \<mapsto> as_stored v) else i)"
| "upd_apply old (U_Add a n) i = i(a \<mapsto> num_plus (item_get old a) n)"
| "upd_apply old (U_Remove a) i = i(a := None)"

definition updated_row :: "key \<Rightarrow> upd list \<Rightarrow> item option \<Rightarrow> item" where
  "updated_row k us old =
     (let base = (case old of
            None \<Rightarrow> dict_of [(''PK'', PStr (fst k)), (''SK'', PStr (snd k))]
          | Some i \<Rightarrow> i)
      in fold (upd_apply base) us base)"

fun op_write :: "op \<Rightarrow> table \<Rightarrow> table" where
  "op_write (Put i c) t = (case item_key i of None \<Rightarrow> t | Some k \<Rightarrow> t(k \<mapsto> stored_item i))"
| "op_write (Check k c) t = t"
| "op_write (Update k us c) t = t(k \<mapsto> updated_row k us (t k))"

text \<open>
  One transaction: no two operations on the same row, every condition judged against the row
  before the transaction, then every write.
\<close>

definition tx_apply :: "op list \<Rightarrow> table \<Rightarrow> table option" where
  "tx_apply ops t =
     (if distinct (map op_key ops) \<and> list_all (op_ok t) ops then Some (fold op_write ops t) else None)"

lemma tx_applyD:
  assumes "tx_apply ops t = Some t'"
  shows "distinct (map op_key ops)" and "\<And>oper. oper \<in> set ops \<Longrightarrow> op_ok t oper"
    and "t' = fold op_write ops t"
  using assms by (auto simp: tx_apply_def list_all_iff split: if_splits)

lemma op_ok_Put: "item_key i = Some k \<Longrightarrow> op_ok t (Put i c) \<longleftrightarrow> cond_holds c (row_at t k)"
  by (simp add: op_ok_def)

lemma op_ok_Check [simp]: "op_ok t (Check k c) \<longleftrightarrow> cond_holds c (row_at t k)"
  by (simp add: op_ok_def)

lemma op_ok_Update [simp]: "op_ok t (Update k us c) \<longleftrightarrow> cond_holds c (row_at t k)"
  by (simp add: op_ok_def)

lemma finite_dom_op_write: "finite (dom t) \<Longrightarrow> finite (dom (op_write oper t))"
  by (cases oper) (auto split: option.splits)

lemma finite_dom_fold_write: "finite (dom t) \<Longrightarrow> finite (dom (fold op_write ops t))"
  by (induction ops arbitrary: t) (auto simp: finite_dom_op_write)

lemma tx_apply_finite: "tx_apply ops t = Some t' \<Longrightarrow> finite (dom t) \<Longrightarrow> finite (dom t')"
  by (auto simp: tx_apply_def finite_dom_fold_write split: if_splits)

lemma tx_apply_other:
  assumes "tx_apply ops t = Some t'" "Some k \<notin> op_key ` set ops"
  shows "t' k = t k"
proof -
  have "Some k \<notin> op_key ` set os \<Longrightarrow> fold op_write os u k = u k" for os u
  proof (induction os arbitrary: u)
    case (Cons oper os)
    moreover from Cons.prems have "op_write oper u k = u k"
      by (cases oper) (auto split: option.splits)
    ultimately show ?case by simp
  qed simp
  with assms show ?thesis by (auto dest!: tx_applyD(3))
qed

text \<open>
  The create-only condition the repositories put on a new row: it can hold only where no row with
  a key is stored, since every stored row carries its own key attributes.
\<close>

definition keyed :: "table \<Rightarrow> bool" where
  "keyed t = (\<forall>k i. t k = Some i \<longrightarrow> item_key i = Some k)"

abbreviation create_only :: cond where
  "create_only \<equiv> C_And (C_Absent ''PK'') (C_Absent ''SK'')"

lemma keyed_create_only: "keyed t \<Longrightarrow> cond_holds create_only (row_at t k) \<longleftrightarrow> t k = None"
proof (cases "t k")
  case (Some i)
  assume "keyed t"
  then have "item_key i = Some k" using Some unfolding keyed_def by blast
  then have "i ''PK'' \<noteq> None"
    by (auto simp: item_key_def item_get_def split: option.splits pyval.splits)
  with Some show ?thesis by (simp add: row_at_def)
qed (simp add: row_at_def)

lemma item_key_stored: "item_key (stored_item i) = item_key i"
  by (auto simp: item_key_def row_lookup split: pyval.splits)

section \<open>The client\<close>

datatype response = Resp_Failed | Resp_Malformed | Resp_None | Resp_Item item

record 'w db =
  db_get :: "key \<Rightarrow> 'w \<Rightarrow> response \<times> 'w"
  db_tx :: "op list \<Rightarrow> 'w \<Rightarrow> bool \<times> 'w"

text \<open>
  \<open>_strong_get\<close> of \<open>allowance_repo.py\<close> (and its copies in the other repositories): any exception
  of the client and any malformed answer is the repository's own dependency failure.
\<close>

definition strong_get :: "'w db \<Rightarrow> key \<Rightarrow> 'w \<Rightarrow> item option result \<times> 'w" where
  "strong_get db k w =
     (case db_get db k w of
        (Resp_Failed, w') \<Rightarrow> (Inl Dependency_Failure, w')
      | (Resp_Malformed, w') \<Rightarrow> (Inl Dependency_Failure, w')
      | (Resp_None, w') \<Rightarrow> (Inr None, w')
      | (Resp_Item i, w') \<Rightarrow> (Inr (Some i), w'))"

text \<open>What the service documents, with other clients acting between calls as \<open>env\<close> allows.\<close>

locale store =
  fixes db :: "'w db" and rows :: "'w \<Rightarrow> table" and env :: "table \<Rightarrow> table \<Rightarrow> bool"
  assumes env_refl: "env t t"
    and env_trans: "env t t' \<Longrightarrow> env t' t'' \<Longrightarrow> env t t''"
    and get_env: "db_get db k w = (r, w') \<Longrightarrow> env (rows w) (rows w')"
    and get_item: "db_get db k w = (Resp_Item i, w') \<Longrightarrow> rows w' k = Some i"
    and get_none: "db_get db k w = (Resp_None, w') \<Longrightarrow> rows w' k = None"
    and tx_committed: "db_tx db ops w = (True, w') \<Longrightarrow>
        \<exists>t t'. env (rows w) t \<and> tx_apply ops t = Some t' \<and> env t' (rows w')"
    and tx_failed: "db_tx db ops w = (False, w') \<Longrightarrow>
        env (rows w) (rows w') \<or>
        (\<exists>t t'. env (rows w) t \<and> tx_apply ops t = Some t' \<and> env t' (rows w'))"

context store
begin

lemma strong_get_env: "strong_get db k w = (r, w') \<Longrightarrow> env (rows w) (rows w')"
  by (auto simp: strong_get_def split: prod.splits response.splits dest: get_env)

lemma strong_get_row: "strong_get db k w = (Inr r, w') \<Longrightarrow> rows w' k = r"
  by (auto simp: strong_get_def split: prod.splits response.splits dest: get_item get_none)

lemma strong_get_error: "strong_get db k w = (Inl e, w') \<Longrightarrow> e = Dependency_Failure"
  by (auto simp: strong_get_def split: prod.splits response.splits)

text \<open>
  The rule every client proof uses: if the environment's steps and the transaction itself are
  steps of a reflexive, transitive relation \<open>run\<close>, then so is the whole call, whether its answer
  arrived or not.
\<close>

lemma tx_run:
  assumes env: "\<And>t t'. env t t' \<Longrightarrow> run t t'" and trans: "\<And>a b c. run a b \<Longrightarrow> run b c \<Longrightarrow> run a c"
    and step: "\<And>t t'. env (rows w) t \<Longrightarrow> tx_apply ops t = Some t' \<Longrightarrow> run t t'"
    and call: "db_tx db ops w = (ok, w')"
  shows "run (rows w) (rows w')"
proof (cases ok)
  case True
  with call have "db_tx db ops w = (True, w')" by simp
  from tx_committed [OF this] obtain t t' where
    "env (rows w) t" "tx_apply ops t = Some t'" "env t' (rows w')" by blast
  with env trans step show ?thesis by metis
next
  case False
  with call have "db_tx db ops w = (False, w')" by simp
  from tx_failed [OF this] consider "env (rows w) (rows w')"
    | t t' where "env (rows w) t" "tx_apply ops t = Some t'" "env t' (rows w')" by blast
  then show ?thesis
  proof cases
    case 1
    then show ?thesis by (rule env)
  next
    case 2
    with env trans step show ?thesis by metis
  qed
qed

end

section \<open>A scripted table\<close>

text \<open>
  The repository's double of the table, with a script of what happens around each call: what other
  clients do first (\<open>act\<close> runs one of their commands), and whether the call is answered, dropped
  before it reaches the table, or applied with its answer lost. An exhausted script is a quiet
  table.
\<close>

datatype fate = Answered | Dropped | Answer_Lost

record 'c world =
  tbl :: table
  script :: "('c list \<times> fate) list"

definition next_event :: "('c \<Rightarrow> table \<Rightarrow> table) \<Rightarrow> 'c world \<Rightarrow> fate \<times> 'c world" where
  "next_event act w = (case script w of
       [] \<Rightarrow> (Answered, w)
     | (others, f) # rest \<Rightarrow> (f, w\<lparr>tbl := fold act others (tbl w), script := rest\<rparr>))"

definition world_get :: "('c \<Rightarrow> table \<Rightarrow> table) \<Rightarrow> key \<Rightarrow> 'c world \<Rightarrow> response \<times> 'c world" where
  "world_get act k w = (case next_event act w of
       (Answered, w') \<Rightarrow> (case tbl w' k of None \<Rightarrow> Resp_None | Some i \<Rightarrow> Resp_Item i, w')
     | (_, w') \<Rightarrow> (Resp_Failed, w'))"

definition world_tx :: "('c \<Rightarrow> table \<Rightarrow> table) \<Rightarrow> op list \<Rightarrow> 'c world \<Rightarrow> bool \<times> 'c world" where
  "world_tx act ops w = (case next_event act w of
       (Dropped, w') \<Rightarrow> (False, w')
     | (f, w') \<Rightarrow> (case tx_apply ops (tbl w') of
           None \<Rightarrow> (False, w')
         | Some t \<Rightarrow> (f = Answered, w'\<lparr>tbl := t\<rparr>)))"

definition world_db :: "('c \<Rightarrow> table \<Rightarrow> table) \<Rightarrow> 'c world db" where
  "world_db act = \<lparr>db_get = world_get act, db_tx = world_tx act\<rparr>"

definition acts :: "('c \<Rightarrow> table \<Rightarrow> table) \<Rightarrow> table \<Rightarrow> table \<Rightarrow> bool" where
  "acts act t t' = (\<exists>cs. t' = fold act cs t)"

lemma acts_refl: "acts act t t"
  unfolding acts_def by (rule exI [of _ "[]"]) simp

lemma acts_trans: "acts act a b \<Longrightarrow> acts act b c \<Longrightarrow> acts act a c"
  unfolding acts_def by (metis fold_append comp_apply)

lemma next_event_acts: "next_event act w = (f, w') \<Longrightarrow> acts act (tbl w) (tbl w')"
  by (auto simp: next_event_def acts_def split: list.splits prod.splits intro: exI [of _ "[]"])

interpretation scripted: store "world_db act" tbl "acts act" for act :: "'c \<Rightarrow> table \<Rightarrow> table"
proof unfold_locales
  fix k r and w w' :: "'c world"
  assume "db_get (world_db act) k w = (r, w')"
  then show "acts act (tbl w) (tbl w')"
    by (auto simp: world_db_def world_get_def split: prod.splits fate.splits option.splits
        dest: next_event_acts)
next
  fix ops and w w' :: "'c world"
  assume "db_tx (world_db act) ops w = (True, w')"
  then show "\<exists>t t'. acts act (tbl w) t \<and> tx_apply ops t = Some t' \<and> acts act t' (tbl w')"
    by (auto simp: world_db_def world_tx_def acts_refl split: prod.splits fate.splits
        option.splits dest!: next_event_acts)
next
  fix ops and w w' :: "'c world"
  assume "db_tx (world_db act) ops w = (False, w')"
  then show "acts act (tbl w) (tbl w') \<or>
      (\<exists>t t'. acts act (tbl w) t \<and> tx_apply ops t = Some t' \<and> acts act t' (tbl w'))"
    by (auto simp: world_db_def world_tx_def acts_refl split: prod.splits fate.splits
        option.splits dest!: next_event_acts)
qed (auto simp: world_db_def world_get_def acts_refl split: prod.splits fate.splits option.splits
    intro: acts_trans)

text \<open>In the world \<open>w\<close> every read answers from the table \<open>t\<close> and changes nothing.\<close>

definition reads_as :: "'w db \<Rightarrow> 'w \<Rightarrow> table \<Rightarrow> bool" where
  "reads_as db w t =
     (\<forall>k. db_get db k w = (case t k of None \<Rightarrow> Resp_None | Some i \<Rightarrow> Resp_Item i, w))"

lemma reads_as_get: "reads_as db w t \<Longrightarrow> db_get db k w = (case t k of None \<Rightarrow> Resp_None | Some i \<Rightarrow> Resp_Item i, w)"
  unfolding reads_as_def by blast

lemma silent_reads_as: "script w = [] \<Longrightarrow> reads_as (world_db act) w (tbl w)"
  by (simp add: reads_as_def world_db_def world_get_def next_event_def)

lemma silent_tx:
  "script w = [] \<Longrightarrow> db_tx (world_db act) ops w =
     (case tx_apply ops (tbl w) of None \<Rightarrow> (False, w) | Some t \<Rightarrow> (True, w\<lparr>tbl := t\<rparr>))"
  by (simp add: world_db_def world_tx_def next_event_def split: option.split)

text \<open>The table with nobody else on it: every call is answered, and nothing happens in between.\<close>

definition table_get :: "key \<Rightarrow> table \<Rightarrow> response \<times> table" where
  "table_get k t = (case t k of None \<Rightarrow> Resp_None | Some i \<Rightarrow> Resp_Item i, t)"

definition table_tx :: "op list \<Rightarrow> table \<Rightarrow> bool \<times> table" where
  "table_tx ops t = (case tx_apply ops t of None \<Rightarrow> (False, t) | Some t' \<Rightarrow> (True, t'))"

definition table_db :: "table db" where
  "table_db = \<lparr>db_get = table_get, db_tx = table_tx\<rparr>"

interpretation alone: store table_db "\<lambda>t. t" "(=)"
  by unfold_locales
    (auto simp: table_db_def table_get_def table_tx_def split: option.splits)

lemma table_reads_as: "reads_as table_db t t"
  by (simp add: reads_as_def table_db_def table_get_def)

text \<open>A client that commits one arbitrary transaction.\<close>

definition foreign :: "op list \<Rightarrow> table \<Rightarrow> table" where
  "foreign ops t = (case tx_apply ops t of None \<Rightarrow> t | Some t' \<Rightarrow> t')"

end
