(* ===== verification/Account_Fence.thy ===== *)
theory Account_Fence
  imports Table_Store
begin

text \<open>
  The account lifecycle fence (\<open>db/repositories/account_deletion_repo.py\<close>): one row per account
  with a status and a generation. Every ledger transaction carries a condition on it, so nothing is
  written for an account whose deletion has begun.
\<close>

definition required_user :: "string \<Rightarrow> string result" where
  "required_user u = (if strip u = [] then Inl Account_Conflict else Inr (strip u))"

definition account_fence_key :: "string \<Rightarrow> key result" where
  "account_fence_key u = (case required_user u of
       Inl e \<Rightarrow> Inl e
     | Inr v \<Rightarrow> Inr (''USER#'' @ v, ''ACCOUNT_FENCE''))"

definition active_fence_condition :: "string \<Rightarrow> int option \<Rightarrow> op result" where
  "active_fence_condition u generation =
     (case generation of
        None \<Rightarrow>
          (case account_fence_key u of
             Inl e \<Rightarrow> Inl e
           | Inr k \<Rightarrow> Inr (Check k (C_Eq ''status'' (PStr ''active''))))
      | Some g \<Rightarrow>
          if g \<le> 0 then Inl Account_Conflict
          else (case account_fence_key u of
              Inl e \<Rightarrow> Inl e
            | Inr k \<Rightarrow> Inr (Check k (C_And (C_Eq ''status'' (PStr ''active''))
                                          (C_Eq ''generation'' (PInt g))))))"

text \<open>
  \<open>get_account_fence\<close>: unlike the ledgers' own reads this one lets an exception of the table
  client through; an answer that is not a mapping is the lifecycle conflict.
\<close>

definition get_account_fence :: "'w db \<Rightarrow> string \<Rightarrow> 'w \<Rightarrow> item option result \<times> 'w" where
  "get_account_fence db u w =
     (case account_fence_key u of
        Inl e \<Rightarrow> (Inl e, w)
      | Inr k \<Rightarrow>
          (case db_get db k w of
             (Resp_Failed, w') \<Rightarrow> (Inl Provider_Error, w')
           | (Resp_Malformed, w') \<Rightarrow> (Inl Account_Conflict, w')
           | (Resp_None, w') \<Rightarrow> (Inr None, w')
           | (Resp_Item i, w') \<Rightarrow> (Inr (Some i), w')))"

text \<open>
  Python's \<open>int(v)\<close> on a stored value: truncation towards zero for a number, a decimal text read
  as a number (digit-group underscores aside), \<open>TypeError\<close> or \<open>ValueError\<close> (here \<open>None\<close>)
  otherwise.
\<close>

definition truncate :: "rat \<Rightarrow> int" where
  "truncate q = (if 0 \<le> q then \<lfloor>q\<rfloor> else - \<lfloor>- q\<rfloor>)"

definition ascii_digit :: "char \<Rightarrow> bool" where
  "ascii_digit c = (c \<in> set ''0123456789'')"

definition unsigned_text :: "string \<Rightarrow> int option" where
  "unsigned_text s = (if s \<noteq> [] \<and> list_all ascii_digit s then Some (int (text_nat s)) else None)"

fun signed_text :: "string \<Rightarrow> int option" where
  "signed_text (CHR ''-'' # s) = map_option uminus (unsigned_text s)"
| "signed_text (CHR ''+'' # s) = unsigned_text s"
| "signed_text s = unsigned_text s"

fun py_int :: "pyval \<Rightarrow> int option" where
  "py_int (PBool b) = Some (if b then 1 else 0)"
| "py_int (PInt n) = Some n"
| "py_int (PDec q) = Some (truncate q)"
| "py_int (PFloat q) = Some (truncate q)"
| "py_int (PStr s) = signed_text (strip s)"
| "py_int _ = None"

text \<open>
  \<open>require_active_account_fence\<close>: the fence must be active with a positive generation, equal to
  the one asked for when one is given; the row is returned with the generation as an \<open>int\<close>.
\<close>

definition fence_generation :: "item \<Rightarrow> int" where
  "fence_generation i =
     (let raw = item_get i ''generation''
      in if raw = PNone then 0 else (case py_int raw of Some g \<Rightarrow> g | None \<Rightarrow> 0))"

definition require_active_account_fence ::
    "'w db \<Rightarrow> string \<Rightarrow> int option \<Rightarrow> 'w \<Rightarrow> item result \<times> 'w" where
  "require_active_account_fence db u generation w =
     (case get_account_fence db u w of
        (Inl e, w') \<Rightarrow> (Inl e, w')
      | (Inr None, w') \<Rightarrow> (Inl Account_Conflict, w')
      | (Inr (Some fence), w') \<Rightarrow>
          (if item_get fence ''status'' \<noteq> PStr ''active'' \<or> fence_generation fence \<le> 0
              \<or> (case generation of None \<Rightarrow> False | Some g \<Rightarrow> fence_generation fence \<noteq> g)
           then (Inl Account_Conflict, w')
           else (Inr (fence(''generation'' \<mapsto> PInt (fence_generation fence))), w')))"

section \<open>What a passed fence says\<close>

definition fence_active :: "table \<Rightarrow> string \<Rightarrow> int \<Rightarrow> bool" where
  "fence_active t u g =
     (case t (''USER#'' @ strip u, ''ACCOUNT_FENCE'') of
        None \<Rightarrow> False
      | Some i \<Rightarrow> item_get i ''status'' = PStr ''active'' \<and> as_stored (item_get i ''generation'') = PDec (of_int g))"

lemma db_eq_str [simp]: "db_eq v (PStr s) \<longleftrightarrow> v = PStr s"
  by (simp add: db_eq_def)

lemma db_eq_int [simp]: "db_eq v (PInt n) \<longleftrightarrow> as_stored v = PDec (of_int n)"
  by (simp add: db_eq_def)

lemma cond_eq_get:
  "v \<noteq> PNone \<Longrightarrow> cond_holds (C_Eq a v) i \<longleftrightarrow> as_stored (item_get i a) = as_stored v"
  by (cases v) (auto simp: item_get_def db_eq_def split: option.splits)

lemma active_fence_op_ok:
  assumes "active_fence_condition u (Some g) = Inr oper" "op_ok t oper"
  shows "fence_active t u g"
  using assms
  by (auto simp: active_fence_condition_def account_fence_key_def required_user_def fence_active_def
      row_at_def item_get_def split: option.splits if_splits sum.splits)

lemma fence_condition_holds:
  assumes "fence_active t u g" "1 \<le> g" "strip u \<noteq> []"
  obtains c where "active_fence_condition u (Some g) = Inr (Check (''USER#'' @ strip u, ''ACCOUNT_FENCE'') c)"
    "op_ok t (Check (''USER#'' @ strip u, ''ACCOUNT_FENCE'') c)"
proof -
  let ?c = "C_And (C_Eq ''status'' (PStr ''active'')) (C_Eq ''generation'' (PInt g))"
  from assms obtain i where i: "t (''USER#'' @ strip u, ''ACCOUNT_FENCE'') = Some i"
      "item_get i ''status'' = PStr ''active''" "as_stored (item_get i ''generation'') = PDec (of_int g)"
    by (auto simp: fence_active_def split: option.splits)
  have "active_fence_condition u (Some g) = Inr (Check (''USER#'' @ strip u, ''ACCOUNT_FENCE'') ?c)"
    using assms by (simp add: active_fence_condition_def account_fence_key_def required_user_def)
  moreover have "cond_holds ?c i"
    unfolding cond_holds_And by (subst cond_eq_get, simp)+ (simp add: i)
  then have "op_ok t (Check (''USER#'' @ strip u, ''ACCOUNT_FENCE'') ?c)" by (simp only: op_ok_Check row_at_def i option.case)
  ultimately show ?thesis by (rule that)
qed

text \<open>An active fence passes the strict read, and the condition of a write made right after.\<close>

lemma py_int_as_stored: "as_stored v = PDec (of_int g) \<Longrightarrow> py_int v = Some g"
  by (cases v) (auto simp: truncate_def)

lemma fence_read_passes:
  assumes "fence_active t u g" "1 \<le> g" "strip u \<noteq> []" "reads_as db w t"
  obtains fence where "require_active_account_fence db u None w = (Inr fence, w)"
    "fence_generation fence = g"
proof -
  from assms obtain i where i: "t (''USER#'' @ strip u, ''ACCOUNT_FENCE'') = Some i"
      "item_get i ''status'' = PStr ''active''" "as_stored (item_get i ''generation'') = PDec (of_int g)"
    by (auto simp: fence_active_def split: option.splits)
  from i(3) have "item_get i ''generation'' \<noteq> PNone" by auto
  with i(3) have "fence_generation i = g" by (simp add: fence_generation_def py_int_as_stored)
  with i assms have "require_active_account_fence db u None w
      = (Inr (i(''generation'' \<mapsto> PInt g)), w)"
    by (simp add: require_active_account_fence_def get_account_fence_def account_fence_key_def
        required_user_def reads_as_get)
  then show thesis by (rule that) (simp add: fence_generation_def row_lookup)
qed

lemma active_fence_shape:
  assumes "active_fence_condition u g = Inr oper"
  obtains c where "oper = Check (''USER#'' @ strip u, ''ACCOUNT_FENCE'') c"
  using assms
  by (auto simp: active_fence_condition_def account_fence_key_def required_user_def
      split: option.splits if_splits)

context store
begin

lemma get_account_fence_env: "get_account_fence db u w = (r, w') \<Longrightarrow> env (rows w) (rows w')"
  by (auto simp: get_account_fence_def env_refl split: sum.splits prod.splits response.splits
      dest: get_env)

lemma require_active_account_fence_env:
  "require_active_account_fence db u g w = (r, w') \<Longrightarrow> env (rows w) (rows w')"
  by (auto simp: require_active_account_fence_def split: sum.splits prod.splits option.splits if_splits
      dest!: get_account_fence_env)

end

end
