(* ===== verification/Zurich_Week.thy ===== *)
theory Zurich_Week
  imports Py_Value
begin

text \<open>
  The Zurich calendar week (\<open>models/allowance.py\<close>, \<open>ZurichWeek\<close>, and
  \<open>db/repositories/weekly_counter.py\<close>, \<open>zurich_week\<close>): Monday 00:00 to Monday 00:00 local time,
  named by its ISO week.

  An aware \<open>datetime\<close> is its instant in microseconds since 1970-01-01T00:00Z; a wall-clock
  reading is the same number without its offset. The time-zone database is not part of the
  repository: a zone is the list of its transitions (instant, new offset) with the offset before
  the first, which is what a compiled zone file holds, and every definition takes it as an
  argument. What the code relies on is stated by \<open>zurich_zone\<close>: the clock changes only on Sundays
  at 01:00 UTC and the offset is one or two hours.
\<close>

section \<open>Proleptic Gregorian days, as the standard library counts them\<close>

abbreviation (input) HOUR :: int where "HOUR \<equiv> 3600000000"
abbreviation (input) DAY :: int where "DAY \<equiv> 86400000000"
abbreviation (input) WEEK :: int where "WEEK \<equiv> 604800000000"

definition days_before_year :: "int \<Rightarrow> int" where
  "days_before_year y = (y - 1) * 365 + (y - 1) div 4 - (y - 1) div 100 + (y - 1) div 400"

definition year_of :: "int \<Rightarrow> int" where
  "year_of ordinal =
     (let n = ordinal - 1;
          n400 = n div 146097; a = n mod 146097;
          n100 = a div 36524; b = a mod 36524;
          n4 = b div 1461; c = b mod 1461;
          n1 = c div 365;
          y = n400 * 400 + n100 * 100 + n4 * 4 + n1 + 1
      in if n1 = 4 \<or> n100 = 4 then y - 1 else y)"

definition weekday :: "int \<Rightarrow> int" where
  "weekday ordinal = (ordinal + 6) mod 7"

definition isocalendar :: "int \<Rightarrow> int \<times> int" where
  "isocalendar ordinal =
     (let thursday = ordinal - weekday ordinal + 3; y = year_of thursday
      in (y, (thursday - days_before_year y - 1) div 7 + 1))"

definition ordinal_of :: "int \<Rightarrow> int" where
  "ordinal_of wall = wall div DAY + 719163"

section \<open>Zones\<close>

record zone =
  base_offset :: int
  transitions :: "(int \<times> int) list"

fun offset_at :: "int \<Rightarrow> (int \<times> int) list \<Rightarrow> int \<Rightarrow> int" where
  "offset_at off [] t = off"
| "offset_at off ((tau, new) # trs) t = (if t < tau then off else offset_at new trs t)"

text \<open>The offset of a wall-clock reading with \<open>fold = 0\<close>: the earlier offset in a gap or overlap.\<close>

fun wall_offset_at :: "int \<Rightarrow> (int \<times> int) list \<Rightarrow> int \<Rightarrow> int" where
  "wall_offset_at off [] x = off"
| "wall_offset_at off ((tau, new) # trs) x =
     (if x < tau + max off new then off else wall_offset_at new trs x)"

definition to_wall :: "zone \<Rightarrow> int \<Rightarrow> int" where
  "to_wall z t = t + offset_at (base_offset z) (transitions z) t"

definition from_wall :: "zone \<Rightarrow> int \<Rightarrow> int" where
  "from_wall z x = x - wall_offset_at (base_offset z) (transitions z) x"

definition sunday_0100 :: "int \<Rightarrow> bool" where
  "sunday_0100 tau = (tau mod WEEK = 3 * DAY + HOUR)"

definition zurich_zone :: "zone \<Rightarrow> bool" where
  "zurich_zone z =
     (base_offset z \<in> {HOUR, 2 * HOUR} \<and>
      list_all (\<lambda>(tau, new). sunday_0100 tau \<and> new \<in> {HOUR, 2 * HOUR}) (transitions z) \<and>
      sorted (map fst (transitions z)))"

section \<open>The week\<close>

datatype moment = Naive int | Aware int

record zweek =
  iso_year :: int
  iso_week :: int
  window_start :: int
  window_end :: int

definition week_identity :: "zweek \<Rightarrow> string" where
  "week_identity wk = padded 4 (nat (iso_year wk)) @ ''-W'' @ padded 2 (nat (iso_week wk))"

text \<open>
  \<open>ZurichWeek\<close>: the field bounds and \<open>validate_zurich_calendar_week\<close>. Both boundaries are
  Monday midnights in Zurich, seven wall-clock days apart, and the ISO coordinates are those of
  the start.
\<close>

definition monday_midnight :: "int \<Rightarrow> bool" where
  "monday_midnight x = (x mod DAY = 0 \<and> weekday (ordinal_of x) = 0)"

definition validate_zurich_calendar_week :: "zone \<Rightarrow> int \<Rightarrow> int \<Rightarrow> moment \<Rightarrow> moment \<Rightarrow> zweek result" where
  "validate_zurich_calendar_week z y w start stop =
     (if \<not> (1 \<le> y \<and> y \<le> 9999 \<and> 1 \<le> w \<and> w \<le> 53) then Inl Value_Error
      else case (start, stop) of
        (Aware s, Aware e) \<Rightarrow>
          (let ls = to_wall z s; le = to_wall z e
           in if \<not> monday_midnight ls \<or> \<not> monday_midnight le then Inl Value_Error
              else if le \<noteq> ls + 7 * DAY then Inl Value_Error
              else if (y, w) \<noteq> isocalendar (ordinal_of ls) then Inl Value_Error
              else Inr \<lparr>iso_year = y, iso_week = w, window_start = s, window_end = e\<rparr>)
      | _ \<Rightarrow> Inl Value_Error)"

definition zurich_week :: "zone \<Rightarrow> moment \<Rightarrow> zweek result" where
  "zurich_week z observed =
     (case observed of
        Naive _ \<Rightarrow> Inl Value_Error
      | Aware t \<Rightarrow>
          (let day = ordinal_of (to_wall z t);
               monday = day - weekday day;
               local_start = (monday - 719163) * DAY;
               local_end = (monday + 7 - 719163) * DAY;
               (y, w) = isocalendar monday
           in validate_zurich_calendar_week z y w
                (Aware (from_wall z local_start)) (Aware (from_wall z local_end))))"

section \<open>Calendar lemmas\<close>

lemma days_before_year_split:
  assumes "y - 1 = 400 * a + 100 * b + 4 * c + e"
    and "0 \<le> b" "b \<le> 3" "0 \<le> c" "c \<le> 24" "0 \<le> e" "e \<le> 3"
  shows "days_before_year y = 146097 * a + 36524 * b + 1461 * c + 365 * e"
proof -
  have "(y - 1) div 4 = 100 * a + 25 * b + c" using assms by linarith
  moreover have "(y - 1) div 100 = 4 * a + b" using assms by linarith
  moreover have "(y - 1) div 400 = a" using assms by linarith
  ultimately show ?thesis using assms(1) by (simp add: days_before_year_def)
qed

lemma int_div_succ:
  fixes z m :: int
  assumes "0 < m"
  shows "(z + 1) div m = z div m + (if m dvd z + 1 then 1 else 0)"
proof (cases "m dvd z + 1")
  case True
  then obtain k where "z + 1 = m * k" by (elim dvdE)
  then have "z = m * (k - 1) + (m - 1)" by (simp add: algebra_simps)
  then have "z div m = k - 1" using assms by (simp add: div_mult_self3)
  with True \<open>z + 1 = m * k\<close> assms show ?thesis by simp
next
  case False
  then have "(z + 1) mod m \<noteq> 0" by (simp add: dvd_eq_mod_eq_0)
  moreover have "0 \<le> (z + 1) mod m" "(z + 1) mod m < m" using assms by simp_all
  moreover have "z = m * ((z + 1) div m) + ((z + 1) mod m - 1)"
    using mult_div_mod_eq [of m "z + 1"] by linarith
  ultimately have "z div m = (z + 1) div m"
    by (intro int_div_pos_eq [where r = "(z + 1) mod m - 1"]) simp_all
  with False show ?thesis by simp
qed

lemma leap_step:
  fixes d4 d100 d400 a b c :: int
  assumes "p100 \<Longrightarrow> p4" "p400 \<Longrightarrow> p100"
    and "d4 = a + (if p4 then 1 else 0)" "d100 = b + (if p100 then 1 else 0)"
      "d400 = c + (if p400 then 1 else 0)"
  shows "d4 - d100 + d400 = a - b + c \<or> d4 - d100 + d400 = a - b + c + 1"
  using assms by (cases p4; cases p100; cases p400) auto

lemma days_before_year_mono: "days_before_year y + 365 \<le> days_before_year (y + 1)"
  and days_before_year_step: "days_before_year (y + 1) \<le> days_before_year y + 366"
proof -
  define z where "z = y - 1"
  have d4: "(z + 1) div 4 = z div 4 + (if 4 dvd z + 1 then 1 else 0)" by (rule int_div_succ) simp
  have d100: "(z + 1) div 100 = z div 100 + (if 100 dvd z + 1 then 1 else 0)" by (rule int_div_succ) simp
  have d400: "(z + 1) div 400 = z div 400 + (if 400 dvd z + 1 then 1 else 0)" by (rule int_div_succ) simp
  have le1: "100 dvd z + 1 \<Longrightarrow> 4 dvd z + 1" by (rule dvd_trans [of 4 100]) simp_all
  have le2: "400 dvd z + 1 \<Longrightarrow> 100 dvd z + 1" by (rule dvd_trans [of 100 400]) simp_all
  define l where "l = z div 4 - z div 100 + z div 400"
  have "(z + 1) div 4 - (z + 1) div 100 + (z + 1) div 400 = l \<or>
      (z + 1) div 4 - (z + 1) div 100 + (z + 1) div 400 = l + 1"
    unfolding l_def by (rule leap_step [OF le1 le2 d4 d100 d400])
  moreover have "days_before_year y = z * 365 + l"
    by (simp add: days_before_year_def z_def l_def)
  moreover have "days_before_year (y + 1)
      = (z + 1) * 365 + ((z + 1) div 4 - (z + 1) div 100 + (z + 1) div 400)"
    by (simp add: days_before_year_def z_def)
  ultimately show "days_before_year y + 365 \<le> days_before_year (y + 1)"
    and "days_before_year (y + 1) \<le> days_before_year y + 366"
    by auto
qed

lemma year_of_bounds:
  "days_before_year (year_of d) < d \<and> d \<le> days_before_year (year_of d + 1)"
proof -
  define n a b c where "n = d - 1" and "a = n mod 146097" and "b = a mod 36524" and "c = b mod 1461"
  define n400 n100 n4 n1 where "n400 = n div 146097" and "n100 = a div 36524"
    and "n4 = b div 1461" and "n1 = c div 365"
  note defs = n_def a_def b_def c_def n400_def n100_def n4_def n1_def
  have n: "n = 146097 * n400 + a" "0 \<le> a" "a < 146097" by (simp_all add: defs)
  have a: "a = 36524 * n100 + b" "0 \<le> b" "b < 36524" by (simp_all add: defs)
  have b: "b = 1461 * n4 + c" "0 \<le> c" "c < 1461" by (simp_all add: defs)
  have c: "c = 365 * n1 + c mod 365" "0 \<le> c mod 365" "c mod 365 < 365" by (simp_all add: defs)
  have r: "0 \<le> n100" "n100 \<le> 4" using n(2,3) a by linarith+
  have r4: "0 \<le> n4" "n4 \<le> 24" using a(2,3) b by linarith+
  have r1: "0 \<le> n1" "n1 \<le> 4" using b(2,3) c by linarith+
  note r = r r4 r1
  have year: "year_of d = (if n1 = 4 \<or> n100 = 4 then n400 * 400 + n100 * 100 + n4 * 4 + n1
      else n400 * 400 + n100 * 100 + n4 * 4 + n1 + 1)"
    by (simp add: year_of_def Let_def defs)
  consider "n100 = 4" | "n100 \<le> 3" "n1 = 4" | "n100 \<le> 3" "n1 \<le> 3" using r by linarith
  then show ?thesis
  proof cases
    case 1
    with n a have "b = 0" by linarith
    with b c have "n4 = 0" "c = 0" "n1 = 0" using r by linarith+
    with 1 have y: "year_of d = 400 * n400 + 400" by (simp add: year)
    have "days_before_year (year_of d) = 146097 * n400 + 36524 * 3 + 1461 * 24 + 365 * 3"
      by (rule days_before_year_split) (simp_all add: y)
    moreover have "days_before_year (year_of d + 1) = 146097 * n400 + 146097"
      using days_before_year_split [of "year_of d + 1" "n400 + 1" 0 0 0] by (simp add: y)
    ultimately show ?thesis using n a 1 \<open>b = 0\<close> n_def by (intro conjI) linarith+
  next
    case 2
    with b c have "c = 1460" by linarith
    from 2 have y: "year_of d = 400 * n400 + 100 * n100 + 4 * n4 + 4" by (simp add: year)
    have "days_before_year (year_of d) = 146097 * n400 + 36524 * n100 + 1461 * n4 + 365 * 3"
      by (rule days_before_year_split) (use r 2 in \<open>simp_all add: y\<close>)
    moreover have "days_before_year (year_of d) + 365 \<le> days_before_year (year_of d + 1)"
      by (rule days_before_year_mono)
    moreover have "days_before_year (year_of d + 1) \<ge> 146097 * n400 + 36524 * n100 + 1461 * n4 + 1461"
    proof (cases "n4 = 24")
      case True
      with a b 2 \<open>c = 1460\<close> show ?thesis by linarith
    next
      case False
      have "days_before_year (year_of d + 1) = 146097 * n400 + 36524 * n100 + 1461 * (n4 + 1) + 365 * 0"
        by (rule days_before_year_split) (use r 2 False in \<open>simp_all add: y\<close>)
      then show ?thesis by simp
    qed
    ultimately show ?thesis using n a b \<open>c = 1460\<close> n_def by (intro conjI) linarith+
  next
    case 3
    then have y: "year_of d = 400 * n400 + 100 * n100 + 4 * n4 + n1 + 1" by (simp add: year)
    have "days_before_year (year_of d) = 146097 * n400 + 36524 * n100 + 1461 * n4 + 365 * n1"
      by (rule days_before_year_split) (use r 3 in \<open>simp_all add: y\<close>)
    moreover have "days_before_year (year_of d) + 365 \<le> days_before_year (year_of d + 1)"
      by (rule days_before_year_mono)
    ultimately show ?thesis using n a b c n_def by (intro conjI) linarith+
  qed
qed

lemma isocalendar_week_range:
  assumes "isocalendar d = (y, w)"
  shows "1 \<le> w" and "w \<le> 53"
proof -
  define th where "th = d - weekday d + 3"
  have w: "w = (th - days_before_year (year_of th) - 1) div 7 + 1"
    using assms by (auto simp: isocalendar_def Let_def th_def)
  have "days_before_year (year_of th) < th" "th \<le> days_before_year (year_of th) + 366"
    using year_of_bounds [of th] days_before_year_step [of "year_of th"] by linarith+
  with w show "1 \<le> w" "w \<le> 53" by linarith+
qed

section \<open>Monday midnights and the zone\<close>

lemma monday_midnight_mod: "monday_midnight x \<longleftrightarrow> x mod WEEK = 4 * DAY"
proof -
  have 1: "x = DAY * (x div DAY) + x mod DAY" by simp
  have "x mod WEEK = DAY * ((x div DAY) mod 7) + x mod DAY"
    using zmod_zmult2_eq [of 7 x DAY] by simp
  moreover have "0 \<le> x mod DAY" "x mod DAY < DAY" "0 \<le> (x div DAY) mod 7" "(x div DAY) mod 7 < 7"
    by simp_all
  moreover have "(q + 719163 + 6) mod 7 = 0 \<longleftrightarrow> q mod 7 = 4" for q :: int
  proof -
    have "(q + 719163 + 6) mod 7 = (q + 3 + 102738 * 7) mod 7" by (simp add: add.assoc)
    also have "\<dots> = (q + 3) mod 7" by (rule mod_mult_self1)
    also have "\<dots> = 0 \<longleftrightarrow> q mod 7 = 4" by presburger
    finally show ?thesis .
  qed
  then have "weekday (ordinal_of x) = 0 \<longleftrightarrow> (x div DAY) mod 7 = 4"
    by (simp add: weekday_def ordinal_of_def)
  moreover have "(r = 0 \<and> q = 4) = (DAY * q + r = 4 * DAY)" if "0 \<le> r" "r < DAY" for q r :: int
  proof
    assume eq: "DAY * q + r = 4 * DAY"
    then have "q = (DAY * 4) div DAY" using int_div_pos_eq [of "DAY * 4" DAY q r] that by simp
    with eq show "r = 0 \<and> q = 4" by simp
  qed simp
  ultimately show ?thesis unfolding monday_midnight_def by simp
qed

lemma sunday_monday_apart:
  assumes "sunday_0100 tau" "monday_midnight x"
  shows "x - tau \<ge> 23 * HOUR \<or> x - tau \<le> 23 * HOUR - WEEK"
proof -
  have "x = WEEK * (x div WEEK) + 4 * DAY" "tau = WEEK * (tau div WEEK) + (3 * DAY + HOUR)"
    using assms div_mult_mod_eq [of x WEEK] div_mult_mod_eq [of tau WEEK]
    by (simp_all add: monday_midnight_mod sunday_0100_def mult.commute)
  moreover have "x div WEEK \<ge> tau div WEEK \<or> x div WEEK + 1 \<le> tau div WEEK" by linarith
  ultimately show ?thesis by linarith
qed

definition zurich_rules :: "int \<Rightarrow> (int \<times> int) list \<Rightarrow> bool" where
  "zurich_rules off trs =
     (off \<in> {HOUR, 2 * HOUR} \<and>
      (\<forall>(tau, new) \<in> set trs. sunday_0100 tau \<and> new \<in> {HOUR, 2 * HOUR}))"

lemma zurich_rules_Cons:
  "zurich_rules off ((tau, new) # trs) \<longleftrightarrow>
     off \<in> {HOUR, 2 * HOUR} \<and> sunday_0100 tau \<and> zurich_rules new trs"
  by (auto simp: zurich_rules_def)

lemma zurich_zone_rules: "zurich_zone z \<Longrightarrow> zurich_rules (base_offset z) (transitions z)"
  by (auto simp: zurich_zone_def zurich_rules_def list_all_iff)

lemma offset_at_range: "zurich_rules off trs \<Longrightarrow> HOUR \<le> offset_at off trs t \<and> offset_at off trs t \<le> 2 * HOUR"
  by (induction off trs t rule: offset_at.induct) (auto simp: zurich_rules_def)

lemma wall_offset_at_range:
  "zurich_rules off trs \<Longrightarrow> HOUR \<le> wall_offset_at off trs x \<and> wall_offset_at off trs x \<le> 2 * HOUR"
  by (induction off trs x rule: wall_offset_at.induct) (auto simp: zurich_rules_def)

text \<open>No clock change is near a Monday midnight, so both readings of the clock agree there.\<close>

lemma wall_monday_iff:
  assumes "zurich_rules off trs" "monday_midnight x"
  shows "x \<le> t + offset_at off trs t \<longleftrightarrow> x - wall_offset_at off trs x \<le> t"
  using assms
proof (induction trs arbitrary: off)
  case Nil
  then show ?case by auto
next
  case (Cons tr trs)
  obtain tau new where tr: "tr = (tau, new)" by force
  with Cons.prems have rules: "off \<in> {HOUR, 2 * HOUR}" "sunday_0100 tau" "zurich_rules new trs"
    by (simp_all add: zurich_rules_Cons)
  then have new: "new \<in> {HOUR, 2 * HOUR}" by (auto simp: zurich_rules_def)
  note range = offset_at_range [OF rules(3), of t] wall_offset_at_range [OF rules(3), of x]
  from sunday_monday_apart [OF rules(2) Cons.prems(2)] show ?case
  proof
    assume "x - tau \<ge> 23 * HOUR"
    then show ?thesis
      using Cons.IH [OF rules(3) Cons.prems(2)] range rules(1) new by (auto simp: tr)
  next
    assume "x - tau \<le> 23 * HOUR - WEEK"
    then show ?thesis using range rules(1) new by (auto simp: tr)
  qed
qed

lemma offset_at_monday:
  assumes "zurich_rules off trs" "monday_midnight x"
  shows "offset_at off trs (x - wall_offset_at off trs x) = wall_offset_at off trs x"
  using assms
proof (induction trs arbitrary: off)
  case Nil
  then show ?case by simp
next
  case (Cons tr trs)
  obtain tau new where tr: "tr = (tau, new)" by force
  with Cons.prems have rules: "off \<in> {HOUR, 2 * HOUR}" "sunday_0100 tau" "zurich_rules new trs"
    by (simp_all add: zurich_rules_Cons)
  then have new: "new \<in> {HOUR, 2 * HOUR}" by (auto simp: zurich_rules_def)
  note range = wall_offset_at_range [OF rules(3), of x]
  from sunday_monday_apart [OF rules(2) Cons.prems(2)] show ?case
    using Cons.IH [OF rules(3) Cons.prems(2)] range rules(1) new by (auto simp: tr)
qed

lemma to_wall_from_wall_monday:
  "zurich_zone z \<Longrightarrow> monday_midnight x \<Longrightarrow> to_wall z (from_wall z x) = x"
  using offset_at_monday [OF zurich_zone_rules] by (simp add: to_wall_def from_wall_def)

lemma from_wall_le_iff:
  "zurich_zone z \<Longrightarrow> monday_midnight x \<Longrightarrow> from_wall z x \<le> t \<longleftrightarrow> x \<le> to_wall z t"
  using wall_monday_iff [OF zurich_zone_rules] by (simp add: to_wall_def from_wall_def)

section \<open>The week an instant falls in\<close>

lemma weekday_range: "0 \<le> weekday n" "weekday n < 7"
  by (simp_all add: weekday_def)

lemma weekday_monday: "weekday (n - weekday n) = 0"
  unfolding weekday_def by presburger

lemma weekday_next_monday: "weekday (n - weekday n + 7) = 0"
  unfolding weekday_def by presburger

lemma ordinal_of_day: "ordinal_of ((d - 719163) * DAY) = d"
  by (simp add: ordinal_of_def)

lemma monday_midnight_day: "monday_midnight ((d - 719163) * DAY) \<longleftrightarrow> weekday d = 0"
  unfolding monday_midnight_def ordinal_of_day by (simp only: mod_mult_self2_is_0) simp

text \<open>
  The unfolded result: the year bounds of the field types are the only reason for an aware instant
  to have no week.
\<close>

lemma zurich_week_unfold:
  assumes z: "zurich_zone z"
    and m: "m = ordinal_of (to_wall z t) - weekday (ordinal_of (to_wall z t))"
    and iso: "isocalendar m = (y, w)"
  shows "zurich_week z (Aware t) =
    (if 1 \<le> y \<and> y \<le> 9999
     then Inr \<lparr>iso_year = y, iso_week = w, window_start = from_wall z ((m - 719163) * DAY),
           window_end = from_wall z ((m + 7 - 719163) * DAY)\<rparr>
     else Inl Value_Error)"
proof -
  have start: "monday_midnight ((m - 719163) * DAY)"
    by (simp only: monday_midnight_day m weekday_monday)
  have stop: "monday_midnight ((m + 7 - 719163) * DAY)"
    by (simp only: monday_midnight_day m weekday_next_monday)
  note walls = to_wall_from_wall_monday [OF z start] to_wall_from_wall_monday [OF z stop]
  have apart: "(m + 7 - 719163) * DAY = (m - 719163) * DAY + 7 * DAY" by simp
  show ?thesis
    unfolding zurich_week_def validate_zurich_calendar_week_def Let_def moment.case m [symmetric] iso prod.case
      walls ordinal_of_day
    using isocalendar_week_range [OF iso] start stop apart by (simp del: mult_cancel_right)
qed

lemma zurich_week_window:
  assumes "zurich_zone z" "zurich_week z (Aware t) = Inr wk"
  shows "window_start wk \<le> t" and "t < window_end wk"
proof -
  define n m where "n = ordinal_of (to_wall z t)" and "m = n - weekday n"
  obtain y w where iso: "isocalendar m = (y, w)" by force
  note unfold = zurich_week_unfold [OF assms(1) m_def [unfolded n_def] iso]
  with assms(2) have wk: "window_start wk = from_wall z ((m - 719163) * DAY)"
      "window_end wk = from_wall z ((m + 7 - 719163) * DAY)"
    by (auto split: if_splits)
  have start: "monday_midnight ((m - 719163) * DAY)"
    by (simp only: monday_midnight_day m_def weekday_monday)
  have stop: "monday_midnight ((m + 7 - 719163) * DAY)"
    by (simp only: monday_midnight_day m_def weekday_next_monday)
  have n: "to_wall z t = (n - 719163) * DAY + to_wall z t mod DAY"
    by (simp add: n_def ordinal_of_def)
  have mod: "0 \<le> to_wall z t mod DAY" "to_wall z t mod DAY < DAY" by simp_all
  note day = weekday_range [of n]
  have "(m - 719163) * DAY \<le> to_wall z t" using n mod day by (simp add: m_def)
  then show "window_start wk \<le> t"
    using from_wall_le_iff [OF assms(1) start] wk by simp
  have "to_wall z t < (m + 7 - 719163) * DAY" using n mod day by (simp add: m_def)
  then show "t < window_end wk"
    using from_wall_le_iff [OF assms(1) stop, of t] wk by simp
qed

section \<open>Weeks partition time and are told apart by their identity\<close>

lemma weekday_within:
  assumes "weekday m = 0" "m \<le> n" "n < m + 7"
  shows "n - weekday n = m"
proof -
  from assms(1) have "(m + 6) mod 7 = 0" by (simp add: weekday_def)
  then obtain q where q: "m + 6 = 7 * q" by (metis mod_0_imp_dvd dvd_def)
  have "(n + 6) mod 7 = n - m"
  proof -
    have "n + 6 = (n - m) + 7 * q" using q by simp
    then have "(n + 6) mod 7 = ((n - m) + 7 * q) mod 7" by (simp only:)
    also have "\<dots> = (n - m) mod 7" by (rule mod_mult_self2)
    finally have "(n + 6) mod 7 = (n - m) mod 7" .
    with assms show ?thesis by simp
  qed
  then show ?thesis by (simp add: weekday_def)
qed

lemma day_bounds:
  assumes "(m - 719163) * DAY \<le> x" "x < (m + 7 - 719163) * DAY"
  shows "m \<le> ordinal_of x" "ordinal_of x < m + 7"
proof -
  obtain q r where q: "x = DAY * q + r" "0 \<le> r" "r < DAY" "x div DAY = q"
    using mult_div_mod_eq [of DAY x] pos_mod_bound [of DAY x] pos_mod_sign [of DAY x] by (metis zero_less_numeral)
  then have "ordinal_of x = q + 719163" by (simp add: ordinal_of_def)
  note o = this
  show "m \<le> ordinal_of x" using o assms(1) q(1-3) by (simp add: left_diff_distrib)
  show "ordinal_of x < m + 7" using o assms(2) q(1-3) by (simp add: left_diff_distrib)
qed

lemma zurich_week_unique:
  assumes z: "zurich_zone z" and wk: "zurich_week z (Aware t) = Inr wk"
    and u: "window_start wk \<le> u" "u < window_end wk"
  shows "zurich_week z (Aware u) = Inr wk"
proof -
  define m where "m = ordinal_of (to_wall z t) - weekday (ordinal_of (to_wall z t))"
  obtain y w where iso: "isocalendar m = (y, w)" by force
  from wk have win: "window_start wk = from_wall z ((m - 719163) * DAY)" "window_end wk = from_wall z ((m + 7 - 719163) * DAY)"
    by (auto simp: zurich_week_unfold [OF z m_def iso] split: if_splits)
  have mon: "weekday m = 0" by (simp only: m_def weekday_monday)
  have start: "monday_midnight ((m - 719163) * DAY)" by (simp only: monday_midnight_day mon)
  have stop: "monday_midnight ((m + 7 - 719163) * DAY)" by (simp only: monday_midnight_day m_def weekday_next_monday)
  have "(m - 719163) * DAY \<le> to_wall z u" using from_wall_le_iff [OF z start, of u] u(1) win(1) by simp
  moreover have "to_wall z u < (m + 7 - 719163) * DAY" using from_wall_le_iff [OF z stop, of u] u(2) win(2) by simp
  ultimately have "m \<le> ordinal_of (to_wall z u)" "ordinal_of (to_wall z u) < m + 7"
    using day_bounds by blast+
  from weekday_within [OF mon this] have "m = ordinal_of (to_wall z u) - weekday (ordinal_of (to_wall z u))" by simp
  from zurich_week_unfold [OF z this iso] zurich_week_unfold [OF z m_def iso] wk show ?thesis by simp
qed

lemma week_identity_inject:
  assumes "week_identity a = week_identity b"
    and "0 \<le> iso_year a" "iso_year a \<le> 9999" "0 \<le> iso_week a" "0 \<le> iso_year b" "iso_year b \<le> 9999" "0 \<le> iso_week b"
  shows "iso_year a = iso_year b \<and> iso_week a = iso_week b"
proof -
  have len: "length (padded 4 (nat (iso_year a))) = 4" "length (padded 4 (nat (iso_year b))) = 4"
    using assms by (auto intro!: length_padded simp: nat_less_iff)
  from assms(1) len have "padded 4 (nat (iso_year a)) = padded 4 (nat (iso_year b))"
      "padded 2 (nat (iso_week a)) = padded 2 (nat (iso_week b))"
    by (auto simp: week_identity_def)
  then have "nat (iso_year a) = nat (iso_year b)" "nat (iso_week a) = nat (iso_week b)"
    by (auto dest: padded_inject)
  with assms show ?thesis by auto
qed

end
