(* ===== verification/Codec.thy ===== *)
theory Codec
  imports Zurich_Week
begin

text \<open>
  What the modelled modules take from the standard library and from the validation library: the
  ISO text of an instant (\<open>value.astimezone(timezone.utc).isoformat()\<close>), reading it back into a
  model field of type \<open>datetime\<close>, the SHA-256 hex digest, canonical JSON, and the compiled zone
  \<open>Europe/Zurich\<close>.

  They are arguments of every definition that uses them (a \<open>codec\<close>); \<open>codec_laws\<close> names what the
  code relies on. No injectivity of the digest is assumed anywhere: the theorems speak of digests.
\<close>

record codec =
  iso :: "int \<Rightarrow> string"
  parse_datetime :: "pyval \<Rightarrow> moment option"
  sha256 :: "string \<Rightarrow> string"
  json_dumps :: "(string \<times> pyval) list \<Rightarrow> string"
  zurich :: zone

text \<open>The instants a \<open>datetime\<close> can hold: the years 1 to 9999.\<close>

definition datetime_range :: "int \<Rightarrow> bool" where
  "datetime_range t = (- 62135596800000000 \<le> t \<and> t < 253402300800000000)"

locale codec_laws =
  fixes cd :: codec
  assumes parse_iso: "parse_datetime cd (PStr (iso cd t)) = Some (Aware t)"
    and iso_text: "datetime_range t \<Longrightarrow> required_text 200 (PStr (iso cd t)) = Some (iso cd t)"
    and sha256_shape: "sha_text (sha256 cd s)"
    and zone_rules: "zurich_zone (zurich cd)"

context codec_laws
begin

lemma sha256_text_sha256 [simp]: "sha256_text (PStr (sha256 cd s)) = Some (sha256 cd s)"
  by (simp add: sha256_shape)

end

text \<open>
  A concrete codec: an instant as its decimal number of microseconds, and a digest of the shape the
  repositories require. It discharges the laws, so no theorem that assumes them is vacuous.
\<close>

definition int_text :: "int \<Rightarrow> string" where
  "int_text n = (if n < 0 then ''-'' @ nat_text (nat (- n)) else nat_text (nat n))"

definition text_int :: "string \<Rightarrow> int" where
  "text_int s = (case s of
       [] \<Rightarrow> 0
     | c # cs \<Rightarrow> if c = CHR ''-'' then - int (text_nat cs) else int (text_nat s))"

fun plain_parse :: "pyval \<Rightarrow> moment option" where
  "plain_parse (PStr s) = Some (Aware (text_int (drop 2 s)))"
| "plain_parse _ = None"

text \<open>The transitions of the years 2025 and 2026.\<close>

definition zurich_2025 :: zone where
  "zurich_2025 = \<lparr>base_offset = 3600000000,
     transitions = [(1743296400000000, 7200000000), (1761440400000000, 3600000000),
                    (1774746000000000, 7200000000), (1792890000000000, 3600000000)]\<rparr>"

definition plain_codec :: codec where
  "plain_codec = \<lparr>iso = (\<lambda>n. ''us'' @ int_text n), parse_datetime = plain_parse,
     sha256 = (\<lambda>s. padded 64 (text_nat s mod 10 ^ 64)), json_dumps = concat \<circ> map fst,
     zurich = zurich_2025\<rparr>"

definition digit :: "char \<Rightarrow> bool" where
  "digit c = (c \<in> set ''0123456789'')"

lemma digit_digit_char: "d < 10 \<Longrightarrow> digit (digit_char d)"
proof -
  assume "d < 10"
  moreover have "list_all (\<lambda>d. digit (digit_char d)) [0, 1, 2, 3, 4, 5, 6, 7, 8, 9]"
    by code_simp
  ultimately show ?thesis by (auto simp: less_Suc_eq numeral_eq_Suc)
qed

lemma digit_nat_text: "list_all digit (nat_text n)"
proof (induction n rule: nat_text.induct)
  case (1 n)
  then show ?case
    by (cases "n < 10") (simp_all add: nat_text.simps [of n] digit_digit_char)
qed

lemma digit_hex: "digit c \<Longrightarrow> hex_digit c"
  by (auto simp: digit_def hex_digit_def)

lemma digit_padded: "list_all digit (padded w n)"
  by (auto simp: padded_def Let_def digit_nat_text list_all_iff digit_digit_char)
    (metis digit_nat_text list_all_iff)

lemma nat_text_not_Nil: "nat_text n \<noteq> []"
  by (simp add: nat_text.simps [of n])

lemma text_int_text: "text_int (int_text n) = n"
proof (cases "n < 0")
  case True
  then show ?thesis by (simp add: int_text_def text_int_def text_nat_text)
next
  case False
  obtain c cs where c: "nat_text (nat n) = c # cs" using nat_text_not_Nil by (metis neq_Nil_conv)
  with digit_nat_text [of "nat n"] have "digit c" by simp
  then have "c \<noteq> CHR ''-''" by (auto simp: digit_def)
  moreover have "text_nat (c # cs) = nat n" using text_nat_text [of "nat n"] c by simp
  ultimately show ?thesis using False c by (simp add: int_text_def text_int_def)
qed

lemma strip_visible:
  assumes "\<And>c. c \<in> set s \<Longrightarrow> \<not> py_space c"
  shows "strip s = s"
proof -
  have "dropWhile py_space xs = xs" if "set xs \<subseteq> set s" for xs
    using that assms by (cases xs) auto
  then show ?thesis by (simp add: strip_def)
qed

lemma plain_iso_text:
  assumes "datetime_range n"
  shows "required_text 200 (PStr (''us'' @ int_text n)) = Some (''us'' @ int_text n)"
proof -
  let ?m = "nat \<bar>n\<bar>"
  have "int_text n = (if n < 0 then ''-'' else []) @ nat_text ?m" by (simp add: int_text_def)
  moreover have "\<bar>n\<bar> < 10 ^ 18" using assms by (simp add: datetime_range_def abs_less_iff)
  then have "?m < 10 ^ 18" by (simp add: nat_less_iff)
  then have "length (nat_text ?m) \<le> 18" by (rule length_nat_text) simp
  moreover have "strip (''us'' @ int_text n) = ''us'' @ int_text n"
    using digit_nat_text [of ?m] calculation(1)
    by (intro strip_visible)
      (auto simp: list_all_iff py_space_def dest!: bspec digit_hex [THEN hex_digit_not_space] split: if_splits)
  ultimately show ?thesis by (cases "n < 0") (simp_all add: required_text_def)
qed

interpretation plain: codec_laws plain_codec
proof unfold_locales
  fix t show "parse_datetime plain_codec (PStr (iso plain_codec t)) = Some (Aware t)"
    by (simp add: plain_codec_def text_int_text)
next
  fix t assume "datetime_range t"
  then show "required_text 200 (PStr (iso plain_codec t)) = Some (iso plain_codec t)"
    using plain_iso_text by (simp add: plain_codec_def)
next
  fix s
  have "length (padded 64 (text_nat s mod 10 ^ 64)) = 64" by (rule length_padded) simp_all
  with digit_padded show "sha_text (sha256 plain_codec s)"
    by (auto simp: plain_codec_def sha_text_def list_all_iff digit_hex)
next
  show "zurich_zone (zurich plain_codec)"
    by (simp add: plain_codec_def zurich_2025_def zurich_zone_def sunday_0100_def)
qed

end
