(* ===== verification/Weekly_Counter.thy ===== *)
theory Weekly_Counter
  imports Account_Fence Codec
begin

text \<open>
  The weekly counter row (\<open>db/repositories/weekly_counter.py\<close>): one row of counts per scope and
  Zurich week, read back strictly and written under its version, so that of two writers that read
  the same version only one commits.
\<close>

section \<open>Kinds and counters\<close>

record counter_kind =
  namespace :: string
  entity_type :: string
  schema_version :: string
  scope_field :: string
  count_fields :: "string list"

definition TOKENS :: counter_kind where
  "TOKENS = \<lparr>namespace = ''ALLOWANCE'', entity_type = ''allowance_counter'',
     schema_version = ''allowance_counter.v1'', scope_field = ''beneficiary_id'',
     count_fields = [''finalized_input_tokens'', ''finalized_output_tokens'',
       ''reserved_input_tokens'', ''reserved_output_tokens'',
       ''provider_cost_input_tokens'', ''provider_cost_output_tokens'']\<rparr>"

definition CASES :: counter_kind where
  "CASES = \<lparr>namespace = ''TEACHER_SUPPORT'', entity_type = ''teacher_support_counter'',
     schema_version = ''teacher_support_counter.v1'', scope_field = ''support_scope_id'',
     count_fields = [''admitted_cases'']\<rparr>"

record counter =
  c_item :: item
  c_version :: int

text \<open>
  \<open>Counter.count\<close>: the assertion that the field is an \<open>int\<close> holds for every counter that
  \<open>validate\<close> returned and every count field of its kind (\<open>validate_count\<close> below); elsewhere the
  source raises, and no modelled caller asks.
\<close>

definition count :: "counter \<Rightarrow> string \<Rightarrow> int" where
  "count c f = (case item_get (c_item c) f of PInt n \<Rightarrow> n | _ \<Rightarrow> 0)"

section \<open>Reading\<close>

definition counter_key :: "counter_kind \<Rightarrow> string \<Rightarrow> zweek \<Rightarrow> key" where
  "counter_key kind scope wk = (namespace kind @ ''#'' @ scope, ''WEEK#'' @ week_identity wk)"

fun whole_fields :: "string list \<Rightarrow> item \<Rightarrow> item \<Rightarrow> item option" where
  "whole_fields [] item acc = Some acc"
| "whole_fields (f # fs) item acc =
     (case whole_in_range False (item_get item f) of
        None \<Rightarrow> None
      | Some n \<Rightarrow> whole_fields fs item (acc(f \<mapsto> PInt n)))"

definition validate :: "codec \<Rightarrow> counter_kind \<Rightarrow> item \<Rightarrow> string \<Rightarrow> zweek \<Rightarrow> counter option" where
  "validate cd kind item scope wk =
     (if item_get item ''PK'' \<noteq> PStr (fst (counter_key kind scope wk))
       \<or> item_get item ''SK'' \<noteq> PStr (snd (counter_key kind scope wk))
       \<or> item_get item ''entity_type'' \<noteq> PStr (entity_type kind)
       \<or> item_get item ''schema_version'' \<noteq> PStr (schema_version kind)
       \<or> item_get item (scope_field kind) \<noteq> PStr scope
       \<or> item_get item ''week_identity'' \<noteq> PStr (week_identity wk)
       \<or> item_get item ''window_start'' \<noteq> PStr (iso cd (window_start wk))
       \<or> item_get item ''window_end'' \<noteq> PStr (iso cd (window_end wk))
      then None
      else case whole_fields (count_fields kind) item item of
        None \<Rightarrow> None
      | Some normalized \<Rightarrow>
          (case whole_in_range True (item_get item ''state_version'') of
             None \<Rightarrow> None
           | Some v \<Rightarrow> Some \<lparr>c_item = normalized(''state_version'' \<mapsto> PInt v), c_version = v\<rparr>))"

definition read_counter ::
    "codec \<Rightarrow> 'w db \<Rightarrow> counter_kind \<Rightarrow> string \<Rightarrow> zweek \<Rightarrow> 'w \<Rightarrow> counter option result \<times> 'w" where
  "read_counter cd db kind scope wk w =
     (case strong_get db (counter_key kind scope wk) w of
        (Inl e, w') \<Rightarrow> (Inl Dependency_Failure, w')
      | (Inr None, w') \<Rightarrow> (Inr None, w')
      | (Inr (Some item), w') \<Rightarrow>
          (case validate cd kind item scope wk of
             None \<Rightarrow> (Inl Dependency_Failure, w')
           | Some c \<Rightarrow> (Inr (Some c), w')))"

section \<open>Writing\<close>

definition reserved_fields :: "counter_kind \<Rightarrow> string list" where
  "reserved_fields kind =
     [''PK'', ''SK'', ''entity_type'', ''schema_version'', scope_field kind, ''week_identity'',
      ''window_start'', ''window_end'', ''state_version'', ''created_at'', ''updated_at'']
     @ count_fields kind"

definition fresh_row :: "codec \<Rightarrow> counter_kind \<Rightarrow> string \<Rightarrow> zweek \<Rightarrow> int \<Rightarrow> item" where
  "fresh_row cd kind scope wk now =
     dict_of ([(''PK'', PStr (fst (counter_key kind scope wk))),
               (''SK'', PStr (snd (counter_key kind scope wk))),
               (''entity_type'', PStr (entity_type kind)),
               (''schema_version'', PStr (schema_version kind)),
               (scope_field kind, PStr scope),
               (''week_identity'', PStr (week_identity wk)),
               (''window_start'', PStr (iso cd (window_start wk))),
               (''window_end'', PStr (iso cd (window_end wk)))]
              @ map (\<lambda>f. (f, PInt 0)) (count_fields kind)
              @ [(''created_at'', PStr (iso cd now))])"

definition previous_row :: "codec \<Rightarrow> counter_kind \<Rightarrow> string \<Rightarrow> zweek \<Rightarrow> counter option \<Rightarrow> int \<Rightarrow> item" where
  "previous_row cd kind scope wk previous now =
     (case previous of None \<Rightarrow> fresh_row cd kind scope wk now | Some c \<Rightarrow> c_item c)"

definition next_version :: "counter option \<Rightarrow> int" where
  "next_version previous = (case previous of None \<Rightarrow> 1 | Some c \<Rightarrow> c_version c + 1)"

definition version_condition :: "counter option \<Rightarrow> cond" where
  "version_condition previous =
     (case previous of None \<Rightarrow> create_only | Some c \<Rightarrow> C_Eq ''state_version'' (PInt (c_version c)))"

definition int_items :: "(string \<times> int) list \<Rightarrow> (string \<times> pyval) list" where
  "int_items counts = map (\<lambda>(f, n). (f, PInt n)) counts"

definition written_row :: "codec \<Rightarrow> counter_kind \<Rightarrow> string \<Rightarrow> zweek \<Rightarrow> counter option
    \<Rightarrow> (string \<times> int) list \<Rightarrow> (string \<times> pyval) list \<Rightarrow> int \<Rightarrow> item" where
  "written_row cd kind scope wk previous counts extra now =
     previous_row cd kind scope wk previous now
       ++ dict_of extra ++ dict_of (int_items counts)
       ++ dict_of [(''state_version'', PInt (next_version previous)), (''updated_at'', PStr (iso cd now))]"

definition write_counter :: "codec \<Rightarrow> counter_kind \<Rightarrow> string \<Rightarrow> zweek \<Rightarrow> counter option
    \<Rightarrow> (string \<times> int) list \<Rightarrow> (string \<times> pyval) list \<Rightarrow> int \<Rightarrow> op result" where
  "write_counter cd kind scope wk previous counts extra now =
     (if \<not> list_all (\<lambda>(f, n). f \<in> set (count_fields kind)) counts then Inl Value_Error
      else if \<not> list_all (\<lambda>(f, n). 0 \<le> n \<and> n \<le> MAX_EXACT_COUNT) counts then Inl Value_Error
      else if list_ex (\<lambda>(f, v). f \<in> set (reserved_fields kind)) extra then Inl Value_Error
      else Inr (Put (written_row cd kind scope wk previous counts extra now) (version_condition previous)))"

section \<open>Retrying\<close>

text \<open>
  One attempt either lost a race (\<open>CounterConflict\<close>), let another exception escape, or returned.
\<close>

datatype 'a attempt = Lost_Race | Raised err | Done 'a

definition DEFAULT_ATTEMPTS :: nat where
  "DEFAULT_ATTEMPTS = 4"

fun retry_loop :: "nat \<Rightarrow> ('w \<Rightarrow> 'a attempt \<times> 'w) \<Rightarrow> 'a \<Rightarrow> 'w \<Rightarrow> 'a result \<times> 'w" where
  "retry_loop 0 attempt exhausted w = (Inr exhausted, w)"
| "retry_loop (Suc n) attempt exhausted w =
     (case attempt w of
        (Lost_Race, w') \<Rightarrow> retry_loop n attempt exhausted w'
      | (Raised e, w') \<Rightarrow> (Inl e, w')
      | (Done r, w') \<Rightarrow> (Inr r, w'))"

definition retry :: "nat \<Rightarrow> ('w \<Rightarrow> 'a attempt \<times> 'w) \<Rightarrow> 'a \<Rightarrow> 'w \<Rightarrow> 'a result \<times> 'w" where
  "retry attempts attempt exhausted w =
     (if attempts < 1 then (Inl Value_Error, w) else retry_loop attempts attempt exhausted w)"

section \<open>Versions\<close>

text \<open>
  The discipline every writer of a versioned row keeps: the row stays, and it is either the same
  row or one with a higher version. It is what makes a version condition a compare-and-set on the
  whole row.
\<close>

definition row_version :: "item \<Rightarrow> int option" where
  "row_version i = stored_int (item_get i ''state_version'')"

definition row_le :: "item \<Rightarrow> item \<Rightarrow> bool" where
  "row_le i j = (i = j \<or> (\<exists>u v. row_version i = Some u \<and> row_version j = Some v \<and> u < v))"

definition kept :: "table \<Rightarrow> table \<Rightarrow> key \<Rightarrow> bool" where
  "kept t t' k = (\<forall>i. t k = Some i \<longrightarrow> (\<exists>j. t' k = Some j \<and> row_le i j))"

lemma row_le_refl [simp]: "row_le i i"
  by (simp add: row_le_def)

lemma row_le_trans: "row_le i j \<Longrightarrow> row_le j k \<Longrightarrow> row_le i k"
  unfolding row_le_def by (metis option.sel order.strict_trans)

lemma kept_refl [simp]: "kept t t k"
  by (simp add: kept_def)

lemma kept_trans: "kept t t' k \<Longrightarrow> kept t' t'' k \<Longrightarrow> kept t t'' k"
  unfolding kept_def by (meson row_le_trans)

lemma keptD: "kept t t' k \<Longrightarrow> t k = Some i \<Longrightarrow> \<exists>j. t' k = Some j \<and> row_le i j"
  by (simp add: kept_def)

text \<open>
  Compare-and-set: a row read with version \<open>v\<close> that still passes the condition on \<open>v\<close> later is the
  row that was read, whatever other disciplined writers did in between.
\<close>

lemma version_cas:
  assumes kept: "kept t t' k" and read: "t k = Some i" and v: "row_version i = Some v"
    and cond: "cond_holds (C_Eq ''state_version'' (PInt v)) (row_at t' k)"
  shows "t' k = Some i"
proof -
  from keptD [OF kept read] obtain j where j: "t' k = Some j" "row_le i j" by blast
  with cond have "as_stored (item_get j ''state_version'') = PDec (of_int v)"
    by (auto simp: row_at_def item_get_def split: option.splits)
  then have "row_version j = Some v"
    by (cases "item_get j ''state_version''") (auto simp: row_version_def)
  with j v show ?thesis by (auto simp: row_le_def)
qed

section \<open>Rows that a write produces\<close>

definition kind_wf :: "counter_kind \<Rightarrow> bool" where
  "kind_wf kind = distinct (reserved_fields kind)"

lemma kind_wf_TOKENS: "kind_wf TOKENS"
  by (simp add: kind_wf_def reserved_fields_def TOKENS_def)

lemma kind_wf_CASES: "kind_wf CASES"
  by (simp add: kind_wf_def reserved_fields_def CASES_def)

definition header :: "codec \<Rightarrow> counter_kind \<Rightarrow> string \<Rightarrow> zweek \<Rightarrow> (string \<times> pyval) list" where
  "header cd kind scope wk =
     [(''PK'', PStr (fst (counter_key kind scope wk))),
      (''SK'', PStr (snd (counter_key kind scope wk))),
      (''entity_type'', PStr (entity_type kind)),
      (''schema_version'', PStr (schema_version kind)),
      (scope_field kind, PStr scope),
      (''week_identity'', PStr (week_identity wk)),
      (''window_start'', PStr (iso cd (window_start wk))),
      (''window_end'', PStr (iso cd (window_end wk)))]"

definition header_ok :: "codec \<Rightarrow> counter_kind \<Rightarrow> string \<Rightarrow> zweek \<Rightarrow> item \<Rightarrow> bool" where
  "header_ok cd kind scope wk i = (\<forall>(a, v) \<in> set (header cd kind scope wk). item_get i a = v)"

lemma header_PStr: "(a, v) \<in> set (header cd kind scope wk) \<Longrightarrow> \<exists>s. v = PStr s"
  by (auto simp: header_def)

lemma header_fields: "fst ` set (header cd kind scope wk) =
    {''PK'', ''SK'', ''entity_type'', ''schema_version'', scope_field kind, ''week_identity'',
     ''window_start'', ''window_end''}"
  by (simp add: header_def)

lemma validate_alt:
  "validate cd kind item scope wk =
     (if header_ok cd kind scope wk item
      then case whole_fields (count_fields kind) item item of
          None \<Rightarrow> None
        | Some normalized \<Rightarrow> map_option
            (\<lambda>v. \<lparr>c_item = normalized(''state_version'' \<mapsto> PInt v), c_version = v\<rparr>)
            (whole_in_range True (item_get item ''state_version''))
      else None)"
  unfolding validate_def header_ok_def header_def by (simp split: option.splits)

lemma item_get_merge_notin: "a \<notin> fst ` set kvs \<Longrightarrow> item_get (i ++ dict_of kvs) a = item_get i a"
  by (simp add: item_get_def dict_of_def map_add_def map_of_eq_None_iff [THEN iffD2])

lemma item_get_merge_in: "map_of kvs a = Some v \<Longrightarrow> item_get (i ++ dict_of kvs) a = v"
  by (simp add: item_get_def dict_of_def)

lemma whole_fields_SomeD:
  assumes "whole_fields fs item acc = Some acc'"
  shows "f \<in> set fs \<Longrightarrow> \<exists>n. whole_in_range False (item_get item f) = Some n \<and> item_get acc' f = PInt n"
    and "f \<notin> set fs \<Longrightarrow> item_get acc' f = item_get acc f"
  using assms
proof (induction fs item acc rule: whole_fields.induct)
  case (2 g fs item acc)
  {
    case 1
    then obtain n where n: "whole_in_range False (item_get item g) = Some n"
        and rest: "whole_fields fs item (acc(g \<mapsto> PInt n)) = Some acc'"
      by (auto split: option.splits)
    show ?case
    proof (cases "f \<in> set fs")
      case True
      with "2.IH"(1) [OF n _ rest] show ?thesis by blast
    next
      case False
      with 1 have "f = g" by simp
      with "2.IH"(2) [OF n _ rest] False n show ?thesis by (simp add: item_get_def)
    qed
  next
    case 2
    then obtain n where n: "whole_in_range False (item_get item g) = Some n"
        and rest: "whole_fields fs item (acc(g \<mapsto> PInt n)) = Some acc'"
      by (auto split: option.splits)
    with "2.IH"(2) [OF n _ rest] 2 show ?case by (simp add: item_get_def)
  }
qed auto

lemma whole_fields_total:
  "(\<And>f. f \<in> set fs \<Longrightarrow> whole_in_range False (item_get item f) \<noteq> None) \<Longrightarrow>
     \<exists>acc'. whole_fields fs item acc = Some acc'"
  by (induction fs arbitrary: acc) (auto split: option.split)

text \<open>What a validated counter carries: its header, its whole counts in range and its version.\<close>

lemma validate_SomeD:
  assumes "validate cd kind i scope wk = Some c" "kind_wf kind"
  shows "header_ok cd kind scope wk i" "header_ok cd kind scope wk (c_item c)"
    and "whole_in_range True (item_get i ''state_version'') = Some (c_version c)"
    and "item_get (c_item c) ''state_version'' = PInt (c_version c)"
    and "f \<in> set (count_fields kind) \<Longrightarrow>
        whole_in_range False (item_get i f) = Some (count c f) \<and> item_get (c_item c) f = PInt (count c f)"
    and "a \<notin> set (count_fields kind) \<Longrightarrow> a \<noteq> ''state_version'' \<Longrightarrow> item_get (c_item c) a = item_get i a"
proof -
  from assms obtain nm v where h: "header_ok cd kind scope wk i"
      and nm: "whole_fields (count_fields kind) i i = Some nm"
      and v: "whole_in_range True (item_get i ''state_version'') = Some v"
      and c: "c = \<lparr>c_item = nm(''state_version'' \<mapsto> PInt v), c_version = v\<rparr>"
    by (auto simp: validate_alt split: if_splits option.splits)
  have other: "item_get (c_item c) a = item_get i a"
    if "a \<notin> set (count_fields kind)" "a \<noteq> ''state_version''" for a
    using that whole_fields_SomeD(2) [OF nm, of a] by (simp add: c item_get_upd)
  have sv: "''state_version'' \<notin> set (count_fields kind)"
    using assms(2) by (auto simp: kind_wf_def reserved_fields_def)
  show "header_ok cd kind scope wk i" by (fact h)
  have "a \<notin> set (count_fields kind) \<and> a \<noteq> ''state_version''"
    if "(a, u) \<in> set (header cd kind scope wk)" for a u
  proof -
    from that have "a \<in> fst ` set (header cd kind scope wk)" by force
    with assms(2) show ?thesis by (auto simp: header_fields kind_wf_def reserved_fields_def)
  qed
  with h other show "header_ok cd kind scope wk (c_item c)"
    unfolding header_ok_def by fastforce
  show "whole_in_range True (item_get i ''state_version'') = Some (c_version c)" by (simp add: v c)
  show "item_get (c_item c) ''state_version'' = PInt (c_version c)" by (simp add: c item_get_upd)
  show "whole_in_range False (item_get i f) = Some (count c f) \<and> item_get (c_item c) f = PInt (count c f)"
    if "f \<in> set (count_fields kind)"
  proof -
    from whole_fields_SomeD(1) [OF nm that] obtain n
      where "whole_in_range False (item_get i f) = Some n" "item_get nm f = PInt n" by blast
    moreover from this that sv have "item_get (c_item c) f = PInt n" by (auto simp: c item_get_upd)
    ultimately show ?thesis by (simp add: count_def)
  qed
  show "a \<notin> set (count_fields kind) \<Longrightarrow> a \<noteq> ''state_version'' \<Longrightarrow> item_get (c_item c) a = item_get i a"
    by (rule other)
qed

lemma validate_count_range:
  assumes "validate cd kind i scope wk = Some c" "kind_wf kind" "f \<in> set (count_fields kind)"
  shows "0 \<le> count c f" and "count c f \<le> MAX_EXACT_COUNT"
  using validate_SomeD(5) [OF assms] whole_in_range_SomeD by blast+

lemma validate_row_version:
  assumes "validate cd kind i scope wk = Some c" "kind_wf kind"
  shows "row_version i = Some (c_version c)" and "1 \<le> c_version c"
  using validate_SomeD(3) [OF assms] whole_in_range_SomeD
  by (auto simp: row_version_def exact_int_stored_int)

section \<open>What every kind of counter promises its client\<close>

text \<open>
  \<open>previous\<close> as a client gets it: nothing, or a counter with the header of this scope and week, its
  counts normalized and in range; \<open>validate\<close> returns no other.
\<close>

definition counter_ok :: "codec \<Rightarrow> counter_kind \<Rightarrow> string \<Rightarrow> zweek \<Rightarrow> counter \<Rightarrow> bool" where
  "counter_ok cd kind scope wk c \<longleftrightarrow>
     header_ok cd kind scope wk (c_item c) \<and> 1 \<le> c_version c \<and>
     (\<forall>f \<in> set (count_fields kind). item_get (c_item c) f = PInt (count c f)
        \<and> 0 \<le> count c f \<and> count c f \<le> MAX_EXACT_COUNT)"

definition from_table :: "codec \<Rightarrow> counter_kind \<Rightarrow> string \<Rightarrow> zweek \<Rightarrow> counter option \<Rightarrow> bool" where
  "from_table cd kind scope wk previous =
     (case previous of None \<Rightarrow> True | Some c \<Rightarrow> counter_ok cd kind scope wk c)"

lemma validate_counter_ok: "validate cd kind i scope wk = Some c \<Longrightarrow> kind_wf kind \<Longrightarrow> counter_ok cd kind scope wk c"
  using validate_SomeD(2,5) [of cd kind i scope wk c] validate_count_range [of cd kind i scope wk c]
    validate_row_version(2) [of cd kind i scope wk c]
  by (simp add: counter_ok_def)

definition prior_count :: "counter option \<Rightarrow> string \<Rightarrow> int" where
  "prior_count previous f = (case previous of None \<Rightarrow> 0 | Some c \<Rightarrow> count c f)"

definition new_count :: "counter option \<Rightarrow> (string \<times> int) list \<Rightarrow> string \<Rightarrow> int" where
  "new_count previous counts f = (case map_of counts f of Some n \<Rightarrow> n | None \<Rightarrow> prior_count previous f)"

lemma map_of_int_items: "map_of (int_items counts) f = map_option PInt (map_of counts f)"
  by (induction counts) (auto simp: int_items_def)

lemma fst_int_items: "fst ` set (int_items counts) = fst ` set counts"
  by (force simp: int_items_def)

lemma write_counter_InrD:
  assumes "write_counter cd kind scope wk previous counts extra now = Inr oper"
  shows "oper = Put (written_row cd kind scope wk previous counts extra now) (version_condition previous)"
    and "f \<in> fst ` set counts \<Longrightarrow> f \<in> set (count_fields kind)"
    and "map_of counts f = Some n \<Longrightarrow> 0 \<le> n \<and> n \<le> MAX_EXACT_COUNT"
    and "f \<in> fst ` set extra \<Longrightarrow> f \<notin> set (reserved_fields kind)"
  using assms
  by (auto simp: write_counter_def list_all_iff list_ex_iff split: if_splits dest!: map_of_SomeD)

text \<open>
  A counter row as a write stores it is read back by the same client: its header, the new counts
  (the given ones, the others as they were), and a version one higher.
\<close>

definition reads_back :: "codec \<Rightarrow> counter_kind \<Rightarrow> string \<Rightarrow> zweek \<Rightarrow> counter option \<Rightarrow> (string \<times> int) list
    \<Rightarrow> item \<Rightarrow> counter \<Rightarrow> bool" where
  "reads_back cd kind scope wk previous counts row c \<longleftrightarrow>
     validate cd kind (stored_item row) scope wk = Some c
     \<and> c_version c = next_version previous
     \<and> (\<forall>f \<in> set (count_fields kind). count c f = new_count previous counts f)"

locale counted_kind =
  fixes kind :: counter_kind
  assumes wf: "kind_wf kind"

context counted_kind
begin

lemma count_field_other:
  "f \<in> set (count_fields kind) \<Longrightarrow> f \<noteq> ''state_version'' \<and> f \<noteq> ''updated_at''
     \<and> f \<notin> fst ` set (header cd kind scope wk)"
  using wf by (auto simp: kind_wf_def reserved_fields_def header_fields)

lemma fresh_header: "header_ok cd kind scope wk (fresh_row cd kind scope wk now)"
proof -
  have "distinct (map fst (header cd kind scope wk))"
    using wf by (auto simp: kind_wf_def reserved_fields_def header_def)
  moreover have "fresh_row cd kind scope wk now
      = dict_of (header cd kind scope wk @ map (\<lambda>f. (f, PInt 0)) (count_fields kind)
          @ [(''created_at'', PStr (iso cd now))])"
    by (simp add: fresh_row_def header_def)
  ultimately show ?thesis
    by (auto simp: header_ok_def item_get_def dict_of_def map_add_def split: option.splits)
qed

lemma fresh_count:
  assumes "f \<in> set (count_fields kind)"
  shows "item_get (fresh_row cd kind scope wk now) f = PInt 0"
proof -
  have "map_of (header cd kind scope wk) f = None"
    using count_field_other [OF assms] by (auto simp: map_of_eq_None_iff)
  moreover have "map_of (map (\<lambda>f. (f, PInt 0)) (count_fields kind)) f = Some (PInt 0)"
    using assms by (induction "count_fields kind") (auto simp: map_of_map_restrict restrict_map_def)
  moreover have "fresh_row cd kind scope wk now
      = dict_of (header cd kind scope wk @ map (\<lambda>f. (f, PInt 0)) (count_fields kind)
          @ [(''created_at'', PStr (iso cd now))])"
    by (simp add: fresh_row_def header_def)
  ultimately show ?thesis by (simp add: item_get_def dict_of_def map_add_def)
qed

lemma previous_header:
  "from_table cd kind scope wk previous \<Longrightarrow> header_ok cd kind scope wk (previous_row cd kind scope wk previous now)"
  using fresh_header
  by (auto simp: counter_ok_def from_table_def previous_row_def split: option.splits)

lemma previous_count:
  "from_table cd kind scope wk previous \<Longrightarrow> f \<in> set (count_fields kind) \<Longrightarrow>
     item_get (previous_row cd kind scope wk previous now) f = PInt (prior_count previous f)
     \<and> 0 \<le> prior_count previous f \<and> prior_count previous f \<le> MAX_EXACT_COUNT"
  using fresh_count
  by (auto simp: counter_ok_def from_table_def previous_row_def prior_count_def MAX_EXACT_COUNT_def split: option.splits)

lemma written_get:
  "item_get (written_row cd kind scope wk previous counts extra now) a =
     (if a = ''updated_at'' then PStr (iso cd now)
      else if a = ''state_version'' then PInt (next_version previous)
      else case map_of counts a of
          Some n \<Rightarrow> PInt n
        | None \<Rightarrow> (case map_of extra a of
              Some v \<Rightarrow> v
            | None \<Rightarrow> item_get (previous_row cd kind scope wk previous now) a))"
  by (auto simp: written_row_def item_get_def dict_of_def map_add_def map_of_int_items split: option.splits)

lemma written_header:
  assumes "write_counter cd kind scope wk previous counts extra now = Inr oper"
    and "from_table cd kind scope wk previous"
  shows "header_ok cd kind scope wk (written_row cd kind scope wk previous counts extra now)"
  unfolding header_ok_def
proof clarify
  fix a v
  assume av: "(a, v) \<in> set (header cd kind scope wk)"
  then have a: "a \<in> fst ` set (header cd kind scope wk)" by force
  then have res: "a \<in> set (reserved_fields kind)" "a \<notin> set (count_fields kind)"
      "a \<noteq> ''state_version''" "a \<noteq> ''updated_at''"
    using wf by (auto simp: header_fields kind_wf_def reserved_fields_def)
  have "map_of counts a = None" "map_of extra a = None"
    using write_counter_InrD(2,4) [OF assms(1), of a] res by (auto simp: map_of_eq_None_iff)
  moreover have "item_get (previous_row cd kind scope wk previous now) a = v"
    using av previous_header [OF assms(2)] unfolding header_ok_def by fastforce
  ultimately show "item_get (written_row cd kind scope wk previous counts extra now) a = v"
    using res by (simp add: written_get)
qed

lemma written_count:
  assumes "write_counter cd kind scope wk previous counts extra now = Inr oper"
    and "from_table cd kind scope wk previous" and "f \<in> set (count_fields kind)"
  shows "item_get (written_row cd kind scope wk previous counts extra now) f = PInt (new_count previous counts f)"
    and "0 \<le> new_count previous counts f" and "new_count previous counts f \<le> MAX_EXACT_COUNT"
proof -
  have "map_of extra f = None"
    using write_counter_InrD(4) [OF assms(1), of f] assms(3)
    by (auto simp: map_of_eq_None_iff reserved_fields_def)
  moreover note count_field_other [OF assms(3)] previous_count [OF assms(2,3)]
    write_counter_InrD(3) [OF assms(1)]
  ultimately show "item_get (written_row cd kind scope wk previous counts extra now) f = PInt (new_count previous counts f)"
    and "0 \<le> new_count previous counts f" and "new_count previous counts f \<le> MAX_EXACT_COUNT"
    by (auto simp: written_get new_count_def split: option.splits)
qed

lemma write_reads_back:
  assumes w: "write_counter cd kind scope wk previous counts extra now = Inr oper"
    and prev: "from_table cd kind scope wk previous" and v: "next_version previous \<le> MAX_EXACT_COUNT"
  shows "\<exists>c. reads_back cd kind scope wk previous counts
      (written_row cd kind scope wk previous counts extra now) c"
proof -
  let ?row = "written_row cd kind scope wk previous counts extra now"
  let ?i = "stored_item ?row"
  have head: "header_ok cd kind scope wk ?i"
    using written_header [OF w prev] header_PStr unfolding header_ok_def
    by (fastforce simp: item_get_stored)
  have cnt: "whole_in_range False (item_get ?i f) = Some (new_count previous counts f)"
    if "f \<in> set (count_fields kind)" for f
    using written_count [OF w prev that] by (auto simp: item_get_stored whole_in_range_def)
  obtain nm where nm: "whole_fields (count_fields kind) ?i ?i = Some nm"
    using whole_fields_total [of "count_fields kind" ?i ?i] cnt by auto
  have "1 \<le> next_version previous"
    using prev by (auto simp: from_table_def counter_ok_def next_version_def split: option.splits)
  with v have sv: "whole_in_range True (item_get ?i ''state_version'') = Some (next_version previous)"
    by (simp add: item_get_stored written_get whole_in_range_def)
  let ?c = "\<lparr>c_item = nm(''state_version'' \<mapsto> PInt (next_version previous)), c_version = next_version previous\<rparr>"
  have val: "validate cd kind ?i scope wk = Some ?c"
    by (simp add: validate_alt head nm sv)
  have "count ?c f = new_count previous counts f" if "f \<in> set (count_fields kind)" for f
    using validate_SomeD(5) [OF val wf that] cnt [OF that] by simp
  with val show ?thesis unfolding reads_back_def by (intro exI [of _ ?c]) simp
qed

lemma written_key:
  assumes "write_counter cd kind scope wk previous counts extra now = Inr oper"
    and "from_table cd kind scope wk previous"
  shows "item_key (written_row cd kind scope wk previous counts extra now) = Some (counter_key kind scope wk)"
proof -
  let ?row = "written_row cd kind scope wk previous counts extra now"
  from written_header [OF assms] have "item_get ?row ''PK'' = PStr (fst (counter_key kind scope wk))"
      "item_get ?row ''SK'' = PStr (snd (counter_key kind scope wk))"
    by (simp_all add: header_ok_def header_def)
  then show ?thesis by (simp add: item_key_def)
qed

text \<open>
  The compare-and-set: where a write commits, the counter is still the one that was read, as long
  as every writer in between kept to versions.
\<close>

lemma write_commits_on_read:
  assumes w: "write_counter cd kind scope wk previous counts extra now = Inr oper"
    and prev: "case previous of None \<Rightarrow> t k = None
        | Some c \<Rightarrow> \<exists>i. t k = Some i \<and> row_version i = Some (c_version c) \<and> counter_ok cd kind scope wk c"
    and k: "k = counter_key kind scope wk" and kept: "kept t t' k" and keyed: "keyed t'"
    and ok: "op_ok t' oper"
  shows "t' k = t k"
proof -
  have ft: "from_table cd kind scope wk previous"
    using prev by (auto simp: from_table_def split: option.splits)
  have cond: "cond_holds (version_condition previous) (row_at t' k)"
    using ok op_ok_Put [OF written_key [OF w ft]] by (simp add: write_counter_InrD(1) [OF w] k)
  show ?thesis
  proof (cases previous)
    case None
    with cond have "cond_holds create_only (row_at t' k)"
      by (simp only: version_condition_def option.case)
    with None prev keyed show ?thesis by (simp add: keyed_create_only del: cond_holds.simps)
  next
    case (Some c)
    with prev obtain i where i: "t k = Some i" "row_version i = Some (c_version c)" by auto
    with Some cond version_cas [OF kept i] show ?thesis
      by (simp add: version_condition_def)
  qed
qed

end

interpretation tokens: counted_kind TOKENS
  by unfold_locales (rule kind_wf_TOKENS)

interpretation cases_kind: counted_kind CASES
  by unfold_locales (rule kind_wf_CASES)

section \<open>The retry loop\<close>

lemma retry_loop_ends:
  assumes step: "\<And>w a w'. attempt w = (a, w') \<Longrightarrow> R w w'"
    and refl: "\<And>w. R w w" and trans: "\<And>a b c. R a b \<Longrightarrow> R b c \<Longrightarrow> R a c"
    and "retry_loop n attempt exhausted w = (r, w')"
  shows "R w w'"
  using assms(4)
proof (induction n arbitrary: w)
  case 0
  with refl show ?case by simp
next
  case (Suc n)
  then show ?case
    using step trans by (auto split: prod.splits attempt.splits) blast+
qed

text \<open>
  What a returned value says: either it is the fallback after the last lost race, or it is what some
  attempt returned, and what happened before that attempt is what attempts do.
\<close>

lemma retry_loop_cases:
  assumes step: "\<And>w a w'. attempt w = (a, w') \<Longrightarrow> R w w'"
    and refl: "\<And>w. R w w" and trans: "\<And>a b c. R a b \<Longrightarrow> R b c \<Longrightarrow> R a c"
    and "retry_loop n attempt exhausted w = (r, w')"
  shows "r = Inr exhausted \<or> (\<exists>u. R w u \<and>
     ((\<exists>e. attempt u = (Raised e, w') \<and> r = Inl e) \<or> (\<exists>x. attempt u = (Done x, w') \<and> r = Inr x)))"
  using assms(4)
proof (induction n arbitrary: w)
  case 0
  then show ?case by simp
next
  case (Suc n)
  obtain a w1 where a: "attempt w = (a, w1)" by force
  show ?case
  proof (cases a)
    case Lost_Race
    with Suc.prems a have "retry_loop n attempt exhausted w1 = (r, w')" by simp
    from Suc.IH [OF this] step [OF a] trans show ?thesis by blast
  qed (use Suc.prems a refl in auto)
qed

end
