(* ===== verification/Allowance_Model.thy ===== *)
theory Allowance_Model
  imports Weekly_Counter "HOL-Library.Monad_Syntax"
begin

text \<open>
  The closed allowance contracts (\<open>models/allowance.py\<close>, the plan ids of \<open>models/billing.py\<close>) and
  the validation the models perform when a stored row is read into them: a model is an \<open>option\<close>
  whose \<open>None\<close> is the library's validation error.
\<close>

section \<open>Plans and their locked budgets\<close>

datatype plan = FREE_TRIAL | STUDENT | TEACHER_SUPPORTED | FAMILY

fun plan_text :: "plan \<Rightarrow> string" where
  "plan_text FREE_TRIAL = ''free_trial''"
| "plan_text STUDENT = ''student''"
| "plan_text TEACHER_SUPPORTED = ''teacher_supported''"
| "plan_text FAMILY = ''family''"

definition plan_of_text :: "string \<Rightarrow> plan option" where
  "plan_of_text s = List.find (\<lambda>p. plan_text p = s) [FREE_TRIAL, STUDENT, TEACHER_SUPPORTED, FAMILY]"

lemma plan_of_text_text [simp]: "plan_of_text (plan_text p) = Some p"
  by (cases p) (simp_all add: plan_of_text_def)

lemma plan_of_text_SomeD: "plan_of_text s = Some p \<Longrightarrow> s = plan_text p"
  by (auto simp: plan_of_text_def split: if_splits)

datatype support_scope = Scope_None | Per_Beneficiary | Shared_Family

fun scope_text :: "support_scope \<Rightarrow> string" where
  "scope_text Scope_None = ''none''"
| "scope_text Per_Beneficiary = ''per_beneficiary''"
| "scope_text Shared_Family = ''shared_family''"

fun LOCKED_BUDGETS :: "plan \<Rightarrow> int \<times> int \<times> int \<times> support_scope" where
  "LOCKED_BUDGETS FREE_TRIAL = (50000, 10000, 0, Scope_None)"
| "LOCKED_BUDGETS STUDENT = (500000, 100000, 0, Scope_None)"
| "LOCKED_BUDGETS TEACHER_SUPPORTED = (1000000, 200000, 2, Per_Beneficiary)"
| "LOCKED_BUDGETS FAMILY = (1000000, 200000, 10, Shared_Family)"

record budget =
  plan_id :: plan
  budget_input :: int
  budget_output :: int
  teacher_support_cases :: int
  teacher_support_scope :: support_scope
  allowance_version :: int

definition exact_count :: "bool \<Rightarrow> int \<Rightarrow> bool" where
  "exact_count positive n = ((if positive then 1 else 0) \<le> n \<and> n \<le> MAX_EXACT_COUNT)"

text \<open>The field bounds and \<open>validate_locked_budget\<close>.\<close>

definition validate_locked_budget :: "budget \<Rightarrow> budget result" where
  "validate_locked_budget b =
     (if exact_count False (budget_input b) \<and> exact_count False (budget_output b)
         \<and> exact_count False (teacher_support_cases b) \<and> exact_count True (allowance_version b)
         \<and> (budget_input b, budget_output b, teacher_support_cases b, teacher_support_scope b)
           = LOCKED_BUDGETS (plan_id b)
      then Inr b else Inl Value_Error)"

definition budget_ok :: "budget \<Rightarrow> bool" where
  "budget_ok b = (validate_locked_budget b = Inr b)"

lemma budget_okD:
  assumes "budget_ok b"
  shows "0 < budget_input b" "0 < budget_output b" "budget_input b \<le> MAX_EXACT_COUNT"
    and "budget_output b \<le> MAX_EXACT_COUNT" "1 \<le> allowance_version b" "allowance_version b \<le> MAX_EXACT_COUNT"
    and "0 \<le> teacher_support_cases b" "teacher_support_cases b \<le> 10"
  using assms
  by (cases "plan_id b"; auto simp: budget_ok_def validate_locked_budget_def exact_count_def split: if_splits)+

section \<open>Model fields\<close>

text \<open>\<open>OpaqueText\<close> strips before it measures; \<open>Sha256Digest\<close> is a pattern on the text as it is.\<close>

definition opaque_text :: "pyval \<Rightarrow> string option" where
  "opaque_text v = (case v of
       PStr s \<Rightarrow> (let u = strip s in if 1 \<le> length u \<and> length u \<le> 200 then Some u else None)
     | _ \<Rightarrow> None)"

definition digest_field :: "pyval \<Rightarrow> string option" where
  "digest_field v = (case v of PStr s \<Rightarrow> if sha_text s then Some s else None | _ \<Rightarrow> None)"

definition plan_field :: "pyval \<Rightarrow> plan option" where
  "plan_field v = (case v of PStr s \<Rightarrow> plan_of_text s | _ \<Rightarrow> None)"

definition check :: "bool \<Rightarrow> unit option" where
  "check b = (if b then Some () else None)"

lemma check_eq [simp]: "check b = Some u \<longleftrightarrow> b"
  by (simp add: check_def)

lemma check_True [simp]: "check True = Some ()"
  by (simp add: check_def)

lemma opaque_text_required: "required_text 200 v = Some s \<Longrightarrow> opaque_text v = Some s"
  by (auto simp: opaque_text_def required_text_def Let_def split: pyval.splits if_splits)

lemma opaque_text_sha: "sha_text s \<Longrightarrow> opaque_text (PStr s) = Some s"
proof -
  assume s: "sha_text s"
  then have "strip s = s" "length s = 64" by (simp_all add: strip_sha_text sha_text_def)
  then show ?thesis by (simp add: opaque_text_def)
qed

lemma stored_fields [simp]:
  "opaque_text (as_stored v) = opaque_text v" "digest_field (as_stored v) = digest_field v"
  "plan_field (as_stored v) = plan_field v"
  by (cases v; simp add: opaque_text_def digest_field_def plan_field_def)+

text \<open>A stored week rebuilt into \<open>ZurichWeek\<close>: strict integers and two instants.\<close>

definition week_field :: "codec \<Rightarrow> int \<Rightarrow> int \<Rightarrow> pyval \<Rightarrow> pyval \<Rightarrow> zweek option" where
  "week_field cd y w start stop =
     (case (parse_datetime cd start, parse_datetime cd stop) of
        (Some s, Some e) \<Rightarrow>
          (case validate_zurich_calendar_week (zurich cd) y w s e of Inl _ \<Rightarrow> None | Inr wk \<Rightarrow> Some wk)
      | _ \<Rightarrow> None)"

definition week_ok :: "codec \<Rightarrow> zweek \<Rightarrow> bool" where
  "week_ok cd wk \<longleftrightarrow>
     validate_zurich_calendar_week (zurich cd) (iso_year wk) (iso_week wk)
       (Aware (window_start wk)) (Aware (window_end wk)) = Inr wk"

lemma week_okD:
  assumes "week_ok cd wk"
  shows "1 \<le> iso_year wk" "iso_year wk \<le> 9999" "1 \<le> iso_week wk" "iso_week wk \<le> 53"
  using assms by (auto simp: week_ok_def validate_zurich_calendar_week_def Let_def split: if_splits)

lemma validated_week:
  assumes "validate_zurich_calendar_week z y w s e = Inr wk"
  shows "s = Aware (window_start wk)" "e = Aware (window_end wk)" "iso_year wk = y" "iso_week wk = w"
  using assms
  by (auto simp: validate_zurich_calendar_week_def Let_def split: if_splits moment.splits)

lemma week_field_SomeD:
  assumes "week_field cd y w start stop = Some wk"
  shows "week_ok cd wk" "iso_year wk = y" "iso_week wk = w"
    "parse_datetime cd start = Some (Aware (window_start wk))"
    "parse_datetime cd stop = Some (Aware (window_end wk))"
  using assms
  by (auto simp: week_field_def week_ok_def split: option.splits sum.splits dest: validated_week)

lemma zurich_week_ok:
  assumes "zurich_week (zurich cd) m = Inr wk"
  shows "week_ok cd wk"
proof -
  from assms obtain y w s e where "validate_zurich_calendar_week (zurich cd) y w s e = Inr wk"
    by (auto simp: zurich_week_def Let_def split: moment.splits prod.splits)
  with validated_week [OF this] show ?thesis by (simp add: week_ok_def)
qed

section \<open>Reservations, provider evidence, settlements\<close>

record reservation =
  res_id :: string
  res_effect :: string
  res_beneficiary :: string
  res_plan :: plan
  res_version :: int
  res_week :: zweek
  res_input :: int
  res_output :: int
  res_state_version :: int
  res_expires :: moment

record evidence =
  ev_id :: string
  ev_effect :: string
  ev_request :: string
  ev_model :: string
  ev_input :: int
  ev_output :: int
  ev_retained :: bool
  ev_observed :: moment

record finalization =
  fin_reservation :: string
  fin_evidence :: string
  fin_input :: int
  fin_output :: int
  fin_restored_input :: int
  fin_restored_output :: int
  fin_retained :: bool
  fin_technical :: bool
  fin_safety :: bool
  fin_durable :: bool
  fin_replay :: bool
  fin_state_version :: int
  fin_at :: moment

text \<open>\<open>validate_user_debit_outcome\<close>: a delivered result restores nothing, an undelivered one
  finalizes nothing.\<close>

definition validate_user_debit_outcome :: "finalization \<Rightarrow> finalization option" where
  "validate_user_debit_outcome f =
     (let final = fin_technical f \<and> fin_safety f \<and> fin_durable f \<and> fin_replay f
      in if final \<and> fin_restored_input f + fin_restored_output f \<noteq> 0 then None
         else if \<not> final \<and> fin_input f + fin_output f \<noteq> 0 then None
         else Some f)"

end
