(* ===== verification/Allowance_Ledger.thy ===== *)
theory Allowance_Ledger
  imports Allowance_Model
begin

text \<open>
  The weekly token ledger (\<open>db/repositories/allowance_repo.py\<close>). A provider call is one effect row,
  \<open>reserved\<close> before the call, \<open>observed\<close> when the provider reported its usage (on an evidence row
  that is written once), and \<open>finalized\<close> or \<open>restored\<close> when the result was or was not delivered.
  Every transaction writes the effect, the week's counter under its version, and a condition on the
  account fence.

  Each operation is an attempt, run again on a lost race: it reads, decides (\<open>reserve_decision\<close>,
  \<open>record_decision\<close>, \<open>settle_decision\<close>: pure functions of the rows read), commits, and after a
  failed commit reads again to see whether another delivery of the same command won. A decision is
  separated from its reads only so that the proofs can say what the rows were; the order of the
  reads and every branch are the source's.
\<close>

section \<open>Keys and digests\<close>

definition ALLOWANCE_EFFECT_SCHEMA_VERSION :: string where
  "ALLOWANCE_EFFECT_SCHEMA_VERSION = ''allowance_effect.v1''"

definition PROVIDER_USAGE_EVIDENCE_SCHEMA_VERSION :: string where
  "PROVIDER_USAGE_EVIDENCE_SCHEMA_VERSION = ''provider_usage_evidence.v1''"

definition partition_key :: "string \<Rightarrow> string" where
  "partition_key b = ''ALLOWANCE#'' @ b"

definition effect_key :: "string \<Rightarrow> string \<Rightarrow> key" where
  "effect_key b e = (partition_key b, ''EFFECT#'' @ e)"

definition evidence_id :: "codec \<Rightarrow> string \<Rightarrow> string" where
  "evidence_id cd e = sha256 cd (''stoa.allowance.provider-evidence.v1'' @ [CHR 0x00] @ e)"

definition evidence_key :: "string \<Rightarrow> string \<Rightarrow> key" where
  "evidence_key b v = (partition_key b, ''PROVIDER_USAGE#'' @ v)"

definition payload_digest :: "codec \<Rightarrow> string \<Rightarrow> (string \<times> pyval) list \<Rightarrow> string" where
  "payload_digest cd kind values =
     sha256 cd (''stoa.allowance.payload.v1'' @ [CHR 0x00] @ json_dumps cd ((''kind'', PStr kind) # values))"

definition put_create :: "item \<Rightarrow> op" where
  "put_create i = Put i create_only"

definition put_replace :: "item \<Rightarrow> int \<Rightarrow> string \<Rightarrow> op" where
  "put_replace i v st = Put i (C_And (C_Eq ''state_version'' (PInt v)) (C_Eq ''state'' (PStr st)))"

section \<open>Results\<close>

datatype reservation_disposition =
    R_Admitted | R_Replayed | R_Limit_Exceeded | R_Idempotency_Conflict | R_Retryable

datatype usage_disposition =
    P_Recorded | P_Replayed | P_Idempotency_Conflict | P_Invalid_State | P_Retryable

datatype finalization_disposition =
    F_Finalized | F_Restored | F_Replayed | F_Idempotency_Conflict | F_Invalid_State | F_Retryable

datatype release_disposition =
    L_Released | L_Already_Settled | L_Nothing_Reserved | L_Invalid_State | L_Retryable

type_synonym reservation_result = "reservation_disposition \<times> reservation option"

type_synonym usage_result = "usage_disposition \<times> evidence option"

type_synonym finalization_result = "finalization_disposition \<times> finalization option"

text \<open>What an attempt decides from the rows it read.\<close>

datatype 'r decision = Settled 'r | Escaped err | Transact "op list" "'r result"

section \<open>Reading rows\<close>

definition parse_counter :: "codec \<Rightarrow> string \<Rightarrow> zweek \<Rightarrow> item \<Rightarrow> counter option" where
  "parse_counter cd b wk row = do {
     c \<leftarrow> validate cd TOKENS row b wk;
     let i = c_item c;
     bi \<leftarrow> whole_in_range True (item_get i ''budget_input_tokens'');
     bo \<leftarrow> whole_in_range True (item_get i ''budget_output_tokens'');
     av \<leftarrow> whole_in_range True (item_get i ''allowance_version'');
     gen \<leftarrow> whole_in_range True (item_get i ''account_fence_generation'');
     p \<leftarrow> required_text 200 (item_get i ''plan_id'');
     _ \<leftarrow> plan_of_text p;
     _ \<leftarrow> required_text 200 (item_get i ''created_at'');
     _ \<leftarrow> required_text 200 (item_get i ''updated_at'');
     Some (c\<lparr>c_item := i ++ dict_of [(''budget_input_tokens'', PInt bi), (''budget_output_tokens'', PInt bo),
        (''allowance_version'', PInt av), (''account_fence_generation'', PInt gen), (''plan_id'', PStr p)]\<rparr>)
   }"

definition read_token_counter ::
    "codec \<Rightarrow> 'w db \<Rightarrow> string \<Rightarrow> zweek \<Rightarrow> 'w \<Rightarrow> counter option result \<times> 'w" where
  "read_token_counter cd db b wk w =
     (case strong_get db (counter_key TOKENS b wk) w of
        (Inl e, w') \<Rightarrow> (Inl Dependency_Failure, w')
      | (Inr None, w') \<Rightarrow> (Inr None, w')
      | (Inr (Some row), w') \<Rightarrow>
          (case parse_counter cd b wk row of
             None \<Rightarrow> (Inl Dependency_Failure, w')
           | Some c \<Rightarrow> (Inr (Some c), w')))"

definition reservation_from_effect :: "codec \<Rightarrow> item \<Rightarrow> reservation option" where
  "reservation_from_effect cd i = do {
     av \<leftarrow> whole_in_range True (item_get i ''allowance_version'');
     y \<leftarrow> whole_in_range True (item_get i ''iso_year'');
     n \<leftarrow> whole_in_range True (item_get i ''iso_week'');
     ti \<leftarrow> whole_in_range False (item_get i ''reservation_input_tokens'');
     tt \<leftarrow> whole_in_range False (item_get i ''reservation_output_tokens'');
     sv \<leftarrow> whole_in_range True (item_get i ''reservation_state_version'');
     rid \<leftarrow> opaque_text (item_get i ''reservation_id'');
     e \<leftarrow> opaque_text (item_get i ''effect_id'');
     b \<leftarrow> opaque_text (item_get i ''beneficiary_id'');
     p \<leftarrow> plan_field (item_get i ''plan_id'');
     wk \<leftarrow> week_field cd y n (item_get i ''window_start'') (item_get i ''window_end'');
     x \<leftarrow> parse_datetime cd (item_get i ''expires_at'');
     Some \<lparr>res_id = rid, res_effect = e, res_beneficiary = b, res_plan = p, res_version = av,
       res_week = wk, res_input = ti, res_output = tt, res_state_version = sv, res_expires = x\<rparr>
   }"

definition effect_states :: "string list" where
  "effect_states = [''reserved'', ''observed'', ''finalized'', ''restored'']"

text \<open>
  \<open>_validated_effect\<close>: an ill-formed row is the repository's dependency failure, except that the
  digest check raises \<open>ValueError\<close> (and the set membership of an unhashable state \<open>TypeError\<close>).
\<close>

definition effect_header_ok :: "string \<Rightarrow> string \<Rightarrow> item \<Rightarrow> bool" where
  "effect_header_ok b e i \<longleftrightarrow>
     item_get i ''entity_type'' = PStr ''allowance_effect''
     \<and> item_get i ''schema_version'' = PStr ALLOWANCE_EFFECT_SCHEMA_VERSION
     \<and> item_get i ''beneficiary_id'' = PStr b
     \<and> item_get i ''effect_id'' = PStr e
     \<and> item_get i ''PK'' = PStr (fst (effect_key b e))
     \<and> item_get i ''SK'' = PStr (snd (effect_key b e))"

definition effect_state_ok :: "item \<Rightarrow> bool" where
  "effect_state_ok i = (item_get i ''state'' \<in> PStr ` set effect_states)"

definition normalized_effect :: "item \<Rightarrow> item option" where
  "normalized_effect i = do {
     sv \<leftarrow> whole_in_range True (item_get i ''state_version'');
     gen \<leftarrow> whole_in_range True (item_get i ''account_fence_generation'');
     y \<leftarrow> whole_in_range True (item_get i ''iso_year'');
     n \<leftarrow> whole_in_range True (item_get i ''iso_week'');
     Some (i ++ dict_of [(''state_version'', PInt sv), (''account_fence_generation'', PInt gen),
        (''iso_year'', PInt y), (''iso_week'', PInt n)])
   }"

definition validated_effect :: "codec \<Rightarrow> string \<Rightarrow> string \<Rightarrow> item \<Rightarrow> item result" where
  "validated_effect cd b e i =
     (if \<not> effect_header_ok b e i then Inl Dependency_Failure
      else if unhashable (item_get i ''state'') then Inl Value_Error
      else if \<not> effect_state_ok i then Inl Dependency_Failure
      else case normalized_effect i of
        None \<Rightarrow> Inl Dependency_Failure
      | Some j \<Rightarrow>
          (case sha256_text (item_get i ''reservation_payload_digest'') of
             None \<Rightarrow> Inl Value_Error
           | Some _ \<Rightarrow>
               (case reservation_from_effect cd j of
                  None \<Rightarrow> Inl Dependency_Failure
                | Some _ \<Rightarrow> Inr j)))"

text \<open>Only the dependency failure is caught here: the \<open>ValueError\<close> goes to the caller.\<close>

definition classify_reservation ::
    "codec \<Rightarrow> string \<Rightarrow> string \<Rightarrow> string \<Rightarrow> item \<Rightarrow> reservation_result result" where
  "classify_reservation cd b e digest i =
     (case validated_effect cd b e i of
        Inl Dependency_Failure \<Rightarrow> Inr (R_Retryable, None)
      | Inl x \<Rightarrow> Inl x
      | Inr j \<Rightarrow>
          (case reservation_from_effect cd j of
             None \<Rightarrow> Inr (R_Retryable, None)
           | Some r \<Rightarrow>
               Inr (if item_get j ''reservation_payload_digest'' = PStr digest
                    then R_Replayed else R_Idempotency_Conflict, Some r)))"

definition evidence_from_item :: "codec \<Rightarrow> item \<Rightarrow> evidence option" where
  "evidence_from_item cd i = do {
     check (item_get i ''entity_type'' = PStr ''provider_usage_evidence'');
     check (item_get i ''schema_version'' = PStr PROVIDER_USAGE_EVIDENCE_SCHEMA_VERSION);
     kept \<leftarrow> stored_bool (item_get i ''provider_cost_retained'');
     check kept;
     ti \<leftarrow> whole_in_range False (item_get i ''input_tokens'');
     tt \<leftarrow> whole_in_range False (item_get i ''output_tokens'');
     v \<leftarrow> opaque_text (item_get i ''evidence_id'');
     e \<leftarrow> opaque_text (item_get i ''effect_id'');
     q \<leftarrow> digest_field (item_get i ''provider_request_id_digest'');
     m \<leftarrow> digest_field (item_get i ''model_id_digest'');
     x \<leftarrow> parse_datetime cd (item_get i ''observed_at'');
     Some \<lparr>ev_id = v, ev_effect = e, ev_request = q, ev_model = m, ev_input = ti, ev_output = tt,
       ev_retained = kept, ev_observed = x\<rparr>
   }"

definition classify_provider_evidence :: "codec \<Rightarrow> string \<Rightarrow> item \<Rightarrow> usage_result" where
  "classify_provider_evidence cd digest i =
     (case evidence_from_item cd i of
        None \<Rightarrow> (P_Retryable, None)
      | Some ev \<Rightarrow>
          (case sha256_text (item_get i ''provider_payload_digest'') of
             None \<Rightarrow> (P_Retryable, None)
           | Some d \<Rightarrow> (if d = digest then P_Replayed else P_Idempotency_Conflict, Some ev)))"

definition finalization_from_effect :: "codec \<Rightarrow> item \<Rightarrow> finalization option" where
  "finalization_from_effect cd i = do {
     kept \<leftarrow> stored_bool (item_get i ''provider_cost_retained'');
     technical \<leftarrow> stored_bool (item_get i ''technical_validation_passed'');
     safety \<leftarrow> stored_bool (item_get i ''safety_check_passed'');
     durable \<leftarrow> stored_bool (item_get i ''durable_result_stored'');
     replay \<leftarrow> stored_bool (item_get i ''stable_replay_readable'');
     fi \<leftarrow> whole_in_range False (item_get i ''finalized_input_tokens'');
     fo \<leftarrow> whole_in_range False (item_get i ''finalized_output_tokens'');
     ri \<leftarrow> whole_in_range False (item_get i ''restored_input_tokens'');
     ro \<leftarrow> whole_in_range False (item_get i ''restored_output_tokens'');
     sv \<leftarrow> whole_in_range True (item_get i ''state_version'');
     rid \<leftarrow> opaque_text (item_get i ''reservation_id'');
     v \<leftarrow> opaque_text (item_get i ''evidence_id'');
     x \<leftarrow> parse_datetime cd (item_get i ''finalized_at'');
     validate_user_debit_outcome \<lparr>fin_reservation = rid, fin_evidence = v, fin_input = fi, fin_output = fo,
       fin_restored_input = ri, fin_restored_output = ro, fin_retained = kept,
       fin_technical = technical, fin_safety = safety, fin_durable = durable, fin_replay = replay,
       fin_state_version = sv, fin_at = x\<rparr>
   }"

definition classify_finalization :: "codec \<Rightarrow> string \<Rightarrow> item \<Rightarrow> finalization_result" where
  "classify_finalization cd digest i =
     (case finalization_from_effect cd i of
        None \<Rightarrow> (F_Retryable, None)
      | Some f \<Rightarrow>
          (case sha256_text (item_get i ''finalization_payload_digest'') of
             None \<Rightarrow> (F_Retryable, None)
           | Some d \<Rightarrow> (if d = digest then F_Replayed else F_Idempotency_Conflict, Some f)))"

definition result_of :: "'d \<Rightarrow> 'r option \<Rightarrow> ('d \<times> 'r option) result" where
  "result_of d r = (case r of None \<Rightarrow> Inl Dependency_Failure | Some x \<Rightarrow> Inr (d, Some x))"

section \<open>Reserving\<close>

record reserve_request =
  rq_beneficiary :: string
  rq_effect :: string
  rq_week :: zweek
  rq_budget :: budget
  rq_input :: int
  rq_output :: int

definition reservation_digest :: "codec \<Rightarrow> reserve_request \<Rightarrow> string" where
  "reservation_digest cd rq =
     payload_digest cd ''reservation''
       [(''beneficiary_id'', PStr (rq_beneficiary rq)),
        (''effect_id'', PStr (rq_effect rq)),
        (''week_identity'', PStr (week_identity (rq_week rq))),
        (''plan_id'', PStr (plan_text (plan_id (rq_budget rq)))),
        (''allowance_version'', PInt (allowance_version (rq_budget rq))),
        (''budget_input_tokens'', PInt (budget_input (rq_budget rq))),
        (''budget_output_tokens'', PInt (budget_output (rq_budget rq))),
        (''input_tokens'', PInt (rq_input rq)),
        (''output_tokens'', PInt (rq_output rq))]"

definition reserved_effect :: "codec \<Rightarrow> reserve_request \<Rightarrow> int \<Rightarrow> int \<Rightarrow> int \<Rightarrow> item" where
  "reserved_effect cd rq generation now version =
     (let b = rq_beneficiary rq; e = rq_effect rq; wk = rq_week rq; bud = rq_budget rq
      in dict_of
       [(''PK'', PStr (fst (effect_key b e))),
        (''SK'', PStr (snd (effect_key b e))),
        (''entity_type'', PStr ''allowance_effect''),
        (''schema_version'', PStr ALLOWANCE_EFFECT_SCHEMA_VERSION),
        (''reservation_id'', PStr e),
        (''effect_id'', PStr e),
        (''beneficiary_id'', PStr b),
        (''plan_id'', PStr (plan_text (plan_id bud))),
        (''allowance_version'', PInt (allowance_version bud)),
        (''week_identity'', PStr (week_identity wk)),
        (''iso_year'', PInt (iso_year wk)),
        (''iso_week'', PInt (iso_week wk)),
        (''window_start'', PStr (iso cd (window_start wk))),
        (''window_end'', PStr (iso cd (window_end wk))),
        (''reservation_input_tokens'', PInt (rq_input rq)),
        (''reservation_output_tokens'', PInt (rq_output rq)),
        (''reservation_state_version'', PInt version),
        (''reservation_payload_digest'', PStr (reservation_digest cd rq)),
        (''state'', PStr ''reserved''),
        (''state_version'', PInt 1),
        (''account_fence_generation'', PInt generation),
        (''created_at'', PStr (iso cd now)),
        (''updated_at'', PStr (iso cd now)),
        (''expires_at'', PStr (iso cd (window_end wk)))])"

definition budget_conflict :: "budget \<Rightarrow> counter \<Rightarrow> bool" where
  "budget_conflict bud c \<longleftrightarrow>
     allowance_version bud < count c ''allowance_version''
     \<or> (allowance_version bud = count c ''allowance_version''
        \<and> (item_get (c_item c) ''plan_id'' \<noteq> PStr (plan_text (plan_id bud))
           \<or> count c ''budget_input_tokens'' \<noteq> budget_input bud
           \<or> count c ''budget_output_tokens'' \<noteq> budget_output bud))"

text \<open>
  The part of an attempt between its reads and its transaction. \<open>previous\<close> is the counter read;
  \<open>count\<close> also reads the ledger's own whole-number fields, which \<open>parse_counter\<close> normalized.
\<close>

definition reserve_decision ::
    "codec \<Rightarrow> reserve_request \<Rightarrow> int \<Rightarrow> int \<Rightarrow> counter option \<Rightarrow> reservation_result decision" where
  "reserve_decision cd rq generation now previous =
     (let b = rq_beneficiary rq; wk = rq_week rq; bud = rq_budget rq;
          reserved_input = prior_count previous ''reserved_input_tokens'';
          reserved_output = prior_count previous ''reserved_output_tokens'';
          input_used = prior_count previous ''finalized_input_tokens'' + reserved_input;
          output_used = prior_count previous ''finalized_output_tokens'' + reserved_output;
          version = next_version previous;
          next_effect = reserved_effect cd rq generation now version
      in if MAX_EXACT_COUNT < input_used \<or> MAX_EXACT_COUNT < output_used then Settled (R_Retryable, None)
         else if (case previous of None \<Rightarrow> False | Some c \<Rightarrow> budget_conflict bud c) then Settled (R_Retryable, None)
         else if budget_input bud < input_used + rq_input rq \<or> budget_output bud < output_used + rq_output rq
           then Settled (R_Limit_Exceeded, None)
         else if MAX_EXACT_COUNT < version then Escaped Value_Error
         else case write_counter cd TOKENS b wk previous
             [(''reserved_input_tokens'', reserved_input + rq_input rq),
              (''reserved_output_tokens'', reserved_output + rq_output rq)]
             [(''plan_id'', PStr (plan_text (plan_id bud))),
              (''allowance_version'', PInt (allowance_version bud)),
              (''budget_input_tokens'', PInt (budget_input bud)),
              (''budget_output_tokens'', PInt (budget_output bud)),
              (''account_fence_generation'', PInt generation)] now of
           Inl e \<Rightarrow> Escaped e
         | Inr counter_operation \<Rightarrow>
             (case active_fence_condition b (Some generation) of
                Inl e \<Rightarrow> Escaped e
              | Inr fence \<Rightarrow>
                  Transact [fence, put_create next_effect, counter_operation]
                    (result_of R_Admitted (reservation_from_effect cd next_effect))))"

text \<open>The tail every attempt shares: commit, and after a failed commit see who won.\<close>

definition settle_row :: "('r result) \<Rightarrow> 'r attempt" where
  "settle_row r = (case r of Inl e \<Rightarrow> Raised e | Inr x \<Rightarrow> Done x)"

definition commit_verdict :: "'w db \<Rightarrow> 'r decision \<Rightarrow> key \<Rightarrow> (item \<Rightarrow> 'r attempt) \<Rightarrow> 'r
    \<Rightarrow> 'w \<Rightarrow> 'r attempt \<times> 'w" where
  "commit_verdict db decision key raced unavailable w =
     (case decision of
        Settled r \<Rightarrow> (Done r, w)
      | Escaped e \<Rightarrow> (Raised e, w)
      | Transact ops r \<Rightarrow>
          (case db_tx db ops w of
             (True, w1) \<Rightarrow> (settle_row r, w1)
           | (False, w1) \<Rightarrow>
               (case strong_get db key w1 of
                  (Inl _, w2) \<Rightarrow> (Done unavailable, w2)
                | (Inr None, w2) \<Rightarrow> (Lost_Race, w2)
                | (Inr (Some row), w2) \<Rightarrow> (raced row, w2))))"

definition reserve_attempt ::
    "codec \<Rightarrow> 'w db \<Rightarrow> reserve_request \<Rightarrow> int \<Rightarrow> int \<Rightarrow> 'w \<Rightarrow> reservation_result attempt \<times> 'w" where
  "reserve_attempt cd db rq generation now w =
     (let b = rq_beneficiary rq; e = rq_effect rq;
          classify = (\<lambda>row. settle_row (classify_reservation cd b e (reservation_digest cd rq) row))
      in case strong_get db (effect_key b e) w of
        (Inl _, w1) \<Rightarrow> (Done (R_Retryable, None), w1)
      | (Inr (Some existing), w1) \<Rightarrow> (classify existing, w1)
      | (Inr None, w1) \<Rightarrow>
          (case read_token_counter cd db b (rq_week rq) w1 of
             (Inl _, w2) \<Rightarrow> (Done (R_Retryable, None), w2)
           | (Inr previous, w2) \<Rightarrow>
               commit_verdict db (reserve_decision cd rq generation now previous)
                 (effect_key b e) classify (R_Retryable, None) w2))"

text \<open>The generation an attempt is fenced by: the caller's, or the one read now.\<close>

definition reserve_generation :: "'w db \<Rightarrow> string \<Rightarrow> int option \<Rightarrow> 'w \<Rightarrow> int result \<times> 'w" where
  "reserve_generation db b generation w =
     (case generation of
        Some g \<Rightarrow> (if exact_count True g then Inr g else Inl Value_Error, w)
      | None \<Rightarrow>
          (case require_active_account_fence db b None w of
             (Inl e, w1) \<Rightarrow> (Inl e, w1)
           | (Inr fence, w1) \<Rightarrow>
               (case stored_int (item_get fence ''generation'') of
                  None \<Rightarrow> (Inl Value_Error, w1)
                | Some g \<Rightarrow> (if exact_count True g then Inr g else Inl Value_Error, w1))))"

definition reserve_allowance ::
    "codec \<Rightarrow> 'w db \<Rightarrow> reserve_request \<Rightarrow> moment \<Rightarrow> int option \<Rightarrow> 'w \<Rightarrow> reservation_result result \<times> 'w" where
  "reserve_allowance cd db rq observed_at generation w =
     (let b = rq_beneficiary rq; e = rq_effect rq; bud = rq_budget rq in
      if required_text 200 (PStr b) = None \<or> sha256_text (PStr e) = None
         \<or> \<not> exact_count False (rq_input rq) \<or> \<not> exact_count False (rq_output rq)
         \<or> rq_input rq + rq_output rq = 0
      then (Inl Value_Error, w)
      else case observed_at of
        Naive _ \<Rightarrow> (Inl Value_Error, w)
      | Aware now \<Rightarrow>
         (if budget_input bud < rq_input rq \<or> budget_output bud < rq_output rq
          then (Inr (R_Limit_Exceeded, None), w)
          else case strong_get db (effect_key b e) w of
            (Inl _, w1) \<Rightarrow> (Inr (R_Retryable, None), w1)
          | (Inr (Some existing), w1) \<Rightarrow>
              (classify_reservation cd b e (reservation_digest cd rq) existing, w1)
          | (Inr None, w1) \<Rightarrow>
              (case reserve_generation db b generation w1 of
                 (Inl Provider_Error, w2) \<Rightarrow> (Inl Provider_Error, w2)
               | (Inl _, w2) \<Rightarrow> (Inr (R_Retryable, None), w2)
               | (Inr g, w2) \<Rightarrow>
                   retry DEFAULT_ATTEMPTS (reserve_attempt cd db rq g now) (R_Retryable, None) w2)))"

section \<open>Recording the provider's usage\<close>

record usage_request =
  us_beneficiary :: string
  us_effect :: string
  us_request_digest :: string
  us_model_digest :: string
  us_input :: int
  us_output :: int
  us_unknown_cost :: bool

definition cost_basis :: "usage_request \<Rightarrow> (string \<times> pyval) list" where
  "cost_basis us = (if us_unknown_cost us then [(''cost_basis'', PStr ''unknown_cost'')] else [])"

definition usage_digest :: "codec \<Rightarrow> usage_request \<Rightarrow> string" where
  "usage_digest cd us =
     payload_digest cd ''provider_usage''
       ([(''beneficiary_id'', PStr (us_beneficiary us)),
         (''effect_id'', PStr (us_effect us)),
         (''provider_request_id_digest'', PStr (us_request_digest us)),
         (''model_id_digest'', PStr (us_model_digest us)),
         (''input_tokens'', PInt (us_input us)),
         (''output_tokens'', PInt (us_output us))] @ cost_basis us)"

definition usage_evidence_key :: "codec \<Rightarrow> usage_request \<Rightarrow> key" where
  "usage_evidence_key cd us = evidence_key (us_beneficiary us) (evidence_id cd (us_effect us))"

definition evidence_item :: "codec \<Rightarrow> usage_request \<Rightarrow> int \<Rightarrow> item \<Rightarrow> item" where
  "evidence_item cd us now current =
     dict_of
       ([(''PK'', PStr (fst (usage_evidence_key cd us))),
         (''SK'', PStr (snd (usage_evidence_key cd us))),
         (''entity_type'', PStr ''provider_usage_evidence''),
         (''schema_version'', PStr PROVIDER_USAGE_EVIDENCE_SCHEMA_VERSION),
         (''evidence_id'', PStr (evidence_id cd (us_effect us))),
         (''effect_id'', PStr (us_effect us)),
         (''beneficiary_id'', PStr (us_beneficiary us)),
         (''week_identity'', item_get current ''week_identity''),
         (''provider_request_id_digest'', PStr (us_request_digest us)),
         (''model_id_digest'', PStr (us_model_digest us)),
         (''input_tokens'', PInt (us_input us)),
         (''output_tokens'', PInt (us_output us)),
         (''provider_cost_retained'', PBool True),
         (''provider_payload_digest'', PStr (usage_digest cd us)),
         (''observed_at'', PStr (iso cd now))] @ cost_basis us)"

text \<open>\<open>current\<close> is the validated effect, whose version and generation are \<open>PInt\<close>.\<close>

definition int_field :: "item \<Rightarrow> string \<Rightarrow> int" where
  "int_field i a = (case item_get i a of PInt n \<Rightarrow> n | _ \<Rightarrow> 0)"

definition observed_effect :: "codec \<Rightarrow> usage_request \<Rightarrow> int \<Rightarrow> item \<Rightarrow> item" where
  "observed_effect cd us now current =
     current ++ dict_of
       [(''state'', PStr ''observed''),
        (''state_version'', PInt (int_field current ''state_version'' + 1)),
        (''evidence_id'', PStr (evidence_id cd (us_effect us))),
        (''provider_input_tokens'', PInt (us_input us)),
        (''provider_output_tokens'', PInt (us_output us)),
        (''provider_payload_digest'', PStr (usage_digest cd us)),
        (''provider_observed_at'', PStr (iso cd now)),
        (''updated_at'', PStr (iso cd now))]"

text \<open>The week of a stored effect, which must be the one it is named after.\<close>

definition effect_week :: "codec \<Rightarrow> item \<Rightarrow> zweek option" where
  "effect_week cd current = do {
     wk \<leftarrow> week_field cd (int_field current ''iso_year'') (int_field current ''iso_week'')
       (item_get current ''window_start'') (item_get current ''window_end'');
     check (item_get current ''week_identity'' = PStr (week_identity wk));
     Some wk
   }"

definition record_decision ::
    "codec \<Rightarrow> usage_request \<Rightarrow> int \<Rightarrow> item \<Rightarrow> zweek \<Rightarrow> counter \<Rightarrow> usage_result decision" where
  "record_decision cd us now current wk c =
     (let b = us_beneficiary us;
          cost_input = count c ''provider_cost_input_tokens'' + us_input us;
          cost_output = count c ''provider_cost_output_tokens'' + us_output us
      in if MAX_EXACT_COUNT < cost_input \<or> MAX_EXACT_COUNT < cost_output then Settled (P_Retryable, None)
         else case active_fence_condition b (Some (int_field current ''account_fence_generation'')) of
           Inl e \<Rightarrow> Escaped e
         | Inr fence \<Rightarrow>
             (case write_counter cd TOKENS b wk (Some c)
                 [(''provider_cost_input_tokens'', cost_input), (''provider_cost_output_tokens'', cost_output)]
                 [] now of
                Inl e \<Rightarrow> Escaped e
              | Inr counter_operation \<Rightarrow>
                  Transact
                    [fence, put_create (evidence_item cd us now current),
                     put_replace (observed_effect cd us now current)
                       (int_field current ''state_version'') ''reserved'',
                     counter_operation]
                    (result_of P_Recorded (evidence_from_item cd (evidence_item cd us now current)))))"

definition record_attempt ::
    "codec \<Rightarrow> 'w db \<Rightarrow> usage_request \<Rightarrow> int \<Rightarrow> 'w \<Rightarrow> usage_result attempt \<times> 'w" where
  "record_attempt cd db us now w =
     (let b = us_beneficiary us; e = us_effect us; digest = usage_digest cd us;
          classify = (\<lambda>row. Done (classify_provider_evidence cd digest row))
      in case strong_get db (effect_key b e) w of
        (Inl _, w1) \<Rightarrow> (Done (P_Retryable, None), w1)
      | (Inr None, w1) \<Rightarrow> (Done (P_Invalid_State, None), w1)
      | (Inr (Some raw), w1) \<Rightarrow>
         (case validated_effect cd b e raw of
            Inl _ \<Rightarrow> (Done (P_Retryable, None), w1)
          | Inr current \<Rightarrow>
             (if item_get current ''state'' \<noteq> PStr ''reserved''
              then (case strong_get db (usage_evidence_key cd us) w1 of
                  (Inl _, w2) \<Rightarrow> (Done (P_Retryable, None), w2)
                | (Inr (Some row), w2) \<Rightarrow> (classify row, w2)
                | (Inr None, w2) \<Rightarrow> (Done (P_Invalid_State, None), w2))
              else case effect_week cd current of
                None \<Rightarrow> (Done (P_Retryable, None), w1)
              | Some wk \<Rightarrow>
                 (case read_token_counter cd db b wk w1 of
                    (Inl _, w2) \<Rightarrow> (Done (P_Retryable, None), w2)
                  | (Inr None, w2) \<Rightarrow> (Done (P_Retryable, None), w2)
                  | (Inr (Some c), w2) \<Rightarrow>
                      commit_verdict db (record_decision cd us now current wk c)
                        (usage_evidence_key cd us) classify (P_Retryable, None) w2))))"

definition record_usage ::
    "codec \<Rightarrow> 'w db \<Rightarrow> usage_request \<Rightarrow> moment \<Rightarrow> 'w \<Rightarrow> usage_result result \<times> 'w" where
  "record_usage cd db us observed_at w =
     (if required_text 200 (PStr (us_beneficiary us)) = None \<or> sha256_text (PStr (us_effect us)) = None
         \<or> sha256_text (PStr (us_request_digest us)) = None \<or> sha256_text (PStr (us_model_digest us)) = None
         \<or> \<not> exact_count False (us_input us) \<or> \<not> exact_count False (us_output us)
      then (Inl Value_Error, w)
      else case observed_at of
        Naive _ \<Rightarrow> (Inl Value_Error, w)
      | Aware now \<Rightarrow>
         (case strong_get db (usage_evidence_key cd us) w of
            (Inl _, w1) \<Rightarrow> (Inr (P_Retryable, None), w1)
          | (Inr (Some row), w1) \<Rightarrow> (Inr (classify_provider_evidence cd (usage_digest cd us) row), w1)
          | (Inr None, w1) \<Rightarrow>
              retry DEFAULT_ATTEMPTS (record_attempt cd db us now) (P_Retryable, None) w1))"

definition record_provider_usage ::
    "codec \<Rightarrow> 'w db \<Rightarrow> usage_request \<Rightarrow> moment \<Rightarrow> 'w \<Rightarrow> usage_result result \<times> 'w" where
  "record_provider_usage cd db us observed_at w =
     record_usage cd db (us\<lparr>us_unknown_cost := False\<rparr>) observed_at w"

section \<open>Finalizing and restoring\<close>

record settle_request =
  st_beneficiary :: string
  st_effect :: string
  st_restore :: bool
  st_technical :: bool
  st_safety :: bool
  st_durable :: bool
  st_replay :: bool

definition delivered :: "settle_request \<Rightarrow> bool" where
  "delivered st = (st_technical st \<and> st_safety st \<and> st_durable st \<and> st_replay st)"

definition settle_digest :: "codec \<Rightarrow> settle_request \<Rightarrow> string" where
  "settle_digest cd st =
     payload_digest cd (if st_restore st then ''restoration'' else ''finalization'')
       [(''beneficiary_id'', PStr (st_beneficiary st)),
        (''effect_id'', PStr (st_effect st)),
        (''technical_validation_passed'', PBool (st_technical st)),
        (''safety_check_passed'', PBool (st_safety st)),
        (''durable_result_stored'', PBool (st_durable st)),
        (''stable_replay_readable'', PBool (st_replay st))]"

definition settled_state :: "settle_request \<Rightarrow> string" where
  "settled_state st = (if st_restore st then ''restored'' else ''finalized'')"

definition settled_effect ::
    "codec \<Rightarrow> settle_request \<Rightarrow> int \<Rightarrow> item \<Rightarrow> int \<Rightarrow> int \<Rightarrow> int \<Rightarrow> int \<Rightarrow> item" where
  "settled_effect cd st now current finalized_input finalized_output restored_input restored_output =
     current ++ dict_of
       [(''state'', PStr (settled_state st)),
        (''state_version'', PInt (int_field current ''state_version'' + 1)),
        (''finalized_input_tokens'', PInt finalized_input),
        (''finalized_output_tokens'', PInt finalized_output),
        (''restored_input_tokens'', PInt restored_input),
        (''restored_output_tokens'', PInt restored_output),
        (''provider_cost_retained'', PBool True),
        (''technical_validation_passed'', PBool (st_technical st)),
        (''safety_check_passed'', PBool (st_safety st)),
        (''durable_result_stored'', PBool (st_durable st)),
        (''stable_replay_readable'', PBool (st_replay st)),
        (''finalization_payload_digest'', PStr (settle_digest cd st)),
        (''finalized_at'', PStr (iso cd now)),
        (''restored_at'', if st_restore st then PStr (iso cd now) else PNone),
        (''updated_at'', PStr (iso cd now))]"

definition settle_decision :: "codec \<Rightarrow> settle_request \<Rightarrow> int \<Rightarrow> item \<Rightarrow> zweek \<Rightarrow> counter \<Rightarrow> evidence
    \<Rightarrow> finalization_result decision" where
  "settle_decision cd st now current wk c ev =
     (case (whole_in_range False (item_get current ''reservation_input_tokens''),
            whole_in_range False (item_get current ''reservation_output_tokens'')) of
        (Some ri, Some ro) \<Rightarrow>
          (let b = st_beneficiary st;
               finalized_input = (if st_restore st then 0 else ev_input ev);
               finalized_output = (if st_restore st then 0 else ev_output ev);
               next_effect = settled_effect cd st now current finalized_input finalized_output
                 (if st_restore st then ri else 0) (if st_restore st then ro else 0);
               next_input = count c ''finalized_input_tokens'' + finalized_input;
               next_output = count c ''finalized_output_tokens'' + finalized_output
           in if (\<not> st_restore st \<and> (ri < ev_input ev \<or> ro < ev_output ev))
                 \<or> count c ''reserved_input_tokens'' < ri \<or> count c ''reserved_output_tokens'' < ro
              then Settled (F_Invalid_State, None)
              else if MAX_EXACT_COUNT < next_input \<or> MAX_EXACT_COUNT < next_output
              then Settled (F_Retryable, None)
              else case active_fence_condition b (Some (int_field current ''account_fence_generation'')) of
                Inl e \<Rightarrow> Escaped e
              | Inr fence \<Rightarrow>
                  (case write_counter cd TOKENS b wk (Some c)
                      [(''reserved_input_tokens'', count c ''reserved_input_tokens'' - ri),
                       (''reserved_output_tokens'', count c ''reserved_output_tokens'' - ro),
                       (''finalized_input_tokens'', next_input),
                       (''finalized_output_tokens'', next_output)] [] now of
                     Inl e \<Rightarrow> Escaped e
                   | Inr counter_operation \<Rightarrow>
                       Transact
                         [fence, put_replace next_effect (int_field current ''state_version'') ''observed'',
                          counter_operation]
                         (result_of (if st_restore st then F_Restored else F_Finalized)
                           (finalization_from_effect cd next_effect))))
      | _ \<Rightarrow> Escaped Dependency_Failure)"

definition settled_row :: "item \<Rightarrow> bool" where
  "settled_row i = (item_get i ''state'' = PStr ''finalized'' \<or> item_get i ''state'' = PStr ''restored'')"

definition classify_settled :: "codec \<Rightarrow> string \<Rightarrow> item \<Rightarrow> finalization_result attempt" where
  "classify_settled cd digest row =
     (if unhashable (item_get row ''state'') then Raised Value_Error
      else if settled_row row then Done (classify_finalization cd digest row)
      else Lost_Race)"

definition settle_attempt ::
    "codec \<Rightarrow> 'w db \<Rightarrow> settle_request \<Rightarrow> int \<Rightarrow> 'w \<Rightarrow> finalization_result attempt \<times> 'w" where
  "settle_attempt cd db st now w =
     (let b = st_beneficiary st; e = st_effect st; digest = settle_digest cd st
      in case strong_get db (effect_key b e) w of
        (Inl _, w1) \<Rightarrow> (Done (F_Retryable, None), w1)
      | (Inr None, w1) \<Rightarrow> (Done (F_Invalid_State, None), w1)
      | (Inr (Some raw), w1) \<Rightarrow>
         (case validated_effect cd b e raw of
            Inl _ \<Rightarrow> (Done (F_Retryable, None), w1)
          | Inr current \<Rightarrow>
             (if settled_row current then (Done (classify_finalization cd digest current), w1)
              else if item_get current ''state'' \<noteq> PStr ''observed'' then (Done (F_Invalid_State, None), w1)
              else case effect_week cd current of
                None \<Rightarrow> (Done (F_Retryable, None), w1)
              | Some wk \<Rightarrow>
                 (case read_token_counter cd db b wk w1 of
                    (Inl _, w2) \<Rightarrow> (Done (F_Retryable, None), w2)
                  | (Inr previous, w2) \<Rightarrow>
                     (case sha256_text (item_get current ''evidence_id'') of
                        None \<Rightarrow> (Done (F_Retryable, None), w2)
                      | Some v \<Rightarrow>
                         (case strong_get db (evidence_key b v) w2 of
                            (Inl _, w3) \<Rightarrow> (Done (F_Retryable, None), w3)
                          | (Inr row, w3) \<Rightarrow>
                             (case (previous, Option.bind row (evidence_from_item cd)) of
                                (Some c, Some ev) \<Rightarrow>
                                  commit_verdict db (settle_decision cd st now current wk c ev)
                                    (effect_key b e) (classify_settled cd digest) (F_Retryable, None) w3
                              | _ \<Rightarrow> (Done (F_Retryable, None), w3))))))))"

definition complete_allowance ::
    "codec \<Rightarrow> 'w db \<Rightarrow> settle_request \<Rightarrow> moment \<Rightarrow> 'w \<Rightarrow> finalization_result result \<times> 'w" where
  "complete_allowance cd db st finalized_at w =
     (if required_text 200 (PStr (st_beneficiary st)) = None \<or> sha256_text (PStr (st_effect st)) = None
         \<or> st_restore st = delivered st
      then (Inl Value_Error, w)
      else case finalized_at of
        Naive _ \<Rightarrow> (Inl Value_Error, w)
      | Aware now \<Rightarrow> retry DEFAULT_ATTEMPTS (settle_attempt cd db st now) (F_Retryable, None) w)"

definition finalize_allowance ::
    "codec \<Rightarrow> 'w db \<Rightarrow> settle_request \<Rightarrow> moment \<Rightarrow> 'w \<Rightarrow> finalization_result result \<times> 'w" where
  "finalize_allowance cd db st finalized_at w =
     complete_allowance cd db (st\<lparr>st_restore := False\<rparr>) finalized_at w"

definition restore_allowance ::
    "codec \<Rightarrow> 'w db \<Rightarrow> settle_request \<Rightarrow> moment \<Rightarrow> 'w \<Rightarrow> finalization_result result \<times> 'w" where
  "restore_allowance cd db st restored_at w =
     complete_allowance cd db (st\<lparr>st_restore := True\<rparr>) restored_at w"

section \<open>Releasing a reservation of unknown cost\<close>

definition unknown_usage :: "codec \<Rightarrow> string \<Rightarrow> string \<Rightarrow> int \<Rightarrow> int \<Rightarrow> usage_request" where
  "unknown_usage cd b e ri ro =
     (let unknown = payload_digest cd ''unknown_cost'' [(''effect_id'', PStr e)]
      in \<lparr>us_beneficiary = b, us_effect = e, us_request_digest = unknown, us_model_digest = unknown,
          us_input = ri, us_output = ro, us_unknown_cost = True\<rparr>)"

definition undelivered :: "string \<Rightarrow> string \<Rightarrow> settle_request" where
  "undelivered b e = \<lparr>st_beneficiary = b, st_effect = e, st_restore = True, st_technical = False,
     st_safety = False, st_durable = False, st_replay = False\<rparr>"

definition release_restored ::
    "codec \<Rightarrow> 'w db \<Rightarrow> string \<Rightarrow> string \<Rightarrow> moment \<Rightarrow> 'w \<Rightarrow> release_disposition result \<times> 'w" where
  "release_restored cd db b e now w =
     (case complete_allowance cd db (undelivered b e) now w of
        (Inl x, w') \<Rightarrow> (Inl x, w')
      | (Inr (d, _), w') \<Rightarrow>
          (Inr (if d = F_Restored \<or> d = F_Replayed then L_Released
                else if d = F_Retryable then L_Retryable else L_Invalid_State), w'))"

definition release_unknown_cost ::
    "codec \<Rightarrow> 'w db \<Rightarrow> string \<Rightarrow> string \<Rightarrow> moment \<Rightarrow> 'w \<Rightarrow> release_disposition result \<times> 'w" where
  "release_unknown_cost cd db b e released_at w =
     (if required_text 200 (PStr b) = None \<or> sha256_text (PStr e) = None then (Inl Value_Error, w)
      else case released_at of
        Naive _ \<Rightarrow> (Inl Value_Error, w)
      | Aware _ \<Rightarrow>
         (case strong_get db (effect_key b e) w of
            (Inl _, w1) \<Rightarrow> (Inr L_Retryable, w1)
          | (Inr None, w1) \<Rightarrow> (Inr L_Nothing_Reserved, w1)
          | (Inr (Some raw), w1) \<Rightarrow>
             (case validated_effect cd b e raw of
                Inl _ \<Rightarrow> (Inr L_Retryable, w1)
              | Inr current \<Rightarrow>
                 (case (whole_in_range False (item_get current ''reservation_input_tokens''),
                        whole_in_range False (item_get current ''reservation_output_tokens'')) of
                    (Some ri, Some ro) \<Rightarrow>
                      (if settled_row current then (Inr L_Already_Settled, w1)
                       else if item_get current ''state'' = PStr ''reserved'' then
                         (case record_usage cd db (unknown_usage cd b e ri ro) released_at w1 of
                            (Inl x, w2) \<Rightarrow> (Inl x, w2)
                          | (Inr (d, _), w2) \<Rightarrow>
                              (if d = P_Invalid_State then (Inr L_Invalid_State, w2)
                               else if d \<noteq> P_Recorded \<and> d \<noteq> P_Replayed then (Inr L_Retryable, w2)
                               else release_restored cd db b e released_at w2))
                       else release_restored cd db b e released_at w1)
                  | _ \<Rightarrow> (Inr L_Retryable, w1)))))"

definition get_allowance_counter ::
    "codec \<Rightarrow> 'w db \<Rightarrow> string \<Rightarrow> zweek \<Rightarrow> 'w \<Rightarrow> item option result \<times> 'w" where
  "get_allowance_counter cd db b wk w =
     (if required_text 200 (PStr b) = None then (Inl Value_Error, w)
      else case read_token_counter cd db b wk w of
        (Inl e, w') \<Rightarrow> (Inl e, w')
      | (Inr c, w') \<Rightarrow> (Inr (map_option c_item c), w'))"

end
