(* ===== verification/Ledger_Rows.thy ===== *)
theory Ledger_Rows
  imports Allowance_Ledger
begin

text \<open>
  Lemmas on the rows of the token ledger: which numbers a parsed counter and a validated effect
  carry, at which keys the ledger's writes land, and what a transaction of puts leaves in the table.
\<close>

section \<open>Numbers in rows\<close>

definition num_of :: "pyval \<Rightarrow> int" where
  "num_of v = (case stored_int v of None \<Rightarrow> 0 | Some n \<Rightarrow> n)"

lemma stored_int_as_stored [simp]: "stored_int (as_stored v) = stored_int v"
  by (cases v) auto

lemma num_of_as_stored [simp]: "num_of (as_stored v) = num_of v"
  by (simp add: num_of_def)

lemma num_of_stored [simp]: "num_of (item_get (stored_item i) a) = num_of (item_get i a)"
  by (simp add: item_get_stored)

lemma state_stored [simp]: "item_get (stored_item i) a = PStr s \<longleftrightarrow> item_get i a = PStr s"
  by (simp add: item_get_stored)

lemma num_of_PInt [simp]: "num_of (PInt n) = n"
  by (simp add: num_of_def)

lemma num_of_range: "whole_in_range p v = Some n \<Longrightarrow> num_of v = n"
  by (simp add: num_of_def exact_int_stored_int whole_in_range_SomeD(1))

lemma row_version_range: "whole_in_range p (item_get i ''state_version'') = Some n \<Longrightarrow> row_version i = Some n"
  by (simp add: row_version_def exact_int_stored_int whole_in_range_SomeD(1))

section \<open>The ledger's counter\<close>

definition budget_fields :: "string list" where
  "budget_fields = [''budget_input_tokens'', ''budget_output_tokens'', ''allowance_version'']"

lemma parse_counter_SomeD:
  assumes "parse_counter cd b wk row = Some c"
  obtains c0 bi bo av gen p where
    "validate cd TOKENS row b wk = Some c0"
    "c = c0\<lparr>c_item := c_item c0 ++ dict_of [(''budget_input_tokens'', PInt bi), (''budget_output_tokens'', PInt bo),
        (''allowance_version'', PInt av), (''account_fence_generation'', PInt gen), (''plan_id'', PStr p)]\<rparr>"
    "whole_in_range True (item_get row ''budget_input_tokens'') = Some bi"
    "whole_in_range True (item_get row ''budget_output_tokens'') = Some bo"
    "whole_in_range True (item_get row ''allowance_version'') = Some av"
    "item_get row ''plan_id'' = PStr p"
proof -
  from assms obtain c0 bi bo av gen p where
    v: "validate cd TOKENS row b wk = Some c0" and
    c: "c = c0\<lparr>c_item := c_item c0 ++ dict_of [(''budget_input_tokens'', PInt bi), (''budget_output_tokens'', PInt bo),
        (''allowance_version'', PInt av), (''account_fence_generation'', PInt gen), (''plan_id'', PStr p)]\<rparr>" and
    f: "whole_in_range True (item_get (c_item c0) ''budget_input_tokens'') = Some bi"
    "whole_in_range True (item_get (c_item c0) ''budget_output_tokens'') = Some bo"
    "whole_in_range True (item_get (c_item c0) ''allowance_version'') = Some av"
    "required_text 200 (item_get (c_item c0) ''plan_id'') = Some p"
    unfolding parse_counter_def Let_def bind_eq_Some_conv by blast
  note other = validate_SomeD(6) [OF v kind_wf_TOKENS]
  from f show ?thesis
    by (intro that [OF v c]) (auto simp: other TOKENS_def dest: required_text_SomeD)
qed

lemma parse_counter_ok:
  assumes "parse_counter cd b wk row = Some c"
  shows "counter_ok cd TOKENS b wk c"
proof -
  from assms obtain c0 bi bo av gen p where v: "validate cd TOKENS row b wk = Some c0"
    and c: "c = c0\<lparr>c_item := c_item c0 ++ dict_of [(''budget_input_tokens'', PInt bi), (''budget_output_tokens'', PInt bo),
        (''allowance_version'', PInt av), (''account_fence_generation'', PInt gen), (''plan_id'', PStr p)]\<rparr>"
    by (rule parse_counter_SomeD)
  have same: "item_get (c_item c) a = item_get (c_item c0) a"
    if "a \<in> fst ` set (header cd TOKENS b wk) \<union> set (count_fields TOKENS)" for a
    using that by (auto simp: c item_get_merge_notin header_fields TOKENS_def)
  from validate_counter_ok [OF v kind_wf_TOKENS] have ok: "counter_ok cd TOKENS b wk c0" .
  have "header_ok cd TOKENS b wk (c_item c)"
    using ok same unfolding counter_ok_def header_ok_def by fastforce
  moreover have "count c f = count c0 f" if "f \<in> set (count_fields TOKENS)" for f
    using that same by (simp add: count_def)
  moreover have "c_version c = c_version c0" by (simp add: c)
  ultimately show ?thesis using ok same by (simp add: counter_ok_def)
qed

lemma parse_counter_num:
  assumes "parse_counter cd b wk row = Some c"
    and "f \<in> set (count_fields TOKENS) \<union> set budget_fields"
  shows "num_of (item_get row f) = count c f"
proof -
  from assms(1) obtain c0 bi bo av gen p where v: "validate cd TOKENS row b wk = Some c0"
    and c: "c = c0\<lparr>c_item := c_item c0 ++ dict_of [(''budget_input_tokens'', PInt bi), (''budget_output_tokens'', PInt bo),
        (''allowance_version'', PInt av), (''account_fence_generation'', PInt gen), (''plan_id'', PStr p)]\<rparr>"
    and n: "whole_in_range True (item_get row ''budget_input_tokens'') = Some bi"
    "whole_in_range True (item_get row ''budget_output_tokens'') = Some bo"
    "whole_in_range True (item_get row ''allowance_version'') = Some av"
    by (rule parse_counter_SomeD)
  show ?thesis
  proof (cases "f \<in> set (count_fields TOKENS)")
    case True
    then have "count c f = count c0 f"
      by (auto simp: c count_def item_get_merge_notin TOKENS_def)
    with validate_SomeD(5) [OF v kind_wf_TOKENS True] show ?thesis by (auto dest: num_of_range)
  next
    case False
    with assms(2) n show ?thesis
      by (auto simp: budget_fields_def c count_def row_lookup num_of_range)
  qed
qed

lemma parse_counter_version:
  assumes "parse_counter cd b wk row = Some c"
  shows "row_version row = Some (c_version c)" and "1 \<le> c_version c"
proof -
  from assms obtain c0 bi bo av gen p where v: "validate cd TOKENS row b wk = Some c0"
    and c: "c = c0\<lparr>c_item := c_item c0 ++ dict_of [(''budget_input_tokens'', PInt bi), (''budget_output_tokens'', PInt bo),
        (''allowance_version'', PInt av), (''account_fence_generation'', PInt gen), (''plan_id'', PStr p)]\<rparr>"
    by (rule parse_counter_SomeD)
  with validate_row_version [OF v kind_wf_TOKENS]
  show "row_version row = Some (c_version c)" and "1 \<le> c_version c" by auto
qed

section \<open>Validated effects\<close>

lemma validated_effect_InrD:
  assumes "validated_effect cd b e i = Inr j"
  obtains sv gen y n where
    "effect_header_ok b e i" "effect_state_ok i"
    "j = i ++ dict_of [(''state_version'', PInt sv), (''account_fence_generation'', PInt gen),
        (''iso_year'', PInt y), (''iso_week'', PInt n)]"
    "whole_in_range True (item_get i ''state_version'') = Some sv"
    "whole_in_range True (item_get i ''account_fence_generation'') = Some gen"
    "whole_in_range True (item_get i ''iso_year'') = Some y" "whole_in_range True (item_get i ''iso_week'') = Some n"
    "\<exists>d. sha256_text (item_get i ''reservation_payload_digest'') = Some d"
    "\<exists>r. reservation_from_effect cd j = Some r"
  using assms
  by (auto simp: validated_effect_def normalized_effect_def bind_eq_Some_conv
      split: if_splits option.splits)

definition normalized_fields :: "string list" where
  "normalized_fields = [''state_version'', ''account_fence_generation'', ''iso_year'', ''iso_week'']"

lemma validated_effect_get:
  assumes "validated_effect cd b e i = Inr j" "a \<notin> set normalized_fields"
  shows "item_get j a = item_get i a"
  using assms(1)
  by (rule validated_effect_InrD) (use assms(2) in \<open>simp add: item_get_merge_notin normalized_fields_def\<close>)

lemma validated_effect_version:
  assumes "validated_effect cd b e i = Inr j"
  shows "row_version i = Some (int_field j ''state_version'')" "1 \<le> int_field j ''state_version''"
    "item_get j ''state_version'' = PInt (int_field j ''state_version'')"
    "int_field j ''state_version'' \<le> MAX_EXACT_COUNT"
proof -
  from assms obtain sv gen y n where
    j: "j = i ++ dict_of [(''state_version'', PInt sv), (''account_fence_generation'', PInt gen),
        (''iso_year'', PInt y), (''iso_week'', PInt n)]"
    and sv: "whole_in_range True (item_get i ''state_version'') = Some sv"
    by (rule validated_effect_InrD)
  have g: "item_get j ''state_version'' = PInt sv" by (simp add: j row_lookup)
  with row_version_range [OF sv] whole_in_range_SomeD [OF sv]
  show "row_version i = Some (int_field j ''state_version'')" "1 \<le> int_field j ''state_version''"
    "item_get j ''state_version'' = PInt (int_field j ''state_version'')"
    "int_field j ''state_version'' \<le> MAX_EXACT_COUNT"
    by (simp_all add: int_field_def)
qed

lemma validated_effect_keys:
  assumes "validated_effect cd b e i = Inr j"
  shows "item_key j = Some (effect_key b e)" and "item_get j ''effect_id'' = PStr e"
    and "item_get j ''beneficiary_id'' = PStr b"
proof -
  have "effect_header_ok b e i" using assms by (rule validated_effect_InrD)
  moreover have "item_get j a = item_get i a" if "a \<in> {''PK'', ''SK'', ''effect_id'', ''beneficiary_id''}" for a
    using validated_effect_get [OF assms, of a] that by (auto simp: normalized_fields_def)
  ultimately show "item_key j = Some (effect_key b e)" and "item_get j ''effect_id'' = PStr e"
    and "item_get j ''beneficiary_id'' = PStr b"
    by (simp_all add: item_key_def effect_header_ok_def)
qed

section \<open>Where the rows are\<close>

definition is_effect_key :: "key \<Rightarrow> bool" where
  "is_effect_key k = (take 7 (snd k) = ''EFFECT#'')"

definition is_evidence_key :: "key \<Rightarrow> bool" where
  "is_evidence_key k = (take 15 (snd k) = ''PROVIDER_USAGE#'')"

definition ledger_key :: "key \<Rightarrow> bool" where
  "ledger_key k = (take 10 (fst k) = ''ALLOWANCE#'')"

lemma effect_key_kind [simp]:
  "is_effect_key (effect_key b e)" "\<not> is_evidence_key (effect_key b e)" "ledger_key (effect_key b e)"
  "fst (effect_key b e) = partition_key b"
  by (simp_all add: is_effect_key_def is_evidence_key_def effect_key_def ledger_key_def partition_key_def)

lemma evidence_key_kind [simp]:
  "is_evidence_key (evidence_key b v)" "\<not> is_effect_key (evidence_key b v)" "ledger_key (evidence_key b v)"
  "fst (evidence_key b v) = partition_key b"
  by (simp_all add: is_effect_key_def is_evidence_key_def evidence_key_def ledger_key_def partition_key_def)

lemma counter_key_TOKENS: "counter_key TOKENS b wk = (partition_key b, ''WEEK#'' @ week_identity wk)"
  by (simp add: counter_key_def TOKENS_def partition_key_def)

lemma counter_key_kind [simp]:
  "\<not> is_evidence_key (counter_key TOKENS b wk)" "\<not> is_effect_key (counter_key TOKENS b wk)"
  "ledger_key (counter_key TOKENS b wk)" "fst (counter_key TOKENS b wk) = partition_key b"
  by (simp_all add: is_effect_key_def is_evidence_key_def counter_key_TOKENS ledger_key_def partition_key_def)

lemma keys_apart [simp]:
  "effect_key b e \<noteq> evidence_key b' v" "effect_key b e \<noteq> counter_key TOKENS b' wk"
  "evidence_key b v \<noteq> counter_key TOKENS b' wk" "evidence_key b' v \<noteq> effect_key b e"
  "counter_key TOKENS b' wk \<noteq> effect_key b e" "counter_key TOKENS b' wk \<noteq> evidence_key b v"
  by (metis effect_key_kind evidence_key_kind counter_key_kind)+

lemma partition_key_inject [simp]: "partition_key b = partition_key b' \<longleftrightarrow> b = b'"
  by (simp add: partition_key_def)

lemma effect_key_inject [simp]: "effect_key b e = effect_key b' e' \<longleftrightarrow> b = b' \<and> e = e'"
  by (simp add: effect_key_def)

lemma item_key_reserved_effect [simp]:
  "item_key (reserved_effect cd rq g now v) = Some (effect_key (rq_beneficiary rq) (rq_effect rq))"
  by (simp add: item_key_def reserved_effect_def Let_def row_lookup prod_eq_iff)

lemma item_key_evidence_item [simp]: "item_key (evidence_item cd us now cur) = Some (usage_evidence_key cd us)"
  by (simp add: item_key_def evidence_item_def row_lookup prod_eq_iff)

lemma item_key_observed_effect: "item_key cur = Some k \<Longrightarrow> item_key (observed_effect cd us now cur) = Some k"
  by (simp add: item_key_def observed_effect_def row_lookup)

lemma item_key_settled_effect: "item_key cur = Some k \<Longrightarrow> item_key (settled_effect cd st now cur a b c d) = Some k"
  by (simp add: item_key_def settled_effect_def row_lookup)

section \<open>Transactions of a fence check and puts\<close>

lemma tx_checked_puts:
  assumes "tx_apply (Check fk fc # puts) t = Some t'"
    and "\<forall>p \<in> set puts. \<exists>i c k. p = Put i c \<and> item_key i = Some k"
  shows "t' = fold op_write puts t" "cond_holds fc (row_at t fk)" "\<forall>p \<in> set puts. op_ok t p"
    "distinct (map op_key puts)"
  using assms by (auto simp: tx_apply_def list_all_iff split: if_splits)

lemma active_fence_InrD:
  "active_fence_condition u g = Inr oper \<Longrightarrow> \<exists>c. oper = Check (''USER#'' @ strip u, ''ACCOUNT_FENCE'') c"
  by (erule active_fence_shape) blast

section \<open>Rows the ledger writes are rows the ledger accepts\<close>

definition positive_fields :: "string list" where
  "positive_fields = [''budget_input_tokens'', ''budget_output_tokens'', ''allowance_version'', ''account_fence_generation'']"

definition ledger_fields_ok :: "item \<Rightarrow> bool" where
  "ledger_fields_ok i \<longleftrightarrow>
     (\<forall>a \<in> set positive_fields. whole_in_range True (item_get i a) \<noteq> None)
     \<and> (\<exists>p. item_get i ''plan_id'' = PStr (plan_text p))
     \<and> required_text 200 (item_get i ''created_at'') \<noteq> None \<and> required_text 200 (item_get i ''updated_at'') \<noteq> None"

lemma plan_text_required: "required_text 200 (PStr (plan_text p)) = Some (plan_text p)"
  by (cases p; hypsubst; code_simp)

lemma range_stored: "whole_in_range p v \<noteq> None \<Longrightarrow> whole_in_range p (as_stored v) \<noteq> None"
  by (cases "whole_in_range p v") (simp_all add: whole_in_range_as_stored)

lemma ledger_fields_stored:
  assumes "ledger_fields_ok i"
  shows "ledger_fields_ok (stored_item i)"
  using assms range_stored unfolding ledger_fields_ok_def by (simp add: item_get_stored)

lemma parse_counter_total:
  assumes v: "validate cd TOKENS row b wk = Some c0" and f: "ledger_fields_ok row"
  shows "\<exists>c. parse_counter cd b wk row = Some c \<and> c_version c = c_version c0
    \<and> (\<forall>a \<in> set (count_fields TOKENS). count c a = count c0 a)"
proof -
  have other: "item_get (c_item c0) a = item_get row a"
    if "a \<in> set positive_fields \<union> {''plan_id'', ''created_at'', ''updated_at''}" for a
    using that by (intro validate_SomeD(6) [OF v kind_wf_TOKENS]) (auto simp: TOKENS_def positive_fields_def)
  from f obtain bi bo av gen p where
    "whole_in_range True (item_get row ''budget_input_tokens'') = Some bi"
    "whole_in_range True (item_get row ''budget_output_tokens'') = Some bo"
    "whole_in_range True (item_get row ''allowance_version'') = Some av"
    "whole_in_range True (item_get row ''account_fence_generation'') = Some gen"
    "item_get row ''plan_id'' = PStr (plan_text p)"
    by (auto simp: ledger_fields_ok_def positive_fields_def)
  note r = this
  from f obtain cr upd where "required_text 200 (item_get row ''created_at'') = Some cr"
      "required_text 200 (item_get row ''updated_at'') = Some upd"
    by (auto simp: ledger_fields_ok_def)
  note t = this
  let ?c = "c0\<lparr>c_item := c_item c0 ++ dict_of [(''budget_input_tokens'', PInt bi), (''budget_output_tokens'', PInt bo),
        (''allowance_version'', PInt av), (''account_fence_generation'', PInt gen), (''plan_id'', PStr (plan_text p))]\<rparr>"
  have "parse_counter cd b wk row = Some ?c"
    unfolding parse_counter_def Let_def v Option.bind.simps
    by (simp add: other positive_fields_def r t plan_text_required)
  moreover have "count ?c a = count c0 a" if "a \<in> set (count_fields TOKENS)" for a
    using that by (auto simp: count_def item_get_merge_notin TOKENS_def)
  ultimately show ?thesis by (intro exI [of _ ?c]) simp
qed

lemma parse_counter_fields:
  assumes "parse_counter cd b wk row = Some c"
  shows "ledger_fields_ok (c_item c)"
proof -
  from assms obtain c0 bi bo av gen p where
    c: "c = c0\<lparr>c_item := c_item c0 ++ dict_of [(''budget_input_tokens'', PInt bi), (''budget_output_tokens'', PInt bo),
        (''allowance_version'', PInt av), (''account_fence_generation'', PInt gen), (''plan_id'', PStr p)]\<rparr>" and
    f: "whole_in_range True (item_get (c_item c0) ''budget_input_tokens'') = Some bi"
    "whole_in_range True (item_get (c_item c0) ''budget_output_tokens'') = Some bo"
    "whole_in_range True (item_get (c_item c0) ''allowance_version'') = Some av"
    "whole_in_range True (item_get (c_item c0) ''account_fence_generation'') = Some gen"
    "\<exists>q. plan_of_text p = Some q"
    "\<exists>x. required_text 200 (item_get (c_item c0) ''created_at'') = Some x"
    "\<exists>x. required_text 200 (item_get (c_item c0) ''updated_at'') = Some x"
    unfolding parse_counter_def Let_def bind_eq_Some_conv by blast
  note r = f(1-4) [THEN whole_in_range_SomeD(3)] f(1-4) [THEN whole_in_range_SomeD(4)]
  from f(5) obtain q where "p = plan_text q" by (auto dest: plan_of_text_SomeD)
  with f(6,7) r show ?thesis
    by (auto simp: ledger_fields_ok_def positive_fields_def c row_lookup)
qed

end
