(* ===== verification/Ledger_Steps.thy ===== *)
theory Ledger_Steps
  imports Ledger_Rows "HOL-Library.Transitive_Closure_Table"
begin

text \<open>
  The abstract ledger: what the table may do in one step. A command of the ledger either happens
  completely, deciding on the rows the table holds at that instant, or not at all; every other
  writer of the table leaves the \<open>ALLOWANCE#\<close> partitions alone. That the repository's functions,
  with their separate reads, their retries and their lost answers, only ever take such steps is
  proved in \<open>Ledger_Client\<close>; what follows from the steps alone is proved in \<open>Ledger_Invariant\<close>.
\<close>

section \<open>Steps\<close>

definition request_ok :: "codec \<Rightarrow> reserve_request \<Rightarrow> bool" where
  "request_ok cd rq \<longleftrightarrow>
     required_text 200 (PStr (rq_beneficiary rq)) \<noteq> None \<and> sha_text (rq_effect rq)
     \<and> exact_count False (rq_input rq) \<and> exact_count False (rq_output rq)
     \<and> rq_input rq + rq_output rq \<noteq> 0
     \<and> week_ok cd (rq_week rq) \<and> budget_ok (rq_budget rq)"

definition usage_ok :: "usage_request \<Rightarrow> bool" where
  "usage_ok us \<longleftrightarrow>
     required_text 200 (PStr (us_beneficiary us)) \<noteq> None \<and> sha_text (us_effect us)
     \<and> sha_text (us_request_digest us) \<and> sha_text (us_model_digest us)
     \<and> exact_count False (us_input us) \<and> exact_count False (us_output us)"

definition settle_ok :: "settle_request \<Rightarrow> bool" where
  "settle_ok st \<longleftrightarrow>
     required_text 200 (PStr (st_beneficiary st)) \<noteq> None \<and> sha_text (st_effect st)
     \<and> st_restore st \<noteq> delivered st"

definition counter_on :: "codec \<Rightarrow> string \<Rightarrow> zweek \<Rightarrow> table \<Rightarrow> counter option option" where
  "counter_on cd b wk t =
     (case t (counter_key TOKENS b wk) of
        None \<Rightarrow> Some None
      | Some row \<Rightarrow> map_option Some (parse_counter cd b wk row))"

definition effect_on :: "codec \<Rightarrow> string \<Rightarrow> string \<Rightarrow> table \<Rightarrow> item option" where
  "effect_on cd b e t =
     (case t (effect_key b e) of
        None \<Rightarrow> None
      | Some raw \<Rightarrow> (case validated_effect cd b e raw of Inl _ \<Rightarrow> None | Inr cur \<Rightarrow> Some cur))"

definition evidence_on :: "codec \<Rightarrow> string \<Rightarrow> item \<Rightarrow> table \<Rightarrow> evidence option" where
  "evidence_on cd b cur t = do {
     v \<leftarrow> sha256_text (item_get cur ''evidence_id'');
     row \<leftarrow> t (evidence_key b v);
     evidence_from_item cd row
   }"

inductive ledger_step :: "codec \<Rightarrow> table \<Rightarrow> table \<Rightarrow> bool" for cd where
  reserving: "request_ok cd rq \<Longrightarrow> exact_count True generation \<Longrightarrow>
     t (effect_key (rq_beneficiary rq) (rq_effect rq)) = None \<Longrightarrow>
     counter_on cd (rq_beneficiary rq) (rq_week rq) t = Some previous \<Longrightarrow>
     reserve_decision cd rq generation now previous = Transact ops r \<Longrightarrow>
     tx_apply ops t = Some t' \<Longrightarrow> ledger_step cd t t'"
| recording: "usage_ok us \<Longrightarrow>
     effect_on cd (us_beneficiary us) (us_effect us) t = Some cur \<Longrightarrow>
     item_get cur ''state'' = PStr ''reserved'' \<Longrightarrow>
     effect_week cd cur = Some wk \<Longrightarrow>
     counter_on cd (us_beneficiary us) wk t = Some (Some c) \<Longrightarrow>
     record_decision cd us now cur wk c = Transact ops r \<Longrightarrow>
     tx_apply ops t = Some t' \<Longrightarrow> ledger_step cd t t'"
| settling: "settle_ok st \<Longrightarrow>
     effect_on cd (st_beneficiary st) (st_effect st) t = Some cur \<Longrightarrow>
     item_get cur ''state'' = PStr ''observed'' \<Longrightarrow>
     effect_week cd cur = Some wk \<Longrightarrow>
     counter_on cd (st_beneficiary st) wk t = Some (Some c) \<Longrightarrow>
     evidence_on cd (st_beneficiary st) cur t = Some ev \<Longrightarrow>
     settle_decision cd st now cur wk c ev = Transact ops r \<Longrightarrow>
     tx_apply ops t = Some t' \<Longrightarrow> ledger_step cd t t'"
| elsewhere: "(\<And>k. ledger_key k \<Longrightarrow> t' k = t k) \<Longrightarrow> (keyed t \<Longrightarrow> keyed t') \<Longrightarrow>
     (finite (dom t) \<Longrightarrow> finite (dom t')) \<Longrightarrow> ledger_step cd t t'"

definition ledger_run :: "codec \<Rightarrow> table \<Rightarrow> table \<Rightarrow> bool" where
  "ledger_run cd = (ledger_step cd)\<^sup>*\<^sup>*"

lemma ledger_run_refl [simp]: "ledger_run cd t t"
  by (simp add: ledger_run_def)

lemma ledger_run_trans: "ledger_run cd t t' \<Longrightarrow> ledger_run cd t' t'' \<Longrightarrow> ledger_run cd t t''"
  unfolding ledger_run_def by (rule rtranclp_trans)

lemma ledger_run_step: "ledger_step cd t t' \<Longrightarrow> ledger_run cd t t'"
  by (simp add: ledger_run_def)

section \<open>What a decision writes\<close>

lemma reserve_decision_TransactD:
  assumes "reserve_decision cd rq g now previous = Transact ops r"
  obtains fence row where
    "active_fence_condition (rq_beneficiary rq) (Some g) = Inr fence"
    "write_counter cd TOKENS (rq_beneficiary rq) (rq_week rq) previous
       [(''reserved_input_tokens'', prior_count previous ''reserved_input_tokens'' + rq_input rq),
        (''reserved_output_tokens'', prior_count previous ''reserved_output_tokens'' + rq_output rq)]
       [(''plan_id'', PStr (plan_text (plan_id (rq_budget rq)))),
        (''allowance_version'', PInt (allowance_version (rq_budget rq))),
        (''budget_input_tokens'', PInt (budget_input (rq_budget rq))),
        (''budget_output_tokens'', PInt (budget_output (rq_budget rq))),
        (''account_fence_generation'', PInt g)] now = Inr row"
    "ops = [fence, put_create (reserved_effect cd rq g now (next_version previous)), row]"
    "r = result_of R_Admitted (reservation_from_effect cd (reserved_effect cd rq g now (next_version previous)))"
    "prior_count previous ''finalized_input_tokens'' + prior_count previous ''reserved_input_tokens'' + rq_input rq
       \<le> budget_input (rq_budget rq)"
    "prior_count previous ''finalized_output_tokens'' + prior_count previous ''reserved_output_tokens'' + rq_output rq
       \<le> budget_output (rq_budget rq)"
    "next_version previous \<le> MAX_EXACT_COUNT"
    "\<And>c. previous = Some c \<Longrightarrow> \<not> budget_conflict (rq_budget rq) c"
  using assms
  by (auto simp: reserve_decision_def Let_def not_less split: if_splits sum.splits option.splits)

lemma record_decision_TransactD:
  assumes "record_decision cd us now cur wk c = Transact ops r"
  obtains fence row where
    "active_fence_condition (us_beneficiary us) (Some (int_field cur ''account_fence_generation'')) = Inr fence"
    "write_counter cd TOKENS (us_beneficiary us) wk (Some c)
       [(''provider_cost_input_tokens'', count c ''provider_cost_input_tokens'' + us_input us),
        (''provider_cost_output_tokens'', count c ''provider_cost_output_tokens'' + us_output us)] [] now = Inr row"
    "ops = [fence, put_create (evidence_item cd us now cur),
       put_replace (observed_effect cd us now cur) (int_field cur ''state_version'') ''reserved'', row]"
    "r = result_of P_Recorded (evidence_from_item cd (evidence_item cd us now cur))"
  using assms by (auto simp: record_decision_def Let_def split: if_splits sum.splits)

definition settled_input :: "settle_request \<Rightarrow> evidence \<Rightarrow> int" where
  "settled_input st ev = (if st_restore st then 0 else ev_input ev)"

definition settled_output :: "settle_request \<Rightarrow> evidence \<Rightarrow> int" where
  "settled_output st ev = (if st_restore st then 0 else ev_output ev)"

lemma settle_decision_TransactD:
  assumes "settle_decision cd st now cur wk c ev = Transact ops r"
  obtains fence row ri ro eff where
    "active_fence_condition (st_beneficiary st) (Some (int_field cur ''account_fence_generation'')) = Inr fence"
    "whole_in_range False (item_get cur ''reservation_input_tokens'') = Some ri"
    "whole_in_range False (item_get cur ''reservation_output_tokens'') = Some ro"
    "write_counter cd TOKENS (st_beneficiary st) wk (Some c)
       [(''reserved_input_tokens'', count c ''reserved_input_tokens'' - ri),
        (''reserved_output_tokens'', count c ''reserved_output_tokens'' - ro),
        (''finalized_input_tokens'', count c ''finalized_input_tokens'' + settled_input st ev),
        (''finalized_output_tokens'', count c ''finalized_output_tokens'' + settled_output st ev)] [] now = Inr row"
    "eff = settled_effect cd st now cur (settled_input st ev) (settled_output st ev)
       (if st_restore st then ri else 0) (if st_restore st then ro else 0)"
    "ops = [fence, put_replace eff (int_field cur ''state_version'') ''observed'', row]"
    "r = result_of (if st_restore st then F_Restored else F_Finalized) (finalization_from_effect cd eff)"
    "settled_input st ev \<le> ri" "settled_output st ev \<le> ro"
    "ri \<le> count c ''reserved_input_tokens''" "ro \<le> count c ''reserved_output_tokens''"
proof -
  from assms obtain ri ro where r:
    "whole_in_range False (item_get cur ''reservation_input_tokens'') = Some ri"
    "whole_in_range False (item_get cur ''reservation_output_tokens'') = Some ro"
    by (auto simp: settle_decision_def split: option.splits)
  note range = whole_in_range_SomeD [OF r(1)] whole_in_range_SomeD [OF r(2)]
  from assms r show ?thesis
    by (auto simp: settle_decision_def Let_def settled_input_def settled_output_def not_less range
        split: if_splits sum.splits intro: that)
qed

section \<open>The table after a step\<close>

lemma counter_on_from_table: "counter_on cd b wk t = Some previous \<Longrightarrow> from_table cd TOKENS b wk previous"
  by (auto simp: counter_on_def from_table_def parse_counter_ok split: option.splits)

lemma counter_on_SomeD:
  assumes "counter_on cd b wk t = Some (Some c)"
  obtains row where "t (counter_key TOKENS b wk) = Some row" "parse_counter cd b wk row = Some c"
  using assms by (auto simp: counter_on_def split: option.splits)

lemma effect_on_SomeD:
  assumes "effect_on cd b e t = Some cur"
  obtains raw where "t (effect_key b e) = Some raw" "validated_effect cd b e raw = Inr cur"
  using assms by (auto simp: effect_on_def split: option.splits sum.splits)

text \<open>The counter row the three commands write.\<close>

abbreviation token_row where
  "token_row cd \<equiv> written_row cd TOKENS"

definition reserve_counts :: "reserve_request \<Rightarrow> counter option \<Rightarrow> (string \<times> int) list" where
  "reserve_counts rq previous =
     [(''reserved_input_tokens'', prior_count previous ''reserved_input_tokens'' + rq_input rq),
      (''reserved_output_tokens'', prior_count previous ''reserved_output_tokens'' + rq_output rq)]"

definition reserve_fields :: "reserve_request \<Rightarrow> int \<Rightarrow> (string \<times> pyval) list" where
  "reserve_fields rq g =
     [(''plan_id'', PStr (plan_text (plan_id (rq_budget rq)))),
      (''allowance_version'', PInt (allowance_version (rq_budget rq))),
      (''budget_input_tokens'', PInt (budget_input (rq_budget rq))),
      (''budget_output_tokens'', PInt (budget_output (rq_budget rq))),
      (''account_fence_generation'', PInt g)]"

definition record_counts :: "usage_request \<Rightarrow> counter \<Rightarrow> (string \<times> int) list" where
  "record_counts us c =
     [(''provider_cost_input_tokens'', count c ''provider_cost_input_tokens'' + us_input us),
      (''provider_cost_output_tokens'', count c ''provider_cost_output_tokens'' + us_output us)]"

definition settle_counts :: "settle_request \<Rightarrow> counter \<Rightarrow> evidence \<Rightarrow> int \<Rightarrow> int \<Rightarrow> (string \<times> int) list" where
  "settle_counts st c ev ri ro =
     [(''reserved_input_tokens'', count c ''reserved_input_tokens'' - ri),
      (''reserved_output_tokens'', count c ''reserved_output_tokens'' - ro),
      (''finalized_input_tokens'', count c ''finalized_input_tokens'' + settled_input st ev),
      (''finalized_output_tokens'', count c ''finalized_output_tokens'' + settled_output st ev)]"

definition settle_row_of :: "codec \<Rightarrow> settle_request \<Rightarrow> int \<Rightarrow> item \<Rightarrow> evidence \<Rightarrow> int \<Rightarrow> int \<Rightarrow> item" where
  "settle_row_of cd st now cur ev ri ro =
     settled_effect cd st now cur (settled_input st ev) (settled_output st ev)
       (if st_restore st then ri else 0) (if st_restore st then ro else 0)"

lemma token_put:
  assumes "write_counter cd TOKENS b wk previous counts extra now = Inr oper"
    and "from_table cd TOKENS b wk previous"
  shows "oper = Put (token_row cd b wk previous counts extra now) (version_condition previous)"
    and "item_key (token_row cd b wk previous counts extra now) = Some (counter_key TOKENS b wk)"
  using write_counter_InrD(1) [OF assms(1)] tokens.written_key [OF assms] by auto

lemma fence_puts:
  assumes "tx_apply (fence # puts) t = Some t'" "active_fence_condition u (Some g) = Inr fence"
    and "\<forall>p \<in> set puts. \<exists>i c k. p = Put i c \<and> item_key i = Some k"
  shows "t' = fold op_write puts t" "fence_active t u g" "\<forall>p \<in> set puts. op_ok t p"
proof -
  from active_fence_InrD [OF assms(2)] obtain fk fc where f: "fence = Check fk fc" by blast
  from tx_checked_puts [OF assms(1) [unfolded f] assms(3)]
  show "t' = fold op_write puts t" "\<forall>p \<in> set puts. op_ok t p" by blast+
  from assms(1) have "op_ok t fence" by (auto dest: tx_applyD(2))
  with assms(2) show "fence_active t u g" by (rule active_fence_op_ok)
qed

lemma reserving_post:
  assumes dec: "reserve_decision cd rq g now previous = Transact ops r"
    and cnt: "counter_on cd (rq_beneficiary rq) (rq_week rq) t = Some previous"
    and tx: "tx_apply ops t = Some t'"
  shows "t' = t(effect_key (rq_beneficiary rq) (rq_effect rq) \<mapsto> stored_item (reserved_effect cd rq g now (next_version previous)),
             counter_key TOKENS (rq_beneficiary rq) (rq_week rq) \<mapsto>
               stored_item (token_row cd (rq_beneficiary rq) (rq_week rq) previous (reserve_counts rq previous) (reserve_fields rq g) now))"
    and "fence_active t (rq_beneficiary rq) g"
    and "write_counter cd TOKENS (rq_beneficiary rq) (rq_week rq) previous (reserve_counts rq previous) (reserve_fields rq g) now
       = Inr (Put (token_row cd (rq_beneficiary rq) (rq_week rq) previous (reserve_counts rq previous) (reserve_fields rq g) now)
           (version_condition previous))"
proof -
  from dec obtain fence row where f: "active_fence_condition (rq_beneficiary rq) (Some g) = Inr fence"
    and w: "write_counter cd TOKENS (rq_beneficiary rq) (rq_week rq) previous (reserve_counts rq previous) (reserve_fields rq g) now = Inr row"
    and ops: "ops = [fence, put_create (reserved_effect cd rq g now (next_version previous)), row]"
    unfolding reserve_counts_def reserve_fields_def by (rule reserve_decision_TransactD)
  note row = token_put [OF w counter_on_from_table [OF cnt]]
  have puts: "\<forall>p \<in> set [put_create (reserved_effect cd rq g now (next_version previous)), row].
      \<exists>i c k. p = Put i c \<and> item_key i = Some k"
    using row by (simp add: put_create_def)
  note post = fence_puts [OF tx [unfolded ops] f puts]
  show "fence_active t (rq_beneficiary rq) g" by (rule post)
  show "t' = t(effect_key (rq_beneficiary rq) (rq_effect rq) \<mapsto> stored_item (reserved_effect cd rq g now (next_version previous)),
             counter_key TOKENS (rq_beneficiary rq) (rq_week rq) \<mapsto>
               stored_item (token_row cd (rq_beneficiary rq) (rq_week rq) previous (reserve_counts rq previous) (reserve_fields rq g) now))"
    using post(1) row by (simp add: put_create_def)
  from w row show "write_counter cd TOKENS (rq_beneficiary rq) (rq_week rq) previous (reserve_counts rq previous) (reserve_fields rq g) now
       = Inr (Put (token_row cd (rq_beneficiary rq) (rq_week rq) previous (reserve_counts rq previous) (reserve_fields rq g) now)
           (version_condition previous))" by simp
qed

lemma recording_post:
  assumes dec: "record_decision cd us now cur wk c = Transact ops r"
    and eff: "effect_on cd (us_beneficiary us) (us_effect us) t = Some cur"
    and cnt: "counter_on cd (us_beneficiary us) wk t = Some (Some c)"
    and tx: "tx_apply ops t = Some t'"
  shows "t' = t(usage_evidence_key cd us \<mapsto> stored_item (evidence_item cd us now cur),
             effect_key (us_beneficiary us) (us_effect us) \<mapsto> stored_item (observed_effect cd us now cur),
             counter_key TOKENS (us_beneficiary us) wk \<mapsto>
               stored_item (token_row cd (us_beneficiary us) wk (Some c) (record_counts us c) [] now))"
    and "fence_active t (us_beneficiary us) (int_field cur ''account_fence_generation'')"
    and "keyed t \<Longrightarrow> t (usage_evidence_key cd us) = None"
    and "write_counter cd TOKENS (us_beneficiary us) wk (Some c) (record_counts us c) [] now
       = Inr (Put (token_row cd (us_beneficiary us) wk (Some c) (record_counts us c) [] now) (version_condition (Some c)))"
proof -
  from dec obtain fence row where
    f: "active_fence_condition (us_beneficiary us) (Some (int_field cur ''account_fence_generation'')) = Inr fence"
    and w: "write_counter cd TOKENS (us_beneficiary us) wk (Some c) (record_counts us c) [] now = Inr row"
    and ops: "ops = [fence, put_create (evidence_item cd us now cur),
       put_replace (observed_effect cd us now cur) (int_field cur ''state_version'') ''reserved'', row]"
    unfolding record_counts_def by (rule record_decision_TransactD)
  note row = token_put [OF w counter_on_from_table [OF cnt]]
  from eff obtain raw where "validated_effect cd (us_beneficiary us) (us_effect us) raw = Inr cur"
    by (rule effect_on_SomeD)
  from item_key_observed_effect [OF validated_effect_keys(1) [OF this]]
  have key: "item_key (observed_effect cd us now cur) = Some (effect_key (us_beneficiary us) (us_effect us))" .
  have puts: "\<forall>p \<in> set [put_create (evidence_item cd us now cur),
       put_replace (observed_effect cd us now cur) (int_field cur ''state_version'') ''reserved'', row].
      \<exists>i c k. p = Put i c \<and> item_key i = Some k"
    using row key by (simp add: put_create_def put_replace_def)
  note post = fence_puts [OF tx [unfolded ops] f puts]
  show "fence_active t (us_beneficiary us) (int_field cur ''account_fence_generation'')" by (rule post)
  show "t' = t(usage_evidence_key cd us \<mapsto> stored_item (evidence_item cd us now cur),
             effect_key (us_beneficiary us) (us_effect us) \<mapsto> stored_item (observed_effect cd us now cur),
             counter_key TOKENS (us_beneficiary us) wk \<mapsto>
               stored_item (token_row cd (us_beneficiary us) wk (Some c) (record_counts us c) [] now))"
    using post(1) row key by (simp add: put_create_def put_replace_def)
  from post(3) have "cond_holds create_only (row_at t (usage_evidence_key cd us))"
    by (simp add: put_create_def op_ok_def del: cond_holds.simps)
  then show "keyed t \<Longrightarrow> t (usage_evidence_key cd us) = None"
    by (simp only: keyed_create_only)
  from w row show "write_counter cd TOKENS (us_beneficiary us) wk (Some c) (record_counts us c) [] now
       = Inr (Put (token_row cd (us_beneficiary us) wk (Some c) (record_counts us c) [] now) (version_condition (Some c)))"
    by simp
qed

lemma settling_post:
  assumes dec: "settle_decision cd st now cur wk c ev = Transact ops r"
    and eff: "effect_on cd (st_beneficiary st) (st_effect st) t = Some cur"
    and cnt: "counter_on cd (st_beneficiary st) wk t = Some (Some c)"
    and tx: "tx_apply ops t = Some t'"
  obtains ri ro where
    "whole_in_range False (item_get cur ''reservation_input_tokens'') = Some ri"
    "whole_in_range False (item_get cur ''reservation_output_tokens'') = Some ro"
    "settled_input st ev \<le> ri" "settled_output st ev \<le> ro"
    "t' = t(effect_key (st_beneficiary st) (st_effect st) \<mapsto> stored_item (settle_row_of cd st now cur ev ri ro),
         counter_key TOKENS (st_beneficiary st) wk \<mapsto>
           stored_item (token_row cd (st_beneficiary st) wk (Some c) (settle_counts st c ev ri ro) [] now))"
    "fence_active t (st_beneficiary st) (int_field cur ''account_fence_generation'')"
    "write_counter cd TOKENS (st_beneficiary st) wk (Some c) (settle_counts st c ev ri ro) [] now
       = Inr (Put (token_row cd (st_beneficiary st) wk (Some c) (settle_counts st c ev ri ro) [] now) (version_condition (Some c)))"
proof -
  from dec obtain fence row ri ro where
    f: "active_fence_condition (st_beneficiary st) (Some (int_field cur ''account_fence_generation'')) = Inr fence"
    and r: "whole_in_range False (item_get cur ''reservation_input_tokens'') = Some ri"
    "whole_in_range False (item_get cur ''reservation_output_tokens'') = Some ro"
    and w: "write_counter cd TOKENS (st_beneficiary st) wk (Some c) (settle_counts st c ev ri ro) [] now = Inr row"
    and ops: "ops = [fence, put_replace (settle_row_of cd st now cur ev ri ro) (int_field cur ''state_version'') ''observed'', row]"
    and le: "settled_input st ev \<le> ri" "settled_output st ev \<le> ro"
    unfolding settle_counts_def settle_row_of_def by (rule settle_decision_TransactD) blast
  note row = token_put [OF w counter_on_from_table [OF cnt]]
  from eff obtain raw where "validated_effect cd (st_beneficiary st) (st_effect st) raw = Inr cur"
    by (rule effect_on_SomeD)
  from item_key_settled_effect [OF validated_effect_keys(1) [OF this]]
  have key: "item_key (settle_row_of cd st now cur ev ri ro) = Some (effect_key (st_beneficiary st) (st_effect st))"
    by (simp add: settle_row_of_def)
  have puts: "\<forall>p \<in> set [put_replace (settle_row_of cd st now cur ev ri ro) (int_field cur ''state_version'') ''observed'', row].
      \<exists>i c k. p = Put i c \<and> item_key i = Some k"
    using row key by (simp add: put_replace_def)
  note post = fence_puts [OF tx [unfolded ops] f puts]
  show ?thesis
    using post w row key by (intro that [OF r le]) (simp_all add: put_replace_def)
qed

section \<open>Rows only move forward\<close>

text \<open>
  What every step of the ledger guarantees to a client that has read a row: the row stays, a
  versioned row changes only with a higher version, and provider evidence never changes.
\<close>

definition forward :: "table \<Rightarrow> table \<Rightarrow> bool" where
  "forward t t' \<longleftrightarrow>
     (\<forall>k. ledger_key k \<longrightarrow> kept t t' k)
     \<and> (\<forall>k i. ledger_key k \<longrightarrow> is_evidence_key k \<longrightarrow> t k = Some i \<longrightarrow> t' k = Some i)"

lemma forward_refl [simp]: "forward t t"
  by (simp add: forward_def)

lemma forward_trans: "forward t t' \<Longrightarrow> forward t' t'' \<Longrightarrow> forward t t''"
  unfolding forward_def by (meson kept_trans)

lemma kept_upd: "(\<And>i. t k = Some i \<Longrightarrow> row_le i j) \<Longrightarrow> kept t (t(k \<mapsto> j)) k'"
  by (auto simp: kept_def)

lemma forward_upd:
  assumes "\<And>i. t k = Some i \<Longrightarrow> row_le i j" "is_evidence_key k \<Longrightarrow> t k = None"
  shows "forward t (t(k \<mapsto> j))"
  using kept_upd [of t k j] assms by (auto simp: forward_def)

lemma keyed_upd: "keyed t \<Longrightarrow> item_key i = Some k \<Longrightarrow> keyed (t(k \<mapsto> stored_item i))"
  by (auto simp: keyed_def item_key_stored)

lemma row_version_stored [simp]: "row_version (stored_item i) = row_version i"
  by (simp add: row_version_def item_get_stored)

lemma token_row_version [simp]:
  "row_version (token_row cd b wk previous counts extra now) = Some (next_version previous)"
  by (simp add: row_version_def tokens.written_get)

lemma token_row_forward:
  assumes "counter_on cd b wk t = Some previous"
  shows "t (counter_key TOKENS b wk) = Some i \<Longrightarrow> row_le i (stored_item (token_row cd b wk previous counts extra now))"
  using assms
  by (auto simp: counter_on_def row_le_def next_version_def parse_counter_version split: option.splits)

lemma next_effect_forward:
  assumes "effect_on cd b e t = Some cur" "item_get nxt ''state_version'' = PInt (int_field cur ''state_version'' + 1)"
  shows "t (effect_key b e) = Some i \<Longrightarrow> row_le i (stored_item nxt)"
  using assms
  by (auto simp: row_le_def row_version_def [of nxt] elim!: effect_on_SomeD dest: validated_effect_version(1))

lemma observed_effect_version:
  "item_get (observed_effect cd us now cur) ''state_version'' = PInt (int_field cur ''state_version'' + 1)"
  by (simp add: observed_effect_def row_lookup)

lemma settled_row_version:
  "item_get (settle_row_of cd st now cur ev ri ro) ''state_version'' = PInt (int_field cur ''state_version'' + 1)"
  by (simp add: settle_row_of_def settled_effect_def row_lookup)

lemma ledger_step_keyed: "ledger_step cd t t' \<Longrightarrow> keyed t \<Longrightarrow> keyed t'"
proof (induction rule: ledger_step.induct)
  case (reserving rq g t previous now ops r t')
  note post = reserving_post [OF reserving(5,4,6)]
  note row = token_put(2) [OF post(3) counter_on_from_table [OF reserving(4)]]
  from reserving(7) row show ?case unfolding post(1) by (intro keyed_upd) simp_all
next
  case (recording us t cur wk c now ops r t')
  note post = recording_post [OF recording(6,2,5,7)]
  note row = token_put(2) [OF post(4) counter_on_from_table [OF recording(5)]]
  from recording(2) obtain raw where "validated_effect cd (us_beneficiary us) (us_effect us) raw = Inr cur"
    by (rule effect_on_SomeD)
  note key = item_key_observed_effect [OF validated_effect_keys(1) [OF this]]
  from recording(8) row key show ?case unfolding post(1) by (intro keyed_upd) simp_all
next
  case (settling st t cur wk c ev now ops r t')
  from settling(2) obtain raw where "validated_effect cd (st_beneficiary st) (st_effect st) raw = Inr cur"
    by (rule effect_on_SomeD)
  note key = item_key_settled_effect [OF validated_effect_keys(1) [OF this]]
  from settling_post [OF settling(7,2,5,8)] settling(9) key show ?case
    by (metis settle_row_of_def keyed_upd token_put(2) counter_on_from_table [OF settling(5)])
next
  case (elsewhere t' t)
  then show ?case by blast
qed

lemma ledger_step_finite: "ledger_step cd t t' \<Longrightarrow> finite (dom t) \<Longrightarrow> finite (dom t')"
  by (induction rule: ledger_step.induct) (auto dest: tx_apply_finite)

lemma ledger_step_forward: "ledger_step cd t t' \<Longrightarrow> keyed t \<Longrightarrow> forward t t'"
proof (induction rule: ledger_step.induct)
  case (reserving rq g t previous now ops r t')
  note post = reserving_post [OF reserving(5,4,6)]
  let ?t1 = "t(effect_key (rq_beneficiary rq) (rq_effect rq) \<mapsto> stored_item (reserved_effect cd rq g now (next_version previous)))"
  have "forward t ?t1" using reserving(3) by (intro forward_upd) auto
  moreover have "forward ?t1 t'"
    unfolding post(1) using token_row_forward [OF reserving(4)] by (intro forward_upd) auto
  ultimately show ?case by (rule forward_trans)
next
  case (recording us t cur wk c now ops r t')
  note post = recording_post [OF recording(6,2,5,7)]
  let ?t1 = "t(usage_evidence_key cd us \<mapsto> stored_item (evidence_item cd us now cur))"
  let ?t2 = "?t1(effect_key (us_beneficiary us) (us_effect us) \<mapsto> stored_item (observed_effect cd us now cur))"
  have "forward t ?t1" using post(3) [OF recording(8)] by (intro forward_upd) auto
  moreover have "forward ?t1 ?t2"
    using next_effect_forward [OF recording(2) observed_effect_version]
    by (intro forward_upd) (auto simp: usage_evidence_key_def)
  moreover have "forward ?t2 t'"
    unfolding post(1) using token_row_forward [OF recording(5)]
    by (intro forward_upd) (auto simp: usage_evidence_key_def)
  ultimately show ?case by (blast intro: forward_trans)
next
  case (settling st t cur wk c ev now ops r t')
  from settling(7,2,5,8) obtain ri ro where t':
    "t' = t(effect_key (st_beneficiary st) (st_effect st) \<mapsto> stored_item (settle_row_of cd st now cur ev ri ro),
         counter_key TOKENS (st_beneficiary st) wk \<mapsto>
           stored_item (token_row cd (st_beneficiary st) wk (Some c) (settle_counts st c ev ri ro) [] now))"
    by (rule settling_post)
  let ?t1 = "t(effect_key (st_beneficiary st) (st_effect st) \<mapsto> stored_item (settle_row_of cd st now cur ev ri ro))"
  have "forward t ?t1"
    using next_effect_forward [OF settling(2) settled_row_version] by (intro forward_upd) auto
  moreover have "forward ?t1 t'"
    unfolding t' using token_row_forward [OF settling(5)] by (intro forward_upd) auto
  ultimately show ?case by (rule forward_trans)
next
  case (elsewhere t' t)
  then show ?case by (simp add: forward_def kept_def)
qed

lemma ledger_run_facts:
  assumes "ledger_run cd t t'" "keyed t"
  shows "keyed t'" and "forward t t'" and "finite (dom t) \<Longrightarrow> finite (dom t')"
  using assms unfolding ledger_run_def
  by (induction rule: rtranclp_induct)
    (auto intro: ledger_step_keyed ledger_step_finite ledger_step_forward forward_trans)

section \<open>Nothing is written for an account that is being deleted\<close>

lemma ledger_step_fenced:
  assumes "ledger_step cd t t'" "t' k \<noteq> t k" "fst k = partition_key b"
  shows "\<exists>g. fence_active t b g"
  using assms
proof (induction rule: ledger_step.induct)
  case (reserving rq g t previous now ops r t')
  note post = reserving_post [OF reserving(5,4,6)]
  from reserving(7,8) have "b = rq_beneficiary rq" by (auto simp: post(1) split: if_splits)
  with post(2) show ?case by blast
next
  case (recording us t cur wk c now ops r t')
  note post = recording_post [OF recording(6,2,5,7)]
  from recording(8,9) have "b = us_beneficiary us"
    by (auto simp: post(1) usage_evidence_key_def split: if_splits)
  with post(2) show ?case by blast
next
  case (settling st t cur wk c ev now ops r t')
  from settling(7,2,5,8) obtain x y where
    t': "t' = t(effect_key (st_beneficiary st) (st_effect st) \<mapsto> x, counter_key TOKENS (st_beneficiary st) wk \<mapsto> y)"
    and f: "fence_active t (st_beneficiary st) (int_field cur ''account_fence_generation'')"
    by (rule settling_post) blast
  from settling(9,10) have "b = st_beneficiary st" by (auto simp: t' split: if_splits)
  with f show ?case by blast
next
  case (elsewhere t' t)
  then have "ledger_key k" by (simp add: ledger_key_def partition_key_def)
  with elsewhere show ?case by simp
qed

lemma ledger_run_fenced:
  assumes "ledger_run cd t t'" "t' k \<noteq> t k" "fst k = partition_key b"
  shows "\<exists>u g. ledger_run cd t u \<and> fence_active u b g"
  using assms(1,2) unfolding ledger_run_def
proof (induction rule: rtranclp_induct)
  case (step u v)
  then show ?case using ledger_step_fenced [OF step(2) _ assms(3)] by (cases "u k = t k") (metis)+
qed simp

end
