(* ===== verification/Ledger_Invariant.thy ===== *)
theory Ledger_Invariant
  imports Ledger_Steps
begin

text \<open>
  Conservation in the token ledger. In every reachable table each weekly counter is exactly what the
  rows beside it add up to: its reserved tokens the reservations of the effects still open, its
  finalized tokens the debits of the effects finalized, its provider cost the usage on the evidence
  rows; and what is finalized or reserved never exceeds the budget the counter records.
\<close>

section \<open>The two dimensions\<close>

datatype dim = Input_Tokens | Output_Tokens

fun reserved_field :: "dim \<Rightarrow> string" where
  "reserved_field Input_Tokens = ''reserved_input_tokens''"
| "reserved_field Output_Tokens = ''reserved_output_tokens''"

fun finalized_field :: "dim \<Rightarrow> string" where
  "finalized_field Input_Tokens = ''finalized_input_tokens''"
| "finalized_field Output_Tokens = ''finalized_output_tokens''"

fun cost_field :: "dim \<Rightarrow> string" where
  "cost_field Input_Tokens = ''provider_cost_input_tokens''"
| "cost_field Output_Tokens = ''provider_cost_output_tokens''"

fun budget_field :: "dim \<Rightarrow> string" where
  "budget_field Input_Tokens = ''budget_input_tokens''"
| "budget_field Output_Tokens = ''budget_output_tokens''"

fun reservation_field :: "dim \<Rightarrow> string" where
  "reservation_field Input_Tokens = ''reservation_input_tokens''"
| "reservation_field Output_Tokens = ''reservation_output_tokens''"

fun usage_field :: "dim \<Rightarrow> string" where
  "usage_field Input_Tokens = ''input_tokens''"
| "usage_field Output_Tokens = ''output_tokens''"

section \<open>What the rows add up to\<close>

definition open_effect :: "item \<Rightarrow> bool" where
  "open_effect i = (item_get i ''state'' = PStr ''reserved'' \<or> item_get i ''state'' = PStr ''observed'')"

definition held :: "string \<Rightarrow> string \<Rightarrow> dim \<Rightarrow> key \<Rightarrow> item \<Rightarrow> int" where
  "held b wid d k i =
     (if fst k = partition_key b \<and> is_effect_key k \<and> item_get i ''week_identity'' = PStr wid \<and> open_effect i
      then num_of (item_get i (reservation_field d)) else 0)"

definition spent :: "string \<Rightarrow> string \<Rightarrow> dim \<Rightarrow> key \<Rightarrow> item \<Rightarrow> int" where
  "spent b wid d k i =
     (if fst k = partition_key b \<and> is_effect_key k \<and> item_get i ''week_identity'' = PStr wid
         \<and> item_get i ''state'' = PStr ''finalized''
      then num_of (item_get i (finalized_field d)) else 0)"

definition cost :: "string \<Rightarrow> string \<Rightarrow> dim \<Rightarrow> key \<Rightarrow> item \<Rightarrow> int" where
  "cost b wid d k i =
     (if fst k = partition_key b \<and> is_evidence_key k \<and> item_get i ''week_identity'' = PStr wid
      then num_of (item_get i (usage_field d)) else 0)"

definition counter_num :: "string \<Rightarrow> string \<Rightarrow> string \<Rightarrow> table \<Rightarrow> int" where
  "counter_num f b wid t =
     (case t (partition_key b, ''WEEK#'' @ wid) of None \<Rightarrow> 0 | Some i \<Rightarrow> num_of (item_get i f))"

definition balanced :: "table \<Rightarrow> bool" where
  "balanced t \<longleftrightarrow> (\<forall>b wid d.
     counter_num (reserved_field d) b wid t = total (held b wid d) t
     \<and> counter_num (finalized_field d) b wid t = total (spent b wid d) t
     \<and> counter_num (cost_field d) b wid t = total (cost b wid d) t)"

definition within_budget :: "table \<Rightarrow> bool" where
  "within_budget t \<longleftrightarrow> (\<forall>b wid d.
     counter_num (finalized_field d) b wid t + counter_num (reserved_field d) b wid t
       \<le> counter_num (budget_field d) b wid t)"

definition ledger_inv :: "table \<Rightarrow> bool" where
  "ledger_inv t \<longleftrightarrow> keyed t \<and> finite (dom t) \<and> balanced t \<and> within_budget t"

section \<open>Shifts\<close>

text \<open>A step moves the counters and the sums of one week by the same amounts.\<close>

definition shifts :: "(string \<Rightarrow> string \<Rightarrow> dim \<Rightarrow> table \<Rightarrow> int) \<Rightarrow> table \<Rightarrow> table \<Rightarrow> string \<Rightarrow> string \<Rightarrow> (dim \<Rightarrow> int) \<Rightarrow> bool" where
  "shifts q t t' b wid m \<longleftrightarrow>
     (\<forall>b' wid' d. q b' wid' d t' = q b' wid' d t + (if b' = b \<and> wid' = wid then m d else 0))"

abbreviation counted where
  "counted f \<equiv> (\<lambda>b wid d. counter_num (f d) b wid)"

abbreviation summed where
  "summed w \<equiv> (\<lambda>b wid d. total (w b wid d))"

lemma balanced_shifts:
  assumes "balanced t"
    and "shifts (counted reserved_field) t t' b wid r" "shifts (summed held) t t' b wid r"
    and "shifts (counted finalized_field) t t' b wid f" "shifts (summed spent) t t' b wid f"
    and "shifts (counted cost_field) t t' b wid c" "shifts (summed cost) t t' b wid c"
  shows "balanced t'"
  using assms by (simp add: balanced_def shifts_def)

lemma counter_num_effect [simp]: "counter_num f b wid (t(effect_key b' e \<mapsto> i)) = counter_num f b wid t"
  by (auto simp: counter_num_def effect_key_def)

lemma counter_num_evidence [simp]: "counter_num f b wid (t(evidence_key b' v \<mapsto> i)) = counter_num f b wid t"
  by (auto simp: counter_num_def evidence_key_def)

lemma counter_num_counter:
  "counter_num f b wid (t(counter_key TOKENS b' wk \<mapsto> i)) =
     (if b = b' \<and> wid = week_identity wk then num_of (item_get i f) else counter_num f b wid t)"
  by (auto simp: counter_num_def counter_key_TOKENS)

lemma counter_on_num:
  assumes "counter_on cd b wk t = Some previous" "f \<in> set (count_fields TOKENS)"
  shows "counter_num f b (week_identity wk) t = prior_count previous f"
  using assms parse_counter_num [of cd b wk _ _ f]
  by (auto simp: counter_on_def counter_num_def prior_count_def counter_key_TOKENS split: option.splits)

lemma shifts_counted:
  assumes "\<And>d. f d \<in> set (count_fields TOKENS)" and cnt: "counter_on cd b wk t = Some previous"
    and w: "write_counter cd TOKENS b wk previous counts extra now = Inr oper"
    and m: "\<And>d. new_count previous counts (f d) = prior_count previous (f d) + m d"
    and t: "\<And>g b' wid'. counter_num g b' wid' u = counter_num g b' wid' t"
  shows "shifts (counted f) t (u(counter_key TOKENS b wk \<mapsto> stored_item (token_row cd b wk previous counts extra now)))
    b (week_identity wk) m"
  using tokens.written_count(1) [OF w counter_on_from_table [OF cnt] assms(1)] counter_on_num [OF cnt assms(1)]
  by (simp add: shifts_def counter_num_counter m t)

lemma held_key [simp]:
  "held b wid d (counter_key TOKENS b' wk) i = 0" "held b wid d (evidence_key b' v) i = 0"
  "spent b wid d (counter_key TOKENS b' wk) i = 0" "spent b wid d (evidence_key b' v) i = 0"
  "cost b wid d (counter_key TOKENS b' wk) i = 0" "cost b wid d (effect_key b' e) i = 0"
  by (simp_all add: held_def spent_def cost_def)

lemma held_effect:
  "held b wid d (effect_key b' e) i =
     (if b' = b \<and> item_get i ''week_identity'' = PStr wid \<and> open_effect i
      then num_of (item_get i (reservation_field d)) else 0)"
  by (auto simp: held_def)

lemma spent_effect:
  "spent b wid d (effect_key b' e) i =
     (if b' = b \<and> item_get i ''week_identity'' = PStr wid \<and> item_get i ''state'' = PStr ''finalized''
      then num_of (item_get i (finalized_field d)) else 0)"
  by (auto simp: spent_def)

lemma cost_evidence:
  "cost b wid d (evidence_key b' v) i =
     (if b' = b \<and> item_get i ''week_identity'' = PStr wid then num_of (item_get i (usage_field d)) else 0)"
  by (auto simp: cost_def)

lemma total_same:
  "finite (dom t) \<Longrightarrow> (\<And>j. w k j = 0) \<Longrightarrow> total w (t(k \<mapsto> i)) = total w t"
  by (simp add: total_upd weight_at_def split: option.split)

lemma total_put:
  "finite (dom t) \<Longrightarrow> total w (t(k \<mapsto> i)) = total w t - (case t k of None \<Rightarrow> 0 | Some j \<Rightarrow> w k j) + w k i"
  by (simp add: total_upd weight_at_def)

section \<open>Reserving\<close>

definition requested :: "reserve_request \<Rightarrow> dim \<Rightarrow> int" where
  "requested rq d = (case d of Input_Tokens \<Rightarrow> rq_input rq | Output_Tokens \<Rightarrow> rq_output rq)"

definition nothing :: "dim \<Rightarrow> int" where
  "nothing d = 0"

lemma dim_fields [simp]:
  "reserved_field d \<in> set (count_fields TOKENS)" "finalized_field d \<in> set (count_fields TOKENS)"
  "cost_field d \<in> set (count_fields TOKENS)"
  by (cases d; simp add: TOKENS_def)+

lemma reserve_counts_fields:
  "new_count previous (reserve_counts rq previous) (reserved_field d) = prior_count previous (reserved_field d) + requested rq d"
  "new_count previous (reserve_counts rq previous) (finalized_field d) = prior_count previous (finalized_field d)"
  "new_count previous (reserve_counts rq previous) (cost_field d) = prior_count previous (cost_field d)"
  by (cases d; simp add: new_count_def reserve_counts_def requested_def)+

lemma reserved_effect_get:
  "item_get (reserved_effect cd rq g now v) ''week_identity'' = PStr (week_identity (rq_week rq))"
  "item_get (reserved_effect cd rq g now v) ''state'' = PStr ''reserved''"
  "item_get (reserved_effect cd rq g now v) (reservation_field d) = PInt (requested rq d)"
  by (cases d; simp add: reserved_effect_def Let_def row_lookup requested_def)+

lemma reserving_balanced:
  assumes dec: "reserve_decision cd rq g now previous = Transact ops r"
    and new: "t (effect_key (rq_beneficiary rq) (rq_effect rq)) = None"
    and cnt: "counter_on cd (rq_beneficiary rq) (rq_week rq) t = Some previous"
    and tx: "tx_apply ops t = Some t'" and fin: "finite (dom t)" and bal: "balanced t"
  shows "balanced t'"
proof (rule balanced_shifts [OF bal])
  let ?b = "rq_beneficiary rq" and ?wid = "week_identity (rq_week rq)"
  note post = reserving_post [OF dec cnt tx]
  show "shifts (counted reserved_field) t t' ?b ?wid (requested rq)"
    unfolding post(1) by (rule shifts_counted [OF _ cnt post(3)]) (simp_all add: reserve_counts_fields)
  show "shifts (counted finalized_field) t t' ?b ?wid nothing"
    unfolding post(1) by (rule shifts_counted [OF _ cnt post(3)]) (simp_all add: reserve_counts_fields nothing_def)
  show "shifts (counted cost_field) t t' ?b ?wid nothing"
    unfolding post(1) by (rule shifts_counted [OF _ cnt post(3)]) (simp_all add: reserve_counts_fields nothing_def)
  show "shifts (summed held) t t' ?b ?wid (requested rq)"
    unfolding post(1) shifts_def
    using fin new by (auto simp: total_same total_put held_effect reserved_effect_get open_effect_def)
  show "shifts (summed spent) t t' ?b ?wid nothing"
    unfolding post(1) shifts_def
    using fin new by (auto simp: total_same total_put spent_effect reserved_effect_get nothing_def)
  show "shifts (summed cost) t t' ?b ?wid nothing"
    unfolding post(1) shifts_def using fin by (auto simp: total_same nothing_def)
qed

section \<open>Recording\<close>

definition used :: "usage_request \<Rightarrow> dim \<Rightarrow> int" where
  "used us d = (case d of Input_Tokens \<Rightarrow> us_input us | Output_Tokens \<Rightarrow> us_output us)"

lemma record_counts_fields:
  "new_count (Some c) (record_counts us c) (reserved_field d) = prior_count (Some c) (reserved_field d)"
  "new_count (Some c) (record_counts us c) (finalized_field d) = prior_count (Some c) (finalized_field d)"
  "new_count (Some c) (record_counts us c) (cost_field d) = prior_count (Some c) (cost_field d) + used us d"
  by (cases d; simp add: new_count_def record_counts_def prior_count_def used_def)+

lemma observed_effect_get:
  "item_get (observed_effect cd us now cur) ''week_identity'' = item_get cur ''week_identity''"
  "item_get (observed_effect cd us now cur) ''state'' = PStr ''observed''"
  "item_get (observed_effect cd us now cur) (reservation_field d) = item_get cur (reservation_field d)"
  by (cases d; simp add: observed_effect_def row_lookup)+

lemma evidence_item_get:
  "item_get (evidence_item cd us now cur) ''week_identity'' = item_get cur ''week_identity''"
  "item_get (evidence_item cd us now cur) (usage_field d) = PInt (used us d)"
  by (cases d; simp add: evidence_item_def row_lookup used_def)+

lemma validated_effect_dim:
  assumes "validated_effect cd b e raw = Inr cur"
  shows "item_get cur ''week_identity'' = item_get raw ''week_identity''"
    and "item_get cur ''state'' = item_get raw ''state''"
    and "item_get cur (reservation_field d) = item_get raw (reservation_field d)"
  by (cases d; simp add: validated_effect_get [OF assms] normalized_fields_def)+

lemma effect_week_identity:
  "effect_week cd cur = Some wk \<Longrightarrow> item_get cur ''week_identity'' = PStr (week_identity wk)"
  by (auto simp: effect_week_def bind_eq_Some_conv)

lemma recording_balanced:
  assumes dec: "record_decision cd us now cur wk c = Transact ops r"
    and eff: "effect_on cd (us_beneficiary us) (us_effect us) t = Some cur"
    and st: "item_get cur ''state'' = PStr ''reserved''" and week: "effect_week cd cur = Some wk"
    and cnt: "counter_on cd (us_beneficiary us) wk t = Some (Some c)"
    and tx: "tx_apply ops t = Some t'" and fin: "finite (dom t)" and key: "keyed t" and bal: "balanced t"
  shows "balanced t'"
proof (rule balanced_shifts [OF bal])
  let ?b = "us_beneficiary us" and ?wid = "week_identity wk"
  note post = recording_post [OF dec eff cnt tx]
  from eff obtain raw where raw: "t (effect_key ?b (us_effect us)) = Some raw"
      "validated_effect cd ?b (us_effect us) raw = Inr cur" by (rule effect_on_SomeD)
  note get = validated_effect_dim [OF raw(2)]
  have wid: "item_get cur ''week_identity'' = PStr ?wid" using week by (rule effect_week_identity)
  show "shifts (counted reserved_field) t t' ?b ?wid nothing"
    unfolding post(1) by (rule shifts_counted [OF _ cnt post(4)])
      (simp_all add: record_counts_fields nothing_def usage_evidence_key_def)
  show "shifts (counted finalized_field) t t' ?b ?wid nothing"
    unfolding post(1) by (rule shifts_counted [OF _ cnt post(4)])
      (simp_all add: record_counts_fields nothing_def usage_evidence_key_def)
  show "shifts (counted cost_field) t t' ?b ?wid (used us)"
    unfolding post(1) by (rule shifts_counted [OF _ cnt post(4)])
      (simp_all add: record_counts_fields usage_evidence_key_def)
  note none = post(3) [OF key, unfolded usage_evidence_key_def]
  show "shifts (summed held) t t' ?b ?wid nothing"
    unfolding post(1) shifts_def usage_evidence_key_def
    using fin raw(1) st wid get none
    by (auto simp: total_same total_put held_effect observed_effect_get open_effect_def nothing_def)
  show "shifts (summed spent) t t' ?b ?wid nothing"
    unfolding post(1) shifts_def usage_evidence_key_def
    using fin raw(1) st wid get none
    by (auto simp: total_same total_put spent_effect observed_effect_get nothing_def)
  show "shifts (summed cost) t t' ?b ?wid (used us)"
    unfolding post(1) shifts_def usage_evidence_key_def
    using fin none wid by (auto simp: total_same total_put cost_evidence evidence_item_get)
qed

section \<open>Settling\<close>

definition debited :: "settle_request \<Rightarrow> evidence \<Rightarrow> dim \<Rightarrow> int" where
  "debited st ev d = (case d of Input_Tokens \<Rightarrow> settled_input st ev | Output_Tokens \<Rightarrow> settled_output st ev)"

definition given_back :: "int \<Rightarrow> int \<Rightarrow> dim \<Rightarrow> int" where
  "given_back ri ro d = - (case d of Input_Tokens \<Rightarrow> ri | Output_Tokens \<Rightarrow> ro)"

lemma settle_counts_fields:
  "new_count (Some c) (settle_counts st c ev ri ro) (reserved_field d) = prior_count (Some c) (reserved_field d) + given_back ri ro d"
  "new_count (Some c) (settle_counts st c ev ri ro) (finalized_field d) = prior_count (Some c) (finalized_field d) + debited st ev d"
  "new_count (Some c) (settle_counts st c ev ri ro) (cost_field d) = prior_count (Some c) (cost_field d)"
  by (cases d; simp add: new_count_def settle_counts_def prior_count_def given_back_def debited_def)+

lemma settled_effect_get:
  "item_get (settle_row_of cd st now cur ev ri ro) ''week_identity'' = item_get cur ''week_identity''"
  "item_get (settle_row_of cd st now cur ev ri ro) ''state'' = PStr (settled_state st)"
  "item_get (settle_row_of cd st now cur ev ri ro) (finalized_field d) = PInt (debited st ev d)"
  by (cases d; simp add: settle_row_of_def settled_effect_def row_lookup debited_def)+

lemma settled_state_cases: "settled_state st = ''finalized'' \<longleftrightarrow> \<not> st_restore st"
    "settled_state st \<noteq> ''reserved''" "settled_state st \<noteq> ''observed''"
  by (simp_all add: settled_state_def)

lemma restored_debit: "st_restore st \<Longrightarrow> debited st ev d = 0"
  by (cases d) (simp_all add: debited_def settled_input_def settled_output_def)

lemma reservation_num:
  assumes "whole_in_range False (item_get cur ''reservation_input_tokens'') = Some ri"
    and "whole_in_range False (item_get cur ''reservation_output_tokens'') = Some ro"
  shows "num_of (item_get cur (reservation_field d)) = - given_back ri ro d"
  using assms by (cases d) (simp_all add: given_back_def num_of_range)

lemma settling_balanced:
  assumes dec: "settle_decision cd st now cur wk c ev = Transact ops r"
    and eff: "effect_on cd (st_beneficiary st) (st_effect st) t = Some cur"
    and sta: "item_get cur ''state'' = PStr ''observed''" and week: "effect_week cd cur = Some wk"
    and cnt: "counter_on cd (st_beneficiary st) wk t = Some (Some c)"
    and tx: "tx_apply ops t = Some t'" and fin: "finite (dom t)" and bal: "balanced t"
  shows "balanced t'"
proof -
  let ?b = "st_beneficiary st" and ?wid = "week_identity wk"
  from eff obtain raw where raw: "t (effect_key ?b (st_effect st)) = Some raw"
      "validated_effect cd ?b (st_effect st) raw = Inr cur" by (rule effect_on_SomeD)
  note get = validated_effect_dim [OF raw(2)]
  have wid: "item_get cur ''week_identity'' = PStr ?wid" using week by (rule effect_week_identity)
  from dec eff cnt tx obtain ri ro where
    ri: "whole_in_range False (item_get cur ''reservation_input_tokens'') = Some ri"
    "whole_in_range False (item_get cur ''reservation_output_tokens'') = Some ro"
    and t': "t' = t(effect_key ?b (st_effect st) \<mapsto> stored_item (settle_row_of cd st now cur ev ri ro),
         counter_key TOKENS ?b wk \<mapsto>
           stored_item (token_row cd ?b wk (Some c) (settle_counts st c ev ri ro) [] now))"
    and w: "write_counter cd TOKENS ?b wk (Some c) (settle_counts st c ev ri ro) [] now
       = Inr (Put (token_row cd ?b wk (Some c) (settle_counts st c ev ri ro) [] now) (version_condition (Some c)))"
    by (rule settling_post)
  show ?thesis
  proof (rule balanced_shifts [OF bal])
    show "shifts (counted reserved_field) t t' ?b ?wid (given_back ri ro)"
      unfolding t' by (rule shifts_counted [OF _ cnt w]) (simp_all add: settle_counts_fields)
    show "shifts (counted finalized_field) t t' ?b ?wid (debited st ev)"
      unfolding t' by (rule shifts_counted [OF _ cnt w]) (simp_all add: settle_counts_fields)
    show "shifts (counted cost_field) t t' ?b ?wid nothing"
      unfolding t' by (rule shifts_counted [OF _ cnt w]) (simp_all add: settle_counts_fields nothing_def)
    show "shifts (summed held) t t' ?b ?wid (given_back ri ro)"
      unfolding t' shifts_def
      using fin raw(1) sta wid get reservation_num [OF ri]
      by (auto simp: total_same total_put held_effect settled_effect_get open_effect_def settled_state_cases)
    show "shifts (summed spent) t t' ?b ?wid (debited st ev)"
      unfolding t' shifts_def
      using fin raw(1) sta wid get restored_debit [of st ev]
      by (auto simp: total_same total_put spent_effect settled_effect_get settled_state_cases)
    show "shifts (summed cost) t t' ?b ?wid nothing"
      unfolding t' shifts_def using fin by (auto simp: total_same nothing_def)
  qed
qed

section \<open>Steps elsewhere\<close>

lemma total_ledger_cong:
  assumes fin: "finite (dom t)" "finite (dom t')" and same: "\<And>k. ledger_key k \<Longrightarrow> t' k = t k"
    and zero: "\<And>k i. \<not> ledger_key k \<Longrightarrow> w k i = 0"
  shows "total w t' = total w t"
proof -
  have restrict: "total w u = (\<Sum>k \<in> {k \<in> dom u. ledger_key k}. w k (the (u k)))" if "finite (dom u)" for u
    unfolding total_def using that zero by (intro sum.mono_neutral_right) auto
  have "{k \<in> dom t'. ledger_key k} = {k \<in> dom t. ledger_key k}" using same by auto
  then show ?thesis using same by (simp add: restrict fin)
qed

lemma partition_ledger_key: "fst k = partition_key b \<Longrightarrow> ledger_key k"
  by (simp add: ledger_key_def partition_key_def)

lemma counter_num_same: "(\<And>k. ledger_key k \<Longrightarrow> t' k = t k) \<Longrightarrow> counter_num f b wid t' = counter_num f b wid t"
  using partition_ledger_key [of "(partition_key b, ''WEEK#'' @ wid)" b] by (simp add: counter_num_def)

lemma elsewhere_balanced:
  assumes "\<And>k. ledger_key k \<Longrightarrow> t' k = t k" "finite (dom t)" "finite (dom t')" "balanced t"
  shows "balanced t'"
proof -
  have "held b wid d k i = 0" "spent b wid d k i = 0" "cost b wid d k i = 0" if "\<not> ledger_key k" for b wid d k i
    using that partition_ledger_key [of k b] by (auto simp: held_def spent_def cost_def)
  then have "total (held b wid d) t' = total (held b wid d) t" "total (spent b wid d) t' = total (spent b wid d) t"
      "total (cost b wid d) t' = total (cost b wid d) t" for b wid d
    using assms by (auto intro!: total_ledger_cong)
  with assms counter_num_same [OF assms(1)] show ?thesis by (simp add: balanced_def)
qed

section \<open>The budget\<close>

lemma budget_field_written:
  assumes cnt: "counter_on cd b wk t = Some (Some c)"
  shows "num_of (item_get (token_row cd b wk (Some c) counts [] now) (budget_field d)) =
    (case map_of counts (budget_field d) of Some n \<Rightarrow> n | None \<Rightarrow> counter_num (budget_field d) b (week_identity wk) t)"
proof -
  from cnt obtain row where row: "t (counter_key TOKENS b wk) = Some row" "parse_counter cd b wk row = Some c"
    by (rule counter_on_SomeD)
  from row(2) obtain c0 bi bo av gen p where
    "c = c0\<lparr>c_item := c_item c0 ++ dict_of [(''budget_input_tokens'', PInt bi), (''budget_output_tokens'', PInt bo),
        (''allowance_version'', PInt av), (''account_fence_generation'', PInt gen), (''plan_id'', PStr p)]\<rparr>"
    "whole_in_range True (item_get row ''budget_input_tokens'') = Some bi"
    "whole_in_range True (item_get row ''budget_output_tokens'') = Some bo"
    by (rule parse_counter_SomeD)
  with row(1) show ?thesis
    by (cases d) (auto simp: tokens.written_get previous_row_def counter_num_def counter_key_TOKENS
        item_get_merge_notin row_lookup num_of_range split: option.split)
qed

lemma within_budget_put:
  assumes wb: "within_budget t" and other: "\<And>g b' wid'. counter_num g b' wid' u = counter_num g b' wid' t"
    and new: "\<And>d. num_of (item_get row (finalized_field d)) + num_of (item_get row (reserved_field d))
        \<le> num_of (item_get row (budget_field d))"
  shows "within_budget (u(counter_key TOKENS b wk \<mapsto> stored_item row))"
  using wb new unfolding within_budget_def counter_num_counter other by auto

lemma token_row_num:
  assumes "write_counter cd TOKENS b wk previous counts extra now = Inr oper"
    "counter_on cd b wk t = Some previous" "f \<in> set (count_fields TOKENS)"
  shows "num_of (item_get (token_row cd b wk previous counts extra now) f) = new_count previous counts f"
  using tokens.written_count(1) [OF assms(1) counter_on_from_table [OF assms(2)] assms(3)] by simp

lemma reserving_budget:
  assumes dec: "reserve_decision cd rq g now previous = Transact ops r"
    and cnt: "counter_on cd (rq_beneficiary rq) (rq_week rq) t = Some previous"
    and tx: "tx_apply ops t = Some t'" and wb: "within_budget t"
  shows "within_budget t'"
proof -
  note post = reserving_post [OF dec cnt tx]
  from dec have
    "prior_count previous ''finalized_input_tokens'' + prior_count previous ''reserved_input_tokens'' + rq_input rq
       \<le> budget_input (rq_budget rq)"
    "prior_count previous ''finalized_output_tokens'' + prior_count previous ''reserved_output_tokens'' + rq_output rq
       \<le> budget_output (rq_budget rq)"
    by (rule reserve_decision_TransactD; blast)+
  then have room: "prior_count previous (finalized_field d) + prior_count previous (reserved_field d) + requested rq d
      \<le> (case d of Input_Tokens \<Rightarrow> budget_input (rq_budget rq) | Output_Tokens \<Rightarrow> budget_output (rq_budget rq))" for d
    by (cases d) (simp_all add: requested_def)
  have bud: "num_of (item_get (token_row cd (rq_beneficiary rq) (rq_week rq) previous (reserve_counts rq previous) (reserve_fields rq g) now) (budget_field d))
      = (case d of Input_Tokens \<Rightarrow> budget_input (rq_budget rq) | Output_Tokens \<Rightarrow> budget_output (rq_budget rq))" for d
    by (cases d) (simp_all add: tokens.written_get reserve_counts_def reserve_fields_def)
  show ?thesis
    unfolding post(1)
    using room by (intro within_budget_put [OF wb])
      (simp_all add: token_row_num [OF post(3) cnt] reserve_counts_fields bud add.assoc)
qed

lemma recording_budget:
  assumes dec: "record_decision cd us now cur wk c = Transact ops r"
    and eff: "effect_on cd (us_beneficiary us) (us_effect us) t = Some cur"
    and cnt: "counter_on cd (us_beneficiary us) wk t = Some (Some c)"
    and tx: "tx_apply ops t = Some t'" and wb: "within_budget t"
  shows "within_budget t'"
proof -
  note post = recording_post [OF dec eff cnt tx]
  have none: "map_of (record_counts us c) (budget_field d) = None" for d
    by (cases d) (simp_all add: record_counts_def)
  have "counter_num (finalized_field d) (us_beneficiary us) (week_identity wk) t
      + counter_num (reserved_field d) (us_beneficiary us) (week_identity wk) t
      \<le> counter_num (budget_field d) (us_beneficiary us) (week_identity wk) t" for d
    using wb by (simp add: within_budget_def)
  then have "prior_count (Some c) (finalized_field d) + prior_count (Some c) (reserved_field d)
      \<le> counter_num (budget_field d) (us_beneficiary us) (week_identity wk) t" for d
    by (simp add: counter_on_num [OF cnt])
  then show ?thesis
    unfolding post(1) by (intro within_budget_put [OF wb])
      (simp_all add: token_row_num [OF post(4) cnt] record_counts_fields budget_field_written [OF cnt] none
        usage_evidence_key_def)
qed

lemma settling_budget:
  assumes dec: "settle_decision cd st now cur wk c ev = Transact ops r"
    and eff: "effect_on cd (st_beneficiary st) (st_effect st) t = Some cur"
    and cnt: "counter_on cd (st_beneficiary st) wk t = Some (Some c)"
    and tx: "tx_apply ops t = Some t'" and wb: "within_budget t"
  shows "within_budget t'"
proof -
  from dec eff cnt tx obtain ri ro where
    le: "settled_input st ev \<le> ri" "settled_output st ev \<le> ro"
    and t': "t' = t(effect_key (st_beneficiary st) (st_effect st) \<mapsto> stored_item (settle_row_of cd st now cur ev ri ro),
         counter_key TOKENS (st_beneficiary st) wk \<mapsto>
           stored_item (token_row cd (st_beneficiary st) wk (Some c) (settle_counts st c ev ri ro) [] now))"
    and w: "write_counter cd TOKENS (st_beneficiary st) wk (Some c) (settle_counts st c ev ri ro) [] now
       = Inr (Put (token_row cd (st_beneficiary st) wk (Some c) (settle_counts st c ev ri ro) [] now) (version_condition (Some c)))"
    by (rule settling_post)
  have none: "map_of (settle_counts st c ev ri ro) (budget_field d) = None" for d
    by (cases d) (simp_all add: settle_counts_def)
  have less: "debited st ev d + given_back ri ro d \<le> 0" for d
    using le by (cases d) (simp_all add: debited_def given_back_def)
  have "counter_num (finalized_field d) (st_beneficiary st) (week_identity wk) t
      + counter_num (reserved_field d) (st_beneficiary st) (week_identity wk) t
      \<le> counter_num (budget_field d) (st_beneficiary st) (week_identity wk) t" for d
    using wb by (simp add: within_budget_def)
  then have room: "prior_count (Some c) (finalized_field d) + debited st ev d
      + (prior_count (Some c) (reserved_field d) + given_back ri ro d)
      \<le> counter_num (budget_field d) (st_beneficiary st) (week_identity wk) t" for d
    using less [of d] by (simp add: counter_on_num [OF cnt]) (smt (verit, best))
  then show ?thesis
    unfolding t' by (intro within_budget_put [OF wb])
      (simp_all add: token_row_num [OF w cnt] settle_counts_fields budget_field_written [OF cnt] none)
qed

section \<open>The invariant\<close>

lemma ledger_step_inv: "ledger_step cd t t' \<Longrightarrow> ledger_inv t \<Longrightarrow> ledger_inv t'"
proof (induction rule: ledger_step.induct)
  case (reserving rq g t previous now ops r t')
  have step: "ledger_step cd t t'" using reserving(1-6) by (rule ledger_step.reserving)
  from reserving(7) have inv: "keyed t" "finite (dom t)" "balanced t" "within_budget t"
    by (simp_all add: ledger_inv_def)
  show ?case unfolding ledger_inv_def
    using ledger_step_keyed [OF step inv(1)] ledger_step_finite [OF step inv(2)]
      reserving_balanced [OF reserving(5,3,4,6) inv(2,3)] reserving_budget [OF reserving(5,4,6) inv(4)]
    by (intro conjI)
next
  case (recording us t cur wk c now ops r t')
  have step: "ledger_step cd t t'" using recording(1-7) by (rule ledger_step.recording)
  from recording(8) have inv: "keyed t" "finite (dom t)" "balanced t" "within_budget t"
    by (simp_all add: ledger_inv_def)
  show ?case unfolding ledger_inv_def
    using ledger_step_keyed [OF step inv(1)] ledger_step_finite [OF step inv(2)]
      recording_balanced [OF recording(6,2,3,4,5,7) inv(2,1,3)] recording_budget [OF recording(6,2,5,7) inv(4)]
    by (intro conjI)
next
  case (settling st t cur wk c ev now ops r t')
  have step: "ledger_step cd t t'" using settling(1-8) by (rule ledger_step.settling)
  from settling(9) have inv: "keyed t" "finite (dom t)" "balanced t" "within_budget t"
    by (simp_all add: ledger_inv_def)
  show ?case unfolding ledger_inv_def
    using ledger_step_keyed [OF step inv(1)] ledger_step_finite [OF step inv(2)]
      settling_balanced [OF settling(7,2,3,4,5,8) inv(2,3)] settling_budget [OF settling(7,2,5,8) inv(4)]
    by (intro conjI)
next
  case (elsewhere t' t)
  from elsewhere(4) have inv: "keyed t" "finite (dom t)" "balanced t" "within_budget t"
    by (simp_all add: ledger_inv_def)
  have "within_budget t'" using inv(4) by (simp add: within_budget_def counter_num_same [OF elsewhere(1)])
  with elsewhere(2,3) inv elsewhere_balanced [OF elsewhere(1) inv(2) _ inv(3)] show ?case
    by (simp add: ledger_inv_def)
qed

lemma ledger_run_inv: "ledger_run cd t t' \<Longrightarrow> ledger_inv t \<Longrightarrow> ledger_inv t'"
  unfolding ledger_run_def by (induction rule: rtranclp_induct) (auto intro: ledger_step_inv)

lemma empty_ledger_inv:
  assumes "keyed t" "finite (dom t)" "\<And>k. ledger_key k \<Longrightarrow> t k = None"
  shows "ledger_inv t"
proof -
  have zero: "total w t = 0" if "\<And>k i. \<not> ledger_key k \<Longrightarrow> w k i = 0" for w :: "key \<Rightarrow> item \<Rightarrow> int"
    unfolding total_def using that assms(3) by (intro sum.neutral) (metis domIff)
  have "counter_num f b wid t = 0" for f b wid
    using assms(3) partition_ledger_key [of "(partition_key b, ''WEEK#'' @ wid)" b]
    by (simp add: counter_num_def)
  moreover have "total (held b wid d) t = 0" "total (spent b wid d) t = 0" "total (cost b wid d) t = 0" for b wid d
    by (intro zero; auto simp: held_def spent_def cost_def partition_ledger_key)+
  ultimately show ?thesis using assms(1,2) by (simp add: ledger_inv_def balanced_def within_budget_def)
qed

end
