(* ===== verification/Ledger_Client.thy ===== *)
theory Ledger_Client
  imports Ledger_Invariant
begin

text \<open>
  The ledger's functions against a table that other clients of the ledger use at the same time, and
  whose answers may be lost. Whatever they return, all they did to the table is a run of atomic
  ledger steps: their optimistic reads, version conditions, retries and re-reads implement the
  abstract ledger of \<open>Ledger_Steps\<close>, so its invariants hold of the program.
\<close>

section \<open>Compare-and-set on what was read\<close>

lemma forward_kept: "forward t t' \<Longrightarrow> ledger_key k \<Longrightarrow> kept t t' k"
  unfolding forward_def by blast

lemma cas_effect:
  assumes "forward u t" "u (effect_key b e) = Some raw" "validated_effect cd b e raw = Inr cur"
    and "item_key nxt = Some (effect_key b e)" "op_ok t (put_replace nxt (int_field cur ''state_version'') st)"
  shows "t (effect_key b e) = Some raw"
proof (rule version_cas)
  show "kept u t (effect_key b e)" using assms(1) by (rule forward_kept) simp
  show "u (effect_key b e) = Some raw" by (fact assms(2))
  show "row_version raw = Some (int_field cur ''state_version'')" using assms(3) by (rule validated_effect_version)
  from assms(4,5) show "cond_holds (C_Eq ''state_version'' (PInt (int_field cur ''state_version''))) (row_at t (effect_key b e))"
    by (simp add: put_replace_def op_ok_def)
qed

lemma cas_counter:
  assumes "forward u t" "keyed t" "counter_on cd b wk u = Some previous"
    and w: "write_counter cd TOKENS b wk previous counts extra now = Inr oper" and ok: "op_ok t oper"
  shows "counter_on cd b wk t = Some previous"
proof -
  have "t (counter_key TOKENS b wk) = u (counter_key TOKENS b wk)"
  proof (rule tokens.write_commits_on_read [OF w _ refl _ assms(2) ok])
    show "kept u t (counter_key TOKENS b wk)" using assms(1) by (rule forward_kept) simp
    show "case previous of None \<Rightarrow> u (counter_key TOKENS b wk) = None
        | Some c \<Rightarrow> \<exists>i. u (counter_key TOKENS b wk) = Some i \<and> row_version i = Some (c_version c) \<and> counter_ok cd TOKENS b wk c"
      using assms(3) by (auto simp: counter_on_def parse_counter_version parse_counter_ok split: option.splits)
  qed
  with assms(3) show ?thesis by (simp add: counter_on_def)
qed

lemma tx_op_ok: "tx_apply ops t = Some t' \<Longrightarrow> oper \<in> set ops \<Longrightarrow> op_ok t oper"
  by (rule tx_applyD(2))

section \<open>The client\<close>

locale ledger_client = store db rows env + codec_laws cd
  for db :: "'w db" and rows env cd +
  assumes env_ledger: "env t t' \<Longrightarrow> ledger_run cd t t'"

context ledger_client
begin

lemma strong_get_run: "strong_get db k w = (r, w') \<Longrightarrow> ledger_run cd (rows w) (rows w')"
  by (rule env_ledger) (rule strong_get_env)

lemma read_token_counter_env: "read_token_counter cd db b wk w = (r, w') \<Longrightarrow> env (rows w) (rows w')"
  by (auto simp: read_token_counter_def split: prod.splits sum.splits option.splits dest: strong_get_env)

lemma read_token_counter_run: "read_token_counter cd db b wk w = (r, w') \<Longrightarrow> ledger_run cd (rows w) (rows w')"
  by (rule env_ledger) (rule read_token_counter_env)

lemma read_token_counter_row:
  "read_token_counter cd db b wk w = (Inr previous, w') \<Longrightarrow> counter_on cd b wk (rows w') = Some previous"
  by (auto simp: read_token_counter_def counter_on_def split: prod.splits sum.splits option.splits
      dest!: strong_get_row) metis

lemma commit_run:
  assumes step: "\<And>ops r t t'. v = Transact ops r \<Longrightarrow> ledger_run cd (rows w) t \<Longrightarrow> tx_apply ops t = Some t' \<Longrightarrow> ledger_run cd t t'"
    and call: "commit_verdict db v key raced un w = (a, w')"
  shows "ledger_run cd (rows w) (rows w')"
proof (cases v)
  case (Transact ops r)
  obtain ok w1 where tx: "db_tx db ops w = (ok, w1)" by force
  have "ledger_run cd (rows w) (rows w1)"
    using tx by (rule tx_run [rotated 3]) (auto intro: env_ledger ledger_run_trans step [OF Transact])
  moreover have "ledger_run cd (rows w1) (rows w')"
  proof (cases ok)
    case True
    with call tx Transact show ?thesis by (simp add: commit_verdict_def)
  next
    case False
    obtain r2 w2 where g: "strong_get db key w1 = (r2, w2)" by force
    with call tx Transact False have "w' = w2"
      by (auto simp: commit_verdict_def split: sum.splits option.splits)
    with strong_get_run [OF g] show ?thesis by simp
  qed
  ultimately show ?thesis by (rule ledger_run_trans)
qed (use call in \<open>auto simp: commit_verdict_def\<close>)

lemma reserve_attempt_run:
  assumes call: "reserve_attempt cd db rq g now w = (a, w')" and key: "keyed (rows w)"
    and ok: "request_ok cd rq" "exact_count True g"
  shows "ledger_run cd (rows w) (rows w')"
proof -
  let ?b = "rq_beneficiary rq" and ?e = "rq_effect rq" and ?wk = "rq_week rq"
  obtain r1 w1 where g1: "strong_get db (effect_key ?b ?e) w = (r1, w1)" by force
  note run1 = strong_get_run [OF g1]
  show ?thesis
  proof (cases "r1 = Inr None")
    case False
    with call g1 have "w' = w1" by (auto simp: reserve_attempt_def Let_def split: sum.splits option.splits)
    with run1 show ?thesis by simp
  next
    case True
    obtain r2 w2 where g2: "read_token_counter cd db ?b ?wk w1 = (r2, w2)" by force
    have run2: "ledger_run cd (rows w) (rows w2)"
      using run1 read_token_counter_run [OF g2] by (rule ledger_run_trans)
    show ?thesis
    proof (cases r2)
      case (Inl x)
      with call g1 g2 True run2 show ?thesis by (simp add: reserve_attempt_def)
    next
      case (Inr previous)
      note cnt = read_token_counter_row [OF g2 [unfolded Inr]]
      have "ledger_run cd (rows w2) (rows w')"
      proof (rule commit_run)
        fix ops r t t'
        assume dec: "reserve_decision cd rq g now previous = Transact ops r"
          and run: "ledger_run cd (rows w2) t" and tx: "tx_apply ops t = Some t'"
        note facts = ledger_run_facts [OF run ledger_run_facts(1) [OF run2 key]]
        from dec obtain fence oper where
          w: "write_counter cd TOKENS ?b ?wk previous (reserve_counts rq previous) (reserve_fields rq g) now = Inr oper"
          and ops: "ops = [fence, put_create (reserved_effect cd rq g now (next_version previous)), oper]"
          unfolding reserve_counts_def reserve_fields_def by (rule reserve_decision_TransactD)
        from tx_op_ok [OF tx, of "put_create (reserved_effect cd rq g now (next_version previous))"] ops
        have "cond_holds create_only (row_at t (effect_key ?b ?e))"
          by (simp add: put_create_def op_ok_def del: cond_holds.simps)
        then have none: "t (effect_key ?b ?e) = None" by (simp only: keyed_create_only [OF facts(1)])
        have "counter_on cd ?b ?wk t = Some previous"
          using facts(2,1) cnt w by (rule cas_counter) (use ops tx in \<open>auto intro: tx_op_ok\<close>)
        from ledger_step.reserving [OF ok none this dec tx] show "ledger_run cd t t'" by (rule ledger_run_step)
      qed (use call g1 g2 True Inr in \<open>simp add: reserve_attempt_def Let_def\<close>)
      with run2 show ?thesis by (rule ledger_run_trans)
    qed
  qed
qed

lemma record_attempt_run:
  assumes call: "record_attempt cd db us now w = (a, w')" and key: "keyed (rows w)" and ok: "usage_ok us"
  shows "ledger_run cd (rows w) (rows w')"
proof -
  let ?b = "us_beneficiary us" and ?e = "us_effect us"
  obtain r1 w1 where g1: "strong_get db (effect_key ?b ?e) w = (r1, w1)" by force
  note run1 = strong_get_run [OF g1]
  show ?thesis
  proof (cases "\<exists>raw cur wk. r1 = Inr (Some raw) \<and> validated_effect cd ?b ?e raw = Inr cur
      \<and> item_get cur ''state'' = PStr ''reserved'' \<and> effect_week cd cur = Some wk")
    case False
    from call g1 False have "w' = w1 \<or> (\<exists>r. strong_get db (usage_evidence_key cd us) w1 = (r, w'))"
      by (auto simp: record_attempt_def Let_def split: sum.splits option.splits if_splits prod.splits)
    with run1 show ?thesis by (auto intro: ledger_run_trans strong_get_run)
  next
    case True
    then obtain raw cur wk where r1: "r1 = Inr (Some raw)" and val: "validated_effect cd ?b ?e raw = Inr cur"
        and st: "item_get cur ''state'' = PStr ''reserved''" and week: "effect_week cd cur = Some wk" by blast
    note eff = strong_get_row [OF g1 [unfolded r1]]
    obtain r2 w2 where g2: "read_token_counter cd db ?b wk w1 = (r2, w2)" by force
    note run12 = read_token_counter_run [OF g2]
    have run2: "ledger_run cd (rows w) (rows w2)" using run1 run12 by (rule ledger_run_trans)
    show ?thesis
    proof (cases "\<exists>c. r2 = Inr (Some c)")
      case False
      with call g1 g2 r1 val st week have "w' = w2"
        by (auto simp: record_attempt_def Let_def split: sum.splits option.splits)
      with run2 show ?thesis by simp
    next
      case True
      then obtain c where r2: "r2 = Inr (Some c)" by blast
      note cnt = read_token_counter_row [OF g2 [unfolded r2]]
      have "ledger_run cd (rows w2) (rows w')"
      proof (rule commit_run)
        fix ops r t t'
        assume dec: "record_decision cd us now cur wk c = Transact ops r"
          and run: "ledger_run cd (rows w2) t" and tx: "tx_apply ops t = Some t'"
        note facts = ledger_run_facts [OF run ledger_run_facts(1) [OF run2 key]]
        have fwd: "forward (rows w1) t"
          by (rule ledger_run_facts(2) [OF ledger_run_trans [OF run12 run] ledger_run_facts(1) [OF run1 key]])
        from dec obtain fence oper where
          w: "write_counter cd TOKENS ?b wk (Some c) (record_counts us c) [] now = Inr oper"
          and ops: "ops = [fence, put_create (evidence_item cd us now cur),
             put_replace (observed_effect cd us now cur) (int_field cur ''state_version'') ''reserved'', oper]"
          unfolding record_counts_def by (rule record_decision_TransactD)
        have "t (effect_key ?b ?e) = Some raw"
          by (rule cas_effect [OF fwd eff val item_key_observed_effect [OF validated_effect_keys(1) [OF val]]])
            (use ops tx in \<open>auto intro: tx_op_ok\<close>)
        then have eff': "effect_on cd ?b ?e t = Some cur" by (simp add: effect_on_def val)
        have "counter_on cd ?b wk t = Some (Some c)"
          using facts(2,1) cnt w by (rule cas_counter) (use ops tx in \<open>auto intro: tx_op_ok\<close>)
        from ledger_step.recording [OF ok eff' st week this dec tx] show "ledger_run cd t t'"
          by (rule ledger_run_step)
      qed (use call g1 g2 r1 val st week r2 in \<open>simp add: record_attempt_def Let_def\<close>)
      with run2 show ?thesis by (rule ledger_run_trans)
    qed
  qed
qed

lemma settle_attempt_run:
  assumes call: "settle_attempt cd db st now w = (a, w')" and key: "keyed (rows w)" and ok: "settle_ok st"
  shows "ledger_run cd (rows w) (rows w')"
proof -
  let ?b = "st_beneficiary st" and ?e = "st_effect st"
  obtain r1 w1 where g1: "strong_get db (effect_key ?b ?e) w = (r1, w1)" by force
  note run1 = strong_get_run [OF g1]
  show ?thesis
  proof (cases "\<exists>raw cur wk. r1 = Inr (Some raw) \<and> validated_effect cd ?b ?e raw = Inr cur
      \<and> item_get cur ''state'' = PStr ''observed'' \<and> effect_week cd cur = Some wk")
    case False
    from call g1 False have "w' = w1"
      by (auto simp: settle_attempt_def Let_def split: sum.splits option.splits if_splits)
    with run1 show ?thesis by simp
  next
    case True
    then obtain raw cur wk where r1: "r1 = Inr (Some raw)" and val: "validated_effect cd ?b ?e raw = Inr cur"
        and sta: "item_get cur ''state'' = PStr ''observed''" and week: "effect_week cd cur = Some wk" by blast
    then have open': "\<not> settled_row cur" by (simp add: settled_row_def)
    note eff = strong_get_row [OF g1 [unfolded r1]]
    obtain r2 w2 where g2: "read_token_counter cd db ?b wk w1 = (r2, w2)" by force
    note run12 = read_token_counter_run [OF g2]
    have run2: "ledger_run cd (rows w) (rows w2)" using run1 run12 by (rule ledger_run_trans)
    show ?thesis
    proof (cases "\<exists>c v. r2 = Inr c \<and> sha256_text (item_get cur ''evidence_id'') = Some v")
      case False
      with call g1 g2 r1 val sta open' week have "w' = w2"
        by (auto simp: settle_attempt_def Let_def split: sum.splits option.splits)
      with run2 show ?thesis by simp
    next
      case True
      then obtain previous v where r2: "r2 = Inr previous" and v: "sha256_text (item_get cur ''evidence_id'') = Some v"
        by blast
      obtain r3 w3 where g3: "strong_get db (evidence_key ?b v) w2 = (r3, w3)" by force
      note run23 = strong_get_run [OF g3]
      have run3: "ledger_run cd (rows w) (rows w3)" using run2 run23 by (rule ledger_run_trans)
      show ?thesis
      proof (cases "\<exists>c row ev. previous = Some c \<and> r3 = Inr (Some row) \<and> evidence_from_item cd row = Some ev")
        case False
        with call g1 g2 g3 r1 r2 v val sta open' week have "w' = w3"
          by (auto simp: settle_attempt_def Let_def bind_eq_Some_conv split: sum.splits option.splits)
        with run3 show ?thesis by simp
      next
        case True
        then obtain c row ev where c: "previous = Some c" and r3: "r3 = Inr (Some row)"
            and ev: "evidence_from_item cd row = Some ev" by blast
        note cnt = read_token_counter_row [OF g2 [unfolded r2 c]] and evr = strong_get_row [OF g3 [unfolded r3]]
        have "ledger_run cd (rows w3) (rows w')"
        proof (rule commit_run)
          fix ops r t t'
          assume dec: "settle_decision cd st now cur wk c ev = Transact ops r"
            and run: "ledger_run cd (rows w3) t" and tx: "tx_apply ops t = Some t'"
          note facts = ledger_run_facts [OF run ledger_run_facts(1) [OF run3 key]]
          have run2t: "ledger_run cd (rows w2) t" using run23 run by (rule ledger_run_trans)
          have fwd2: "forward (rows w2) t" by (rule ledger_run_facts(2) [OF run2t ledger_run_facts(1) [OF run2 key]])
          have fwd1: "forward (rows w1) t"
            by (rule ledger_run_facts(2) [OF ledger_run_trans [OF run12 run2t] ledger_run_facts(1) [OF run1 key]])
          from dec obtain fence oper ri ro where
            w: "write_counter cd TOKENS ?b wk (Some c) (settle_counts st c ev ri ro) [] now = Inr oper"
            and ops: "ops = [fence, put_replace (settle_row_of cd st now cur ev ri ro) (int_field cur ''state_version'') ''observed'', oper]"
            unfolding settle_counts_def settle_row_of_def by (rule settle_decision_TransactD) blast
          have "item_key (settle_row_of cd st now cur ev ri ro) = Some (effect_key ?b ?e)"
            unfolding settle_row_of_def by (rule item_key_settled_effect [OF validated_effect_keys(1) [OF val]])
          then have "t (effect_key ?b ?e) = Some raw"
            by (rule cas_effect [OF fwd1 eff val]) (use ops tx in \<open>auto intro: tx_op_ok\<close>)
          then have eff': "effect_on cd ?b ?e t = Some cur" by (simp add: effect_on_def val)
          have cnt': "counter_on cd ?b wk t = Some (Some c)"
            using fwd2 facts(1) cnt w by (rule cas_counter) (use ops tx in \<open>auto intro: tx_op_ok\<close>)
          have "t (evidence_key ?b v) = Some row"
            using facts(2) evr evidence_key_kind(1,3) [of ?b v] unfolding forward_def by blast
          then have "evidence_on cd ?b cur t = Some ev" by (simp add: evidence_on_def v ev)
          from ledger_step.settling [OF ok eff' sta week cnt' this dec tx] show "ledger_run cd t t'"
            by (rule ledger_run_step)
        qed (use call g1 g2 g3 r1 val sta open' week r2 c v r3 ev in \<open>simp add: settle_attempt_def Let_def\<close>)
        with run3 show ?thesis by (rule ledger_run_trans)
      qed
    qed
  qed
qed

section \<open>The retry loop keeps to the ledger\<close>

lemma retry_run:
  assumes step: "\<And>w a w'. attempt w = (a, w') \<Longrightarrow> keyed (rows w) \<Longrightarrow> ledger_run cd (rows w) (rows w')"
    and call: "retry n attempt exhausted w = (r, w')" and key: "keyed (rows w)"
  shows "ledger_run cd (rows w) (rows w')"
proof (cases "n < 1")
  case True
  with call show ?thesis by (simp add: retry_def)
next
  case False
  with call have "retry_loop n attempt exhausted w = (r, w')" by (simp add: retry_def)
  then have "keyed (rows w) \<longrightarrow> ledger_run cd (rows w) (rows w')"
    by (rule retry_loop_ends [rotated 3]) (auto intro: step ledger_run_trans ledger_run_facts(1))
  with key show ?thesis by blast
qed

lemma reserve_generation_run:
  "reserve_generation db b generation w = (r, w') \<Longrightarrow> ledger_run cd (rows w) (rows w')"
  by (auto simp: reserve_generation_def split: option.splits prod.splits sum.splits
      dest!: require_active_account_fence_env intro: env_ledger)

lemma reserve_generation_ok: "reserve_generation db b generation w = (Inr g, w') \<Longrightarrow> exact_count True g"
  by (auto simp: reserve_generation_def split: option.splits prod.splits sum.splits if_splits)

lemma reserve_allowance_run:
  assumes call: "reserve_allowance cd db rq at_time generation w = (r, w')" and key: "keyed (rows w)"
    and ok: "week_ok cd (rq_week rq)" "budget_ok (rq_budget rq)"
  shows "ledger_run cd (rows w) (rows w')"
proof -
  let ?b = "rq_beneficiary rq" and ?e = "rq_effect rq"
  obtain r1 w1 where g1: "strong_get db (effect_key ?b ?e) w = (r1, w1)" by force
  obtain r2 w2 where g2: "reserve_generation db ?b generation w1 = (r2, w2)" by force
  note run1 = strong_get_run [OF g1] and run2 = reserve_generation_run [OF g2]
  have run02: "ledger_run cd (rows w) (rows w2)" using run1 run2 by (rule ledger_run_trans)
  from call g1 g2 consider "w' = w" | "w' = w1" | "w' = w2"
    | g now where "request_ok cd rq" "r2 = Inr g"
        "retry DEFAULT_ATTEMPTS (reserve_attempt cd db rq g now) (R_Retryable, None) w2 = (r, w')"
    unfolding reserve_allowance_def Let_def
    by (auto split: if_splits moment.splits sum.splits option.splits err.splits simp: request_ok_def ok)
  then show ?thesis
  proof cases
    case (4 g now)
    have "ledger_run cd (rows w2) (rows w')"
      by (rule retry_run [OF _ 4(3) ledger_run_facts(1) [OF run02 key]])
        (use 4(1) reserve_generation_ok [OF g2 [unfolded 4(2)]] in \<open>auto intro: reserve_attempt_run\<close>)
    with run02 show ?thesis by (rule ledger_run_trans)
  qed (use run1 run02 in simp_all)
qed

lemma record_usage_run:
  assumes call: "record_usage cd db us at_time w = (r, w')" and key: "keyed (rows w)"
  shows "ledger_run cd (rows w) (rows w')"
proof -
  obtain r1 w1 where g1: "strong_get db (usage_evidence_key cd us) w = (r1, w1)" by force
  note run1 = strong_get_run [OF g1]
  from call g1 consider "w' = w" | "w' = w1"
    | now where "usage_ok us"
        "retry DEFAULT_ATTEMPTS (record_attempt cd db us now) (P_Retryable, None) w1 = (r, w')"
    unfolding record_usage_def
    by (auto split: if_splits moment.splits sum.splits option.splits simp: usage_ok_def)
  then show ?thesis
  proof cases
    case (3 now)
    have "ledger_run cd (rows w1) (rows w')"
      by (rule retry_run [OF _ 3(2) ledger_run_facts(1) [OF run1 key]]) (auto intro: record_attempt_run 3(1))
    with run1 show ?thesis by (rule ledger_run_trans)
  qed (use run1 in simp_all)
qed

lemma complete_allowance_run:
  assumes call: "complete_allowance cd db st at_time w = (r, w')" and key: "keyed (rows w)"
  shows "ledger_run cd (rows w) (rows w')"
proof -
  from call consider "w' = w"
    | now where "settle_ok st"
        "retry DEFAULT_ATTEMPTS (settle_attempt cd db st now) (F_Retryable, None) w = (r, w')"
    unfolding complete_allowance_def
    by (auto split: if_splits moment.splits sum.splits option.splits simp: settle_ok_def)
  then show ?thesis
    by cases (auto intro: retry_run [OF _ _ key] settle_attempt_run)
qed

lemma release_restored_run:
  "release_restored cd db b e at_time w = (r, w') \<Longrightarrow> keyed (rows w) \<Longrightarrow> ledger_run cd (rows w) (rows w')"
  by (auto simp: release_restored_def split: prod.splits sum.splits dest: complete_allowance_run)

lemma release_unknown_cost_run:
  assumes call: "release_unknown_cost cd db b e at_time w = (r, w')" and key: "keyed (rows w)"
  shows "ledger_run cd (rows w) (rows w')"
proof -
  obtain r1 w1 where g1: "strong_get db (effect_key b e) w = (r1, w1)" by force
  note run1 = strong_get_run [OF g1]
  note key1 = ledger_run_facts(1) [OF run1 key]
  from call g1 consider "w' = w" | "w' = w1"
    | us r2 w2 where "record_usage cd db us at_time w1 = (r2, w2)"
        "w' = w2 \<or> release_restored cd db b e at_time w2 = (r, w')"
    | "release_restored cd db b e at_time w1 = (r, w')"
    unfolding release_unknown_cost_def
    by (auto split: if_splits moment.splits sum.splits option.splits prod.splits)
  then show ?thesis
  proof cases
    case (3 us r2 w2)
    note run2 = record_usage_run [OF 3(1) key1]
    have "ledger_run cd (rows w) (rows w2)" using run1 run2 by (rule ledger_run_trans)
    with 3(2) release_restored_run ledger_run_facts(1) [OF run2 key1] show ?thesis
      by (auto intro: ledger_run_trans)
  qed (use run1 release_restored_run [OF _ key1] in \<open>auto intro: ledger_run_trans\<close>)
qed

end

end
