(* ===== verification/Ledger_Outcome.thy ===== *)
theory Ledger_Outcome
  imports Ledger_Client
begin

text \<open>
  What the answers of the ledger mean. An effect is created at most once and keeps its reservation;
  a settled effect never changes again; an answer that claims a success is witnessed by a row that
  carries the digest of the very command that was asked for.
\<close>

section \<open>The life of an effect\<close>

definition settled_row_at :: "table \<Rightarrow> key \<Rightarrow> item \<Rightarrow> bool" where
  "settled_row_at t k i \<longleftrightarrow> t k = Some i \<and> settled_row i"

lemma effect_on_state:
  assumes "effect_on cd b e t = Some cur" "t (effect_key b e) = Some raw"
  shows "item_get cur ''state'' = item_get raw ''state''"
  using assms by (auto elim!: effect_on_SomeD dest: validated_effect_dim(2))

lemma ledger_step_settled:
  "ledger_step cd t t' \<Longrightarrow> settled_row_at t (effect_key b e) i \<Longrightarrow> settled_row_at t' (effect_key b e) i"
proof (induction rule: ledger_step.induct)
  case (reserving rq g t previous now ops r t')
  then show ?case by (auto simp: settled_row_at_def reserving_post(1) [OF reserving(5,4,6)])
next
  case (recording us t cur wk c now ops r t')
  have "effect_key b e \<noteq> effect_key (us_beneficiary us) (us_effect us)"
    using recording(3,8) effect_on_state [OF recording(2)] by (auto simp: settled_row_at_def settled_row_def)
  with recording(8) show ?case
    by (auto simp: settled_row_at_def recording_post(1) [OF recording(6,2,5,7)] usage_evidence_key_def)
next
  case (settling st t cur wk c ev now ops r t')
  have "effect_key b e \<noteq> effect_key (st_beneficiary st) (st_effect st)"
    using settling(3,9) effect_on_state [OF settling(2)] by (auto simp: settled_row_at_def settled_row_def)
  moreover from settling(7,2,5,8) obtain x y where
    "t' = t(effect_key (st_beneficiary st) (st_effect st) \<mapsto> x, counter_key TOKENS (st_beneficiary st) wk \<mapsto> y)"
    by (rule settling_post) blast
  ultimately show ?case using settling(9) by (auto simp: settled_row_at_def)
next
  case (elsewhere t' t)
  then show ?case by (simp add: settled_row_at_def)
qed

lemma ledger_run_settled:
  "ledger_run cd t t' \<Longrightarrow> settled_row_at t (effect_key b e) i \<Longrightarrow> settled_row_at t' (effect_key b e) i"
  unfolding ledger_run_def by (induction rule: rtranclp_induct) (auto intro: ledger_step_settled)

text \<open>What a reservation says of itself, whatever happens to its effect.\<close>

definition reservation_fields :: "string list" where
  "reservation_fields = [''reservation_payload_digest'', ''reservation_input_tokens'', ''reservation_output_tokens'',
     ''reservation_id'', ''plan_id'', ''allowance_version'', ''week_identity'', ''window_start'', ''window_end'', ''expires_at'']"

definition same_reservation :: "item \<Rightarrow> item \<Rightarrow> bool" where
  "same_reservation i j \<longleftrightarrow> (\<forall>a \<in> set reservation_fields. as_stored (item_get j a) = as_stored (item_get i a))"

lemma same_reservation_refl [simp]: "same_reservation i i"
  by (simp add: same_reservation_def)

lemma same_reservation_trans: "same_reservation i j \<Longrightarrow> same_reservation j k \<Longrightarrow> same_reservation i k"
  by (simp add: same_reservation_def)

lemma observed_same_reservation:
  "validated_effect cd b e raw = Inr cur \<Longrightarrow> same_reservation raw (stored_item (observed_effect cd us now cur))"
  by (auto simp: same_reservation_def item_get_stored observed_effect_def row_lookup reservation_fields_def
      validated_effect_get normalized_fields_def)

lemma settled_same_reservation:
  "validated_effect cd b e raw = Inr cur \<Longrightarrow> same_reservation raw (stored_item (settle_row_of cd st now cur ev ri ro))"
  by (auto simp: same_reservation_def item_get_stored settle_row_of_def settled_effect_def row_lookup
      reservation_fields_def validated_effect_get normalized_fields_def)

definition effect_kept :: "table \<Rightarrow> table \<Rightarrow> key \<Rightarrow> bool" where
  "effect_kept t t' k \<longleftrightarrow> (\<forall>i. t k = Some i \<longrightarrow> (\<exists>j. t' k = Some j \<and> same_reservation i j))"

lemma ledger_step_effect_kept: "ledger_step cd t t' \<Longrightarrow> effect_kept t t' (effect_key b e)"
proof (induction rule: ledger_step.induct)
  case (reserving rq g t previous now ops r t')
  then show ?case by (auto simp: effect_kept_def reserving_post(1) [OF reserving(5,4,6)])
next
  case (recording us t cur wk c now ops r t')
  then show ?case
    by (auto simp: effect_kept_def recording_post(1) [OF recording(6,2,5,7)] usage_evidence_key_def
        elim!: effect_on_SomeD intro: observed_same_reservation)
next
  case (settling st t cur wk c ev now ops r t')
  from settling(7,2,5,8) obtain ri ro y where
    "t' = t(effect_key (st_beneficiary st) (st_effect st) \<mapsto> stored_item (settle_row_of cd st now cur ev ri ro),
        counter_key TOKENS (st_beneficiary st) wk \<mapsto> y)"
    by (rule settling_post) blast
  with settling(2) show ?case
    by (auto simp: effect_kept_def elim!: effect_on_SomeD intro: settled_same_reservation)
next
  case (elsewhere t' t)
  then show ?case by (simp add: effect_kept_def)
qed

lemma ledger_run_effect_kept: "ledger_run cd t t' \<Longrightarrow> effect_kept t t' (effect_key b e)"
  unfolding ledger_run_def
proof (induction rule: rtranclp_induct)
  case base
  show ?case by (simp add: effect_kept_def)
next
  case (step u v)
  with ledger_step_effect_kept [OF step(2), of b e] show ?case
    unfolding effect_kept_def by (meson same_reservation_trans)
qed

section \<open>Commands that reached the table\<close>

definition holds_reservation :: "codec \<Rightarrow> reserve_request \<Rightarrow> table \<Rightarrow> bool" where
  "holds_reservation cd rq t \<longleftrightarrow>
     (\<exists>i. t (effect_key (rq_beneficiary rq) (rq_effect rq)) = Some i
        \<and> item_get i ''reservation_payload_digest'' = PStr (reservation_digest cd rq))"

definition holds_settlement :: "codec \<Rightarrow> settle_request \<Rightarrow> table \<Rightarrow> bool" where
  "holds_settlement cd st t \<longleftrightarrow>
     (\<exists>i. settled_row_at t (effect_key (st_beneficiary st) (st_effect st)) i
        \<and> item_get i ''finalization_payload_digest'' = PStr (settle_digest cd st))"

definition holds_usage :: "codec \<Rightarrow> usage_request \<Rightarrow> table \<Rightarrow> bool" where
  "holds_usage cd us t \<longleftrightarrow>
     (\<exists>i. t (usage_evidence_key cd us) = Some i \<and> item_get i ''provider_payload_digest'' = PStr (usage_digest cd us))"

lemma holds_reservation_run:
  assumes "ledger_run cd t t'" "holds_reservation cd rq t"
  shows "holds_reservation cd rq t'"
proof -
  from assms(2) obtain i where i: "t (effect_key (rq_beneficiary rq) (rq_effect rq)) = Some i"
    "item_get i ''reservation_payload_digest'' = PStr (reservation_digest cd rq)"
    by (auto simp: holds_reservation_def)
  from ledger_run_effect_kept [OF assms(1)] i(1) obtain j where
    j: "t' (effect_key (rq_beneficiary rq) (rq_effect rq)) = Some j" "same_reservation i j"
    unfolding effect_kept_def by blast
  then have "as_stored (item_get j ''reservation_payload_digest'') = as_stored (item_get i ''reservation_payload_digest'')"
    by (simp add: same_reservation_def reservation_fields_def)
  with i(2) j(1) show ?thesis by (simp add: holds_reservation_def)
qed

lemma holds_settlement_run: "ledger_run cd t t' \<Longrightarrow> holds_settlement cd st t \<Longrightarrow> holds_settlement cd st t'"
  unfolding holds_settlement_def using ledger_run_settled by blast

lemma holds_usage_run:
  "ledger_run cd t t' \<Longrightarrow> keyed t \<Longrightarrow> holds_usage cd us t \<Longrightarrow> holds_usage cd us t'"
  using ledger_run_facts(2) [of cd t t'] evidence_key_kind(1,3)
  unfolding holds_usage_def forward_def usage_evidence_key_def by meson

lemma effect_absent_before:
  "ledger_run cd t t' \<Longrightarrow> t' (effect_key b e) = None \<Longrightarrow> t (effect_key b e) = None"
  using ledger_run_effect_kept [of cd t t' b e] by (cases "t (effect_key b e)") (auto simp: effect_kept_def)

section \<open>What an answer says\<close>

definition commit_ok :: "'w db \<Rightarrow> 'r decision \<Rightarrow> 'r \<Rightarrow> 'w \<Rightarrow> 'w \<Rightarrow> bool" where
  "commit_ok db v x w w' \<longleftrightarrow> (\<exists>ops. v = Transact ops (Inr x) \<and> db_tx db ops w = (True, w'))"

context ledger_client
begin

text \<open>An attempt's answer after its decision is one of four.\<close>

lemma commit_cases:
  assumes "commit_verdict db v key raced un w = (Done x, w')"
  shows "v = Settled x \<or> commit_ok db v x w w' \<or> x = un
    \<or> (\<exists>row. rows w' key = Some row \<and> raced row = Done x)"
  using assms
  by (auto simp: commit_verdict_def commit_ok_def settle_row_def split: decision.splits prod.splits bool.splits sum.splits option.splits
      dest: strong_get_row)

lemma commit_table:
  assumes "commit_ok db v x w w'"
  obtains ops t t' where "v = Transact ops (Inr x)" "ledger_run cd (rows w) t" "tx_apply ops t = Some t'"
    "ledger_run cd t' (rows w')"
  using assms tx_committed env_ledger unfolding commit_ok_def by metis

subsection \<open>Reservations\<close>

lemma classify_reservation_replayed:
  assumes "classify_reservation cd b e digest row = Inr (d, x)"
  shows "d \<noteq> R_Admitted" and "d = R_Replayed \<Longrightarrow> item_get row ''reservation_payload_digest'' = PStr digest"
  using assms
  by (auto simp: classify_reservation_def validated_effect_get normalized_fields_def
      split: sum.splits err.splits option.splits if_splits)

lemma reserve_decision_settled: "reserve_decision cd rq g now previous = Settled (d, x) \<Longrightarrow> d = R_Retryable \<or> d = R_Limit_Exceeded"
  by (auto simp: reserve_decision_def Let_def split: if_splits sum.splits)

lemma reserve_committed:
  assumes dec: "reserve_decision cd rq g now previous = Transact ops (Inr x)"
    and tx: "tx_apply ops t = Some t'" and key: "keyed t"
  shows "t (effect_key (rq_beneficiary rq) (rq_effect rq)) = None" "holds_reservation cd rq t'"
proof -
  from dec obtain fence oper where
    f: "active_fence_condition (rq_beneficiary rq) (Some g) = Inr fence" and
    w: "write_counter cd TOKENS (rq_beneficiary rq) (rq_week rq) previous (reserve_counts rq previous) (reserve_fields rq g) now = Inr oper"
    and ops: "ops = [fence, put_create (reserved_effect cd rq g now (next_version previous)), oper]"
    unfolding reserve_counts_def reserve_fields_def by (rule reserve_decision_TransactD)
  from tx_op_ok [OF tx, of "put_create (reserved_effect cd rq g now (next_version previous))"] ops
  have "cond_holds create_only (row_at t (effect_key (rq_beneficiary rq) (rq_effect rq)))"
    by (simp add: put_create_def op_ok_def del: cond_holds.simps)
  then show "t (effect_key (rq_beneficiary rq) (rq_effect rq)) = None" by (simp only: keyed_create_only [OF key])
  from active_fence_InrD [OF f] obtain fk fc where "fence = Check fk fc" by blast
  moreover obtain i c where oper: "oper = Put i c" using write_counter_InrD(1) [OF w] by blast
  moreover have "item_key i \<noteq> Some (effect_key (rq_beneficiary rq) (rq_effect rq))"
    using tx_applyD(1) [OF tx] ops oper by (auto simp: put_create_def)
  ultimately have "t' (effect_key (rq_beneficiary rq) (rq_effect rq))
      = Some (stored_item (reserved_effect cd rq g now (next_version previous)))"
    using tx_applyD(3) [OF tx] ops by (auto simp: put_create_def split: option.splits)
  then show "holds_reservation cd rq t'"
    by (simp add: holds_reservation_def reserved_effect_def Let_def row_lookup)
qed

definition reservation_answer :: "reserve_request \<Rightarrow> reservation_disposition \<Rightarrow> table \<Rightarrow> table \<Rightarrow> bool" where
  "reservation_answer rq d t t' \<longleftrightarrow>
     (d = R_Admitted \<longrightarrow> t (effect_key (rq_beneficiary rq) (rq_effect rq)) = None)
     \<and> (d = R_Admitted \<or> d = R_Replayed \<longrightarrow> holds_reservation cd rq t')"

lemma reserve_attempt_answer:
  assumes call: "reserve_attempt cd db rq g now w = (Done (d, x), w')" and key: "keyed (rows w)"
  shows "reservation_answer rq d (rows w) (rows w')"
proof -
  let ?k = "effect_key (rq_beneficiary rq) (rq_effect rq)"
  let ?classify = "\<lambda>row. settle_row (classify_reservation cd (rq_beneficiary rq) (rq_effect rq) (reservation_digest cd rq) row)"
  have raced: "reservation_answer rq d (rows w) (rows w')" if "rows w' ?k = Some row" "?classify row = Done (d, x)" for row
    using that classify_reservation_replayed [of "rq_beneficiary rq" "rq_effect rq" "reservation_digest cd rq" row d x]
    by (auto simp: reservation_answer_def holds_reservation_def settle_row_def split: sum.splits)
  obtain r1 w1 where g1: "strong_get db ?k w = (r1, w1)" by force
  obtain r2 w2 where g2: "read_token_counter cd db (rq_beneficiary rq) (rq_week rq) w1 = (r2, w2)" by force
  have run2: "ledger_run cd (rows w) (rows w2)"
    using strong_get_run [OF g1] read_token_counter_run [OF g2] by (rule ledger_run_trans)
  from call g1 g2 consider "d = R_Retryable"
    | row where "r1 = Inr (Some row)" "w' = w1" "?classify row = Done (d, x)"
    | previous where "commit_verdict db (reserve_decision cd rq g now previous) ?k ?classify (R_Retryable, None) w2 = (Done (d, x), w')"
    by (auto simp: reserve_attempt_def Let_def split: sum.splits option.splits)
  then show ?thesis
  proof cases
    case 1
    then show ?thesis by (simp add: reservation_answer_def)
  next
    case (2 row)
    have "rows w' ?k = Some row" using strong_get_row [OF g1 [unfolded 2(1)]] 2(2) by simp
    then show ?thesis using 2(3) by (rule raced)
  next
    case (3 previous)
    from commit_cases [OF this] consider "d = R_Retryable \<or> d = R_Limit_Exceeded"
      | "commit_ok db (reserve_decision cd rq g now previous) (d, x) w2 w'"
      | row where "rows w' ?k = Some row" "?classify row = Done (d, x)"
      using reserve_decision_settled by blast
    then show ?thesis
    proof cases
      case 1
      then show ?thesis by (auto simp: reservation_answer_def)
    next
      case 2
      then obtain ops t t' where t: "reserve_decision cd rq g now previous = Transact ops (Inr (d, x))"
          "ledger_run cd (rows w2) t" "tx_apply ops t = Some t'" "ledger_run cd t' (rows w')"
        by (rule commit_table)
      have run: "ledger_run cd (rows w) t" using run2 t(2) by (rule ledger_run_trans)
      from reserve_committed [OF t(1,3) ledger_run_facts(1) [OF run key]]
        effect_absent_before [OF run] holds_reservation_run [OF t(4)]
      show ?thesis by (auto simp: reservation_answer_def)
    next
      case 3
      then show ?thesis by (rule raced)
    qed
  qed
qed

lemma reservation_answer_before:
  assumes "ledger_run cd t u" "reservation_answer rq d u t'"
  shows "reservation_answer rq d t t'"
  using assms effect_absent_before unfolding reservation_answer_def by blast

lemma retry_answer:
  assumes run: "\<And>w a w'. attempt w = (a, w') \<Longrightarrow> keyed (rows w) \<Longrightarrow> ledger_run cd (rows w) (rows w')"
    and call: "retry n attempt exhausted w = (Inr x, w')" and key: "keyed (rows w)"
  shows "x = exhausted \<or> (\<exists>u. ledger_run cd (rows w) (rows u) \<and> attempt u = (Done x, w'))"
proof (cases "n < 1")
  case True
  with call show ?thesis by (simp add: retry_def)
next
  case False
  with call have "retry_loop n attempt exhausted w = (Inr x, w')" by (simp add: retry_def)
  from retry_loop_cases [where R = "\<lambda>w w'. keyed (rows w) \<longrightarrow> ledger_run cd (rows w) (rows w')", OF _ _ _ this]
  show ?thesis using run key by (auto intro: ledger_run_trans ledger_run_facts(1))
qed

lemma reserve_allowance_answer:
  assumes call: "reserve_allowance cd db rq at_time generation w = (Inr (d, x), w')" and key: "keyed (rows w)"
    and ok: "week_ok cd (rq_week rq)" "budget_ok (rq_budget rq)"
  shows "reservation_answer rq d (rows w) (rows w')"
proof -
  let ?b = "rq_beneficiary rq" and ?e = "rq_effect rq"
  obtain r1 w1 where g1: "strong_get db (effect_key ?b ?e) w = (r1, w1)" by force
  obtain r2 w2 where g2: "reserve_generation db ?b generation w1 = (r2, w2)" by force
  note run1 = strong_get_run [OF g1] and run2 = reserve_generation_run [OF g2]
  have run02: "ledger_run cd (rows w) (rows w2)" using run1 run2 by (rule ledger_run_trans)
  from call g1 g2 consider "d = R_Limit_Exceeded \<or> d = R_Retryable"
    | row where "r1 = Inr (Some row)" "w' = w1" "classify_reservation cd ?b ?e (reservation_digest cd rq) row = Inr (d, x)"
    | g now where "request_ok cd rq" "r2 = Inr g"
        "retry DEFAULT_ATTEMPTS (reserve_attempt cd db rq g now) (R_Retryable, None) w2 = (Inr (d, x), w')"
    unfolding reserve_allowance_def Let_def
    by (auto split: if_splits moment.splits sum.splits option.splits err.splits simp: request_ok_def ok)
  then show ?thesis
  proof cases
    case 1
    then show ?thesis by (auto simp: reservation_answer_def)
  next
    case (2 row)
    have "rows w' (effect_key ?b ?e) = Some row" using strong_get_row [OF g1 [unfolded 2(1)]] 2(2) by simp
    then show ?thesis using classify_reservation_replayed [OF 2(3)]
      by (auto simp: reservation_answer_def holds_reservation_def)
  next
    case (3 g now)
    have "(d, x) = (R_Retryable, None) \<or>
        (\<exists>u. ledger_run cd (rows w2) (rows u) \<and> reserve_attempt cd db rq g now u = (Done (d, x), w'))"
      by (rule retry_answer [OF _ 3(3) ledger_run_facts(1) [OF run02 key]])
        (use 3(1) reserve_generation_ok [OF g2 [unfolded 3(2)]] in \<open>auto intro: reserve_attempt_run\<close>)
    then show ?thesis
    proof
      assume "(d, x) = (R_Retryable, None)"
      then show ?thesis by (simp add: reservation_answer_def)
    next
      assume "\<exists>u. ledger_run cd (rows w2) (rows u) \<and> reserve_attempt cd db rq g now u = (Done (d, x), w')"
      then obtain u where u: "ledger_run cd (rows w2) (rows u)" "reserve_attempt cd db rq g now u = (Done (d, x), w')"
        by blast
      have run: "ledger_run cd (rows w) (rows u)" using run02 u(1) by (rule ledger_run_trans)
      show ?thesis
        by (rule reservation_answer_before [OF run reserve_attempt_answer [OF u(2) ledger_run_facts(1) [OF run key]]])
    qed
  qed
qed

subsection \<open>Settlements\<close>

lemma classify_finalization_replayed:
  "classify_finalization cd digest row = (F_Replayed, x) \<Longrightarrow> item_get row ''finalization_payload_digest'' = PStr digest"
  "classify_finalization cd digest row = (d, x) \<Longrightarrow> d \<noteq> F_Finalized \<and> d \<noteq> F_Restored"
  by (auto simp: classify_finalization_def split: option.splits if_splits dest: sha256_text_SomeD)

lemma settle_decision_settled: "settle_decision cd st now cur wk c ev = Settled (d, x) \<Longrightarrow> d = F_Invalid_State \<or> d = F_Retryable"
  by (auto simp: settle_decision_def Let_def split: if_splits sum.splits option.splits)

lemma settle_committed:
  assumes dec: "settle_decision cd st now cur wk c ev = Transact ops r"
    and val: "validated_effect cd (st_beneficiary st) (st_effect st) raw = Inr cur"
    and tx: "tx_apply ops t = Some t'"
  shows "holds_settlement cd st t'"
proof -
  let ?k = "effect_key (st_beneficiary st) (st_effect st)"
  from dec obtain fence oper ri ro where
    f: "active_fence_condition (st_beneficiary st) (Some (int_field cur ''account_fence_generation'')) = Inr fence"
    and w: "write_counter cd TOKENS (st_beneficiary st) wk (Some c) (settle_counts st c ev ri ro) [] now = Inr oper"
    and ops: "ops = [fence, put_replace (settle_row_of cd st now cur ev ri ro) (int_field cur ''state_version'') ''observed'', oper]"
    unfolding settle_counts_def settle_row_of_def by (rule settle_decision_TransactD) blast
  have key: "item_key (settle_row_of cd st now cur ev ri ro) = Some ?k"
    unfolding settle_row_of_def by (rule item_key_settled_effect [OF validated_effect_keys(1) [OF val]])
  from active_fence_InrD [OF f] obtain fk fc where "fence = Check fk fc" by blast
  moreover obtain i c where oper: "oper = Put i c" using write_counter_InrD(1) [OF w] by blast
  moreover have "item_key i \<noteq> Some ?k"
    using tx_applyD(1) [OF tx] ops oper key by (auto simp: put_replace_def)
  ultimately have "t' ?k = Some (stored_item (settle_row_of cd st now cur ev ri ro))"
    using tx_applyD(3) [OF tx] ops key by (auto simp: put_replace_def split: option.splits)
  then show ?thesis
    by (auto simp: holds_settlement_def settled_row_at_def settled_row_def settle_row_of_def settled_effect_def
        row_lookup settled_state_def)
qed

definition success :: "finalization_disposition \<Rightarrow> bool" where
  "success d \<longleftrightarrow> d = F_Finalized \<or> d = F_Restored \<or> d = F_Replayed"

lemma settle_attempt_answer:
  assumes call: "settle_attempt cd db st now w = (Done (d, x), w')" and d: "success d"
  shows "holds_settlement cd st (rows w')"
proof -
  let ?b = "st_beneficiary st" and ?e = "st_effect st" and ?digest = "settle_digest cd st"
  obtain r1 w1 where g1: "strong_get db (effect_key ?b ?e) w = (r1, w1)" by force
  have replayed: "holds_settlement cd st (rows u)"
    if "rows u (effect_key ?b ?e) = Some i" "settled_row i" "classify_finalization cd ?digest j = (d, x)"
      "item_get i ''finalization_payload_digest'' = item_get j ''finalization_payload_digest''" for u i j
    using that d classify_finalization_replayed(1) [of ?digest j x] classify_finalization_replayed(2) [of ?digest j d x]
    by (auto simp: holds_settlement_def settled_row_at_def success_def)
  from call g1 d consider raw cur where "r1 = Inr (Some raw)" "validated_effect cd ?b ?e raw = Inr cur" "w' = w1"
      "settled_row cur" "classify_finalization cd ?digest cur = (d, x)"
    | raw cur wk c ev w3 where "r1 = Inr (Some raw)" "validated_effect cd ?b ?e raw = Inr cur"
      "commit_verdict db (settle_decision cd st now cur wk c ev) (effect_key ?b ?e) (classify_settled cd ?digest)
        (F_Retryable, None) w3 = (Done (d, x), w')"
    by (auto simp: settle_attempt_def Let_def success_def bind_eq_Some_conv
        split: sum.splits option.splits if_splits prod.splits)
  then show ?thesis
  proof cases
    case (1 raw cur)
    have "settled_row raw"
      using 1(4) validated_effect_get [OF 1(2), of "''state''"] by (simp add: settled_row_def normalized_fields_def)
    moreover have "rows w' (effect_key ?b ?e) = Some raw" using strong_get_row [OF g1 [unfolded 1(1)]] 1(3) by simp
    moreover have "item_get raw ''finalization_payload_digest'' = item_get cur ''finalization_payload_digest''"
      using validated_effect_get [OF 1(2), of "''finalization_payload_digest''"] by (simp add: normalized_fields_def)
    ultimately show ?thesis using 1(5) replayed by blast
  next
    case (2 raw cur wk c ev w3)
    from commit_cases [OF 2(3)] d consider
        "commit_ok db (settle_decision cd st now cur wk c ev) (d, x) w3 w'"
      | row where "rows w' (effect_key ?b ?e) = Some row" "classify_settled cd ?digest row = Done (d, x)"
      using settle_decision_settled by (fastforce simp: success_def)
    then show ?thesis
    proof cases
      case 1
      then obtain ops t t' where "settle_decision cd st now cur wk c ev = Transact ops (Inr (d, x))"
          "tx_apply ops t = Some t'" "ledger_run cd t' (rows w')" by (rule commit_table)
      with settle_committed [OF _ 2(2)] holds_settlement_run show ?thesis by blast
    next
      case (2 row)
      then have "settled_row row" "classify_finalization cd ?digest row = (d, x)"
        by (auto simp: classify_settled_def split: if_splits)
      with 2(1) replayed show ?thesis by blast
    qed
  qed
qed

lemma complete_allowance_answer:
  assumes call: "complete_allowance cd db st at_time w = (Inr (d, x), w')" and key: "keyed (rows w)" and d: "success d"
  shows "holds_settlement cd st (rows w')"
proof -
  from call obtain now where ok: "settle_ok st"
    and r: "retry DEFAULT_ATTEMPTS (settle_attempt cd db st now) (F_Retryable, None) w = (Inr (d, x), w')"
    unfolding complete_allowance_def by (auto split: if_splits moment.splits simp: settle_ok_def)
  have "(d, x) = (F_Retryable, None) \<or> (\<exists>u. ledger_run cd (rows w) (rows u) \<and> settle_attempt cd db st now u = (Done (d, x), w'))"
    by (rule retry_answer [OF _ r key]) (auto intro: settle_attempt_run ok)
  with d settle_attempt_answer show ?thesis by (auto simp: success_def)
qed

subsection \<open>Provider usage\<close>

lemma classify_provider_replayed:
  "classify_provider_evidence cd digest row = (P_Replayed, x) \<Longrightarrow> item_get row ''provider_payload_digest'' = PStr digest"
  "classify_provider_evidence cd digest row = (d, x) \<Longrightarrow> d \<noteq> P_Recorded"
  by (auto simp: classify_provider_evidence_def split: option.splits if_splits dest: sha256_text_SomeD)

lemma record_decision_settled: "record_decision cd us now cur wk c = Settled (d, x) \<Longrightarrow> d = P_Retryable"
  by (auto simp: record_decision_def Let_def split: if_splits sum.splits)

lemma record_committed:
  assumes dec: "record_decision cd us now cur wk c = Transact ops r"
    and val: "validated_effect cd (us_beneficiary us) (us_effect us) raw = Inr cur"
    and tx: "tx_apply ops t = Some t'"
  shows "t' (usage_evidence_key cd us) = Some (stored_item (evidence_item cd us now cur))"
proof -
  from dec obtain fence oper where
    f: "active_fence_condition (us_beneficiary us) (Some (int_field cur ''account_fence_generation'')) = Inr fence"
    and w: "write_counter cd TOKENS (us_beneficiary us) wk (Some c) (record_counts us c) [] now = Inr oper"
    and ops: "ops = [fence, put_create (evidence_item cd us now cur),
       put_replace (observed_effect cd us now cur) (int_field cur ''state_version'') ''reserved'', oper]"
    unfolding record_counts_def by (rule record_decision_TransactD)
  note key = item_key_observed_effect [OF validated_effect_keys(1) [OF val]]
  from active_fence_InrD [OF f] obtain fk fc where "fence = Check fk fc" by blast
  moreover obtain i c' where oper: "oper = Put i c'" using write_counter_InrD(1) [OF w] by blast
  moreover have "item_key i \<noteq> Some (usage_evidence_key cd us)"
    using tx_applyD(1) [OF tx] ops oper by (auto simp: put_create_def put_replace_def)
  ultimately show ?thesis
    using tx_applyD(3) [OF tx] ops key
    by (auto simp: put_create_def put_replace_def usage_evidence_key_def split: option.splits)
qed

definition recorded :: "usage_disposition \<Rightarrow> bool" where
  "recorded d \<longleftrightarrow> d = P_Recorded \<or> d = P_Replayed"

lemma record_attempt_answer:
  assumes call: "record_attempt cd db us now w = (Done (d, x), w')" and key: "keyed (rows w)" and d: "recorded d"
  shows "holds_usage cd us (rows w')"
proof -
  let ?b = "us_beneficiary us" and ?e = "us_effect us" and ?digest = "usage_digest cd us"
  obtain r1 w1 where g1: "strong_get db (effect_key ?b ?e) w = (r1, w1)" by force
  note run1 = strong_get_run [OF g1]
  have replayed: "holds_usage cd us (rows u)"
    if "rows u (usage_evidence_key cd us) = Some i" "classify_provider_evidence cd ?digest i = (d, x)" for u i
    using that d classify_provider_replayed [of ?digest i] by (auto simp: holds_usage_def recorded_def)
  from call g1 d consider row where "strong_get db (usage_evidence_key cd us) w1 = (Inr (Some row), w')"
      "classify_provider_evidence cd ?digest row = (d, x)"
    | raw cur wk c w2 where "r1 = Inr (Some raw)" "validated_effect cd ?b ?e raw = Inr cur"
      "read_token_counter cd db ?b wk w1 = (Inr (Some c), w2)"
      "commit_verdict db (record_decision cd us now cur wk c) (usage_evidence_key cd us)
        (\<lambda>row. Done (classify_provider_evidence cd ?digest row)) (P_Retryable, None) w2 = (Done (d, x), w')"
    by (auto simp: record_attempt_def Let_def recorded_def split: sum.splits option.splits if_splits prod.splits)
  then show ?thesis
  proof cases
    case (1 row)
    with strong_get_row [OF 1(1)] replayed show ?thesis by blast
  next
    case (2 raw cur wk c w2)
    have run2: "ledger_run cd (rows w) (rows w2)"
      using run1 read_token_counter_run [OF 2(3)] by (rule ledger_run_trans)
    from commit_cases [OF 2(4)] d consider
        "commit_ok db (record_decision cd us now cur wk c) (d, x) w2 w'"
      | row where "rows w' (usage_evidence_key cd us) = Some row" "classify_provider_evidence cd ?digest row = (d, x)"
      using record_decision_settled by (fastforce simp: recorded_def)
    then show ?thesis
    proof cases
      case 1
      then obtain ops t t' where t: "record_decision cd us now cur wk c = Transact ops (Inr (d, x))"
          "ledger_run cd (rows w2) t" "tx_apply ops t = Some t'" "ledger_run cd t' (rows w')" by (rule commit_table)
      have keyt: "keyed t" by (rule ledger_run_facts(1) [OF t(2) ledger_run_facts(1) [OF run2 key]])
      from record_committed [OF t(1) 2(2) t(3)] have "holds_usage cd us t'"
        by (simp add: holds_usage_def evidence_item_def row_lookup)
      moreover have "rows w' (usage_evidence_key cd us) = t' (usage_evidence_key cd us)" if "keyed t'"
        using ledger_run_facts(2) [OF t(4) that] record_committed [OF t(1) 2(2) t(3)]
          evidence_key_kind(1,3) [of ?b "evidence_id cd ?e"]
        unfolding forward_def usage_evidence_key_def by metis
      moreover have "keyed t'"
      proof -
        from t(1) obtain fence oper where
          f: "active_fence_condition ?b (Some (int_field cur ''account_fence_generation'')) = Inr fence"
          and w: "write_counter cd TOKENS ?b wk (Some c) (record_counts us c) [] now = Inr oper"
          and ops: "ops = [fence, put_create (evidence_item cd us now cur),
             put_replace (observed_effect cd us now cur) (int_field cur ''state_version'') ''reserved'', oper]"
          unfolding record_counts_def by (rule record_decision_TransactD)
        from active_fence_InrD [OF f] obtain fk fc where "fence = Check fk fc" by blast
        moreover note item_key_observed_effect [OF validated_effect_keys(1) [OF 2(2)], of cd us now]
          token_put [OF w counter_on_from_table [OF read_token_counter_row [OF 2(3)]]]
        ultimately show ?thesis
          unfolding tx_applyD(3) [OF t(3)] ops using keyt
          by (simp add: put_create_def put_replace_def keyed_upd del: fun_upd_apply)
      qed
      ultimately show ?thesis by (simp add: holds_usage_def)
    next
      case (2 row)
      with replayed show ?thesis by blast
    qed
  qed
qed

lemma record_usage_answer:
  assumes call: "record_usage cd db us at_time w = (Inr (d, x), w')" and key: "keyed (rows w)" and d: "recorded d"
  shows "holds_usage cd us (rows w')"
proof -
  obtain r1 w1 where g1: "strong_get db (usage_evidence_key cd us) w = (r1, w1)" by force
  note key1 = ledger_run_facts(1) [OF strong_get_run [OF g1] key]
  from call g1 d consider row where "r1 = Inr (Some row)" "w' = w1"
      "classify_provider_evidence cd (usage_digest cd us) row = (d, x)"
    | now where "usage_ok us"
        "retry DEFAULT_ATTEMPTS (record_attempt cd db us now) (P_Retryable, None) w1 = (Inr (d, x), w')"
    unfolding record_usage_def
    by (auto split: if_splits moment.splits sum.splits option.splits simp: usage_ok_def recorded_def)
  then show ?thesis
  proof cases
    case (1 row)
    have "rows w' (usage_evidence_key cd us) = Some row" using strong_get_row [OF g1 [unfolded 1(1)]] 1(2) by simp
    with 1(3) d classify_provider_replayed show ?thesis by (fastforce simp: holds_usage_def recorded_def)
  next
    case (2 now)
    have "(d, x) = (P_Retryable, None) \<or>
        (\<exists>u. ledger_run cd (rows w1) (rows u) \<and> record_attempt cd db us now u = (Done (d, x), w'))"
      by (rule retry_answer [OF _ 2(2) key1]) (auto intro: record_attempt_run 2(1))
    with d record_attempt_answer ledger_run_facts(1) [OF _ key1] show ?thesis by (auto simp: recorded_def)
  qed
qed

text \<open>A released reservation is settled, by this release or by another delivery of it.\<close>

lemma release_restored_answer:
  "release_restored cd db b e at_time w = (Inr L_Released, w') \<Longrightarrow> keyed (rows w)
     \<Longrightarrow> holds_settlement cd (undelivered b e) (rows w')"
  by (auto simp: release_restored_def success_def split: prod.splits sum.splits if_splits
      dest!: complete_allowance_answer)

lemma release_unknown_cost_answer:
  assumes call: "release_unknown_cost cd db b e at_time w = (Inr L_Released, w')" and key: "keyed (rows w)"
  shows "holds_settlement cd (undelivered b e) (rows w')"
proof -
  obtain r1 w1 where g1: "strong_get db (effect_key b e) w = (r1, w1)" by force
  note key1 = ledger_run_facts(1) [OF strong_get_run [OF g1] key]
  from call g1 consider us r2 w2 where "record_usage cd db us at_time w1 = (r2, w2)"
      "release_restored cd db b e at_time w2 = (Inr L_Released, w')"
    | "release_restored cd db b e at_time w1 = (Inr L_Released, w')"
    unfolding release_unknown_cost_def
    by (auto split: if_splits moment.splits sum.splits option.splits prod.splits)
  then show ?thesis
    by cases (auto intro: release_restored_answer key1 ledger_run_facts(1) [OF record_usage_run])
qed

end

end
