(* ===== verification/Ledger_Quiet.thy ===== *)
theory Ledger_Quiet
  imports Ledger_Outcome
begin

text \<open>
  The ledger on a table that nobody else uses: there each command does what it is for. A request
  within the budget is granted, a reported usage is recorded, a delivered result is debited; the
  refinement of \<open>Ledger_Client\<close> alone would also be met by functions that never commit.
\<close>

section \<open>An undisturbed table\<close>

abbreviation quiet :: "table \<Rightarrow> 'c world" where
  "quiet t \<equiv> \<lparr>tbl = t, script = []\<rparr>"

lemma quiet_get: "strong_get (world_db act) k (quiet t) = (Inr (t k), quiet t)"
  by (simp add: strong_get_def world_db_def world_get_def next_event_def split: option.split)

lemma quiet_tx: "tx_apply ops t = Some t' \<Longrightarrow> db_tx (world_db act) ops (quiet t) = (True, quiet t')"
  by (simp add: world_db_def world_tx_def next_event_def)

lemma quiet_read_counter:
  "counter_on cd b wk t = Some previous \<Longrightarrow>
     read_token_counter cd (world_db act) b wk (quiet t) = (Inr previous, quiet t)"
  by (auto simp: read_token_counter_def quiet_get counter_on_def split: option.splits)

lemma as_stored_exact: "exact_int v = Some n \<Longrightarrow> as_stored v = PDec (of_int n)"
  by (cases v) (auto dest: rat_whole_SomeD)

lemma version_condition_holds:
  assumes "counter_on cd b wk t = Some previous"
  shows "cond_holds (version_condition previous) (row_at t (counter_key TOKENS b wk))"
proof (cases previous)
  case None
  with assms show ?thesis by (auto simp: counter_on_def version_condition_def row_at_def split: option.splits)
next
  case (Some c)
  with assms obtain row where row: "t (counter_key TOKENS b wk) = Some row" "parse_counter cd b wk row = Some c"
    by (auto elim: counter_on_SomeD)
  from row(2) obtain c0 bi bo av gen p where "validate cd TOKENS row b wk = Some c0"
    "c = c0\<lparr>c_item := c_item c0 ++ dict_of [(''budget_input_tokens'', PInt bi), (''budget_output_tokens'', PInt bo),
        (''allowance_version'', PInt av), (''account_fence_generation'', PInt gen), (''plan_id'', PStr p)]\<rparr>"
    by (rule parse_counter_SomeD)
  with validate_SomeD(3) [OF this(1) kind_wf_TOKENS]
  have "as_stored (item_get row ''state_version'') = PDec (of_int (c_version c))"
    by (simp add: as_stored_exact whole_in_range_SomeD(1))
  then show ?thesis
    unfolding Some version_condition_def option.case
    by (subst cond_eq_get) (simp_all add: row_at_def row)
qed

lemma fence_key_apart [simp]: "ledger_key k \<Longrightarrow> (''USER#'' @ s, x) \<noteq> k"
  by (auto simp: ledger_key_def)

text \<open>A transaction of a fence check and puts, each under a condition that holds, is applied.\<close>

lemma fenced_tx:
  assumes "op_ok t (Check (''USER#'' @ s, x) c)"
    and "\<forall>p \<in> set puts. op_ok t p \<and> (case op_key p of Some k \<Rightarrow> ledger_key k | None \<Rightarrow> False)" "distinct (map op_key puts)"
  shows "tx_apply (Check (''USER#'' @ s, x) c # puts) t = Some (fold op_write puts t)"
proof -
  have "op_key p \<noteq> Some (''USER#'' @ s, x)" if "p \<in> set puts" for p
  proof (cases "op_key p")
    case (Some k)
    with bspec [OF assms(2) that] have "ledger_key k" by simp
    with Some fence_key_apart [of k s x] show ?thesis by simp
  qed simp
  then have "Some (''USER#'' @ s, x) \<notin> op_key ` set puts" by (metis imageE)
  with assms show ?thesis by (auto simp: tx_apply_def list_all_iff)
qed

lemma write_counter_Inr:
  assumes "list_all (\<lambda>(f, n). f \<in> set (count_fields kind)) counts"
    and "list_all (\<lambda>(f, n). 0 \<le> n \<and> n \<le> MAX_EXACT_COUNT) counts"
    and "\<not> list_ex (\<lambda>(f, v). f \<in> set (reserved_fields kind)) extra"
  shows "write_counter cd kind scope wk previous counts extra now
    = Inr (Put (written_row cd kind scope wk previous counts extra now) (version_condition previous))"
  using assms by (simp add: write_counter_def)

lemma retry_Done: "attempt w = (Done x, w') \<Longrightarrow> retry DEFAULT_ATTEMPTS attempt exhausted w = (Inr x, w')"
  by (simp add: retry_def DEFAULT_ATTEMPTS_def eval_nat_numeral)

definition granted :: "reserve_request \<Rightarrow> int \<Rightarrow> reservation" where
  "granted rq version = \<lparr>res_id = rq_effect rq, res_effect = rq_effect rq, res_beneficiary = rq_beneficiary rq,
     res_plan = plan_id (rq_budget rq), res_version = allowance_version (rq_budget rq), res_week = rq_week rq,
     res_input = rq_input rq, res_output = rq_output rq, res_state_version = version,
     res_expires = Aware (window_end (rq_week rq))\<rparr>"

context codec_laws
begin

lemma reserved_effect_reads:
  assumes "request_ok cd rq" "1 \<le> v" "v \<le> MAX_EXACT_COUNT"
  shows "reservation_from_effect cd (reserved_effect cd rq g now v) = Some (granted rq v)"
proof -
  note wk = week_okD [of cd "rq_week rq"] and bud = budget_okD [of "rq_budget rq"]
  have "week_field cd (iso_year (rq_week rq)) (iso_week (rq_week rq)) (PStr (iso cd (window_start (rq_week rq))))
      (PStr (iso cd (window_end (rq_week rq)))) = Some (rq_week rq)"
    using assms(1) by (simp add: week_field_def parse_iso request_ok_def week_ok_def)
  moreover from assms(1) obtain u where u: "required_text 200 (PStr (rq_beneficiary rq)) = Some u"
    by (auto simp: request_ok_def)
  with required_text_SomeD(1) [OF u] opaque_text_required [OF u] have "opaque_text (PStr (rq_beneficiary rq)) = Some (rq_beneficiary rq)"
    by simp
  moreover have "1 \<le> iso_year (rq_week rq)" "iso_year (rq_week rq) \<le> MAX_EXACT_COUNT"
      "1 \<le> iso_week (rq_week rq)" "iso_week (rq_week rq) \<le> MAX_EXACT_COUNT"
    using assms(1) wk by (auto simp: request_ok_def MAX_EXACT_COUNT_def)
  moreover have "opaque_text (PStr (rq_effect rq)) = Some (rq_effect rq)"
    using assms(1) by (simp add: request_ok_def opaque_text_sha)
  ultimately show ?thesis
    using assms bud
    by (simp add: reservation_from_effect_def reserved_effect_def Let_def row_lookup granted_def
        request_ok_def exact_count_def plan_field_def parse_iso)
qed

end

section \<open>A reservation within the budget is granted\<close>

definition reserve_room :: "reserve_request \<Rightarrow> counter option \<Rightarrow> bool" where
  "reserve_room rq previous \<longleftrightarrow>
     prior_count previous ''finalized_input_tokens'' + prior_count previous ''reserved_input_tokens'' + rq_input rq
       \<le> budget_input (rq_budget rq)
     \<and> prior_count previous ''finalized_output_tokens'' + prior_count previous ''reserved_output_tokens'' + rq_output rq
       \<le> budget_output (rq_budget rq)
     \<and> (\<forall>c. previous = Some c \<longrightarrow> \<not> budget_conflict (rq_budget rq) c)
     \<and> next_version previous \<le> MAX_EXACT_COUNT"

lemma prior_nonneg: "from_table cd TOKENS b wk previous \<Longrightarrow> f \<in> set (count_fields TOKENS) \<Longrightarrow> 0 \<le> prior_count previous f"
  using tokens.previous_count by blast

lemma reserve_decision_room:
  assumes ok: "request_ok cd rq" and g: "1 \<le> g" and room: "reserve_room rq previous"
    and ft: "from_table cd TOKENS (rq_beneficiary rq) (rq_week rq) previous"
    and fence: "active_fence_condition (rq_beneficiary rq) (Some g) = Inr f"
  shows "reserve_decision cd rq g now previous = Transact
    [f, put_create (reserved_effect cd rq g now (next_version previous)),
     Put (token_row cd (rq_beneficiary rq) (rq_week rq) previous (reserve_counts rq previous) (reserve_fields rq g) now)
       (version_condition previous)]
    (result_of R_Admitted (reservation_from_effect cd (reserved_effect cd rq g now (next_version previous))))"
proof -
  have tokens: "''reserved_input_tokens'' \<in> set (count_fields TOKENS)" "''reserved_output_tokens'' \<in> set (count_fields TOKENS)"
      "''finalized_input_tokens'' \<in> set (count_fields TOKENS)" "''finalized_output_tokens'' \<in> set (count_fields TOKENS)"
    by (simp_all add: TOKENS_def)
  note nn = prior_nonneg [OF ft]
  have req: "0 \<le> rq_input rq" "0 \<le> rq_output rq" "budget_ok (rq_budget rq)"
    using ok by (auto simp: request_ok_def exact_count_def)
  note bud = budget_okD(3,4) [OF req(3)]
  have "write_counter cd TOKENS (rq_beneficiary rq) (rq_week rq) previous (reserve_counts rq previous) (reserve_fields rq g) now
    = Inr (Put (token_row cd (rq_beneficiary rq) (rq_week rq) previous (reserve_counts rq previous) (reserve_fields rq g) now)
       (version_condition previous))"
  proof (rule write_counter_Inr)
    show "list_all (\<lambda>(f, n). f \<in> set (count_fields TOKENS)) (reserve_counts rq previous)"
      by (simp add: reserve_counts_def tokens)
    show "list_all (\<lambda>(f, n). 0 \<le> n \<and> n \<le> MAX_EXACT_COUNT) (reserve_counts rq previous)"
      using nn [OF tokens(1)] nn [OF tokens(2)] nn [OF tokens(3)] nn [OF tokens(4)] req bud room
      by (simp add: reserve_counts_def reserve_room_def)
    show "\<not> list_ex (\<lambda>(f, v). f \<in> set (reserved_fields TOKENS)) (reserve_fields rq g)"
      by (simp add: reserve_fields_def reserved_fields_def TOKENS_def)
  qed
  moreover have "\<not> MAX_EXACT_COUNT < prior_count previous ''finalized_input_tokens'' + prior_count previous ''reserved_input_tokens''"
      "\<not> MAX_EXACT_COUNT < prior_count previous ''finalized_output_tokens'' + prior_count previous ''reserved_output_tokens''"
    using req bud room by (simp_all add: reserve_room_def)
  ultimately show ?thesis
    using room fence
    by (auto simp: reserve_decision_def Let_def reserve_room_def reserve_counts_def reserve_fields_def split: option.split)
qed

text \<open>What a granted reservation leaves: the effect, and the counter's next version.\<close>

definition reserved_table :: "codec \<Rightarrow> reserve_request \<Rightarrow> int \<Rightarrow> int \<Rightarrow> counter option \<Rightarrow> table \<Rightarrow> table" where
  "reserved_table cd rq g now previous t =
     t(effect_key (rq_beneficiary rq) (rq_effect rq) \<mapsto> stored_item (reserved_effect cd rq g now (next_version previous)),
       counter_key TOKENS (rq_beneficiary rq) (rq_week rq) \<mapsto>
         stored_item (token_row cd (rq_beneficiary rq) (rq_week rq) previous (reserve_counts rq previous) (reserve_fields rq g) now))"

context codec_laws
begin

lemma reserve_quiet:
  assumes ok: "request_ok cd rq" and key: "keyed t"
    and fence: "fence_active t (rq_beneficiary rq) g" "1 \<le> g" "g \<le> MAX_EXACT_COUNT"
    and new: "t (effect_key (rq_beneficiary rq) (rq_effect rq)) = None"
    and cnt: "counter_on cd (rq_beneficiary rq) (rq_week rq) t = Some previous" and room: "reserve_room rq previous"
  shows "reserve_allowance cd (world_db act) rq (Aware now) (Some g) (quiet t) =
    (Inr (R_Admitted, Some (granted rq (next_version previous))), quiet (reserved_table cd rq g now previous t))"
proof -
  let ?b = "rq_beneficiary rq" and ?e = "rq_effect rq" and ?wk = "rq_week rq"
  note ft = counter_on_from_table [OF cnt]
  have b: "strip ?b = ?b" "?b \<noteq> []"
    using ok by (auto simp: request_ok_def required_text_def split: if_splits)
  from fence(1,2) obtain c where f: "active_fence_condition ?b (Some g) = Inr (Check (''USER#'' @ strip ?b, ''ACCOUNT_FENCE'') c)"
      "op_ok t (Check (''USER#'' @ strip ?b, ''ACCOUNT_FENCE'') c)"
    by (rule fence_condition_holds) (use b in simp_all)
  let ?eff = "reserved_effect cd rq g now (next_version previous)"
  let ?row = "token_row cd ?b ?wk previous (reserve_counts rq previous) (reserve_fields rq g) now"
  have rowkey: "item_key ?row = Some (counter_key TOKENS ?b ?wk)"
    using reserve_decision_room [OF ok fence(2) room ft f(1)] by (rule reserve_decision_TransactD) (use ft in \<open>auto simp: reserve_counts_def reserve_fields_def dest: token_put(2)\<close>)
  have "1 \<le> next_version previous"
    using ft by (auto simp: next_version_def from_table_def counter_ok_def split: option.splits)
  then have reads: "reservation_from_effect cd ?eff = Some (granted rq (next_version previous))"
    using room by (intro reserved_effect_reads ok) (simp_all add: reserve_room_def)
  have "tx_apply [Check (''USER#'' @ strip ?b, ''ACCOUNT_FENCE'') c, put_create ?eff, Put ?row (version_condition previous)] t
      = Some (fold op_write [put_create ?eff, Put ?row (version_condition previous)] t)"
    using f(2)
  proof (rule fenced_tx)
    have "op_ok t (put_create ?eff)"
      using keyed_create_only [OF key] new by (simp add: put_create_def op_ok_def del: cond_holds.simps)
    moreover have "op_ok t (Put ?row (version_condition previous))"
      using version_condition_holds [OF cnt] rowkey by (simp add: op_ok_Put)
    ultimately show "\<forall>p \<in> set [put_create ?eff, Put ?row (version_condition previous)]. op_ok t p \<and> (case op_key p of Some k \<Rightarrow> ledger_key k | None \<Rightarrow> False)"
      by (simp add: put_create_def rowkey)
    show "distinct (map op_key [put_create ?eff, Put ?row (version_condition previous)])"
      by (simp add: put_create_def rowkey)
  qed
  then have "tx_apply [Check (''USER#'' @ strip ?b, ''ACCOUNT_FENCE'') c, put_create ?eff, Put ?row (version_condition previous)] t
      = Some (reserved_table cd rq g now previous t)"
    by (simp add: put_create_def rowkey reserved_table_def)
  with f(1) obtain fop where fop: "active_fence_condition ?b (Some g) = Inr fop"
    and tx: "tx_apply [fop, put_create ?eff, Put ?row (version_condition previous)] t = Some (reserved_table cd rq g now previous t)"
    by blast
  note dec = reserve_decision_room [OF ok fence(2) room ft fop, of now]
  have "reserve_attempt cd (world_db act) rq g now (quiet t)
      = (Done (R_Admitted, Some (granted rq (next_version previous))), quiet (reserved_table cd rq g now previous t))"
    by (simp add: reserve_attempt_def Let_def quiet_get new quiet_read_counter [OF cnt] dec commit_verdict_def
        quiet_tx [OF tx] settle_row_def result_of_def reads)
  then have attempt: "retry DEFAULT_ATTEMPTS (reserve_attempt cd (world_db act) rq g now) (R_Retryable, None) (quiet t)
      = (Inr (R_Admitted, Some (granted rq (next_version previous))), quiet (reserved_table cd rq g now previous t))"
    by (rule retry_Done)
  have within: "\<not> (budget_input (rq_budget rq) < rq_input rq \<or> budget_output (rq_budget rq) < rq_output rq)"
  proof -
    have "0 \<le> prior_count previous f" if "f \<in> set (count_fields TOKENS)" for f
      using ft that by (rule prior_nonneg)
    from this [of "''finalized_input_tokens''"] this [of "''reserved_input_tokens''"]
      this [of "''finalized_output_tokens''"] this [of "''reserved_output_tokens''"] room
    show ?thesis by (simp add: reserve_room_def TOKENS_def)
  qed
  have gen: "reserve_generation (world_db act) ?b (Some g) (quiet t) = (Inr g, quiet t)"
    using fence by (simp add: reserve_generation_def exact_count_def)
  have valid: "\<not> (required_text 200 (PStr ?b) = None \<or> sha256_text (PStr ?e) = None
         \<or> \<not> exact_count False (rq_input rq) \<or> \<not> exact_count False (rq_output rq)
         \<or> rq_input rq + rq_output rq = 0)"
    using ok by (simp add: request_ok_def)
  show ?thesis
    unfolding reserve_allowance_def Let_def if_not_P [OF valid] moment.case if_not_P [OF within]
    by (simp only: quiet_get new gen attempt prod.case sum.case option.case)
qed

end

end
