(* ===== verification/Ledger_Accept.thy ===== *)
theory Ledger_Accept
  imports Ledger_Quiet
begin

text \<open>
  The ledger accepts what it wrote: a counter or an effect that one of its commands put is validated
  again by the next, so on an undisturbed table a reservation can be recorded and settled, and the
  counter ends where the life of the effect says it must.
\<close>

text \<open>A row as the table gives it back: every value in stored form.\<close>

definition db_row :: "item \<Rightarrow> bool" where
  "db_row i \<longleftrightarrow> (\<forall>a. as_stored (item_get i a) = item_get i a)"

lemma db_row_stored [simp]: "db_row (stored_item i)"
  by (simp add: db_row_def item_get_stored)

lemma unhashable_stored [simp]: "unhashable (as_stored v) = unhashable v"
  by (cases v) simp_all

lemma stored_PInt [simp]: "whole_in_range p (PDec (of_int n)) = whole_in_range p (PInt n)"
  by (simp add: whole_in_range_def)

lemma stored_one [simp]: "whole_in_range p (PDec 1) = Some 1"
  using stored_PInt [of p 1] by (simp add: MAX_EXACT_COUNT_def)

lemma token_row_accepted:
  assumes "written_row cd TOKENS b wk previous counts extra now = row"
    and "write_counter cd TOKENS b wk previous counts extra now = Inr oper"
    and "from_table cd TOKENS b wk previous" and "next_version previous \<le> MAX_EXACT_COUNT" and "ledger_fields_ok row"
  shows "\<exists>c. parse_counter cd b wk (stored_item row) = Some c \<and> c_version c = next_version previous
    \<and> (\<forall>f \<in> set (count_fields TOKENS). count c f = new_count previous counts f)"
proof -
  from tokens.write_reads_back [OF assms(2-4)] assms(1) obtain c0 where
    "validate cd TOKENS (stored_item row) b wk = Some c0" "c_version c0 = next_version previous"
    "\<forall>f \<in> set (count_fields TOKENS). count c0 f = new_count previous counts f"
    by (auto simp: reads_back_def)
  with parse_counter_total [OF this(1) ledger_fields_stored [OF assms(5)]] show ?thesis by auto
qed

lemma ledger_field_names:
  "a \<in> set positive_fields \<union> {''plan_id'', ''created_at''} \<Longrightarrow> a \<noteq> ''updated_at'' \<and> a \<noteq> ''state_version''
     \<and> a \<notin> set (count_fields TOKENS)"
  by (auto simp: positive_fields_def TOKENS_def)

context codec_laws
begin

lemma kept_fields_ok:
  assumes "ledger_fields_ok (c_item c)" "fst ` set counts \<subseteq> set (count_fields TOKENS)" "datetime_range now"
  shows "ledger_fields_ok (token_row cd b wk (Some c) counts [] now)"
proof -
  have same: "item_get (token_row cd b wk (Some c) counts [] now) a = item_get (c_item c) a"
    if "a \<in> set positive_fields \<union> {''plan_id'', ''created_at''}" for a
  proof -
    have "map_of counts a = None"
      using ledger_field_names [OF that] assms(2) by (auto simp: map_of_eq_None_iff)
    with ledger_field_names [OF that] show ?thesis by (simp add: tokens.written_get previous_row_def)
  qed
  have "item_get (token_row cd b wk (Some c) counts [] now) ''updated_at'' = PStr (iso cd now)"
    by (simp add: tokens.written_get)
  with assms(1) same iso_text [OF assms(3)] show ?thesis by (simp add: ledger_fields_ok_def)
qed

lemma sha256_evidence: "sha256_text (PStr (evidence_id cd e)) = Some (evidence_id cd e)"
  unfolding evidence_id_def by (rule sha256_text_sha256)

lemma fresh_created_at:
  "item_get (fresh_row cd TOKENS b wk now) ''created_at'' = PStr (iso cd now)"
  by (simp add: fresh_row_def item_get_def dict_of_def TOKENS_def counter_key_def)

lemma reserved_fields_ok:
  assumes "request_ok cd rq" "1 \<le> g" "g \<le> MAX_EXACT_COUNT" "datetime_range now"
    and "\<And>c. previous = Some c \<Longrightarrow> ledger_fields_ok (c_item c)"
  shows "ledger_fields_ok (token_row cd b wk previous (reserve_counts rq previous) (reserve_fields rq g) now)"
proof -
  let ?row = "token_row cd b wk previous (reserve_counts rq previous) (reserve_fields rq g) now"
  have bud: "budget_ok (rq_budget rq)" using assms(1) by (simp add: request_ok_def)
  have "item_get ?row ''budget_input_tokens'' = PInt (budget_input (rq_budget rq))"
      "item_get ?row ''budget_output_tokens'' = PInt (budget_output (rq_budget rq))"
      "item_get ?row ''allowance_version'' = PInt (allowance_version (rq_budget rq))"
      "item_get ?row ''account_fence_generation'' = PInt g"
      "item_get ?row ''plan_id'' = PStr (plan_text (plan_id (rq_budget rq)))"
      "item_get ?row ''updated_at'' = PStr (iso cd now)"
    by (simp_all add: tokens.written_get reserve_counts_def reserve_fields_def)
  moreover have "item_get ?row ''created_at'' = item_get (previous_row cd TOKENS b wk previous now) ''created_at''"
    by (simp add: tokens.written_get reserve_counts_def reserve_fields_def)
  moreover have "required_text 200 (item_get (previous_row cd TOKENS b wk previous now) ''created_at'') \<noteq> None"
    using assms(5) iso_text [OF assms(4)]
    by (cases previous) (auto simp: previous_row_def fresh_created_at ledger_fields_ok_def)
  ultimately show ?thesis
    using budget_okD [OF bud] assms(2,3) iso_text [OF assms(4)]
    by (auto simp: ledger_fields_ok_def positive_fields_def)
qed

lemma reserved_effect_accepted:
  assumes ok: "request_ok cd rq" and v: "1 \<le> v" "v \<le> MAX_EXACT_COUNT" and g: "1 \<le> g" "g \<le> MAX_EXACT_COUNT"
  obtains cur where "validated_effect cd (rq_beneficiary rq) (rq_effect rq) (stored_item (reserved_effect cd rq g now v)) = Inr cur"
    "item_get cur ''state'' = PStr ''reserved''" "effect_week cd cur = Some (rq_week rq)"
    "int_field cur ''state_version'' = 1" "int_field cur ''account_fence_generation'' = g"
    "\<And>d. whole_in_range False (item_get cur (reservation_field d)) = Some (requested rq d)"
proof -
  let ?eff = "reserved_effect cd rq g now v" and ?wk = "rq_week rq"
  let ?cur = "stored_item ?eff ++ dict_of [(''state_version'', PInt 1), (''account_fence_generation'', PInt g),
        (''iso_year'', PInt (iso_year ?wk)), (''iso_week'', PInt (iso_week ?wk))]"
  note wk = week_okD [of cd ?wk]
  have weekok: "week_ok cd ?wk" using ok by (simp add: request_ok_def)
  have get: "item_get ?eff ''state_version'' = PInt 1" "item_get ?eff ''account_fence_generation'' = PInt g"
      "item_get ?eff ''iso_year'' = PInt (iso_year ?wk)" "item_get ?eff ''iso_week'' = PInt (iso_week ?wk)"
      "item_get ?eff ''state'' = PStr ''reserved''" "item_get ?eff ''week_identity'' = PStr (week_identity ?wk)"
      "item_get ?eff ''window_start'' = PStr (iso cd (window_start ?wk))"
      "item_get ?eff ''window_end'' = PStr (iso cd (window_end ?wk))"
      "item_get ?eff ''reservation_payload_digest'' = PStr (reservation_digest cd rq)"
    by (simp_all add: reserved_effect_def Let_def row_lookup)
  have norm: "normalized_effect (stored_item ?eff) = Some ?cur"
    using wk [OF weekok] g
    by (simp add: normalized_effect_def item_get_stored get) (simp add: MAX_EXACT_COUNT_def)
  have head: "effect_header_ok (rq_beneficiary rq) (rq_effect rq) (stored_item ?eff)"
    by (simp add: effect_header_ok_def reserved_effect_def Let_def row_lookup)
  have "reservation_from_effect cd ?eff = Some (granted rq v)" using ok v by (rule reserved_effect_reads)
  moreover have "item_get ?cur a = (if a \<in> set normalized_fields then item_get ?eff a else as_stored (item_get ?eff a))" for a
    by (auto simp: normalized_fields_def row_lookup get)
  ultimately have "reservation_from_effect cd ?cur = Some (granted rq v)"
    using v by (simp add: reservation_from_effect_def normalized_fields_def reserved_effect_def Let_def row_lookup
      bind_eq_Some_conv)
  then have "validated_effect cd (rq_beneficiary rq) (rq_effect rq) (stored_item ?eff) = Inr ?cur"
    using head sha256_shape
    by (simp add: validated_effect_def norm effect_state_ok_def effect_states_def item_get_stored get
        reservation_digest_def payload_digest_def)
  moreover have "effect_week cd ?cur = Some ?wk"
    using weekok
    by (simp add: effect_week_def week_field_def int_field_def row_lookup get item_get_stored parse_iso week_ok_def)
  moreover have "whole_in_range False (item_get ?cur (reservation_field d)) = Some (requested rq d)" for d
  proof -
    have "item_get ?cur (reservation_field d) = as_stored (item_get ?eff (reservation_field d))"
      by (cases d) (simp_all add: row_lookup)
    moreover have "exact_count False (requested rq d)"
      using ok by (cases d) (simp_all add: request_ok_def requested_def)
    ultimately show ?thesis by (simp add: reserved_effect_get exact_count_def)
  qed
  ultimately show ?thesis
    by (intro that [of ?cur]) (simp_all add: row_lookup int_field_def item_get_stored get)
qed


definition carried_fields :: "string list" where
  "carried_fields =
     [''PK'', ''SK'', ''entity_type'', ''schema_version'', ''account_fence_generation'',
      ''iso_year'', ''iso_week'', ''week_identity'', ''window_start'', ''window_end'', ''expires_at'', ''reservation_payload_digest'',
      ''reservation_id'', ''effect_id'', ''beneficiary_id'', ''plan_id'', ''allowance_version'',
      ''reservation_input_tokens'', ''reservation_output_tokens'', ''reservation_state_version'']"

definition rewritten_fields :: "string list" where
  "rewritten_fields = [''state'', ''state_version'', ''evidence_id'', ''provider_input_tokens'', ''provider_output_tokens'',
     ''provider_payload_digest'', ''provider_observed_at'', ''updated_at'']"

lemma carried_not_rewritten: "a \<in> set carried_fields \<Longrightarrow> a \<notin> set rewritten_fields"
proof -
  have "list_all (\<lambda>a. a \<notin> set rewritten_fields) carried_fields" by code_simp
  then show "a \<in> set carried_fields \<Longrightarrow> a \<notin> set rewritten_fields" by (simp add: list_all_iff)
qed

lemma observed_effect_carried: "a \<in> set carried_fields \<Longrightarrow> item_get (observed_effect cd us now cur) a = item_get cur a"
  using carried_not_rewritten [of a] unfolding observed_effect_def
  by (intro item_get_merge_notin) (simp add: rewritten_fields_def)

text \<open>
  A validated effect, rewritten in fields its reservation does not use and put back, is validated
  again: an effect never falls out of the ledger's reach.
\<close>

lemma rewritten_effect_accepted:
  assumes val: "validated_effect cd b e raw = Inr cur" and raw: "db_row raw"
    and same: "\<And>a. a \<in> set carried_fields \<Longrightarrow> item_get nxt a = item_get cur a"
    and st: "item_get nxt ''state'' = PStr s" "s \<in> set effect_states"
    and sv: "item_get nxt ''state_version'' = PInt v" "1 \<le> v" "v \<le> MAX_EXACT_COUNT"
  obtains cur' where "validated_effect cd b e (stored_item nxt) = Inr cur'"
    "\<And>a. item_get cur' a = (if a \<in> set normalized_fields then item_get nxt a else as_stored (item_get nxt a))"
    "effect_week cd cur' = effect_week cd cur"
    "int_field cur' ''account_fence_generation'' = int_field cur ''account_fence_generation''"
proof -
  from val obtain sv gen y n where
    hd: "effect_header_ok b e raw" and
    cur: "cur = raw ++ dict_of [(''state_version'', PInt sv), (''account_fence_generation'', PInt gen),
        (''iso_year'', PInt y), (''iso_week'', PInt n)]" and
    gen: "whole_in_range True (item_get raw ''account_fence_generation'') = Some gen" and
    yn: "whole_in_range True (item_get raw ''iso_year'') = Some y" "whole_in_range True (item_get raw ''iso_week'') = Some n" and
    dig: "\<exists>d. sha256_text (item_get raw ''reservation_payload_digest'') = Some d" and
    res: "\<exists>r. reservation_from_effect cd cur = Some r"
    by (rule validated_effect_InrD)
  let ?cur = "stored_item nxt ++ dict_of [(''state_version'', PInt v), (''account_fence_generation'', PInt gen),
        (''iso_year'', PInt y), (''iso_week'', PInt n)]"
  have old: "item_get cur a = item_get raw a" if "a \<notin> set normalized_fields" for a
    using that by (simp add: cur item_get_merge_notin normalized_fields_def)
  have ints: "item_get nxt ''account_fence_generation'' = PInt gen" "item_get nxt ''iso_year'' = PInt y"
      "item_get nxt ''iso_week'' = PInt n"
    by (simp_all add: same carried_fields_def cur row_lookup)
  have get: "item_get ?cur a = (if a \<in> set normalized_fields then item_get nxt a else as_stored (item_get nxt a))" for a
    by (auto simp: normalized_fields_def row_lookup ints sv)
  have norm: "normalized_effect (stored_item nxt) = Some ?cur"
    using sv whole_in_range_SomeD(3,4) [OF gen] whole_in_range_SomeD(3,4) [OF yn(1)] whole_in_range_SomeD(3,4) [OF yn(2)]
    by (simp add: normalized_effect_def item_get_stored ints)
  have head: "effect_header_ok b e (stored_item nxt)"
    using hd by (simp add: effect_header_ok_def same carried_fields_def old normalized_fields_def)
  have keep: "item_get ?cur a = item_get cur a"
    if "a \<in> set [''iso_year'', ''iso_week'', ''week_identity'', ''window_start'', ''window_end'', ''expires_at'',
        ''reservation_id'', ''effect_id'', ''beneficiary_id'', ''plan_id'', ''allowance_version'', ''reservation_payload_digest'',
        ''reservation_input_tokens'', ''reservation_output_tokens'', ''reservation_state_version'', ''account_fence_generation'']" for a
  proof -
    have "item_get nxt a = item_get cur a" using that by (intro same) (auto simp: carried_fields_def)
    moreover have "as_stored (item_get cur a) = item_get cur a" if "a \<notin> set normalized_fields"
      using raw old [OF that] by (simp add: db_row_def)
    ultimately show ?thesis by (simp add: get)
  qed
  have "reservation_from_effect cd ?cur = reservation_from_effect cd cur"
    unfolding reservation_from_effect_def by (simp add: keep)
  moreover have "item_get nxt ''reservation_payload_digest'' = item_get raw ''reservation_payload_digest''"
    by (simp add: same carried_fields_def old normalized_fields_def)
  ultimately have "validated_effect cd b e (stored_item nxt) = Inr ?cur"
    using head res dig st
    by (auto simp: validated_effect_def norm effect_state_ok_def item_get_stored)
  moreover have "effect_week cd ?cur = effect_week cd cur"
    unfolding effect_week_def int_field_def by (simp add: keep)
  moreover have "int_field ?cur ''account_fence_generation'' = int_field cur ''account_fence_generation''"
    unfolding int_field_def by (simp add: keep)
  ultimately show ?thesis using get by (intro that [of ?cur])
qed

end
end
