(* ===== verification/Ledger_Day.thy ===== *)
theory Ledger_Day
  imports Ledger_Accept
begin

text \<open>
  The life of one effect on an undisturbed table: its usage is recorded, its result debited or its
  reservation given back, and the week's counter ends where that life says it must.
\<close>

section \<open>Recording on an undisturbed table\<close>

definition seen :: "codec \<Rightarrow> usage_request \<Rightarrow> int \<Rightarrow> evidence" where
  "seen cd us now = \<lparr>ev_id = evidence_id cd (us_effect us), ev_effect = us_effect us, ev_request = us_request_digest us,
     ev_model = us_model_digest us, ev_input = us_input us, ev_output = us_output us, ev_retained = True, ev_observed = Aware now\<rparr>"

definition recorded_table :: "codec \<Rightarrow> usage_request \<Rightarrow> int \<Rightarrow> item \<Rightarrow> zweek \<Rightarrow> counter \<Rightarrow> table \<Rightarrow> table" where
  "recorded_table cd us now cur wk c t =
     t(usage_evidence_key cd us \<mapsto> stored_item (evidence_item cd us now cur),
       effect_key (us_beneficiary us) (us_effect us) \<mapsto> stored_item (observed_effect cd us now cur),
       counter_key TOKENS (us_beneficiary us) wk \<mapsto>
         stored_item (token_row cd (us_beneficiary us) wk (Some c) (record_counts us c) [] now))"

lemma effect_condition_holds:
  assumes eff: "effect_on cd b e t = Some cur" and st: "item_get cur ''state'' = PStr s"
    and key: "item_key nxt = Some (effect_key b e)"
  shows "op_ok t (put_replace nxt (int_field cur ''state_version'') s)"
proof -
  from eff obtain raw where raw: "t (effect_key b e) = Some raw" and val: "validated_effect cd b e raw = Inr cur"
    by (rule effect_on_SomeD)
  from val obtain sv gen y n where
    cur: "cur = raw ++ dict_of [(''state_version'', PInt sv), (''account_fence_generation'', PInt gen),
        (''iso_year'', PInt y), (''iso_week'', PInt n)]" and
    sv: "whole_in_range True (item_get raw ''state_version'') = Some sv" by (rule validated_effect_InrD)
  have "int_field cur ''state_version'' = sv" by (simp add: cur int_field_def row_lookup)
  moreover have "as_stored (item_get raw ''state_version'') = PDec (of_int sv)"
    using whole_in_range_SomeD(1) [OF sv] by (rule as_stored_exact)
  moreover have "item_get raw ''state'' = PStr s"
    using st validated_effect_get [OF val, of "''state''"] by (simp add: normalized_fields_def)
  ultimately have "cond_holds (C_And (C_Eq ''state_version'' (PInt (int_field cur ''state_version''))) (C_Eq ''state'' (PStr s))) raw"
    unfolding cond_holds_And by (subst cond_eq_get, simp)+ simp
  then show ?thesis by (simp only: put_replace_def op_ok_Put [OF key] row_at_def raw option.case)
qed

lemma required_strip: "required_text n (PStr b) \<noteq> None \<Longrightarrow> strip b = b \<and> b \<noteq> []"
  by (auto simp: required_text_def split: if_splits)

lemma create_condition_holds:
  "keyed t \<Longrightarrow> item_key i = Some k \<Longrightarrow> t k = None \<Longrightarrow> op_ok t (put_create i)"
  unfolding put_create_def by (simp only: op_ok_Put keyed_create_only)

lemma counter_condition_holds:
  "counter_on cd b wk t = Some previous \<Longrightarrow> item_key row = Some (counter_key TOKENS b wk) \<Longrightarrow>
     op_ok t (Put row (version_condition previous))"
  by (simp add: op_ok_Put version_condition_holds)

lemma kept_counts_write:
  assumes "list_all (\<lambda>(f, n). f \<in> set (count_fields TOKENS) \<and> 0 \<le> n \<and> n \<le> MAX_EXACT_COUNT) counts"
  shows "write_counter cd TOKENS b wk (Some c) counts [] now
    = Inr (Put (token_row cd b wk (Some c) counts [] now) (version_condition (Some c)))"
  using assms by (intro write_counter_Inr) (auto simp: list_all_iff)

lemma validated_generation:
  "validated_effect cd b e raw = Inr cur \<Longrightarrow> 1 \<le> int_field cur ''account_fence_generation''"
  by (erule validated_effect_InrD) (auto simp: int_field_def row_lookup dest: whole_in_range_SomeD(4))

lemma counter_on_counts:
  assumes "counter_on cd b wk t = Some (Some c)" "f \<in> set (count_fields TOKENS)"
  shows "0 \<le> count c f" "count c f \<le> MAX_EXACT_COUNT"
  using counter_on_from_table [OF assms(1)] assms(2) by (auto simp: from_table_def counter_ok_def)

context codec_laws
begin

lemma evidence_item_reads:
  assumes "usage_ok us"
  shows "evidence_from_item cd (evidence_item cd us now cur) = Some (seen cd us now)"
  using assms
  by (simp add: evidence_from_item_def evidence_item_def row_lookup seen_def usage_ok_def exact_count_def
      opaque_text_sha digest_field_def parse_iso evidence_id_def sha256_shape)

lemma stored_evidence_reads:
  assumes "usage_ok us"
  shows "evidence_from_item cd (stored_item (evidence_item cd us now cur)) = Some (seen cd us now)"
  using assms
  by (simp add: evidence_from_item_def item_get_stored evidence_item_def row_lookup seen_def usage_ok_def exact_count_def
      opaque_text_sha digest_field_def parse_iso evidence_id_def sha256_shape)

lemma record_quiet:
  assumes ok: "usage_ok us" and key: "keyed t"
    and eff: "effect_on cd (us_beneficiary us) (us_effect us) t = Some cur"
    and st: "item_get cur ''state'' = PStr ''reserved''" and week: "effect_week cd cur = Some wk"
    and cnt: "counter_on cd (us_beneficiary us) wk t = Some (Some c)"
    and new: "t (usage_evidence_key cd us) = None"
    and fence: "fence_active t (us_beneficiary us) (int_field cur ''account_fence_generation'')"
    and room: "count c ''provider_cost_input_tokens'' + us_input us \<le> MAX_EXACT_COUNT"
      "count c ''provider_cost_output_tokens'' + us_output us \<le> MAX_EXACT_COUNT"
  shows "record_usage cd (world_db act) us (Aware now) (quiet t) =
    (Inr (P_Recorded, Some (seen cd us now)), quiet (recorded_table cd us now cur wk c t))"
proof -
  let ?b = "us_beneficiary us" and ?e = "us_effect us" and ?gen = "int_field cur ''account_fence_generation''"
  from eff obtain raw where raw: "t (effect_key ?b ?e) = Some raw" and val: "validated_effect cd ?b ?e raw = Inr cur"
    by (rule effect_on_SomeD)
  have "required_text 200 (PStr ?b) \<noteq> None" using ok by (simp add: usage_ok_def)
  then have b: "strip ?b = ?b" "?b \<noteq> []" using required_strip [of 200 ?b] by simp_all
  from fence validated_generation [OF val] obtain fc where
    f: "active_fence_condition ?b (Some ?gen) = Inr (Check (''USER#'' @ strip ?b, ''ACCOUNT_FENCE'') fc)"
      "op_ok t (Check (''USER#'' @ strip ?b, ''ACCOUNT_FENCE'') fc)"
    by (rule fence_condition_holds) (use b in simp_all)
  let ?ev = "evidence_item cd us now cur" and ?obs = "observed_effect cd us now cur"
  let ?row = "token_row cd ?b wk (Some c) (record_counts us c) [] now"
  have counts: "0 \<le> count c ''provider_cost_input_tokens''" "0 \<le> count c ''provider_cost_output_tokens''"
    using counter_on_counts(1) [OF cnt] by (simp_all add: TOKENS_def)
  have w: "write_counter cd TOKENS ?b wk (Some c) (record_counts us c) [] now = Inr (Put ?row (version_condition (Some c)))"
    using ok room counts by (intro kept_counts_write) (simp add: record_counts_def TOKENS_def usage_ok_def exact_count_def)
  note rowkey = token_put(2) [OF w counter_on_from_table [OF cnt]]
  note obskey = item_key_observed_effect [OF validated_effect_keys(1) [OF val], of cd us now]
  let ?puts = "[put_create ?ev, put_replace ?obs (int_field cur ''state_version'') ''reserved'', Put ?row (version_condition (Some c))]"
  have "tx_apply (Check (''USER#'' @ strip ?b, ''ACCOUNT_FENCE'') fc # ?puts) t = Some (fold op_write ?puts t)"
    using f(2)
  proof (rule fenced_tx)
    show "\<forall>p \<in> set ?puts. op_ok t p \<and> (case op_key p of Some k \<Rightarrow> ledger_key k | None \<Rightarrow> False)"
      using create_condition_holds [OF key item_key_evidence_item new] effect_condition_holds [OF eff st obskey]
        counter_condition_holds [OF cnt rowkey]
      by (simp add: put_create_def put_replace_def rowkey obskey usage_evidence_key_def)
    show "distinct (map op_key ?puts)"
      by (simp add: put_create_def put_replace_def rowkey obskey usage_evidence_key_def)
  qed
  then have "tx_apply (Check (''USER#'' @ strip ?b, ''ACCOUNT_FENCE'') fc # ?puts) t = Some (recorded_table cd us now cur wk c t)"
    by (simp add: put_create_def put_replace_def rowkey obskey recorded_table_def)
  with f(1) obtain fop where fop: "active_fence_condition ?b (Some ?gen) = Inr fop"
    and tx: "tx_apply (fop # ?puts) t = Some (recorded_table cd us now cur wk c t)" by blast
  have dec: "record_decision cd us now cur wk c = Transact (fop # ?puts) (Inr (P_Recorded, Some (seen cd us now)))"
    using room by (simp add: record_decision_def Let_def fop w [unfolded record_counts_def] record_counts_def
        result_of_def evidence_item_reads [OF ok])
  have "record_attempt cd (world_db act) us now (quiet t)
      = (Done (P_Recorded, Some (seen cd us now)), quiet (recorded_table cd us now cur wk c t))"
    by (simp add: record_attempt_def Let_def quiet_get raw val st week quiet_read_counter [OF cnt] dec
        commit_verdict_def quiet_tx [OF tx] settle_row_def)
  then have attempt: "retry DEFAULT_ATTEMPTS (record_attempt cd (world_db act) us now) (P_Retryable, None) (quiet t)
      = (Inr (P_Recorded, Some (seen cd us now)), quiet (recorded_table cd us now cur wk c t))"
    by (rule retry_Done)
  have valid: "\<not> (required_text 200 (PStr ?b) = None \<or> sha256_text (PStr ?e) = None
         \<or> sha256_text (PStr (us_request_digest us)) = None \<or> sha256_text (PStr (us_model_digest us)) = None
         \<or> \<not> exact_count False (us_input us) \<or> \<not> exact_count False (us_output us))"
    using ok by (simp add: usage_ok_def)
  show ?thesis
    unfolding record_usage_def if_not_P [OF valid] moment.case
    by (simp only: quiet_get new attempt prod.case sum.case option.case)
qed

end

section \<open>Settling on an undisturbed table\<close>

definition settled_table :: "codec \<Rightarrow> settle_request \<Rightarrow> int \<Rightarrow> item \<Rightarrow> zweek \<Rightarrow> counter \<Rightarrow> evidence \<Rightarrow> int \<Rightarrow> int \<Rightarrow> table \<Rightarrow> table" where
  "settled_table cd st now cur wk c ev ri ro t =
     t(effect_key (st_beneficiary st) (st_effect st) \<mapsto> stored_item (settle_row_of cd st now cur ev ri ro),
       counter_key TOKENS (st_beneficiary st) wk \<mapsto>
         stored_item (token_row cd (st_beneficiary st) wk (Some c) (settle_counts st c ev ri ro) [] now))"

definition outcome_of :: "settle_request \<Rightarrow> evidence \<Rightarrow> string \<Rightarrow> string \<Rightarrow> int \<Rightarrow> int \<Rightarrow> int \<Rightarrow> int \<Rightarrow> finalization" where
  "outcome_of st ev rid v ri ro sv now = \<lparr>fin_reservation = rid, fin_evidence = v,
     fin_input = settled_input st ev, fin_output = settled_output st ev,
     fin_restored_input = (if st_restore st then ri else 0), fin_restored_output = (if st_restore st then ro else 0),
     fin_retained = True, fin_technical = st_technical st, fin_safety = st_safety st, fin_durable = st_durable st,
     fin_replay = st_replay st, fin_state_version = sv, fin_at = Aware now\<rparr>"

lemma settle_counts_write:
  assumes cnt: "counter_on cd b wk t = Some (Some c)" and "0 \<le> ri" "0 \<le> ro"
    and "0 \<le> settled_input st ev" "0 \<le> settled_output st ev"
    and "ri \<le> count c ''reserved_input_tokens''" "ro \<le> count c ''reserved_output_tokens''"
    and "count c ''finalized_input_tokens'' + settled_input st ev \<le> MAX_EXACT_COUNT"
      "count c ''finalized_output_tokens'' + settled_output st ev \<le> MAX_EXACT_COUNT"
  shows "write_counter cd TOKENS b wk (Some c) (settle_counts st c ev ri ro) [] now
    = Inr (Put (token_row cd b wk (Some c) (settle_counts st c ev ri ro) [] now) (version_condition (Some c)))"
proof (rule kept_counts_write)
  have "0 \<le> count c ''finalized_input_tokens''" "0 \<le> count c ''finalized_output_tokens''"
      "count c ''reserved_input_tokens'' \<le> MAX_EXACT_COUNT" "count c ''reserved_output_tokens'' \<le> MAX_EXACT_COUNT"
    using counter_on_counts [OF cnt] by (simp_all add: TOKENS_def)
  with assms(2-) show "list_all (\<lambda>(f, n). f \<in> set (count_fields TOKENS) \<and> 0 \<le> n \<and> n \<le> MAX_EXACT_COUNT)
      (settle_counts st c ev ri ro)"
    by (simp add: settle_counts_def TOKENS_def)
qed

context codec_laws
begin

lemma settled_row_reads:
  assumes ok: "settle_ok st" and val: "validated_effect cd b e raw = Inr cur"
    and v: "sha256_text (item_get cur ''evidence_id'') = Some v"
    and r: "0 \<le> ri" "ri \<le> MAX_EXACT_COUNT" "0 \<le> ro" "ro \<le> MAX_EXACT_COUNT"
    and s: "0 \<le> settled_input st ev" "settled_input st ev \<le> MAX_EXACT_COUNT" "0 \<le> settled_output st ev" "settled_output st ev \<le> MAX_EXACT_COUNT"
    and sv: "int_field cur ''state_version'' < MAX_EXACT_COUNT"
  obtains rid where "finalization_from_effect cd (settle_row_of cd st now cur ev ri ro)
      = Some (outcome_of st ev rid v ri ro (int_field cur ''state_version'' + 1) now)"
proof -
  from val have "\<exists>r. reservation_from_effect cd cur = Some r" by (rule validated_effect_InrD)
  then obtain rid where rid: "opaque_text (item_get cur ''reservation_id'') = Some rid"
    by (auto simp: reservation_from_effect_def bind_eq_Some_conv)
  have v': "opaque_text (item_get cur ''evidence_id'') = Some v"
    using sha256_text_SomeD [OF v] opaque_text_sha by auto
  have "1 \<le> int_field cur ''state_version''" using val by (rule validated_effect_version)
  moreover have "0 \<le> MAX_EXACT_COUNT" by (simp add: MAX_EXACT_COUNT_def)
  ultimately have "finalization_from_effect cd (settle_row_of cd st now cur ev ri ro)
      = Some (outcome_of st ev rid v ri ro (int_field cur ''state_version'' + 1) now)"
    using ok r s sv rid v'
    by (auto simp: finalization_from_effect_def settle_row_of_def settled_effect_def row_lookup parse_iso
        validate_user_debit_outcome_def outcome_of_def settle_ok_def delivered_def Let_def
        settled_input_def settled_output_def)
  then show ?thesis by (rule that)
qed


lemma settle_quiet:
  assumes ok: "settle_ok st" and key: "keyed t"
    and eff: "effect_on cd (st_beneficiary st) (st_effect st) t = Some cur"
    and sta: "item_get cur ''state'' = PStr ''observed''" and week: "effect_week cd cur = Some wk"
    and cnt: "counter_on cd (st_beneficiary st) wk t = Some (Some c)"
    and evd: "sha256_text (item_get cur ''evidence_id'') = Some v" "t (evidence_key (st_beneficiary st) v) = Some row"
      "evidence_from_item cd row = Some ev"
    and fence: "fence_active t (st_beneficiary st) (int_field cur ''account_fence_generation'')"
    and r: "whole_in_range False (item_get cur ''reservation_input_tokens'') = Some ri"
      "whole_in_range False (item_get cur ''reservation_output_tokens'') = Some ro"
    and held: "ri \<le> count c ''reserved_input_tokens''" "ro \<le> count c ''reserved_output_tokens''"
    and within: "\<not> st_restore st \<Longrightarrow> ev_input ev \<le> ri" "\<not> st_restore st \<Longrightarrow> ev_output ev \<le> ro"
    and s: "0 \<le> ev_input ev" "0 \<le> ev_output ev"
    and room: "count c ''finalized_input_tokens'' + settled_input st ev \<le> MAX_EXACT_COUNT"
      "count c ''finalized_output_tokens'' + settled_output st ev \<le> MAX_EXACT_COUNT"
    and sv: "int_field cur ''state_version'' < MAX_EXACT_COUNT"
  obtains rid where "complete_allowance cd (world_db act) st (Aware now) (quiet t) =
    (Inr (if st_restore st then F_Restored else F_Finalized,
       Some (outcome_of st ev rid v ri ro (int_field cur ''state_version'' + 1) now)),
     quiet (settled_table cd st now cur wk c ev ri ro t))"
proof -
  let ?b = "st_beneficiary st" and ?e = "st_effect st" and ?gen = "int_field cur ''account_fence_generation''"
  from eff obtain raw where raw: "t (effect_key ?b ?e) = Some raw" and val: "validated_effect cd ?b ?e raw = Inr cur"
    by (rule effect_on_SomeD)
  have "required_text 200 (PStr ?b) \<noteq> None" using ok by (simp add: settle_ok_def)
  then have b: "strip ?b = ?b" "?b \<noteq> []" using required_strip [of 200 ?b] by simp_all
  from fence validated_generation [OF val] obtain fc where
    f: "active_fence_condition ?b (Some ?gen) = Inr (Check (''USER#'' @ strip ?b, ''ACCOUNT_FENCE'') fc)"
      "op_ok t (Check (''USER#'' @ strip ?b, ''ACCOUNT_FENCE'') fc)"
    by (rule fence_condition_holds) (use b in simp_all)
  let ?eff = "settle_row_of cd st now cur ev ri ro"
  let ?row = "token_row cd ?b wk (Some c) (settle_counts st c ev ri ro) [] now"
  have ranges: "0 \<le> ri" "ri \<le> MAX_EXACT_COUNT" "0 \<le> ro" "ro \<le> MAX_EXACT_COUNT"
    using whole_in_range_SomeD [OF r(1)] whole_in_range_SomeD [OF r(2)] by simp_all
  have sin: "0 \<le> settled_input st ev" "settled_input st ev \<le> MAX_EXACT_COUNT"
      "0 \<le> settled_output st ev" "settled_output st ev \<le> MAX_EXACT_COUNT"
    using within s ranges by (auto simp: settled_input_def settled_output_def MAX_EXACT_COUNT_def)
  note w = settle_counts_write [OF cnt ranges(1,3) sin(1,3) held room, of now]
  note rowkey = token_put(2) [OF w counter_on_from_table [OF cnt]]
  have effkey: "item_key ?eff = Some (effect_key ?b ?e)"
    unfolding settle_row_of_def by (rule item_key_settled_effect [OF validated_effect_keys(1) [OF val]])
  let ?puts = "[put_replace ?eff (int_field cur ''state_version'') ''observed'', Put ?row (version_condition (Some c))]"
  have "tx_apply (Check (''USER#'' @ strip ?b, ''ACCOUNT_FENCE'') fc # ?puts) t = Some (fold op_write ?puts t)"
    using f(2)
  proof (rule fenced_tx)
    show "\<forall>p \<in> set ?puts. op_ok t p \<and> (case op_key p of Some k \<Rightarrow> ledger_key k | None \<Rightarrow> False)"
      using effect_condition_holds [OF eff sta effkey] counter_condition_holds [OF cnt rowkey]
      by (simp add: put_replace_def rowkey effkey)
    show "distinct (map op_key ?puts)" by (simp add: put_replace_def rowkey effkey)
  qed
  then have "tx_apply (Check (''USER#'' @ strip ?b, ''ACCOUNT_FENCE'') fc # ?puts) t = Some (settled_table cd st now cur wk c ev ri ro t)"
    by (simp add: put_replace_def rowkey effkey settled_table_def)
  with f(1) obtain fop where fop: "active_fence_condition ?b (Some ?gen) = Inr fop"
    and tx: "tx_apply (fop # ?puts) t = Some (settled_table cd st now cur wk c ev ri ro t)" by blast
  obtain rid where reads: "finalization_from_effect cd ?eff
      = Some (outcome_of st ev rid v ri ro (int_field cur ''state_version'' + 1) now)"
    using ok val evd(1) ranges sin sv by (rule settled_row_reads)
  let ?answer = "(if st_restore st then F_Restored else F_Finalized,
       Some (outcome_of st ev rid v ri ro (int_field cur ''state_version'' + 1) now))"
  have calm: "\<not> ((\<not> st_restore st \<and> (ri < ev_input ev \<or> ro < ev_output ev))
      \<or> count c ''reserved_input_tokens'' < ri \<or> count c ''reserved_output_tokens'' < ro)"
    using held within by auto
  have full: "\<not> (MAX_EXACT_COUNT < count c ''finalized_input_tokens'' + settled_input st ev
      \<or> MAX_EXACT_COUNT < count c ''finalized_output_tokens'' + settled_output st ev)"
    using room by simp
  have dec: "settle_decision cd st now cur wk c ev = Transact (fop # ?puts) (Inr ?answer)"
    unfolding settle_decision_def r option.case prod.case Let_def if_not_P [OF calm]
      settled_input_def [symmetric] settled_output_def [symmetric] if_not_P [OF full] fop sum.case
      settle_counts_def [symmetric] w settle_row_of_def [symmetric] reads result_of_def
    by (rule refl)
  have open': "\<not> settled_row cur" by (simp add: settled_row_def sta)
  have "settle_attempt cd (world_db act) st now (quiet t)
      = (Done ?answer, quiet (settled_table cd st now cur wk c ev ri ro t))"
    by (simp add: settle_attempt_def Let_def quiet_get raw val open' sta week quiet_read_counter [OF cnt] evd dec
        commit_verdict_def quiet_tx [OF tx] settle_row_def del: if_split)
  then have attempt: "retry DEFAULT_ATTEMPTS (settle_attempt cd (world_db act) st now) (F_Retryable, None) (quiet t)
      = (Inr ?answer, quiet (settled_table cd st now cur wk c ev ri ro t))"
    by (rule retry_Done)
  have valid: "\<not> (required_text 200 (PStr ?b) = None \<or> sha256_text (PStr ?e) = None \<or> st_restore st = delivered st)"
    using ok by (simp add: settle_ok_def)
  show ?thesis
    by (rule that) (simp only: complete_allowance_def if_not_P [OF valid] moment.case attempt)
qed

end

section \<open>Reserve, record, settle\<close>

definition same_effect :: "reserve_request \<Rightarrow> usage_request \<Rightarrow> settle_request \<Rightarrow> bool" where
  "same_effect rq us st \<longleftrightarrow>
     us_beneficiary us = rq_beneficiary rq \<and> us_effect us = rq_effect rq
     \<and> st_beneficiary st = rq_beneficiary rq \<and> st_effect st = rq_effect rq"

lemma fence_active_ledger_upd [simp]: "ledger_key k \<Longrightarrow> fence_active (t(k \<mapsto> i)) u g = fence_active t u g"
  by (auto simp: fence_active_def ledger_key_def)

lemma counter_on_row:
  "t (counter_key TOKENS b wk) = Some row \<Longrightarrow> parse_counter cd b wk row = Some c \<Longrightarrow> counter_on cd b wk t = Some (Some c)"
  by (simp add: counter_on_def)

lemma counts_names:
  "fst ` set (record_counts us c) \<subseteq> set (count_fields TOKENS)"
  "fst ` set (settle_counts st c ev ri ro) \<subseteq> set (count_fields TOKENS)"
  by (simp_all add: record_counts_def settle_counts_def TOKENS_def)

context codec_laws
begin

text \<open>After a reservation the effect can be recorded, and after that it can be settled.\<close>

lemma recordable_after_reserve:
  assumes ok: "request_ok cd rq" and key: "keyed t" and g: "1 \<le> g" "g \<le> MAX_EXACT_COUNT"
    and cnt: "counter_on cd (rq_beneficiary rq) (rq_week rq) t = Some previous" and room: "reserve_room rq previous"
    and range: "datetime_range now"
    and fence: "fence_active t (rq_beneficiary rq) g"
  obtains cur c where
    "effect_on cd (rq_beneficiary rq) (rq_effect rq) (reserved_table cd rq g now previous t) = Some cur"
    "(reserved_table cd rq g now previous t) (effect_key (rq_beneficiary rq) (rq_effect rq))
      = Some (stored_item (reserved_effect cd rq g now (next_version previous)))"
    "item_get cur ''state'' = PStr ''reserved''" "effect_week cd cur = Some (rq_week rq)"
    "int_field cur ''state_version'' = 1" "int_field cur ''account_fence_generation'' = g"
    "\<And>d. whole_in_range False (item_get cur (reservation_field d)) = Some (requested rq d)"
    "counter_on cd (rq_beneficiary rq) (rq_week rq) (reserved_table cd rq g now previous t) = Some (Some c)"
    "c_version c = next_version previous"
    "\<And>f. f \<in> set (count_fields TOKENS) \<Longrightarrow> count c f = new_count previous (reserve_counts rq previous) f"
    "ledger_fields_ok (c_item c)"
    "keyed (reserved_table cd rq g now previous t)"
    "fence_active (reserved_table cd rq g now previous t) (rq_beneficiary rq) g"
proof -
  let ?t = "reserved_table cd rq g now previous t" and ?b = "rq_beneficiary rq" and ?wk = "rq_week rq"
  note ft = counter_on_from_table [OF cnt]
  have "1 \<le> next_version previous"
    using ft by (auto simp: next_version_def from_table_def counter_ok_def split: option.splits)
  then obtain cur where cur:
    "validated_effect cd ?b (rq_effect rq) (stored_item (reserved_effect cd rq g now (next_version previous))) = Inr cur"
    "item_get cur ''state'' = PStr ''reserved''" "effect_week cd cur = Some ?wk"
    "int_field cur ''state_version'' = 1" "int_field cur ''account_fence_generation'' = g"
    "\<And>d. whole_in_range False (item_get cur (reservation_field d)) = Some (requested rq d)"
    using reserved_effect_accepted [OF ok _ _ g, of "next_version previous" now] room
    unfolding reserve_room_def by blast
  have raw: "?t (effect_key ?b (rq_effect rq)) = Some (stored_item (reserved_effect cd rq g now (next_version previous)))"
    by (simp add: reserved_table_def)
  then have eff: "effect_on cd ?b (rq_effect rq) ?t = Some cur" by (simp add: effect_on_def cur(1))
  let ?row = "token_row cd ?b ?wk previous (reserve_counts rq previous) (reserve_fields rq g) now"
  from ok have strip: "strip ?b \<noteq> []" by (metis request_ok_def required_strip)
  obtain fop where fop: "active_fence_condition ?b (Some g) = Inr fop"
    using fence_condition_holds [OF fence g(1) strip] by blast
  from reserve_decision_room [OF ok g(1) room ft fop, of now] obtain oper where
    w: "write_counter cd TOKENS ?b ?wk previous (reserve_counts rq previous) (reserve_fields rq g) now = Inr oper"
    unfolding reserve_counts_def reserve_fields_def by (rule reserve_decision_TransactD) blast
  have "ledger_fields_ok (c_item c)" if "previous = Some c" for c
    using cnt that by (auto elim!: counter_on_SomeD dest: parse_counter_fields)
  then have fields_ok: "ledger_fields_ok ?row" by (intro reserved_fields_ok ok g range)
  obtain c where c: "parse_counter cd ?b ?wk (stored_item ?row) = Some c" "c_version c = next_version previous"
      "\<forall>f \<in> set (count_fields TOKENS). count c f = new_count previous (reserve_counts rq previous) f"
    using token_row_accepted [OF refl w ft _ fields_ok] room unfolding reserve_room_def by blast
  have "counter_on cd ?b ?wk ?t = Some (Some c)"
    by (rule counter_on_row [OF _ c(1)]) (simp add: reserved_table_def)
  moreover have "keyed ?t"
    unfolding reserved_table_def by (intro keyed_upd key) (simp_all add: token_put(2) [OF w ft])
  moreover have "fence_active ?t ?b g" using fence by (simp add: reserved_table_def)
  ultimately show ?thesis
    using c eff raw cur(2-) parse_counter_fields [OF c(1)] by (intro that [of cur c]) auto
qed


lemma settleable_after_record:
  assumes ok: "usage_ok us" and key: "keyed t"
    and raw: "t (effect_key (us_beneficiary us) (us_effect us)) = Some raw" "db_row raw"
    and eff: "effect_on cd (us_beneficiary us) (us_effect us) t = Some cur" and week: "effect_week cd cur = Some wk"
    and sv: "int_field cur ''state_version'' < MAX_EXACT_COUNT"
    and cnt: "counter_on cd (us_beneficiary us) wk t = Some (Some c)" and fields: "ledger_fields_ok (c_item c)"
    and v: "c_version c < MAX_EXACT_COUNT" and range: "datetime_range now"
    and fence: "fence_active t (us_beneficiary us) (int_field cur ''account_fence_generation'')"
    and room: "count c ''provider_cost_input_tokens'' + us_input us \<le> MAX_EXACT_COUNT"
      "count c ''provider_cost_output_tokens'' + us_output us \<le> MAX_EXACT_COUNT"
  obtains cur' c' where
    "effect_on cd (us_beneficiary us) (us_effect us) (recorded_table cd us now cur wk c t) = Some cur'"
    "item_get cur' ''state'' = PStr ''observed''" "effect_week cd cur' = Some wk"
    "int_field cur' ''state_version'' = int_field cur ''state_version'' + 1"
    "item_get cur' ''evidence_id'' = PStr (evidence_id cd (us_effect us))"
    "\<And>d n. whole_in_range False (item_get cur (reservation_field d)) = Some n
       \<Longrightarrow> whole_in_range False (item_get cur' (reservation_field d)) = Some n"
    "counter_on cd (us_beneficiary us) wk (recorded_table cd us now cur wk c t) = Some (Some c')"
    "\<And>f. f \<in> set (count_fields TOKENS) \<Longrightarrow> count c' f = new_count (Some c) (record_counts us c) f"
    "keyed (recorded_table cd us now cur wk c t)"
    "fence_active (recorded_table cd us now cur wk c t) (us_beneficiary us) (int_field cur' ''account_fence_generation'')"
proof -
  let ?t = "recorded_table cd us now cur wk c t" and ?b = "us_beneficiary us"
  let ?obs = "observed_effect cd us now cur" and ?row = "token_row cd ?b wk (Some c) (record_counts us c) [] now"
  from eff raw(1) have val: "validated_effect cd ?b (us_effect us) raw = Inr cur" by (auto elim: effect_on_SomeD)
  obtain cur' where cur':
    "validated_effect cd ?b (us_effect us) (stored_item ?obs) = Inr cur'"
    "\<And>a. item_get cur' a = (if a \<in> set normalized_fields then item_get ?obs a else as_stored (item_get ?obs a))"
    "effect_week cd cur' = effect_week cd cur"
    "int_field cur' ''account_fence_generation'' = int_field cur ''account_fence_generation''"
    by (rule rewritten_effect_accepted [OF val raw(2), of ?obs "''observed''" "int_field cur ''state_version'' + 1"])
      (use validated_effect_version(2) [OF val] sv in
        \<open>simp_all add: observed_effect_carried observed_effect_get observed_effect_version effect_states_def\<close>)
  have eff': "effect_on cd ?b (us_effect us) ?t = Some cur'"
    by (simp add: effect_on_def recorded_table_def cur'(1))
  have counts: "0 \<le> count c ''provider_cost_input_tokens''" "0 \<le> count c ''provider_cost_output_tokens''"
    using counter_on_counts(1) [OF cnt] by (simp_all add: TOKENS_def)
  have w: "write_counter cd TOKENS ?b wk (Some c) (record_counts us c) [] now = Inr (Put ?row (version_condition (Some c)))"
    using ok room counts by (intro kept_counts_write) (simp add: record_counts_def TOKENS_def usage_ok_def exact_count_def)
  note ft = counter_on_from_table [OF cnt]
  have "next_version (Some c) \<le> MAX_EXACT_COUNT" using v by (simp add: next_version_def)
  with token_row_accepted [OF refl w ft _ kept_fields_ok [OF fields counts_names(1) range]]
  obtain c' where c': "parse_counter cd ?b wk (stored_item ?row) = Some c'"
      "\<forall>f \<in> set (count_fields TOKENS). count c' f = new_count (Some c) (record_counts us c) f" by blast
  have "counter_on cd ?b wk ?t = Some (Some c')"
    by (rule counter_on_row [OF _ c'(1)]) (simp add: recorded_table_def)
  moreover have "keyed ?t"
    unfolding recorded_table_def
    by (intro keyed_upd key) (simp_all add: token_put(2) [OF w ft] item_key_observed_effect [OF validated_effect_keys(1) [OF val]])
  moreover have "whole_in_range False (item_get cur' (reservation_field d)) = Some n"
    if "whole_in_range False (item_get cur (reservation_field d)) = Some n" for d n
  proof -
    have "reservation_field d \<notin> set normalized_fields" by (cases d) (simp_all add: normalized_fields_def)
    then show ?thesis using that by (simp add: cur'(2) observed_effect_get whole_in_range_as_stored)
  qed
  moreover have "fence_active ?t ?b (int_field cur' ''account_fence_generation'')"
    using fence by (simp add: recorded_table_def cur'(4) usage_evidence_key_def)
  moreover have "item_get cur' ''state'' = PStr ''observed''" "item_get cur' ''evidence_id'' = PStr (evidence_id cd (us_effect us))"
      "int_field cur' ''state_version'' = int_field cur ''state_version'' + 1"
    by (simp_all add: cur'(2) normalized_fields_def observed_effect_def row_lookup int_field_def)
  ultimately show ?thesis
    using eff' c'(2) cur'(3) week by (intro that [of cur' c']) auto
qed

text \<open>
  The whole life: what a week's counter gains from one effect is its recorded usage as provider
  cost, and as finalized tokens exactly when the result was delivered; nothing stays reserved.
\<close>

lemma token_life:
  assumes same: "same_effect rq us st" and ok: "request_ok cd rq" "usage_ok us" "settle_ok st" and key: "keyed t"
    and fence: "fence_active t (rq_beneficiary rq) g" and g: "1 \<le> g" "g \<le> MAX_EXACT_COUNT"
    and new: "t (effect_key (rq_beneficiary rq) (rq_effect rq)) = None" "t (usage_evidence_key cd us) = None"
    and cnt: "counter_on cd (rq_beneficiary rq) (rq_week rq) t = Some previous" and room: "reserve_room rq previous"
    and versions: "next_version previous < MAX_EXACT_COUNT"
    and within: "us_input us \<le> rq_input rq" "us_output us \<le> rq_output rq"
    and costs: "prior_count previous ''provider_cost_input_tokens'' + us_input us \<le> MAX_EXACT_COUNT"
      "prior_count previous ''provider_cost_output_tokens'' + us_output us \<le> MAX_EXACT_COUNT"
    and range: "datetime_range now" "datetime_range seen_at"
  obtains t1 t2 t3 r x y where
    "reserve_allowance cd (world_db act) rq (Aware now) (Some g) (quiet t) = (Inr (R_Admitted, Some r), quiet t1)"
    "record_usage cd (world_db act) us (Aware seen_at) (quiet t1) = (Inr (P_Recorded, Some x), quiet t2)"
    "complete_allowance cd (world_db act) st (Aware done_at) (quiet t2)
       = (Inr (if st_restore st then F_Restored else F_Finalized, Some y), quiet t3)"
    "\<And>d. counter_num (reserved_field d) (rq_beneficiary rq) (week_identity (rq_week rq)) t3
       = prior_count previous (reserved_field d)"
    "\<And>d. counter_num (finalized_field d) (rq_beneficiary rq) (week_identity (rq_week rq)) t3
       = prior_count previous (finalized_field d) + (if st_restore st then 0 else used us d)"
    "\<And>d. counter_num (cost_field d) (rq_beneficiary rq) (week_identity (rq_week rq)) t3
       = prior_count previous (cost_field d) + used us d"
proof -
  let ?b = "rq_beneficiary rq" and ?e = "rq_effect rq" and ?wk = "rq_week rq"
  from same have b: "us_beneficiary us = ?b" "us_effect us = ?e" "st_beneficiary st = ?b" "st_effect st = ?e"
    by (simp_all add: same_effect_def)
  note ft = counter_on_from_table [OF cnt]
  let ?t1 = "reserved_table cd rq g now previous t"
  note call1 = reserve_quiet [OF ok(1) key fence g new(1) cnt room, of act now]
  from recordable_after_reserve [OF ok(1) key g cnt room range(1) fence]
  obtain cur c where s1: "effect_on cd ?b ?e ?t1 = Some cur"
    "?t1 (effect_key ?b ?e) = Some (stored_item (reserved_effect cd rq g now (next_version previous)))"
    "item_get cur ''state'' = PStr ''reserved''" "effect_week cd cur = Some ?wk"
    "int_field cur ''state_version'' = 1" "int_field cur ''account_fence_generation'' = g"
    "\<And>d. whole_in_range False (item_get cur (reservation_field d)) = Some (requested rq d)"
    "counter_on cd ?b ?wk ?t1 = Some (Some c)" "c_version c = next_version previous"
    "\<And>f. f \<in> set (count_fields TOKENS) \<Longrightarrow> count c f = new_count previous (reserve_counts rq previous) f"
    "ledger_fields_ok (c_item c)" "keyed ?t1" "fence_active ?t1 ?b g" by blast
  have c: "count c (reserved_field d) = prior_count previous (reserved_field d) + requested rq d"
      "count c (finalized_field d) = prior_count previous (finalized_field d)"
      "count c (cost_field d) = prior_count previous (cost_field d)" for d
    by (simp_all add: s1(10) reserve_counts_fields)
  have max: "(1::int) < MAX_EXACT_COUNT" by (simp add: MAX_EXACT_COUNT_def)
  have cost_room: "count c ''provider_cost_input_tokens'' + us_input us \<le> MAX_EXACT_COUNT"
      "count c ''provider_cost_output_tokens'' + us_output us \<le> MAX_EXACT_COUNT"
    using costs c(3) [of Input_Tokens] c(3) [of Output_Tokens] by simp_all
  have noev: "?t1 (usage_evidence_key cd us) = None"
    using new(2) by (simp add: reserved_table_def usage_evidence_key_def)
  let ?t2 = "recorded_table cd us seen_at cur ?wk c ?t1"
  note call2 = record_quiet [OF ok(2) s1(12), unfolded b, OF s1(1,3,4,8) noev, unfolded s1(6), OF s1(13) cost_room, of act seen_at]
  from settleable_after_record [OF ok(2) s1(12), unfolded b, OF s1(2) db_row_stored s1(1,4), unfolded s1(5,6), OF max s1(8,11)
      _ range(2) s1(13) cost_room] versions
  obtain cur' c' where s2: "effect_on cd ?b ?e ?t2 = Some cur'" "item_get cur' ''state'' = PStr ''observed''"
    "effect_week cd cur' = Some ?wk" "int_field cur' ''state_version'' = 1 + 1"
    "item_get cur' ''evidence_id'' = PStr (evidence_id cd ?e)"
    "\<And>d n. whole_in_range False (item_get cur (reservation_field d)) = Some n
       \<Longrightarrow> whole_in_range False (item_get cur' (reservation_field d)) = Some n"
    "counter_on cd ?b ?wk ?t2 = Some (Some c')"
    "\<And>f. f \<in> set (count_fields TOKENS) \<Longrightarrow> count c' f = new_count (Some c) (record_counts us c) f"
    "keyed ?t2" "fence_active ?t2 ?b (int_field cur' ''account_fence_generation'')"
    unfolding s1(9) by blast
  have c': "count c' (reserved_field d) = prior_count previous (reserved_field d) + requested rq d"
      "count c' (finalized_field d) = prior_count previous (finalized_field d)"
      "count c' (cost_field d) = prior_count previous (cost_field d) + used us d" for d
    by (simp_all add: s2(8) record_counts_fields prior_count_def [of "Some c"] c)
  have ri: "whole_in_range False (item_get cur' ''reservation_input_tokens'') = Some (rq_input rq)"
      "whole_in_range False (item_get cur' ''reservation_output_tokens'') = Some (rq_output rq)"
    using s2(6) [OF s1(7) [of Input_Tokens]] s2(6) [OF s1(7) [of Output_Tokens]] by (simp_all add: requested_def)
  note nn = prior_nonneg [OF ft dim_fields(1)] prior_nonneg [OF ft dim_fields(2)]
  have us0: "0 \<le> us_input us" "0 \<le> us_output us" using ok(2) by (simp_all add: usage_ok_def exact_count_def)
  have bud: "budget_input (rq_budget rq) \<le> MAX_EXACT_COUNT" "budget_output (rq_budget rq) \<le> MAX_EXACT_COUNT"
    using ok(1) by (auto simp: request_ok_def dest: budget_okD)
  have roomy: "prior_count previous (finalized_field Input_Tokens) + rq_input rq \<le> MAX_EXACT_COUNT"
      "prior_count previous (finalized_field Output_Tokens) + rq_output rq \<le> MAX_EXACT_COUNT"
    using room bud nn(1) [of Input_Tokens] nn(1) [of Output_Tokens] by (simp_all add: reserve_room_def)
  let ?ev = "seen cd us seen_at"
  have debit: "settled_input st ?ev \<le> rq_input rq" "settled_output st ?ev \<le> rq_output rq"
    using within us0 by (auto simp: settled_input_def settled_output_def seen_def)
  have held: "rq_input rq \<le> count c' ''reserved_input_tokens''" "rq_output rq \<le> count c' ''reserved_output_tokens''"
    using c'(1) [of Input_Tokens] c'(1) [of Output_Tokens] nn(1) [of Input_Tokens] nn(1) [of Output_Tokens]
    by (simp_all add: requested_def)
  have fin: "count c' ''finalized_input_tokens'' + settled_input st ?ev \<le> MAX_EXACT_COUNT"
      "count c' ''finalized_output_tokens'' + settled_output st ?ev \<le> MAX_EXACT_COUNT"
    using c'(2) [of Input_Tokens] c'(2) [of Output_Tokens] roomy debit by simp_all
  have evd: "sha256_text (item_get cur' ''evidence_id'') = Some (evidence_id cd ?e)"
    unfolding s2(5) by (rule sha256_evidence)
  have evrow: "?t2 (evidence_key ?b (evidence_id cd ?e)) = Some (stored_item (evidence_item cd us seen_at cur))"
    by (simp add: recorded_table_def usage_evidence_key_def b)
  have sv: "int_field cur' ''state_version'' < MAX_EXACT_COUNT" by (simp add: s2(4) MAX_EXACT_COUNT_def)
  obtain rid where call3: "complete_allowance cd (world_db act) st (Aware done_at) (quiet ?t2) =
    (Inr (if st_restore st then F_Restored else F_Finalized,
       Some (outcome_of st ?ev rid (evidence_id cd ?e) (rq_input rq) (rq_output rq) (int_field cur' ''state_version'' + 1) done_at)),
     quiet (settled_table cd st done_at cur' ?wk c' ?ev (rq_input rq) (rq_output rq) ?t2))"
    by (rule settle_quiet [OF ok(3) s2(9), unfolded b, OF s2(1,2,3,7) evd evrow stored_evidence_reads [OF ok(2)] s2(10) ri held _ _ _ _ fin sv])
      (use within us0 in \<open>simp_all add: seen_def\<close>)
  let ?t3 = "settled_table cd st done_at cur' ?wk c' ?ev (rq_input rq) (rq_output rq) ?t2"
  have pos: "0 \<le> rq_input rq" "0 \<le> rq_output rq" "0 \<le> settled_input st ?ev" "0 \<le> settled_output st ?ev"
    using ok(1) us0 by (simp_all add: request_ok_def exact_count_def settled_input_def settled_output_def seen_def)
  note w = settle_counts_write [OF s2(7) pos held fin, of done_at]
  have num: "counter_num f ?b (week_identity ?wk) ?t3 = new_count (Some c') (settle_counts st c' ?ev (rq_input rq) (rq_output rq)) f"
    if "f \<in> set (count_fields TOKENS)" for f
    using token_row_num [OF w s2(7) that] by (simp add: settled_table_def counter_num_counter b)
  have deb: "debited st ?ev d = (if st_restore st then 0 else used us d)" for d
    by (cases d) (simp_all add: debited_def used_def settled_input_def settled_output_def seen_def)
  have gb: "given_back (rq_input rq) (rq_output rq) d = - requested rq d" for d
    by (cases d) (simp_all add: given_back_def requested_def)
  show ?thesis
  proof (rule that [OF call1 call2 call3])
    fix d
    show "counter_num (reserved_field d) ?b (week_identity ?wk) ?t3 = prior_count previous (reserved_field d)"
      by (simp add: num settle_counts_fields prior_count_def [of "Some c'"] c' gb)
    show "counter_num (finalized_field d) ?b (week_identity ?wk) ?t3
        = prior_count previous (finalized_field d) + (if st_restore st then 0 else used us d)"
      by (simp add: num settle_counts_fields prior_count_def [of "Some c'"] c' deb)
    show "counter_num (cost_field d) ?b (week_identity ?wk) ?t3 = prior_count previous (cost_field d) + used us d"
      by (simp add: num settle_counts_fields prior_count_def [of "Some c'"] c')
  qed
qed

text \<open>A reservation of unknown cost is released: its ceiling becomes cost, nothing stays reserved.\<close>

lemma unknown_usage_ok:
  assumes "request_ok cd rq"
  shows "usage_ok (unknown_usage cd (rq_beneficiary rq) (rq_effect rq) (rq_input rq) (rq_output rq))"
  using assms sha256_shape by (simp add: usage_ok_def request_ok_def unknown_usage_def Let_def payload_digest_def)

lemma undelivered_ok: "request_ok cd rq \<Longrightarrow> settle_ok (undelivered (rq_beneficiary rq) (rq_effect rq))"
  by (simp add: settle_ok_def request_ok_def undelivered_def delivered_def)

lemma release_life:
  assumes ok: "request_ok cd rq" and key: "keyed t"
    and fence: "fence_active t (rq_beneficiary rq) g" and g: "1 \<le> g" "g \<le> MAX_EXACT_COUNT"
    and new: "t (effect_key (rq_beneficiary rq) (rq_effect rq)) = None"
      "t (evidence_key (rq_beneficiary rq) (evidence_id cd (rq_effect rq))) = None"
    and cnt: "counter_on cd (rq_beneficiary rq) (rq_week rq) t = Some previous" and room: "reserve_room rq previous"
    and versions: "next_version previous < MAX_EXACT_COUNT"
    and costs: "prior_count previous ''provider_cost_input_tokens'' + rq_input rq \<le> MAX_EXACT_COUNT"
      "prior_count previous ''provider_cost_output_tokens'' + rq_output rq \<le> MAX_EXACT_COUNT"
    and range: "datetime_range now" "datetime_range released_at"
  obtains t1 t2 r where
    "reserve_allowance cd (world_db act) rq (Aware now) (Some g) (quiet t) = (Inr (R_Admitted, Some r), quiet t1)"
    "release_unknown_cost cd (world_db act) (rq_beneficiary rq) (rq_effect rq) (Aware released_at) (quiet t1)
       = (Inr L_Released, quiet t2)"
    "\<And>d. counter_num (reserved_field d) (rq_beneficiary rq) (week_identity (rq_week rq)) t2
       = prior_count previous (reserved_field d)"
    "\<And>d. counter_num (finalized_field d) (rq_beneficiary rq) (week_identity (rq_week rq)) t2
       = prior_count previous (finalized_field d)"
    "\<And>d. counter_num (cost_field d) (rq_beneficiary rq) (week_identity (rq_week rq)) t2
       = prior_count previous (cost_field d) + requested rq d"
proof -
  let ?b = "rq_beneficiary rq" and ?e = "rq_effect rq" and ?st = "undelivered (rq_beneficiary rq) (rq_effect rq)"
  let ?us = "unknown_usage cd ?b ?e (rq_input rq) (rq_output rq)"
  have same: "same_effect rq ?us ?st" by (simp add: same_effect_def unknown_usage_def Let_def undelivered_def)
  have us: "us_input ?us = rq_input rq" "us_output ?us = rq_output rq" "us_beneficiary ?us = ?b" "us_effect ?us = ?e"
    by (simp_all add: unknown_usage_def Let_def)
  have evk: "t (usage_evidence_key cd ?us) = None" using new(2) by (simp add: usage_evidence_key_def us)
  obtain t1 t2 t3 r x y where life:
    "reserve_allowance cd (world_db act) rq (Aware now) (Some g) (quiet t) = (Inr (R_Admitted, Some r), quiet t1)"
    "record_usage cd (world_db act) ?us (Aware released_at) (quiet t1) = (Inr (P_Recorded, Some x), quiet t2)"
    "complete_allowance cd (world_db act) ?st (Aware released_at) (quiet t2)
       = (Inr (if st_restore ?st then F_Restored else F_Finalized, Some y), quiet t3)"
    "\<And>d. counter_num (reserved_field d) ?b (week_identity (rq_week rq)) t3 = prior_count previous (reserved_field d)"
    "\<And>d. counter_num (finalized_field d) ?b (week_identity (rq_week rq)) t3
       = prior_count previous (finalized_field d) + (if st_restore ?st then 0 else used ?us d)"
    "\<And>d. counter_num (cost_field d) ?b (week_identity (rq_week rq)) t3 = prior_count previous (cost_field d) + used ?us d"
    by (rule token_life [OF same ok unknown_usage_ok [OF ok] undelivered_ok [OF ok] key fence g new(1) evk cnt room versions
          _ _ _ _ range, of act released_at]) (use costs in \<open>auto simp: us\<close>)
  from reserve_quiet [OF ok key fence g new(1) cnt room, of act now] life(1)
  have t1: "t1 = reserved_table cd rq g now previous t" by simp
  from recordable_after_reserve [OF ok key g cnt room range(1) fence] obtain cur where
    cur: "effect_on cd ?b ?e t1 = Some cur" "item_get cur ''state'' = PStr ''reserved''"
    and rf: "\<And>d. whole_in_range False (item_get cur (reservation_field d)) = Some (requested rq d)"
    unfolding t1 by blast
  from cur(1) obtain raw where raw: "t1 (effect_key ?b ?e) = Some raw" "validated_effect cd ?b ?e raw = Inr cur"
    by (rule effect_on_SomeD)
  have ri: "whole_in_range False (item_get cur ''reservation_input_tokens'') = Some (rq_input rq)"
      "whole_in_range False (item_get cur ''reservation_output_tokens'') = Some (rq_output rq)"
    using rf [of Input_Tokens] rf [of Output_Tokens] by (simp_all add: requested_def)
  have open': "\<not> settled_row cur" by (simp add: settled_row_def cur(2))
  have valid: "\<not> (required_text 200 (PStr ?b) = None \<or> sha256_text (PStr ?e) = None)"
    using ok by (simp add: request_ok_def)
  have restored: "release_restored cd (world_db act) ?b ?e (Aware released_at) (quiet t2) = (Inr L_Released, quiet t3)"
    using life(3) by (simp add: release_restored_def undelivered_def)
  have "release_unknown_cost cd (world_db act) ?b ?e (Aware released_at) (quiet t1) = (Inr L_Released, quiet t3)"
    unfolding release_unknown_cost_def if_not_P [OF valid] moment.case
    by (simp add: quiet_get raw ri open' cur(2) life(2) restored del: if_split)
  moreover have "used ?us d = requested rq d" for d by (cases d) (simp_all add: used_def requested_def us)
  moreover have "st_restore ?st" by (simp add: undelivered_def)
  ultimately show ?thesis using life(1,4,5,6) by (intro that [of r t1 t3]) simp_all
qed

end

end
