(* ===== verification/Ledger_World.thy ===== *)
theory Ledger_World
  imports Ledger_Day
begin

text \<open>
  The ledger among other clients of the ledger: a table whose script lets other commands of the
  ledger (and puts of rows elsewhere) happen around every call, and drops calls or their answers. It
  is an instance of what the client theorems assume, and the place where they are tried out.
\<close>

datatype command =
    Do_Reserve reserve_request int int
  | Do_Record usage_request int
  | Do_Settle settle_request int
  | Do_Put item

definition commit_now :: "'r decision \<Rightarrow> table \<Rightarrow> table" where
  "commit_now v t = (case v of Transact ops _ \<Rightarrow> foreign ops t | _ \<Rightarrow> t)"

text \<open>A whole command at one instant: what an attempt does when nobody interferes.\<close>

definition reserve_now :: "codec \<Rightarrow> reserve_request \<Rightarrow> int \<Rightarrow> int \<Rightarrow> table \<Rightarrow> table" where
  "reserve_now cd rq g now t =
     (if request_ok cd rq \<and> exact_count True g \<and> t (effect_key (rq_beneficiary rq) (rq_effect rq)) = None
      then case counter_on cd (rq_beneficiary rq) (rq_week rq) t of
          None \<Rightarrow> t
        | Some previous \<Rightarrow> commit_now (reserve_decision cd rq g now previous) t
      else t)"

definition record_now :: "codec \<Rightarrow> usage_request \<Rightarrow> int \<Rightarrow> table \<Rightarrow> table" where
  "record_now cd us now t =
     (case effect_on cd (us_beneficiary us) (us_effect us) t of
        None \<Rightarrow> t
      | Some cur \<Rightarrow>
          (case effect_week cd cur of
             None \<Rightarrow> t
           | Some wk \<Rightarrow>
               (case counter_on cd (us_beneficiary us) wk t of
                  Some (Some c) \<Rightarrow>
                    (if usage_ok us \<and> item_get cur ''state'' = PStr ''reserved''
                     then commit_now (record_decision cd us now cur wk c) t else t)
                | _ \<Rightarrow> t)))"

definition settle_now :: "codec \<Rightarrow> settle_request \<Rightarrow> int \<Rightarrow> table \<Rightarrow> table" where
  "settle_now cd st now t =
     (case effect_on cd (st_beneficiary st) (st_effect st) t of
        None \<Rightarrow> t
      | Some cur \<Rightarrow>
          (case effect_week cd cur of
             None \<Rightarrow> t
           | Some wk \<Rightarrow>
               (case (counter_on cd (st_beneficiary st) wk t, evidence_on cd (st_beneficiary st) cur t) of
                  (Some (Some c), Some ev) \<Rightarrow>
                    (if settle_ok st \<and> item_get cur ''state'' = PStr ''observed''
                     then commit_now (settle_decision cd st now cur wk c ev) t else t)
                | _ \<Rightarrow> t)))"

definition put_elsewhere :: "item \<Rightarrow> table \<Rightarrow> table" where
  "put_elsewhere i t =
     (case item_key i of None \<Rightarrow> t | Some k \<Rightarrow> if ledger_key k then t else t(k \<mapsto> stored_item i))"

fun run_command :: "codec \<Rightarrow> command \<Rightarrow> table \<Rightarrow> table" where
  "run_command cd (Do_Reserve rq g now) t = reserve_now cd rq g now t"
| "run_command cd (Do_Record us now) t = record_now cd us now t"
| "run_command cd (Do_Settle st now) t = settle_now cd st now t"
| "run_command cd (Do_Put i) t = put_elsewhere i t"

lemma commit_now_cases: "commit_now v t = t \<or> (\<exists>ops r. v = Transact ops r \<and> tx_apply ops t = Some (commit_now v t))"
  by (auto simp: commit_now_def foreign_def split: decision.splits option.splits)

lemma run_command_run: "ledger_run cd t (run_command cd c t)"
proof (cases c)
  case (Do_Reserve rq g now)
  show ?thesis
  proof (cases "reserve_now cd rq g now t = t")
    case False
    then obtain previous where p: "request_ok cd rq" "exact_count True g"
        "t (effect_key (rq_beneficiary rq) (rq_effect rq)) = None"
        "counter_on cd (rq_beneficiary rq) (rq_week rq) t = Some previous"
        "reserve_now cd rq g now t = commit_now (reserve_decision cd rq g now previous) t"
      by (auto simp: reserve_now_def split: if_splits option.splits)
    with commit_now_cases [of "reserve_decision cd rq g now previous" t] False Do_Reserve show ?thesis
      by (auto intro: ledger_run_step ledger_step.reserving)
  qed (simp add: Do_Reserve)
next
  case (Do_Record us now)
  show ?thesis
  proof (cases "record_now cd us now t = t")
    case False
    then obtain cur wk c where p: "usage_ok us" "effect_on cd (us_beneficiary us) (us_effect us) t = Some cur"
        "item_get cur ''state'' = PStr ''reserved''" "effect_week cd cur = Some wk"
        "counter_on cd (us_beneficiary us) wk t = Some (Some c)"
        "record_now cd us now t = commit_now (record_decision cd us now cur wk c) t"
      by (auto simp: record_now_def split: if_splits option.splits)
    with commit_now_cases [of "record_decision cd us now cur wk c" t] False Do_Record show ?thesis
      by (auto intro: ledger_run_step ledger_step.recording)
  qed (simp add: Do_Record)
next
  case (Do_Settle st now)
  show ?thesis
  proof (cases "settle_now cd st now t = t")
    case False
    then obtain cur wk c ev where p: "settle_ok st" "effect_on cd (st_beneficiary st) (st_effect st) t = Some cur"
        "item_get cur ''state'' = PStr ''observed''" "effect_week cd cur = Some wk"
        "counter_on cd (st_beneficiary st) wk t = Some (Some c)"
        "evidence_on cd (st_beneficiary st) cur t = Some ev"
        "settle_now cd st now t = commit_now (settle_decision cd st now cur wk c ev) t"
      by (auto simp: settle_now_def split: if_splits option.splits)
    with commit_now_cases [of "settle_decision cd st now cur wk c ev" t] False Do_Settle show ?thesis
      by (auto intro: ledger_run_step ledger_step.settling)
  qed (simp add: Do_Settle)
next
  case (Do_Put i)
  have "ledger_step cd t (put_elsewhere i t)"
    by (rule ledger_step.elsewhere) (auto simp: put_elsewhere_def split: option.splits intro: keyed_upd)
  with Do_Put show ?thesis by (simp add: ledger_run_step)
qed

lemma acts_ledger_run: "acts (run_command cd) t t' \<Longrightarrow> ledger_run cd t t'"
proof -
  have "ledger_run cd t (fold (run_command cd) cs t)" for cs
  proof (induction cs arbitrary: t)
    case (Cons c cs)
    from ledger_run_trans [OF run_command_run Cons.IH] show ?case by simp
  qed simp
  then show "acts (run_command cd) t t' \<Longrightarrow> ledger_run cd t t'" by (auto simp: acts_def)
qed

abbreviation ledger_db :: "command world db" where
  "ledger_db \<equiv> world_db (run_command plain_codec)"

interpretation plain_ledger: ledger_client ledger_db tbl "acts (run_command plain_codec)" plain_codec
  by unfold_locales (rule acts_ledger_run)

section \<open>A day in the ledger\<close>

definition sample_now :: int where
  "sample_now = 1750000000000000"

definition sample_week :: zweek where
  "sample_week = \<lparr>iso_year = 2025, iso_week = 24, window_start = 1749420000000000, window_end = 1750024800000000\<rparr>"

definition sample_budget :: budget where
  "sample_budget = \<lparr>plan_id = FREE_TRIAL, budget_input = 50000, budget_output = 10000,
     teacher_support_cases = 0, teacher_support_scope = Scope_None, allowance_version = 1\<rparr>"

definition sample_effect :: string where
  "sample_effect = padded 64 7"

definition sample_request :: reserve_request where
  "sample_request = \<lparr>rq_beneficiary = ''ada'', rq_effect = sample_effect, rq_week = sample_week,
     rq_budget = sample_budget, rq_input = 1200, rq_output = 300\<rparr>"

definition sample_usage :: usage_request where
  "sample_usage = \<lparr>us_beneficiary = ''ada'', us_effect = sample_effect, us_request_digest = padded 64 1,
     us_model_digest = padded 64 2, us_input = 1000, us_output = 250, us_unknown_cost = False\<rparr>"

definition sample_settle :: settle_request where
  "sample_settle = \<lparr>st_beneficiary = ''ada'', st_effect = sample_effect, st_restore = False,
     st_technical = True, st_safety = True, st_durable = True, st_replay = True\<rparr>"

definition fence_row :: "string \<Rightarrow> item" where
  "fence_row u = dict_of [(''PK'', PStr (''USER#'' @ u)), (''SK'', PStr ''ACCOUNT_FENCE''),
     (''status'', PStr ''active''), (''generation'', PDec 1)]"

definition fenced :: table where
  "fenced = Map.empty((''USER#ada'', ''ACCOUNT_FENCE'') \<mapsto> fence_row ''ada'')"

text \<open>The first commit is dropped, the second is applied and its answer lost.\<close>

definition stormy :: "command world" where
  "stormy = \<lparr>tbl = fenced, script = [([], Answered), ([], Answered), ([], Answered), ([], Answered), ([], Dropped),
     ([], Answered), ([], Answered), ([], Answered), ([], Answer_Lost)]\<rparr>"

lemma fenced_inv: "ledger_inv fenced"
  by (rule empty_ledger_inv)
    (auto simp: fenced_def keyed_def item_key_def fence_row_def row_lookup ledger_key_def)

lemma sample_walls:
  "to_wall zurich_2025 1749420000000000 = 1749427200000000"
  "to_wall zurich_2025 1750024800000000 = 1750032000000000"
  by (simp_all add: to_wall_def zurich_2025_def)

lemma sample_mondays: "monday_midnight 1749427200000000" "monday_midnight 1750032000000000"
  by (simp_all add: monday_midnight_def weekday_def ordinal_of_def)

lemma sample_year: "year_of 739414 = 2025"
  by (simp add: year_of_def Let_def)

lemma sample_isocalendar: "isocalendar (ordinal_of 1749427200000000) = (2025, 24)"
proof -
  have "ordinal_of 1749427200000000 = 739411" "weekday 739411 = 0" "days_before_year 2025 = 739251"
    by (simp_all add: ordinal_of_def weekday_def days_before_year_def)
  then show ?thesis by (simp add: isocalendar_def sample_year)
qed

lemma zurich_plain: "zurich plain_codec = zurich_2025"
  by (simp add: plain_codec_def)

lemma sample_week_ok: "week_ok plain_codec sample_week"
  by (simp add: week_ok_def sample_week_def validate_zurich_calendar_week_def zurich_plain sample_walls
      sample_mondays sample_isocalendar)

lemma sample_budget_ok: "budget_ok sample_budget"
  by (simp add: budget_ok_def validate_locked_budget_def sample_budget_def exact_count_def MAX_EXACT_COUNT_def)

end
