(* ===== verification/Runtime.thy ===== *)
theory Runtime
  imports Account_Fence Codec
begin

text \<open>
  The parts of the Python runtime the access-control modules lean on: truth of a stored value,
  \<open>str(value or default)\<close>, ISO time stamps, and calendar dates with completed years
  (\<open>models/user.py\<close>).

  \<open>datetime.fromisoformat\<close> and \<open>str\<close> of a number that came back as a \<open>Decimal\<close>, of a \<open>float\<close> and
  of a container are arguments (a \<open>runtime\<close>): their texts are not determined by the values the
  model keeps. Everything else is written out.
\<close>

section \<open>Truth and text\<close>

fun truthy :: "pyval \<Rightarrow> bool" where
  "truthy PNone = False"
| "truthy (PBool b) = b"
| "truthy (PInt n) = (n \<noteq> 0)"
| "truthy (PDec q) = (q \<noteq> 0)"
| "truthy PDec_Special = True"
| "truthy (PFloat q) = (q \<noteq> 0)"
| "truthy PFloat_Special = True"
| "truthy (PStr s) = (s \<noteq> [])"
| "truthy (PList vs) = (vs \<noteq> [])"
| "truthy (PDict kvs) = (kvs \<noteq> [])"

text \<open>
  A \<open>datetime\<close>: its wall clock in microseconds since 1970-01-01T00:00 and its offset from UTC, or
  none when it is naive.
\<close>

datatype stamp = Stamp int "int option"

fun instant :: "stamp \<Rightarrow> int" where
  "instant (Stamp wall None) = wall"
| "instant (Stamp wall (Some offset)) = wall - offset"

fun wall_of :: "stamp \<Rightarrow> int" where
  "wall_of (Stamp wall offset) = wall"

record runtime =
  from_iso :: "string \<Rightarrow> stamp option"
  other_str :: "pyval \<Rightarrow> string"

fun py_str :: "runtime \<Rightarrow> pyval \<Rightarrow> string" where
  "py_str rt (PStr s) = s"
| "py_str rt PNone = ''None''"
| "py_str rt (PBool b) = (if b then ''True'' else ''False'')"
| "py_str rt (PInt n) = int_text n"
| "py_str rt v = other_str rt v"

text \<open>\<open>str(value or default)\<close>\<close>

definition str_or :: "runtime \<Rightarrow> pyval \<Rightarrow> string \<Rightarrow> string" where
  "str_or rt v d = (if truthy v then py_str rt v else d)"

lemma str_or_PStr [simp]: "str_or rt (PStr s) d = (if s = [] then d else s)"
  by (simp add: str_or_def)

lemma str_or_PNone [simp]: "str_or rt PNone d = d"
  by (simp add: str_or_def)

text \<open>\<open>value.replace("Z", "+00:00")\<close>\<close>

definition replace_z :: "string \<Rightarrow> string" where
  "replace_z s = concat (map (\<lambda>c. if c = CHR ''Z'' then ''+00:00'' else [c]) s)"

text \<open>
  The texts the repositories require: \<open>_required\<close> of \<open>parent_link_repo\<close> and its copies, on an
  argument and on a stored value.
\<close>

definition required_field :: "string \<Rightarrow> string result" where
  "required_field s = (if strip s = [] then Inl Value_Error else Inr (strip s))"

fun required_value :: "pyval \<Rightarrow> string result" where
  "required_value (PStr s) = required_field s"
| "required_value _ = Inl Value_Error"

lemma strip_strip [simp]: "strip (strip s) = strip s"
proof -
  have drop: "dropWhile py_space xs = xs" if "xs = [] \<or> \<not> py_space (hd xs)" for xs
    using that by (cases xs) auto
  let ?t = "dropWhile py_space s"
  let ?u = "dropWhile py_space (rev ?t)"
  have u: "?u = [] \<or> \<not> py_space (hd ?u)" using hd_dropWhile [of py_space "rev ?t"] by blast
  obtain zs where zs: "rev ?t = zs @ ?u" by (metis takeWhile_dropWhile_id)
  have front: "hd (a @ b) = hd a" if "a \<noteq> []" for a b :: string
    using that by (cases a) auto
  have "rev ?u = [] \<or> \<not> py_space (hd (rev ?u))"
  proof (cases "rev ?u = []")
    case False
    have t: "?t = rev ?u @ rev zs" using arg_cong [OF zs, of rev] unfolding rev_append rev_rev_ident .
    have "?t \<noteq> []" using False by (subst t) simp
    then have "\<not> py_space (hd ?t)" by (rule hd_dropWhile)
    moreover have "hd ?t = hd (rev ?u)" by (subst t) (rule front [OF False])
    ultimately show ?thesis by simp
  qed simp
  then have "dropWhile py_space (rev ?u) = rev ?u" by (rule drop)
  with drop [OF u] show ?thesis by (simp add: strip_def)
qed

lemma required_field_InrD: "required_field s = Inr v \<Longrightarrow> v = strip s \<and> v \<noteq> []"
  by (auto simp: required_field_def split: if_splits)

lemma required_field_idem: "required_field s = Inr v \<Longrightarrow> required_field v = Inr v"
  by (auto simp: required_field_def split: if_splits)

section \<open>Dates\<close>

text \<open>
  A calendar date is year, month and day; \<open>date_of\<close> is the date a wall clock shows.
\<close>

type_synonym date = "int \<times> int \<times> int"

definition leap_year :: "int \<Rightarrow> bool" where
  "leap_year y = (y mod 4 = 0 \<and> (y mod 100 \<noteq> 0 \<or> y mod 400 = 0))"

definition month_lengths :: "int \<Rightarrow> int list" where
  "month_lengths y = [31, if leap_year y then 29 else 28, 31, 30, 31, 30, 31, 31, 30, 31, 30, 31]"

fun month_and_day :: "int list \<Rightarrow> int \<Rightarrow> int \<Rightarrow> int \<times> int" where
  "month_and_day (l # m # ls) month day =
     (if day \<le> l then (month, day) else month_and_day (m # ls) (month + 1) (day - l))"
| "month_and_day ls month day = (month, day)"

definition date_of_ordinal :: "int \<Rightarrow> date" where
  "date_of_ordinal n =
     (let y = year_of n in (y, month_and_day (month_lengths y) 1 (n - days_before_year y)))"

definition date_of :: "int \<Rightarrow> date" where
  "date_of wall = date_of_ordinal (ordinal_of wall)"

fun date_le :: "date \<Rightarrow> date \<Rightarrow> bool" where
  "date_le (y, m, d) (y', m', d') = (y < y' \<or> (y = y' \<and> (m < m' \<or> (m = m' \<and> d \<le> d'))))"

fun valid_date :: "date \<Rightarrow> bool" where
  "valid_date (y, m, d) =
     (1 \<le> y \<and> 1 \<le> m \<and> m \<le> 12 \<and> 1 \<le> d \<and> d \<le> month_lengths y ! nat (m - 1))"

text \<open>\<open>completed_years\<close>: the birthday itself already counts as the new year.\<close>

fun completed_years :: "date \<Rightarrow> date \<Rightarrow> int" where
  "completed_years (y, m, d) (y', m', d') =
     y' - y - (if m' < m \<or> (m' = m \<and> d' < d) then 1 else 0)"

text \<open>
  \<open>normalize_date_of_birth\<close>: exactly \<open>YYYY-MM-DD\<close>, a real date, not in the future, not more than
  \<open>MAX_REGISTRATION_AGE\<close> completed years ago. The model returns the date the accepted text names.
\<close>

definition MAX_REGISTRATION_AGE :: int where
  "MAX_REGISTRATION_AGE = 120"

definition ADULT_AGE :: int where
  "ADULT_AGE = 18"

definition date_pattern :: "string \<Rightarrow> bool" where
  "date_pattern s =
     (length s = 10 \<and> s ! 4 = CHR ''-'' \<and> s ! 7 = CHR ''-''
      \<and> list_all ascii_digit (take 4 s @ take 2 (drop 5 s) @ drop 8 s))"

definition date_text :: "string \<Rightarrow> date" where
  "date_text s = (int (text_nat (take 4 s)), int (text_nat (take 2 (drop 5 s))), int (text_nat (drop 8 s)))"

definition normalize_date_of_birth :: "pyval \<Rightarrow> date \<Rightarrow> date option" where
  "normalize_date_of_birth raw today =
     (case raw of
        PStr s \<Rightarrow>
          (let t = strip s; born = date_text t
           in if \<not> date_pattern t then None
              else if \<not> valid_date born then None
              else if \<not> date_le born today then None
              else if MAX_REGISTRATION_AGE < completed_years born today then None
              else Some born)
      | _ \<Rightarrow> None)"

text \<open>
  \<open>is_minor\<close> and \<open>account_is_minor\<close>: an unreadable clock, an unreadable birthday and an account
  row that is not there all count as a minor.
\<close>

definition is_minor :: "pyval \<Rightarrow> stamp option \<Rightarrow> int \<Rightarrow> bool" where
  "is_minor birthday clock adult_age =
     (case clock of
        None \<Rightarrow> True
      | Some st \<Rightarrow>
          (case normalize_date_of_birth birthday (date_of (wall_of st)) of
             None \<Rightarrow> True
           | Some born \<Rightarrow> completed_years born (date_of (wall_of st)) < adult_age))"

definition account_is_minor :: "item option \<Rightarrow> stamp option \<Rightarrow> int \<Rightarrow> bool" where
  "account_is_minor profile clock adult_age =
     (case profile of
        None \<Rightarrow> True
      | Some p \<Rightarrow> is_minor (item_get p ''date_of_birth'') clock adult_age)"

lemma account_adultD:
  assumes "\<not> account_is_minor profile clock n"
  obtains p st born where "profile = Some p" "clock = Some st"
    "normalize_date_of_birth (item_get p ''date_of_birth'') (date_of (wall_of st)) = Some born"
    "n \<le> completed_years born (date_of (wall_of st))"
  using assms by (auto simp: account_is_minor_def is_minor_def not_less split: option.splits)

text \<open>A concrete runtime: a stamp is read as its decimal number of microseconds, in UTC.\<close>

definition plain_runtime :: runtime where
  "plain_runtime = \<lparr>from_iso = (\<lambda>s. if take 2 s = ''us'' then Some (Stamp (text_int (drop 2 s)) (Some 0)) else None),
     other_str = (\<lambda>_. ''?'')\<rparr>"

end
