(* ===== verification/Access_Identity.thy ===== *)
theory Access_Identity
  imports Runtime
begin

text \<open>
  Who is calling (\<open>security/identity.py\<close>) and how the security layer refuses
  (\<open>security/errors.py\<close>). A verified access token is resolved into an actor from local facts
  alone; every failure ends in one of the registered codes.

  The identity repository is an interface here, a function per call: each is asked at most once for
  one resolution, so its answers are all that matters. A call may answer, refuse with a code of
  its own, or fail with any other exception.
\<close>

section \<open>Codes and their contracts\<close>

datatype security_code =
    AUTHENTICATION_REQUIRED | INVALID_TOKEN | TOKEN_EXPIRED | IDENTITY_CONFLICT
  | PARENT_BINDING_REQUIRED | TEACHER_REVIEW_PENDING | ACTION_NOT_ALLOWED | RESOURCE_NOT_FOUND
  | IDENTITY_PROVIDER_UNAVAILABLE | AUTHORIZATION_TEMPORARILY_UNAVAILABLE | INVALID_CREDENTIALS
  | EMAIL_VERIFICATION_REQUIRED | ACCOUNT_DISABLED | EMAIL_ALREADY_REGISTERED
  | PASSWORD_REQUIREMENTS_NOT_MET | VERIFICATION_CODE_INVALID | VERIFICATION_CODE_EXPIRED
  | PASSWORD_RESET_REQUEST_INVALID | AUTH_REQUEST_RATE_LIMITED

fun code_text :: "security_code \<Rightarrow> string" where
  "code_text AUTHENTICATION_REQUIRED = ''authentication_required''"
| "code_text INVALID_TOKEN = ''invalid_token''"
| "code_text TOKEN_EXPIRED = ''token_expired''"
| "code_text IDENTITY_CONFLICT = ''identity_conflict''"
| "code_text PARENT_BINDING_REQUIRED = ''parent_binding_required''"
| "code_text TEACHER_REVIEW_PENDING = ''teacher_review_pending''"
| "code_text ACTION_NOT_ALLOWED = ''action_not_allowed''"
| "code_text RESOURCE_NOT_FOUND = ''resource_not_found''"
| "code_text IDENTITY_PROVIDER_UNAVAILABLE = ''identity_provider_unavailable''"
| "code_text AUTHORIZATION_TEMPORARILY_UNAVAILABLE = ''authorization_temporarily_unavailable''"
| "code_text INVALID_CREDENTIALS = ''invalid_credentials''"
| "code_text EMAIL_VERIFICATION_REQUIRED = ''email_verification_required''"
| "code_text ACCOUNT_DISABLED = ''account_disabled''"
| "code_text EMAIL_ALREADY_REGISTERED = ''email_already_registered''"
| "code_text PASSWORD_REQUIREMENTS_NOT_MET = ''password_requirements_not_met''"
| "code_text VERIFICATION_CODE_INVALID = ''verification_code_invalid''"
| "code_text VERIFICATION_CODE_EXPIRED = ''verification_code_expired''"
| "code_text PASSWORD_RESET_REQUEST_INVALID = ''password_reset_request_invalid''"
| "code_text AUTH_REQUEST_RATE_LIMITED = ''auth_request_rate_limited''"

datatype client_action =
    REAUTHENTICATE | COMPLETE_PARENT_BINDING | WAIT_FOR_TEACHER_REVIEW | START_ACCOUNT_RECOVERY
  | CONTACT_SUPPORT | RETRY_LATER | VERIFY_EMAIL | CORRECT_INPUT | REQUEST_NEW_CODE

text \<open>\<open>RuleContract\<close> of \<open>rule_violation.py\<close>, without the public fields, which no security code has.\<close>

record rule_contract =
  http_status :: int
  rc_action :: "client_action option"
  retryable :: bool
  idempotent_only :: bool
  max_attempts :: nat
  retry_after :: "int option"

definition plain_contract :: "int \<Rightarrow> client_action option \<Rightarrow> rule_contract" where
  "plain_contract status action = \<lparr>http_status = status, rc_action = action, retryable = False,
     idempotent_only = False, max_attempts = 0, retry_after = None\<rparr>"

definition outage :: "client_action \<Rightarrow> int \<Rightarrow> rule_contract" where
  "outage action seconds = \<lparr>http_status = 503, rc_action = Some action, retryable = True,
     idempotent_only = True, max_attempts = 2, retry_after = Some seconds\<rparr>"

fun SECURITY_ERROR_REGISTRY :: "security_code \<Rightarrow> rule_contract" where
  "SECURITY_ERROR_REGISTRY AUTHENTICATION_REQUIRED = plain_contract 401 (Some REAUTHENTICATE)"
| "SECURITY_ERROR_REGISTRY INVALID_TOKEN = plain_contract 401 (Some REAUTHENTICATE)"
| "SECURITY_ERROR_REGISTRY TOKEN_EXPIRED =
     (plain_contract 401 (Some REAUTHENTICATE))\<lparr>retryable := True, max_attempts := 1\<rparr>"
| "SECURITY_ERROR_REGISTRY IDENTITY_CONFLICT = plain_contract 409 (Some START_ACCOUNT_RECOVERY)"
| "SECURITY_ERROR_REGISTRY PARENT_BINDING_REQUIRED = plain_contract 409 (Some COMPLETE_PARENT_BINDING)"
| "SECURITY_ERROR_REGISTRY TEACHER_REVIEW_PENDING = plain_contract 409 (Some WAIT_FOR_TEACHER_REVIEW)"
| "SECURITY_ERROR_REGISTRY ACTION_NOT_ALLOWED = plain_contract 403 None"
| "SECURITY_ERROR_REGISTRY RESOURCE_NOT_FOUND = plain_contract 404 None"
| "SECURITY_ERROR_REGISTRY IDENTITY_PROVIDER_UNAVAILABLE = outage RETRY_LATER 15"
| "SECURITY_ERROR_REGISTRY AUTHORIZATION_TEMPORARILY_UNAVAILABLE = outage RETRY_LATER 30"
| "SECURITY_ERROR_REGISTRY INVALID_CREDENTIALS = plain_contract 401 (Some CORRECT_INPUT)"
| "SECURITY_ERROR_REGISTRY EMAIL_VERIFICATION_REQUIRED = plain_contract 403 (Some VERIFY_EMAIL)"
| "SECURITY_ERROR_REGISTRY ACCOUNT_DISABLED = plain_contract 403 (Some CONTACT_SUPPORT)"
| "SECURITY_ERROR_REGISTRY EMAIL_ALREADY_REGISTERED = plain_contract 409 (Some REAUTHENTICATE)"
| "SECURITY_ERROR_REGISTRY PASSWORD_REQUIREMENTS_NOT_MET = plain_contract 400 (Some CORRECT_INPUT)"
| "SECURITY_ERROR_REGISTRY VERIFICATION_CODE_INVALID = plain_contract 400 (Some CORRECT_INPUT)"
| "SECURITY_ERROR_REGISTRY VERIFICATION_CODE_EXPIRED = plain_contract 400 (Some REQUEST_NEW_CODE)"
| "SECURITY_ERROR_REGISTRY PASSWORD_RESET_REQUEST_INVALID = plain_contract 400 (Some START_ACCOUNT_RECOVERY)"
| "SECURITY_ERROR_REGISTRY AUTH_REQUEST_RATE_LIMITED = plain_contract 429 (Some RETRY_LATER)"

text \<open>The checks of \<open>RuleContract.__post_init__\<close>.\<close>

definition contract_ok :: "rule_contract \<Rightarrow> bool" where
  "contract_ok c =
     (400 \<le> http_status c \<and> http_status c \<le> 599
      \<and> (case retry_after c of None \<Rightarrow> True | Some s \<Rightarrow> 1 \<le> s \<and> s \<le> 86400))"

text \<open>None of the registered contracts is refused while the registry is built.\<close>

lemma registry_contracts: "contract_ok (SECURITY_ERROR_REGISTRY c)"
  by (cases c; simp add: contract_ok_def plain_contract_def outage_def)

text \<open>
  \<open>safe_error_response\<close>: the status of the code's contract, the code in the body, and a
  \<open>Retry-After\<close> header only where the contract carries a retry time; a time outside 1 to 120
  seconds, or for another code, is a \<open>ValueError\<close>. The message is the catalog's.
\<close>

record error_response =
  er_status :: int
  er_code :: string
  er_retry_after :: "int option"

definition safe_error_response :: "security_code \<Rightarrow> int option \<Rightarrow> error_response result" where
  "safe_error_response code seconds =
     (case seconds of
        None \<Rightarrow> Inr \<lparr>er_status = http_status (SECURITY_ERROR_REGISTRY code), er_code = code_text code, er_retry_after = None\<rparr>
      | Some s \<Rightarrow>
          (if retry_after (SECURITY_ERROR_REGISTRY code) = None then Inl Value_Error
           else if \<not> (1 \<le> s \<and> s \<le> 120) then Inl Value_Error
           else Inr \<lparr>er_status = http_status (SECURITY_ERROR_REGISTRY code), er_code = code_text code, er_retry_after = Some s\<rparr>))"

section \<open>Roles, accounts, actors\<close>

datatype canonical_role = ROLE_STUDENT | ROLE_PARENT | ROLE_TEACHER | ROLE_ADMIN

fun role_text :: "canonical_role \<Rightarrow> string" where
  "role_text ROLE_STUDENT = ''student''"
| "role_text ROLE_PARENT = ''parent''"
| "role_text ROLE_TEACHER = ''teacher''"
| "role_text ROLE_ADMIN = ''admin''"

datatype account_status =
    ACTIVE | PENDING_VERIFICATION | PENDING_REVIEW | SUSPENDED | SUSPENDED_PENDING_REVIEW
  | REVOKED | DISABLED | DELETION_PENDING | DELETED

fun status_text :: "account_status \<Rightarrow> string" where
  "status_text ACTIVE = ''active''"
| "status_text PENDING_VERIFICATION = ''pending_verification''"
| "status_text PENDING_REVIEW = ''pending_review''"
| "status_text SUSPENDED = ''suspended''"
| "status_text SUSPENDED_PENDING_REVIEW = ''suspended_pending_review''"
| "status_text REVOKED = ''revoked''"
| "status_text DISABLED = ''disabled''"
| "status_text DELETION_PENDING = ''deletion_pending''"
| "status_text DELETED = ''deleted''"

text \<open>An enumeration called on a text: the member with that value, or \<open>ValueError\<close>.\<close>

definition role_of_text :: "string \<Rightarrow> canonical_role option" where
  "role_of_text s = find (\<lambda>r. role_text r = s) [ROLE_STUDENT, ROLE_PARENT, ROLE_TEACHER, ROLE_ADMIN]"

definition status_of_text :: "string \<Rightarrow> account_status option" where
  "status_of_text s = find (\<lambda>a. status_text a = s)
     [ACTIVE, PENDING_VERIFICATION, PENDING_REVIEW, SUSPENDED, SUSPENDED_PENDING_REVIEW, REVOKED,
      DISABLED, DELETION_PENDING, DELETED]"

record capability_grant =
  capability :: string
  grant_scope :: string
  grant_version :: int

record actor =
  user_id :: string
  issuer :: string
  subject :: string
  role :: canonical_role
  account_state :: account_status
  cognito_group :: string
  current_grants :: "capability_grant list"
  auth_context :: "(string \<times> string) list"
  must_change_password :: bool

definition can_authorize :: "actor \<Rightarrow> bool" where
  "can_authorize a = (account_state a = ACTIVE)"

text \<open>\<open>Actor.__post_init__\<close> on typed fields.\<close>

definition make_actor :: "actor \<Rightarrow> actor result" where
  "make_actor a =
     (if strip (user_id a) = [] \<or> strip (issuer a) = [] \<or> strip (subject a) = [] \<or> strip (cognito_group a) = []
      then Inl Value_Error
      else if cognito_group a \<noteq> role_text (role a) then Inl Value_Error
      else Inr a)"

record access_token =
  tk_issuer :: string
  tk_subject :: string
  tk_client_id :: string
  tk_groups :: "string list"
  tk_issued_at :: int
  tk_origin_jti :: "string option"

section \<open>Sessions\<close>

text \<open>
  Integer-compatible values (\<open>str\<close> or \<open>SupportsInt\<close>); a \<open>bool\<close> is one, so it is ruled out first where the
  code does. A number the table gives back is finite.
\<close>

fun supports_int :: "pyval \<Rightarrow> bool" where
  "supports_int PNone = False"
| "supports_int (PList _) = False"
| "supports_int (PDict _) = False"
| "supports_int _ = True"

type_synonym 'a sec = "security_code + 'a"

definition session_revocation_cutoff :: "item option \<Rightarrow> int sec" where
  "session_revocation_cutoff binding =
     (case binding of
        None \<Rightarrow> Inr 0
      | Some b \<Rightarrow>
          (let raw = item_get b ''revoked_before''
           in if raw = PNone then Inr 0
              else if is_pbool raw \<or> \<not> supports_int raw then Inl INVALID_TOKEN
              else (case py_int raw of Some n \<Rightarrow> Inr n | None \<Rightarrow> Inl INVALID_TOKEN)))"

text \<open>
  The revocation record of one sign-in is tested for truth: a mapping, here by its entries, counts as
  none while it has none. The account's cut-off is consulted only for a token that names no sign-in.
\<close>

type_synonym mapping_entries = "(string \<times> pyval) list"

definition truthy_mapping :: "mapping_entries option \<Rightarrow> bool" where
  "truthy_mapping m = (case m of None \<Rightarrow> False | Some kvs \<Rightarrow> kvs \<noteq> [])"

definition enforce_session_not_revoked :: "access_token \<Rightarrow> item option \<Rightarrow> mapping_entries option \<Rightarrow> unit sec" where
  "enforce_session_not_revoked tk binding revocation =
     (if truthy_mapping revocation then Inl INVALID_TOKEN
      else if (case tk_origin_jti tk of None \<Rightarrow> False | Some j \<Rightarrow> j \<noteq> []) then Inr ()
      else case session_revocation_cutoff binding of
          Inl e \<Rightarrow> Inl e
        | Inr cutoff \<Rightarrow>
            (if cutoff \<le> 0 then Inr ()
             else if tk_issued_at tk < cutoff then Inl INVALID_TOKEN
             else Inr ()))"

section \<open>Grants\<close>

text \<open>\<open>_positive_version\<close>: an exception (\<open>TypeError\<close>, \<open>ValueError\<close>) is \<open>Inl\<close>.\<close>

definition positive_version :: "pyval \<Rightarrow> int option result" where
  "positive_version v =
     (if \<not> truthy v then Inr None
      else if \<not> supports_int v then Inl Value_Error
      else case py_int v of
          None \<Rightarrow> Inl Value_Error
        | Some n \<Rightarrow> Inr (if 0 < n then Some n else None))"

definition active_grant :: "runtime \<Rightarrow> item \<Rightarrow> capability_grant option result" where
  "active_grant rt r =
     (if item_get r ''status'' \<noteq> PStr ''active'' then Inr None
      else if \<not> truthy (item_get r ''capability'') \<or> \<not> truthy (item_get r ''scope'') then Inr None
      else case positive_version (item_get r ''version'') of
          Inl e \<Rightarrow> Inl e
        | Inr None \<Rightarrow> Inr None
        | Inr (Some n) \<Rightarrow>
            Inr (Some \<lparr>capability = py_str rt (item_get r ''capability''),
              grant_scope = py_str rt (item_get r ''scope''), grant_version = n\<rparr>))"

fun active_grants :: "runtime \<Rightarrow> item list \<Rightarrow> capability_grant list result" where
  "active_grants rt [] = Inr []"
| "active_grants rt (r # rs) =
     (case active_grant rt r of
        Inl e \<Rightarrow> Inl e
      | Inr g \<Rightarrow>
          (case active_grants rt rs of
             Inl e \<Rightarrow> Inl e
           | Inr gs \<Rightarrow> Inr (case g of None \<Rightarrow> gs | Some x \<Rightarrow> x # gs)))"

section \<open>Resolving an actor\<close>

datatype 'a reply = Reply 'a | Declined security_code | Failed

record identity_repository =
  get_binding :: "string \<Rightarrow> string \<Rightarrow> item option reply"
  get_session_revocation :: "string \<Rightarrow> string \<Rightarrow> string option \<Rightarrow> mapping_entries option reply"
  get_fence :: "string \<Rightarrow> item option reply"
  get_account :: "string \<Rightarrow> item option reply"
  get_current_grants :: "string \<Rightarrow> item list reply"

text \<open>
  A failed call, and an exception of the resolution itself, end as the temporary outage.
\<close>

fun answer :: "'a reply \<Rightarrow> 'a sec" where
  "answer (Reply x) = Inr x"
| "answer (Declined c) = Inl c"
| "answer Failed = Inl AUTHORIZATION_TEMPORARILY_UNAVAILABLE"

fun or_outage :: "'a result \<Rightarrow> 'a sec" where
  "or_outage (Inl e) = Inl AUTHORIZATION_TEMPORARILY_UNAVAILABLE"
| "or_outage (Inr x) = Inr x"

definition sec_bind :: "'a sec \<Rightarrow> ('a \<Rightarrow> 'b sec) \<Rightarrow> 'b sec" where
  "sec_bind m f = (case m of Inl c \<Rightarrow> Inl c | Inr x \<Rightarrow> f x)"

definition demand :: "bool \<Rightarrow> unit sec" where
  "demand b = (if b then Inr () else Inl IDENTITY_CONFLICT)"

definition GROUP_ROLES :: "string \<Rightarrow> canonical_role option" where
  "GROUP_ROLES = map_of [(''students'', ROLE_STUDENT), (''parents'', ROLE_PARENT),
     (''teachers'', ROLE_TEACHER), (''admins'', ROLE_ADMIN)]"

definition some_or_conflict :: "'a option \<Rightarrow> 'a sec" where
  "some_or_conflict x = (case x of None \<Rightarrow> Inl IDENTITY_CONFLICT | Some y \<Rightarrow> Inr y)"

definition active_fence :: "item option \<Rightarrow> bool" where
  "active_fence fence =
     (case fence of
        None \<Rightarrow> False
      | Some f \<Rightarrow> item_get f ''status'' = PStr ''active'' \<and> 0 < fence_generation f)"

text \<open>The account's role and status texts, \<open>str(account.get(a) or account.get(b) or "")\<close>.\<close>

definition account_status_text :: "runtime \<Rightarrow> item \<Rightarrow> string" where
  "account_status_text rt acc =
     (if truthy (item_get acc ''account_status'') then py_str rt (item_get acc ''account_status'')
      else str_or rt (item_get acc ''status'') [])"

definition resolve_actor :: "runtime \<Rightarrow> identity_repository \<Rightarrow> access_token \<Rightarrow> actor sec" where
  "resolve_actor rt repo tk =
     sec_bind (answer (get_binding repo (tk_issuer tk) (tk_subject tk))) (\<lambda>found.
     sec_bind (some_or_conflict found) (\<lambda>binding.
     sec_bind (demand (item_get binding ''status'' = PStr ''active'')) (\<lambda>_.
     let u = strip (str_or rt (item_get binding ''user_id'') []) in
     sec_bind (demand (u \<noteq> [])) (\<lambda>_.
     sec_bind (answer (get_session_revocation repo (tk_issuer tk) (tk_subject tk) (tk_origin_jti tk))) (\<lambda>revocation.
     sec_bind (enforce_session_not_revoked tk (Some binding) revocation) (\<lambda>_.
     sec_bind (answer (get_fence repo u)) (\<lambda>fence.
     sec_bind (demand (active_fence fence)) (\<lambda>_.
     sec_bind (answer (get_account repo u)) (\<lambda>acc.
     sec_bind (some_or_conflict acc) (\<lambda>account.
     let recognized = List.map_filter GROUP_ROLES (tk_groups tk) in
     sec_bind (demand (length recognized = 1)) (\<lambda>_.
     sec_bind (some_or_conflict (role_of_text (str_or rt (item_get account ''role'') []))) (\<lambda>local_role.
     sec_bind (some_or_conflict (status_of_text (account_status_text rt account))) (\<lambda>status.
     sec_bind (demand (hd recognized = local_role \<and> status = ACTIVE)) (\<lambda>_.
     sec_bind (answer (get_current_grants repo u)) (\<lambda>raw.
     sec_bind (or_outage (active_grants rt raw)) (\<lambda>grants.
     or_outage (make_actor
       \<lparr>user_id = u, issuer = tk_issuer tk, subject = tk_subject tk, role = local_role,
        account_state = status, cognito_group = role_text local_role, current_grants = grants,
        auth_context = [(''token_use'', ''access''), (''client_id'', tk_client_id tk)],
        must_change_password = truthy (item_get account ''must_change_password'')\<rparr>)))))))))))))))))"

section \<open>What a resolved actor is\<close>

lemma sec_bind_InrE:
  assumes "sec_bind m f = Inr y"
  obtains x where "m = Inr x" "f x = Inr y"
  using assms by (cases m) (auto simp: sec_bind_def)

lemma sec_bind_InlE:
  assumes "sec_bind m f = Inl c"
  obtains "m = Inl c" | x where "m = Inr x" "f x = Inl c"
  using assms by (cases m) (auto simp: sec_bind_def)

lemma demand_Inr [simp]: "demand b = Inr x \<longleftrightarrow> b"
  by (simp add: demand_def)

lemma demand_Inl [simp]: "demand b = Inl c \<longleftrightarrow> \<not> b \<and> c = IDENTITY_CONFLICT"
  by (auto simp: demand_def)

lemma some_or_conflict_simps [simp]:
  "some_or_conflict x = Inr y \<longleftrightarrow> x = Some y"
  "some_or_conflict x = Inl c \<longleftrightarrow> x = None \<and> c = IDENTITY_CONFLICT"
  by (auto simp: some_or_conflict_def split: option.splits)

lemma answer_Inr [simp]: "answer r = Inr x \<longleftrightarrow> r = Reply x"
  by (cases r) auto

lemma or_outage_simps [simp]:
  "or_outage r = Inr x \<longleftrightarrow> r = Inr x"
  "or_outage r = Inl c \<longleftrightarrow> (\<exists>e. r = Inl e) \<and> c = AUTHORIZATION_TEMPORARILY_UNAVAILABLE"
  by (cases r; auto)+

lemma make_actor_Inr: "make_actor a = Inr b \<Longrightarrow> b = a \<and> cognito_group a = role_text (role a)"
  by (auto simp: make_actor_def split: if_splits)

text \<open>What the repository said for the actor to be what it is.\<close>

lemma resolve_actor_Inr:
  assumes "resolve_actor rt repo tk = Inr a"
  obtains binding fence account raw revocation where
    "get_binding repo (tk_issuer tk) (tk_subject tk) = Reply (Some binding)"
    "item_get binding ''status'' = PStr ''active''"
    "user_id a = strip (str_or rt (item_get binding ''user_id'') [])" "user_id a \<noteq> []"
    "get_session_revocation repo (tk_issuer tk) (tk_subject tk) (tk_origin_jti tk) = Reply revocation"
    "enforce_session_not_revoked tk (Some binding) revocation = Inr ()"
    "get_fence repo (user_id a) = Reply fence" "active_fence fence"
    "get_account repo (user_id a) = Reply (Some account)"
    "List.map_filter GROUP_ROLES (tk_groups tk) = [role a]"
    "role_of_text (str_or rt (item_get account ''role'') []) = Some (role a)"
    "account_state a = ACTIVE" "cognito_group a = role_text (role a)"
    "get_current_grants repo (user_id a) = Reply raw" "active_grants rt raw = Inr (current_grants a)"
  using assms unfolding resolve_actor_def Let_def
  apply (elim sec_bind_InrE)
  apply (simp only: demand_Inr some_or_conflict_simps answer_Inr or_outage_simps)
  apply (elim conjE)
  apply (drule make_actor_Inr)
  apply (rule that, assumption, assumption)
  apply (auto simp: length_Suc_conv)
  done

text \<open>Every grant of an actor stands for an active record with a positive version.\<close>

lemma active_grant_Inr:
  assumes "active_grant rt r = Inr (Some g)"
  shows "item_get r ''status'' = PStr ''active''" and "0 < grant_version g"
    and "capability g = py_str rt (item_get r ''capability'')" and "grant_scope g = py_str rt (item_get r ''scope'')"
  using assms by (auto simp: active_grant_def positive_version_def split: if_splits sum.splits option.splits)

lemma active_grants_Inr:
  "active_grants rt raw = Inr gs \<Longrightarrow> g \<in> set gs \<Longrightarrow> \<exists>r\<in>set raw. active_grant rt r = Inr (Some g)"
proof (induction raw arbitrary: gs)
  case (Cons r raw)
  then obtain x ys where "active_grant rt r = Inr x" "active_grants rt raw = Inr ys"
      "gs = (case x of None \<Rightarrow> ys | Some y \<Rightarrow> y # ys)"
    by (auto split: sum.splits)
  with Cons show ?case by (auto split: option.splits)
qed simp

text \<open>
  When a token's sign-in is over: a revocation record is kept for it, or the token names no sign-in and the
  account's cut-off is later than its issue, or cannot be read as a number.
\<close>

definition cut_off_bars :: "item \<Rightarrow> int \<Rightarrow> bool" where
  "cut_off_bars b issued =
     (let raw = item_get b ''revoked_before''
      in raw \<noteq> PNone
         \<and> (is_pbool raw \<or> \<not> supports_int raw \<or> (case py_int raw of None \<Rightarrow> True | Some n \<Rightarrow> 0 < n \<and> issued < n)))"

definition sign_in_ended :: "access_token \<Rightarrow> item \<Rightarrow> mapping_entries option \<Rightarrow> bool" where
  "sign_in_ended tk b revocation =
     ((case revocation of None \<Rightarrow> False | Some kvs \<Rightarrow> kvs \<noteq> [])
      \<or> (tk_origin_jti tk \<in> {None, Some []} \<and> cut_off_bars b (tk_issued_at tk)))"

lemma enforce_sign_in:
  "enforce_session_not_revoked tk (Some b) r = (if sign_in_ended tk b r then Inl INVALID_TOKEN else Inr ())"
  by (auto simp: enforce_session_not_revoked_def session_revocation_cutoff_def sign_in_ended_def cut_off_bars_def
      truthy_mapping_def Let_def split: option.splits)

text \<open>A resolution that fails gives one of three codes, or the repository's own.\<close>

definition repository_codes :: "identity_repository \<Rightarrow> security_code set" where
  "repository_codes repo =
     {c. (\<exists>i s. get_binding repo i s = Declined c) \<or> (\<exists>i s j. get_session_revocation repo i s j = Declined c)
       \<or> (\<exists>u. get_fence repo u = Declined c) \<or> (\<exists>u. get_account repo u = Declined c)
       \<or> (\<exists>u. get_current_grants repo u = Declined c)}"

lemma answer_Inl: "answer r = Inl c \<Longrightarrow> c = AUTHORIZATION_TEMPORARILY_UNAVAILABLE \<or> r = Declined c"
  by (cases r) auto

lemma enforce_Inl: "enforce_session_not_revoked tk (Some b) r = Inl c \<Longrightarrow> c = INVALID_TOKEN"
  by (auto simp: enforce_sign_in split: if_splits)

lemma resolve_actor_Inl:
  assumes "resolve_actor rt repo tk = Inl c"
  shows "c \<in> {IDENTITY_CONFLICT, INVALID_TOKEN, AUTHORIZATION_TEMPORARILY_UNAVAILABLE} \<union> repository_codes repo"
  using assms unfolding resolve_actor_def Let_def
  by (elim sec_bind_InlE) (auto simp: repository_codes_def dest!: answer_Inl enforce_Inl)

text \<open>Of a bound account, the sign-in decides about \<open>INVALID_TOKEN\<close>.\<close>

lemma resolve_actor_sign_in:
  assumes "get_binding repo (tk_issuer tk) (tk_subject tk) = Reply (Some b)" "item_get b ''status'' = PStr ''active''"
    "strip (str_or rt (item_get b ''user_id'') []) \<noteq> []"
    "get_session_revocation repo (tk_issuer tk) (tk_subject tk) (tk_origin_jti tk) = Reply revocation"
  shows "sign_in_ended tk b revocation \<Longrightarrow> resolve_actor rt repo tk = Inl INVALID_TOKEN"
    and "resolve_actor rt repo tk = Inl INVALID_TOKEN \<Longrightarrow>
      sign_in_ended tk b revocation \<or> INVALID_TOKEN \<in> repository_codes repo"
proof -
  show "resolve_actor rt repo tk = Inl INVALID_TOKEN" if "sign_in_ended tk b revocation"
    using assms that by (simp add: resolve_actor_def sec_bind_def some_or_conflict_def demand_def enforce_sign_in)
  assume "resolve_actor rt repo tk = Inl INVALID_TOKEN"
  with assms show "sign_in_ended tk b revocation \<or> INVALID_TOKEN \<in> repository_codes repo"
    unfolding resolve_actor_def Let_def
    by (elim sec_bind_InlE) (auto simp: repository_codes_def enforce_sign_in dest!: answer_Inl split: if_splits)
qed

end
