(* ===== verification/Access_Words.thy ===== *)
theory Access_Words
  imports Runtime
begin

text \<open>
  The closed vocabularies of the authorization policy (\<open>security/authorization.py\<close>): what is accessed,
  what is done to it, and for what purpose, each with the text that stored rows and audit records
  use.
\<close>

datatype resource_type =
    RES_STUDENT | RES_QUESTION | RES_CONVERSATION | RES_PRACTICE
  | RES_ADAPTIVE_PROFILE | RES_REPORT | RES_TEACHER_ASSIGNMENT | RES_PARENT_BINDING
  | RES_TEACHER_PORTAL | RES_TEACHER_HELP_REQUEST | RES_AI_TEACHER_DRAFT | RES_NOTIFICATION_COLLECTION
  | RES_NOTIFICATION_EVENT | RES_NOTIFICATION_PREFERENCE | RES_NOTIFICATION_DIGEST | RES_NOTIFICATION_PUSH_TOKEN
  | RES_OPERATOR_RESOURCE | RES_UPLOAD | RES_ATTACHMENT | RES_CURRICULUM_ANSWER

fun resource_text :: "resource_type \<Rightarrow> string" where
  "resource_text RES_STUDENT = ''student''"
| "resource_text RES_QUESTION = ''question''"
| "resource_text RES_CONVERSATION = ''conversation''"
| "resource_text RES_PRACTICE = ''practice''"
| "resource_text RES_ADAPTIVE_PROFILE = ''adaptive_profile''"
| "resource_text RES_REPORT = ''report''"
| "resource_text RES_TEACHER_ASSIGNMENT = ''teacher_assignment''"
| "resource_text RES_PARENT_BINDING = ''parent_binding''"
| "resource_text RES_TEACHER_PORTAL = ''teacher_portal''"
| "resource_text RES_TEACHER_HELP_REQUEST = ''teacher_help_request''"
| "resource_text RES_AI_TEACHER_DRAFT = ''ai_teacher_draft''"
| "resource_text RES_NOTIFICATION_COLLECTION = ''notification_collection''"
| "resource_text RES_NOTIFICATION_EVENT = ''notification_event''"
| "resource_text RES_NOTIFICATION_PREFERENCE = ''notification_preference''"
| "resource_text RES_NOTIFICATION_DIGEST = ''notification_digest''"
| "resource_text RES_NOTIFICATION_PUSH_TOKEN = ''notification_push_token''"
| "resource_text RES_OPERATOR_RESOURCE = ''operator_resource''"
| "resource_text RES_UPLOAD = ''upload''"
| "resource_text RES_ATTACHMENT = ''attachment''"
| "resource_text RES_CURRICULUM_ANSWER = ''curriculum_answer''"

datatype action =
    ACT_READ | ACT_CREATE | ACT_UPDATE | ACT_DELETE
  | ACT_RESPOND | ACT_ASSIGN | ACT_CLAIM | ACT_RESOLVE
  | ACT_LOOKUP | ACT_EXPORT | ACT_EXTERNAL_SEND | ACT_MANAGE_PRIVILEGE
  | ACT_CURRICULUM_MUTATION

fun action_text :: "action \<Rightarrow> string" where
  "action_text ACT_READ = ''read''"
| "action_text ACT_CREATE = ''create''"
| "action_text ACT_UPDATE = ''update''"
| "action_text ACT_DELETE = ''delete''"
| "action_text ACT_RESPOND = ''respond''"
| "action_text ACT_ASSIGN = ''assign''"
| "action_text ACT_CLAIM = ''claim''"
| "action_text ACT_RESOLVE = ''resolve''"
| "action_text ACT_LOOKUP = ''lookup''"
| "action_text ACT_EXPORT = ''export''"
| "action_text ACT_EXTERNAL_SEND = ''external_send''"
| "action_text ACT_MANAGE_PRIVILEGE = ''manage_privilege''"
| "action_text ACT_CURRICULUM_MUTATION = ''curriculum_mutation''"

datatype purpose =
    FOR_SELF_SERVICE | FOR_PARENT_OVERSIGHT | FOR_TEACHER_HELP | FOR_TEACHER_DISPATCH
  | FOR_AI_TEACHER_TOOLS | FOR_LEARNING_ASSIGNMENT | FOR_ASSIGNMENT_AUTOMATION_PREVIEW | FOR_ASSIGNMENT_AUTOMATION_EXECUTE
  | FOR_SUPPORT | FOR_SAFETY_REVIEW | FOR_INCIDENT_BREAK_GLASS | FOR_NOTIFICATION_SELF_SERVICE
  | FOR_NOTIFICATION_EVENT_INSPECTION | FOR_NOTIFICATION_DELIVERY_HEALTH | FOR_IDENTITY_MANAGEMENT | FOR_MODERATION_OPERATIONS
  | FOR_CURRICULUM_OPERATIONS | FOR_ACCOUNT_OPERATIONS | FOR_BILLING_OPERATIONS | FOR_USAGE_OPERATIONS
  | FOR_GLOBAL_OPERATIONS | FOR_REPORT_OPERATIONS | FOR_REPORT_RECOVERY | FOR_SUPPORT_HANDOFF
  | FOR_AUDIT_GOVERNANCE | FOR_CURRICULUM_ANSWER_READ

fun purpose_text :: "purpose \<Rightarrow> string" where
  "purpose_text FOR_SELF_SERVICE = ''self_service''"
| "purpose_text FOR_PARENT_OVERSIGHT = ''parent_oversight''"
| "purpose_text FOR_TEACHER_HELP = ''teacher_help''"
| "purpose_text FOR_TEACHER_DISPATCH = ''teacher_dispatch''"
| "purpose_text FOR_AI_TEACHER_TOOLS = ''ai_teacher_tools''"
| "purpose_text FOR_LEARNING_ASSIGNMENT = ''learning_assignment''"
| "purpose_text FOR_ASSIGNMENT_AUTOMATION_PREVIEW = ''assignment_automation_preview''"
| "purpose_text FOR_ASSIGNMENT_AUTOMATION_EXECUTE = ''assignment_automation_execute''"
| "purpose_text FOR_SUPPORT = ''support''"
| "purpose_text FOR_SAFETY_REVIEW = ''safety_review''"
| "purpose_text FOR_INCIDENT_BREAK_GLASS = ''incident_break_glass''"
| "purpose_text FOR_NOTIFICATION_SELF_SERVICE = ''notification_self_service''"
| "purpose_text FOR_NOTIFICATION_EVENT_INSPECTION = ''notification_event_inspection''"
| "purpose_text FOR_NOTIFICATION_DELIVERY_HEALTH = ''notification_delivery_health''"
| "purpose_text FOR_IDENTITY_MANAGEMENT = ''identity_management''"
| "purpose_text FOR_MODERATION_OPERATIONS = ''moderation_operations''"
| "purpose_text FOR_CURRICULUM_OPERATIONS = ''curriculum_operations''"
| "purpose_text FOR_ACCOUNT_OPERATIONS = ''account_operations''"
| "purpose_text FOR_BILLING_OPERATIONS = ''billing_operations''"
| "purpose_text FOR_USAGE_OPERATIONS = ''usage_operations''"
| "purpose_text FOR_GLOBAL_OPERATIONS = ''global_operations''"
| "purpose_text FOR_REPORT_OPERATIONS = ''report_operations''"
| "purpose_text FOR_REPORT_RECOVERY = ''report_recovery''"
| "purpose_text FOR_SUPPORT_HANDOFF = ''support_handoff''"
| "purpose_text FOR_AUDIT_GOVERNANCE = ''audit_governance''"
| "purpose_text FOR_CURRICULUM_ANSWER_READ = ''curriculum_answer_read''"

lemma resource_text_inject [simp]: "resource_text a = resource_text b \<longleftrightarrow> a = b"
  by (cases a; cases b) simp_all

lemma action_text_inject [simp]: "action_text a = action_text b \<longleftrightarrow> a = b"
  by (cases a; cases b) simp_all

lemma purpose_text_inject [simp]: "purpose_text a = purpose_text b \<longleftrightarrow> a = b"
  by (cases a; cases b) simp_all

section \<open>Deadlines\<close>

text \<open>
  \<open>_expired\<close> of the policy and \<open>_deadline_passed\<close> of \<open>services/help_requests.py\<close>: no deadline has not
  passed, one that cannot be read has. Offers themselves are read by \<open>parse_timestamp\<close> of
  \<open>services/teacher_dispatch_service.py\<close>, where a stamp that cannot be read is none.
\<close>

definition deadline_passed :: "runtime \<Rightarrow> pyval \<Rightarrow> int \<Rightarrow> bool" where
  "deadline_passed rt v now =
     (if \<not> truthy v then False
      else case from_iso rt (replace_z (py_str rt v)) of
          None \<Rightarrow> True
        | Some st \<Rightarrow> instant st \<le> now)"

definition parse_timestamp :: "runtime \<Rightarrow> pyval \<Rightarrow> int option" where
  "parse_timestamp rt v =
     (case v of
        PStr s \<Rightarrow> if s = [] then None else map_option instant (from_iso rt (replace_z s))
      | _ \<Rightarrow> None)"

text \<open>A readable deadline is read alike by both.\<close>

lemma deadline_passed_parsed:
  "parse_timestamp rt v = Some d \<Longrightarrow> deadline_passed rt v now \<longleftrightarrow> d \<le> now"
  by (auto simp: parse_timestamp_def deadline_passed_def split: pyval.splits if_splits)

end
