(* ===== verification/Help_Rights.thy ===== *)
theory Help_Rights
  imports Access_Words
begin

text \<open>
  A student's request for a human teacher, read (\<open>services/help_requests.py\<close>): its state, what the
  waiting student is told, and what a teacher may do to it. The record is a stored row; the writes
  are in \<open>Help_Request\<close>.
\<close>

section \<open>States\<close>

definition PENDING :: string where "PENDING = ''pending''"
definition IN_PROGRESS :: string where "IN_PROGRESS = ''in_progress''"
definition RESOLVED :: string where "RESOLVED = ''resolved''"
definition WITHDRAWN :: string where "WITHDRAWN = ''withdrawn''"
definition EXPIRED :: string where "EXPIRED = ''expired''"

lemmas help_words = PENDING_def IN_PROGRESS_def RESOLVED_def WITHDRAWN_def EXPIRED_def

definition OPEN_STATES :: "string list" where
  "OPEN_STATES = [PENDING, IN_PROGRESS]"

definition help_key :: "string \<Rightarrow> key" where
  "help_key conversation = (''CONV#'' @ conversation, ''HELP'')"

definition is_deletion_tombstone :: "item \<Rightarrow> bool" where
  "is_deletion_tombstone i =
     (item_get i ''status'' = PStr ''deleted'' \<and> item_get i ''owner_deletion_generation'' \<noteq> PNone)"

definition is_record :: "item \<Rightarrow> bool" where
  "is_record i =
     (item_get i ''entity_type'' = PStr ''help_request'' \<and> \<not> is_deletion_tombstone i
      \<and> truthy (item_get i ''conversation_id''))"

definition stored_status :: "runtime \<Rightarrow> item \<Rightarrow> string" where
  "stored_status rt i = str_or rt (item_get i ''escalation_status'') PENDING"

text \<open>The teacher holding the request and the one it is offered to, \<open>""\<close> for none.\<close>

definition holder_of :: "runtime \<Rightarrow> item \<Rightarrow> string" where
  "holder_of rt i = str_or rt (item_get i ''teacher_id'') []"

definition offered_to :: "runtime \<Rightarrow> item \<Rightarrow> string" where
  "offered_to rt i = str_or rt (item_get i ''dispatched_teacher_id'') []"

text \<open>\<open>_expired\<close>: both the deadline and the clock readable, and the deadline reached.\<close>

definition offer_expired :: "runtime \<Rightarrow> pyval \<Rightarrow> pyval \<Rightarrow> bool" where
  "offer_expired rt deadline now =
     (case (parse_timestamp rt deadline, parse_timestamp rt now) of
        (Some d, Some n) \<Rightarrow> d \<le> n
      | _ \<Rightarrow> False)"

definition live_offer :: "runtime \<Rightarrow> item \<Rightarrow> string \<Rightarrow> bool" where
  "live_offer rt i now =
     (item_get i ''dispatch_status'' = PStr ''dispatched'' \<and> truthy (item_get i ''dispatched_teacher_id'')
      \<and> \<not> offer_expired rt (item_get i ''dispatch_deadline_at'') (PStr now))"

section \<open>What each party is told\<close>

definition student_view :: "runtime \<Rightarrow> item \<Rightarrow> string \<Rightarrow> string \<times> string" where
  "student_view rt i now =
     (if stored_status rt i \<noteq> PENDING then (stored_status rt i, holder_of rt i)
      else if holder_of rt i \<noteq> [] then (''assigned'', holder_of rt i)
      else if live_offer rt i now then (''assigned'', offered_to rt i)
      else if item_get i ''dispatch_status'' = PStr ''no_candidate'' then (''waiting_no_teacher'', [])
      else (PENDING, []))"

definition holder_or_offered :: "runtime \<Rightarrow> item \<Rightarrow> string \<Rightarrow> bool" where
  "holder_or_offered rt i teacher =
     (if holder_of rt i \<noteq> [] then holder_of rt i = teacher else offered_to rt i = teacher)"

section \<open>What a teacher may do\<close>

definition TEACHER_WRITES :: "action list" where
  "TEACHER_WRITES = [ACT_RESPOND, ACT_RESOLVE, ACT_UPDATE]"

definition TEACHER_READS :: "action list" where
  "TEACHER_READS = [ACT_READ, ACT_CREATE]"

definition CLOSED_DISPATCH :: "string list" where
  "CLOSED_DISPATCH = [''revoked'', WITHDRAWN, EXPIRED]"

text \<open>
  A stored list (a set comes back as one too); anything else holds nobody. Rights compare the texts of
  its entries, \<open>in\<close> compares the entries themselves.
\<close>

fun list_has :: "pyval \<Rightarrow> string \<Rightarrow> bool" where
  "list_has (PList vs) u = (PStr u \<in> set vs)"
| "list_has v u = False"

fun listed_texts :: "runtime \<Rightarrow> pyval \<Rightarrow> string list" where
  "listed_texts rt (PList vs) = map (py_str rt) vs"
| "listed_texts rt v = []"

definition teacher_may :: "runtime \<Rightarrow> item \<Rightarrow> string \<Rightarrow> action \<Rightarrow> int \<Rightarrow> bool" where
  "teacher_may rt i teacher act now =
     (let status = stored_status rt i;
          dispatch_status = str_or rt (item_get i ''dispatch_status'') [];
          holder = holder_of rt i;
          offered = offered_to rt i;
          lapsed = (dispatch_status = ''dispatched'' \<and> deadline_passed rt (item_get i ''dispatch_deadline_at'') now)
      in if status \<in> {WITHDRAWN, EXPIRED} \<or> dispatch_status \<in> set CLOSED_DISPATCH then False
         else if act \<in> set TEACHER_WRITES then
           (let let_lapse = teacher \<in> set (listed_texts rt (item_get i ''previous_dispatch_teacher_ids''));
                offer = (holder = [] \<and> status = PENDING \<and> dispatch_status = ''dispatched''
                         \<and> offered = teacher \<and> \<not> let_lapse \<and> \<not> lapsed)
            in offer \<or> (holder = teacher \<and> status \<in> {IN_PROGRESS, RESOLVED}))
         else if act \<in> set TEACHER_READS then
           (if holder \<noteq> [] then holder else offered) = teacher \<and> status \<in> {PENDING, IN_PROGRESS, RESOLVED} \<and> \<not> lapsed
         else False)"

definition references_teacher :: "item \<Rightarrow> string \<Rightarrow> bool" where
  "references_teacher i teacher =
     (PStr teacher \<in> {item_get i ''teacher_id'', item_get i ''dispatched_teacher_id''}
      \<or> list_has (item_get i ''previous_dispatch_teacher_ids'') teacher)"

section \<open>What the rights come to\<close>

lemma str_or_Nil: "str_or rt v [] = [] \<or> truthy v"
  by (simp add: str_or_def)

text \<open>
  Whoever may write a request may also read it, except that a resolved or running request whose last
  offer is still marked as dispatched and has lapsed is no longer read; and one that has ended
  without a teacher lets nobody do anything.
\<close>

lemma teacher_may_write_cases:
  assumes "teacher_may rt i u act now" "act \<in> set TEACHER_WRITES"
  obtains (offer) "holder_of rt i = []" "stored_status rt i = PENDING" "offered_to rt i = u"
      "u \<notin> set (listed_texts rt (item_get i ''previous_dispatch_teacher_ids''))"
      "\<not> deadline_passed rt (item_get i ''dispatch_deadline_at'') now"
  | (holds) "holder_of rt i = u" "stored_status rt i \<in> {IN_PROGRESS, RESOLVED}"
  using assms by (auto simp: teacher_may_def Let_def split: if_splits)

lemma teacher_may_read:
  assumes "teacher_may rt i u act now" "act \<in> set TEACHER_READS"
  shows "(if holder_of rt i \<noteq> [] then holder_of rt i else offered_to rt i) = u"
    and "stored_status rt i \<in> {PENDING, IN_PROGRESS, RESOLVED}"
  using assms by (auto simp: teacher_may_def Let_def TEACHER_READS_def TEACHER_WRITES_def split: if_splits)

lemma teacher_may_actions:
  assumes "teacher_may rt i u act now"
  shows "act \<in> set TEACHER_WRITES \<union> set TEACHER_READS"
  using assms by (auto simp: teacher_may_def Let_def split: if_splits)

lemma teacher_may_party:
  assumes "teacher_may rt i u act now" "u \<noteq> []"
  shows "holder_or_offered rt i u" and "stored_status rt i \<notin> {WITHDRAWN, EXPIRED}"
proof -
  from teacher_may_actions [OF assms(1)] consider "act \<in> set TEACHER_WRITES" | "act \<in> set TEACHER_READS" by auto
  then show "holder_or_offered rt i u"
  proof cases
    case 1
    from assms(1) 1 show ?thesis
    proof (cases rule: teacher_may_write_cases)
      case offer
      then show ?thesis by (simp add: holder_or_offered_def)
    next
      case holds
      with assms(2) show ?thesis by (simp add: holder_or_offered_def)
    qed
  next
    case 2
    from teacher_may_read(1) [OF assms(1) 2] show ?thesis by (auto simp: holder_or_offered_def split: if_splits)
  qed
  from assms(1) show "stored_status rt i \<notin> {WITHDRAWN, EXPIRED}"
    by (auto simp: teacher_may_def Let_def)
qed

end
