(* ===== verification/Parent_Link.thy ===== *)
theory Parent_Link
  imports Runtime
begin

text \<open>
  Parent-student links (\<open>db/repositories/parent_link_repo.py\<close>): one row on each side of a pair,
  written together or not at all. This theory holds the rows and the four writes; what they keep
  true of the table under interference is proved in \<open>Link_Steps\<close>.
\<close>

section \<open>Rows\<close>

definition ENTITY_TYPE :: string where
  "ENTITY_TYPE = ''parent_student_link''"

definition KNOWN_STATUSES :: "string list" where
  "KNOWN_STATUSES = [''pending'', ''active'', ''rejected'']"

definition KNOWN_INITIATORS :: "string list" where
  "KNOWN_INITIATORS = [''admin'', ''parent'', ''student'']"

definition LINK_FIELDS :: "string list" where
  "LINK_FIELDS = [''entity_type'', ''parent_id'', ''student_id'', ''relationship'', ''status'',
     ''initiator_role'', ''created_by'', ''linked_at'', ''updated_by'', ''link_updated_at'']"

record link =
  lk_parent :: string
  lk_student :: string
  lk_relationship :: string
  lk_status :: string
  lk_initiator :: string
  lk_created_by :: string
  lk_linked_at :: string
  lk_updated_by :: string
  lk_stamp :: string

datatype link_failure = Link_Conflict | Link_Raises err

definition checked_status :: "string \<Rightarrow> string result" where
  "checked_status v = (case required_field v of
       Inl e \<Rightarrow> Inl e
     | Inr s \<Rightarrow> if s \<in> set KNOWN_STATUSES then Inr s else Inl Value_Error)"

definition parent_side_key :: "string \<Rightarrow> string \<Rightarrow> key" where
  "parent_side_key p s = (''PARENT#'' @ p, ''CHILD#'' @ s)"

definition student_side_key :: "string \<Rightarrow> string \<Rightarrow> key" where
  "student_side_key s p = (''STUDENT#'' @ s, ''PARENT#'' @ p)"

definition link_body :: "link \<Rightarrow> link result" where
  "link_body b = (if lk_initiator b \<in> set KNOWN_INITIATORS then Inr b else Inl Value_Error)"

definition link_attributes :: "link \<Rightarrow> (string \<times> pyval) list" where
  "link_attributes b =
     [(''entity_type'', PStr ENTITY_TYPE), (''parent_id'', PStr (lk_parent b)),
      (''student_id'', PStr (lk_student b)), (''relationship'', PStr (lk_relationship b)),
      (''status'', PStr (lk_status b)), (''initiator_role'', PStr (lk_initiator b)),
      (''created_by'', PStr (lk_created_by b)), (''linked_at'', PStr (lk_linked_at b)),
      (''updated_by'', PStr (lk_updated_by b)), (''link_updated_at'', PStr (lk_stamp b))]"

text \<open>\<open>_both_sides\<close>: the same body under the two keys.\<close>

definition side_item :: "key \<Rightarrow> link \<Rightarrow> item" where
  "side_item k b = dict_of ((''PK'', PStr (fst k)) # (''SK'', PStr (snd k)) # link_attributes b)"

definition both_sides :: "link \<Rightarrow> item \<times> item" where
  "both_sides b =
     (side_item (parent_side_key (lk_parent b) (lk_student b)) b,
      side_item (student_side_key (lk_student b) (lk_parent b)) b)"

text \<open>\<open>link_fields\<close>: a stored row projected to the link contract.\<close>

definition link_fields :: "item \<Rightarrow> (string \<times> pyval) list" where
  "link_fields i = map (\<lambda>f. (f, item_get i f)) LINK_FIELDS"

section \<open>Reads\<close>

text \<open>
  An exception of the client, and an answer that is no mapping (an \<open>AttributeError\<close>), both escape.
\<close>

definition link_get :: "'w db \<Rightarrow> key \<Rightarrow> 'w \<Rightarrow> item option result \<times> 'w" where
  "link_get db k w =
     (case db_get db k w of
        (Resp_Failed, w') \<Rightarrow> (Inl Provider_Error, w')
      | (Resp_Malformed, w') \<Rightarrow> (Inl Provider_Error, w')
      | (Resp_None, w') \<Rightarrow> (Inr None, w')
      | (Resp_Item i, w') \<Rightarrow> (Inr (Some i), w'))"

definition keyed_get :: "'w db \<Rightarrow> (string \<Rightarrow> string \<Rightarrow> key) \<Rightarrow> string \<Rightarrow> string \<Rightarrow> 'w \<Rightarrow> item option result \<times> 'w" where
  "keyed_get db key_of a b w =
     (case (required_field a, required_field b) of
        (Inr a', Inr b') \<Rightarrow> link_get db (key_of a' b') w
      | _ \<Rightarrow> (Inl Value_Error, w))"

definition get_parent_side_link :: "'w db \<Rightarrow> string \<Rightarrow> string \<Rightarrow> 'w \<Rightarrow> item option result \<times> 'w" where
  "get_parent_side_link db p s = keyed_get db parent_side_key p s"

definition get_student_side_link :: "'w db \<Rightarrow> string \<Rightarrow> string \<Rightarrow> 'w \<Rightarrow> item option result \<times> 'w" where
  "get_student_side_link db s p = keyed_get db student_side_key s p"

definition both_sides_stored :: "'w db \<Rightarrow> string \<Rightarrow> string \<Rightarrow> 'w \<Rightarrow> (link_failure + item \<times> item) \<times> 'w" where
  "both_sides_stored db p s w =
     (case get_parent_side_link db p s w of
        (Inl e, w1) \<Rightarrow> (Inl (Link_Raises e), w1)
      | (Inr current, w1) \<Rightarrow>
          (case get_student_side_link db s p w1 of
             (Inl e, w2) \<Rightarrow> (Inl (Link_Raises e), w2)
           | (Inr mirror, w2) \<Rightarrow>
               (case (current, mirror) of
                  (Some c, Some m) \<Rightarrow> (Inr (c, m), w2)
                | _ \<Rightarrow> (Inl Link_Conflict, w2))))"

section \<open>Writes\<close>

text \<open>
  \<open>_participant_fence_conditions\<close>: both accounts writable, judged again inside the write.
\<close>

definition participant_fence :: "'w db \<Rightarrow> string \<Rightarrow> 'w \<Rightarrow> (link_failure + op) \<times> 'w" where
  "participant_fence db u w =
     (case require_active_account_fence db u None w of
        (Inl Account_Conflict, w') \<Rightarrow> (Inl Link_Conflict, w')
      | (Inl e, w') \<Rightarrow> (Inl (Link_Raises e), w')
      | (Inr fence, w') \<Rightarrow>
          (case active_fence_condition u (Some (fence_generation fence)) of
             Inl e \<Rightarrow> (Inl (Link_Raises e), w')
           | Inr c \<Rightarrow> (Inr c, w')))"

definition participant_fence_conditions ::
    "'w db \<Rightarrow> string \<Rightarrow> string \<Rightarrow> 'w \<Rightarrow> (link_failure + op list) \<times> 'w" where
  "participant_fence_conditions db p s w =
     (case participant_fence db p w of
        (Inl e, w1) \<Rightarrow> (Inl e, w1)
      | (Inr c1, w1) \<Rightarrow>
          (case participant_fence db s w1 of
             (Inl e, w2) \<Rightarrow> (Inl e, w2)
           | (Inr c2, w2) \<Rightarrow> (Inr [c1, c2], w2)))"

text \<open>
  A refused transaction is a conflict. (An exception of the transport that the client library does
  not report as its own error would escape as itself; the model does not tell the two apart.)
\<close>

definition commit_link :: "'w db \<Rightarrow> op list \<Rightarrow> link \<Rightarrow> 'w \<Rightarrow> (link_failure + link) \<times> 'w" where
  "commit_link db ops b w =
     (case db_tx db ops w of
        (True, w') \<Rightarrow> (Inr b, w')
      | (False, w') \<Rightarrow> (Inl Link_Conflict, w'))"

definition put_both :: "link \<Rightarrow> cond \<Rightarrow> cond \<Rightarrow> op list" where
  "put_both b cf cr = [Put (fst (both_sides b)) cf, Put (snd (both_sides b)) cr]"

definition fenced_write :: "'w db \<Rightarrow> link \<Rightarrow> cond \<Rightarrow> 'w \<Rightarrow> (link_failure + link) \<times> 'w" where
  "fenced_write db b c w =
     (case participant_fence_conditions db (lk_parent b) (lk_student b) w of
        (Inl e, w') \<Rightarrow> (Inl e, w')
      | (Inr fences, w') \<Rightarrow> commit_link db (fences @ put_both b c c) b w')"

record link_request =
  lr_parent :: string
  lr_student :: string
  lr_relationship :: string
  lr_status :: string
  lr_initiator :: string
  lr_created_by :: string
  lr_linked_at :: string

text \<open>The body of a new or reclaimed link, with every argument checked (\<open>ValueError\<close> otherwise).\<close>

definition requested_body :: "link_request \<Rightarrow> link result" where
  "requested_body rq =
     (case (required_field (lr_parent rq), required_field (lr_student rq), required_field (lr_relationship rq),
            checked_status (lr_status rq), required_field (lr_initiator rq), required_field (lr_created_by rq),
            required_field (lr_linked_at rq)) of
        (Inr p, Inr s, Inr r, Inr st, Inr i, Inr c, Inr l) \<Rightarrow>
          link_body \<lparr>lk_parent = p, lk_student = s, lk_relationship = r, lk_status = st, lk_initiator = i,
            lk_created_by = c, lk_linked_at = l, lk_updated_by = c, lk_stamp = l\<rparr>
      | _ \<Rightarrow> Inl Value_Error)"

definition create_link :: "'w db \<Rightarrow> link_request \<Rightarrow> 'w \<Rightarrow> (link_failure + link) \<times> 'w" where
  "create_link db rq w =
     (case requested_body rq of
        Inl e \<Rightarrow> (Inl (Link_Raises e), w)
      | Inr b \<Rightarrow> fenced_write db b create_only w)"

definition status_condition :: "string \<Rightarrow> cond" where
  "status_condition expected = C_And (C_Present ''PK'') (C_Eq ''status'' (PStr expected))"

definition stamp_condition :: "string \<Rightarrow> string \<Rightarrow> cond" where
  "stamp_condition expected stamp_text =
     C_And (status_condition expected) (C_Eq ''link_updated_at'' (PStr stamp_text))"

text \<open>\<open>transition_link\<close>: both rows out of \<open>expected\<close> together, or neither.\<close>

definition transition_body :: "runtime \<Rightarrow> string \<Rightarrow> string \<Rightarrow> string \<Rightarrow> string \<Rightarrow> string \<Rightarrow> item \<Rightarrow> link result" where
  "transition_body rt p s next_status updated_by moment current =
     (case (required_field updated_by, required_field moment) of
        (Inr u, Inr m) \<Rightarrow>
          link_body \<lparr>lk_parent = p, lk_student = s,
            lk_relationship = str_or rt (item_get current ''relationship'') ''child'',
            lk_status = next_status,
            lk_initiator = str_or rt (item_get current ''initiator_role'') ''admin'',
            lk_created_by = str_or rt (item_get current ''created_by'') updated_by,
            lk_linked_at = str_or rt (item_get current ''linked_at'') moment,
            lk_updated_by = u, lk_stamp = m\<rparr>
      | _ \<Rightarrow> Inl Value_Error)"

definition transition_link ::
    "'w db \<Rightarrow> runtime \<Rightarrow> string \<Rightarrow> string \<Rightarrow> string \<Rightarrow> string \<Rightarrow> string \<Rightarrow> string \<Rightarrow> 'w
      \<Rightarrow> (link_failure + link) \<times> 'w" where
  "transition_link db rt parent student expected_status next_status updated_by moment w =
     (case (required_field parent, required_field student, checked_status expected_status, checked_status next_status) of
        (Inr p, Inr s, Inr expected, Inr target) \<Rightarrow>
          (if expected = target then (Inl (Link_Raises Value_Error), w)
           else case both_sides_stored db p s w of
               (Inl e, w1) \<Rightarrow> (Inl e, w1)
             | (Inr (current, mirror), w1) \<Rightarrow>
                 (if item_get current ''status'' \<noteq> PStr expected \<or> item_get mirror ''status'' \<noteq> PStr expected
                  then (Inl Link_Conflict, w1)
                  else case transition_body rt p s target updated_by moment current of
                      Inl e \<Rightarrow> (Inl (Link_Raises e), w1)
                    | Inr b \<Rightarrow> fenced_write db b (status_condition expected) w1))
      | _ \<Rightarrow> (Inl (Link_Raises Value_Error), w))"

text \<open>\<open>reclaim_link\<close>: a settled pair put back into use, fenced on the status and the stamp read.\<close>

definition side_unchanged :: "string \<Rightarrow> string \<Rightarrow> item \<Rightarrow> bool" where
  "side_unchanged expected stamp_text side =
     (item_get side ''status'' = PStr expected \<and> item_get side ''link_updated_at'' = PStr stamp_text)"

definition reclaim_link ::
    "'w db \<Rightarrow> link_request \<Rightarrow> string \<Rightarrow> string \<Rightarrow> 'w \<Rightarrow> (link_failure + link) \<times> 'w" where
  "reclaim_link db rq expected_status expected_stamp w =
     (case (required_field (lr_parent rq), required_field (lr_student rq), checked_status expected_status,
            required_field expected_stamp, required_field (lr_linked_at rq)) of
        (Inr p, Inr s, Inr expected, Inr stamp_text, Inr linked) \<Rightarrow>
          (if linked = stamp_text then (Inl (Link_Raises Value_Error), w)
           else case both_sides_stored db p s w of
               (Inl e, w1) \<Rightarrow> (Inl e, w1)
             | (Inr (current, mirror), w1) \<Rightarrow>
                 (if \<not> side_unchanged expected stamp_text current \<or> \<not> side_unchanged expected stamp_text mirror
                  then (Inl Link_Conflict, w1)
                  else case requested_body rq of
                      Inl e \<Rightarrow> (Inl (Link_Raises e), w1)
                    | Inr b \<Rightarrow> fenced_write db b (stamp_condition expected stamp_text) w1))
      | _ \<Rightarrow> (Inl (Link_Raises Value_Error), w))"

text \<open>\<open>_as_read\<close>: the condition that holds only while a side is still what was read.\<close>

definition as_read :: "item option \<Rightarrow> cond result" where
  "as_read side =
     (case side of
        None \<Rightarrow> Inr (C_Absent ''PK'')
      | Some i \<Rightarrow>
          (case required_value (item_get i ''status'') of
             Inl e \<Rightarrow> Inl e
           | Inr status \<Rightarrow>
               (case item_get i ''link_updated_at'' of
                  PStr (c # cs) \<Rightarrow> Inr (stamp_condition status (c # cs))
                | _ \<Rightarrow> Inr (C_And (status_condition status) (C_Absent ''link_updated_at'')))))"

definition option_list :: "'a option \<Rightarrow> 'a list" where
  "option_list x = (case x of None \<Rightarrow> [] | Some y \<Rightarrow> [y])"

definition closed_body :: "runtime \<Rightarrow> string \<Rightarrow> string \<Rightarrow> item \<Rightarrow> string \<Rightarrow> string \<Rightarrow> link result" where
  "closed_body rt p s stored updated_by moment =
     (case required_field updated_by of
        Inl e \<Rightarrow> Inl e
      | Inr u \<Rightarrow>
          link_body \<lparr>lk_parent = p, lk_student = s,
            lk_relationship = str_or rt (item_get stored ''relationship'') ''child'',
            lk_status = ''rejected'',
            lk_initiator = str_or rt (item_get stored ''initiator_role'') ''admin'',
            lk_created_by = str_or rt (item_get stored ''created_by'') updated_by,
            lk_linked_at = str_or rt (item_get stored ''linked_at'') moment,
            lk_updated_by = u, lk_stamp = moment\<rparr>)"

text \<open>
  \<open>close_link\<close>: both sides closed, each as it was read; the fences are deliberately not asserted,
  and a side that was missing is written closed too. A side given here is a stored row, so it is
  never an empty mapping.
\<close>

definition close_link ::
    "'w db \<Rightarrow> runtime \<Rightarrow> string \<Rightarrow> string \<Rightarrow> item option \<Rightarrow> item option \<Rightarrow> string \<Rightarrow> string \<Rightarrow> 'w
      \<Rightarrow> (link_failure + link) \<times> 'w" where
  "close_link db rt parent student parent_side student_side updated_by moment w =
     (case (required_field parent, required_field student) of
        (Inr p, Inr s) \<Rightarrow>
          (case option_list parent_side @ option_list student_side of
             [] \<Rightarrow> (Inl Link_Conflict, w)
           | stored # others \<Rightarrow>
               (case required_field moment of
                  Inl e \<Rightarrow> (Inl (Link_Raises e), w)
                | Inr m \<Rightarrow>
                    (let stamps = map (\<lambda>i. item_get i ''link_updated_at'') (stored # others)
                     in if list_ex unhashable stamps \<or> PStr m \<in> set stamps then (Inl (Link_Raises Value_Error), w)
                        else case closed_body rt p s stored updated_by m of
                            Inl e \<Rightarrow> (Inl (Link_Raises e), w)
                          | Inr b \<Rightarrow>
                              (case (as_read parent_side, as_read student_side) of
                                 (Inr cf, Inr cr) \<Rightarrow> commit_link db (put_both b cf cr) b w
                               | _ \<Rightarrow> (Inl (Link_Raises Value_Error), w)))))
      | _ \<Rightarrow> (Inl (Link_Raises Value_Error), w))"

end
