(* ===== verification/Link_Steps.thy ===== *)
theory Link_Steps
  imports Parent_Link
begin

text \<open>
  What may happen to the link rows in one step, and what every step keeps: the two sides of a pair
  never disagree, and an active link only ever ends. The repository's writes are shown to take
  such steps whatever happens between their reads and their transaction.
\<close>

section \<open>Steps\<close>

definition link_key :: "key \<Rightarrow> bool" where
  "link_key k =
     (take 7 (fst k) = ''PARENT#'' \<and> take 6 (snd k) = ''CHILD#''
      \<or> take 8 (fst k) = ''STUDENT#'' \<and> take 7 (snd k) = ''PARENT#'')"

abbreviation pair_key :: "link \<Rightarrow> key" where
  "pair_key b \<equiv> parent_side_key (lk_parent b) (lk_student b)"

abbreviation mirror_key :: "link \<Rightarrow> key" where
  "mirror_key b \<equiv> student_side_key (lk_student b) (lk_parent b)"

definition pair_put :: "link \<Rightarrow> table \<Rightarrow> table" where
  "pair_put b t = t(pair_key b \<mapsto> stored_item (fst (both_sides b)), mirror_key b \<mapsto> stored_item (snd (both_sides b)))"

definition side_status :: "table \<Rightarrow> key \<Rightarrow> string \<Rightarrow> bool" where
  "side_status t k s = (item_get (row_at t k) ''status'' = PStr s)"

definition side_stamp :: "table \<Rightarrow> key \<Rightarrow> string \<Rightarrow> bool" where
  "side_stamp t k s = (item_get (row_at t k) ''link_updated_at'' = PStr s)"

definition side_free :: "table \<Rightarrow> key \<Rightarrow> bool" where
  "side_free t k = (item_get (row_at t k) ''PK'' = PNone)"

inductive link_step :: "table \<Rightarrow> table \<Rightarrow> bool" where
  creating: "side_free t (pair_key b) \<Longrightarrow> side_free t (mirror_key b) \<Longrightarrow>
     lk_status b \<in> {''pending'', ''active''} \<Longrightarrow> link_step t (pair_put b t)"
| answering: "side_status t (pair_key b) ''pending'' \<Longrightarrow> side_status t (mirror_key b) ''pending'' \<Longrightarrow>
     lk_status b \<in> {''active'', ''rejected''} \<Longrightarrow> link_step t (pair_put b t)"
| reclaiming: "old \<in> {''pending'', ''rejected''} \<Longrightarrow>
     side_status t (pair_key b) old \<Longrightarrow> side_status t (mirror_key b) old \<Longrightarrow>
     side_stamp t (pair_key b) stamp_text \<Longrightarrow> side_stamp t (mirror_key b) stamp_text \<Longrightarrow>
     lk_stamp b \<noteq> stamp_text \<Longrightarrow>
     lk_status b \<in> {''pending'', ''active''} \<Longrightarrow> link_step t (pair_put b t)"
| closing: "lk_status b = ''rejected'' \<Longrightarrow> link_step t (pair_put b t)"
| dropping: "link_step t (t(k := None))"
| elsewhere: "(\<And>k. link_key k \<Longrightarrow> t' k = t k) \<Longrightarrow> link_step t t'"

definition link_run :: "table \<Rightarrow> table \<Rightarrow> bool" where
  "link_run = link_step\<^sup>*\<^sup>*"

lemma link_run_refl [simp]: "link_run t t"
  by (simp add: link_run_def)

lemma link_run_trans: "link_run a b \<Longrightarrow> link_run b c \<Longrightarrow> link_run a c"
  unfolding link_run_def by (rule rtranclp_trans)

lemma link_run_step: "link_step t t' \<Longrightarrow> link_run t t'"
  by (simp add: link_run_def)

section \<open>Keys and rows\<close>

lemma side_key_eq [simp]:
  "parent_side_key p s = parent_side_key p' s' \<longleftrightarrow> p = p' \<and> s = s'"
  "student_side_key s p = student_side_key s' p' \<longleftrightarrow> p = p' \<and> s = s'"
  "parent_side_key p s \<noteq> student_side_key s' p'"
  "student_side_key s' p' \<noteq> parent_side_key p s"
  by (auto simp: parent_side_key_def student_side_key_def)

lemma link_key_sides [simp]: "link_key (parent_side_key p s)" "link_key (student_side_key s p)"
  by (simp_all add: link_key_def parent_side_key_def student_side_key_def)

lemma side_item_get [row_lookup]:
  "item_get (side_item k b) a =
     (if a = ''PK'' then PStr (fst k) else if a = ''SK'' then PStr (snd k)
      else item_get (dict_of (link_attributes b)) a)"
  by (simp add: side_item_def row_lookup)

lemma link_attributes_get [row_lookup]:
  "item_get (dict_of (link_attributes b)) a =
     (if a = ''entity_type'' then PStr ENTITY_TYPE
      else if a = ''parent_id'' then PStr (lk_parent b)
      else if a = ''student_id'' then PStr (lk_student b)
      else if a = ''relationship'' then PStr (lk_relationship b)
      else if a = ''status'' then PStr (lk_status b)
      else if a = ''initiator_role'' then PStr (lk_initiator b)
      else if a = ''created_by'' then PStr (lk_created_by b)
      else if a = ''linked_at'' then PStr (lk_linked_at b)
      else if a = ''updated_by'' then PStr (lk_updated_by b)
      else if a = ''link_updated_at'' then PStr (lk_stamp b) else PNone)"
  by (simp add: link_attributes_def row_lookup)

lemma side_item_key [simp]: "item_key (side_item k b) = Some k"
  by (simp add: item_key_def row_lookup)

lemma side_item_fields: "a \<in> set LINK_FIELDS \<Longrightarrow>
    item_get (stored_item (side_item k b)) a = item_get (dict_of (link_attributes b)) a"
  by (auto simp: LINK_FIELDS_def row_lookup)

lemma side_item_same_fields:
  "link_fields (stored_item (side_item k b)) = link_fields (stored_item (side_item k' b))"
  by (simp add: link_fields_def side_item_fields)

lemma pair_put_sides:
  "pair_put b t (pair_key b) = Some (stored_item (side_item (pair_key b) b))"
  "pair_put b t (mirror_key b) = Some (stored_item (side_item (mirror_key b) b))"
  by (simp_all add: pair_put_def both_sides_def)

lemma pair_put_other: "k \<noteq> pair_key b \<Longrightarrow> k \<noteq> mirror_key b \<Longrightarrow> pair_put b t k = t k"
  by (simp add: pair_put_def)

lemma pair_put_cases:
  obtains (same) "p = lk_parent b" "s = lk_student b"
      "pair_put b t (parent_side_key p s) = Some (stored_item (side_item (pair_key b) b))"
      "pair_put b t (student_side_key s p) = Some (stored_item (side_item (mirror_key b) b))"
  | (other) "\<not> (p = lk_parent b \<and> s = lk_student b)"
      "pair_put b t (parent_side_key p s) = t (parent_side_key p s)"
      "pair_put b t (student_side_key s p) = t (student_side_key s p)"
proof (cases "p = lk_parent b \<and> s = lk_student b")
  case True
  then show ?thesis using pair_put_sides [of b t] by (intro same) auto
next
  case False
  then show ?thesis by (intro other) (auto simp: pair_put_other)
qed

section \<open>The two sides agree\<close>

definition pair_agrees :: "table \<Rightarrow> string \<Rightarrow> string \<Rightarrow> bool" where
  "pair_agrees t p s =
     (case (t (parent_side_key p s), t (student_side_key s p)) of
        (Some f, Some r) \<Rightarrow> link_fields f = link_fields r
      | _ \<Rightarrow> True)"

definition links_agree :: "table \<Rightarrow> bool" where
  "links_agree t = (\<forall>p s. pair_agrees t p s)"

lemma pair_put_agrees: "pair_agrees t p s \<Longrightarrow> pair_agrees (pair_put b t) p s"
  by (rule pair_put_cases [of p b s t])
    (auto simp: pair_agrees_def intro: side_item_same_fields)

lemma link_step_agrees: "link_step t t' \<Longrightarrow> links_agree t \<Longrightarrow> links_agree t'"
proof (induction rule: link_step.induct)
  case (dropping t k)
  then show ?case by (auto simp: links_agree_def pair_agrees_def split: option.splits)
next
  case (elsewhere t' t)
  then show ?case by (auto simp: links_agree_def pair_agrees_def)
qed (auto simp: links_agree_def pair_put_agrees)

lemma link_run_agrees: "link_run t t' \<Longrightarrow> links_agree t \<Longrightarrow> links_agree t'"
  unfolding link_run_def by (induction rule: rtranclp_induct) (auto intro: link_step_agrees)

lemma empty_links_agree: "links_agree Map.empty"
  by (simp add: links_agree_def pair_agrees_def)

text \<open>A stored link whose two sides agree is one link: what one side says the other says.\<close>

lemma link_fields_get:
  assumes "link_fields f = link_fields r" "a \<in> set LINK_FIELDS"
  shows "item_get f a = item_get r a"
proof -
  from assms(1) have "\<forall>a\<in>set LINK_FIELDS. item_get f a = item_get r a"
    by (auto simp: link_fields_def)
  with assms(2) show ?thesis by blast
qed

section \<open>An active link only ends\<close>

definition side_active :: "table \<Rightarrow> key \<Rightarrow> bool" where
  "side_active t k = side_status t k ''active''"

lemma side_status_put:
  "side_status (pair_put b t) (pair_key b) s \<longleftrightarrow> lk_status b = s"
  "side_status (pair_put b t) (mirror_key b) s \<longleftrightarrow> lk_status b = s"
  by (simp_all add: side_status_def row_at_def pair_put_sides row_lookup)

lemma side_active_status: "side_active t k \<Longrightarrow> side_status t k a \<longleftrightarrow> a = ''active''"
  by (auto simp: side_active_def side_status_def)

text \<open>Every stored link row carries its own key attributes.\<close>

definition links_keyed :: "table \<Rightarrow> bool" where
  "links_keyed t = (\<forall>k i. link_key k \<longrightarrow> t k = Some i \<longrightarrow> item_get i ''PK'' \<noteq> PNone)"

lemma links_keyedD: "links_keyed t \<Longrightarrow> link_key k \<Longrightarrow> t k = Some i \<Longrightarrow> item_get i ''PK'' \<noteq> PNone"
  unfolding links_keyed_def by blast

lemma empty_links_keyed: "links_keyed Map.empty"
  by (simp add: links_keyed_def)

lemma side_free_None: "links_keyed t \<Longrightarrow> link_key k \<Longrightarrow> side_free t k \<longleftrightarrow> t k = None"
  by (auto simp: side_free_def row_at_def item_get_def [of Map.empty] dest: links_keyedD split: option.splits)

lemma pair_put_keyed: "links_keyed t \<Longrightarrow> links_keyed (pair_put b t)"
  unfolding links_keyed_def
  by (auto simp: pair_put_def both_sides_def row_lookup)

lemma link_step_keyed: "link_step t t' \<Longrightarrow> links_keyed t \<Longrightarrow> links_keyed t'"
proof (induction rule: link_step.induct)
  case (dropping t k)
  then show ?case by (auto simp: links_keyed_def)
next
  case (elsewhere t' t)
  then show ?case unfolding links_keyed_def by metis
qed (auto intro: pair_put_keyed)

lemma side_free_status: "links_keyed t \<Longrightarrow> link_key k \<Longrightarrow> side_free t k \<Longrightarrow> \<not> side_status t k s"
  by (simp add: side_free_None) (simp add: side_status_def row_at_def item_get_def)

text \<open>
  From one step to the next an active side stays as it is, becomes rejected, or is removed with its
  account.
\<close>

lemma active_step:
  assumes "link_step t t'" "links_keyed t" "side_active t (parent_side_key p s)"
  shows "t' (parent_side_key p s) = t (parent_side_key p s)
    \<or> side_status t' (parent_side_key p s) ''rejected'' \<or> t' (parent_side_key p s) = None"
  using assms
proof (induction rule: link_step.induct)
  case (creating t b)
  show ?case
  proof (cases rule: pair_put_cases [of p b s t])
    case same
    with creating side_free_status [of t "pair_key b"] show ?thesis by (simp add: side_active_def)
  qed simp
next
  case (answering t b)
  show ?case
  proof (cases rule: pair_put_cases [of p b s t])
    case same
    with answering show ?thesis by (simp add: side_active_status)
  qed simp
next
  case (reclaiming old t b)
  show ?case
  proof (cases rule: pair_put_cases [of p b s t])
    case same
    with reclaiming show ?thesis by (auto simp: side_active_status)
  qed simp
next
  case (closing b t)
  show ?case
  proof (cases rule: pair_put_cases [of p b s t])
    case same
    with closing side_status_put show ?thesis by simp
  qed simp
qed auto

text \<open>So along a run the link in force stays the very row, or was ended at some moment.\<close>

definition side_ended :: "table \<Rightarrow> key \<Rightarrow> bool" where
  "side_ended t k = (side_status t k ''rejected'' \<or> t k = None)"

lemma link_run_keyed: "link_run t t' \<Longrightarrow> links_keyed t \<Longrightarrow> links_keyed t'"
  unfolding link_run_def by (induction rule: rtranclp_induct) (auto intro: link_step_keyed)

lemma active_run:
  assumes "link_run t t'" "links_keyed t" "side_active t (parent_side_key p s)"
  shows "t' (parent_side_key p s) = t (parent_side_key p s)
    \<or> (\<exists>u. link_run t u \<and> link_run u t' \<and> side_ended u (parent_side_key p s))"
  using assms unfolding link_run_def
proof (induction rule: rtranclp_induct)
  case (step u v)
  let ?k = "parent_side_key p s"
  from step consider "u ?k = t ?k" | x where "link_run t x" "link_run x u" "side_ended x ?k"
    unfolding link_run_def by blast
  then show ?case
  proof cases
    case 1
    with step.prems have "side_active u ?k" by (simp add: side_active_def side_status_def row_at_def)
    moreover have "links_keyed u"
      using link_run_keyed step.hyps(1) step.prems(1) unfolding link_run_def by blast
    ultimately have "v ?k = u ?k \<or> side_ended v ?k"
      using active_step [OF step.hyps(2)] by (auto simp: side_ended_def)
    moreover have "link_step\<^sup>*\<^sup>* t v" using step.hyps by simp
    ultimately show ?thesis using 1 by auto
  next
    case 2
    then have "link_step\<^sup>*\<^sup>* x v" using step.hyps(2) by (simp add: link_run_def)
    with 2 show ?thesis unfolding link_run_def by blast
  qed
qed simp

section \<open>Transactions as steps\<close>

lemma fence_checks:
  assumes "tx_apply (map (\<lambda>(k, c). Check k c) checks @ put_both b cf cr) t = Some t'"
  shows "t' = pair_put b t" and "cond_holds cf (row_at t (pair_key b))"
    and "cond_holds cr (row_at t (mirror_key b))"
proof -
  have checks: "fold op_write (map (\<lambda>(k, c). Check k c) checks) u = u" for u
    by (induction checks) auto
  note tx = tx_applyD [OF assms]
  from tx(3) show "t' = pair_put b t"
    by (simp add: checks put_both_def both_sides_def pair_put_def)
  from tx(2) [of "Put (fst (both_sides b)) cf"] show "cond_holds cf (row_at t (pair_key b))"
    by (simp add: put_both_def both_sides_def op_ok_Put)
  from tx(2) [of "Put (snd (both_sides b)) cr"] show "cond_holds cr (row_at t (mirror_key b))"
    by (simp add: put_both_def both_sides_def op_ok_Put)
qed

lemma status_condition_side: "cond_holds (status_condition s) (row_at t k) \<Longrightarrow> side_status t k s"
  by (auto simp: status_condition_def side_status_def item_get_def split: option.splits)

lemma stamp_condition_side:
  "cond_holds (stamp_condition s st) (row_at t k) \<Longrightarrow> side_status t k s \<and> side_stamp t k st"
  by (auto simp: stamp_condition_def side_stamp_def item_get_def dest: status_condition_side split: option.splits)

lemma create_only_side: "cond_holds create_only (row_at t k) \<Longrightarrow> side_free t k"
  by (simp add: side_free_def item_get_def)

end
