(* ===== verification/Link_Client.thy ===== *)
theory Link_Client
  imports Link_Steps
begin

text \<open>
  The repository's link functions as clients of a table that others use at the same time: each of
  them, with its separate reads and its transaction, is a run of link steps.
\<close>

locale link_client = store db rows env
  for db :: "'w db" and rows :: "'w \<Rightarrow> table" and env :: "table \<Rightarrow> table \<Rightarrow> bool" +
  assumes env_run: "env t t' \<Longrightarrow> link_run t t'"

context store
begin

lemma link_get_env: "link_get db k w = (r, w') \<Longrightarrow> env (rows w) (rows w')"
  by (auto simp: link_get_def split: prod.splits response.splits dest: get_env)

lemma link_get_row: "link_get db k w = (Inr r, w') \<Longrightarrow> rows w' k = r"
  by (auto simp: link_get_def split: prod.splits response.splits dest: get_item get_none)

lemma keyed_get_env: "keyed_get db f a b w = (r, w') \<Longrightarrow> env (rows w) (rows w')"
  by (auto simp: keyed_get_def env_refl split: sum.splits dest: link_get_env)

lemma keyed_get_row:
  assumes "keyed_get db f a b w = (Inr r, w')"
  shows "rows w' (f (strip a) (strip b)) = r" and "strip a \<noteq> []" and "strip b \<noteq> []"
  using assms by (auto simp: keyed_get_def required_field_def split: sum.splits if_splits dest: link_get_row)

lemmas side_get_env =
  keyed_get_env [where f = parent_side_key, folded get_parent_side_link_def]
  keyed_get_env [where f = student_side_key, folded get_student_side_link_def]

lemmas side_get_row =
  keyed_get_row [where f = parent_side_key, folded get_parent_side_link_def]
  keyed_get_row [where f = student_side_key, folded get_student_side_link_def]

lemma both_sides_stored_env: "both_sides_stored db p s w = (r, w') \<Longrightarrow> env (rows w) (rows w')"
  by (auto simp: both_sides_stored_def split: prod.splits sum.splits option.splits
      dest!: side_get_env intro: env_trans)

lemma participant_fence_env: "participant_fence db u w = (r, w') \<Longrightarrow> env (rows w) (rows w')"
  by (auto simp: participant_fence_def split: prod.splits sum.splits err.splits
      dest!: require_active_account_fence_env)

lemma participant_fence_check:
  assumes "participant_fence db u w = (Inr c, w')"
  shows "\<exists>k d. c = Check k d"
  using assms
  by (auto simp: participant_fence_def split: prod.splits sum.splits err.splits elim: active_fence_shape)

lemma participant_fence_conditions_env:
  "participant_fence_conditions db p s w = (r, w') \<Longrightarrow> env (rows w) (rows w')"
  by (auto simp: participant_fence_conditions_def split: prod.splits sum.splits
      dest!: participant_fence_env intro: env_trans)

lemma participant_fence_conditions_checks:
  assumes "participant_fence_conditions db p s w = (Inr cs, w')"
  obtains checks where "cs = map (\<lambda>(k, c). Check k c) checks"
proof -
  from assms obtain c1 c2 w1 where c: "participant_fence db p w = (Inr c1, w1)"
      "participant_fence db s w1 = (Inr c2, w')" "cs = [c1, c2]"
    by (auto simp: participant_fence_conditions_def split: prod.splits sum.splits)
  from participant_fence_check [OF c(1)] participant_fence_check [OF c(2)]
  obtain k1 d1 k2 d2 where "c1 = Check k1 d1" "c2 = Check k2 d2" by blast
  with c(3) show thesis by (intro that [of "[(k1, d1), (k2, d2)]"]) simp
qed

end

context link_client
begin

lemma commit_link_run:
  assumes step: "\<And>t t'. tx_apply ops t = Some t' \<Longrightarrow> link_step t t'"
    and call: "commit_link db ops b w = (r, w')"
  shows "link_run (rows w) (rows w')"
proof -
  from call obtain ok where "db_tx db ops w = (ok, w')"
    by (auto simp: commit_link_def split: prod.splits bool.splits)
  then show ?thesis
  proof (rule tx_run [where run = link_run, rotated -1])
    show "link_run t t'" if "env t t'" for t t' using that by (rule env_run)
    show "link_run a c" if "link_run a b" "link_run b c" for a b c using that by (rule link_run_trans)
    show "link_run t t'" if "tx_apply ops t = Some t'" for t t'
      using that by (rule link_run_step [OF step])
  qed
qed

lemma pair_write_run:
  assumes step: "\<And>t. cond_holds cf (row_at t (pair_key b)) \<Longrightarrow> cond_holds cr (row_at t (mirror_key b)) \<Longrightarrow>
      link_step t (pair_put b t)"
    and call: "commit_link db (map (\<lambda>(k, c). Check k c) checks @ put_both b cf cr) b w = (r, w')"
  shows "link_run (rows w) (rows w')"
proof (rule commit_link_run [OF _ call])
  fix t t'
  assume "tx_apply (map (\<lambda>(k, c). Check k c) checks @ put_both b cf cr) t = Some t'"
  from fence_checks [OF this] step show "link_step t t'" by simp
qed

lemma fenced_write_run:
  assumes step: "\<And>t. cond_holds c (row_at t (pair_key b)) \<Longrightarrow> cond_holds c (row_at t (mirror_key b)) \<Longrightarrow>
      link_step t (pair_put b t)"
    and call: "fenced_write db b c w = (r, w')"
  shows "link_run (rows w) (rows w')"
proof (cases "participant_fence_conditions db (lk_parent b) (lk_student b) w")
  case (Pair f w1)
  note env = participant_fence_conditions_env [OF Pair]
  show ?thesis
  proof (cases f)
    case (Inl e)
    with Pair call env show ?thesis by (auto simp: fenced_write_def intro: env_run)
  next
    case (Inr fences)
    with Pair obtain checks where "fences = map (\<lambda>(k, c). Check k c) checks"
      by (auto elim: participant_fence_conditions_checks)
    with Pair Inr call have "commit_link db (map (\<lambda>(k, c). Check k c) checks @ put_both b c c) b w1 = (r, w')"
      by (simp add: fenced_write_def)
    from pair_write_run [OF step this] env_run [OF env] show ?thesis by (blast intro: link_run_trans)
  qed
qed

lemma creating_step:
  "lk_status b \<in> {''pending'', ''active''} \<Longrightarrow> cond_holds create_only (row_at t (pair_key b)) \<Longrightarrow>
    cond_holds create_only (row_at t (mirror_key b)) \<Longrightarrow> link_step t (pair_put b t)"
  by (rule link_step.creating [OF create_only_side create_only_side])

lemma answering_step:
  "lk_status b \<in> {''active'', ''rejected''} \<Longrightarrow> cond_holds (status_condition ''pending'') (row_at t (pair_key b)) \<Longrightarrow>
    cond_holds (status_condition ''pending'') (row_at t (mirror_key b)) \<Longrightarrow> link_step t (pair_put b t)"
  by (rule link_step.answering [OF status_condition_side status_condition_side])

lemma reclaiming_step:
  "lk_status b \<in> {''pending'', ''active''} \<Longrightarrow> old \<in> {''pending'', ''rejected''} \<Longrightarrow> lk_stamp b \<noteq> st \<Longrightarrow>
    cond_holds (stamp_condition old st) (row_at t (pair_key b)) \<Longrightarrow>
    cond_holds (stamp_condition old st) (row_at t (mirror_key b)) \<Longrightarrow> link_step t (pair_put b t)"
  by (rule link_step.reclaiming) (blast dest: stamp_condition_side)+

lemma requested_bodyD:
  assumes "requested_body rq = Inr b"
  shows "checked_status (lr_status rq) = Inr (lk_status b)"
    and "lk_parent b = strip (lr_parent rq)" and "lk_student b = strip (lr_student rq)"
    and "lk_stamp b = strip (lr_linked_at rq)"
  using assms
  by (auto simp: requested_body_def link_body_def split: sum.splits if_splits dest: required_field_InrD)

lemma checked_statusD: "checked_status v = Inr s \<Longrightarrow> s = strip v \<and> s \<in> set KNOWN_STATUSES"
  by (auto simp: checked_status_def split: sum.splits if_splits dest: required_field_InrD)

abbreviation (input) opens_link :: "string \<Rightarrow> bool" where
  "opens_link st \<equiv> strip st \<in> {''pending'', ''active''}"

lemma create_link_run:
  assumes "opens_link (lr_status rq)" and call: "create_link db rq w = (r, w')"
  shows "link_run (rows w) (rows w')"
proof (cases "requested_body rq")
  case (Inl e)
  with call show ?thesis by (simp add: create_link_def)
next
  case (Inr b)
  with assms requested_bodyD [OF Inr] checked_statusD have "lk_status b \<in> {''pending'', ''active''}" by auto
  moreover from Inr call have "fenced_write db b create_only w = (r, w')" by (simp add: create_link_def)
  ultimately show ?thesis
    using fenced_write_run creating_step by blast
qed

lemma transition_bodyD:
  assumes "transition_body rt p s target u m i = Inr b"
  shows "lk_parent b = p" and "lk_student b = s" and "lk_status b = target"
  using assms by (auto simp: transition_body_def link_body_def split: sum.splits if_splits)

lemma transition_link_run:
  assumes "strip old = ''pending''" and "strip new \<in> {''active'', ''rejected''}"
    and call: "transition_link db rt p s old new u m w = (r, w')"
  shows "link_run (rows w) (rows w')"
proof -
  consider "w' = w"
    | w1 where "both_sides_stored db (strip p) (strip s) w = (Inl (projl r), w1)" "w' = w1"
    | i j w1 where "both_sides_stored db (strip p) (strip s) w = (Inr (i, j), w1)" "w' = w1"
    | i j w1 b where "both_sides_stored db (strip p) (strip s) w = (Inr (i, j), w1)"
        "lk_status b = strip new" "fenced_write db b (status_condition (strip old)) w1 = (r, w')"
    using call
    by (auto simp: transition_link_def split: sum.splits if_splits prod.splits
        dest!: required_field_InrD checked_statusD transition_bodyD)
  then show ?thesis
  proof cases
    case 4
    from 4(2) assms(2) have "lk_status b \<in> {''active'', ''rejected''}" by simp
    with 4(3) assms(1) have "link_run (rows w1) (rows w')"
      using fenced_write_run answering_step by metis
    with both_sides_stored_env [OF 4(1)] env_run show ?thesis by (blast intro: link_run_trans)
  qed (auto intro: env_run dest: both_sides_stored_env)
qed

lemma reclaim_link_run:
  assumes "opens_link (lr_status rq)" and "strip old \<in> {''pending'', ''rejected''}"
    and call: "reclaim_link db rq old stamp_text w = (r, w')"
  shows "link_run (rows w) (rows w')"
proof -
  consider "w' = w"
    | w1 x where "both_sides_stored db (strip (lr_parent rq)) (strip (lr_student rq)) w = (x, w1)" "w' = w1"
    | w1 x b where "both_sides_stored db (strip (lr_parent rq)) (strip (lr_student rq)) w = (x, w1)"
        "requested_body rq = Inr b" "strip (lr_linked_at rq) \<noteq> strip stamp_text"
        "fenced_write db b (stamp_condition (strip old) (strip stamp_text)) w1 = (r, w')"
    using call
    by (auto simp: reclaim_link_def split: sum.splits if_splits prod.splits
        dest!: required_field_InrD checked_statusD)
  then show ?thesis
  proof cases
    case 3
    note body = requested_bodyD [OF 3(2)]
    from body(1) assms(1) checked_statusD have "lk_status b \<in> {''pending'', ''active''}" by auto
    moreover from 3(3) body(4) have "lk_stamp b \<noteq> strip stamp_text" by simp
    ultimately have "link_run (rows w1) (rows w')"
      using fenced_write_run [OF _ 3(4)] reclaiming_step [OF _ assms(2)] by blast
    with both_sides_stored_env [OF 3(1)] env_run show ?thesis by (blast intro: link_run_trans)
  qed (auto intro: env_run dest: both_sides_stored_env)
qed

lemma closed_body_status: "closed_body rt p s i u m = Inr b \<Longrightarrow> lk_status b = ''rejected''"
  by (auto simp: closed_body_def link_body_def split: sum.splits if_splits)

lemma close_link_run:
  assumes call: "close_link db rt p s ps ss u m w = (r, w')"
  shows "link_run (rows w) (rows w')"
proof -
  consider "w' = w" | b cf cr where "lk_status b = ''rejected''" "commit_link db (put_both b cf cr) b w = (r, w')"
    using call
    by (auto simp: close_link_def Let_def split: sum.splits if_splits prod.splits list.splits
        dest!: closed_body_status)
  then show ?thesis
  proof cases
    case 2
    then show ?thesis using pair_write_run [of cf b cr "[]"] link_step.closing by simp
  qed simp
qed

end

end
