(* ===== verification/Relationship.thy ===== *)
theory Relationship
  imports Link_Client
begin

text \<open>
  The one judge of whether a parent-student relationship holds right now
  (\<open>services/current_relationship.py\<close>), the lists built on it, and the closing of a link.
\<close>

section \<open>Verdicts\<close>

datatype standing = CURRENT | KNOWN | UNKNOWN

record verdict =
  standing :: standing
  vd_parent :: string
  vd_student :: string
  vd_relationship :: "string option"
  vd_status :: "string option"
  vd_source :: "string option"
  vd_version :: "string option"

definition is_current :: "verdict \<Rightarrow> bool" where
  "is_current v = (standing v = CURRENT)"

definition is_known :: "verdict \<Rightarrow> bool" where
  "is_known v = (standing v \<noteq> UNKNOWN)"

definition about :: "verdict \<Rightarrow> string \<Rightarrow> string \<Rightarrow> bool" where
  "about v p s = (vd_parent v = p \<and> vd_student v = s)"

definition unknown_pair :: "string \<Rightarrow> string \<Rightarrow> verdict" where
  "unknown_pair p s = \<lparr>standing = UNKNOWN, vd_parent = p, vd_student = s, vd_relationship = None,
     vd_status = None, vd_source = None, vd_version = None\<rparr>"

text \<open>\<open>a or b\<close> on stored values.\<close>

definition py_or :: "pyval \<Rightarrow> pyval \<Rightarrow> pyval" where
  "py_or a b = (if truthy a then a else b)"

text \<open>
  An empty mapping is refused by the same comparisons that refuse an absent one, so a row is an
  \<open>item option\<close> here and in the policy.
\<close>

definition usable_account :: "item option \<Rightarrow> string \<Rightarrow> string \<Rightarrow> bool" where
  "usable_account profile u role =
     (case profile of
        None \<Rightarrow> False
      | Some i \<Rightarrow>
          item_get i ''user_id'' = PStr u \<and> item_get i ''role'' = PStr role
          \<and> py_or (item_get i ''account_status'') (item_get i ''status'') = PStr ''active'')"

definition about_pair :: "item option \<Rightarrow> string \<Rightarrow> string \<Rightarrow> bool" where
  "about_pair row p s =
     (case row of
        None \<Rightarrow> False
      | Some i \<Rightarrow> item_get i ''parent_id'' = PStr p \<and> item_get i ''student_id'' = PStr s)"

definition rows_current :: "item \<Rightarrow> item \<Rightarrow> bool" where
  "rows_current forward reverse =
     (item_get forward ''status'' = PStr ''active'' \<and> item_get reverse ''status'' = PStr ''active''
      \<and> truthy (item_get forward ''link_updated_at'')
      \<and> list_all (\<lambda>f. py_eq (item_get forward f) (item_get reverse f)) [''relationship'', ''link_updated_at''])"

definition verdict_from_rows :: "runtime \<Rightarrow> standing \<Rightarrow> string \<Rightarrow> string \<Rightarrow> item \<Rightarrow> verdict" where
  "verdict_from_rows rt st p s forward =
     \<lparr>standing = st, vd_parent = p, vd_student = s,
      vd_relationship = Some (str_or rt (item_get forward ''relationship'') ''child''),
      vd_status = Some (str_or rt (item_get forward ''status'') []),
      vd_source = Some ENTITY_TYPE,
      vd_version = (let v = str_or rt (item_get forward ''link_updated_at'') [] in if v = [] then None else Some v)\<rparr>"

section \<open>Judging\<close>

definition profile_key :: "string \<Rightarrow> key" where
  "profile_key u = (''USER#'' @ u, ''PROFILE'')"

definition get_user :: "'w db \<Rightarrow> string \<Rightarrow> 'w \<Rightarrow> item option result \<times> 'w" where
  "get_user db u w =
     (case db_get db (profile_key u) w of
        (Resp_Failed, w') \<Rightarrow> (Inl Provider_Error, w')
      | (Resp_Malformed, w') \<Rightarrow> (Inl Value_Error, w')
      | (Resp_None, w') \<Rightarrow> (Inr None, w')
      | (Resp_Item i, w') \<Rightarrow> (Inr (Some i), w'))"

text \<open>The rows first, then the parent, then the student: a pair refused early reads no further.\<close>

definition judge_rows ::
    "'w db \<Rightarrow> runtime \<Rightarrow> string \<Rightarrow> string \<Rightarrow> item option \<Rightarrow> item option \<Rightarrow> 'w \<Rightarrow> verdict result \<times> 'w" where
  "judge_rows db rt p s forward reverse w =
     (if \<not> about_pair forward p s \<or> \<not> about_pair reverse p s then (Inr (unknown_pair p s), w)
      else if \<not> rows_current (the forward) (the reverse)
      then (Inr (verdict_from_rows rt KNOWN p s (the forward)), w)
      else case get_user db p w of
          (Inl e, w1) \<Rightarrow> (Inl e, w1)
        | (Inr parent, w1) \<Rightarrow>
            (if \<not> usable_account parent p ''parent''
             then (Inr (verdict_from_rows rt KNOWN p s (the forward)), w1)
             else case get_user db s w1 of
                 (Inl e, w2) \<Rightarrow> (Inl e, w2)
               | (Inr student, w2) \<Rightarrow>
                   (if \<not> usable_account student s ''student''
                    then (Inr (verdict_from_rows rt KNOWN p s (the forward)), w2)
                    else (Inr (verdict_from_rows rt CURRENT p s (the forward)), w2))))"

definition judge :: "'w db \<Rightarrow> runtime \<Rightarrow> string \<Rightarrow> string \<Rightarrow> 'w \<Rightarrow> verdict result \<times> 'w" where
  "judge db rt p s w =
     (if p = [] \<or> s = [] then (Inr (unknown_pair p s), w)
      else case get_parent_side_link db p s w of
          (Inl e, w1) \<Rightarrow> (Inl e, w1)
        | (Inr forward, w1) \<Rightarrow>
            (case get_student_side_link db s p w1 of
               (Inl e, w2) \<Rightarrow> (Inl e, w2)
             | (Inr reverse, w2) \<Rightarrow> judge_rows db rt p s forward reverse w2))"

fun judged_from :: "'w db \<Rightarrow> runtime \<Rightarrow> (string \<times> string) list \<Rightarrow> (string \<times> string) list \<Rightarrow> 'w
    \<Rightarrow> verdict list result \<times> 'w" where
  "judged_from db rt [] seen w = (Inr [], w)"
| "judged_from db rt ((p, s) # pairs) seen w =
     (if p = [] \<or> s = [] \<or> (p, s) \<in> set seen then judged_from db rt pairs seen w
      else case judge db rt p s w of
          (Inl e, w1) \<Rightarrow> (Inl e, w1)
        | (Inr v, w1) \<Rightarrow>
            (case judged_from db rt pairs ((p, s) # seen) w1 of
               (Inl e, w2) \<Rightarrow> (Inl e, w2)
             | (Inr vs, w2) \<Rightarrow> (Inr (v # vs), w2)))"

definition judged :: "'w db \<Rightarrow> runtime \<Rightarrow> (string \<times> string) list \<Rightarrow> 'w \<Rightarrow> verdict list result \<times> 'w" where
  "judged db rt pairs w = judged_from db rt pairs [] w"

text \<open>
  A query of one partition is a service call of its own, an argument here: the rows of a parent's
  or a student's side as listed at that moment.
\<close>

record 'w link_index =
  links_of_parent :: "string \<Rightarrow> 'w \<Rightarrow> item list result \<times> 'w"
  links_of_student :: "string \<Rightarrow> 'w \<Rightarrow> item list result \<times> 'w"

definition list_links_for_parent :: "'w link_index \<Rightarrow> string \<Rightarrow> 'w \<Rightarrow> item list result \<times> 'w" where
  "list_links_for_parent ix p w =
     (case required_field p of Inl e \<Rightarrow> (Inl e, w) | Inr p' \<Rightarrow> links_of_parent ix p' w)"

definition list_links_for_student :: "'w link_index \<Rightarrow> string \<Rightarrow> 'w \<Rightarrow> item list result \<times> 'w" where
  "list_links_for_student ix s w =
     (case required_field s of Inl e \<Rightarrow> (Inl e, w) | Inr s' \<Rightarrow> links_of_student ix s' w)"

definition parent_side_pairs :: "runtime \<Rightarrow> string \<Rightarrow> bool \<Rightarrow> item list \<Rightarrow> (string \<times> string) list" where
  "parent_side_pairs rt p active_only listed =
     map (\<lambda>row. (p, str_or rt (item_get row ''student_id'') []))
       (filter (\<lambda>row. \<not> active_only \<or> item_get row ''status'' = PStr ''active'') listed)"

definition keep_verdicts :: "(verdict \<Rightarrow> bool) \<Rightarrow> verdict list result \<times> 'w \<Rightarrow> verdict list result \<times> 'w" where
  "keep_verdicts P r = (case r of (Inl e, w) \<Rightarrow> (Inl e, w) | (Inr vs, w) \<Rightarrow> (Inr (filter P vs), w))"

definition children_of :: "'w db \<Rightarrow> runtime \<Rightarrow> 'w link_index \<Rightarrow> string \<Rightarrow> 'w \<Rightarrow> verdict list result \<times> 'w" where
  "children_of db rt ix p w =
     (if p = [] then (Inr [], w)
      else case list_links_for_parent ix p w of
          (Inl e, w1) \<Rightarrow> (Inl e, w1)
        | (Inr listed, w1) \<Rightarrow> keep_verdicts is_current (judged db rt (parent_side_pairs rt p True listed) w1))"

definition parents_of :: "'w db \<Rightarrow> runtime \<Rightarrow> 'w link_index \<Rightarrow> string \<Rightarrow> 'w \<Rightarrow> verdict list result \<times> 'w" where
  "parents_of db rt ix s w =
     (if s = [] then (Inr [], w)
      else case list_links_for_student ix s w of
          (Inl e, w1) \<Rightarrow> (Inl e, w1)
        | (Inr listed, w1) \<Rightarrow>
            keep_verdicts is_current
              (judged db rt
                (map (\<lambda>row. (str_or rt (item_get row ''parent_id'') [], s))
                  (filter (\<lambda>row. item_get row ''status'' = PStr ''active'') listed)) w1))"

definition known_children_of :: "'w db \<Rightarrow> runtime \<Rightarrow> 'w link_index \<Rightarrow> string \<Rightarrow> 'w \<Rightarrow> verdict list result \<times> 'w" where
  "known_children_of db rt ix p w =
     (if p = [] then (Inr [], w)
      else case list_links_for_parent ix p w of
          (Inl e, w1) \<Rightarrow> (Inl e, w1)
        | (Inr listed, w1) \<Rightarrow> keep_verdicts is_known (judged db rt (parent_side_pairs rt p False listed) w1))"

section \<open>Closing\<close>

definition revoke ::
    "'w db \<Rightarrow> runtime \<Rightarrow> string \<Rightarrow> string \<Rightarrow> string \<Rightarrow> string \<Rightarrow> 'w \<Rightarrow> (link_failure + verdict option) \<times> 'w" where
  "revoke db rt p s actor moment w =
     (if p = [] \<or> s = [] then (Inr None, w)
      else case get_parent_side_link db p s w of
          (Inl e, w1) \<Rightarrow> (Inl (Link_Raises e), w1)
        | (Inr forward, w1) \<Rightarrow>
            (case get_student_side_link db s p w1 of
               (Inl e, w2) \<Rightarrow> (Inl (Link_Raises e), w2)
             | (Inr reverse, w2) \<Rightarrow>
                 (let parent_side = (if about_pair forward p s then forward else None);
                      student_side = (if about_pair reverse p s then reverse else None)
                  in if \<not> list_ex (\<lambda>i. item_get i ''status'' = PStr ''active'')
                          (option_list parent_side @ option_list student_side)
                     then (Inr None, w2)
                     else case close_link db rt p s parent_side student_side actor moment w2 of
                         (Inl e, w3) \<Rightarrow> (Inl e, w3)
                       | (Inr ended, w3) \<Rightarrow>
                           (Inr (Some (verdict_from_rows rt KNOWN p s (dict_of (link_attributes ended)))), w3))))"

section \<open>Where a report may go\<close>

datatype recipient = Send_To string | Relationship_Revoked | Recipient_Missing

definition current_parent_recipient :: "'w db \<Rightarrow> runtime \<Rightarrow> string \<Rightarrow> string \<Rightarrow> 'w \<Rightarrow> recipient result \<times> 'w" where
  "current_parent_recipient db rt p s w =
     (case judge db rt p s w of
        (Inl e, w1) \<Rightarrow> (Inl e, w1)
      | (Inr v, w1) \<Rightarrow>
          (if \<not> is_current v then (Inr Relationship_Revoked, w1)
           else case get_user db p w1 of
               (Inl e, w2) \<Rightarrow> (Inl e, w2)
             | (Inr profile, w2) \<Rightarrow>
                 (let email = (case profile of None \<Rightarrow> [] | Some i \<Rightarrow> strip (str_or rt (item_get i ''email'') []))
                  in (Inr (if email = [] then Recipient_Missing else Send_To email), w2))))"

section \<open>What a verdict says about the table\<close>

lemma standing_from_rows [simp]: "standing (verdict_from_rows rt st p s i) = st"
  by (simp add: verdict_from_rows_def)

lemma standing_unknown [simp]: "standing (unknown_pair p s) = UNKNOWN"
  by (simp add: unknown_pair_def)

lemma about_verdict [simp]: "about (verdict_from_rows rt st p s i) p s" "about (unknown_pair p s) p s"
  by (simp_all add: about_def verdict_from_rows_def unknown_pair_def)

lemma rows_currentD:
  assumes "rows_current f r"
  shows "item_get f ''status'' = PStr ''active''" and "item_get r ''status'' = PStr ''active''"
  using assms by (simp_all add: rows_current_def)

text \<open>One moment at which a pair is in force: the student's side is active, and so is the parent's unless
  it was just removed with its account.\<close>

definition link_in_force :: "table \<Rightarrow> string \<Rightarrow> string \<Rightarrow> bool" where
  "link_in_force t p s =
     (side_active t (student_side_key s p)
      \<and> (t (parent_side_key p s) = None \<or> side_active t (parent_side_key p s)))"

lemma link_in_forceI:
  assumes "links_agree t" "t (student_side_key s p) = Some r" "item_get r ''status'' = PStr ''active''"
  shows "link_in_force t p s"
proof (cases "t (parent_side_key p s)")
  case None
  with assms show ?thesis by (simp add: link_in_force_def side_active_def side_status_def row_at_def)
next
  case (Some f)
  with assms have "link_fields f = link_fields r" by (auto simp: links_agree_def pair_agrees_def split: option.splits)
  from link_fields_get [OF this, of "''status''"] assms Some show ?thesis
    by (simp add: link_in_force_def side_active_def side_status_def row_at_def LINK_FIELDS_def)
qed

context store
begin

lemma get_user_env: "get_user db u w = (r, w') \<Longrightarrow> env (rows w) (rows w')"
  by (auto simp: get_user_def split: prod.splits response.splits dest: get_env)

lemma get_user_row: "get_user db u w = (Inr r, w') \<Longrightarrow> rows w' (profile_key u) = r"
  by (auto simp: get_user_def split: prod.splits response.splits dest: get_item get_none)

lemma judge_rows_env: "judge_rows db rt p s f r w = (v, w') \<Longrightarrow> env (rows w) (rows w')"
  by (auto simp: judge_rows_def env_refl split: if_splits prod.splits sum.splits
      dest!: get_user_env intro: env_trans)

lemma judge_env: "judge db rt p s w = (v, w') \<Longrightarrow> env (rows w) (rows w')"
proof -
  assume call: "judge db rt p s w = (v, w')"
  then consider "w' = w" | r where "get_parent_side_link db p s w = (r, w')"
    | r w1 r' where "get_parent_side_link db p s w = (r, w1)" "get_student_side_link db s p w1 = (r', w')"
    | r w1 r' w2 f g where "get_parent_side_link db p s w = (r, w1)" "get_student_side_link db s p w1 = (r', w2)"
        "judge_rows db rt p s f g w2 = (v, w')"
    by (auto simp: judge_def split: if_splits prod.splits sum.splits)
  then show ?thesis
  proof cases
    case 1
    then show ?thesis by (simp add: env_refl)
  next
    case 2
    then show ?thesis by (rule side_get_env)
  next
    case 3
    show ?thesis by (rule env_trans [OF side_get_env(1) [OF 3(1)] side_get_env(2) [OF 3(2)]])
  next
    case 4
    show ?thesis
      by (rule env_trans [OF env_trans [OF side_get_env(1) [OF 4(1)] side_get_env(2) [OF 4(2)]]
            judge_rows_env [OF 4(3)]])
  qed
qed

text \<open>A current verdict: what each of the four reads saw, and when.\<close>

lemma judge_rows_current:
  assumes "judge_rows db rt p s forward reverse w = (Inr v, w')" "is_current v"
  obtains f r parent student w1 where "forward = Some f" "reverse = Some r"
    "about_pair forward p s" "about_pair reverse p s" "rows_current f r"
    "get_user db p w = (Inr parent, w1)" "usable_account parent p ''parent''"
    "get_user db s w1 = (Inr student, w')" "usable_account student s ''student''"
  using assms
  by (auto simp: judge_rows_def is_current_def about_pair_def split: if_splits prod.splits sum.splits option.splits)

lemma judge_current_reads:
  assumes "judge db rt p s w = (Inr v, w')" "is_current v"
  obtains f r parent student w1 w2 w3 where
    "get_parent_side_link db p s w = (Inr (Some f), w1)"
    "get_student_side_link db s p w1 = (Inr (Some r), w2)"
    "get_user db p w2 = (Inr parent, w3)" "get_user db s w3 = (Inr student, w')"
    "about_pair (Some f) p s" "rows_current f r"
    "usable_account parent p ''parent''" "usable_account student s ''student''"
proof -
  from assms obtain f r w1 w2 where c: "get_parent_side_link db p s w = (Inr f, w1)"
      "get_student_side_link db s p w1 = (Inr r, w2)" "judge_rows db rt p s f r w2 = (Inr v, w')"
    by (auto simp: judge_def is_current_def split: if_splits prod.splits sum.splits)
  show thesis
  proof (rule judge_rows_current [OF c(3) assms(2)])
    fix f' r' parent student w3
    assume d: "f = Some f'" "r = Some r'" "about_pair f p s" "about_pair r p s" "rows_current f' r'"
      "get_user db p w2 = (Inr parent, w3)" "usable_account parent p ''parent''"
      "get_user db s w3 = (Inr student, w')" "usable_account student s ''student''"
    show thesis by (rule that [of f' w1 r' w2 parent w3 student]) (use c d in auto)
  qed
qed

lemma judge_about: "judge db rt p s w = (Inr v, w') \<Longrightarrow> about v p s"
  by (auto simp: judge_def judge_rows_def split: if_splits prod.splits sum.splits)

end

context link_client
begin

lemma env_links_agree: "env t t' \<Longrightarrow> links_agree t \<Longrightarrow> links_agree t'"
  using env_run link_run_agrees by blast

lemma judge_in_force:
  assumes "judge db rt p s w = (Inr v, w')" "is_current v" "links_agree (rows w)"
  obtains w2 where "env (rows w) (rows w2)" "env (rows w2) (rows w')"
    "link_in_force (rows w2) (strip p) (strip s)"
proof -
  obtain f r parent student w1 w2 w3 where c:
    "get_parent_side_link db p s w = (Inr (Some f), w1)"
    "get_student_side_link db s p w1 = (Inr (Some r), w2)"
    "get_user db p w2 = (Inr parent, w3)" "get_user db s w3 = (Inr student, w')"
    "about_pair (Some f) p s" "rows_current f r"
    by (rule judge_current_reads [OF assms(1,2)])
  have e: "env (rows w) (rows w2)" by (rule env_trans [OF side_get_env(1) [OF c(1)] side_get_env(2) [OF c(2)]])
  moreover have "env (rows w2) (rows w')" by (rule env_trans [OF get_user_env [OF c(3)] get_user_env [OF c(4)]])
  moreover from side_get_row(4) [OF c(2)] have "rows w2 (student_side_key (strip s) (strip p)) = Some r" .
  with env_links_agree [OF e assms(3)] rows_currentD(2) [OF c(6)]
  have "link_in_force (rows w2) (strip p) (strip s)" by (intro link_in_forceI)
  ultimately show thesis by (rule that)
qed

lemma revoke_run: "revoke db rt p s actor m w = (r, w') \<Longrightarrow> link_run (rows w) (rows w')"
proof -
  assume call: "revoke db rt p s actor m w = (r, w')"
  then consider "w' = w" | f where "get_parent_side_link db p s w = (f, w')"
    | f w1 g where "get_parent_side_link db p s w = (f, w1)" "get_student_side_link db s p w1 = (g, w')"
    | f w1 g w2 a b x where "get_parent_side_link db p s w = (f, w1)" "get_student_side_link db s p w1 = (g, w2)"
        "close_link db rt p s a b actor m w2 = (x, w')"
    by (auto simp: revoke_def Let_def split: if_splits prod.splits sum.splits)
  then show ?thesis
  proof cases
    case 1
    then show ?thesis by simp
  next
    case 2
    show ?thesis by (rule env_run [OF side_get_env(1) [OF 2]])
  next
    case 3
    show ?thesis by (rule env_run [OF env_trans [OF side_get_env(1) [OF 3(1)] side_get_env(2) [OF 3(2)]]])
  next
    case 4
    show ?thesis
      by (rule link_run_trans [OF env_run [OF env_trans [OF side_get_env(1) [OF 4(1)] side_get_env(2) [OF 4(2)]]]
            close_link_run [OF 4(3)]])
  qed
qed

end

end
