(* ===== verification/Access_Policy.thy ===== *)
theory Access_Policy
  imports Access_Identity Help_Rights Relationship
begin

text \<open>
  The one decision path to student resources (\<open>security/authorization.py\<close>): the resource and its
  facts, the policy, the operator's capability check, the evidence that has to be durable before a
  handler runs, and the gateway that strings them together.
\<close>

section \<open>Resources and facts\<close>

definition POLICY_VERSION :: string where
  "POLICY_VERSION = ''472.v1''"

record resource_ref =
  resource_type :: resource_type
  resource_id :: string
  student_id :: string
  owner_id :: "string option"
  question_id :: "string option"
  relationship_known :: bool
  safe_support_metadata :: bool
  course_id :: "string option"
  class_id :: "string option"
  lesson_id :: "string option"
  subject_id :: "string option"
  grade_level :: "string option"

definition plain_ref :: "resource_type \<Rightarrow> string \<Rightarrow> string \<Rightarrow> resource_ref" where
  "plain_ref ty rid sid = \<lparr>resource_type = ty, resource_id = rid, student_id = sid, owner_id = None,
     question_id = None, relationship_known = False, safe_support_metadata = False, course_id = None,
     class_id = None, lesson_id = None, subject_id = None, grade_level = None\<rparr>"

text \<open>\<open>ResourceRef.__post_init__\<close>\<close>

definition make_ref :: "resource_ref \<Rightarrow> resource_ref result" where
  "make_ref r = (if strip (resource_id r) = [] \<or> strip (student_id r) = [] then Inl Value_Error else Inr r)"

definition active_account :: "item option \<Rightarrow> string \<Rightarrow> canonical_role \<Rightarrow> bool" where
  "active_account acc u r =
     (case acc of
        None \<Rightarrow> False
      | Some i \<Rightarrow>
          item_get i ''user_id'' = PStr u \<and> item_get i ''role'' = PStr (role_text r)
          \<and> py_or (item_get i ''account_status'') (item_get i ''status'') = PStr ''active'')"

record parent_facts =
  pf_verdict :: "verdict option"
  parent_account :: "item option"
  pf_student_account :: "item option"

definition parent_matches :: "parent_facts \<Rightarrow> string \<Rightarrow> string \<Rightarrow> bool" where
  "parent_matches f p s =
     ((case pf_verdict f of None \<Rightarrow> False | Some v \<Rightarrow> is_current v \<and> about v p s)
      \<and> active_account (parent_account f) p ROLE_PARENT
      \<and> active_account (pf_student_account f) s ROLE_STUDENT)"

definition parent_known_to :: "parent_facts \<Rightarrow> string \<Rightarrow> string \<Rightarrow> bool" where
  "parent_known_to f p s =
     (case pf_verdict f of None \<Rightarrow> False | Some v \<Rightarrow> is_known v \<and> about v p s)"

section \<open>Scopes\<close>

definition scope_matches :: "string \<Rightarrow> resource_ref \<Rightarrow> action \<Rightarrow> purpose \<Rightarrow> bool \<Rightarrow> bool" where
  "scope_matches sc r act pur allow_global =
     (let exact = ''resource:'' @ resource_text (resource_type r) @ '':'' @ resource_id r
      in sc \<in> {exact, ''student:'' @ student_id r,
                exact @ '':action:'' @ action_text act @ '':purpose:'' @ purpose_text pur}
         \<or> (allow_global \<and> sc = ''global''))"

text \<open>
  \<open>_strict_string_set\<close>: a collection of exact texts without scalar coercion and without repetition. A
  list stands for a list, tuple or set of the program.
\<close>

definition strict_string_set :: "pyval \<Rightarrow> string list option" where
  "strict_string_set v =
     (case v of
        PList vs \<Rightarrow>
          (let texts = List.map_filter (\<lambda>x. case x of PStr s \<Rightarrow> if strip s = [] then None else Some s | _ \<Rightarrow> None) vs
           in if vs = [] \<or> length texts \<noteq> length vs then None
              else if distinct texts then Some texts else None)
      | _ \<Rightarrow> None)"

definition strict_scope_values :: "pyval \<Rightarrow> string list option" where
  "strict_scope_values v =
     (case v of
        PStr s \<Rightarrow> if strip s = [] then None else Some [s]
      | _ \<Rightarrow> strict_string_set v)"

section \<open>A teacher's rights\<close>

record teacher_facts =
  tf_request :: "item option"
  tf_assignment :: "item option"
  tf_teacher_account :: "item option"
  tf_student_account :: "item option"

definition some_item :: "item option \<Rightarrow> item" where
  "some_item x = (case x of None \<Rightarrow> Map.empty | Some i \<Rightarrow> i)"

definition text_or_empty :: "string option \<Rightarrow> string" where
  "text_or_empty x = (case x of None \<Rightarrow> [] | Some s \<Rightarrow> s)"

definition current_task_permits ::
    "runtime \<Rightarrow> item option \<Rightarrow> string \<Rightarrow> resource_ref \<Rightarrow> action \<Rightarrow> purpose \<Rightarrow> int \<Rightarrow> bool" where
  "current_task_permits rt request actor_id r act pur now =
     (if pur \<noteq> FOR_TEACHER_HELP then False
      else case request of
          None \<Rightarrow> False
        | Some rq \<Rightarrow>
            (if item_get rq ''student_id'' \<noteq> PStr (student_id r) then False
             else let linked = {str_or rt (item_get rq ''escalation_request_id'') [],
                                str_or rt (item_get rq ''conversation_id'') []};
                      link = (if resource_type r \<in> {RES_AI_TEACHER_DRAFT, RES_ATTACHMENT}
                              then text_or_empty (question_id r) else resource_id r)
                  in if resource_type r \<notin> {RES_QUESTION, RES_CONVERSATION, RES_TEACHER_HELP_REQUEST,
                          RES_AI_TEACHER_DRAFT, RES_ATTACHMENT} then False
                     else if resource_type r = RES_ATTACHMENT
                          \<and> (act \<noteq> ACT_READ \<or> text_or_empty (question_id r) = []
                             \<or> owner_id r \<noteq> Some (student_id r)) then False
                     else if link \<notin> linked then False
                     else if act \<notin> {ACT_READ, ACT_CREATE, ACT_UPDATE, ACT_RESPOND, ACT_RESOLVE} then False
                     else if act \<in> set TEACHER_WRITES \<and> resource_type r \<noteq> RES_TEACHER_HELP_REQUEST
                          \<and> item_get rq ''teacher_id'' \<noteq> PStr actor_id then False
                     else teacher_may rt rq actor_id act now))"

definition standing_assignment_permits ::
    "runtime \<Rightarrow> item option \<Rightarrow> string \<Rightarrow> resource_ref \<Rightarrow> action \<Rightarrow> purpose \<Rightarrow> int \<Rightarrow> bool" where
  "standing_assignment_permits rt assignment actor_id r act pur now =
     (case assignment of
        None \<Rightarrow> False
      | Some a \<Rightarrow>
          (if item_get a ''status'' \<noteq> PStr ''active'' then False
           else if item_get a ''teacher_id'' \<noteq> PStr actor_id \<or> item_get a ''student_id'' \<noteq> PStr (student_id r) then False
           else if deadline_passed rt (item_get a ''expires_at'') now then False
           else scope_matches (str_or rt (item_get a ''scope'') []) r act pur False
             \<or> (resource_text (resource_type r) \<in> set (listed_texts rt (item_get a ''resource_types''))
                \<and> action_text act \<in> set (listed_texts rt (item_get a ''actions''))
                \<and> purpose_text pur \<in> set (listed_texts rt (item_get a ''purposes'')))))"

definition teacher_permits ::
    "runtime \<Rightarrow> teacher_facts \<Rightarrow> string \<Rightarrow> resource_ref \<Rightarrow> action \<Rightarrow> purpose \<Rightarrow> int \<Rightarrow> bool" where
  "teacher_permits rt f actor_id r act pur now =
     (if \<not> active_account (tf_teacher_account f) actor_id ROLE_TEACHER then False
      else if \<not> active_account (tf_student_account f) (student_id r) ROLE_STUDENT then False
      else if current_task_permits rt (tf_request f) actor_id r act pur now then True
      else if resource_type r = RES_ATTACHMENT then False
      else standing_assignment_permits rt (tf_assignment f) actor_id r act pur now)"

section \<open>Curriculum answers\<close>

record curriculum_facts =
  cf_assignment :: "item option"
  cf_teacher_account :: "item option"

fun is_pdict :: "pyval \<Rightarrow> bool" where
  "is_pdict (PDict _) = True"
| "is_pdict _ = False"

definition valid_curriculum_assignment_row :: "item \<Rightarrow> string \<Rightarrow> bool" where
  "valid_curriculum_assignment_row a actor_id =
     (actor_id \<noteq> []
      \<and> item_get a ''PK'' = PStr (''TEACHER_ASSIGNMENT#'' @ actor_id)
      \<and> item_get a ''SK'' = PStr ''CURRICULUM#CURRENT''
      \<and> item_get a ''entity_type'' = PStr ''teacher_curriculum_assignment''
      \<and> item_get a ''teacher_id'' = PStr actor_id
      \<and> (case item_get a ''version'' of PInt n \<Rightarrow> 0 < n | _ \<Rightarrow> False)
      \<and> is_pdict (item_get a ''curriculum_scope''))"

definition scope_member :: "pyval \<Rightarrow> string \<Rightarrow> pyval" where
  "scope_member v f = (case v of PDict kvs \<Rightarrow> item_get (dict_of kvs) f | _ \<Rightarrow> PNone)"

definition coordinate_allowed :: "string option \<Rightarrow> pyval \<Rightarrow> bool" where
  "coordinate_allowed requested declared =
     (case (requested, strict_scope_values declared) of
        (Some x, Some allowed) \<Rightarrow> x \<noteq> [] \<and> x \<in> set allowed
      | _ \<Rightarrow> False)"

definition curriculum_scope_matches :: "item \<Rightarrow> resource_ref \<Rightarrow> bool" where
  "curriculum_scope_matches a r =
     (let sc = item_get a ''curriculum_scope''
      in is_pdict sc
         \<and> list_all (\<lambda>(f, requested). coordinate_allowed requested (scope_member sc f))
             [(''course_id'', course_id r), (''class_id'', class_id r)]
         \<and> list_all (\<lambda>(f, requested). scope_member sc f = PNone \<or> coordinate_allowed requested (scope_member sc f))
             [(''lesson_id'', lesson_id r), (''subject_id'', subject_id r), (''grade_level'', grade_level r)])"

definition declares :: "pyval \<Rightarrow> string \<Rightarrow> bool" where
  "declares v x = (case strict_string_set v of None \<Rightarrow> False | Some xs \<Rightarrow> x \<in> set xs)"

definition curriculum_permits ::
    "runtime \<Rightarrow> curriculum_facts \<Rightarrow> string \<Rightarrow> resource_ref \<Rightarrow> action \<Rightarrow> purpose \<Rightarrow> int \<Rightarrow> bool" where
  "curriculum_permits rt f actor_id r act pur now =
     (if \<not> active_account (cf_teacher_account f) actor_id ROLE_TEACHER then False
      else case cf_assignment f of
          None \<Rightarrow> False
        | Some a \<Rightarrow>
            (if \<not> valid_curriculum_assignment_row a actor_id then False
             else if item_get a ''status'' \<noteq> PStr ''active'' \<or> deadline_passed rt (item_get a ''expires_at'') now then False
             else if \<not> declares (item_get a ''resource_types'') (resource_text (resource_type r))
                  \<or> \<not> declares (item_get a ''actions'') (action_text act)
                  \<or> \<not> declares (item_get a ''purposes'') (purpose_text pur) then False
             else curriculum_scope_matches a r))"

section \<open>Break glass\<close>

record break_glass =
  incident_id :: string
  bg_reason :: string
  notification_reference :: string
  review_reference :: string
  issued_at :: int
  expires_at :: int

definition break_glass_valid :: "break_glass \<Rightarrow> int \<Rightarrow> bool" where
  "break_glass_valid e now =
     (issued_at e \<le> now \<and> now < expires_at e \<and> expires_at e - issued_at e \<le> 15 * 60 * 1000000
      \<and> list_all (\<lambda>v. strip v \<noteq> []) [incident_id e, bg_reason e, notification_reference e, review_reference e])"

section \<open>The policy\<close>

record facts =
  fa_parent :: "parent_facts option"
  fa_teacher :: "teacher_facts option"
  fa_break_glass :: "break_glass option"
  fa_curriculum :: "curriculum_facts option"

definition no_facts :: facts where
  "no_facts = \<lparr>fa_parent = None, fa_teacher = None, fa_break_glass = None, fa_curriculum = None\<rparr>"

record 'v authorized_resource =
  ar_ref :: resource_ref
  ar_value :: 'v
  ar_facts :: facts

text \<open>
  \<open>SecurityEvent\<close> and \<open>project_security_event\<close> (\<open>security/events.py\<close>): the telemetry of a decision is
  built from named fields, those that are \<open>None\<close> left out.
\<close>

record security_event =
  ev_actor_id :: string
  ev_canonical_role :: string
  ev_resource_type :: string
  ev_action :: string
  ev_purpose :: string
  ev_policy_version :: string
  ev_result_code :: string
  ev_correlation_id :: string
  ev_evidence_reference :: "string option"

definition project_security_event :: "security_event \<Rightarrow> string \<rightharpoonup> string" where
  "project_security_event e = map_of
     ([(''actor_id'', ev_actor_id e), (''canonical_role'', ev_canonical_role e),
       (''resource_type'', ev_resource_type e), (''action'', ev_action e), (''purpose'', ev_purpose e),
       (''policy_version'', ev_policy_version e), (''result_code'', ev_result_code e),
       (''correlation_id'', ev_correlation_id e)]
      @ (case ev_evidence_reference e of None \<Rightarrow> [] | Some x \<Rightarrow> [(''evidence_reference'', x)]))"

record policy_decision =
  allowed :: bool
  result_code :: security_code
  policy_version :: string
  evidence_reference :: "string option"
  correlation_id :: "string option"
  decision_event :: "(string \<rightharpoonup> string) option"

text \<open>\<open>PolicyDecision(allowed, code)\<close>\<close>

definition bare_decision :: "bool \<Rightarrow> security_code \<Rightarrow> policy_decision" where
  "bare_decision ok code = \<lparr>allowed = ok, result_code = code, policy_version = POLICY_VERSION,
     evidence_reference = None, correlation_id = None, decision_event = None\<rparr>"

definition matching_grant ::
    "actor \<Rightarrow> string \<Rightarrow> resource_ref \<Rightarrow> action \<Rightarrow> purpose \<Rightarrow> bool \<Rightarrow> capability_grant option" where
  "matching_grant a cap r act pur allow_global =
     find (\<lambda>g. capability g = cap \<and> scope_matches (grant_scope g) r act pur allow_global) (current_grants a)"

definition BREAK_GLASS_FORBIDDEN :: "action list" where
  "BREAK_GLASS_FORBIDDEN = [ACT_CREATE, ACT_UPDATE, ACT_DELETE, ACT_RESPOND, ACT_ASSIGN, ACT_CLAIM, ACT_RESOLVE,
     ACT_EXPORT, ACT_EXTERNAL_SEND, ACT_MANAGE_PRIVILEGE, ACT_CURRICULUM_MUTATION]"

definition admin_capability :: "resource_ref \<Rightarrow> purpose \<Rightarrow> string option" where
  "admin_capability r pur =
     (case pur of
        FOR_SUPPORT \<Rightarrow> Some (if safe_support_metadata r then ''student_support_lookup'' else ''student_content_review'')
      | FOR_SAFETY_REVIEW \<Rightarrow> Some ''student_safety_review''
      | FOR_LEARNING_ASSIGNMENT \<Rightarrow> Some ''learning_assignment_manager''
      | FOR_ASSIGNMENT_AUTOMATION_PREVIEW \<Rightarrow> Some ''assignment_automation_preview''
      | FOR_ASSIGNMENT_AUTOMATION_EXECUTE \<Rightarrow> Some ''assignment_automation_execute''
      | _ \<Rightarrow> None)"

definition admin_permits :: "actor \<Rightarrow> resource_ref \<Rightarrow> facts \<Rightarrow> action \<Rightarrow> purpose \<Rightarrow> int \<Rightarrow> bool \<times> string option" where
  "admin_permits a r f act pur now =
     (if resource_type r = RES_CURRICULUM_ANSWER \<and> act = ACT_READ \<and> pur = FOR_CURRICULUM_ANSWER_READ
      then (True, Some ''role:admin:curriculum_answer_read'')
      else if pur = FOR_INCIDENT_BREAK_GLASS then
        (let live = (case fa_break_glass f of None \<Rightarrow> False | Some e \<Rightarrow> break_glass_valid e now)
         in (act \<notin> set BREAK_GLASS_FORBIDDEN \<and> live
               \<and> matching_grant a ''student_data_break_glass'' r act pur False \<noteq> None,
             if live then map_option incident_id (fa_break_glass f) else None))
      else case admin_capability r pur of
          None \<Rightarrow> (False, None)
        | Some cap \<Rightarrow>
            (if cap = ''student_support_lookup'' \<and> act \<notin> {ACT_READ, ACT_LOOKUP} then (False, None)
             else case matching_grant a cap r act pur False of
                 None \<Rightarrow> (False, None)
               | Some g \<Rightarrow> (True, Some (''grant:'' @ int_text (grant_version g)))))"

definition NOTIFICATION_RESOURCES :: "resource_type list" where
  "NOTIFICATION_RESOURCES = [RES_NOTIFICATION_COLLECTION, RES_NOTIFICATION_EVENT, RES_NOTIFICATION_PREFERENCE,
     RES_NOTIFICATION_DIGEST, RES_NOTIFICATION_PUSH_TOKEN]"

definition permits :: "runtime \<Rightarrow> int \<Rightarrow> actor \<Rightarrow> resource_ref \<Rightarrow> facts \<Rightarrow> action \<Rightarrow> purpose \<Rightarrow> bool \<times> string option" where
  "permits rt now a r f act pur =
     (if \<not> can_authorize a then (False, None)
      else if pur = FOR_NOTIFICATION_SELF_SERVICE \<and> resource_type r \<in> set NOTIFICATION_RESOURCES
           \<and> owner_id r = Some (user_id a) then (True, None)
      else if pur = FOR_SELF_SERVICE \<and> resource_type r = RES_TEACHER_PORTAL \<and> owner_id r = Some (user_id a)
           \<and> role a \<in> {ROLE_TEACHER, ROLE_ADMIN} then (True, None)
      else if pur = FOR_TEACHER_DISPATCH then
        (matching_grant a ''teacher_dispatch_operator'' r act pur True \<noteq> None, None)
      else if pur = FOR_AI_TEACHER_TOOLS then
        (matching_grant a ''ai_teacher_tools_operator'' r act pur True \<noteq> None, None)
      else case role a of
          ROLE_STUDENT \<Rightarrow> (user_id a = student_id r \<and> pur = FOR_SELF_SERVICE, None)
        | ROLE_PARENT \<Rightarrow>
            (case fa_parent f of
               None \<Rightarrow> (False, None)
             | Some pf \<Rightarrow> (pur = FOR_PARENT_OVERSIGHT \<and> parent_matches pf (user_id a) (student_id r), None))
        | ROLE_TEACHER \<Rightarrow>
            (case (fa_teacher f, fa_curriculum f) of
               (Some tf, _) \<Rightarrow> (teacher_permits rt tf (user_id a) r act pur now, None)
             | (None, Some cf) \<Rightarrow> (curriculum_permits rt cf (user_id a) r act pur now, None)
             | (None, None) \<Rightarrow> (False, None))
        | ROLE_ADMIN \<Rightarrow> admin_permits a r f act pur now)"

text \<open>\<open>_relationship_known_to_actor\<close>: who is refused rather than told there is nothing.\<close>

definition relationship_known_to_actor :: "actor \<Rightarrow> resource_ref \<Rightarrow> facts \<Rightarrow> bool" where
  "relationship_known_to_actor a r f =
     (if relationship_known r then True
      else case role a of
          ROLE_STUDENT \<Rightarrow> user_id a = student_id r
        | ROLE_ADMIN \<Rightarrow> True
        | ROLE_PARENT \<Rightarrow>
            (case fa_parent f of None \<Rightarrow> False | Some pf \<Rightarrow> parent_known_to pf (user_id a) (student_id r))
        | ROLE_TEACHER \<Rightarrow>
            (case fa_teacher f of
               None \<Rightarrow> False
             | Some tf \<Rightarrow>
                 (let rq = some_item (tf_request tf); asg = some_item (tf_assignment tf); u = PStr (user_id a)
                  in item_get rq ''teacher_id'' = u \<or> item_get rq ''dispatched_teacher_id'' = u
                     \<or> (item_get asg ''teacher_id'' = u \<and> item_get asg ''student_id'' = PStr (student_id r)))))"

definition evaluate ::
    "runtime \<Rightarrow> int \<Rightarrow> actor \<Rightarrow> resource_ref \<Rightarrow> facts \<Rightarrow> action \<Rightarrow> purpose \<Rightarrow> string option \<Rightarrow> policy_decision" where
  "evaluate rt now a r f act pur corr =
     (let (ok, evidence) = permits rt now a r f act pur;
          code = (if \<not> ok \<and> \<not> relationship_known_to_actor a r f then RESOURCE_NOT_FOUND else ACTION_NOT_ALLOWED)
      in \<lparr>allowed = ok, result_code = code, policy_version = POLICY_VERSION, evidence_reference = evidence,
          correlation_id = corr,
          decision_event = Some (project_security_event
            \<lparr>ev_actor_id = user_id a, ev_canonical_role = role_text (role a),
             ev_resource_type = resource_text (resource_type r), ev_action = action_text act,
             ev_purpose = purpose_text pur, ev_policy_version = POLICY_VERSION,
             ev_result_code = (if ok then ''allowed'' else code_text code),
             ev_correlation_id = (case corr of None \<Rightarrow> ''authorization''
                | Some c \<Rightarrow> if c = [] then ''authorization'' else c),
             ev_evidence_reference = evidence\<rparr>)\<rparr>)"

lemma evaluate_simps:
  "allowed (evaluate rt now a r f act pur corr) = fst (permits rt now a r f act pur)"
  "result_code (evaluate rt now a r f act pur corr) =
     (if \<not> fst (permits rt now a r f act pur) \<and> \<not> relationship_known_to_actor a r f
      then RESOURCE_NOT_FOUND else ACTION_NOT_ALLOWED)"
  by (simp_all add: evaluate_def Let_def split: prod.splits)

section \<open>Operators\<close>

definition operator_role :: "actor \<Rightarrow> string \<Rightarrow> bool" where
  "operator_role a cap =
     (role a = ROLE_ADMIN
      \<or> (role a = ROLE_TEACHER \<and> (take 11 cap = ''curriculum_'' \<or> cap = ''migration_operator'')))"

definition operator_capability_decision ::
    "actor \<Rightarrow> string \<Rightarrow> resource_ref \<Rightarrow> action \<Rightarrow> purpose \<Rightarrow> policy_decision" where
  "operator_capability_decision a cap r act pur =
     (if \<not> can_authorize a \<or> \<not> operator_role a cap then bare_decision False ACTION_NOT_ALLOWED
      else if pur = FOR_INCIDENT_BREAK_GLASS then bare_decision False ACTION_NOT_ALLOWED
      else bare_decision (matching_grant a cap r act pur True \<noteq> None) ACTION_NOT_ALLOWED)"

definition operator_capability_permits :: "actor \<Rightarrow> string \<Rightarrow> resource_ref \<Rightarrow> action \<Rightarrow> purpose \<Rightarrow> bool" where
  "operator_capability_permits a cap r act pur = allowed (operator_capability_decision a cap r act pur)"

end
