(* ===== verification/Access_Gateway.thy ===== *)
theory Access_Gateway
  imports Access_Policy
begin

text \<open>
  The gateway of \<open>security/authorization.py\<close>: the facts as the table has them now, the evidence
  that has to be durable before a handler runs, and \<open>authorize_and_resolve\<close>, which loads a resource
  once, decides, records and hands over that very object.

  The audit sink and the resolver of a route are arguments: a call on the world that answers, refuses
  with a code of its own, or fails with any other exception. \<open>Access_Audit\<close> has the sink of
  \<open>security_audit_repo.py\<close>.
\<close>

section \<open>Current facts\<close>

definition get_teacher_assignment :: "'w db \<Rightarrow> string \<Rightarrow> string \<Rightarrow> 'w \<Rightarrow> item option result \<times> 'w" where
  "get_teacher_assignment db teacher student w =
     (if teacher = [] \<or> student = [] then (Inr None, w)
      else strong_get db (''TEACHER_ASSIGNMENT#'' @ teacher, ''STUDENT#'' @ student) w)"

definition current_curriculum_row :: "string \<Rightarrow> item \<Rightarrow> item option" where
  "current_curriculum_row teacher i =
     (if item_get i ''PK'' \<noteq> PStr (''TEACHER_ASSIGNMENT#'' @ teacher) \<or> item_get i ''SK'' \<noteq> PStr ''CURRICULUM#CURRENT''
         \<or> item_get i ''entity_type'' \<noteq> PStr ''teacher_curriculum_assignment'' \<or> item_get i ''teacher_id'' \<noteq> PStr teacher
      then None
      else case stored_int (item_get i ''version'') of
          None \<Rightarrow> None
        | Some n \<Rightarrow> if n \<le> 0 then None else Some (i(''version'' \<mapsto> PInt n)))"

definition get_teacher_curriculum_assignment :: "'w db \<Rightarrow> string \<Rightarrow> 'w \<Rightarrow> item option result \<times> 'w" where
  "get_teacher_curriculum_assignment db teacher w =
     (if teacher = [] then (Inr None, w)
      else case strong_get db (''TEACHER_ASSIGNMENT#'' @ teacher, ''CURRICULUM#CURRENT'') w of
          (Inl e, w1) \<Rightarrow> (Inl e, w1)
        | (Inr None, w1) \<Rightarrow> (Inr None, w1)
        | (Inr (Some i), w1) \<Rightarrow> (Inr (current_curriculum_row teacher i), w1))"

text \<open>\<open>help_requests.get\<close>: a failed read is an error, a row that is no request is none.\<close>

definition help_get :: "'w db \<Rightarrow> string \<Rightarrow> 'w \<Rightarrow> item option result \<times> 'w" where
  "help_get db conversation w =
     (if conversation = [] then (Inr None, w)
      else case db_get db (help_key conversation) w of
          (Resp_Failed, w1) \<Rightarrow> (Inl Dependency_Failure, w1)
        | (Resp_Malformed, w1) \<Rightarrow> (Inr None, w1)
        | (Resp_None, w1) \<Rightarrow> (Inr None, w1)
        | (Resp_Item i, w1) \<Rightarrow> (Inr (if is_record i then Some i else None), w1))"

text \<open>The help request a teacher's access is judged by.\<close>

definition request_of ::
    "'w db \<Rightarrow> resource_ref \<Rightarrow> item \<Rightarrow> 'w \<Rightarrow> item option result \<times> 'w" where
  "request_of db r v w =
     (case resource_type r of
        RES_QUESTION \<Rightarrow> (Inr (Some v), w)
      | RES_ATTACHMENT \<Rightarrow> (Inr (Some v), w)
      | RES_CONVERSATION \<Rightarrow>
          (if text_or_empty (question_id r) = [] then (Inr None, w) else help_get db (text_or_empty (question_id r)) w)
      | RES_TEACHER_HELP_REQUEST \<Rightarrow>
          (if text_or_empty (question_id r) = [] then (Inr (Some v), w) else help_get db (text_or_empty (question_id r)) w)
      | RES_AI_TEACHER_DRAFT \<Rightarrow>
          (if text_or_empty (question_id r) = [] then (Inr (Some v), w) else help_get db (text_or_empty (question_id r)) w)
      | _ \<Rightarrow> (Inr None, w))"

definition parent_facts_for ::
    "'w db \<Rightarrow> runtime \<Rightarrow> string \<Rightarrow> string \<Rightarrow> 'w \<Rightarrow> parent_facts result \<times> 'w" where
  "parent_facts_for db rt p s w =
     (case judge db rt p s w of
        (Inl e, w1) \<Rightarrow> (Inl e, w1)
      | (Inr v, w1) \<Rightarrow>
          (case get_user db p w1 of
             (Inl e, w2) \<Rightarrow> (Inl e, w2)
           | (Inr parent, w2) \<Rightarrow>
               (case get_user db s w2 of
                  (Inl e, w3) \<Rightarrow> (Inl e, w3)
                | (Inr student, w3) \<Rightarrow>
                    (Inr \<lparr>pf_verdict = Some v, parent_account = parent, pf_student_account = student\<rparr>, w3))))"

definition curriculum_facts_for :: "'w db \<Rightarrow> string \<Rightarrow> 'w \<Rightarrow> curriculum_facts result \<times> 'w" where
  "curriculum_facts_for db u w =
     (case get_teacher_curriculum_assignment db u w of
        (Inl e, w1) \<Rightarrow> (Inl e, w1)
      | (Inr a, w1) \<Rightarrow>
          (case get_user db u w1 of
             (Inl e, w2) \<Rightarrow> (Inl e, w2)
           | (Inr acc, w2) \<Rightarrow> (Inr \<lparr>cf_assignment = a, cf_teacher_account = acc\<rparr>, w2)))"

definition teacher_facts_for ::
    "'w db \<Rightarrow> string \<Rightarrow> resource_ref \<Rightarrow> item \<Rightarrow> 'w \<Rightarrow> teacher_facts result \<times> 'w" where
  "teacher_facts_for db u r v w =
     (case request_of db r v w of
        (Inl e, w1) \<Rightarrow> (Inl e, w1)
      | (Inr rq, w1) \<Rightarrow>
          (case get_teacher_assignment db u (student_id r) w1 of
             (Inl e, w2) \<Rightarrow> (Inl e, w2)
           | (Inr asg, w2) \<Rightarrow>
               (case get_user db u w2 of
                  (Inl e, w3) \<Rightarrow> (Inl e, w3)
                | (Inr acc, w3) \<Rightarrow>
                    (case get_user db (student_id r) w3 of
                       (Inl e, w4) \<Rightarrow> (Inl e, w4)
                     | (Inr st, w4) \<Rightarrow>
                         (Inr \<lparr>tf_request = rq, tf_assignment = asg, tf_teacher_account = acc,
                           tf_student_account = st\<rparr>, w4)))))"

definition wrap_facts :: "('a \<Rightarrow> facts) \<Rightarrow> 'a result \<times> 'w \<Rightarrow> facts result \<times> 'w" where
  "wrap_facts f res = (case res of (Inl e, w) \<Rightarrow> (Inl e, w) | (Inr x, w) \<Rightarrow> (Inr (f x), w))"

definition facts_for ::
    "'w db \<Rightarrow> runtime \<Rightarrow> actor \<Rightarrow> resource_ref \<Rightarrow> item \<Rightarrow> 'w \<Rightarrow> facts result \<times> 'w" where
  "facts_for db rt a r v w =
     (case role a of
        ROLE_PARENT \<Rightarrow>
          wrap_facts (\<lambda>x. no_facts\<lparr>fa_parent := Some x\<rparr>) (parent_facts_for db rt (user_id a) (student_id r) w)
      | ROLE_TEACHER \<Rightarrow>
          (if resource_type r = RES_CURRICULUM_ANSWER
           then wrap_facts (\<lambda>x. no_facts\<lparr>fa_curriculum := Some x\<rparr>) (curriculum_facts_for db (user_id a) w)
           else wrap_facts (\<lambda>x. no_facts\<lparr>fa_teacher := Some x\<rparr>) (teacher_facts_for db (user_id a) r v w))
      | _ \<Rightarrow> (Inr no_facts, w))"

section \<open>Evidence\<close>

definition requires_durable_evidence :: "actor \<Rightarrow> resource_ref \<Rightarrow> action \<Rightarrow> purpose \<Rightarrow> bool" where
  "requires_durable_evidence a r act pur =
     (let owner_self = (pur \<in> {FOR_SELF_SERVICE, FOR_NOTIFICATION_SELF_SERVICE}
            \<and> (user_id a = student_id r \<or> owner_id r = Some (user_id a))
            \<and> role a \<in> {ROLE_STUDENT, ROLE_TEACHER})
      in \<not> (owner_self \<and> act \<notin> {ACT_EXPORT, ACT_EXTERNAL_SEND, ACT_MANAGE_PRIVILEGE}))"

text \<open>\<open>_CORRELATION_ID\<close> of \<open>rule_violation.py\<close>\<close>

definition id_head :: "char \<Rightarrow> bool" where
  "id_head c = (let n = of_char c :: nat in (48 \<le> n \<and> n \<le> 57) \<or> (65 \<le> n \<and> n \<le> 90) \<or> (97 \<le> n \<and> n \<le> 122))"

definition opaque_id :: "string \<Rightarrow> bool" where
  "opaque_id s = (case s of [] \<Rightarrow> False
     | c # cs \<Rightarrow> id_head c \<and> length cs \<le> 127 \<and> list_all (\<lambda>d. id_head d \<or> d \<in> set ''._:-'') cs)"

record audit_entry =
  ae_correlation_id :: string
  ae_actor_id :: string
  ae_actor_role :: string
  ae_policy_version :: string
  ae_resource_type :: string
  ae_resource_id :: string
  ae_student_id :: string
  ae_owner_id :: "string option"
  ae_scope_discriminator :: string
  ae_action :: string
  ae_purpose :: string
  ae_result :: string
  ae_decision_kind :: string
  ae_evidence_reference :: "string option"

record audit_record =
  ar_event_id :: string
  ar_resource_fingerprint :: string
  ar_audit_key_id :: string
  ar_replayed :: bool

record 'w audit_sink =
  fresh_id :: "'w \<Rightarrow> string \<times> 'w"
  sink_persist :: "audit_entry \<Rightarrow> 'w \<Rightarrow> audit_record result \<times> 'w"
  sink_aggregate :: "audit_record \<Rightarrow> audit_entry \<Rightarrow> 'w \<Rightarrow> unit result \<times> 'w"

text \<open>A malformed id is replaced by a fresh one, never echoed.\<close>

definition normalize_correlation_id :: "'w audit_sink \<Rightarrow> string \<Rightarrow> 'w \<Rightarrow> string \<times> 'w" where
  "normalize_correlation_id sink v w = (if opaque_id (strip v) then (strip v, w) else fresh_id sink w)"

definition audit_entry_of ::
    "actor \<Rightarrow> resource_ref \<Rightarrow> action \<Rightarrow> purpose \<Rightarrow> policy_decision \<Rightarrow> string \<Rightarrow> string \<Rightarrow> audit_entry" where
  "audit_entry_of a r act pur d corr kind =
     \<lparr>ae_correlation_id = corr, ae_actor_id = user_id a, ae_actor_role = role_text (role a),
      ae_policy_version = policy_version d, ae_resource_type = resource_text (resource_type r),
      ae_resource_id = resource_id r, ae_student_id = student_id r, ae_owner_id = owner_id r,
      ae_scope_discriminator = text_or_empty (question_id r), ae_action = action_text act,
      ae_purpose = purpose_text pur,
      ae_result = (if allowed d then ''allowed'' else code_text (result_code d)),
      ae_decision_kind = kind, ae_evidence_reference = evidence_reference d\<rparr>"

text \<open>
  The result is the decision to act on. A denial stays one whether or not the sink took it, and its
  probe is counted only once it is stored; an allow that needs evidence is withheld without.
\<close>

definition record_authorization_decision ::
    "'w audit_sink \<Rightarrow> actor \<Rightarrow> resource_ref \<Rightarrow> action \<Rightarrow> purpose \<Rightarrow> policy_decision \<Rightarrow> string \<Rightarrow> string \<Rightarrow> 'w
     \<Rightarrow> policy_decision sec \<times> 'w" where
  "record_authorization_decision sink a r act pur d corr kind w =
     (let (canonical, w1) = normalize_correlation_id sink corr w;
          entry = audit_entry_of a r act pur d canonical kind;
          recorded = d\<lparr>correlation_id := Some canonical\<rparr>
      in if allowed d \<and> \<not> requires_durable_evidence a r act pur then (Inr d, w1)
         else case sink_persist sink entry w1 of
             (Inl e, w2) \<Rightarrow>
               (if allowed d then (Inl AUTHORIZATION_TEMPORARILY_UNAVAILABLE, w2) else (Inr recorded, w2))
           | (Inr rec, w2) \<Rightarrow>
               (if allowed d then (Inr recorded, w2)
                else case sink_aggregate sink rec entry w2 of (_, w3) \<Rightarrow> (Inr recorded, w3)))"

section \<open>The gateway\<close>

datatype loaded = Absent | Plain item | Known resource_ref item

type_synonym 'w resource_resolver = "string \<Rightarrow> 'w \<Rightarrow> loaded reply \<times> 'w"

record spec =
  sp_resource_type :: resource_type
  sp_action :: action
  sp_purpose :: purpose

definition resolved_ref :: "runtime \<Rightarrow> spec \<Rightarrow> string \<Rightarrow> loaded \<Rightarrow> (resource_ref \<times> item) result" where
  "resolved_ref rt sp rid l =
     (case l of
        Known r v \<Rightarrow> Inr (r, v)
      | Plain v \<Rightarrow>
          (case make_ref (plain_ref (sp_resource_type sp) rid
                 (if truthy (item_get v ''student_id'') then py_str rt (item_get v ''student_id'')
                  else str_or rt (item_get v ''user_id'') [])) of
             Inl e \<Rightarrow> Inl e
           | Inr r \<Rightarrow> Inr (r, v))
      | Absent \<Rightarrow> Inl Value_Error)"

definition authorize_loaded ::
    "'w db \<Rightarrow> runtime \<Rightarrow> ('w \<Rightarrow> int) \<Rightarrow> 'w audit_sink \<Rightarrow> actor \<Rightarrow> spec \<Rightarrow> string \<Rightarrow> resource_ref \<Rightarrow> item \<Rightarrow> 'w
     \<Rightarrow> item authorized_resource sec \<times> 'w" where
  "authorize_loaded db rt clock sink a sp corr r v w =
     (case facts_for db rt a r v w of
        (Inl e, w1) \<Rightarrow> (Inl AUTHORIZATION_TEMPORARILY_UNAVAILABLE, w1)
      | (Inr f, w1) \<Rightarrow>
          (case record_authorization_decision sink a r (sp_action sp) (sp_purpose sp)
              (evaluate rt (clock w1) a r f (sp_action sp) (sp_purpose sp) (Some corr)) corr ''policy'' w1 of
             (Inl c, w2) \<Rightarrow> (Inl c, w2)
           | (Inr d, w2) \<Rightarrow>
               (if allowed d then (Inr \<lparr>ar_ref = r, ar_value = v, ar_facts = f\<rparr>, w2)
                else (Inl (result_code d), w2))))"

definition authorize_and_resolve ::
    "'w db \<Rightarrow> runtime \<Rightarrow> ('w \<Rightarrow> int) \<Rightarrow> 'w audit_sink \<Rightarrow> 'w resource_resolver \<Rightarrow> actor \<Rightarrow> spec \<Rightarrow> string \<Rightarrow> string \<Rightarrow> 'w
     \<Rightarrow> item authorized_resource sec \<times> 'w" where
  "authorize_and_resolve db rt clock sink resolver a sp rid corr w =
     (case resolver rid w of
        (Declined c, w1) \<Rightarrow> (Inl c, w1)
      | (Failed, w1) \<Rightarrow> (Inl AUTHORIZATION_TEMPORARILY_UNAVAILABLE, w1)
      | (Reply Absent, w1) \<Rightarrow>
          (case make_ref (plain_ref (sp_resource_type sp) rid rid) of
             Inl e \<Rightarrow> (Inl AUTHORIZATION_TEMPORARILY_UNAVAILABLE, w1)
           | Inr missing \<Rightarrow>
               (case record_authorization_decision sink a missing (sp_action sp) (sp_purpose sp)
                   ((bare_decision False RESOURCE_NOT_FOUND)\<lparr>correlation_id := Some corr\<rparr>) corr ''resolver'' w1 of
                  (Inl c, w2) \<Rightarrow> (Inl c, w2)
                | (Inr d, w2) \<Rightarrow> (Inl RESOURCE_NOT_FOUND, w2)))
      | (Reply l, w1) \<Rightarrow>
          (case resolved_ref rt sp rid l of
             Inl e \<Rightarrow> (Inl AUTHORIZATION_TEMPORARILY_UNAVAILABLE, w1)
           | Inr (r, v) \<Rightarrow> authorize_loaded db rt clock sink a sp corr r v w1))"

section \<open>What passes the gateway\<close>

lemma record_decision_Inr:
  assumes "record_authorization_decision sink a r act pur d corr kind w = (Inr d', w')"
  shows "allowed d' = allowed d" and "result_code d' = result_code d"
    and "allowed d \<Longrightarrow> requires_durable_evidence a r act pur \<Longrightarrow>
      \<exists>canonical w1 rec. normalize_correlation_id sink corr w = (canonical, w1)
        \<and> sink_persist sink (audit_entry_of a r act pur d canonical kind) w1 = (Inr rec, w')"
  using assms by (auto simp: record_authorization_decision_def Let_def split: prod.splits if_splits sum.splits)

lemma record_decision_Inl:
  assumes "record_authorization_decision sink a r act pur d corr kind w = (Inl c, w')"
  shows "allowed d" and "c = AUTHORIZATION_TEMPORARILY_UNAVAILABLE"
  using assms by (auto simp: record_authorization_decision_def Let_def split: prod.splits if_splits sum.splits)

text \<open>A denial is always recorded as what it is, whatever the sink does.\<close>

lemma record_denial:
  assumes "\<not> allowed d"
  obtains d' w' where "record_authorization_decision sink a r act pur d corr kind w = (Inr d', w')"
    "\<not> allowed d'" "result_code d' = result_code d"
proof (cases "record_authorization_decision sink a r act pur d corr kind w")
  case (Pair res w')
  show ?thesis
  proof (cases res)
    case (Inl c)
    with Pair record_decision_Inl(1) assms show ?thesis by metis
  next
    case (Inr d')
    with Pair have "record_authorization_decision sink a r act pur d corr kind w = (Inr d', w')" by simp
    from this record_decision_Inr(1,2) [OF this] assms show ?thesis by (intro that [of d' w']) simp_all
  qed
qed

lemma authorize_loaded_Inr:
  assumes "authorize_loaded db rt clock sink a sp corr r v w = (Inr x, w')"
  obtains f w1 d where "facts_for db rt a r v w = (Inr f, w1)"
    "x = \<lparr>ar_ref = r, ar_value = v, ar_facts = f\<rparr>"
    "allowed (evaluate rt (clock w1) a r f (sp_action sp) (sp_purpose sp) (Some corr))"
    "record_authorization_decision sink a r (sp_action sp) (sp_purpose sp)
       (evaluate rt (clock w1) a r f (sp_action sp) (sp_purpose sp) (Some corr)) corr ''policy'' w1 = (Inr d, w')"
  using assms unfolding authorize_loaded_def
  by (auto split: prod.splits sum.splits if_splits dest: record_decision_Inr(1))

lemma authorize_and_resolve_Inr:
  assumes "authorize_and_resolve db rt clock sink resolver a sp rid corr w = (Inr x, w')"
  obtains l w1 where "resolver rid w = (Reply l, w1)" "resolved_ref rt sp rid l = Inr (ar_ref x, ar_value x)"
    "authorize_loaded db rt clock sink a sp corr (ar_ref x) (ar_value x) w1 = (Inr x, w')"
proof -
  obtain y w1 where r: "resolver rid w = (y, w1)" by (cases "resolver rid w")
  show ?thesis
  proof (cases y)
    case (Reply l)
    with r assms obtain rf v where rf: "resolved_ref rt sp rid l = Inr (rf, v)"
        and run: "authorize_loaded db rt clock sink a sp corr rf v w1 = (Inr x, w')"
      by (cases l) (auto simp: authorize_and_resolve_def split: sum.splits prod.splits)
    from run have "ar_ref x = rf" "ar_value x = v" by (auto elim!: authorize_loaded_Inr)
    with r Reply rf run show ?thesis by (intro that [of l w1]) simp_all
  qed (use r assms in \<open>auto simp: authorize_and_resolve_def\<close>)
qed

end
