(* ===== verification/Access_Matrix.thy ===== *)
theory Access_Matrix
  imports Access_Gateway
begin

text \<open>
  The reference matrix of the policy (\<open>evaluate_matrix_case\<close>) and a closed form of what it answers, and
  the two projections a refused caller may see (\<open>project_support_lookup\<close>,
  \<open>evaluate_hidden_resource_case\<close>).
\<close>

section \<open>The matrix\<close>

definition matrix_resource :: "string \<Rightarrow> resource_type option" where
  "matrix_resource = map_of
     [(''students'', RES_STUDENT), (''questions'', RES_QUESTION), (''conversations'', RES_CONVERSATION),
      (''practice'', RES_PRACTICE), (''adaptive'', RES_ADAPTIVE_PROFILE), (''reports'', RES_REPORT),
      (''teacher_help'', RES_QUESTION), (''admin_support'', RES_STUDENT)]"

definition matrix_account :: "string \<Rightarrow> string \<Rightarrow> item" where
  "matrix_account u r = dict_of [(''user_id'', PStr u), (''role'', PStr r), (''account_status'', PStr ''active'')]"

definition matrix_standing :: "string \<Rightarrow> standing option" where
  "matrix_standing = map_of
     [(''active_bidirectional_binding'', CURRENT), (''revoked_binding'', KNOWN), (''one_sided_binding'', UNKNOWN)]"

definition matrix_parent_facts :: "string \<Rightarrow> string \<Rightarrow> parent_facts option" where
  "matrix_parent_facts relation s =
     (case matrix_standing relation of
        None \<Rightarrow> None
      | Some st \<Rightarrow>
          Some \<lparr>pf_verdict = Some ((unknown_pair ''parent-1'' s)\<lparr>standing := st, vd_relationship := Some ''child''\<rparr>),
            parent_account = Some (matrix_account ''parent-1'' ''parent''),
            pf_student_account = Some (matrix_account s ''student'')\<rparr>)"

definition matrix_request :: "string \<Rightarrow> string \<Rightarrow> string \<Rightarrow> item" where
  "matrix_request rid s teacher = dict_of
     [(''conversation_id'', PStr rid), (''escalation_request_id'', PStr rid), (''student_id'', PStr s),
      (''teacher_id'', PStr teacher), (''dispatched_teacher_id'', PStr teacher),
      (''dispatch_status'', PStr ''accepted''), (''escalation_status'', PStr ''in_progress'')]"

definition matrix_teacher_facts :: "string \<Rightarrow> string \<Rightarrow> string \<Rightarrow> teacher_facts option" where
  "matrix_teacher_facts relation s rid =
     (if relation \<notin> {''assigned'', ''dispatched'', ''unassigned'', ''other_dispatch''} then None
      else Some \<lparr>tf_request = Some (matrix_request rid s
              (if relation \<in> {''assigned'', ''dispatched''} then ''teacher-1'' else ''teacher-2'')),
            tf_assignment = None,
            tf_teacher_account = Some (matrix_account ''teacher-1'' ''teacher''),
            tf_student_account = Some (matrix_account s ''student'')\<rparr>)"

text \<open>2026-07-15T00:00Z in microseconds\<close>

definition matrix_now :: int where
  "matrix_now = 1784073600000000"

definition matrix_student :: "canonical_role \<Rightarrow> string" where
  "matrix_student r = (if r = ROLE_STUDENT then role_text r @ ''-1'' else ''student-1'')"

definition matrix_ref :: "string \<Rightarrow> resource_type \<Rightarrow> canonical_role \<Rightarrow> string \<Rightarrow> resource_ref" where
  "matrix_ref family ty r relation =
     (plain_ref ty (if ty = RES_QUESTION then ''question-1'' else family @ ''-1'') (matrix_student r))
       \<lparr>relationship_known := relation \<notin> {''unrelated'', ''one_sided_binding''},
        safe_support_metadata := family = ''admin_support''\<rparr>"

definition matrix_actor :: "canonical_role \<Rightarrow> string \<Rightarrow> actor" where
  "matrix_actor r relation =
     \<lparr>user_id = role_text r @ ''-1'', issuer = ''https://identity.test'', subject = role_text r @ ''-subject'',
      role = r, account_state = ACTIVE, cognito_group = role_text r,
      current_grants =
        (if relation = ''scoped_grant''
         then [\<lparr>capability = ''student_support_lookup'', grant_scope = ''student:'' @ matrix_student r, grant_version = 1\<rparr>]
         else []),
      auth_context = [], must_change_password = False\<rparr>"

text \<open>A family outside the table is a \<open>KeyError\<close>.\<close>

definition evaluate_matrix_case ::
    "runtime \<Rightarrow> string \<Rightarrow> canonical_role \<Rightarrow> string \<Rightarrow> action \<Rightarrow> purpose \<Rightarrow> policy_decision result" where
  "evaluate_matrix_case rt family r relation act pur =
     (case matrix_resource family of
        None \<Rightarrow> Inl Value_Error
      | Some ty \<Rightarrow>
          (case (make_ref (matrix_ref family ty r relation), make_actor (matrix_actor r relation)) of
             (Inl e, _) \<Rightarrow> Inl e
           | (Inr resource, Inl e) \<Rightarrow> Inl e
           | (Inr resource, Inr who) \<Rightarrow>
               Inr (evaluate rt matrix_now who resource
                 (no_facts\<lparr>fa_parent := matrix_parent_facts relation (matrix_student r),
                           fa_teacher := matrix_teacher_facts relation (matrix_student r) (resource_id resource)\<rparr>)
                 act pur None)))"

text \<open>What the matrix is meant to say, row by row.\<close>

definition matrix_allows :: "string \<Rightarrow> canonical_role \<Rightarrow> string \<Rightarrow> action \<Rightarrow> purpose \<Rightarrow> bool" where
  "matrix_allows family r relation act pur =
     (case r of
        ROLE_STUDENT \<Rightarrow> pur = FOR_SELF_SERVICE
      | ROLE_PARENT \<Rightarrow> relation = ''active_bidirectional_binding'' \<and> pur = FOR_PARENT_OVERSIGHT
      | ROLE_TEACHER \<Rightarrow>
          relation \<in> {''assigned'', ''dispatched''} \<and> pur = FOR_TEACHER_HELP
          \<and> family \<in> {''questions'', ''conversations'', ''teacher_help''}
          \<and> act \<in> {ACT_READ, ACT_CREATE, ACT_UPDATE, ACT_RESPOND, ACT_RESOLVE}
      | ROLE_ADMIN \<Rightarrow>
          relation = ''scoped_grant'' \<and> pur = FOR_SUPPORT \<and> family = ''admin_support'' \<and> act \<in> {ACT_READ, ACT_LOOKUP})"

definition matrix_hides :: "canonical_role \<Rightarrow> string \<Rightarrow> bool" where
  "matrix_hides r relation =
     (r \<in> {ROLE_PARENT, ROLE_TEACHER} \<and> relation \<in> {''unrelated'', ''one_sided_binding''})"

lemma matrix_account_active [simp]:
  "active_account (Some (matrix_account u r)) u' ro \<longleftrightarrow> u = u' \<and> r = role_text ro"
  by (auto simp: active_account_def matrix_account_def row_lookup py_or_def)

lemma strip_eq_Nil: "strip s = [] \<longleftrightarrow> list_all py_space s"
proof (cases "dropWhile py_space s")
  case Nil
  have "strip s = []" unfolding strip_def Nil by simp
  moreover from Nil have "list_all py_space s" by (simp add: list_all_iff dropWhile_eq_Nil_conv)
  ultimately show ?thesis by simp
next
  case (Cons c cs)
  then have "\<not> py_space c" using hd_dropWhile [of py_space s] by simp
  moreover from Cons have "c \<in> set s" using set_dropWhileD [of c py_space s] by simp
  moreover from Cons calculation(1) have "strip s \<noteq> []"
    by (auto simp: strip_def dropWhile_eq_Nil_conv)
  ultimately show ?thesis by (auto simp: list_all_iff)
qed

lemma matrix_built:
  assumes "matrix_resource family = Some ty"
  shows "make_ref (matrix_ref family ty r relation) = Inr (matrix_ref family ty r relation)"
    and "make_actor (matrix_actor r relation) = Inr (matrix_actor r relation)"
proof -
  from assms show "make_ref (matrix_ref family ty r relation) = Inr (matrix_ref family ty r relation)"
    by (cases r) (auto simp: make_ref_def matrix_ref_def plain_ref_def matrix_student_def matrix_resource_def
        strip_eq_Nil py_space_def split: if_splits)
  show "make_actor (matrix_actor r relation) = Inr (matrix_actor r relation)"
    by (cases r) (simp_all add: make_actor_def matrix_actor_def strip_eq_Nil py_space_def)
qed

lemma matrix_hidden:
  "relationship_known_to_actor (matrix_actor r relation) (matrix_ref family ty r relation)
     (no_facts\<lparr>fa_parent := matrix_parent_facts relation (matrix_student r),
               fa_teacher := matrix_teacher_facts relation (matrix_student r) rid\<rparr>)
   \<longleftrightarrow> \<not> matrix_hides r relation"
  by (cases r) (auto simp: relationship_known_to_actor_def matrix_actor_def matrix_ref_def plain_ref_def
      matrix_hides_def matrix_student_def no_facts_def matrix_parent_facts_def matrix_standing_def
      matrix_teacher_facts_def parent_known_to_def is_known_def unknown_pair_def split: if_splits)

lemma matrix_no_grant:
  "cap \<noteq> ''student_support_lookup'' \<Longrightarrow> matching_grant (matrix_actor r relation) cap ref act pur g = None"
  by (auto simp: matching_grant_def matrix_actor_def)

lemma matrix_student_allowed:
  "permits rt now (matrix_actor ROLE_STUDENT relation) (matrix_ref family ty ROLE_STUDENT relation) f act pur
     = (pur = FOR_SELF_SERVICE , None)"
  by (auto simp: permits_def can_authorize_def matrix_no_grant)
     (auto simp: matrix_actor_def matrix_ref_def plain_ref_def matrix_student_def)

lemma matrix_types:
  assumes "matrix_resource family = Some ty"
  shows "ty \<in> {RES_STUDENT, RES_QUESTION, RES_CONVERSATION, RES_PRACTICE, RES_ADAPTIVE_PROFILE, RES_REPORT}"
    and "ty \<in> {RES_QUESTION, RES_CONVERSATION} \<longleftrightarrow> family \<in> {''questions'', ''conversations'', ''teacher_help''}"
  using assms by (auto simp: matrix_resource_def split: if_splits)

lemma matrix_fields [simp]:
  "resource_type (matrix_ref family ty r relation) = ty"
  "owner_id (matrix_ref family ty r relation) = None"
  "question_id (matrix_ref family ty r relation) = None"
  "student_id (matrix_ref family ty r relation) = matrix_student r"
  "safe_support_metadata (matrix_ref family ty r relation) \<longleftrightarrow> family = ''admin_support''"
  "role (matrix_actor r relation) = r"
  "user_id (matrix_actor r relation) = role_text r @ ''-1''"
  "can_authorize (matrix_actor r relation)"
  by (simp_all add: matrix_ref_def plain_ref_def matrix_actor_def can_authorize_def)

lemma matrix_parent_allowed:
  "permits rt now (matrix_actor ROLE_PARENT relation) (matrix_ref family ty ROLE_PARENT relation)
       (no_facts\<lparr>fa_parent := matrix_parent_facts relation ''student-1'', fa_teacher := tf\<rparr>) act pur
     = (relation = ''active_bidirectional_binding'' \<and> pur = FOR_PARENT_OVERSIGHT, None)"
proof -
  have "case matrix_parent_facts relation ''student-1'' of None \<Rightarrow> relation \<noteq> ''active_bidirectional_binding''
     | Some pf \<Rightarrow> parent_matches pf ''parent-1'' ''student-1'' = (relation = ''active_bidirectional_binding'')"
    by (auto simp: matrix_parent_facts_def matrix_standing_def parent_matches_def is_current_def about_def
        unknown_pair_def split: if_splits)
  then show ?thesis
    by (cases pur) (auto simp: permits_def matrix_no_grant matrix_student_def split: option.splits)
qed

lemma matrix_admin_allowed:
  assumes "matrix_resource family = Some ty"
  shows "fst (permits rt now (matrix_actor ROLE_ADMIN relation) (matrix_ref family ty ROLE_ADMIN relation)
       (no_facts\<lparr>fa_parent := pf, fa_teacher := tf\<rparr>) act pur)
     = matrix_allows family ROLE_ADMIN relation act pur"
proof -
  have "matching_grant (matrix_actor ROLE_ADMIN relation) ''student_support_lookup'' (matrix_ref family ty ROLE_ADMIN relation) act pur False
     \<noteq> None \<longleftrightarrow> relation = ''scoped_grant''"
    by (auto simp: matching_grant_def matrix_actor_def scope_matches_def)
  with matrix_types(1) [OF assms] show ?thesis
    by (cases pur) (auto simp: permits_def matrix_no_grant admin_permits_def admin_capability_def no_facts_def
        matrix_allows_def split: option.splits)
qed

lemma matrix_request_get:
  "item_get (matrix_request rid s u) ''student_id'' = PStr s"
  "item_get (matrix_request rid s u) ''conversation_id'' = PStr rid"
  "item_get (matrix_request rid s u) ''escalation_request_id'' = PStr rid"
  "item_get (matrix_request rid s u) ''teacher_id'' = PStr u"
  "item_get (matrix_request rid s u) ''dispatched_teacher_id'' = PStr u"
  "item_get (matrix_request rid s u) ''dispatch_status'' = PStr ''accepted''"
  "item_get (matrix_request rid s u) ''escalation_status'' = PStr ''in_progress''"
  by (simp_all add: matrix_request_def row_lookup)

lemma matrix_request_rights:
  "u \<noteq> [] \<Longrightarrow> teacher_may rt (matrix_request rid s u) v act now
     \<longleftrightarrow> u = v \<and> act \<in> {ACT_READ, ACT_CREATE, ACT_UPDATE, ACT_RESPOND, ACT_RESOLVE}"
  by (auto simp: teacher_may_def Let_def stored_status_def holder_of_def offered_to_def matrix_request_get
      help_words CLOSED_DISPATCH_def TEACHER_WRITES_def TEACHER_READS_def)

lemma matrix_task:
  assumes "rid \<noteq> []" "resource_id r = rid" "student_id r = ''student-1''" "u \<noteq> []"
    "resource_type r \<in> {RES_STUDENT, RES_QUESTION, RES_CONVERSATION, RES_PRACTICE, RES_ADAPTIVE_PROFILE, RES_REPORT}"
  shows "current_task_permits rt (Some (matrix_request rid ''student-1'' u)) ''teacher-1'' r act pur now
     \<longleftrightarrow> pur = FOR_TEACHER_HELP \<and> resource_type r \<in> {RES_QUESTION, RES_CONVERSATION} \<and> u = ''teacher-1''
       \<and> act \<in> {ACT_READ, ACT_CREATE, ACT_UPDATE, ACT_RESPOND, ACT_RESOLVE}"
  using assms by (auto simp: current_task_permits_def matrix_request_get matrix_request_rights)

lemma matrix_teacher_allowed:
  assumes "matrix_resource family = Some ty"
  shows "permits rt now (matrix_actor ROLE_TEACHER relation) (matrix_ref family ty ROLE_TEACHER relation)
       (no_facts\<lparr>fa_parent := pf, fa_teacher := matrix_teacher_facts relation ''student-1''
          (resource_id (matrix_ref family ty ROLE_TEACHER relation))\<rparr>) act pur
     = (matrix_allows family ROLE_TEACHER relation act pur, None)"
proof -
  let ?r = "matrix_ref family ty ROLE_TEACHER relation"
  have rid: "resource_id ?r \<noteq> []" by (simp add: matrix_ref_def plain_ref_def)
  note task = matrix_task [OF rid, of ?r, simplified]
  have "case matrix_teacher_facts relation ''student-1'' (resource_id ?r) of
       None \<Rightarrow> \<not> matrix_allows family ROLE_TEACHER relation act pur
     | Some x \<Rightarrow> teacher_permits rt x ''teacher-1'' ?r act pur now
         = matrix_allows family ROLE_TEACHER relation act pur"
    using matrix_types [OF assms]
    by (auto simp: matrix_teacher_facts_def teacher_permits_def standing_assignment_permits_def matrix_student_def
        task matrix_allows_def)
  then show ?thesis using matrix_types(1) [OF assms]
    by (cases "matrix_teacher_facts relation ''student-1'' (resource_id ?r)"; cases pur)
       (auto simp: permits_def matrix_no_grant no_facts_def matrix_allows_def)
qed

lemma matrix_permits:
  assumes "matrix_resource family = Some ty"
  shows "fst (permits rt now (matrix_actor r relation) (matrix_ref family ty r relation)
     (no_facts\<lparr>fa_parent := matrix_parent_facts relation (matrix_student r),
        fa_teacher := matrix_teacher_facts relation (matrix_student r)
          (resource_id (matrix_ref family ty r relation))\<rparr>) act pur)
     = matrix_allows family r relation act pur"
proof (cases r)
  case ROLE_STUDENT
  then show ?thesis by (simp add: matrix_student_allowed matrix_allows_def)
next
  case ROLE_PARENT
  then show ?thesis by (simp add: matrix_parent_allowed matrix_allows_def matrix_student_def)
next
  case ROLE_TEACHER
  with matrix_teacher_allowed [OF assms] show ?thesis by (simp add: matrix_student_def)
next
  case ROLE_ADMIN
  with matrix_admin_allowed [OF assms] show ?thesis by simp
qed

lemma evaluate_matrix_case_Inr:
  assumes "matrix_resource family = Some ty"
  shows "\<exists>d. evaluate_matrix_case rt family r relation act pur = Inr d
     \<and> allowed d = matrix_allows family r relation act pur
     \<and> result_code d = (if \<not> matrix_allows family r relation act pur \<and> matrix_hides r relation
         then RESOURCE_NOT_FOUND else ACTION_NOT_ALLOWED)"
  by (simp add: evaluate_matrix_case_def assms matrix_built [OF assms] matrix_hidden matrix_permits [OF assms] evaluate_simps)

section \<open>Safe projections\<close>

text \<open>\<open>evaluate_hidden_resource_case\<close>: the same response whatever the identifier names.\<close>

definition evaluate_hidden_resource_case :: "string \<Rightarrow> error_response result" where
  "evaluate_hidden_resource_case rid = safe_error_response RESOURCE_NOT_FOUND None"

text \<open>
  \<open>project_support_lookup\<close>: five bounded fields, none of them learning data. The binding and the account
  are stored rows, an empty one for an absent one.
\<close>

record support_view =
  accountState :: string
  bindingState :: string
  denialCode :: string
  sv_correlationId :: string
  supportId :: string

definition project_support_lookup ::
    "runtime \<Rightarrow> item option \<Rightarrow> item option \<Rightarrow> string option \<Rightarrow> string \<Rightarrow> string \<Rightarrow> support_view" where
  "project_support_lookup rt account binding denial corr support =
     (let acc = some_item account; code = text_or_empty denial
      in \<lparr>accountState = (if truthy (item_get acc ''account_status'') then py_str rt (item_get acc ''account_status'')
              else str_or rt (item_get acc ''status'') ''unknown''),
          bindingState = str_or rt (item_get (some_item binding) ''status'') ''unknown'',
          denialCode = (if code = [] then ''none'' else code),
          sv_correlationId = corr, supportId = support\<rparr>)"

end
