(* ===== verification/Link_Service.thy ===== *)
theory Link_Service
  imports Relationship
begin

text \<open>
  Who may ask for a link, who must confirm it, who may assign it
  (\<open>services/parent_link_service.py\<close>). Every function takes the clock's text (\<open>now or _now()\<close>),
  and the self-service ones the age at which an account is adult (a setting).
\<close>

section \<open>Refusals\<close>

datatype link_code =
    LINK_TARGET_NOT_FOUND | LINK_INITIATOR_NOT_ALLOWED | LINK_NOT_PENDING
  | LINK_CONFIRMATION_NOT_ALLOWED | LINK_REQUIRES_ADMINISTRATOR | LINK_CONFIRMATION_NOT_APPLICABLE
  | LINK_ALREADY_ACTIVE | LINK_REQUEST_PENDING | LINK_REQUEST_EXPIRED | LINK_REJECTED_COOLDOWN
  | LINK_REQUEST_CONFLICT | LINK_ALREADY_EXISTS | LINK_REQUEST_RATE_LIMITED
  | ACCOUNT_NUMBER_LOOKUP_UNAVAILABLE

text \<open>
  A refusal carries its public details: for a cooling-off pair the whole seconds left and the
  instant (microseconds) it ends.
\<close>

datatype service_failure =
    Refused link_code
  | Cooling_Off int int
  | From_Repo link_failure

type_synonym 'a served = "service_failure + 'a"

definition raises :: "err \<Rightarrow> service_failure" where
  "raises e = From_Repo (Link_Raises e)"

definition from_repo :: "(link_failure + 'a) \<times> 'w \<Rightarrow> 'a served \<times> 'w" where
  "from_repo r = (case r of (Inl e, w) \<Rightarrow> (Inl (From_Repo e), w) | (Inr x, w) \<Rightarrow> (Inr x, w))"

section \<open>Time\<close>

definition REJECTED_COOLDOWN :: int where
  "REJECTED_COOLDOWN = 7 * DAY"

definition PENDING_REQUEST_TTL :: int where
  "PENDING_REQUEST_TTL = 14 * DAY"

fun utc_if_naive :: "stamp \<Rightarrow> stamp" where
  "utc_if_naive (Stamp w None) = Stamp w (Some 0)"
| "utc_if_naive s = s"

definition moment_of :: "runtime \<Rightarrow> pyval \<Rightarrow> stamp option" where
  "moment_of rt v =
     (case v of
        PStr s \<Rightarrow> if strip s = [] then None else map_option utc_if_naive (from_iso rt s)
      | _ \<Rightarrow> None)"

definition settled_at :: "runtime \<Rightarrow> item \<Rightarrow> stamp option" where
  "settled_at rt i =
     (case moment_of rt (item_get i ''link_updated_at'') of
        Some m \<Rightarrow> Some m
      | None \<Rightarrow> moment_of rt (item_get i ''linked_at''))"

definition pending_expired :: "runtime \<Rightarrow> item \<Rightarrow> stamp option \<Rightarrow> bool" where
  "pending_expired rt i clock =
     (case settled_at rt i of
        None \<Rightarrow> True
      | Some s \<Rightarrow>
          (case clock of None \<Rightarrow> False | Some c \<Rightarrow> PENDING_REQUEST_TTL \<le> instant c - instant s))"

definition cooldown_remaining :: "runtime \<Rightarrow> item \<Rightarrow> stamp option \<Rightarrow> int" where
  "cooldown_remaining rt i clock =
     (case (settled_at rt i, clock) of
        (Some s, Some c) \<Rightarrow>
          (let remaining = instant s + REJECTED_COOLDOWN - instant c
           in if 0 < remaining then remaining else 0)
      | _ \<Rightarrow> 0)"

section \<open>Reading the pair and the accounts\<close>

text \<open>\<open>_settled_pair\<close>: both stored rows, agreeing, or nothing worth reasoning about.\<close>

definition settled_rows :: "item option \<Rightarrow> item option \<Rightarrow> item option" where
  "settled_rows forward reverse =
     (case (forward, reverse) of
        (Some f, Some r) \<Rightarrow>
          (if \<not> py_eq (item_get f ''status'') (item_get r ''status'') then None
           else if \<not> py_eq (item_get f ''link_updated_at'') (item_get r ''link_updated_at'') then None
           else if \<not> truthy (item_get f ''link_updated_at'') then None
           else Some f)
      | _ \<Rightarrow> None)"

definition settled_pair :: "'w db \<Rightarrow> string \<Rightarrow> string \<Rightarrow> 'w \<Rightarrow> item option served \<times> 'w" where
  "settled_pair db p s w =
     (case get_parent_side_link db p s w of
        (Inl e, w1) \<Rightarrow> (Inl (raises e), w1)
      | (Inr forward, w1) \<Rightarrow>
          (case get_student_side_link db s p w1 of
             (Inl e, w2) \<Rightarrow> (Inl (raises e), w2)
           | (Inr reverse, w2) \<Rightarrow> (Inr (settled_rows forward reverse), w2)))"

definition account_of :: "'w db \<Rightarrow> string \<Rightarrow> string \<Rightarrow> 'w \<Rightarrow> item served \<times> 'w" where
  "account_of db u role w =
     (case get_user db u w of
        (Inl e, w') \<Rightarrow> (Inl (raises e), w')
      | (Inr profile, w') \<Rightarrow>
          (if usable_account profile u role then (Inr (the profile), w')
           else (Inl (Refused LINK_TARGET_NOT_FOUND), w')))"

definition role_of :: "'w db \<Rightarrow> string \<Rightarrow> 'w \<Rightarrow> string served \<times> 'w" where
  "role_of db u w =
     (case get_user db u w of
        (Inl e, w') \<Rightarrow> (Inl (raises e), w')
      | (Inr None, w') \<Rightarrow> (Inl (Refused LINK_TARGET_NOT_FOUND), w')
      | (Inr (Some i), w') \<Rightarrow>
          (case item_get i ''role'' of
             PStr (c # cs) \<Rightarrow> (Inr (c # cs), w')
           | _ \<Rightarrow> (Inl (Refused LINK_TARGET_NOT_FOUND), w')))"

definition minor_among :: "item option list \<Rightarrow> stamp option \<Rightarrow> int \<Rightarrow> bool" where
  "minor_among profiles clock adult_age = list_ex (\<lambda>p. account_is_minor p clock adult_age) profiles"

section \<open>Assigning\<close>

definition reclaimable_for_admin :: "runtime \<Rightarrow> item \<Rightarrow> stamp option \<Rightarrow> bool" where
  "reclaimable_for_admin rt i clock =
     (item_get i ''status'' = PStr ''rejected''
      \<or> (item_get i ''status'' = PStr ''pending'' \<and> pending_expired rt i clock))"

definition reclaim_settled :: "'w db \<Rightarrow> runtime \<Rightarrow> item \<Rightarrow> link_request \<Rightarrow> 'w \<Rightarrow> link served \<times> 'w" where
  "reclaim_settled db rt i rq w =
     from_repo (reclaim_link db rq (str_or rt (item_get i ''status'') [])
       (str_or rt (item_get i ''link_updated_at'') []) w)"

definition assign_link ::
    "'w db \<Rightarrow> runtime \<Rightarrow> string \<Rightarrow> string \<Rightarrow> string \<Rightarrow> string \<Rightarrow> string \<Rightarrow> 'w \<Rightarrow> link served \<times> 'w" where
  "assign_link db rt p s actor relationship moment w =
     (case account_of db p ''parent'' w of
        (Inl e, w1) \<Rightarrow> (Inl e, w1)
      | (Inr _, w1) \<Rightarrow>
          (case account_of db s ''student'' w1 of
             (Inl e, w2) \<Rightarrow> (Inl e, w2)
           | (Inr _, w2) \<Rightarrow>
               (case settled_pair db p s w2 of
                  (Inl e, w3) \<Rightarrow> (Inl e, w3)
                | (Inr settled, w3) \<Rightarrow>
                    (let rq = \<lparr>lr_parent = p, lr_student = s, lr_relationship = relationship,
                           lr_status = ''active'', lr_initiator = ''admin'', lr_created_by = actor,
                           lr_linked_at = moment\<rparr>
                     in case settled of
                          Some i \<Rightarrow>
                            (if reclaimable_for_admin rt i (moment_of rt (PStr moment))
                             then reclaim_settled db rt i rq w3
                             else from_repo (create_link db rq w3))
                        | None \<Rightarrow> from_repo (create_link db rq w3)))))"

section \<open>Asking\<close>

text \<open>\<open>_refuse_unless_reclaimable\<close>: the refusal, or none when the pair may be proposed again.\<close>

definition refuse_unless_reclaimable :: "runtime \<Rightarrow> item \<Rightarrow> stamp option \<Rightarrow> service_failure option" where
  "refuse_unless_reclaimable rt i clock =
     (case item_get i ''status'' of
        PStr st \<Rightarrow>
          (if st = ''active'' then Some (Refused LINK_ALREADY_ACTIVE)
           else if st = ''pending'' then
             (if pending_expired rt i clock then None else Some (Refused LINK_REQUEST_PENDING))
           else if st = ''rejected'' then
             (let remaining = cooldown_remaining rt i clock
              in if 0 < remaining
                 then (case settled_at rt i of
                     Some s \<Rightarrow> Some (Cooling_Off (remaining div 1000000) (instant s + REJECTED_COOLDOWN))
                   | None \<Rightarrow> None)
                 else None)
           else Some (Refused LINK_REQUEST_PENDING))
      | _ \<Rightarrow> Some (Refused LINK_REQUEST_PENDING))"

type_synonym 'w resolver = "string \<Rightarrow> 'w \<Rightarrow> string option served \<times> 'w"

text \<open>
  The counterpart's id: given, or looked up from an account number by the resolver another part of
  the program installs.
\<close>

definition resolve_counterpart ::
    "'w resolver option \<Rightarrow> string option \<Rightarrow> string option \<Rightarrow> 'w \<Rightarrow> string option served \<times> 'w" where
  "resolve_counterpart resolver counterpart_id counterpart_number w =
     (case counterpart_id of
        Some i \<Rightarrow> (Inr (Some i), w)
      | None \<Rightarrow>
          (case counterpart_number of
             None \<Rightarrow> (Inl (Refused LINK_TARGET_NOT_FOUND), w)
           | Some [] \<Rightarrow> (Inl (Refused LINK_TARGET_NOT_FOUND), w)
           | Some number \<Rightarrow>
               (case resolver of
                  None \<Rightarrow> (Inl (Refused ACCOUNT_NUMBER_LOOKUP_UNAVAILABLE), w)
                | Some look_up \<Rightarrow> look_up number w)))"

definition propose_pair ::
    "'w db \<Rightarrow> runtime \<Rightarrow> int \<Rightarrow> string \<Rightarrow> string \<Rightarrow> string \<Rightarrow> string \<Rightarrow> string \<Rightarrow> string \<Rightarrow> 'w \<Rightarrow> link served \<times> 'w" where
  "propose_pair db rt adult_age p s initiator requester relationship moment w =
     (case account_of db p ''parent'' w of
        (Inl e, w1) \<Rightarrow> (Inl e, w1)
      | (Inr parent, w1) \<Rightarrow>
          (case account_of db s ''student'' w1 of
             (Inl e, w2) \<Rightarrow> (Inl e, w2)
           | (Inr student, w2) \<Rightarrow>
               (if minor_among [Some parent, Some student] (moment_of rt (PStr moment)) adult_age
                then (Inl (Refused LINK_REQUIRES_ADMINISTRATOR), w2)
                else case settled_pair db p s w2 of
                    (Inl e, w3) \<Rightarrow> (Inl e, w3)
                  | (Inr settled, w3) \<Rightarrow>
                      (let rq = \<lparr>lr_parent = p, lr_student = s, lr_relationship = relationship,
                             lr_status = ''pending'', lr_initiator = initiator, lr_created_by = requester,
                             lr_linked_at = moment\<rparr>
                       in case settled of
                            None \<Rightarrow> from_repo (create_link db rq w3)
                          | Some i \<Rightarrow>
                              (case refuse_unless_reclaimable rt i (moment_of rt (PStr moment)) of
                                 Some e \<Rightarrow> (Inl e, w3)
                               | None \<Rightarrow> reclaim_settled db rt i rq w3)))))"

definition request_link ::
    "'w db \<Rightarrow> runtime \<Rightarrow> int \<Rightarrow> 'w resolver option \<Rightarrow> string \<Rightarrow> string option \<Rightarrow> string option \<Rightarrow> string \<Rightarrow> string
      \<Rightarrow> 'w \<Rightarrow> link served \<times> 'w" where
  "request_link db rt adult_age resolver requester counterpart_id counterpart_number relationship moment w =
     (case role_of db requester w of
        (Inl e, w1) \<Rightarrow> (Inl e, w1)
      | (Inr role, w1) \<Rightarrow>
          (if role \<noteq> ''parent'' \<and> role \<noteq> ''student'' then (Inl (Refused LINK_INITIATOR_NOT_ALLOWED), w1)
           else case resolve_counterpart resolver counterpart_id counterpart_number w1 of
               (Inl e, w2) \<Rightarrow> (Inl e, w2)
             | (Inr target, w2) \<Rightarrow>
                 (case target of
                    None \<Rightarrow> (Inl (Refused LINK_TARGET_NOT_FOUND), w2)
                  | Some t \<Rightarrow>
                      (if t = [] \<or> t = requester then (Inl (Refused LINK_TARGET_NOT_FOUND), w2)
                       else if role = ''parent''
                       then propose_pair db rt adult_age requester t ''parent'' requester relationship moment w2
                       else propose_pair db rt adult_age t requester ''student'' requester relationship moment w2))))"

section \<open>Answering\<close>

definition confirmer_side :: "runtime \<Rightarrow> item \<Rightarrow> string served" where
  "confirmer_side rt i =
     (if item_get i ''initiator_role'' = PStr ''parent'' then Inr (str_or rt (item_get i ''student_id'') [])
      else if item_get i ''initiator_role'' = PStr ''student'' then Inr (str_or rt (item_get i ''parent_id'') [])
      else Inl (Refused LINK_CONFIRMATION_NOT_APPLICABLE))"

definition pending_link :: "'w db \<Rightarrow> runtime \<Rightarrow> string \<Rightarrow> string \<Rightarrow> stamp option \<Rightarrow> 'w \<Rightarrow> item served \<times> 'w" where
  "pending_link db rt p s clock w =
     (case get_parent_side_link db p s w of
        (Inl e, w1) \<Rightarrow> (Inl (raises e), w1)
      | (Inr None, w1) \<Rightarrow> (Inl (Refused LINK_NOT_PENDING), w1)
      | (Inr (Some i), w1) \<Rightarrow>
          (if item_get i ''status'' \<noteq> PStr ''pending'' then (Inl (Refused LINK_NOT_PENDING), w1)
           else if pending_expired rt i clock then (Inl (Refused LINK_REQUEST_EXPIRED), w1)
           else (Inr i, w1)))"

text \<open>The check of capable consent: both profiles are read afresh.\<close>

definition capable_consent ::
    "'w db \<Rightarrow> int \<Rightarrow> bool \<Rightarrow> string \<Rightarrow> string \<Rightarrow> stamp option \<Rightarrow> 'w \<Rightarrow> unit served \<times> 'w" where
  "capable_consent db adult_age needed p s clock w =
     (if \<not> needed then (Inr (), w)
      else case get_user db p w of
          (Inl e, w1) \<Rightarrow> (Inl (raises e), w1)
        | (Inr parent, w1) \<Rightarrow>
            (case get_user db s w1 of
               (Inl e, w2) \<Rightarrow> (Inl (raises e), w2)
             | (Inr student, w2) \<Rightarrow>
                 (if minor_among [parent, student] clock adult_age
                  then (Inl (Refused LINK_REQUIRES_ADMINISTRATOR), w2)
                  else (Inr (), w2))))"

definition answer_pending ::
    "'w db \<Rightarrow> runtime \<Rightarrow> int \<Rightarrow> string \<Rightarrow> string \<Rightarrow> string \<Rightarrow> string \<Rightarrow> bool \<Rightarrow> string \<Rightarrow> 'w \<Rightarrow> link served \<times> 'w" where
  "answer_pending db rt adult_age p s actor next_status needs_consent moment w =
     (let clock = moment_of rt (PStr moment)
      in case pending_link db rt p s clock w of
           (Inl e, w1) \<Rightarrow> (Inl e, w1)
         | (Inr i, w1) \<Rightarrow>
             (case confirmer_side rt i of
                Inl e \<Rightarrow> (Inl e, w1)
              | Inr confirmer \<Rightarrow>
                  (if actor \<noteq> confirmer \<or> PStr actor = item_get i ''created_by''
                   then (Inl (Refused LINK_CONFIRMATION_NOT_ALLOWED), w1)
                   else case capable_consent db adult_age needs_consent p s clock w1 of
                       (Inl e, w2) \<Rightarrow> (Inl e, w2)
                     | (Inr _, w2) \<Rightarrow>
                         from_repo (transition_link db rt p s ''pending'' next_status actor moment w2))))"

definition confirm_link ::
    "'w db \<Rightarrow> runtime \<Rightarrow> int \<Rightarrow> string \<Rightarrow> string \<Rightarrow> string \<Rightarrow> string \<Rightarrow> 'w \<Rightarrow> link served \<times> 'w" where
  "confirm_link db rt adult_age p s actor moment w =
     answer_pending db rt adult_age p s actor ''active'' True moment w"

definition reject_link ::
    "'w db \<Rightarrow> runtime \<Rightarrow> int \<Rightarrow> string \<Rightarrow> string \<Rightarrow> string \<Rightarrow> string \<Rightarrow> 'w \<Rightarrow> link served \<times> 'w" where
  "reject_link db rt adult_age p s actor moment w =
     answer_pending db rt adult_age p s actor ''rejected'' False moment w"

definition live_pending :: "runtime \<Rightarrow> item \<Rightarrow> stamp option \<Rightarrow> bool" where
  "live_pending rt i clock = (item_get i ''status'' = PStr ''pending'' \<and> \<not> pending_expired rt i clock)"

definition pending_requests_for_parent ::
    "runtime \<Rightarrow> 'w link_index \<Rightarrow> string \<Rightarrow> string \<Rightarrow> 'w \<Rightarrow> (string \<times> pyval) list list result \<times> 'w" where
  "pending_requests_for_parent rt ix p moment w =
     (case list_links_for_parent ix p w of
        (Inl e, w') \<Rightarrow> (Inl e, w')
      | (Inr listed, w') \<Rightarrow>
          (Inr (map link_fields (filter (\<lambda>i. live_pending rt i (moment_of rt (PStr moment))) listed)), w'))"

definition pending_requests_for_student ::
    "runtime \<Rightarrow> 'w link_index \<Rightarrow> string \<Rightarrow> string \<Rightarrow> 'w \<Rightarrow> (string \<times> pyval) list list result \<times> 'w" where
  "pending_requests_for_student rt ix s moment w =
     (case list_links_for_student ix s w of
        (Inl e, w') \<Rightarrow> (Inl e, w')
      | (Inr listed, w') \<Rightarrow>
          (Inr (map link_fields (filter (\<lambda>i. live_pending rt i (moment_of rt (PStr moment))) listed)), w'))"

end
