(* ===== verification/Link_World.thy ===== *)
theory Link_World
  imports Link_Service
begin

text \<open>
  The services as runs of link steps, a table on which other clients of the links act between any
  two calls, and the table with one client at a time.
\<close>

section \<open>Every service call is a run of link steps\<close>

context store
begin

lemma account_of_env: "account_of db u role w = (r, w') \<Longrightarrow> env (rows w) (rows w')"
  by (auto simp: account_of_def split: prod.splits sum.splits if_splits dest: get_user_env)

lemma role_of_env: "role_of db u w = (r, w') \<Longrightarrow> env (rows w) (rows w')"
  by (auto simp: role_of_def split: prod.splits sum.splits option.splits pyval.splits list.splits dest: get_user_env)

lemma settled_pair_env: "settled_pair db p s w = (r, w') \<Longrightarrow> env (rows w) (rows w')"
  by (auto simp: settled_pair_def split: prod.splits sum.splits dest!: side_get_env intro: env_trans)

lemma pending_link_env: "pending_link db rt p s c w = (r, w') \<Longrightarrow> env (rows w) (rows w')"
  by (auto simp: pending_link_def split: prod.splits sum.splits option.splits if_splits dest: side_get_env)

lemma capable_consent_env: "capable_consent db a n p s c w = (r, w') \<Longrightarrow> env (rows w) (rows w')"
  by (auto simp: capable_consent_def env_refl split: prod.splits sum.splits if_splits
      dest!: get_user_env intro: env_trans)

end

definition resolver_within :: "(table \<Rightarrow> table \<Rightarrow> bool) \<Rightarrow> ('w \<Rightarrow> table) \<Rightarrow> 'w resolver option \<Rightarrow> bool" where
  "resolver_within env rows resolver =
     (\<forall>look_up n w r w'. resolver = Some look_up \<longrightarrow> look_up n w = (r, w') \<longrightarrow> env (rows w) (rows w'))"

lemma no_resolver [simp]: "resolver_within env rows None"
  by (simp add: resolver_within_def)

lemma from_repo_eq: "from_repo x = (r, w') \<Longrightarrow> \<exists>y. x = (y, w')"
  by (cases x) (auto simp: from_repo_def split: sum.splits)

lemma strip_known: "strip ''pending'' = ''pending''" "strip ''active'' = ''active''" "strip ''rejected'' = ''rejected''"
  by code_simp+

context link_client
begin

lemma create_served_run:
  assumes "lr_status rq \<in> {''pending'', ''active''}" "from_repo (create_link db rq w) = (r, w')"
  shows "link_run (rows w) (rows w')"
proof -
  from from_repo_eq [OF assms(2)] obtain y where "create_link db rq w = (y, w')" by blast
  with assms(1) show ?thesis by (intro create_link_run) (auto simp: strip_known)
qed

lemma reclaim_served_run:
  assumes "lr_status rq \<in> {''pending'', ''active''}" "item_get i ''status'' \<in> {PStr ''pending'', PStr ''rejected''}"
    "reclaim_settled db rt i rq w = (r, w')"
  shows "link_run (rows w) (rows w')"
proof -
  from from_repo_eq [OF assms(3) [unfolded reclaim_settled_def]] obtain y where
    "reclaim_link db rq (str_or rt (item_get i ''status'') []) (str_or rt (item_get i ''link_updated_at'') []) w = (y, w')"
    by blast
  with assms(1,2) show ?thesis by (intro reclaim_link_run) (auto simp: strip_known)
qed

lemma refuse_unless_reclaimable_None:
  "refuse_unless_reclaimable rt i c = None \<Longrightarrow> item_get i ''status'' \<in> {PStr ''pending'', PStr ''rejected''}"
  by (auto simp: refuse_unless_reclaimable_def split: pyval.splits if_splits)

lemma reclaimable_for_admin_status:
  "reclaimable_for_admin rt i c \<Longrightarrow> item_get i ''status'' \<in> {PStr ''pending'', PStr ''rejected''}"
  by (auto simp: reclaimable_for_admin_def)

text \<open>One stage of a service: a call whose failure ends it, and the rest.\<close>

lemma stage_run:
  assumes "(case m of (Inl e, w1) \<Rightarrow> (Inl (g e), w1) | (Inr x, w1) \<Rightarrow> f x w1) = (r, w')"
    and "\<And>y w1. m = (y, w1) \<Longrightarrow> link_run (rows w) (rows w1)"
    and "\<And>x w1. m = (Inr x, w1) \<Longrightarrow> f x w1 = (r, w') \<Longrightarrow> link_run (rows w1) (rows w')"
  shows "link_run (rows w) (rows w')"
proof (cases m)
  case (Pair y w1)
  show ?thesis
  proof (cases y)
    case (Inl e)
    with Pair assms(1) have "w' = w1" by simp
    with assms(2) [OF Pair] show ?thesis by simp
  next
    case (Inr x)
    with Pair assms(1,3) have "link_run (rows w1) (rows w')" by simp
    with assms(2) [OF Pair] show ?thesis by (rule link_run_trans)
  qed
qed

lemmas account_of_run = account_of_env [THEN env_run]
lemmas settled_pair_run = settled_pair_env [THEN env_run]
lemmas role_of_run = role_of_env [THEN env_run]
lemmas pending_link_run = pending_link_env [THEN env_run]
lemmas capable_consent_run = capable_consent_env [THEN env_run]

lemma assign_link_run:
  assumes "assign_link db rt p s actor rel m w = (r, w')"
  shows "link_run (rows w) (rows w')"
  using assms unfolding assign_link_def
  apply -
  apply (erule stage_run, erule account_of_run)
  apply (erule stage_run, erule account_of_run)
  apply (erule stage_run, erule settled_pair_run)
  apply (auto simp: Let_def split: option.splits if_splits
      elim!: create_served_run [rotated] reclaim_served_run [rotated 2]
      dest!: reclaimable_for_admin_status)
  done

lemma propose_pair_run:
  assumes "propose_pair db rt age p s i q rel m w = (r, w')"
  shows "link_run (rows w) (rows w')"
  using assms unfolding propose_pair_def
  apply -
  apply (erule stage_run, erule account_of_run)
  apply (erule stage_run, erule account_of_run)
  apply (simp split: if_splits)
  apply (erule stage_run, erule settled_pair_run)
  apply (auto simp: Let_def split: option.splits
      elim!: create_served_run [rotated] reclaim_served_run [rotated 2]
      dest!: refuse_unless_reclaimable_None)
  done

lemma resolve_counterpart_run:
  assumes "resolver_within env rows resolver" "resolve_counterpart resolver i n w = (r, w')"
  shows "link_run (rows w) (rows w')"
  using assms
  by (auto simp: resolve_counterpart_def resolver_within_def intro: env_run
      split: option.splits list.splits)

lemma request_link_run:
  assumes "resolver_within env rows resolver" "request_link db rt age resolver q i n rel m w = (r, w')"
  shows "link_run (rows w) (rows w')"
  using assms(2) unfolding request_link_def
  apply -
  apply (erule stage_run, erule role_of_run)
  apply (simp split: if_splits)
  apply (erule stage_run, erule resolve_counterpart_run [OF assms(1)])
  apply (auto split: option.splits if_splits elim: propose_pair_run)
  done

lemma transition_served_run:
  assumes "next_status \<in> {''active'', ''rejected''}"
    and "from_repo (transition_link db rt p s ''pending'' next_status u m w) = (r, w')"
  shows "link_run (rows w) (rows w')"
proof -
  from from_repo_eq [OF assms(2)] obtain y where
    "transition_link db rt p s ''pending'' next_status u m w = (y, w')" by blast
  with assms(1) show ?thesis by (intro transition_link_run) (auto simp: strip_known)
qed

lemma answer_pending_run:
  assumes "next_status \<in> {''active'', ''rejected''}"
    and "answer_pending db rt age p s actor next_status needed m w = (r, w')"
  shows "link_run (rows w) (rows w')"
  using assms(2) unfolding answer_pending_def Let_def
  apply -
  apply (erule stage_run, erule pending_link_run)
  apply (simp split: sum.splits if_splits)
  apply (erule stage_run, erule capable_consent_run)
  apply (erule transition_served_run [OF assms(1)])
  done

lemma confirm_link_run: "confirm_link db rt age p s actor m w = (r, w') \<Longrightarrow> link_run (rows w) (rows w')"
  unfolding confirm_link_def by (rule answer_pending_run) simp_all

lemma reject_link_run: "reject_link db rt age p s actor m w = (r, w') \<Longrightarrow> link_run (rows w) (rows w')"
  unfolding reject_link_def by (rule answer_pending_run) simp_all

end

section \<open>Calls\<close>

datatype link_call =
    Assign string string string string string
  | Ask string "string option" string string
  | Confirm string string string string
  | Reject string string string string
  | Revoke string string string string

text \<open>The table a call of the services leaves; its answer is not needed here.\<close>

fun serve :: "'w db \<Rightarrow> runtime \<Rightarrow> int \<Rightarrow> link_call \<Rightarrow> 'w \<Rightarrow> 'w" where
  "serve db rt age (Assign p s actor rel m) w = snd (assign_link db rt p s actor rel m w)"
| "serve db rt age (Ask q other rel m) w = snd (request_link db rt age None q other None rel m w)"
| "serve db rt age (Confirm p s actor m) w = snd (confirm_link db rt age p s actor m w)"
| "serve db rt age (Reject p s actor m) w = snd (reject_link db rt age p s actor m w)"
| "serve db rt age (Revoke p s actor m) w = snd (revoke db rt p s actor m w)"

context link_client
begin

lemma link_call_run: "link_run (rows w) (rows (serve db rt age c w))"
proof (cases c)
  case (Assign p s actor rel m)
  then show ?thesis using assign_link_run by simp (metis prod.collapse)
next
  case (Ask q other rel m)
  then show ?thesis using request_link_run [OF no_resolver] by simp (metis prod.collapse)
next
  case (Confirm p s actor m)
  then show ?thesis using confirm_link_run by simp (metis prod.collapse)
next
  case (Reject p s actor m)
  then show ?thesis using reject_link_run by simp (metis prod.collapse)
next
  case (Revoke p s actor m)
  then show ?thesis using revoke_run by simp (metis prod.collapse)
qed

lemma link_calls_run: "link_run (rows w) (rows (fold (serve db rt age) cs w))"
proof (induction cs arbitrary: w)
  case (Cons c cs)
  show ?case using link_run_trans [OF link_call_run Cons.IH] by simp
qed simp

end

section \<open>Other clients\<close>

text \<open>
  What others may do to the links between two calls: a write of the repository, the removal of a row
  with its account, or a row elsewhere.
\<close>

datatype link_command =
    Pair_Create link
  | Pair_Answer link
  | Pair_Reclaim link string string
  | Pair_Close link
  | Row_Drop key
  | Row_Put item

definition if_step :: "bool \<Rightarrow> table \<Rightarrow> table \<Rightarrow> table" where
  "if_step b t t' = (if b then t' else t)"

fun run_link_command :: "link_command \<Rightarrow> table \<Rightarrow> table" where
  "run_link_command (Pair_Create b) t =
     if_step (side_free t (pair_key b) \<and> side_free t (mirror_key b) \<and> lk_status b \<in> {''pending'', ''active''})
       t (pair_put b t)"
| "run_link_command (Pair_Answer b) t =
     if_step (side_status t (pair_key b) ''pending'' \<and> side_status t (mirror_key b) ''pending''
         \<and> lk_status b \<in> {''active'', ''rejected''})
       t (pair_put b t)"
| "run_link_command (Pair_Reclaim b old st) t =
     if_step (old \<in> {''pending'', ''rejected''} \<and> side_status t (pair_key b) old \<and> side_status t (mirror_key b) old
         \<and> side_stamp t (pair_key b) st \<and> side_stamp t (mirror_key b) st \<and> lk_stamp b \<noteq> st
         \<and> lk_status b \<in> {''pending'', ''active''})
       t (pair_put b t)"
| "run_link_command (Pair_Close b) t = if_step (lk_status b = ''rejected'') t (pair_put b t)"
| "run_link_command (Row_Drop k) t = t(k := None)"
| "run_link_command (Row_Put i) t =
     (case item_key i of None \<Rightarrow> t | Some k \<Rightarrow> if link_key k then t else t(k \<mapsto> stored_item i))"

lemma run_link_command_run: "link_run t (run_link_command c t)"
proof (cases c)
  case (Row_Put i)
  then show ?thesis
    by (auto split: option.splits intro!: link_run_step link_step.elsewhere)
qed (auto simp: if_step_def intro!: link_run_step intro: link_step.intros)

lemma acts_link_run: "acts run_link_command t t' \<Longrightarrow> link_run t t'"
proof -
  have "link_run t (fold run_link_command cs t)" for cs
  proof (induction cs arbitrary: t)
    case (Cons c cs)
    from link_run_trans [OF run_link_command_run Cons.IH] show ?case by simp
  qed simp
  then show "acts run_link_command t t' \<Longrightarrow> link_run t t'" by (auto simp: acts_def)
qed

abbreviation link_db :: "link_command world db" where
  "link_db \<equiv> world_db run_link_command"

interpretation shared_links: link_client link_db tbl "acts run_link_command"
  by unfold_locales (rule acts_link_run)

interpretation lone_links: link_client table_db "\<lambda>t. t" "(=)"
  by unfold_locales simp

end
