(* ===== verification/Link_Consent.thy ===== *)
theory Link_Consent
  imports Link_World
begin

text \<open>
  What each service writes, and from it that nobody gives themselves sight of another account: an active
  link was made by an administrator, or asked for by one side and confirmed by the other. Others may
  answer, assign, close and delete meanwhile; what they may not do is ask for a pair anew, for an answer
  is judged on the request it read and written under the condition that some request is still pending.
\<close>

section \<open>Consent\<close>

definition consent_ok :: "link \<Rightarrow> bool" where
  "consent_ok b =
     (lk_status b = ''active'' \<longrightarrow>
        lk_initiator b = ''admin''
        \<or> (lk_initiator b = ''parent'' \<and> lk_updated_by b = lk_student b)
        \<or> (lk_initiator b = ''student'' \<and> lk_updated_by b = lk_parent b))"

text \<open>Rows that name their own pair.\<close>

definition consent_row :: "item \<Rightarrow> bool" where
  "consent_row i =
     (item_get i ''status'' = PStr ''active'' \<longrightarrow>
        item_get i ''initiator_role'' = PStr ''admin''
        \<or> (item_get i ''initiator_role'' = PStr ''parent'' \<and> item_get i ''updated_by'' = item_get i ''student_id'')
        \<or> (item_get i ''initiator_role'' = PStr ''student'' \<and> item_get i ''updated_by'' = item_get i ''parent_id''))"

definition own_row :: "string \<Rightarrow> string \<Rightarrow> item option \<Rightarrow> bool" where
  "own_row p s r = (\<forall>i. r = Some i \<longrightarrow>
     item_get i ''parent_id'' = PStr p \<and> item_get i ''student_id'' = PStr s \<and> consent_row i)"

definition links_consented :: "table \<Rightarrow> bool" where
  "links_consented t =
     (\<forall>p s. own_row p s (t (parent_side_key p s)) \<and> own_row p s (t (student_side_key s p)))"

lemma own_row_put: "consent_ok b \<Longrightarrow> own_row (lk_parent b) (lk_student b) (Some (stored_item (side_item k b)))"
  by (auto simp: own_row_def consent_row_def consent_ok_def row_lookup)

lemma pair_put_consented: "consent_ok b \<Longrightarrow> links_consented t \<Longrightarrow> links_consented (pair_put b t)"
  unfolding links_consented_def
proof (intro allI)
  fix p s
  assume b: "consent_ok b" and t: "\<forall>p s. own_row p s (t (parent_side_key p s)) \<and> own_row p s (t (student_side_key s p))"
  show "own_row p s (pair_put b t (parent_side_key p s)) \<and> own_row p s (pair_put b t (student_side_key s p))"
  proof (cases rule: pair_put_cases [of p b s t])
    case same
    with own_row_put [OF b] show ?thesis by simp
  next
    case other
    with t show ?thesis by simp
  qed
qed

text \<open>The body of an answer carries the initiator of the row it answers, and the actor as updater.\<close>

lemma transition_body_consent:
  assumes "transition_body rt p s target actor m i = Inr b" and "confirmer_side rt i = Inr actor"
    and "own_row p s (Some i)" and "strip p = p" and "strip s = s"
  shows "consent_ok b"
proof -
  from assms(3) have i: "item_get i ''parent_id'' = PStr p" "item_get i ''student_id'' = PStr s"
    by (auto simp: own_row_def)
  from assms(1) have b: "lk_parent b = p" "lk_student b = s" "lk_updated_by b = strip actor"
    "lk_initiator b = str_or rt (item_get i ''initiator_role'') ''admin''" "strip actor \<noteq> []"
    by (auto simp: transition_body_def link_body_def split: sum.splits if_splits dest: required_field_InrD)
  from assms(2) i consider "item_get i ''initiator_role'' = PStr ''parent''" "actor = (if s = [] then [] else s)"
    | "item_get i ''initiator_role'' = PStr ''student''" "actor = (if p = [] then [] else p)"
    by (auto simp: confirmer_side_def split: if_splits)
  then show ?thesis
  proof cases
    case 1
    with b assms(4,5) show ?thesis by (auto simp: consent_ok_def split: if_splits)
  next
    case 2
    with b assms(4,5) show ?thesis by (auto simp: consent_ok_def split: if_splits)
  qed
qed

lemma requested_consent:
  assumes "requested_body rq = Inr b" "lr_status rq = ''pending'' \<or> lr_initiator rq = ''admin''"
  shows "consent_ok b"
proof -
  have "lk_initiator b = strip (lr_initiator rq)"
    using assms(1) by (auto simp: requested_body_def link_body_def split: sum.splits if_splits dest: required_field_InrD)
  moreover have "lk_status b = strip (lr_status rq)"
    using lone_links.requested_bodyD(1) [OF assms(1)] lone_links.checked_statusD by blast
  moreover have "strip ''admin'' = ''admin''" by code_simp
  ultimately show ?thesis using assms(2) by (auto simp: consent_ok_def strip_known)
qed

text \<open>No pair is pending that was not so before, with the very same row.\<close>

definition asks_nothing :: "table \<Rightarrow> table \<Rightarrow> bool" where
  "asks_nothing t t' \<longleftrightarrow>
     (\<forall>p s. side_status t' (parent_side_key p s) ''pending'' \<longrightarrow> t' (parent_side_key p s) = t (parent_side_key p s))"

lemma asks_nothing_refl [simp]: "asks_nothing t t"
  by (simp add: asks_nothing_def)

lemma asks_nothing_trans:
  assumes "asks_nothing a b" "asks_nothing b c"
  shows "asks_nothing a c"
  unfolding asks_nothing_def
proof (intro allI impI)
  fix p s
  let ?k = "parent_side_key p s"
  assume c: "side_status c ?k ''pending''"
  with assms(2) have "c ?k = b ?k" by (simp add: asks_nothing_def)
  moreover from c this have "side_status b ?k ''pending''" by (simp add: side_status_def row_at_def)
  with assms(1) have "b ?k = a ?k" by (simp add: asks_nothing_def)
  ultimately show "c ?k = a ?k" by simp
qed

section \<open>What a call writes\<close>

text \<open>Others act; or others act, one pair is written, and others act again.\<close>

definition wrote :: "(table \<Rightarrow> table \<Rightarrow> bool) \<Rightarrow> (link \<Rightarrow> bool) \<Rightarrow> table \<Rightarrow> table \<Rightarrow> bool" where
  "wrote env P t t' \<longleftrightarrow> env t t' \<or> (\<exists>u b. env t u \<and> P b \<and> env (pair_put b u) t')"

lemma wrote_mono: "wrote env P t t' \<Longrightarrow> (\<And>b. P b \<Longrightarrow> Q b) \<Longrightarrow> wrote env Q t t'"
  unfolding wrote_def by blast

text \<open>The row an answer is written from is pending, and is there at some moment after the given one.\<close>

definition answers_row ::
    "(table \<Rightarrow> table \<Rightarrow> bool) \<Rightarrow> table \<Rightarrow> runtime \<Rightarrow> string \<Rightarrow> string \<Rightarrow> string \<Rightarrow> string \<Rightarrow> string \<Rightarrow> string \<Rightarrow> link \<Rightarrow> bool" where
  "answers_row env t0 rt p s old new u m b \<longleftrightarrow>
     (\<exists>t i. env t0 t \<and> t (parent_side_key p s) = Some i \<and> item_get i ''status'' = PStr old
        \<and> transition_body rt p s new u m i = Inr b)"

context link_client
begin

lemma wrote_same [simp]: "wrote env P t t"
  by (simp add: wrote_def env_refl)

lemma wrote_after: "env t u \<Longrightarrow> wrote env P u t' \<Longrightarrow> wrote env P t t'"
  unfolding wrote_def by (blast intro: env_trans)

text \<open>One stage that reads.\<close>

lemma stage_reads:
  assumes "(case m of (Inl e, w1) \<Rightarrow> (Inl (g e), w1) | (Inr x, w1) \<Rightarrow> f x w1) = (r, w')"
    and "\<And>y w1. m = (y, w1) \<Longrightarrow> env (rows w) (rows w1)"
    and "\<And>x w1. m = (Inr x, w1) \<Longrightarrow> f x w1 = (r, w') \<Longrightarrow> wrote env P (rows w1) (rows w')"
  shows "wrote env P (rows w) (rows w')"
proof (cases m)
  case (Pair y w1)
  note e = assms(2) [OF Pair]
  show ?thesis
  proof (cases y)
    case (Inl _)
    with Pair assms(1) have "w' = w1" by simp
    with e show ?thesis by (simp add: wrote_def)
  next
    case (Inr x)
    with Pair assms(1,3) have "wrote env P (rows w1) (rows w')" by simp
    with e show ?thesis by (rule wrote_after)
  qed
qed

lemma commit_wrote:
  assumes "commit_link db (map (\<lambda>(k, c). Check k c) checks @ put_both b cf cr) b w = (r, w')"
  shows "wrote env ((=) b) (rows w) (rows w')"
proof -
  let ?ops = "map (\<lambda>(k, c). Check k c) checks @ put_both b cf cr"
  obtain ok where tx: "db_tx db ?ops w = (ok, w')"
    using assms by (auto simp: commit_link_def split: prod.splits bool.splits)
  have "env (rows w) (rows w') \<or> (\<exists>t t'. env (rows w) t \<and> tx_apply ?ops t = Some t' \<and> env t' (rows w'))"
    using tx tx_committed [of ?ops w w'] tx_failed [of ?ops w w'] by (cases ok) simp_all
  then show ?thesis unfolding wrote_def using fence_checks(1) by blast
qed

lemma fenced_wrote: "fenced_write db b c w = (r, w') \<Longrightarrow> wrote env ((=) b) (rows w) (rows w')"
  unfolding fenced_write_def
  apply (erule stage_reads, erule participant_fence_conditions_env)
  apply (erule participant_fence_conditions_checks, simp add: commit_wrote)
  done

lemma create_wrote: "create_link db rq w = (r, w') \<Longrightarrow> wrote env (\<lambda>b. requested_body rq = Inr b) (rows w) (rows w')"
  by (auto simp: create_link_def split: sum.splits dest!: fenced_wrote elim: wrote_mono)

lemma reclaim_wrote:
  assumes "reclaim_link db rq old st w = (r, w')"
  shows "wrote env (\<lambda>b. requested_body rq = Inr b) (rows w) (rows w')"
  using assms unfolding reclaim_link_def
  apply (simp split: sum.splits if_splits)
  apply (erule stage_reads, erule both_sides_stored_env)
  apply (auto split: sum.splits if_splits dest!: fenced_wrote elim: wrote_mono)
  done

lemma both_sides_read:
  assumes "both_sides_stored db p s w = (Inr (i, j), w')"
  shows "\<exists>t. env (rows w) t \<and> t (parent_side_key (strip p) (strip s)) = Some i"
proof -
  from assms obtain w1 where "get_parent_side_link db p s w = (Inr (Some i), w1)"
    by (auto simp: both_sides_stored_def split: prod.splits sum.splits option.splits)
  from side_get_env(1) [OF this] side_get_row(1) [OF this] show ?thesis by blast
qed

lemma transition_wrote:
  assumes "transition_link db rt p s old new u m w = (r, w')"
  shows "wrote env (answers_row env (rows w) rt (strip p) (strip s) (strip old) (strip new) u m) (rows w) (rows w')"
proof -
  consider "w' = w" | x w1 where "both_sides_stored db (strip p) (strip s) w = (x, w1)" "w' = w1"
    | i j w1 b where "both_sides_stored db (strip p) (strip s) w = (Inr (i, j), w1)"
        "item_get i ''status'' = PStr (strip old)" "transition_body rt (strip p) (strip s) (strip new) u m i = Inr b"
        "fenced_write db b (status_condition (strip old)) w1 = (r, w')"
    using assms
    by (auto simp: transition_link_def split: sum.splits if_splits prod.splits dest!: required_field_InrD checked_statusD)
  then show ?thesis
  proof cases
    case 2
    with both_sides_stored_env [OF 2(1)] show ?thesis by (simp add: wrote_def)
  next
    case 3
    from both_sides_read [OF 3(1)] 3(2,3) have "answers_row env (rows w) rt (strip p) (strip s) (strip old) (strip new) u m b"
      by (auto simp: answers_row_def)
    then have "wrote env (answers_row env (rows w) rt (strip p) (strip s) (strip old) (strip new) u m) (rows w1) (rows w')"
      using wrote_mono [OF fenced_wrote [OF 3(4)]] by blast
    with both_sides_stored_env [OF 3(1)] show ?thesis by (rule wrote_after)
  qed simp
qed

lemma close_wrote:
  assumes "close_link db rt p s ps ss u m w = (r, w')"
  shows "wrote env (\<lambda>b. lk_status b = ''rejected'') (rows w) (rows w')"
proof -
  consider "w' = w" | b cf cr where "lk_status b = ''rejected''" "commit_link db (put_both b cf cr) b w = (r, w')"
    using assms
    by (auto simp: close_link_def Let_def split: sum.splits if_splits prod.splits list.splits
        dest!: closed_body_status)
  then show ?thesis
  proof cases
    case 2
    with commit_wrote [of "[]" b cf cr w r w'] show ?thesis by (auto elim: wrote_mono)
  qed simp
qed

lemma served_wrote: "from_repo x = (r, w') \<Longrightarrow> (\<And>y. x = (y, w') \<Longrightarrow> Q) \<Longrightarrow> Q"
  by (drule from_repo_eq) auto

lemma create_consents:
  assumes "from_repo (create_link db rq w) = (r, w')" "lr_status rq = ''pending'' \<or> lr_initiator rq = ''admin''"
  shows "wrote env consent_ok (rows w) (rows w')"
  by (rule served_wrote [OF assms(1)]) (rule wrote_mono [OF create_wrote], assumption, rule requested_consent [OF _ assms(2)])

lemma reclaim_consents:
  assumes "reclaim_settled db rt i rq w = (r, w')" "lr_status rq = ''pending'' \<or> lr_initiator rq = ''admin''"
  shows "wrote env consent_ok (rows w) (rows w')"
  by (rule served_wrote [OF assms(1) [unfolded reclaim_settled_def]])
    (rule wrote_mono [OF reclaim_wrote], assumption, rule requested_consent [OF _ assms(2)])

lemma assign_consents:
  assumes "assign_link db rt p s actor rel m w = (r, w')"
  shows "wrote env consent_ok (rows w) (rows w')"
  using assms unfolding assign_link_def
  apply -
  apply (erule stage_reads, erule account_of_env)
  apply (erule stage_reads, erule account_of_env)
  apply (erule stage_reads, erule settled_pair_env)
  apply (auto simp: Let_def split: option.splits if_splits intro: create_consents reclaim_consents)
  done

lemma propose_consents:
  assumes "propose_pair db rt age p s i q rel m w = (r, w')"
  shows "wrote env consent_ok (rows w) (rows w')"
  using assms unfolding propose_pair_def
  apply -
  apply (erule stage_reads, erule account_of_env)
  apply (erule stage_reads, erule account_of_env)
  apply (simp split: if_splits)
  apply (erule stage_reads, erule settled_pair_env)
  apply (auto simp: Let_def split: option.splits intro: create_consents reclaim_consents)
  done

lemma request_consents:
  assumes "resolver_within env rows resolver" "request_link db rt age resolver q i n rel m w = (r, w')"
  shows "wrote env consent_ok (rows w) (rows w')"
  using assms(2) unfolding request_link_def
  apply -
  apply (erule stage_reads, erule role_of_env)
  apply (simp split: if_splits)
  apply (erule stage_reads)
   apply (use assms(1) in \<open>auto simp: resolve_counterpart_def resolver_within_def env_refl split: option.splits list.splits\<close>) [1]
  apply (auto split: option.splits if_splits elim: propose_consents)
  done

lemma revoke_consents:
  assumes "revoke db rt p s actor m w = (r, w')"
  shows "wrote env consent_ok (rows w) (rows w')"
proof -
  obtain f w1 where f: "get_parent_side_link db p s w = (f, w1)" by fastforce
  obtain g w2 where g: "get_student_side_link db s p w1 = (g, w2)" by fastforce
  note e1 = side_get_env(1) [OF f] and e2 = env_trans [OF side_get_env(1) [OF f] side_get_env(2) [OF g]]
  from assms f g consider "w' = w" | "w' = w1" | "w' = w2" | ps ss x where "close_link db rt p s ps ss actor m w2 = (x, w')"
    by (auto simp: revoke_def Let_def split: if_splits prod.splits sum.splits)
  then show ?thesis
  proof cases
    case 4
    from wrote_after [OF e2 close_wrote [OF 4]] show ?thesis by (rule wrote_mono) (simp add: consent_ok_def)
  qed (use e1 e2 env_refl in \<open>auto simp: wrote_def\<close>)
qed

lemma pending_link_read:
  assumes "pending_link db rt p s c w = (Inr i, w')"
  shows "rows w' (parent_side_key (strip p) (strip s)) = Some i" and "item_get i ''status'' = PStr ''pending''"
proof -
  from assms obtain "get_parent_side_link db p s w = (Inr (Some i), w')" and "item_get i ''status'' = PStr ''pending''"
    by (auto simp: pending_link_def split: prod.splits sum.splits option.splits if_splits)
  then show "rows w' (parent_side_key (strip p) (strip s)) = Some i" "item_get i ''status'' = PStr ''pending''"
    by (auto dest: side_get_row(1))
qed

end

section \<open>Where others ask for nothing\<close>

locale consent_client = link_client db rows env
  for db :: "'w db" and rows :: "'w \<Rightarrow> table" and env :: "table \<Rightarrow> table \<Rightarrow> bool" +
  assumes env_consents: "env t t' \<Longrightarrow> links_consented t \<Longrightarrow> links_consented t'"
    and env_asks_nothing: "env t t' \<Longrightarrow> asks_nothing t t'"

context consent_client
begin

lemma wrote_consented: "wrote env consent_ok t t' \<Longrightarrow> links_consented t \<Longrightarrow> links_consented t'"
  unfolding wrote_def by (blast intro: env_consents pair_put_consented)

text \<open>Whatever row the answer is written from, it is the one the confirmer was judged on.\<close>

lemma answer_consents:
  assumes call: "answer_pending db rt age p s actor new needed m w = (r, w')" and ok: "links_consented (rows w)"
  shows "wrote env consent_ok (rows w) (rows w')"
  using call unfolding answer_pending_def Let_def
proof (rule stage_reads [OF _ pending_link_env])
  fix i w1
  assume i: "pending_link db rt p s (moment_of rt (PStr m)) w = (Inr i, w1)"
  let ?k = "parent_side_key (strip p) (strip s)"
  note row = pending_link_read [OF i]
  have "links_consented (rows w1)" by (rule env_consents [OF pending_link_env [OF i] ok])
  with row(1) have own: "own_row (strip p) (strip s) (Some i)" by (metis links_consented_def)
  assume "(case confirmer_side rt i of Inl e \<Rightarrow> (Inl e, w1)
     | Inr confirmer \<Rightarrow> if actor \<noteq> confirmer \<or> PStr actor = item_get i ''created_by''
         then (Inl (Refused LINK_CONFIRMATION_NOT_ALLOWED), w1)
         else (case capable_consent db age needed p s (moment_of rt (PStr m)) w1 of
             (Inl e, w2) \<Rightarrow> (Inl e, w2)
           | (Inr _, w2) \<Rightarrow> from_repo (transition_link db rt p s ''pending'' new actor m w2))) = (r, w')"
  then consider "w' = w1" | "confirmer_side rt i = Inr actor"
      "(case capable_consent db age needed p s (moment_of rt (PStr m)) w1 of
         (Inl e, w2) \<Rightarrow> (Inl e, w2)
       | (Inr _, w2) \<Rightarrow> from_repo (transition_link db rt p s ''pending'' new actor m w2)) = (r, w')"
    by (auto split: sum.splits if_splits)
  then show "wrote env consent_ok (rows w1) (rows w')"
  proof cases
    case 2
    from 2(2) show ?thesis
    proof (rule stage_reads [OF _ capable_consent_env])
      fix x w2
      assume c: "capable_consent db age needed p s (moment_of rt (PStr m)) w1 = (Inr x, w2)"
        and t: "from_repo (transition_link db rt p s ''pending'' new actor m w2) = (r, w')"
      note between = capable_consent_env [OF c]
      have same: "consent_ok b" if answers: "answers_row env (rows w2) rt (strip p) (strip s) ''pending'' (strip new) actor m b" for b
      proof -
        from answers obtain t j where t: "env (rows w2) t" "t ?k = Some j" "item_get j ''status'' = PStr ''pending''"
            "transition_body rt (strip p) (strip s) (strip new) actor m j = Inr b"
          by (auto simp: answers_row_def)
        from env_asks_nothing [OF env_trans [OF between t(1)]] t(2,3) row(1) have "j = i"
          by (simp add: asks_nothing_def side_status_def row_at_def)
        with t(4) show ?thesis using transition_body_consent 2(1) own by auto
      qed
      show "wrote env consent_ok (rows w2) (rows w')"
        by (rule served_wrote [OF t]) (rule wrote_mono [OF transition_wrote [where old = "''pending''", unfolded strip_known]], assumption, rule same)
    qed assumption
  qed simp
qed assumption

lemma serve_consented: "links_consented (rows w) \<Longrightarrow> links_consented (rows (serve db rt age c w))"
  by (cases c) (auto simp: confirm_link_def reject_link_def intro: wrote_consented
      assign_consents [OF prod.collapse [symmetric]] request_consents [OF no_resolver prod.collapse [symmetric]]
      answer_consents [OF prod.collapse [symmetric]] revoke_consents [OF prod.collapse [symmetric]])

lemma serves_consented: "links_consented (rows w) \<Longrightarrow> links_consented (rows (fold (serve db rt age) cs w))"
  by (induction cs arbitrary: w) (auto intro: serve_consented)

end

text \<open>
  What others do to the links: assign, answer, close, delete - each as a service that keeps to consent
  writes it - but ask for nothing.
\<close>

fun calm :: "link_command \<Rightarrow> bool" where
  "calm (Pair_Create b) \<longleftrightarrow> lk_status b = ''active'' \<and> consent_ok b"
| "calm (Pair_Answer b) \<longleftrightarrow> consent_ok b"
| "calm (Pair_Reclaim b old st) \<longleftrightarrow> lk_status b = ''active'' \<and> consent_ok b"
| "calm c \<longleftrightarrow> True"

definition run_calm_command :: "link_command \<Rightarrow> table \<Rightarrow> table" where
  "run_calm_command c t = (if calm c then run_link_command c t else t)"

lemma pair_put_asks_nothing: "lk_status b \<noteq> ''pending'' \<Longrightarrow> asks_nothing t (pair_put b t)"
  unfolding asks_nothing_def
proof (intro allI impI)
  fix p s
  assume "lk_status b \<noteq> ''pending''" "side_status (pair_put b t) (parent_side_key p s) ''pending''"
  then show "pair_put b t (parent_side_key p s) = t (parent_side_key p s)"
    by (cases rule: pair_put_cases [of p b s t]) (auto simp: side_status_def row_at_def row_lookup)
qed

lemma calm_step:
  "asks_nothing t (run_calm_command c t) \<and> (links_consented t \<longrightarrow> links_consented (run_calm_command c t))"
proof -
  have put: "asks_nothing t (pair_put b t) \<and> (links_consented t \<longrightarrow> links_consented (pair_put b t))"
    if "lk_status b \<noteq> ''pending''" "consent_ok b" for b
    using that pair_put_asks_nothing pair_put_consented by blast
  have drop: "asks_nothing t (t(k := None)) \<and> (links_consented t \<longrightarrow> links_consented (t(k := None)))" for k
    by (auto simp: asks_nothing_def side_status_def row_at_def item_get_def links_consented_def own_row_def)
  have other: "asks_nothing t (t(k \<mapsto> i)) \<and> (links_consented t \<longrightarrow> links_consented (t(k \<mapsto> i)))" if "\<not> link_key k" for k i
    using that by (auto simp: asks_nothing_def links_consented_def)
  show ?thesis
  proof (cases c)
    case (Pair_Close b)
    then show ?thesis using put [of b]
      by (auto simp: run_calm_command_def if_step_def consent_ok_def)
  next
    case (Row_Put i)
    then show ?thesis using other by (auto simp: run_calm_command_def split: option.split)
  qed (use put drop in \<open>auto simp: run_calm_command_def if_step_def\<close>)
qed

lemma acts_calm:
  "acts run_calm_command t t' \<Longrightarrow> link_run t t' \<and> asks_nothing t t' \<and> (links_consented t \<longrightarrow> links_consented t')"
proof -
  let ?ok = "\<lambda>t t'. link_run t t' \<and> asks_nothing t t' \<and> (links_consented t \<longrightarrow> links_consented t')"
  have one: "?ok t (run_calm_command c t)" for c t
    using run_link_command_run calm_step [of t c] by (simp add: run_calm_command_def)
  have join: "?ok a b \<Longrightarrow> ?ok b c \<Longrightarrow> ?ok a c" for a b c
    by (blast intro: link_run_trans asks_nothing_trans)
  have "?ok t (fold run_calm_command cs t)" for cs t
  proof (induction cs arbitrary: t)
    case (Cons c cs)
    from join [OF one Cons.IH] show ?case by simp
  qed simp
  then show "acts run_calm_command t t' \<Longrightarrow> link_run t t' \<and> asks_nothing t t' \<and> (links_consented t \<longrightarrow> links_consented t')"
    by (auto simp: acts_def)
qed

abbreviation calm_db :: "link_command world db" where
  "calm_db \<equiv> world_db run_calm_command"

interpretation calm_links: consent_client calm_db tbl "acts run_calm_command"
  by unfold_locales (simp_all add: acts_calm)

interpretation lone_consent: consent_client table_db "\<lambda>t. t" "(=)"
  by unfold_locales simp_all

end
