(* ===== verification/Link_Life.thy ===== *)
theory Link_Life
  imports Link_Consent
begin

text \<open>
  What a successful call of the link services says: about the moments at which it read and wrote
  when others act in between, and about its whole effect when nobody does.
\<close>

section \<open>Stages that succeed\<close>

lemma stage_Inr:
  assumes "(case m of (Inl e, w1) \<Rightarrow> (Inl (g e), w1) | (Inr x, w1) \<Rightarrow> f x w1) = (Inr r, w')"
  obtains x w1 where "m = (Inr x, w1)" "f x w1 = (Inr r, w')"
  using assms by (auto split: prod.splits sum.splits)

lemma from_repo_Inr: "from_repo x = (Inr r, w') \<Longrightarrow> x = (Inr r, w')"
  by (auto simp: from_repo_def split: prod.splits sum.splits)

section \<open>A closed link\<close>

context link_client
begin

lemma commit_link_Inr:
  assumes "commit_link db (map (\<lambda>(k, c). Check k c) checks @ put_both b cf cr) b w = (Inr b', w')"
  obtains t where "env (rows w) t" "env (pair_put b t) (rows w')" "b' = b"
    "cond_holds cf (row_at t (pair_key b))" "cond_holds cr (row_at t (mirror_key b))"
proof -
  let ?ops = "map (\<lambda>(k, c). Check k c) checks @ put_both b cf cr"
  from assms have tx: "db_tx db ?ops w = (True, w')" and b': "b' = b"
    by (auto simp: commit_link_def split: prod.splits bool.splits)
  from tx_committed [OF tx] obtain t t' where t: "env (rows w) t" "tx_apply ?ops t = Some t'" "env t' (rows w')"
    by blast
  from fence_checks [OF t(2)] t b' that show thesis by blast
qed

lemma closed_bodyD:
  assumes "closed_body rt p s i u m = Inr b"
  shows "lk_parent b = p \<and> lk_student b = s \<and> lk_status b = ''rejected''"
  using assms by (auto simp: closed_body_def link_body_def split: sum.splits if_splits)

lemma close_link_Inr:
  assumes "close_link db rt p s ps ss u m w = (Inr b, w')"
  shows "\<exists>b0 cf cr. commit_link db (put_both b0 cf cr) b0 w = (Inr b, w')
    \<and> lk_parent b0 = strip p \<and> lk_student b0 = strip s \<and> lk_status b0 = ''rejected''"
  using assms
  by (auto simp: close_link_def Let_def split: sum.splits if_splits prod.splits list.splits
      dest!: closed_bodyD required_field_InrD)

lemma revoke_ends:
  assumes "revoke db rt p s actor m w = (Inr (Some v), w')"
  obtains t where "link_run (rows w) t" "link_run t (rows w')"
    "side_status t (parent_side_key (strip p) (strip s)) ''rejected''"
    "side_status t (student_side_key (strip s) (strip p)) ''rejected''"
    "standing v = KNOWN"
proof -
  from assms obtain f w1 g w2 ps ss b where c: "get_parent_side_link db p s w = (f, w1)"
      "get_student_side_link db s p w1 = (g, w2)" "close_link db rt p s ps ss actor m w2 = (Inr b, w')"
    and v: "standing v = KNOWN"
    by (auto simp: revoke_def Let_def split: if_splits prod.splits sum.splits)
  from close_link_Inr [OF c(3)] obtain b0 cf cr where
    call: "commit_link db (map (\<lambda>(k, c). Check k c) [] @ put_both b0 cf cr) b0 w2 = (Inr b, w')"
    and b0: "lk_parent b0 = strip p" "lk_student b0 = strip s" "lk_status b0 = ''rejected''" by auto
  from call obtain t where t: "env (rows w2) t" "env (pair_put b0 t) (rows w')" and "b = b0"
    by (rule commit_link_Inr)
  with b0 have b: "lk_parent b = strip p" "lk_student b = strip s" "lk_status b = ''rejected''" by simp_all
  from t \<open>b = b0\<close> have t: "env (rows w2) t" "env (pair_put b t) (rows w')" by simp_all
  have "link_run (rows w) t"
    by (rule link_run_trans [OF env_run [OF env_trans [OF side_get_env(1) [OF c(1)] side_get_env(2) [OF c(2)]]]
          env_run [OF t(1)]])
  moreover have "link_run t (pair_put b t)" by (intro link_run_step link_step.closing b)
  ultimately have "link_run (rows w) (pair_put b t)" by (rule link_run_trans)
  moreover note env_run [OF t(2)]
  moreover have "side_status (pair_put b t) (parent_side_key (strip p) (strip s)) ''rejected''"
    "side_status (pair_put b t) (student_side_key (strip s) (strip p)) ''rejected''"
    using side_status_put [of b t "''rejected''"] b by auto
  ultimately show thesis using v by (rule that)
qed

section \<open>A confirmed link\<close>

text \<open>Both sides were adults when the confirmation read them.\<close>

lemma confirm_adults:
  assumes "confirm_link db rt age p s actor m w = (Inr b, w')"
  obtains t t' where "link_run (rows w) t" "link_run t t'" "link_run t' (rows w')"
    "\<not> account_is_minor (t (profile_key p)) (moment_of rt (PStr m)) age"
    "\<not> account_is_minor (t' (profile_key s)) (moment_of rt (PStr m)) age"
proof -
  from assms [unfolded confirm_link_def answer_pending_def Let_def] obtain i w1 where
    1: "pending_link db rt p s (moment_of rt (PStr m)) w = (Inr i, w1)"
    and rest: "(case confirmer_side rt i of Inl e \<Rightarrow> (Inl e, w1)
      | Inr confirmer \<Rightarrow>
          if actor \<noteq> confirmer \<or> PStr actor = item_get i ''created_by''
          then (Inl (Refused LINK_CONFIRMATION_NOT_ALLOWED), w1)
          else (case capable_consent db age True p s (moment_of rt (PStr m)) w1 of
              (Inl e, w2) \<Rightarrow> (Inl e, w2)
            | (Inr _, w2) \<Rightarrow> from_repo (transition_link db rt p s ''pending'' ''active'' actor m w2))) = (Inr b, w')"
    by (rule stage_Inr)
  from rest obtain x w4 where 2: "capable_consent db age True p s (moment_of rt (PStr m)) w1 = (Inr x, w4)"
    and 3: "from_repo (transition_link db rt p s ''pending'' ''active'' actor m w4) = (Inr b, w')"
    by (auto split: sum.splits if_splits elim!: stage_Inr)
  from 2 obtain parent student w2 where g: "get_user db p w1 = (Inr parent, w2)"
      "get_user db s w2 = (Inr student, w4)"
      "\<not> minor_among [parent, student] (moment_of rt (PStr m)) age"
    by (auto simp: capable_consent_def split: prod.splits sum.splits if_splits)
  have "link_run (rows w) (rows w2)"
    by (rule link_run_trans [OF pending_link_run [OF 1] env_run [OF get_user_env [OF g(1)]]])
  moreover have "link_run (rows w2) (rows w4)" by (rule env_run [OF get_user_env [OF g(2)]])
  moreover have "link_run (rows w4) (rows w')" by (rule transition_served_run [OF _ 3]) simp
  moreover have "\<not> account_is_minor (rows w2 (profile_key p)) (moment_of rt (PStr m)) age"
    "\<not> account_is_minor (rows w4 (profile_key s)) (moment_of rt (PStr m)) age"
    using g(3) get_user_row [OF g(1)] get_user_row [OF g(2)] by (auto simp: minor_among_def)
  ultimately show thesis by (rule that)
qed

end

section \<open>A request that succeeds\<close>

text \<open>
  A stored link that may be asked for again: a refusal seven days old, or a request unanswered for
  fourteen. A stamp that cannot be read holds nobody back; a clock that cannot be read does not make a
  request old.
\<close>

definition may_be_asked_again :: "runtime \<Rightarrow> item \<Rightarrow> stamp option \<Rightarrow> bool" where
  "may_be_asked_again rt i clock \<longleftrightarrow>
     (item_get i ''status'' = PStr ''rejected''
        \<and> (\<forall>s c. settled_at rt i = Some s \<longrightarrow> clock = Some c \<longrightarrow> instant s + REJECTED_COOLDOWN \<le> instant c))
     \<or> (item_get i ''status'' = PStr ''pending''
        \<and> (\<forall>s. settled_at rt i = Some s \<longrightarrow> (\<exists>c. clock = Some c \<and> instant s + PENDING_REQUEST_TTL \<le> instant c)))"

lemma reclaimable_may_be_asked:
  "refuse_unless_reclaimable rt i clock = None \<Longrightarrow> may_be_asked_again rt i clock"
  by (auto simp: refuse_unless_reclaimable_def may_be_asked_again_def pending_expired_def
      cooldown_remaining_def Let_def split: pyval.splits if_splits option.splits)

text \<open>Both rows of a pair still have the status and the stamp that were read on one of them.\<close>

definition still_settled :: "runtime \<Rightarrow> item \<Rightarrow> link \<Rightarrow> table \<Rightarrow> bool" where
  "still_settled rt i b u \<longleftrightarrow>
     (\<forall>k\<in>{pair_key b, mirror_key b}. item_get (row_at u k) ''status'' = item_get i ''status''
        \<and> item_get (row_at u k) ''link_updated_at'' = PStr (strip (str_or rt (item_get i ''link_updated_at'') [])))"

text \<open>A request written in its turn: over nothing, or over what may be asked for again.\<close>

definition in_turn :: "runtime \<Rightarrow> stamp option \<Rightarrow> link \<Rightarrow> table \<Rightarrow> table \<Rightarrow> bool" where
  "in_turn rt clock b t u \<longleftrightarrow>
     (side_free u (pair_key b) \<and> side_free u (mirror_key b))
     \<or> (\<exists>i. t (pair_key b) = Some i \<and> may_be_asked_again rt i clock \<and> still_settled rt i b u)"

context link_client
begin

lemma fenced_write_Inr:
  assumes "fenced_write db b c w = (Inr b', w')"
  obtains u where "env (rows w) u" "env (pair_put b u) (rows w')" "b' = b"
    "cond_holds c (row_at u (pair_key b))" "cond_holds c (row_at u (mirror_key b))"
proof -
  from assms [unfolded fenced_write_def] obtain fs w1 where
    fs: "participant_fence_conditions db (lk_parent b) (lk_student b) w = (Inr fs, w1)"
    and w: "commit_link db (fs @ put_both b c c) b w1 = (Inr b', w')"
    by (rule stage_Inr)
  from fs obtain checks where "fs = map (\<lambda>(k, c). Check k c) checks"
    by (rule participant_fence_conditions_checks)
  with w have "commit_link db (map (\<lambda>(k, c). Check k c) checks @ put_both b c c) b w1 = (Inr b', w')" by simp
  then show thesis
    by (rule commit_link_Inr) (rule that [OF env_trans [OF participant_fence_conditions_env [OF fs]]])
qed

lemma create_link_Inr:
  assumes "create_link db rq w = (Inr b, w')"
  obtains u where "env (rows w) u" "env (pair_put b u) (rows w')" "requested_body rq = Inr b"
    "side_free u (pair_key b)" "side_free u (mirror_key b)"
proof -
  from assms obtain b' where b': "requested_body rq = Inr b'" "fenced_write db b' create_only w = (Inr b, w')"
    by (auto simp: create_link_def split: sum.splits)
  from b'(2) show thesis
    by (rule fenced_write_Inr) (use that b'(1) create_only_side in blast)
qed

lemma reclaim_settled_Inr:
  assumes "reclaim_settled db rt i rq w = (Inr b, w')" "item_get i ''status'' \<in> {PStr ''pending'', PStr ''rejected''}"
  obtains u where "env (rows w) u" "env (pair_put b u) (rows w')" "requested_body rq = Inr b" "still_settled rt i b u"
proof -
  let ?old = "str_or rt (item_get i ''status'') []" and ?st = "str_or rt (item_get i ''link_updated_at'') []"
  have old: "item_get i ''status'' = PStr (strip ?old)" using assms(2) by (auto simp: strip_known)
  from from_repo_Inr [OF assms(1) [unfolded reclaim_settled_def]] obtain x w1 where
    1: "both_sides_stored db (strip (lr_parent rq)) (strip (lr_student rq)) w = (x, w1)"
    and 2: "requested_body rq = Inr b" "fenced_write db b (stamp_condition (strip ?old) (strip ?st)) w1 = (Inr b, w')"
    by (auto simp: reclaim_link_def split: sum.splits if_splits prod.splits
        dest!: required_field_InrD checked_statusD elim: fenced_write_Inr)
  from 2(2) show thesis
  proof (rule fenced_write_Inr)
    fix u
    assume u: "env (rows w1) u" "env (pair_put b u) (rows w')"
      and c: "cond_holds (stamp_condition (strip ?old) (strip ?st)) (row_at u (pair_key b))"
        "cond_holds (stamp_condition (strip ?old) (strip ?st)) (row_at u (mirror_key b))"
    have "still_settled rt i b u"
      using stamp_condition_side [OF c(1)] stamp_condition_side [OF c(2)] old
      by (auto simp: still_settled_def side_status_def side_stamp_def)
    with u 2(1) env_trans [OF both_sides_stored_env [OF 1] u(1)] show thesis by (intro that)
  qed
qed

lemma settled_pair_read:
  assumes "settled_pair db p s w = (Inr (Some i), w')"
  obtains t where "env (rows w) t" "env t (rows w')" "t (parent_side_key (strip p) (strip s)) = Some i"
proof -
  from assms obtain f w1 r where f: "get_parent_side_link db p s w = (Inr f, w1)"
    and r: "get_student_side_link db s p w1 = (Inr r, w')" and i: "settled_rows f r = Some i"
    by (auto simp: settled_pair_def split: prod.splits sum.splits)
  from i have "f = Some i" by (auto simp: settled_rows_def split: option.splits if_splits)
  with side_get_row(1) [OF f] show thesis
    using that [OF side_get_env(1) [OF f] side_get_env(2) [OF r]] by simp
qed

lemma propose_pair_turn:
  assumes "propose_pair db rt age p s init q rel m w = (Inr b, w')"
  shows "lk_status b = ''pending'' \<and> (\<exists>t u. env (rows w) t \<and> env t u \<and> env (pair_put b u) (rows w')
    \<and> in_turn rt (moment_of rt (PStr m)) b t u)"
proof -
  let ?rq = "\<lparr>lr_parent = p, lr_student = s, lr_relationship = rel, lr_status = ''pending'',
      lr_initiator = init, lr_created_by = q, lr_linked_at = m\<rparr>"
  let ?go = "\<lambda>settled w3. case settled of None \<Rightarrow> from_repo (create_link db ?rq w3)
      | Some i \<Rightarrow> (case refuse_unless_reclaimable rt i (moment_of rt (PStr m)) of
          Some e \<Rightarrow> (Inl e, w3) | None \<Rightarrow> reclaim_settled db rt i ?rq w3)"
  from assms [unfolded propose_pair_def Let_def] obtain x w1 where 1: "account_of db p ''parent'' w = (Inr x, w1)"
    and r1: "(case account_of db s ''student'' w1 of (Inl e, w2) \<Rightarrow> (Inl e, w2) | (Inr student, w2) \<Rightarrow>
        if minor_among [Some x, Some student] (moment_of rt (PStr m)) age
        then (Inl (Refused LINK_REQUIRES_ADMINISTRATOR), w2)
        else case settled_pair db p s w2 of (Inl e, w3) \<Rightarrow> (Inl e, w3) | (Inr settled, w3) \<Rightarrow> ?go settled w3) = (Inr b, w')"
    by (rule stage_Inr)
  from r1 obtain y w2 where 2: "account_of db s ''student'' w1 = (Inr y, w2)"
    and r2: "(if minor_among [Some x, Some y] (moment_of rt (PStr m)) age
        then (Inl (Refused LINK_REQUIRES_ADMINISTRATOR), w2)
        else case settled_pair db p s w2 of (Inl e, w3) \<Rightarrow> (Inl e, w3) | (Inr settled, w3) \<Rightarrow> ?go settled w3) = (Inr b, w')"
    by (rule stage_Inr)
  note before = env_trans [OF account_of_env [OF 1] account_of_env [OF 2]]
  from r2 obtain settled w3 where 3: "settled_pair db p s w2 = (Inr settled, w3)" and r3: "?go settled w3 = (Inr b, w')"
    by (auto split: if_splits elim!: stage_Inr)
  have status: "lk_status b = ''pending''" if "requested_body ?rq = Inr b"
    using requested_bodyD(1) [OF that] checked_statusD by (fastforce simp: strip_known)
  show ?thesis
  proof (cases settled)
    case None
    with r3 have "create_link db ?rq w3 = (Inr b, w')" by (auto dest: from_repo_Inr)
    then show ?thesis
    proof (rule create_link_Inr)
      fix u
      assume u: "env (rows w3) u" "env (pair_put b u) (rows w')" "requested_body ?rq = Inr b"
        "side_free u (pair_key b)" "side_free u (mirror_key b)"
      from u(4,5) have "in_turn rt (moment_of rt (PStr m)) b (rows w3) u" by (simp add: in_turn_def)
      with u(1,2) status [OF u(3)] env_trans [OF before settled_pair_env [OF 3]] show ?thesis by blast
    qed
  next
    case (Some i)
    with r3 have free: "refuse_unless_reclaimable rt i (moment_of rt (PStr m)) = None"
      and again: "reclaim_settled db rt i ?rq w3 = (Inr b, w')"
      by (auto split: option.splits)
    obtain t where t: "env (rows w2) t" "env t (rows w3)" "t (parent_side_key (strip p) (strip s)) = Some i"
      by (rule settled_pair_read [OF 3 [unfolded Some]])
    from again refuse_unless_reclaimable_None [OF free] show ?thesis
    proof (rule reclaim_settled_Inr)
      fix u
      assume u: "env (rows w3) u" "env (pair_put b u) (rows w')" "requested_body ?rq = Inr b" "still_settled rt i b u"
      from requested_bodyD(2,3) [OF u(3)] t(3) u(4) reclaimable_may_be_asked [OF free]
      have "in_turn rt (moment_of rt (PStr m)) b t u" by (auto simp: in_turn_def)
      with u(2) status [OF u(3)] env_trans [OF before t(1)] env_trans [OF t(2) u(1)] show ?thesis by blast
    qed
  qed
qed

lemma request_link_turn:
  assumes "resolver_within env rows resolver" and "request_link db rt age resolver q i n rel m w = (Inr b, w')"
  shows "lk_status b = ''pending'' \<and> (\<exists>t u. env (rows w) t \<and> env t u \<and> env (pair_put b u) (rows w')
    \<and> in_turn rt (moment_of rt (PStr m)) b t u)"
proof -
  from assms(2) [unfolded request_link_def] obtain role w1 where 1: "role_of db q w = (Inr role, w1)"
    and r: "(if role \<noteq> ''parent'' \<and> role \<noteq> ''student'' then (Inl (Refused LINK_INITIATOR_NOT_ALLOWED), w1)
      else case resolve_counterpart resolver i n w1 of (Inl e, w2) \<Rightarrow> (Inl e, w2)
        | (Inr target, w2) \<Rightarrow> (case target of None \<Rightarrow> (Inl (Refused LINK_TARGET_NOT_FOUND), w2)
           | Some u \<Rightarrow> if u = [] \<or> u = q then (Inl (Refused LINK_TARGET_NOT_FOUND), w2)
               else if role = ''parent''
               then propose_pair db rt age q u ''parent'' q rel m w2
               else propose_pair db rt age u q ''student'' q rel m w2)) = (Inr b, w')"
    by (rule stage_Inr)
  obtain x w2 where 2: "resolve_counterpart resolver i n w1 = (x, w2)" by fastforce
  have "env (rows w1) (rows w2)"
    using 2 assms(1) by (auto simp: resolve_counterpart_def resolver_within_def env_refl split: option.splits list.splits)
  note before = env_trans [OF role_of_env [OF 1] this]
  from r 2 obtain u where "propose_pair db rt age q u ''parent'' q rel m w2 = (Inr b, w')
      \<or> propose_pair db rt age u q ''student'' q rel m w2 = (Inr b, w')"
    by (auto split: sum.splits option.splits if_splits)
  then have b: "lk_status b = ''pending''" and later: "\<exists>t u. env (rows w2) t \<and> env t u \<and> env (pair_put b u) (rows w')
      \<and> in_turn rt (moment_of rt (PStr m)) b t u"
    using propose_pair_turn by blast+
  from later obtain t u where "env (rows w2) t" "env t u" "env (pair_put b u) (rows w')" "in_turn rt (moment_of rt (PStr m)) b t u"
    by blast
  with b env_trans [OF before] show ?thesis by blast
qed

end

section \<open>From assignment to revocation\<close>

lemma quiet_fence:
  assumes "fence_active t u g" "1 \<le> g" "strip u \<noteq> []" "reads_as db w t"
  obtains c where "participant_fence db u w = (Inr (Check (''USER#'' @ strip u, ''ACCOUNT_FENCE'') c), w)"
    "op_ok t (Check (''USER#'' @ strip u, ''ACCOUNT_FENCE'') c)"
proof -
  from fence_read_passes [OF assms] obtain fence where
    "require_active_account_fence db u None w = (Inr fence, w)" "fence_generation fence = g" .
  moreover from fence_condition_holds [OF assms(1-3)] obtain c where
    "active_fence_condition u (Some g) = Inr (Check (''USER#'' @ strip u, ''ACCOUNT_FENCE'') c)"
    "op_ok t (Check (''USER#'' @ strip u, ''ACCOUNT_FENCE'') c)" .
  ultimately show thesis by (intro that) (simp_all add: participant_fence_def)
qed

text \<open>Both fences pass, the condition holds on both sides: the write goes through.\<close>

lemma quiet_fenced_write:
  assumes p: "fence_active t (lk_parent b) g" "1 \<le> g" "strip (lk_parent b) \<noteq> []"
    and s: "fence_active t (lk_student b) h" "1 \<le> h" "strip (lk_student b) \<noteq> []"
    and apart: "strip (lk_parent b) \<noteq> strip (lk_student b)"
    and c: "cond_holds c (row_at t (pair_key b))" "cond_holds c (row_at t (mirror_key b))"
    and w: "reads_as db w t" and tx: "\<And>ops t'. tx_apply ops t = Some t' \<Longrightarrow> db_tx db ops w = (True, w' t')"
  shows "fenced_write db b c w = (Inr b, w' (pair_put b t))"
proof -
  obtain c1 where 1: "participant_fence db (lk_parent b) w
      = (Inr (Check (''USER#'' @ strip (lk_parent b), ''ACCOUNT_FENCE'') c1), w)"
    "op_ok t (Check (''USER#'' @ strip (lk_parent b), ''ACCOUNT_FENCE'') c1)" by (rule quiet_fence [OF p w])
  obtain c2 where 2: "participant_fence db (lk_student b) w
      = (Inr (Check (''USER#'' @ strip (lk_student b), ''ACCOUNT_FENCE'') c2), w)"
    "op_ok t (Check (''USER#'' @ strip (lk_student b), ''ACCOUNT_FENCE'') c2)" by (rule quiet_fence [OF s w])
  let ?ops = "[Check (''USER#'' @ strip (lk_parent b), ''ACCOUNT_FENCE'') c1,
    Check (''USER#'' @ strip (lk_student b), ''ACCOUNT_FENCE'') c2] @ put_both b c c"
  have "tx_apply ?ops t = Some (pair_put b t)"
    using 1(2) 2(2) c apart
    by (simp add: tx_apply_def put_both_def both_sides_def op_ok_Put pair_put_def parent_side_key_def
        student_side_key_def)
  from tx [OF this] 1(1) 2(1) show ?thesis
    by (simp add: fenced_write_def participant_fence_conditions_def commit_link_def)
qed

lemma table_tx_ok: "tx_apply ops t = Some t' \<Longrightarrow> db_tx table_db ops t = (True, t')"
  by (simp add: table_db_def table_tx_def)

lemma silent_tx_ok:
  "tx_apply ops t = Some t' \<Longrightarrow>
    db_tx (world_db act) ops \<lparr>tbl = t, script = []\<rparr> = (True, \<lparr>tbl = t', script = []\<rparr>)"
  by (simp add: silent_tx)

text \<open>Reads that answer from \<open>t\<close>.\<close>

lemma quiet_get_user: "reads_as db w t \<Longrightarrow> get_user db u w = (Inr (t (profile_key u)), w)"
  by (simp add: get_user_def reads_as_get split: option.splits)

lemma quiet_sides:
  assumes "reads_as db w t" "strip p = p" "strip s = s" "p \<noteq> []" "s \<noteq> []"
  shows "get_parent_side_link db p s w = (Inr (t (parent_side_key p s)), w)"
    and "get_student_side_link db s p w = (Inr (t (student_side_key s p)), w)"
  using assms
  by (simp_all add: get_parent_side_link_def get_student_side_link_def keyed_get_def required_field_def
      link_get_def reads_as_get split: option.splits)

text \<open>Two accounts ready to be linked: both usable, both fences active, nothing stored for the pair.\<close>

definition family_ready :: "table \<Rightarrow> string \<Rightarrow> string \<Rightarrow> int \<Rightarrow> int \<Rightarrow> bool" where
  "family_ready t p s g h =
     (strip p = p \<and> strip s = s \<and> p \<noteq> [] \<and> s \<noteq> [] \<and> p \<noteq> s
      \<and> usable_account (t (profile_key p)) p ''parent'' \<and> usable_account (t (profile_key s)) s ''student''
      \<and> fence_active t p g \<and> 1 \<le> g \<and> fence_active t s h \<and> 1 \<le> h
      \<and> t (parent_side_key p s) = None \<and> t (student_side_key s p) = None)"

definition assigned :: "string \<Rightarrow> string \<Rightarrow> string \<Rightarrow> string \<Rightarrow> string \<Rightarrow> link" where
  "assigned p s actor rel m = \<lparr>lk_parent = p, lk_student = s, lk_relationship = strip rel,
     lk_status = ''active'', lk_initiator = ''admin'', lk_created_by = strip actor,
     lk_linked_at = strip m, lk_updated_by = strip actor, lk_stamp = strip m\<rparr>"

lemma profile_key_apart [simp]:
  "profile_key u \<noteq> parent_side_key p s" "profile_key u \<noteq> student_side_key s p"
  by (simp_all add: profile_key_def parent_side_key_def student_side_key_def)

lemma pair_put_profile [simp]: "pair_put b t (profile_key u) = t (profile_key u)"
  by (simp add: pair_put_other)

lemmas lone_get_user [simp] = quiet_get_user [OF table_reads_as]
lemmas lone_sides [simp] = quiet_sides [OF table_reads_as]

lemma assign_grants:
  assumes "family_ready t p s g h" "strip actor \<noteq> []" "strip rel \<noteq> []" "strip m \<noteq> []"
  shows "assign_link table_db rt p s actor rel m t = (Inr (assigned p s actor rel m), pair_put (assigned p s actor rel m) t)"
proof -
  from assms(1) have f: "strip p = p" "strip s = s" "p \<noteq> []" "s \<noteq> []" "p \<noteq> s"
    "usable_account (t (profile_key p)) p ''parent''" "usable_account (t (profile_key s)) s ''student''"
    "fence_active t p g" "1 \<le> g" "fence_active t s h" "1 \<le> h"
    "t (parent_side_key p s) = None" "t (student_side_key s p) = None"
    by (simp_all add: family_ready_def)
  let ?b = "assigned p s actor rel m"
  let ?rq = "\<lparr>lr_parent = p, lr_student = s, lr_relationship = rel, lr_status = ''active'', lr_initiator = ''admin'',
    lr_created_by = actor, lr_linked_at = m\<rparr>"
  have admin: "strip ''admin'' = ''admin''" by code_simp
  have body: "requested_body ?rq = Inr ?b"
    using f assms(2-4)
    by (simp add: requested_body_def required_field_def checked_status_def strip_known admin link_body_def
        KNOWN_STATUSES_def KNOWN_INITIATORS_def assigned_def)
  have "fenced_write table_db ?b create_only t = (Inr ?b, pair_put ?b t)"
  proof (rule quiet_fenced_write [where g = g and h = h and w' = "\<lambda>t. t", OF _ _ _ _ _ _ _ _ _ table_reads_as table_tx_ok])
    show "cond_holds create_only (row_at t (pair_key ?b))" "cond_holds create_only (row_at t (mirror_key ?b))"
      using f by (simp_all add: assigned_def row_at_def)
  qed (use f in \<open>simp_all add: assigned_def\<close>)
  with f body show ?thesis
    by (simp add: assign_link_def account_of_def settled_pair_def settled_rows_def create_link_def from_repo_def)
qed

lemma judge_pair_put:
  assumes "strip p = p" "strip s = s" "p \<noteq> []" "s \<noteq> []" "lk_parent b = p" "lk_student b = s" "lk_stamp b \<noteq> []"
    and "usable_account (t (profile_key p)) p ''parent''" "usable_account (t (profile_key s)) s ''student''"
  shows "\<exists>v. judge table_db rt p s (pair_put b t) = (Inr v, pair_put b t)
    \<and> standing v = (if lk_status b = ''active'' then CURRENT else KNOWN)"
  using assms pair_put_sides [of b t]
  by (auto simp: judge_def judge_rows_def about_pair_def rows_current_def row_lookup)

lemma assigned_pair_current:
  assumes "family_ready t p s g h" "strip actor \<noteq> []" "strip rel \<noteq> []" "strip m \<noteq> []"
  shows "\<exists>v. judge table_db rt p s (snd (assign_link table_db rt p s actor rel m t))
      = (Inr v, snd (assign_link table_db rt p s actor rel m t)) \<and> is_current v"
proof -
  have "\<exists>v. judge table_db rt p s (pair_put (assigned p s actor rel m) t)
      = (Inr v, pair_put (assigned p s actor rel m) t)
    \<and> standing v = (if lk_status (assigned p s actor rel m) = ''active'' then CURRENT else KNOWN)"
    using assms by (intro judge_pair_put) (auto simp: family_ready_def assigned_def)
  then show ?thesis by (simp add: assign_grants [OF assms] is_current_def assigned_def)
qed

text \<open>Revoking what was assigned, at a later stamp, ends it for both sides.\<close>

lemma revoke_assigned:
  assumes ready: "family_ready t p s g h" "strip actor \<noteq> []" "strip rel \<noteq> []" "strip m \<noteq> []"
    and "strip admin \<noteq> []" "strip later \<noteq> []" "strip later \<noteq> strip m"
    and w: "reads_as db w (pair_put (assigned p s actor rel m) t)"
    and tx: "\<And>ops t'. tx_apply ops (pair_put (assigned p s actor rel m) t) = Some t' \<Longrightarrow> db_tx db ops w = (True, w' t')"
  obtains v b where "revoke db rt p s admin later w
      = (Inr (Some v), w' (pair_put b (pair_put (assigned p s actor rel m) t)))"
    "lk_parent b = p" "lk_student b = s" "lk_status b = ''rejected''" "lk_stamp b = strip later"
proof -
  let ?a = "assigned p s actor rel m"
  let ?t = "pair_put ?a t"
  let ?f = "stored_item (side_item (parent_side_key p s) ?a)"
  let ?r = "stored_item (side_item (student_side_key s p) ?a)"
  from ready(1) have f: "strip p = p" "strip s = s" "p \<noteq> []" "s \<noteq> []" by (simp_all add: family_ready_def)
  have rows: "?t (parent_side_key p s) = Some ?f" "?t (student_side_key s p) = Some ?r"
    using pair_put_sides [of ?a t] by (simp_all add: assigned_def)
  define b where "b = \<lparr>lk_parent = p, lk_student = s, lk_relationship = strip rel, lk_status = ''rejected'',
    lk_initiator = ''admin'', lk_created_by = strip actor, lk_linked_at = strip m, lk_updated_by = strip admin,
    lk_stamp = strip later\<rparr>"
  have body: "closed_body rt p s ?f admin (strip later) = Inr b"
    using assms by (simp add: closed_body_def required_field_def row_lookup assigned_def link_body_def
        KNOWN_INITIATORS_def b_def)
  let ?c = "stamp_condition ''active'' (strip m)"
  have read: "as_read (Some i) = Inr ?c" if "i = ?f \<or> i = ?r" for i
    using that assms(4)
    by (cases "strip m") (auto simp: as_read_def row_lookup assigned_def required_field_def strip_known)
  have holds: "cond_holds ?c (row_at ?t (pair_key b))" "cond_holds ?c (row_at ?t (mirror_key b))"
    using rows by (simp_all add: b_def row_at_def stamp_condition_def status_condition_def side_item_def
        dict_of_def link_attributes_def assigned_def stored_item_def item_get_def)
  have "tx_apply (put_both b ?c ?c) ?t = Some (pair_put b ?t)"
    using holds by (simp add: tx_apply_def put_both_def both_sides_def op_ok_Put pair_put_def)
  note call = tx [OF this]
  have "close_link db rt p s (Some ?f) (Some ?r) admin later w = (Inr b, w' (pair_put b ?t))"
    using f assms(6,7) body read [of ?f] read [of ?r] call
    by (simp add: close_link_def required_field_def option_list_def row_lookup assigned_def [of p s actor rel m]
        commit_link_def)
  with quiet_sides [OF w f(1,2,3,4)] f rows
  have "\<exists>v. revoke db rt p s admin later w = (Inr (Some v), w' (pair_put b ?t))"
    by (simp add: revoke_def about_pair_def option_list_def row_lookup assigned_def)
  then show thesis using that [of _ b] by (auto simp: b_def)
qed

end
