(* ===== verification/Link_Properties.thy ===== *)
theory Link_Properties
  imports Link_Life
begin

text \<open>
  The properties of the parent-student links, each with a concrete family on which it applies:
  parent \<open>p1\<close> and student \<open>s1\<close>, both adults with active accounts, on a table that other clients
  use at the same time or that is used by one client after another.
\<close>

section \<open>A family\<close>

definition account_row :: "string \<Rightarrow> string \<Rightarrow> item" where
  "account_row u role = dict_of [(''PK'', PStr (''USER#'' @ u)), (''SK'', PStr ''PROFILE''), (''user_id'', PStr u),
     (''role'', PStr role), (''account_status'', PStr ''active''), (''date_of_birth'', PStr ''1940-02-29'')]"

definition family_fence :: "string \<Rightarrow> item" where
  "family_fence u = dict_of [(''PK'', PStr (''USER#'' @ u)), (''SK'', PStr ''ACCOUNT_FENCE''),
     (''status'', PStr ''active''), (''generation'', PDec 1)]"

definition family_table :: table where
  "family_table = Map.empty(profile_key ''p1'' \<mapsto> account_row ''p1'' ''parent'',
     profile_key ''s1'' \<mapsto> account_row ''s1'' ''student'',
     (''USER#p1'', ''ACCOUNT_FENCE'') \<mapsto> family_fence ''p1'', (''USER#s1'', ''ACCOUNT_FENCE'') \<mapsto> family_fence ''s1'')"

lemma family_names:
  "strip ''p1'' = ''p1''" "strip ''s1'' = ''s1''" "strip ''a1'' = ''a1''" "strip ''child'' = ''child''"
  "strip ''us0'' = ''us0''" "strip ''us5'' = ''us5''" "strip ''us9'' = ''us9''"
  by code_simp+

lemma student_word: "strip ''student'' = ''student''"
  by code_simp

lemma family_no_links: "link_key k \<Longrightarrow> family_table k = None"
proof -
  assume k: "link_key k"
  have "\<not> link_key (''USER#p1'', x)" "\<not> link_key (''USER#s1'', x)" for x
    by (simp_all add: link_key_def)
  with k have "fst k \<noteq> ''USER#p1''" "fst k \<noteq> ''USER#s1''" by (metis prod.collapse)+
  then show ?thesis by (cases k) (simp add: family_table_def profile_key_def)
qed

lemma family_facts: "links_agree family_table" "links_keyed family_table" "links_consented family_table"
  by (simp_all add: links_agree_def pair_agrees_def links_keyed_def links_consented_def own_row_def family_no_links)

lemma family_is_ready: "family_ready family_table ''p1'' ''s1'' 1 1"
proof -
  have "fence_active family_table ''p1'' 1" "fence_active family_table ''s1'' 1"
    by (simp_all add: fence_active_def family_names family_table_def profile_key_def family_fence_def row_lookup)
  moreover have "usable_account (family_table (profile_key ''p1'')) ''p1'' ''parent''"
    "usable_account (family_table (profile_key ''s1'')) ''s1'' ''student''"
    by (simp_all add: family_table_def profile_key_def account_row_def usable_account_def row_lookup py_or_def)
  ultimately show ?thesis by (simp add: family_ready_def family_names family_no_links)
qed

text \<open>What others do in the meantime: a request by the student, answered by the parent.\<close>

definition asked :: link where
  "asked = \<lparr>lk_parent = ''p1'', lk_student = ''s1'', lk_relationship = ''child'', lk_status = ''pending'',
     lk_initiator = ''student'', lk_created_by = ''s1'', lk_linked_at = ''us0'', lk_updated_by = ''s1'', lk_stamp = ''us0''\<rparr>"

definition granted_link :: link where
  "granted_link = asked\<lparr>lk_status := ''active'', lk_updated_by := ''p1'', lk_stamp := ''us5''\<rparr>"

definition busy :: "link_command world" where
  "busy = \<lparr>tbl = family_table,
     script = [([Pair_Create asked], Answered), ([Pair_Answer granted_link], Answer_Lost), ([Row_Drop (''x'', ''y'')], Dropped)]\<rparr>"

section \<open>Properties\<close>

text \<open>
  C17: the two rows of a parent-student pair never disagree. If the two sides of every stored pair
  say the same at the start, they do after any sequence of assignments, requests, confirmations,
  refusals and revocations, whatever other clients do to the links between their reads and their
  transactions, whichever calls are dropped and whichever answers are lost.
\<close>

theorem link_sides_agree:
  assumes "links_agree (tbl w)"
  shows "links_agree (tbl (fold (serve link_db rt age) calls w))"
  using link_run_agrees [OF shared_links.link_calls_run assms] .

theorem link_sides_agree_witness:
  "links_agree (tbl (fold (serve link_db plain_runtime 18)
     [Ask ''s1'' (Some ''p1'') ''child'' ''us0'', Confirm ''p1'' ''s1'' ''p1'' ''us5'', Revoke ''p1'' ''s1'' ''a1'' ''us9''] busy))"
  by (rule link_sides_agree) (simp add: busy_def family_facts)

text \<open>
  C18: an active link is never silently rewritten. After any calls among other clients the active row
  of a pair is still the very same row, or at some moment in between the link had been rejected
  or removed with its account.
\<close>

theorem active_link_only_ends:
  assumes "links_keyed (tbl w)" and "side_active (tbl w) (parent_side_key p s)"
    and "w' = fold (serve link_db rt age) calls w"
  shows "tbl w' (parent_side_key p s) = tbl w (parent_side_key p s)
    \<or> (\<exists>u. link_run (tbl w) u \<and> link_run u (tbl w') \<and> side_ended u (parent_side_key p s))"
  using active_run [OF shared_links.link_calls_run assms(1,2)] assms(3) by blast

abbreviation granted_table :: table where
  "granted_table \<equiv> pair_put granted_link family_table"

lemma granted_active: "side_active granted_table (parent_side_key ''p1'' ''s1'')"
  using side_status_put(1) [of granted_link family_table "''active''"]
  by (simp add: side_active_def granted_link_def asked_def)

theorem active_link_only_ends_witness:
  "\<exists>w'. w' = fold (serve link_db plain_runtime 18) [Assign ''p1'' ''s1'' ''a1'' ''child'' ''us9'']
        \<lparr>tbl = granted_table, script = [([Pair_Close (granted_link\<lparr>lk_status := ''rejected''\<rparr>)], Answered)]\<rparr>
    \<and> (tbl w' (parent_side_key ''p1'' ''s1'') = granted_table (parent_side_key ''p1'' ''s1'')
       \<or> (\<exists>u. link_run granted_table u \<and> link_run u (tbl w') \<and> side_ended u (parent_side_key ''p1'' ''s1'')))"
  using active_link_only_ends [of "\<lparr>tbl = granted_table, script = [([Pair_Close (granted_link\<lparr>lk_status := ''rejected''\<rparr>)], Answered)]\<rparr>"
      "''p1''" "''s1''" _ plain_runtime 18 "[Assign ''p1'' ''s1'' ''a1'' ''child'' ''us9'']"]
    pair_put_keyed [OF family_facts(2)] granted_active
  by simp

text \<open>
  C19: a current verdict is about a link that is in force. When the judge answers \<open>CURRENT\<close> there was
  a moment between its call and its answer at which the student's side of the pair was active and
  the parent's side was active too, unless it was just being removed with its account; so a pair
  whose link has ended on either side before the call is never judged current.
\<close>

theorem current_link_was_in_force:
  assumes "links_agree (tbl w)" and "judge link_db rt p s w = (Inr v, w')" and "is_current v"
  shows "\<exists>u. acts run_link_command (tbl w) u \<and> acts run_link_command u (tbl w')
    \<and> link_in_force u (strip p) (strip s)"
  using shared_links.judge_in_force [OF assms(2,3,1)] by blast

lemma granted_rows:
  "granted_table (parent_side_key ''p1'' ''s1'') = Some (stored_item (side_item (parent_side_key ''p1'' ''s1'') granted_link))"
  "granted_table (student_side_key ''s1'' ''p1'') = Some (stored_item (side_item (student_side_key ''s1'' ''p1'') granted_link))"
  using pair_put_sides [of granted_link family_table] by (simp_all add: granted_link_def asked_def)

lemma granted_judged:
  "judge link_db plain_runtime ''p1'' ''s1'' \<lparr>tbl = granted_table, script = []\<rparr> =
     (Inr (verdict_from_rows plain_runtime CURRENT ''p1'' ''s1'' (stored_item (side_item (parent_side_key ''p1'' ''s1'') granted_link))),
      \<lparr>tbl = granted_table, script = []\<rparr>)"
proof -
  let ?w = "\<lparr>tbl = granted_table, script = []\<rparr> :: link_command world"
  let ?f = "stored_item (side_item (parent_side_key ''p1'' ''s1'') granted_link)"
  let ?r = "stored_item (side_item (student_side_key ''s1'' ''p1'') granted_link)"
  have w: "reads_as link_db ?w granted_table" using silent_reads_as [of ?w run_link_command] by simp
  note user = quiet_get_user [OF w]
  note sides = quiet_sides [OF w family_names(1,2), unfolded granted_rows]
  have pair: "about_pair (Some ?f) ''p1'' ''s1''" "about_pair (Some ?r) ''p1'' ''s1''" "rows_current ?f ?r"
    by (simp_all add: about_pair_def rows_current_def row_lookup granted_link_def asked_def)
  from family_is_ready have "usable_account (family_table (profile_key ''p1'')) ''p1'' ''parent''"
    "usable_account (family_table (profile_key ''s1'')) ''s1'' ''student''" by (simp_all add: family_ready_def)
  with pair show ?thesis by (simp add: judge_def judge_rows_def sides user)
qed

theorem current_link_was_in_force_witness:
  "\<exists>u. acts run_link_command granted_table u \<and> acts run_link_command u granted_table
    \<and> link_in_force u ''p1'' ''s1''"
proof -
  have "links_agree (tbl \<lparr>tbl = granted_table, script = []\<rparr>)"
    using pair_put_agrees family_facts(1) by (simp add: links_agree_def)
  from current_link_was_in_force [OF this granted_judged] show ?thesis
    by (simp add: is_current_def family_names)
qed



text \<open>
  C21: a request only becomes visibility between adults. When a confirmation succeeds among other
  clients, each side's account row, as it stood at a moment of the call, showed a readable
  birthday that makes its holder an adult on the day of the clock; an unknown birthday, an
  unreadable clock or a missing account never confirms.
\<close>

theorem confirmation_needs_adults:
  assumes "confirm_link link_db rt age p s actor m w = (Inr b, w')"
  shows "\<exists>t t'. link_run (tbl w) t \<and> link_run t t' \<and> link_run t' (tbl w')
    \<and> \<not> account_is_minor (t (profile_key p)) (moment_of rt (PStr m)) age
    \<and> \<not> account_is_minor (t' (profile_key s)) (moment_of rt (PStr m)) age"
  using shared_links.confirm_adults [OF assms] by metis

abbreviation asked_table :: table where
  "asked_table \<equiv> pair_put asked family_table"

lemma asked_rows:
  "asked_table (parent_side_key ''p1'' ''s1'') = Some (stored_item (side_item (parent_side_key ''p1'' ''s1'') asked))"
  "asked_table (student_side_key ''s1'' ''p1'') = Some (stored_item (side_item (student_side_key ''s1'' ''p1'') asked))"
  using pair_put_sides [of asked family_table] by (simp_all add: asked_def)

lemma sample_clock: "moment_of plain_runtime (PStr ''us5'') = Some (Stamp 5 (Some 0))"
  "moment_of plain_runtime (PStr ''us0'') = Some (Stamp 0 (Some 0))"
proof -
  have "text_int ''5'' = 5" "text_int ''0'' = 0" by code_simp+
  then show "moment_of plain_runtime (PStr ''us5'') = Some (Stamp 5 (Some 0))"
    "moment_of plain_runtime (PStr ''us0'') = Some (Stamp 0 (Some 0))"
    by (simp_all add: moment_of_def family_names plain_runtime_def)
qed

lemma sample_date: "date_of 5 = (1970, 1, 1)"
proof -
  have y: "year_of 719163 = 1970" by (simp add: year_of_def)
  have "ordinal_of 5 = 719163" by (simp add: ordinal_of_def)
  moreover have "719163 - days_before_year 1970 = 1" by (simp add: days_before_year_def)
  ultimately show ?thesis by (simp add: date_of_def date_of_ordinal_def y month_lengths_def)
qed

lemma sample_birthday: "normalize_date_of_birth (PStr ''1940-02-29'') (1970, 1, 1) = Some (1940, 2, 29)"
  by code_simp

lemma sample_adults: "\<not> minor_among [family_table (profile_key ''p1''), family_table (profile_key ''s1'')]
    (Some (Stamp 5 (Some 0))) 18"
  by (simp add: minor_among_def account_is_minor_def is_minor_def family_table_def profile_key_def account_row_def
      row_lookup sample_date sample_birthday)

lemma sample_confirmation:
  "confirm_link link_db plain_runtime 18 ''p1'' ''s1'' ''p1'' ''us5'' \<lparr>tbl = asked_table, script = []\<rparr>
     = (Inr granted_link, \<lparr>tbl = pair_put granted_link asked_table, script = []\<rparr>)"
proof -
  let ?w = "\<lparr>tbl = asked_table, script = []\<rparr> :: link_command world"
  let ?f = "stored_item (side_item (parent_side_key ''p1'' ''s1'') asked)"
  have w: "reads_as link_db ?w asked_table" using silent_reads_as [of ?w run_link_command] by simp
  note user = quiet_get_user [OF w]
  note sides = quiet_sides [OF w family_names(1,2), unfolded asked_rows]
  have "settled_at plain_runtime ?f = Some (Stamp 0 (Some 0))"
    using sample_clock(2) by (simp add: settled_at_def row_lookup asked_def)
  then have "\<not> pending_expired plain_runtime ?f (Some (Stamp 5 (Some 0)))"
    by (simp add: pending_expired_def PENDING_REQUEST_TTL_def)
  then have 1: "pending_link link_db plain_runtime ''p1'' ''s1'' (Some (Stamp 5 (Some 0))) ?w = (Inr ?f, ?w)"
    by (simp add: pending_link_def sides row_lookup) (simp add: asked_def)
  have 2: "confirmer_side plain_runtime ?f = Inr ''p1''" "item_get ?f ''created_by'' = PStr ''s1''"
    by (simp_all add: confirmer_side_def row_lookup asked_def)
  have 3: "capable_consent link_db 18 True ''p1'' ''s1'' (Some (Stamp 5 (Some 0))) ?w = (Inr (), ?w)"
    using sample_adults by (simp add: capable_consent_def user)
  have both: "both_sides_stored link_db ''p1'' ''s1'' ?w
      = (Inr (?f, stored_item (side_item (student_side_key ''s1'' ''p1'') asked)), ?w)"
    by (simp add: both_sides_stored_def sides)
  have body: "transition_body plain_runtime ''p1'' ''s1'' ''active'' ''p1'' ''us5'' ?f = Inr granted_link"
    by (simp add: transition_body_def required_field_def family_names row_lookup link_body_def
        KNOWN_INITIATORS_def granted_link_def asked_def)
  have wr: "fenced_write link_db granted_link (status_condition ''pending'') ?w
      = (Inr granted_link, \<lparr>tbl = pair_put granted_link asked_table, script = []\<rparr>)"
  proof (rule quiet_fenced_write [where g = 1 and h = 1 and w' = "\<lambda>t. \<lparr>tbl = t, script = []\<rparr>",
        OF _ _ _ _ _ _ _ _ _ w silent_tx_ok])
    show "fence_active asked_table (lk_parent granted_link) 1" "fence_active asked_table (lk_student granted_link) 1"
      using family_is_ready
      by (simp_all add: fence_active_def family_ready_def family_names pair_put_other parent_side_key_def
          student_side_key_def granted_link_def asked_def)
    have "cond_holds (status_condition ''pending'') (stored_item (side_item k asked))" for k
      by (simp add: status_condition_def side_item_def dict_of_def link_attributes_def stored_item_def asked_def)
    then show "cond_holds (status_condition ''pending'') (row_at asked_table (pair_key granted_link))"
      "cond_holds (status_condition ''pending'') (row_at asked_table (mirror_key granted_link))"
      using asked_rows by (simp_all add: row_at_def granted_link_def asked_def)
  qed (simp_all add: granted_link_def asked_def family_names)
  have st: "item_get ?f ''status'' = PStr ''pending''"
    "item_get (stored_item (side_item (student_side_key ''s1'' ''p1'') asked)) ''status'' = PStr ''pending''"
    by (simp_all add: row_lookup asked_def)
  have 4: "transition_link link_db plain_runtime ''p1'' ''s1'' ''pending'' ''active'' ''p1'' ''us5'' ?w
      = (Inr granted_link, \<lparr>tbl = pair_put granted_link asked_table, script = []\<rparr>)"
    by (simp add: transition_link_def required_field_def checked_status_def family_names strip_known
        KNOWN_STATUSES_def both st body wr)
  show ?thesis
    by (simp add: confirm_link_def answer_pending_def sample_clock 1 2 3 4 from_repo_def)
qed

theorem confirmation_needs_adults_witness:
  "\<exists>t t'. link_run asked_table t \<and> link_run t t' \<and> link_run t' (pair_put granted_link asked_table)
    \<and> \<not> account_is_minor (t (profile_key ''p1'')) (Some (Stamp 5 (Some 0))) 18
    \<and> \<not> account_is_minor (t' (profile_key ''s1'')) (Some (Stamp 5 (Some 0))) 18"
  using confirmation_needs_adults [OF sample_confirmation] by (simp add: sample_clock)

text \<open>
  C22: a request waits its turn. When a self-service request goes through among other clients of the
  links, it is pending, and it was written over nothing, or over a pair that was read in the call and
  still had the status and the stamp it was read with: a refusal seven days old, or a request
  unanswered for fourteen days by the caller's clock - or one whose stamp cannot be read at all, which
  holds nobody back. An active link and a live request are never asked over. The look-up of the other
  side's number, if one is installed, may read and let others act, as \<open>resolver_within\<close> says.
\<close>

theorem request_waits_its_turn:
  assumes "resolver_within (acts run_link_command) tbl resolver"
    and "request_link link_db rt age resolver q other number rel m w = (Inr b, w')"
  shows "lk_status b = ''pending'' \<and> (\<exists>t u. acts run_link_command (tbl w) t \<and> acts run_link_command t u
    \<and> acts run_link_command (pair_put b u) (tbl w') \<and> in_turn rt (moment_of rt (PStr m)) b t u)"
  by (rule shared_links.request_link_turn [OF assms])

definition refused :: link where
  "refused = asked\<lparr>lk_status := ''rejected'', lk_updated_by := ''p1'', lk_linked_at := ''day0'', lk_stamp := ''day0''\<rparr>"

definition asked_again :: link where
  "asked_again = asked\<lparr>lk_linked_at := ''day7'', lk_stamp := ''day7''\<rparr>"

abbreviation refused_table :: table where
  "refused_table \<equiv> pair_put refused family_table"

lemma refused_rows:
  "refused_table (parent_side_key ''p1'' ''s1'') = Some (stored_item (side_item (parent_side_key ''p1'' ''s1'') refused))"
  "refused_table (student_side_key ''s1'' ''p1'') = Some (stored_item (side_item (student_side_key ''s1'' ''p1'') refused))"
  using pair_put_sides [of refused family_table] by (simp_all add: refused_def asked_def)

definition day_runtime :: runtime where
  "day_runtime = \<lparr>from_iso = (\<lambda>s. if take 3 s = ''day'' then Some (Stamp (int (text_nat (drop 3 s)) * DAY) (Some 0)) else None),
     other_str = (\<lambda>_. ''?'')\<rparr>"

lemma later_clock: "moment_of day_runtime (PStr ''day7'') = Some (Stamp 604800000000 (Some 0))"
  "moment_of day_runtime (PStr ''day0'') = Some (Stamp 0 (Some 0))"
  "strip ''day7'' = ''day7''" "strip ''day0'' = ''day0''"
proof -
  have n: "text_nat ''7'' = 7" "text_nat ''0'' = 0" by code_simp+
  show s: "strip ''day7'' = ''day7''" "strip ''day0'' = ''day0''" by code_simp+
  show "moment_of day_runtime (PStr ''day7'') = Some (Stamp 604800000000 (Some 0))"
    "moment_of day_runtime (PStr ''day0'') = Some (Stamp 0 (Some 0))"
    by (simp_all add: moment_of_def day_runtime_def s n)
qed

lemma later_date: "date_of 604800000000 = (1970, 1, 8)"
proof -
  have y: "year_of 719170 = 1970" by (simp add: year_of_def)
  have "ordinal_of 604800000000 = 719170" by (simp add: ordinal_of_def)
  moreover have "719170 - days_before_year 1970 = 8" by (simp add: days_before_year_def)
  ultimately show ?thesis by (simp add: date_of_def date_of_ordinal_def y month_lengths_def)
qed

lemma later_birthday: "normalize_date_of_birth (PStr ''1940-02-29'') (1970, 1, 8) = Some (1940, 2, 29)"
  by code_simp

text \<open>The student asks for a stored link that may be asked for again, on a table nobody else changes.\<close>

definition asked_at :: "string \<Rightarrow> link" where
  "asked_at m = asked\<lparr>lk_linked_at := m, lk_stamp := m\<rparr>"

lemma family_request:
  fixes old :: link and m :: string
  assumes old: "lk_parent old = ''p1''" "lk_student old = ''s1''" "lk_status old \<in> {''pending'', ''rejected''}"
      "strip (lk_stamp old) = lk_stamp old" "lk_stamp old \<noteq> []"
    and m: "strip m = m" "m \<noteq> []" "m \<noteq> lk_stamp old"
    and turn: "refuse_unless_reclaimable rt (stored_item (side_item (parent_side_key ''p1'' ''s1'') old)) (moment_of rt (PStr m)) = None"
    and adults: "\<not> minor_among [family_table (profile_key ''p1''), family_table (profile_key ''s1'')] (moment_of rt (PStr m)) 18"
    and w: "reads_as db w (pair_put old family_table)"
    and tx: "\<And>ops t'. tx_apply ops (pair_put old family_table) = Some t' \<Longrightarrow> db_tx db ops w = (True, w' t')"
  shows "request_link db rt 18 None ''s1'' (Some ''p1'') None ''child'' m w = (Inr (asked_at m), w' (pair_put (asked_at m) (pair_put old family_table)))"
proof -
  let ?t = "pair_put old family_table"
  let ?f = "stored_item (side_item (parent_side_key ''p1'' ''s1'') old)"
  let ?r = "stored_item (side_item (student_side_key ''s1'' ''p1'') old)"
  have rows: "?t (parent_side_key ''p1'' ''s1'') = Some ?f" "?t (student_side_key ''s1'' ''p1'') = Some ?r"
    using pair_put_sides [of old family_table] by (simp_all add: old)
  note user = quiet_get_user [OF w]
  note sides = quiet_sides [OF w family_names(1,2), unfolded rows]
  from family_is_ready have use: "usable_account (family_table (profile_key ''p1'')) ''p1'' ''parent''"
    "usable_account (family_table (profile_key ''s1'')) ''s1'' ''student''" by (simp_all add: family_ready_def)
  obtain pa st where prof: "family_table (profile_key ''p1'') = Some pa" "family_table (profile_key ''s1'') = Some st"
    "item_get st ''role'' = PStr ''student''"
    by (simp add: family_table_def profile_key_def account_row_def row_lookup)
  have fields: "item_get ?f ''status'' = PStr (lk_status old)" "item_get ?f ''link_updated_at'' = PStr (lk_stamp old)"
    "item_get ?r ''status'' = PStr (lk_status old)" "item_get ?r ''link_updated_at'' = PStr (lk_stamp old)"
    by (simp_all add: row_lookup)
  have pair: "settled_pair db ''p1'' ''s1'' w = (Inr (Some ?f), w)"
    using old(5) by (simp add: settled_pair_def sides settled_rows_def fields)
  let ?rq = "\<lparr>lr_parent = ''p1'', lr_student = ''s1'', lr_relationship = ''child'', lr_status = ''pending'',
    lr_initiator = ''student'', lr_created_by = ''s1'', lr_linked_at = m\<rparr>"
  have body: "requested_body ?rq = Inr (asked_at m)"
    using m by (simp add: requested_body_def required_field_def checked_status_def family_names strip_known student_word
        KNOWN_STATUSES_def KNOWN_INITIATORS_def link_body_def asked_at_def asked_def)
  let ?c = "stamp_condition (lk_status old) (lk_stamp old)"
  have wr: "fenced_write db (asked_at m) ?c w = (Inr (asked_at m), w' (pair_put (asked_at m) ?t))"
  proof (rule quiet_fenced_write [where g = 1 and h = 1 and w' = w', OF _ _ _ _ _ _ _ _ _ w tx])
    show "fence_active ?t (lk_parent (asked_at m)) 1" "fence_active ?t (lk_student (asked_at m)) 1"
      using family_is_ready
      by (simp_all add: fence_active_def family_ready_def family_names pair_put_other parent_side_key_def
          student_side_key_def asked_at_def asked_def)
    have "cond_holds ?c (stored_item (side_item k old))" for k
      by (simp add: stamp_condition_def status_condition_def side_item_def dict_of_def link_attributes_def stored_item_def)
    then show "cond_holds ?c (row_at ?t (pair_key (asked_at m)))" "cond_holds ?c (row_at ?t (mirror_key (asked_at m)))"
      using rows by (simp_all add: row_at_def asked_at_def asked_def)
  qed (simp_all add: asked_at_def asked_def family_names)
  have both: "both_sides_stored db ''p1'' ''s1'' w = (Inr (?f, ?r), w)"
    by (simp add: both_sides_stored_def sides)
  have "strip (lk_status old) = lk_status old" "lk_status old \<noteq> []" using old(3) by (auto simp: strip_known)
  then have again: "reclaim_settled db rt ?f ?rq w = (Inr (asked_at m), w' (pair_put (asked_at m) ?t))"
    using old(3-5) m
    by (auto simp: reclaim_settled_def reclaim_link_def fields required_field_def checked_status_def family_names
        strip_known KNOWN_STATUSES_def both side_unchanged_def body wr from_repo_def)
  show ?thesis
    using use prof adults turn
    by (simp add: request_link_def role_of_def user resolve_counterpart_def propose_pair_def account_of_def pair again)
qed

lemma refused_again:
  "request_link link_db day_runtime 18 None ''s1'' (Some ''p1'') None ''child'' ''day7'' \<lparr>tbl = refused_table, script = []\<rparr>
     = (Inr asked_again, \<lparr>tbl = pair_put asked_again refused_table, script = []\<rparr>)"
proof -
  let ?f = "stored_item (side_item (parent_side_key ''p1'' ''s1'') refused)"
  have at: "asked_at ''day7'' = asked_again" by (simp add: asked_at_def asked_again_def)
  have "item_get ?f ''status'' = PStr ''rejected''" "settled_at day_runtime ?f = Some (Stamp 0 (Some 0))"
    by (simp_all add: settled_at_def row_lookup refused_def asked_def later_clock)
  then have turn: "refuse_unless_reclaimable day_runtime ?f (moment_of day_runtime (PStr ''day7'')) = None"
    by (simp add: refuse_unless_reclaimable_def cooldown_remaining_def REJECTED_COOLDOWN_def later_clock)
  have adults: "\<not> minor_among [family_table (profile_key ''p1''), family_table (profile_key ''s1'')]
      (moment_of day_runtime (PStr ''day7'')) 18"
    by (simp add: minor_among_def account_is_minor_def is_minor_def family_table_def profile_key_def account_row_def
        row_lookup later_clock later_date later_birthday)
  have w: "reads_as link_db \<lparr>tbl = refused_table, script = []\<rparr> refused_table"
    using silent_reads_as [of "\<lparr>tbl = refused_table, script = []\<rparr>" run_link_command] by simp
  show ?thesis
    by (rule family_request [where old = refused and m = "''day7''" and w' = "\<lambda>t. \<lparr>tbl = t, script = []\<rparr>",
          unfolded at, OF _ _ _ _ _ _ _ _ turn adults w silent_tx_ok])
      (simp_all add: refused_def asked_def later_clock)
qed

theorem request_waits_its_turn_witness:
  "\<exists>b w'. request_link link_db day_runtime 18 None ''s1'' (Some ''p1'') None ''child'' ''day7'' \<lparr>tbl = refused_table, script = []\<rparr>
      = (Inr b, w')
    \<and> lk_status b = ''pending'' \<and> (\<exists>t u. acts run_link_command refused_table t \<and> acts run_link_command t u
        \<and> acts run_link_command (pair_put b u) (tbl w') \<and> in_turn day_runtime (moment_of day_runtime (PStr ''day7'')) b t u)"
  using request_waits_its_turn [OF no_resolver refused_again] refused_again by fastforce

text \<open>
  C23: a revocation that reports success has closed both sides. Whatever happens between its reads
  and its write, there was a moment at which the two rows of the pair both said \<open>rejected\<close>, and
  its verdict grants nothing.
\<close>

theorem revocation_reaches_both_sides:
  assumes "revoke link_db rt p s actor m w = (Inr (Some v), w')"
  shows "\<not> is_current v \<and> (\<exists>t. link_run (tbl w) t \<and> link_run t (tbl w')
    \<and> side_status t (parent_side_key (strip p) (strip s)) ''rejected''
    \<and> side_status t (student_side_key (strip s) (strip p)) ''rejected'')"
  using shared_links.revoke_ends [OF assms] by (metis is_current_def standing.distinct(1))

theorem revocation_reaches_both_sides_witness:
  "\<exists>t' t. link_run (pair_put (assigned ''p1'' ''s1'' ''a1'' ''child'' ''us0'') family_table) t \<and> link_run t t'
    \<and> side_status t (parent_side_key ''p1'' ''s1'') ''rejected''
    \<and> side_status t (student_side_key ''s1'' ''p1'') ''rejected''"
proof -
  let ?t = "pair_put (assigned ''p1'' ''s1'' ''a1'' ''child'' ''us0'') family_table"
  let ?w = "\<lparr>tbl = ?t, script = []\<rparr> :: link_command world"
  have w: "reads_as link_db ?w ?t" using silent_reads_as [of ?w run_link_command] by simp
  obtain v b where "revoke link_db plain_runtime ''p1'' ''s1'' ''a1'' ''us9'' ?w
      = (Inr (Some v), \<lparr>tbl = pair_put b ?t, script = []\<rparr>)"
    by (rule revoke_assigned [OF family_is_ready _ _ _ _ _ _ w silent_tx_ok, where rt = plain_runtime
          and admin = "''a1''" and later = "''us9''"]) (simp_all add: family_names)
  from revocation_reaches_both_sides [OF this] show ?thesis by (auto simp: family_names)
qed

text \<open>
  C24: assigning and revoking are read back. For two usable accounts with active fences and nothing
  stored between them, an administrator's assignment is judged current by the very next reader,
  and after a revocation at another stamp the pair is judged known but no longer current.
\<close>

theorem assignment_reads_back:
  assumes "family_ready t p s g h" and "strip actor \<noteq> []" and "strip rel \<noteq> []" and "strip m \<noteq> []"
    and "strip admin \<noteq> []" and "strip later \<noteq> []" and "strip later \<noteq> strip m"
  shows "\<exists>b t' v t'' u. assign_link table_db rt p s actor rel m t = (Inr b, t')
    \<and> judge table_db rt p s t' = (Inr v, t') \<and> standing v = CURRENT
    \<and> t'' = snd (revoke table_db rt p s admin later t')
    \<and> judge table_db rt p s t'' = (Inr u, t'') \<and> standing u = KNOWN"
proof -
  let ?a = "assigned p s actor rel m"
  from assigned_pair_current [OF assms(1-4)] obtain v where
    1: "judge table_db rt p s (pair_put ?a t) = (Inr v, pair_put ?a t)" "standing v = CURRENT"
    by (auto simp: assign_grants [OF assms(1-4)] is_current_def)
  obtain x b where 2: "revoke table_db rt p s admin later (pair_put ?a t) = (Inr (Some x), pair_put b (pair_put ?a t))"
      "lk_parent b = p" "lk_student b = s" "lk_status b = ''rejected''" "lk_stamp b = strip later"
    by (rule revoke_assigned [OF assms table_reads_as table_tx_ok])
  have "\<exists>u. judge table_db rt p s (pair_put b (pair_put ?a t)) = (Inr u, pair_put b (pair_put ?a t))
      \<and> standing u = (if lk_status b = ''active'' then CURRENT else KNOWN)"
    using assms 2 by (intro judge_pair_put) (auto simp: family_ready_def)
  with 1 2 show ?thesis by (auto simp: assign_grants [OF assms(1-4)])
qed

theorem assignment_reads_back_witness:
  "\<exists>b t' v t'' u. assign_link table_db plain_runtime ''p1'' ''s1'' ''a1'' ''child'' ''us0'' family_table = (Inr b, t')
    \<and> judge table_db plain_runtime ''p1'' ''s1'' t' = (Inr v, t') \<and> standing v = CURRENT
    \<and> t'' = snd (revoke table_db plain_runtime ''p1'' ''s1'' ''a1'' ''us9'' t')
    \<and> judge table_db plain_runtime ''p1'' ''s1'' t'' = (Inr u, t'') \<and> standing u = KNOWN"
  by (rule assignment_reads_back [OF family_is_ready]) (simp_all add: family_names)

end
