(* ===== verification/Access_Properties.thy ===== *)
theory Access_Properties
  imports Access_Matrix Link_Properties
begin

text \<open>
  What the access decisions come to: who an actor is, what every allow rests on, what the audit sink
  and a refusal can and cannot do, and how the gateway sits on the relationship judge.
\<close>

section \<open>Grants and grounds\<close>

definition holds_grant :: "actor \<Rightarrow> string \<Rightarrow> resource_ref \<Rightarrow> action \<Rightarrow> purpose \<Rightarrow> bool \<Rightarrow> bool" where
  "holds_grant a cap r act pur g \<longleftrightarrow>
     (\<exists>x\<in>set (current_grants a). capability x = cap \<and> scope_matches (grant_scope x) r act pur g)"

lemma matching_grant_held: "matching_grant a cap r act pur g \<noteq> None \<longleftrightarrow> holds_grant a cap r act pur g"
  by (auto simp: matching_grant_def holds_grant_def find_None_iff2 find_None_iff)

lemma matching_grant_Some: "matching_grant a cap r act pur g = Some x \<Longrightarrow> holds_grant a cap r act pur g"
  using matching_grant_held [of a cap r act pur g] by simp














section \<open>Who an actor is\<close>

text \<open>
  C25: an actor is only ever resolved from current local facts. The token's binding is active, its sign-in has
  not ended (no revocation record is kept for it; and where the token names no sign-in, the account has no
  cut-off, or one that reads as a number and is not positive or not later than the token's issue), the
  account's fence is active, the account's own role is the single recognized group of the token, the
  account is active, and each grant is an active record of that capability and scope with a
  positive version.
\<close>

theorem actor_resolution_sound:
  assumes "resolve_actor rt repo tk = Inr a"
  shows "\<exists>binding account fence raw revocation.
      get_binding repo (tk_issuer tk) (tk_subject tk) = Reply (Some binding) \<and> item_get binding ''status'' = PStr ''active''
    \<and> get_session_revocation repo (tk_issuer tk) (tk_subject tk) (tk_origin_jti tk) = Reply revocation
    \<and> revocation \<in> {None, Some []}
    \<and> (tk_origin_jti tk \<in> {None, Some []} \<longrightarrow> item_get binding ''revoked_before'' = PNone
         \<or> (\<exists>n. py_int (item_get binding ''revoked_before'') = Some n \<and> \<not> is_pbool (item_get binding ''revoked_before'')
              \<and> (n \<le> 0 \<or> n \<le> tk_issued_at tk)))
    \<and> get_fence repo (user_id a) = Reply fence \<and> active_fence fence
    \<and> get_account repo (user_id a) = Reply (Some account)
    \<and> role_of_text (str_or rt (item_get account ''role'') []) = Some (role a)
    \<and> List.map_filter GROUP_ROLES (tk_groups tk) = [role a] \<and> can_authorize a
    \<and> get_current_grants repo (user_id a) = Reply raw
    \<and> (\<forall>g\<in>set (current_grants a). 0 < grant_version g
         \<and> (\<exists>r\<in>set raw. item_get r ''status'' = PStr ''active'' \<and> capability g = py_str rt (item_get r ''capability'')
              \<and> grant_scope g = py_str rt (item_get r ''scope'')))"
proof (rule resolve_actor_Inr [OF assms])
  fix binding fence account raw revocation
  assume binding: "get_binding repo (tk_issuer tk) (tk_subject tk) = Reply (Some binding)"
      "item_get binding ''status'' = PStr ''active''"
    and session: "get_session_revocation repo (tk_issuer tk) (tk_subject tk) (tk_origin_jti tk) = Reply revocation"
      "enforce_session_not_revoked tk (Some binding) revocation = Inr ()"
    and fence: "get_fence repo (user_id a) = Reply fence" "active_fence fence"
    and account: "get_account repo (user_id a) = Reply (Some account)"
      "List.map_filter GROUP_ROLES (tk_groups tk) = [role a]"
      "role_of_text (str_or rt (item_get account ''role'') []) = Some (role a)" "account_state a = ACTIVE"
    and grants: "get_current_grants repo (user_id a) = Reply raw" "active_grants rt raw = Inr (current_grants a)"
  let ?raw = "item_get binding ''revoked_before''"
  have live: "\<not> sign_in_ended tk binding revocation" using session(2) by (simp add: enforce_sign_in split: if_splits)
  then have none: "revocation \<in> {None, Some []}" by (auto simp: sign_in_ended_def split: option.splits)
  have cut: "tk_origin_jti tk \<in> {None, Some []} \<longrightarrow> ?raw = PNone
      \<or> (\<exists>n. py_int ?raw = Some n \<and> \<not> is_pbool ?raw \<and> (n \<le> 0 \<or> n \<le> tk_issued_at tk))"
    using live by (auto simp: sign_in_ended_def cut_off_bars_def Let_def not_less split: option.splits)
  have each: "0 < grant_version g \<and> (\<exists>r\<in>set raw. item_get r ''status'' = PStr ''active''
      \<and> capability g = py_str rt (item_get r ''capability'') \<and> grant_scope g = py_str rt (item_get r ''scope''))"
    if "g \<in> set (current_grants a)" for g
    using active_grants_Inr [OF grants(2) that] active_grant_Inr by blast
  show ?thesis
    by (intro exI conjI ballI) (rule binding session(1) none cut fence account(1,3,2) grants(1) each [THEN conjunct1]
        each [THEN conjunct2] | simp add: can_authorize_def account(4))+
qed

definition sample_repository :: "mapping_entries option \<Rightarrow> pyval \<Rightarrow> identity_repository" where
  "sample_repository revocation before =
     \<lparr>get_binding = (\<lambda>i s. Reply (Some (dict_of [(''status'', PStr ''active''), (''user_id'', PStr ''u1''), (''revoked_before'', before)]))),
      get_session_revocation = (\<lambda>i s j. Reply revocation),
      get_fence = (\<lambda>u. Reply (Some (dict_of [(''status'', PStr ''active''), (''generation'', PInt 1)]))),
      get_account = (\<lambda>u. Reply (Some (dict_of [(''role'', PStr ''admin''), (''account_status'', PStr ''active'')]))),
      get_current_grants = (\<lambda>u. Reply [dict_of [(''status'', PStr ''active''), (''capability'', PStr ''student_safety_review''),
          (''scope'', PStr ''student:s1''), (''version'', PInt 2)]])\<rparr>"

definition sample_token :: access_token where
  "sample_token = \<lparr>tk_issuer = ''iss'', tk_subject = ''sub'', tk_client_id = ''web'', tk_groups = [''admins''],
     tk_issued_at = 5, tk_origin_jti = None\<rparr>"

definition sample_admin :: actor where
  "sample_admin = \<lparr>user_id = ''u1'', issuer = ''iss'', subject = ''sub'', role = ROLE_ADMIN, account_state = ACTIVE,
     cognito_group = ''admin'', current_grants = [\<lparr>capability = ''student_safety_review'', grant_scope = ''student:s1'', grant_version = 2\<rparr>],
     auth_context = [(''token_use'', ''access''), (''client_id'', ''web'')], must_change_password = False\<rparr>"

text \<open>The account was signed out at 3, and the token was issued at 5.\<close>

lemma sample_resolved: "resolve_actor plain_runtime (sample_repository None (PInt 3)) sample_token = Inr sample_admin"
  by code_simp

theorem actor_resolution_sound_witness:
  "can_authorize sample_admin
    \<and> (\<exists>n. py_int (PInt 3) = Some n \<and> n \<le> tk_issued_at sample_token)
    \<and> 0 < grant_version (hd (current_grants sample_admin))"
proof -
  have b: "get_binding (sample_repository None (PInt 3)) i s = Reply (Some b) \<Longrightarrow> item_get b ''revoked_before'' = PInt 3" for i s b
    by (auto simp: sample_repository_def row_lookup)
  from actor_resolution_sound [OF sample_resolved] obtain n where "py_int (PInt 3) = Some n" "n \<le> 0 \<or> n \<le> tk_issued_at sample_token"
      "can_authorize sample_admin" "\<forall>g\<in>set (current_grants sample_admin). 0 < grant_version g"
    by (auto simp: sample_token_def dest!: b)
  then show ?thesis by (auto simp: sample_admin_def)
qed

text \<open>
  C26: resolving an actor fails closed. Whatever the repository answers or raises, a resolution that
  gives no actor gives one of three registered codes or the code the repository itself declined
  with. For an active binding of a named account, a sign-in that is over (a revocation record with entries is
  kept for it, or the token names no sign-in and the account's cut-off cannot be read or is later than
  the token's issue) is refused as \<open>INVALID_TOKEN\<close>, whatever the account, its fence and its grants
  are; and \<open>INVALID_TOKEN\<close> is given for nothing else, unless the repository itself declines with it.
\<close>

theorem actor_resolution_fails_closed:
  "(\<forall>c. resolve_actor rt repo tk = Inl c
      \<longrightarrow> c \<in> {IDENTITY_CONFLICT, INVALID_TOKEN, AUTHORIZATION_TEMPORARILY_UNAVAILABLE} \<union> repository_codes repo)
    \<and> (\<forall>b revocation. get_binding repo (tk_issuer tk) (tk_subject tk) = Reply (Some b)
         \<and> item_get b ''status'' = PStr ''active'' \<and> strip (str_or rt (item_get b ''user_id'') []) \<noteq> []
         \<and> get_session_revocation repo (tk_issuer tk) (tk_subject tk) (tk_origin_jti tk) = Reply revocation
       \<longrightarrow> (sign_in_ended tk b revocation \<longrightarrow> resolve_actor rt repo tk = Inl INVALID_TOKEN)
         \<and> (resolve_actor rt repo tk = Inl INVALID_TOKEN
              \<longrightarrow> sign_in_ended tk b revocation \<or> INVALID_TOKEN \<in> repository_codes repo))"
  using resolve_actor_Inl [of rt repo tk] resolve_actor_sign_in [of repo tk _ rt] by blast

text \<open>
  The same token after a sign-out at 9, after one whose instant is unreadable, and with a revocation record;
  and an account that is no longer bound.
\<close>

theorem actor_resolution_fails_closed_witness:
  "resolve_actor plain_runtime (sample_repository None (PInt 9)) sample_token = Inl INVALID_TOKEN
    \<and> resolve_actor plain_runtime (sample_repository None (PBool True)) sample_token = Inl INVALID_TOKEN
    \<and> resolve_actor plain_runtime (sample_repository (Some [(''SK'', PStr ''REVOKED'')]) PNone)
        (sample_token\<lparr>tk_origin_jti := Some ''o1''\<rparr>) = Inl INVALID_TOKEN
    \<and> (\<exists>c. resolve_actor plain_runtime ((sample_repository None (PInt 3))\<lparr>get_binding := \<lambda>i s. Failed\<rparr>) sample_token = Inl c
        \<and> c \<in> {IDENTITY_CONFLICT, INVALID_TOKEN, AUTHORIZATION_TEMPORARILY_UNAVAILABLE})"
proof -
  have u: "strip ''u1'' \<noteq> []" by code_simp
  have ended: "sign_in_ended sample_token (dict_of [(''status'', PStr ''active''), (''user_id'', PStr ''u1''), (''revoked_before'', PInt 9)]) None"
    "sign_in_ended sample_token (dict_of [(''status'', PStr ''active''), (''user_id'', PStr ''u1''), (''revoked_before'', PBool True)]) None"
    "sign_in_ended (sample_token\<lparr>tk_origin_jti := Some ''o1''\<rparr>)
       (dict_of [(''status'', PStr ''active''), (''user_id'', PStr ''u1''), (''revoked_before'', PNone)]) (Some [(''SK'', PStr ''REVOKED'')])"
    by (simp_all add: sign_in_ended_def cut_off_bars_def row_lookup sample_token_def)
  note closed = actor_resolution_fails_closed [THEN conjunct2, rule_format, THEN conjunct1, rule_format]
  have over: "resolve_actor plain_runtime (sample_repository None (PInt 9)) sample_token = Inl INVALID_TOKEN"
    "resolve_actor plain_runtime (sample_repository None (PBool True)) sample_token = Inl INVALID_TOKEN"
    "resolve_actor plain_runtime (sample_repository (Some [(''SK'', PStr ''REVOKED'')]) PNone)
        (sample_token\<lparr>tk_origin_jti := Some ''o1''\<rparr>) = Inl INVALID_TOKEN"
    by (rule closed [OF _ ended(1)] closed [OF _ ended(2)] closed [OF _ ended(3)],
        simp add: sample_repository_def row_lookup u)+
  have "repository_codes ((sample_repository None (PInt 3))\<lparr>get_binding := \<lambda>i s. Failed\<rparr>) = {}"
    by (simp add: repository_codes_def sample_repository_def)
  moreover have "\<exists>c. resolve_actor plain_runtime ((sample_repository None (PInt 3))\<lparr>get_binding := \<lambda>i s. Failed\<rparr>) sample_token = Inl c"
    by (simp add: resolve_actor_def sec_bind_def)
  ultimately have "\<exists>c. resolve_actor plain_runtime ((sample_repository None (PInt 3))\<lparr>get_binding := \<lambda>i s. Failed\<rparr>) sample_token = Inl c
      \<and> c \<in> {IDENTITY_CONFLICT, INVALID_TOKEN, AUTHORIZATION_TEMPORARILY_UNAVAILABLE}"
    using actor_resolution_fails_closed [THEN conjunct1, of plain_runtime
        "(sample_repository None (PInt 3))\<lparr>get_binding := \<lambda>i s. Failed\<rparr>" sample_token] by fastforce
  with over show ?thesis by blast
qed

section \<open>What an allow rests on\<close>



text \<open>
  C28: break glass is narrow. An administrator's allow for an incident reads or looks up and changes
  nothing, under an evidence whose window of at most fifteen minutes is open now
  and whose incident, reason, notification and review are all named, and under a grant of that
  capability for exactly this resource, student or action, never a global one; the decision
  carries the incident.
\<close>

theorem break_glass_is_narrow:
  assumes "allowed (evaluate rt now a r f act FOR_INCIDENT_BREAK_GLASS corr)" and "role a = ROLE_ADMIN"
  shows "act \<in> {ACT_READ, ACT_LOOKUP} \<and> holds_grant a ''student_data_break_glass'' r act FOR_INCIDENT_BREAK_GLASS False
    \<and> (\<exists>e. fa_break_glass f = Some e \<and> issued_at e \<le> now \<and> now < expires_at e
         \<and> expires_at e \<le> issued_at e + 15 * 60 * 1000000 \<and> strip (incident_id e) \<noteq> [] \<and> strip (bg_reason e) \<noteq> []
         \<and> evidence_reference (evaluate rt now a r f act FOR_INCIDENT_BREAK_GLASS corr) = Some (incident_id e))"
proof -
  let ?d = "admin_permits a r f act FOR_INCIDENT_BREAK_GLASS now"
  from assms have p: "permits rt now a r f act FOR_INCIDENT_BREAK_GLASS = ?d" "fst ?d"
    by (auto simp: permits_def evaluate_simps split: if_splits)
  then have "evidence_reference (evaluate rt now a r f act FOR_INCIDENT_BREAK_GLASS corr) = snd ?d"
    by (simp add: evaluate_def Let_def split: prod.splits)
  with p(2) show ?thesis
    by (cases act; auto simp: admin_permits_def BREAK_GLASS_FORBIDDEN_def break_glass_valid_def Let_def
        split: option.splits dest: matching_grant_Some)
qed

definition sample_incident :: break_glass where
  "sample_incident = \<lparr>incident_id = ''inc'', bg_reason = ''why'', notification_reference = ''n'', review_reference = ''v'',
     issued_at = 0, expires_at = 60\<rparr>"

definition sample_responder :: actor where
  "sample_responder = sample_admin\<lparr>current_grants :=
     [\<lparr>capability = ''student_data_break_glass'', grant_scope = ''student:s1'', grant_version = 1\<rparr>]\<rparr>"

theorem break_glass_is_narrow_witness:
  "holds_grant sample_responder ''student_data_break_glass'' (plain_ref RES_REPORT ''r1'' ''s1'') ACT_READ
     FOR_INCIDENT_BREAK_GLASS False"
proof -
  have "allowed (evaluate plain_runtime 10 sample_responder (plain_ref RES_REPORT ''r1'' ''s1'')
      (no_facts\<lparr>fa_break_glass := Some sample_incident\<rparr>) ACT_READ FOR_INCIDENT_BREAK_GLASS None)"
    by (simp add: evaluate_simps) code_simp
  moreover have "role sample_responder = ROLE_ADMIN" by (simp add: sample_responder_def sample_admin_def)
  ultimately show ?thesis using break_glass_is_narrow by blast
qed

section \<open>What the gateway hands over\<close>

lemma audit_entry_fields:
  "allowed d \<Longrightarrow> ae_result (audit_entry_of a r act pur d c kind) = ''allowed''"
  "ae_actor_id (audit_entry_of a r act pur d c kind) = user_id a"
  "ae_resource_type (audit_entry_of a r act pur d c kind) = resource_text (resource_type r)"
  "ae_resource_id (audit_entry_of a r act pur d c kind) = resource_id r"
  "ae_student_id (audit_entry_of a r act pur d c kind) = student_id r"
  "ae_action (audit_entry_of a r act pur d c kind) = action_text act"
  "ae_purpose (audit_entry_of a r act pur d c kind) = purpose_text pur"
  by (simp_all add: audit_entry_of_def)

text \<open>
  C29: evidence comes before access. When the gateway hands a resource to a handler for an effect that
  needs durable evidence, the last thing it did was to persist an \<open>allowed\<close> decision of this
  actor, on this resource, for this action and purpose, and the sink confirmed it; a sink that
  cannot store it never lets the handler run.
\<close>

theorem evidence_precedes_access:
  assumes "authorize_and_resolve db rt clock sink resolver a sp rid corr w = (Inr x, w')"
    and "requires_durable_evidence a (ar_ref x) (sp_action sp) (sp_purpose sp)"
  shows "\<exists>e w1 rec. sink_persist sink e w1 = (Inr rec, w') \<and> ae_result e = ''allowed''
    \<and> ae_actor_id e = user_id a \<and> ae_resource_type e = resource_text (resource_type (ar_ref x))
    \<and> ae_resource_id e = resource_id (ar_ref x) \<and> ae_student_id e = student_id (ar_ref x)
    \<and> ae_action e = action_text (sp_action sp) \<and> ae_purpose e = purpose_text (sp_purpose sp)"
proof (rule authorize_and_resolve_Inr [OF assms(1)])
  fix l w1
  assume "authorize_loaded db rt clock sink a sp corr (ar_ref x) (ar_value x) w1 = (Inr x, w')"
  then show ?thesis
  proof (rule authorize_loaded_Inr)
    fix f w2 d
    let ?e = "evaluate rt (clock w2) a (ar_ref x) f (sp_action sp) (sp_purpose sp) (Some corr)"
    assume ok: "allowed ?e"
      and rec: "record_authorization_decision sink a (ar_ref x) (sp_action sp) (sp_purpose sp) ?e corr ''policy'' w2 = (Inr d, w')"
    from record_decision_Inr(3) [OF rec ok assms(2)] obtain c w3 r
      where p: "sink_persist sink (audit_entry_of a (ar_ref x) (sp_action sp) (sp_purpose sp) ?e c ''policy'') w3 = (Inr r, w')"
      by blast
    show ?thesis by (rule exI [of _ "audit_entry_of a (ar_ref x) (sp_action sp) (sp_purpose sp) ?e c ''policy''"],
        rule exI [of _ w3], rule exI [of _ r]) (simp add: p audit_entry_fields(1) [OF ok] audit_entry_fields(2-))
  qed
qed

text \<open>A sink for the witnesses: it keeps the entries it was given.\<close>

definition memory_sink :: "audit_entry list audit_sink" where
  "memory_sink =
     \<lparr>fresh_id = (\<lambda>w. (''fresh'', w)),
      sink_persist = (\<lambda>e w. (Inr \<lparr>ar_event_id = ''e'', ar_resource_fingerprint = ''f'', ar_audit_key_id = ''k'', ar_replayed = False\<rparr>, e # w)),
      sink_aggregate = (\<lambda>r e w. (Inr (), w))\<rparr>"

definition no_db :: "'w db" where
  "no_db = \<lparr>db_get = (\<lambda>k w. (Resp_None, w)), db_tx = (\<lambda>ops w. (False, w))\<rparr>"

definition sample_spec :: spec where
  "sample_spec = \<lparr>sp_resource_type = RES_REPORT, sp_action = ACT_READ, sp_purpose = FOR_SAFETY_REVIEW\<rparr>"

definition sample_resolver :: "'w resource_resolver" where
  "sample_resolver rid w = (Reply (if rid = ''gone'' then Absent else Plain (dict_of [(''student_id'', PStr ''s1'')])), w)"

abbreviation sample_access :: "string \<Rightarrow> item authorized_resource sec \<times> audit_entry list" where
  "sample_access rid \<equiv> authorize_and_resolve no_db plain_runtime (\<lambda>_. 0) memory_sink sample_resolver sample_admin
     sample_spec rid ''corr'' []"

definition sample_report :: "item authorized_resource" where
  "sample_report = \<lparr>ar_ref = plain_ref RES_REPORT ''r1'' ''s1'', ar_value = dict_of [(''student_id'', PStr ''s1'')],
     ar_facts = no_facts\<rparr>"

lemma sample_access_granted: "sample_access ''r1'' = (Inr sample_report, snd (sample_access ''r1''))"
proof -
  have ref: "make_ref (plain_ref RES_REPORT ''r1'' ''s1'') = Inr (plain_ref RES_REPORT ''r1'' ''s1'')" by code_simp
  have may: "fst (permits plain_runtime 0 sample_admin (plain_ref RES_REPORT ''r1'' ''s1'') no_facts ACT_READ FOR_SAFETY_REVIEW)"
    by code_simp
  have who: "role sample_admin = ROLE_ADMIN" by (simp add: sample_admin_def)
  show ?thesis
    by (simp add: authorize_and_resolve_def sample_resolver_def resolved_ref_def row_lookup ref sample_spec_def
        authorize_loaded_def facts_for_def who record_authorization_decision_def evaluate_simps may memory_sink_def
        sample_report_def Let_def split: prod.splits)
qed

theorem evidence_precedes_access_witness:
  "\<exists>e w1 rec. sink_persist memory_sink e w1 = (Inr rec, snd (sample_access ''r1'')) \<and> ae_result e = ''allowed''
    \<and> ae_actor_id e = ''u1''"
proof -
  have "requires_durable_evidence sample_admin (ar_ref sample_report) (sp_action sample_spec) (sp_purpose sample_spec)"
    by code_simp
  from evidence_precedes_access [OF sample_access_granted this] show ?thesis by (auto simp: sample_admin_def)
qed

text \<open>A policy's denial is the caller's answer, whatever the sink does with it.\<close>

lemma denied_whatever_the_sink:
  assumes "facts_for db rt a r v w = (Inr f, w1)"
    and "\<not> allowed (evaluate rt (clock w1) a r f (sp_action sp) (sp_purpose sp) (Some corr))"
  shows "fst (authorize_loaded db rt clock sink a sp corr r v w) =
    Inl (result_code (evaluate rt (clock w1) a r f (sp_action sp) (sp_purpose sp) (Some corr)))"
proof (rule record_denial [OF assms(2), of sink a r "sp_action sp" "sp_purpose sp" corr "''policy''" w1])
  fix d w2
  let ?e = "evaluate rt (clock w1) a r f (sp_action sp) (sp_purpose sp) (Some corr)"
  assume "record_authorization_decision sink a r (sp_action sp) (sp_purpose sp) ?e corr ''policy'' w1 = (Inr d, w2)"
    "\<not> allowed d" "result_code d = result_code ?e"
  then show ?thesis by (simp add: authorize_loaded_def assms(1))
qed

text \<open>
  C30: a hidden resource answers like an absent one. For an actor who has no known relationship to it
  and whom the policy refuses, a resource a resolver found (as a bare mapping, or as the resource and its value the
  routes' resolvers give) and one it did not find, or declined as not found, give the same code, and so
  the same response, for any two sinks, clocks and tables behind them, failing sinks included.
\<close>

theorem hidden_is_like_absent:
  assumes "resolver rid w = (Reply l, w1)" and "resolved_ref rt sp rid l = Inr (r, v)"
    and "facts_for db rt a r v w1 = (Inr f, w2)" and "\<not> relationship_known_to_actor a r f"
    and "\<not> allowed (evaluate rt (clock w2) a r f (sp_action sp) (sp_purpose sp) (Some corr))"
    and "gone rid u \<in> {(Reply Absent, u1), (Declined RESOURCE_NOT_FOUND, u1)}" and "strip rid \<noteq> []"
  shows "fst (authorize_and_resolve db rt clock sink resolver a sp rid corr w) = Inl RESOURCE_NOT_FOUND
    \<and> fst (authorize_and_resolve db' rt clock' sink' gone a sp rid corr' u) = Inl RESOURCE_NOT_FOUND"
proof
  from denied_whatever_the_sink [where clock = clock and sink = sink, OF assms(3,5)] assms(4,5)
  have "fst (authorize_loaded db rt clock sink a sp corr r v w1) = Inl RESOURCE_NOT_FOUND"
    by (simp add: evaluate_simps)
  moreover from assms(2) have "l \<noteq> Absent" by (auto simp: resolved_ref_def)
  ultimately show "fst (authorize_and_resolve db rt clock sink resolver a sp rid corr w) = Inl RESOURCE_NOT_FOUND"
    using assms(1,2) by (cases l) (simp_all add: authorize_and_resolve_def)
  have "make_ref (plain_ref (sp_resource_type sp) rid rid) = Inr (plain_ref (sp_resource_type sp) rid rid)"
    by (simp add: make_ref_def plain_ref_def assms(7))
  moreover have "\<not> allowed ((bare_decision False RESOURCE_NOT_FOUND)\<lparr>correlation_id := Some corr'\<rparr>)"
    by (simp add: bare_decision_def)
  then obtain d u2 where "record_authorization_decision sink' a (plain_ref (sp_resource_type sp) rid rid) (sp_action sp)
      (sp_purpose sp) ((bare_decision False RESOURCE_NOT_FOUND)\<lparr>correlation_id := Some corr'\<rparr>) corr' ''resolver'' u1 = (Inr d, u2)"
    by (rule record_denial)
  ultimately show "fst (authorize_and_resolve db' rt clock' sink' gone a sp rid corr' u) = Inl RESOURCE_NOT_FOUND"
    using assms(6) by (auto simp: authorize_and_resolve_def)
qed

definition sample_parent :: "string \<Rightarrow> actor" where
  "sample_parent u = sample_admin\<lparr>user_id := u, role := ROLE_PARENT, cognito_group := ''parent'', current_grants := []\<rparr>"

definition failing_sink :: "'w audit_sink" where
  "failing_sink = \<lparr>fresh_id = (\<lambda>w. (''fresh'', w)), sink_persist = (\<lambda>e w. (Inl Provider_Error, w)),
     sink_aggregate = (\<lambda>r e w. (Inl Provider_Error, w))\<rparr>"

lemma sample_stranger:
  "facts_for no_db plain_runtime (sample_parent ''p9'') (plain_ref RES_REPORT ''r1'' ''s1'') v w =
     (Inr (no_facts\<lparr>fa_parent := Some \<lparr>pf_verdict = Some (unknown_pair ''p9'' ''s1''), parent_account = None,
        pf_student_account = None\<rparr>\<rparr>), w)"
proof -
  have "strip ''p9'' = ''p9''" "strip ''s1'' = ''s1''" by code_simp+
  then show ?thesis
    by (simp add: facts_for_def sample_parent_def parent_facts_for_def judge_def get_parent_side_link_def keyed_get_def
        required_field_def link_get_def no_db_def get_student_side_link_def judge_rows_def about_pair_def get_user_def
        wrap_facts_def plain_ref_def)
qed

text \<open>A route's resolver answers with the resource and its value.\<close>

definition known_resolver :: "'w resource_resolver" where
  "known_resolver rid w = (Reply (Known (plain_ref RES_REPORT rid ''s1'') Map.empty), w)"

theorem hidden_is_like_absent_witness:
  "fst (authorize_and_resolve no_db plain_runtime (\<lambda>_. 0) failing_sink known_resolver (sample_parent ''p9'') sample_spec
      ''r1'' ''corr'' ()) = Inl RESOURCE_NOT_FOUND
    \<and> fst (authorize_and_resolve no_db plain_runtime (\<lambda>_. 1) memory_sink (\<lambda>_. sample_resolver ''gone'') (sample_parent ''p9'') sample_spec
      ''r1'' ''other'' []) = Inl RESOURCE_NOT_FOUND"
proof -
  have here: "known_resolver ''r1'' () = (Reply (Known (plain_ref RES_REPORT ''r1'' ''s1'') Map.empty), ())"
    and gone: "(\<lambda>_. sample_resolver ''gone'') ''r1'' [] \<in> {(Reply Absent, []), (Declined RESOURCE_NOT_FOUND, [] :: audit_entry list)}"
    by (simp_all add: known_resolver_def sample_resolver_def)
  have ref: "resolved_ref plain_runtime sample_spec ''r1'' (Known (plain_ref RES_REPORT ''r1'' ''s1'') Map.empty)
      = Inr (plain_ref RES_REPORT ''r1'' ''s1'', Map.empty)"
    by (simp add: resolved_ref_def)
  let ?f = "no_facts\<lparr>fa_parent := Some \<lparr>pf_verdict = Some (unknown_pair ''p9'' ''s1''), parent_account = None,
      pf_student_account = None\<rparr>\<rparr>"
  have strange: "\<not> relationship_known_to_actor (sample_parent ''p9'') (plain_ref RES_REPORT ''r1'' ''s1'') ?f"
    by code_simp
  have "\<not> fst (permits plain_runtime 0 (sample_parent ''p9'') (plain_ref RES_REPORT ''r1'' ''s1'') ?f ACT_READ FOR_SAFETY_REVIEW)"
    by code_simp
  then have refused: "\<not> allowed (evaluate plain_runtime ((\<lambda>_. 0) ()) (sample_parent ''p9'') (plain_ref RES_REPORT ''r1'' ''s1'')
      ?f (sp_action sample_spec) (sp_purpose sample_spec) (Some ''corr''))"
    by (simp add: evaluate_simps sample_spec_def)
  have named: "strip ''r1'' \<noteq> []" by code_simp
  show ?thesis
    by (rule hidden_is_like_absent) (rule here ref sample_stranger strange refused gone named)+
qed

section \<open>The gateway over the relationship judge\<close>

lemma parent_facts_reads:
  assumes "parent_facts_for db rt p s w = (Inr pf, w')"
  obtains v w1 w2 where "judge db rt p s w = (Inr v, w1)" "get_user db p w1 = (Inr (parent_account pf), w2)"
    "get_user db s w2 = (Inr (pf_student_account pf), w')" "pf_verdict pf = Some v"
  using assms by (auto simp: parent_facts_for_def split: prod.splits sum.splits)

lemma parent_facts_of:
  assumes "facts_for db rt a r v w = (Inr f, w')" "role a = ROLE_PARENT"
  obtains pf where "fa_parent f = Some pf" "parent_facts_for db rt (user_id a) (student_id r) w = (Inr pf, w')"
  using assms by (auto simp: facts_for_def wrap_facts_def no_facts_def split: prod.splits sum.splits)

context link_client
begin

text \<open>A parent's facts that match were true of the table while they were loaded.\<close>

lemma matching_parent_facts_in_force:
  assumes "parent_facts_for db rt p s w = (Inr pf, w')" "parent_matches pf p s" "links_agree (rows w)"
  shows "\<exists>u. env (rows w) u \<and> env u (rows w') \<and> link_in_force u (strip p) (strip s)
    \<and> active_account (rows w' (profile_key s)) s ROLE_STUDENT"
proof (rule parent_facts_reads [OF assms(1)])
  fix v w1 w2
  assume j: "judge db rt p s w = (Inr v, w1)" and p: "get_user db p w1 = (Inr (parent_account pf), w2)"
    and s: "get_user db s w2 = (Inr (pf_student_account pf), w')" and v: "pf_verdict pf = Some v"
  from v assms(2) have cur: "is_current v" by (simp add: parent_matches_def)
  obtain w0 where w0: "env (rows w) (rows w0)" "env (rows w0) (rows w1)" "link_in_force (rows w0) (strip p) (strip s)"
    by (rule judge_in_force [OF j cur assms(3)])
  have "env (rows w0) (rows w')"
    by (rule env_trans [OF w0(2) env_trans [OF get_user_env [OF p] get_user_env [OF s]]])
  moreover from assms(2) get_user_row [OF s] have "active_account (rows w' (profile_key s)) s ROLE_STUDENT"
    by (simp add: parent_matches_def)
  ultimately show ?thesis using w0(1,3) by blast
qed

end

text \<open>
  C31: a parent sees a child only while the link is in force. When the gateway hands a parent a
  resource for oversight on a table other clients of the links are using, there was a moment while
  its facts were loaded at which the student's side of this very pair was active (and the parent's
  too, unless it was just being removed), and the stored account of the student was active when
  the last of the facts was read; a link revoked before the call gives nothing.
\<close>

theorem parent_access_follows_the_link:
  assumes "authorize_and_resolve link_db rt clock sink resolver a sp rid corr w = (Inr x, w')"
    and "role a = ROLE_PARENT" and "sp_purpose sp = FOR_PARENT_OVERSIGHT"
    and "links_agree (tbl (snd (resolver rid w)))"
  shows "\<exists>u v. acts run_link_command (tbl (snd (resolver rid w))) u \<and> acts run_link_command u v
    \<and> link_in_force u (strip (user_id a)) (strip (student_id (ar_ref x)))
    \<and> active_account (v (profile_key (student_id (ar_ref x)))) (student_id (ar_ref x)) ROLE_STUDENT"
proof (rule authorize_and_resolve_Inr [OF assms(1)])
  fix l w1
  assume l: "resolver rid w = (Reply l, w1)"
    and "authorize_loaded link_db rt clock sink a sp corr (ar_ref x) (ar_value x) w1 = (Inr x, w')"
  from this(2) show ?thesis
  proof (rule authorize_loaded_Inr)
    fix f w2 d
    assume f: "facts_for link_db rt a (ar_ref x) (ar_value x) w1 = (Inr f, w2)"
      and ok: "allowed (evaluate rt (clock w2) a (ar_ref x) f (sp_action sp) (sp_purpose sp) (Some corr))"
    obtain pf where pf: "fa_parent f = Some pf"
        "parent_facts_for link_db rt (user_id a) (student_id (ar_ref x)) w1 = (Inr pf, w2)"
      by (rule parent_facts_of [OF f assms(2)])
    from ok pf(1) assms(2,3) have "parent_matches pf (user_id a) (student_id (ar_ref x))"
      by (auto simp: evaluate_simps permits_def split: if_splits)
    from shared_links.matching_parent_facts_in_force [OF pf(2) this] assms(4) l show ?thesis by auto
  qed
qed

lemma granted_facts:
  "parent_facts_for link_db plain_runtime ''p1'' ''s1'' \<lparr>tbl = granted_table, script = []\<rparr> =
     (Inr \<lparr>pf_verdict = Some (verdict_from_rows plain_runtime CURRENT ''p1'' ''s1''
          (stored_item (side_item (parent_side_key ''p1'' ''s1'') granted_link))),
        parent_account = family_table (profile_key ''p1''), pf_student_account = family_table (profile_key ''s1'')\<rparr>,
      \<lparr>tbl = granted_table, script = []\<rparr>)"
proof -
  let ?w = "\<lparr>tbl = granted_table, script = []\<rparr> :: link_command world"
  have "reads_as link_db ?w granted_table" using silent_reads_as [of ?w run_link_command] by simp
  note user = quiet_get_user [OF this]
  show ?thesis by (simp add: parent_facts_for_def granted_judged user)
qed

definition quiet_sink :: "'w audit_sink" where
  "quiet_sink =
     \<lparr>fresh_id = (\<lambda>w. (''fresh'', w)),
      sink_persist = (\<lambda>e w. (Inr \<lparr>ar_event_id = ''e'', ar_resource_fingerprint = ''f'', ar_audit_key_id = ''k'', ar_replayed = False\<rparr>, w)),
      sink_aggregate = (\<lambda>r e w. (Inr (), w))\<rparr>"

definition oversight :: spec where
  "oversight = \<lparr>sp_resource_type = RES_REPORT, sp_action = ACT_READ, sp_purpose = FOR_PARENT_OVERSIGHT\<rparr>"

theorem parent_access_follows_the_link_witness:
  "\<exists>u v. acts run_link_command granted_table u \<and> acts run_link_command u v \<and> link_in_force u ''p1'' ''s1''
    \<and> active_account (v (profile_key ''s1'')) ''s1'' ROLE_STUDENT"
proof -
  let ?w = "\<lparr>tbl = granted_table, script = []\<rparr> :: link_command world"
  let ?r = "plain_ref RES_REPORT ''r1'' ''s1''"
  let ?v = "verdict_from_rows plain_runtime CURRENT ''p1'' ''s1'' (stored_item (side_item (parent_side_key ''p1'' ''s1'') granted_link))"
  let ?pf = "\<lparr>pf_verdict = Some ?v, parent_account = family_table (profile_key ''p1''),
      pf_student_account = family_table (profile_key ''s1'')\<rparr>"
  let ?f = "no_facts\<lparr>fa_parent := Some ?pf\<rparr>"
  let ?res = "\<lambda>rid w. (Reply (Known ?r (Map.empty :: item)), w)"
  have who: "user_id (sample_parent ''p1'') = ''p1''" "role (sample_parent ''p1'') = ROLE_PARENT"
    "can_authorize (sample_parent ''p1'')"
    by (simp_all add: sample_parent_def sample_admin_def can_authorize_def)
  have ref: "student_id ?r = ''s1''" "owner_id ?r = None" by (simp_all add: plain_ref_def)
  have sp: "sp_action oversight = ACT_READ" "sp_purpose oversight = FOR_PARENT_OVERSIGHT" by (simp_all add: oversight_def)
  have accounts: "active_account (family_table (profile_key ''p1'')) ''p1'' ROLE_PARENT"
    "active_account (family_table (profile_key ''s1'')) ''s1'' ROLE_STUDENT"
    using family_is_ready by (simp_all add: family_ready_def active_account_def usable_account_def split: option.splits)
  have "parent_matches ?pf ''p1'' ''s1''"
    by (simp add: parent_matches_def accounts is_current_def about_def verdict_from_rows_def)
  then have ok: "fst (permits plain_runtime 0 (sample_parent ''p1'') ?r ?f ACT_READ FOR_PARENT_OVERSIGHT)"
    by (simp add: permits_def who ref no_facts_def)
  have facts: "facts_for link_db plain_runtime (sample_parent ''p1'') ?r Map.empty ?w = (Inr ?f, ?w)"
    by (simp add: facts_for_def who ref granted_facts wrap_facts_def)
  have "opaque_id (strip ''corr'')" "strip ''corr'' = ''corr''" by code_simp+
  then have "normalize_correlation_id quiet_sink ''corr'' ?w = (''corr'', ?w)"
    by (simp add: normalize_correlation_id_def)
  then have "\<exists>d. record_authorization_decision quiet_sink (sample_parent ''p1'') ?r ACT_READ FOR_PARENT_OVERSIGHT
      (evaluate plain_runtime 0 (sample_parent ''p1'') ?r ?f ACT_READ FOR_PARENT_OVERSIGHT (Some ''corr'')) ''corr'' ''policy'' ?w
      = (Inr d, ?w) \<and> allowed d"
    by (simp add: record_authorization_decision_def evaluate_simps ok quiet_sink_def Let_def)
  then have "authorize_and_resolve link_db plain_runtime (\<lambda>_. 0) quiet_sink ?res (sample_parent ''p1'') oversight ''r1'' ''corr'' ?w
      = (Inr \<lparr>ar_ref = ?r, ar_value = Map.empty, ar_facts = ?f\<rparr>, ?w)"
    by (auto simp: authorize_and_resolve_def resolved_ref_def authorize_loaded_def facts sp)
  moreover have "links_agree (tbl (snd (?res ''r1'' ?w)))"
    using pair_put_agrees family_facts(1) by (simp add: links_agree_def)
  ultimately show ?thesis
    using parent_access_follows_the_link [where resolver = ?res and rid = "''r1''" and w = ?w] who sp ref
    by (fastforce simp: family_names)
qed

section \<open>The reference matrix\<close>

text \<open>
  C32: the policy agrees with its reference matrix. For every family, role, relation, action and
  purpose the executable matrix decides exactly what its closed form says, code included; a family
  outside the table is refused before any decision.
\<close>

theorem policy_agrees_with_matrix:
  "map_sum id (\<lambda>d. (allowed d, result_code d)) (evaluate_matrix_case rt family r relation act pur) =
    (if matrix_resource family = None then Inl Value_Error
     else Inr (matrix_allows family r relation act pur,
       if \<not> matrix_allows family r relation act pur \<and> matrix_hides r relation then RESOURCE_NOT_FOUND else ACTION_NOT_ALLOWED))"
proof (cases "matrix_resource family")
  case None
  then show ?thesis by (simp add: evaluate_matrix_case_def)
next
  case (Some ty)
  from evaluate_matrix_case_Inr [OF Some, of rt r relation act pur] Some show ?thesis by auto
qed

end
