(* ===== verification/Py_Float.thy ===== *)
theory Py_Float
  imports Complex_Main "HOL-Library.Log_Nat"
begin

text \<open>
  Python's \<open>float\<close> as the exact rational a binary64 number is: the nearest number of 53 significant bits, ties to
  the even one, and \<open>round(x, n)\<close>, which rounds the exact value to decimal digits, ties to even, and reads the
  result as a \<open>float\<close> again. The range of the exponent is left open; the numbers used here stay far inside it.
\<close>

section \<open>Rounding\<close>

definition round_half_even :: "rat \<Rightarrow> int" where
  "round_half_even q =
     (let n = \<lfloor>q\<rfloor>; d = q - of_int n
      in if d < 1 / 2 then n else if 1 / 2 < d then n + 1 else if even n then n else n + 1)"

lemma round_half_even_close: "\<bar>of_int (round_half_even q) - q\<bar> \<le> 1 / 2"
proof -
  have "of_int \<lfloor>q\<rfloor> \<le> q" "q < of_int \<lfloor>q\<rfloor> + 1" by linarith+
  then show ?thesis by (auto simp: round_half_even_def Let_def abs_le_iff)
qed

text \<open>The exponent of the leading bit of a number that is not zero.\<close>

definition binary_exponent :: "rat \<Rightarrow> int" where
  "binary_exponent q =
     (let (a, b) = quotient_of \<bar>q\<bar>; e = bitlen a - bitlen b
      in if 2 powi e \<le> \<bar>q\<bar> then e else e - 1)"

definition nearest_float :: "rat \<Rightarrow> rat" where
  "nearest_float q =
     (if q = 0 then 0
      else let unit = 2 powi (binary_exponent q - 52) in of_int (round_half_even (q / unit)) * unit)"

definition round_decimals :: "nat \<Rightarrow> rat \<Rightarrow> rat" where
  "round_decimals n x = nearest_float (of_int (round_half_even (x * 10 ^ n)) / 10 ^ n)"

lemma bitlen_powi:
  assumes "0 < a"
  shows "2 powi (bitlen a - 1) \<le> (of_int a :: rat)" and "(of_int a :: rat) < 2 powi bitlen a"
proof -
  have b: "0 < bitlen a" using assms bitlen_nonneg [of a] bitlen_eq_zero_iff [of a] by linarith
  from bitlen_bounds [OF assms] have bounds: "2 ^ nat (bitlen a - 1) \<le> a" "a < 2 ^ nat (bitlen a)" by auto
  from bounds(1) have "(of_int (2 ^ nat (bitlen a - 1)) :: rat) \<le> of_int a" by (simp only: of_int_le_iff)
  with b show "2 powi (bitlen a - 1) \<le> (of_int a :: rat)" by (simp add: power_int_def)
  from bounds(2) have "(of_int a :: rat) < of_int (2 ^ nat (bitlen a))" by (simp only: of_int_less_iff)
  with b show "(of_int a :: rat) < 2 powi bitlen a" by (simp add: power_int_def)
qed

text \<open>It is the leading bit's indeed.\<close>

lemma binary_exponent_bounds:
  assumes "q \<noteq> 0"
  shows "2 powi binary_exponent q \<le> \<bar>q\<bar>" and "\<bar>q\<bar> < 2 powi (binary_exponent q + 1)"
proof -
  obtain a b where ab: "quotient_of \<bar>q\<bar> = (a, b)" by fastforce
  from quotient_of_denom_pos [OF ab] have b: "0 < b" .
  from quotient_of_div [OF ab] have q: "\<bar>q\<bar> = of_int a / of_int b" .
  have "0 < \<bar>q\<bar>" using assms by simp
  then have a: "0 < a" unfolding q using b by (simp add: zero_less_divide_iff)
  let ?e = "bitlen a - bitlen b"
  note A = bitlen_powi [OF a] and B = bitlen_powi [OF b]
  have pos: "(0 :: rat) < of_int b" using b by simp
  have "\<bar>q\<bar> * of_int b = of_int a" using q pos by simp
  have "2 powi (?e - 1) * (of_int b :: rat) \<le> 2 powi (?e - 1) * 2 powi bitlen b" using B by simp
  also have "\<dots> = 2 powi (bitlen a - 1)" by (simp flip: power_int_add)
  also have "\<dots> \<le> of_int a" by (rule A)
  finally have low: "2 powi (?e - 1) \<le> \<bar>q\<bar>" unfolding q using pos by (simp only: pos_le_divide_eq)
  have "(of_int a :: rat) < 2 powi bitlen a" by (rule A)
  also have "\<dots> = 2 powi (?e + 1) * 2 powi (bitlen b - 1)" by (simp flip: power_int_add)
  also have "\<dots> \<le> 2 powi (?e + 1) * (of_int b :: rat)" using B by simp
  finally have high: "\<bar>q\<bar> < 2 powi (?e + 1)" unfolding q using pos by (simp only: pos_divide_less_eq)
  show "2 powi binary_exponent q \<le> \<bar>q\<bar>" "\<bar>q\<bar> < 2 powi (binary_exponent q + 1)"
    using low high by (auto simp: binary_exponent_def ab Let_def)
qed

section \<open>How far off a result can be\<close>

lemma nearest_float_close: "\<bar>nearest_float q - q\<bar> \<le> \<bar>q\<bar> / 2 ^ 53"
proof (cases "q = 0")
  case False
  let ?u = "2 powi (binary_exponent q - 52) :: rat"
  have u: "0 < ?u" by simp
  have "nearest_float q - q = (of_int (round_half_even (q / ?u)) - q / ?u) * ?u"
    using False u by (simp add: nearest_float_def Let_def left_diff_distrib)
  then have "\<bar>nearest_float q - q\<bar> = \<bar>of_int (round_half_even (q / ?u)) - q / ?u\<bar> * ?u" by (simp add: abs_mult)
  also have "\<dots> \<le> 1 / 2 * ?u" by (rule mult_right_mono [OF round_half_even_close]) simp
  also have "\<dots> = 2 powi binary_exponent q / 2 ^ 53" by (simp add: power_int_diff)
  also have "\<dots> \<le> \<bar>q\<bar> / 2 ^ 53" using binary_exponent_bounds(1) [OF False] by (simp add: divide_right_mono)
  finally show ?thesis .
qed (simp add: nearest_float_def)

lemma nearest_float_within:
  assumes "\<bar>x - q\<bar> \<le> e" "\<bar>q\<bar> \<le> m"
  shows "\<bar>nearest_float x - q\<bar> \<le> e + (m + e) / 2 ^ 53"
proof -
  have "\<bar>x\<bar> \<le> m + e" using assms by linarith
  then have "\<bar>x\<bar> / 2 ^ 53 \<le> (m + e) / 2 ^ 53" by (simp add: divide_right_mono)
  with nearest_float_close [of x] have "\<bar>nearest_float x - x\<bar> \<le> (m + e) / 2 ^ 53" by linarith
  with assms(1) show ?thesis by linarith
qed

lemma round_decimals_within:
  assumes "\<bar>x - q\<bar> \<le> e" "\<bar>q\<bar> \<le> m"
  shows "\<bar>round_decimals n x - q\<bar> \<le> (e + 1 / (2 * 10 ^ n)) + (m + (e + 1 / (2 * 10 ^ n))) / 2 ^ 53"
proof -
  let ?d = "of_int (round_half_even (x * 10 ^ n)) / 10 ^ n"
  have "\<bar>?d - x\<bar> = \<bar>of_int (round_half_even (x * 10 ^ n)) - x * 10 ^ n\<bar> / 10 ^ n"
    using abs_divide [of "of_int (round_half_even (x * 10 ^ n)) - x * 10 ^ n" "10 ^ n"] by (simp add: diff_divide_distrib)
  also have "\<dots> \<le> 1 / 2 / 10 ^ n" by (intro divide_right_mono round_half_even_close) simp
  finally have "\<bar>?d - x\<bar> \<le> 1 / (2 * 10 ^ n)" by simp
  with assms(1) have "\<bar>?d - q\<bar> \<le> e + 1 / (2 * 10 ^ n)" by linarith
  from nearest_float_within [OF this assms(2)] show ?thesis by (simp add: round_decimals_def)
qed

end
