(* ===== verification/Help_Dispatch.thy ===== *)
theory Help_Dispatch
  imports Help_Rights Py_Float
begin

text \<open>
  Which teacher a help request is offered to (\<open>services/teacher_dispatch_service.py\<close>): stored profiles
  normalized, refused or ranked, and the conditions that bind an offer to the chosen profile; with
  the subject and availability readers of \<open>practice_repo.py\<close> and \<open>user_repo.py\<close>, and the scan that
  collects the profiles.

  The rank is computed as the service does, in \<open>float\<close> arithmetic. Refusals carry their code, not the
  sentence that goes with it.
\<close>

section \<open>Stored profiles\<close>

text \<open>\<open>str.lower\<close> on ASCII letters; other characters stay as they are.\<close>

definition lower_char :: "char \<Rightarrow> char" where
  "lower_char c = (let n = of_char c :: nat in if 65 \<le> n \<and> n \<le> 90 then char_of (n + 32) else c)"

definition lower :: "string \<Rightarrow> string" where
  "lower s = map lower_char s"

definition SUBJECT_ALIASES :: "string \<rightharpoonup> string" where
  "SUBJECT_ALIASES = map_of [(''mathematics'', ''math''), (''mathematik'', ''math''), (''deutsch'', ''german''),
     (''englisch'', ''english'')]"

definition normal_subject_id :: "runtime \<Rightarrow> pyval \<Rightarrow> string" where
  "normal_subject_id rt v =
     (let s = lower (strip (py_str rt v)) in case SUBJECT_ALIASES s of Some c \<Rightarrow> c | None \<Rightarrow> s)"

definition TEACHER_AVAILABILITY_FIELDS :: "string list" where
  "TEACHER_AVAILABILITY_FIELDS = [''dispatch_availability'', ''availability_status'', ''teacher_status'']"

definition TEACHER_SUBJECT_FIELDS :: "string list" where
  "TEACHER_SUBJECT_FIELDS = [''dispatch_subjects'', ''primary_subjects'', ''subjects'', ''subject_ids'']"

definition stored_teacher_availability :: "runtime \<Rightarrow> item \<Rightarrow> string option" where
  "stored_teacher_availability rt p =
     map_option (\<lambda>f. py_str rt (item_get p f)) (find (\<lambda>f. truthy (item_get p f)) TEACHER_AVAILABILITY_FIELDS)"

definition subject_texts :: "runtime \<Rightarrow> pyval \<Rightarrow> string list" where
  "subject_texts rt v =
     filter (\<lambda>s. s \<noteq> []) (map (\<lambda>x. strip (py_str rt x)) (case v of PList vs \<Rightarrow> vs | _ \<Rightarrow> [v]))"

fun first_subjects :: "runtime \<Rightarrow> item \<Rightarrow> string list \<Rightarrow> string list" where
  "first_subjects rt p [] = []"
| "first_subjects rt p (f # fs) =
     (if truthy (item_get p f) \<and> subject_texts rt (item_get p f) \<noteq> [] then subject_texts rt (item_get p f)
      else first_subjects rt p fs)"

definition stored_teacher_subjects :: "runtime \<Rightarrow> item \<Rightarrow> string list" where
  "stored_teacher_subjects rt p = first_subjects rt p TEACHER_SUBJECT_FIELDS"

definition ELIGIBLE_ROLES :: "string list" where
  "ELIGIBLE_ROLES = [''teacher'', ''admin'']"

definition AVAILABLE_STATES :: "string list" where
  "AVAILABLE_STATES = [''available'', ''active'', ''online'', ''ready'']"

definition PAUSED_STATES :: "string list" where
  "PAUSED_STATES = [''paused'', ''offline'', ''busy'', ''disabled'', ''inactive'']"

text \<open>\<open>_int(value, default)\<close>\<close>

definition int_or :: "pyval \<Rightarrow> int \<Rightarrow> int" where
  "int_or v d = (case py_int v of Some n \<Rightarrow> n | None \<Rightarrow> d)"

definition first_true :: "item \<Rightarrow> string \<Rightarrow> string \<Rightarrow> pyval" where
  "first_true p a b = (if truthy (item_get p a) then item_get p a else item_get p b)"

record dispatch_teacher =
  dt_id :: string
  dt_role :: string
  dt_account_status :: string
  dt_profile_version :: int
  dt_generation :: int
  dt_subjects :: "string list"
  dt_availability :: string
  dt_max_active :: int
  dt_active :: int
  dt_sla_bucket :: string
  dt_last_dispatched :: pyval

definition normalize_teacher_profile :: "runtime \<Rightarrow> item \<Rightarrow> dispatch_teacher" where
  "normalize_teacher_profile rt p =
     \<lparr>dt_id = str_or rt (item_get p ''user_id'') [],
      dt_role = lower (str_or rt (item_get p ''role'') []),
      dt_account_status = lower (str_or rt (item_get p ''account_status'') []),
      dt_profile_version = int_or (item_get p ''version'') 0,
      dt_generation = int_or (item_get p ''account_fence_generation'') 0,
      dt_subjects = map (\<lambda>s. normal_subject_id rt (PStr s)) (stored_teacher_subjects rt p),
      dt_availability = lower (case stored_teacher_availability rt p of
          Some s \<Rightarrow> if s = [] then ''unavailable'' else s | None \<Rightarrow> ''unavailable''),
      dt_max_active = max 1 (int_or (first_true p ''max_active_sessions'' ''maxActiveSessions'') 3),
      dt_active = max 0 (int_or (first_true p ''dispatch_active_count'' ''active_session_count'') 0),
      dt_sla_bucket = (if truthy (item_get p ''recent_sla_bucket'') then py_str rt (item_get p ''recent_sla_bucket'')
          else str_or rt (item_get p ''teacher_first_reply_sla_bucket'') ''unknown''),
      dt_last_dispatched = first_true p ''last_dispatched_at'' ''dispatch_last_dispatched_at''\<rparr>"

definition teacher_availability_status :: "runtime \<Rightarrow> item \<Rightarrow> string option" where
  "teacher_availability_status rt p =
     (let a = dt_availability (normalize_teacher_profile rt p)
      in if a \<in> set AVAILABLE_STATES then Some ''available''
         else if a \<in> set PAUSED_STATES then Some ''paused'' else None)"

section \<open>Refusing and ranking\<close>

definition standing_refusal :: "dispatch_teacher \<Rightarrow> string option" where
  "standing_refusal t =
     (if dt_id t = [] then Some ''missing_teacher_id''
      else if dt_role t \<notin> set ELIGIBLE_ROLES then Some ''role_not_eligible''
      else if dt_account_status t \<noteq> ''active'' then Some ''inactive_account''
      else if dt_profile_version t \<le> 0 \<or> dt_generation t \<le> 0 then Some ''lifecycle_observation_missing''
      else if dt_availability t \<in> set PAUSED_STATES then Some ''not_available''
      else if dt_availability t \<notin> set AVAILABLE_STATES then Some ''not_available''
      else if dt_max_active t \<le> dt_active t then Some ''max_active_sessions''
      else None)"

definition refusal_reason :: "runtime \<Rightarrow> pyval \<Rightarrow> string list \<Rightarrow> dispatch_teacher \<Rightarrow> string option" where
  "refusal_reason rt subject previous t =
     (case standing_refusal t of
        Some c \<Rightarrow> Some c
      | None \<Rightarrow>
          (if dt_id t \<in> set previous then Some ''previously_timed_out''
           else if dt_subjects t \<noteq> [] \<and> normal_subject_id rt (if truthy subject then subject else PStr []) \<notin> set (dt_subjects t)
           then Some ''subject_mismatch''
           else if dt_subjects t = [] then Some ''missing_subject_capability''
           else None))"

definition recency_penalty :: "runtime \<Rightarrow> pyval \<Rightarrow> string \<Rightarrow> int" where
  "recency_penalty rt v now =
     (case (parse_timestamp rt v, parse_timestamp rt (PStr now)) of
        (Some d, Some n) \<Rightarrow> (let age = max 0 ((n - d) div 60000000) in max 0 (60 - min age 60))
      | _ \<Rightarrow> 0)"

definition sla_penalty :: "string \<Rightarrow> int" where
  "sla_penalty b = (case map_of [(''within_target'', 0), (''at_risk'', 1), (''unknown'', 2), (''breached'', 3)] b of
       Some n \<Rightarrow> n | None \<Rightarrow> 2)"

text \<open>
  The rank's number from the active count, the maximum, and the two penalties:
  \<open>round((load_ratio * 100) + (sla_penalty * 20) + last_dispatch_penalty, 2)\<close>, each result the nearest \<open>float\<close>.
\<close>

definition rank_score :: "int \<Rightarrow> int \<Rightarrow> int \<Rightarrow> int \<Rightarrow> rat" where
  "rank_score active cap sla recency =
     (let load_ratio = nearest_float (of_int active / of_int cap);
          scaled = nearest_float (load_ratio * 100);
          with_sla = nearest_float (scaled + of_int (sla * 20));
          total = nearest_float (with_sla + of_int recency)
      in round_decimals 2 total)"

record candidate =
  cand_teacher :: dispatch_teacher
  cand_score :: rat
  cand_refusal :: "string option"

definition candidate_payload :: "runtime \<Rightarrow> string \<Rightarrow> string option \<Rightarrow> dispatch_teacher \<Rightarrow> candidate" where
  "candidate_payload rt now refusal t =
     \<lparr>cand_teacher = t,
      cand_score = rank_score (dt_active t) (dt_max_active t) (sla_penalty (dt_sla_bucket t))
        (recency_penalty rt (dt_last_dispatched t) now),
      cand_refusal = refusal\<rparr>"

text \<open>The most frequent refusal, the least text among equals.\<close>

definition beats :: "string list \<Rightarrow> string \<Rightarrow> string \<Rightarrow> bool" where
  "beats codes c d \<longleftrightarrow>
     count_list codes d < count_list codes c \<or> (count_list codes c = count_list codes d \<and> text_less c d)"

definition top_refusal_reason :: "string list \<Rightarrow> string" where
  "top_refusal_reason codes =
     (case codes of
        [] \<Rightarrow> ''no_teacher_profiles''
      | c # cs \<Rightarrow> fold (\<lambda>d best. if beats codes d best then d else best) cs c)"

record dispatch_plan =
  selected :: "candidate list"
  refused :: "candidate list"
  no_candidate_reason :: "string option"

definition ranked_candidates ::
    "runtime \<Rightarrow> pyval \<Rightarrow> string list \<Rightarrow> string \<Rightarrow> item list \<Rightarrow> candidate list" where
  "ranked_candidates rt subject previous now profiles =
     map (\<lambda>p. let t = normalize_teacher_profile rt p
            in candidate_payload rt now (refusal_reason rt subject previous t) t) profiles"

definition plan_dispatch ::
    "runtime \<Rightarrow> pyval \<Rightarrow> string list \<Rightarrow> string \<Rightarrow> item list \<Rightarrow> dispatch_plan" where
  "plan_dispatch rt subject previous now profiles =
     (let cs = ranked_candidates rt subject previous now profiles;
          chosen = sort_key cand_score (filter (\<lambda>c. cand_refusal c = None) cs);
          turned = filter (\<lambda>c. cand_refusal c \<noteq> None) cs
      in \<lparr>selected = chosen, refused = turned,
          no_candidate_reason = (if chosen \<noteq> [] then None
            else Some (top_refusal_reason (List.map_filter cand_refusal turned)))\<rparr>)"

definition teacher_availability_count :: "runtime \<Rightarrow> item list \<Rightarrow> nat" where
  "teacher_availability_count rt profiles =
     length (filter (\<lambda>t. standing_refusal t = None \<and> dt_subjects t \<noteq> []) (map (normalize_teacher_profile rt) profiles))"

text \<open>
  \<open>teacher_assignment_conditions\<close>: the active fence of the chosen account, and its profile exactly as it
  was read.
\<close>

definition profile_condition :: "string \<Rightarrow> string \<Rightarrow> int \<Rightarrow> op" where
  "profile_condition u role version =
     Check (''USER#'' @ u, ''PROFILE'')
       (C_And (C_Present ''PK'') (C_And (C_Present ''SK'')
         (C_And (C_Eq ''user_id'' (PStr u)) (C_And (C_Eq ''role'' (PStr role))
           (C_And (C_Eq ''account_status'' (PStr ''active'')) (C_Eq ''version'' (PInt version)))))))"

definition teacher_assignment_conditions :: "string \<Rightarrow> string \<Rightarrow> int \<Rightarrow> int \<Rightarrow> op list result" where
  "teacher_assignment_conditions u role generation version =
     (case active_fence_condition u (Some generation) of
        Inl e \<Rightarrow> Inl e
      | Inr fence \<Rightarrow> Inr [fence, profile_condition u role version])"

section \<open>Collecting the profiles\<close>

text \<open>
  \<open>_scan_filtered_items\<close>: pages of a filtered scan until enough accepted items are there, the service
  has no next page, or it gives the cursor it was asked with. A scan is asked with the filter, the
  number of rows it may examine, and the cursor. It may run for ever if the service
  does, so it is a partial function; accepting an item may read the table.
\<close>

type_synonym ('c, 'w) scan = "cond \<Rightarrow> nat \<Rightarrow> 'c option \<Rightarrow> 'w \<Rightarrow> (item list \<times> 'c option) result \<times> 'w"

type_synonym 'w acceptance = "item \<Rightarrow> 'w \<Rightarrow> item option result \<times> 'w"

fun take_accepted :: "'w acceptance \<Rightarrow> nat \<Rightarrow> item list \<Rightarrow> item list \<Rightarrow> 'w \<Rightarrow> item list result \<times> 'w" where
  "take_accepted accept cap [] got w = (Inr got, w)"
| "take_accepted accept cap (x # xs) got w =
     (case accept x w of
        (Inl e, w1) \<Rightarrow> (Inl e, w1)
      | (Inr r, w1) \<Rightarrow>
          (let got' = (case r of None \<Rightarrow> got | Some y \<Rightarrow> got @ [y])
           in if cap \<le> length got' then (Inr got', w1) else take_accepted accept cap xs got' w1))"

partial_function (option) scan_filtered ::
    "('c, 'w) scan \<Rightarrow> cond \<Rightarrow> 'w acceptance \<Rightarrow> nat \<Rightarrow> 'c option \<Rightarrow> item list \<Rightarrow> 'w \<Rightarrow> (item list result \<times> 'w) option" where
  "scan_filtered scan flt accept cap cursor got w =
     (if cap \<le> length got then Some (Inr got, w)
      else case scan flt (cap - length got) cursor w of
          (Inl e, w1) \<Rightarrow> Some (Inl e, w1)
        | (Inr (page, following), w1) \<Rightarrow>
            (case take_accepted accept cap page got w1 of
               (Inl e, w2) \<Rightarrow> Some (Inl e, w2)
             | (Inr got', w2) \<Rightarrow>
                 (if following = None \<or> following = cursor then Some (Inr got', w2)
                  else scan_filtered scan flt accept cap following got' w2)))"

definition scan_filtered_items ::
    "('c, 'w) scan \<Rightarrow> cond \<Rightarrow> 'w acceptance \<Rightarrow> nat \<Rightarrow> 'w \<Rightarrow> (item list result \<times> 'w) option" where
  "scan_filtered_items scan flt accept cap w =
     map_option (\<lambda>(r, w'). (map_sum id (take cap) r, w')) (scan_filtered scan flt accept cap None [] w)"

definition eligible_profile :: "'w db \<Rightarrow> runtime \<Rightarrow> 'w acceptance" where
  "eligible_profile db rt p w =
     (let u = str_or rt (item_get p ''user_id'') []
      in if u = [] \<or> lower (str_or rt (item_get p ''role'') []) \<notin> set ELIGIBLE_ROLES
            \<or> item_get p ''account_status'' \<noteq> PStr ''active'' \<or> int_or (item_get p ''version'') 0 \<le> 0
         then (Inr None, w)
         else case require_active_account_fence db u None w of
             (Inl e, w1) \<Rightarrow> (if e = Provider_Error then Inl e else Inr None, w1)
           | (Inr fence, w1) \<Rightarrow> (Inr (Some (p(''account_fence_generation'' \<mapsto> PInt (fence_generation fence)))), w1))"

definition list_teacher_profiles ::
    "'w db \<Rightarrow> runtime \<Rightarrow> ('c, 'w) scan \<Rightarrow> 'w \<Rightarrow> (item list result \<times> 'w) option" where
  "list_teacher_profiles db rt scan w = scan_filtered_items scan (C_Eq ''SK'' (PStr ''PROFILE'')) (eligible_profile db rt) 200 w"

section \<open>The rank\<close>

text \<open>The number the rank is meant to be, and how near it the computed one is for a teacher who is not full.\<close>

definition exact_rank :: "runtime \<Rightarrow> string \<Rightarrow> dispatch_teacher \<Rightarrow> rat" where
  "exact_rank rt now t =
     100 * of_int (dt_active t) / of_int (dt_max_active t) + 20 * of_int (sla_penalty (dt_sla_bucket t))
       + of_int (recency_penalty rt (dt_last_dispatched t) now)"

lemma float_sum_close:
  fixes q s r :: rat
  assumes "0 \<le> q" "q \<le> 1" "0 \<le> s" "s \<le> 60" "0 \<le> r" "r \<le> 60"
  shows "\<bar>round_decimals 2 (nearest_float (nearest_float (nearest_float (nearest_float q * 100) + s) + r)) - (100 * q + s + r)\<bar>
    \<le> 51 / 10000"
proof -
  have scale: "\<bar>x * 100 - 100 * y\<bar> = 100 * \<bar>x - y\<bar>" for x y :: rat by (auto simp: abs_if)
  have "\<bar>nearest_float q - q\<bar> \<le> \<bar>q\<bar> / 2 ^ 53" by (rule nearest_float_close)
  also have "\<dots> \<le> 1 / 2 ^ 53" using assms(1,2) by (intro divide_right_mono) simp_all
  finally have 1: "\<bar>nearest_float q * 100 - 100 * q\<bar> \<le> 100 / 2 ^ 53" unfolding scale by simp
  have 2: "\<bar>nearest_float (nearest_float q * 100) - 100 * q\<bar> \<le> 1 / 10 ^ 12"
    by (rule order_trans [OF nearest_float_within [OF 1, of 100]]) (use assms(1,2) in simp_all)
  then have 2: "\<bar>nearest_float (nearest_float q * 100) + s - (100 * q + s)\<bar> \<le> 1 / 10 ^ 12" by simp
  have "\<bar>nearest_float (nearest_float (nearest_float q * 100) + s) - (100 * q + s)\<bar> \<le> 1 / 10 ^ 11"
    by (rule order_trans [OF nearest_float_within [OF 2, of 160]]) (use assms(1-4) in simp_all)
  then have 3: "\<bar>nearest_float (nearest_float (nearest_float q * 100) + s) + r - (100 * q + s + r)\<bar> \<le> 1 / 10 ^ 11" by simp
  have 4: "\<bar>nearest_float (nearest_float (nearest_float (nearest_float q * 100) + s) + r) - (100 * q + s + r)\<bar> \<le> 1 / 10 ^ 10"
    by (rule order_trans [OF nearest_float_within [OF 3, of 220]]) (use assms in simp_all)
  show ?thesis
    by (rule order_trans [OF round_decimals_within [OF 4, of 220]]) (use assms in simp_all)
qed

lemma rank_score_close:
  assumes "0 \<le> a" "a < c" "0 \<le> s" "s \<le> 3" "0 \<le> r" "r \<le> 60"
  shows "\<bar>rank_score a c s r - (100 * of_int a / of_int c + 20 * of_int s + of_int r)\<bar> \<le> 51 / 10000"
proof -
  have "(0 :: rat) \<le> of_int a / of_int c" "of_int a / of_int c \<le> (1 :: rat)" using assms(1,2) by (simp_all add: divide_le_eq)
  moreover have "(0 :: rat) \<le> of_int (s * 20)" "of_int (s * 20) \<le> (60 :: rat)" using assms(3,4) by simp_all
  moreover have "(0 :: rat) \<le> of_int r" "of_int r \<le> (60 :: rat)" using assms(5,6) by simp_all
  ultimately have "\<bar>rank_score a c s r - (100 * (of_int a / of_int c) + of_int (s * 20) + of_int r)\<bar> \<le> 51 / 10000"
    unfolding rank_score_def Let_def by (rule float_sum_close)
  then show ?thesis by (simp add: algebra_simps)
qed

lemma sla_penalty_bounds: "0 \<le> sla_penalty b" "sla_penalty b \<le> 3"
  by (auto simp: sla_penalty_def)

lemma recency_penalty_bounds: "0 \<le> recency_penalty rt v now" "recency_penalty rt v now \<le> 60"
  by (auto simp: recency_penalty_def Let_def split: option.splits)

text \<open>So the least rank is the least number, but for the two digits it is rounded to.\<close>

lemma score_close:
  assumes "refusal_reason rt subject previous t = None" "0 \<le> dt_active t"
  shows "\<bar>cand_score (candidate_payload rt now refusal t) - exact_rank rt now t\<bar> \<le> 51 / 10000"
proof -
  from assms(1) have "dt_active t < dt_max_active t"
    by (auto simp: refusal_reason_def standing_refusal_def split: option.splits if_splits)
  from rank_score_close [OF assms(2) this sla_penalty_bounds recency_penalty_bounds]
  show ?thesis by (simp add: candidate_payload_def exact_rank_def)
qed

section \<open>What the plan chooses\<close>

lemma take_accepted_length:
  "take_accepted accept cap page got w = (Inr got', w') \<Longrightarrow> length got \<le> length got'"
proof (induction page arbitrary: got w)
  case (Cons x xs)
  show ?case
  proof (cases "accept x w")
    case (Pair r w1)
    with Cons show ?thesis
      by (auto simp: Let_def split: sum.splits if_splits option.splits) (fastforce dest: Cons.IH)+
  qed
qed simp

text \<open>
  The scan ends when every new cursor is further on than the one it was asked with, in a measure that
  cannot go down for ever.
\<close>

lemma scan_filtered_ends:
  assumes "\<And>n c u items k u'. scan flt n c u = (Inr (items, Some k), u') \<Longrightarrow> Some k \<noteq> c \<Longrightarrow> pos (Some k) < (pos c :: nat)"
  shows "\<exists>r. scan_filtered scan flt accept cap cursor got w = Some r"
proof (induction "pos cursor" arbitrary: cursor got w rule: less_induct)
  case less
  obtain r w1 where s: "scan flt (cap - length got) cursor w = (r, w1)" by fastforce
  show ?case
  proof (cases r)
    case (Inr pf)
    then obtain page following where r: "r = Inr (page, following)" by (cases pf) auto
    obtain g w2 where t: "take_accepted accept cap page got w1 = (g, w2)" by fastforce
    show ?thesis
    proof (cases "following = None \<or> following = cursor")
      case False
      with assms s r have "pos following < pos cursor" by auto
      from less [OF this] obtain z where "\<And>got' w'. \<exists>z. scan_filtered scan flt accept cap following got' w' = Some z" by blast
      with s r t False show ?thesis by (subst scan_filtered.simps) (auto split: sum.splits)
    qed (use s r t in \<open>subst scan_filtered.simps, auto split: sum.splits\<close>)
  qed (use s in \<open>subst scan_filtered.simps, auto\<close>)
qed

lemma normalize_id: "dt_id (normalize_teacher_profile rt p) = str_or rt (item_get p ''user_id'') []"
  by (simp add: normalize_teacher_profile_def)

lemma plan_selected:
  "c \<in> set (selected (plan_dispatch rt subject previous now profiles)) \<longleftrightarrow>
     (\<exists>p\<in>set profiles. let t = normalize_teacher_profile rt p
        in c = candidate_payload rt now None t \<and> refusal_reason rt subject previous t = None)"
  by (auto simp: plan_dispatch_def ranked_candidates_def Let_def candidate_payload_def)

lemma plan_sorted: "sorted (map cand_score (selected (plan_dispatch rt subject previous now profiles)))"
  by (simp add: plan_dispatch_def Let_def)

lemma plan_best:
  assumes "selected (plan_dispatch rt subject previous now profiles) = c # cs" "d \<in> set cs"
  shows "cand_score c \<le> cand_score d"
  using plan_sorted [of rt subject previous now profiles] assms by auto

end
