(* ===== verification/Session_Message.thy ===== *)
theory Session_Message
  imports Runtime
begin

text \<open>
  Rows of a learning session's partition (\<open>services/learning_session/_write.py\<close> and \<open>_store.py\<close>): the
  put that appends one message, the contract every message row keeps, and the fenced put of another
  row of the conversation.
\<close>

datatype message_failure = Msg_Value_Error | Msg_Conflict | Msg_Unavailable | Msg_Raises err

definition conv_pk :: "string \<Rightarrow> string" where
  "conv_pk c = ''CONV#'' @ c"

definition msg_sk :: "string \<Rightarrow> string" where
  "msg_sk m = ''MSG#'' @ m"

definition record_key :: "string \<Rightarrow> key" where
  "record_key c = (conv_pk c, ''CONV'')"

definition ROLES :: "string list" where
  "ROLES = [''student'', ''assistant'', ''teacher'', ''system'']"

definition ROLE_FIELDS :: "string \<Rightarrow> string list" where
  "ROLE_FIELDS r =
     (if r = ''student'' then [''attachment_ids'', ''quote'']
      else if r = ''assistant'' then [''structured'', ''target_unit_id'', ''allowance'']
      else if r = ''teacher'' then [''teacher_response_rich'', ''teacher_response_format'', ''author_name'', ''attachment_ids'']
      else [''system_event'', ''escalation_message''])"

definition REQUIRED_FIELDS :: "string \<Rightarrow> string list" where
  "REQUIRED_FIELDS r =
     (if r = ''student'' then [''attachment_ids'']
      else if r = ''assistant'' then [''structured'']
      else if r = ''teacher'' then [''teacher_response_rich'', ''teacher_response_format'']
      else [''system_event''])"

text \<open>\<open>validate_message_row\<close>\<close>

definition message_row_ok :: "string \<Rightarrow> string option \<Rightarrow> item \<Rightarrow> bool" where
  "message_row_ok c owner i =
     (case item_get i ''message_id'' of
        PStr m \<Rightarrow>
          m \<noteq> [] \<and> item_get i ''PK'' = PStr (conv_pk c) \<and> item_get i ''SK'' = PStr (msg_sk m)
          \<and> item_get i ''conversation_id'' = PStr c
          \<and> (case owner of None \<Rightarrow> True | Some u \<Rightarrow> item_get i ''student_id'' = PStr u)
          \<and> (case item_get i ''student_id'' of PStr s \<Rightarrow> s \<noteq> [] | _ \<Rightarrow> False)
          \<and> (case item_get i ''role'' of PStr r \<Rightarrow> r \<in> set ROLES | _ \<Rightarrow> False)
          \<and> (case item_get i ''content'' of PStr s \<Rightarrow> True | _ \<Rightarrow> False)
          \<and> (case item_get i ''created_at'' of PStr s \<Rightarrow> s \<noteq> [] | _ \<Rightarrow> False)
          \<and> item_get i ''entity_type'' = PStr ''conversation_message''
          \<and> item_get i ''schema_version'' = PStr ''conversation-message.v1''
      | _ \<Rightarrow> False)"

fun id_list :: "pyval \<Rightarrow> (string \<times> pyval) list option" where
  "id_list (PList vs) = Some [(''attachment_ids'', PList vs)]"
| "id_list v = None"

text \<open>
  The role's own part of the row; a keyword argument not given is \<open>None\<close> where the code reads it with
  \<open>get\<close>. \<open>None\<close> for a \<open>ValueError\<close>.
\<close>

definition role_part :: "string \<Rightarrow> item \<Rightarrow> item \<Rightarrow> (string \<times> pyval) list option" where
  "role_part r base args =
     (let get = item_get args
      in if r = ''student'' then
           map_option (\<lambda>ids. ids @ (if get ''quote'' = PNone then [] else [(''quote'', get ''quote'')])) (id_list (get ''attachment_ids''))
         else if r = ''assistant'' then
           (let given = [(''structured'', get ''structured'')]
                  @ (if truthy (get ''target_unit_id'') then [(''target_unit_id'', get ''target_unit_id'')] else [])
            in case get ''allowance'' of
                 PNone \<Rightarrow> Some given
               | PDict kvs \<Rightarrow>
                   (if \<exists>k\<in>set (map fst kvs). k \<in> set (map fst given) \<or> base k \<noteq> None then None else Some (given @ kvs))
               | _ \<Rightarrow> None)
         else if r = ''teacher'' then
           (let given = [(''teacher_response_rich'', get ''teacher_response_rich''),
                  (''teacher_response_format'', get ''teacher_response_format'')]
                  @ (case get ''author_name'' of PStr s \<Rightarrow> (if strip s = [] then [] else [(''author_name'', PStr (strip s))]) | _ \<Rightarrow> [])
            in if get ''attachment_ids'' = PNone then Some given
               else map_option (\<lambda>ids. given @ ids) (id_list (get ''attachment_ids'')))
         else Some [(''system_event'', get ''system_event''), (''escalation_message'', get ''escalation_message'')])"

definition message_base :: "string \<Rightarrow> string \<Rightarrow> string \<Rightarrow> string \<Rightarrow> int \<Rightarrow> string \<Rightarrow> string \<Rightarrow> item" where
  "message_base c r m student g content created = dict_of
     [(''PK'', PStr (conv_pk c)), (''SK'', PStr (msg_sk m)), (''entity_type'', PStr ''conversation_message''),
      (''schema_version'', PStr ''conversation-message.v1''), (''message_id'', PStr m), (''conversation_id'', PStr c),
      (''student_id'', PStr student), (''owner_id'', PStr student), (''account_fence_generation'', PInt g),
      (''role'', PStr r), (''content'', PStr content), (''created_at'', PStr created)]"

definition append_message ::
    "string \<Rightarrow> string \<Rightarrow> string \<Rightarrow> string \<Rightarrow> int \<Rightarrow> string \<Rightarrow> string \<Rightarrow> (string \<times> pyval) list \<Rightarrow> message_failure + op" where
  "append_message c r m student g content created args =
     (if r \<notin> set ROLES then Inl Msg_Value_Error
      else if \<not> set (map fst args) \<subseteq> set (ROLE_FIELDS r) then Inl Msg_Value_Error
      else if \<not> set (REQUIRED_FIELDS r) \<subseteq> set (map fst args) then Inl Msg_Value_Error
      else if student = [] \<or> g \<le> 0 then Inl Msg_Conflict
      else let base = message_base c r m student g content created
           in case role_part r base (dict_of args) of
                None \<Rightarrow> Inl Msg_Value_Error
              | Some part \<Rightarrow>
                  (let row = base ++ dict_of part
                   in if message_row_ok c (Some student) row then Inr (Put row create_only) else Inl Msg_Unavailable))"

text \<open>
  \<open>build_conversation_write_transaction\<close> with its two modes: the owner's fence and the stamped put.
\<close>

definition build_conversation_write :: "item \<Rightarrow> string \<Rightarrow> int \<Rightarrow> bool \<Rightarrow> message_failure + op list" where
  "build_conversation_write i owner g replace =
     (if owner = [] \<or> g \<le> 0 then Inl Msg_Conflict
      else let stamped = i ++ dict_of [(''owner_id'', PStr owner), (''student_id'', PStr owner), (''account_fence_generation'', PInt g)]
           in if item_key stamped = None then Inl Msg_Conflict
              else case active_fence_condition owner (Some g) of
                  Inl e \<Rightarrow> Inl (Msg_Raises e)
                | Inr fence \<Rightarrow>
                    Inr [fence,
                      Put stamped (if replace
                        then C_And (C_Present ''PK'') (C_And (C_Present ''SK'')
                          (C_Or (C_Eq ''owner_id'' (PStr owner)) (C_Eq ''student_id'' (PStr owner))))
                        else create_only)])"

section \<open>What an appended row is\<close>

lemma append_message_Inr:
  assumes "append_message c r m student g content created args = Inr oper"
  obtains row where "oper = Put row create_only" "message_row_ok c (Some student) row"
  using assms by (auto simp: append_message_def Let_def split: if_splits option.splits)

lemma append_message_key:
  assumes "append_message c r m student g content created args = Inr oper"
  obtains m' where "op_key oper = Some (conv_pk c, msg_sk m')" "op_cond oper = create_only"
  using assms by (rule append_message_Inr)
    (auto simp: message_row_ok_def item_key_def split: pyval.splits intro!: that)

end
