(* ===== verification/Help_Request.thy ===== *)
theory Help_Request
  imports Help_Dispatch Session_Message
begin

text \<open>
  The writes of a help request (\<open>services/help_requests.py\<close>): opening it, offering it, saying that
  nobody is free, ending it, a teacher's moves and replies, and taking a deleting teacher off it.
  Each is one conditional transaction on the request's version.

  Stamps and ids the code draws from the clock and from \<open>uuid4\<close> are arguments. Telling people of a
  change (notifications, telemetry) happens after the write and cannot undo it; it is left out.
\<close>

datatype ending_refusal = Not_Found | Already_Accepted | Closed | Not_Due | Not_Withdrawable

datatype help_failure =
    Help_Conflict | Help_Unavailable | Help_Refused ending_refusal | Help_Ending_Unavailable
  | Help_Raises err | Help_Message message_failure

type_synonym 'a helped = "help_failure + 'a"

record help_env =
  he_rt :: runtime
  he_iso :: "int \<Rightarrow> string"
  he_clock :: int
  he_expiry :: int

section \<open>The one update\<close>

definition OFFER_FIELDS :: "string list" where
  "OFFER_FIELDS = [''dispatched_teacher_id'', ''dispatch_id'', ''dispatch_deadline_at'']"

definition NO_CANDIDATE_FIELDS :: "string list" where
  "NO_CANDIDATE_FIELDS = [''dispatch_no_candidate_reason'', ''dispatch_no_candidate_since'']"

definition read_version :: "item \<Rightarrow> int" where
  "read_version record = (case stored_int (item_get record ''version'') of Some n \<Rightarrow> n | None \<Rightarrow> 0)"

definition request_key :: "runtime \<Rightarrow> item \<Rightarrow> key" where
  "request_key rt record = help_key (str_or rt (item_get record ''conversation_id'') [])"

definition update_upds :: "int \<Rightarrow> (string \<times> pyval) list \<Rightarrow> string list \<Rightarrow> upd list" where
  "update_upds v changes remove =
     map (\<lambda>(a, x). U_Set a x) changes @ [U_Set ''version'' (PInt (v + 1))]
     @ map U_Remove (filter (\<lambda>a. a \<notin> fst ` set changes) remove)"

definition update_operation ::
    "runtime \<Rightarrow> item \<Rightarrow> (string \<times> pyval) list \<Rightarrow> string list \<Rightarrow> cond \<Rightarrow> op" where
  "update_operation rt record changes remove condition =
     (let v = read_version record
      in Update (request_key rt record) (update_upds v changes remove)
           (C_And (C_Present ''PK'') (C_And (C_Eq ''version'' (PInt v)) condition)))"

text \<open>The record as the caller goes on with it.\<close>

definition written_record :: "item \<Rightarrow> (string \<times> pyval) list \<Rightarrow> string list \<Rightarrow> item" where
  "written_record record changes remove =
     (\<lambda>a. if a \<in> set remove \<and> a \<notin> fst ` set changes then None else record a)
       ++ dict_of changes ++ dict_of [(''version'', PInt (read_version record + 1))]"

definition help_transact :: "'w db \<Rightarrow> op list \<Rightarrow> item \<Rightarrow> 'w \<Rightarrow> item helped \<times> 'w" where
  "help_transact db ops written w =
     (case db_tx db ops w of (True, w1) \<Rightarrow> (Inr written, w1) | (False, w1) \<Rightarrow> (Inl Help_Conflict, w1))"

definition help_write ::
    "'w db \<Rightarrow> runtime \<Rightarrow> item \<Rightarrow> (string \<times> pyval) list \<Rightarrow> string list \<Rightarrow> cond \<Rightarrow> op list \<Rightarrow> bool \<Rightarrow> 'w \<Rightarrow> item helped \<times> 'w" where
  "help_write db rt record changes remove condition extra fenced w =
     (let ops = update_operation rt record changes remove condition # extra;
          written = written_record record changes remove
      in if fenced then
           (case active_fence_condition (str_or rt (item_get record ''student_id'') [])
                (Some (int_or (item_get record ''account_fence_generation'') 1)) of
              Inl e \<Rightarrow> (Inl (Help_Raises e), w)
            | Inr fence \<Rightarrow> help_transact db (fence # ops) written w)
         else help_transact db ops written w)"

section \<open>Offering\<close>

fun list_values :: "pyval \<Rightarrow> pyval list" where
  "list_values (PList vs) = vs"
| "list_values v = []"

definition deadline_of :: "help_env \<Rightarrow> string \<Rightarrow> string" where
  "deadline_of he now =
     he_iso he ((case parse_timestamp (he_rt he) (PStr now) of Some m \<Rightarrow> m | None \<Rightarrow> he_clock he) + 600 * 1000000)"

text \<open>\<open>dict.fromkeys\<close>: first occurrences, in order.\<close>

fun first_ones :: "string list \<Rightarrow> string list" where
  "first_ones [] = []"
| "first_ones (x # xs) = x # filter (\<lambda>y. y \<noteq> x) (first_ones xs)"

definition previous_teachers :: "runtime \<Rightarrow> item \<Rightarrow> string \<Rightarrow> string list" where
  "previous_teachers rt record now =
     (let previous = first_ones (map (py_str rt)
              (filter truthy (list_values (item_get record ''previous_dispatch_teacher_ids''))));
          lapsed = offered_to rt record
      in if lapsed \<noteq> [] \<and> item_get record ''dispatch_status'' = PStr ''dispatched''
            \<and> offer_expired rt (item_get record ''dispatch_deadline_at'') (PStr now) \<and> lapsed \<notin> set previous
         then previous @ [lapsed] else previous)"

definition still_pending :: cond where
  "still_pending = C_And (C_Eq ''escalation_status'' (PStr PENDING)) (C_Absent ''teacher_id'')"

definition no_candidate_changes :: "item \<Rightarrow> string \<Rightarrow> string list \<Rightarrow> string \<Rightarrow> (string \<times> pyval) list" where
  "no_candidate_changes record reason previous now =
     [(''dispatch_status'', PStr ''no_candidate''), (''dispatch_no_candidate_reason'', PStr reason),
      (''dispatch_no_candidate_since'', if truthy (item_get record ''dispatch_no_candidate_since'')
         then item_get record ''dispatch_no_candidate_since'' else PStr now),
      (''dispatch_updated_at'', PStr now), (''previous_dispatch_teacher_ids'', PList (map PStr previous))]"

definition record_no_candidate ::
    "'w db \<Rightarrow> runtime \<Rightarrow> item \<Rightarrow> string \<Rightarrow> string list \<Rightarrow> string \<Rightarrow> 'w \<Rightarrow> item helped \<times> 'w" where
  "record_no_candidate db rt record reason previous now w =
     (if item_get record ''dispatch_status'' = PStr ''no_candidate''
         \<and> item_get record ''dispatch_no_candidate_reason'' = PStr reason
         \<and> \<not> truthy (item_get record ''dispatch_id'')
         \<and> map PStr previous = list_values (item_get record ''previous_dispatch_teacher_ids'')
      then (Inr record, w)
      else case help_write db rt record (no_candidate_changes record reason previous now) OFFER_FIELDS still_pending [] False w of
          (Inl Help_Conflict, w1) \<Rightarrow> (Inr record, w1)
        | r \<Rightarrow> r)"

definition offer_changes :: "item \<Rightarrow> string \<Rightarrow> string \<Rightarrow> string \<Rightarrow> string list \<Rightarrow> string \<Rightarrow> (string \<times> pyval) list" where
  "offer_changes record u oid deadline previous now =
     [(''dispatched_teacher_id'', PStr u), (''dispatch_status'', PStr ''dispatched''), (''dispatch_id'', PStr oid),
      (''dispatch_deadline_at'', PStr deadline),
      (''dispatch_attempt_count'', PInt (int_or (item_get record ''dispatch_attempt_count'') 0 + 1)),
      (''dispatch_updated_at'', PStr now), (''previous_dispatch_teacher_ids'', PList (map PStr previous))]"

definition make_offer ::
    "'w db \<Rightarrow> help_env \<Rightarrow> item \<Rightarrow> dispatch_teacher \<Rightarrow> string \<Rightarrow> string list \<Rightarrow> string \<Rightarrow> 'w \<Rightarrow> item helped \<times> 'w" where
  "make_offer db he record t oid previous now w =
     (case teacher_assignment_conditions (dt_id t) (dt_role t) (dt_generation t) (dt_profile_version t) of
        Inl e \<Rightarrow> (Inl (Help_Raises e), w)
      | Inr extra \<Rightarrow>
          (case help_write db (he_rt he) record (offer_changes record (dt_id t) oid (deadline_of he now) previous now)
               NO_CANDIDATE_FIELDS still_pending extra False w of
             (Inl Help_Conflict, w1) \<Rightarrow> (Inr record, w1)
           | r \<Rightarrow> r))"

definition dispatch ::
    "'w db \<Rightarrow> help_env \<Rightarrow> ('w \<Rightarrow> item list result \<times> 'w) \<Rightarrow> item \<Rightarrow> string \<Rightarrow> string \<Rightarrow> 'w \<Rightarrow> item helped \<times> 'w" where
  "dispatch db he profiles record oid now w =
     (let rt = he_rt he
      in if stored_status rt record \<noteq> PENDING \<or> truthy (item_get record ''teacher_id'') \<or> live_offer rt record now
         then (Inr record, w)
         else case profiles w of
             (Inl e, w1) \<Rightarrow> (Inl (Help_Raises e), w1)
           | (Inr ps, w1) \<Rightarrow>
               (let previous = previous_teachers rt record now;
                    plan = plan_dispatch rt (item_get record ''subject'') previous now ps
                in case selected plan of
                     [] \<Rightarrow> record_no_candidate db rt record
                         (case no_candidate_reason plan of Some c \<Rightarrow> if c = [] then ''no_eligible_teacher'' else c
                          | None \<Rightarrow> ''no_eligible_teacher'') previous now w1
                   | c # cs \<Rightarrow> make_offer db he record (cand_teacher c) oid previous now w1))"

section \<open>Ending\<close>

datatype ending = Ended_Already | Refused_Ending ending_refusal | Raises_Ending err | Ending_Rows "op list"

definition ending_changes :: "string \<Rightarrow> string \<Rightarrow> (string \<times> pyval) list" where
  "ending_changes outcome now =
     [(''escalation_status'', PStr outcome), (''dispatch_status'', PStr outcome),
      (''escalation_'' @ outcome @ ''_at'', PStr now), (''updated_at'', PStr now)]"

definition due_before :: "runtime \<Rightarrow> item \<Rightarrow> string option \<Rightarrow> bool" where
  "due_before rt record asked_before =
     (case asked_before of
        None \<Rightarrow> True
      | Some b \<Rightarrow>
          (case (parse_timestamp rt (item_get record ''escalated_at''), parse_timestamp rt (PStr b)) of
             (Some asked, Some cutoff) \<Rightarrow> asked \<le> cutoff
           | _ \<Rightarrow> False))"

text \<open>
  What an attempt of \<open>_end\<close> decides on the record it read: the rows of the write that the refund of the
  week's case joins (\<open>persist\<close>).
\<close>

definition ending_decision ::
    "runtime \<Rightarrow> item option \<Rightarrow> string \<Rightarrow> string option \<Rightarrow> string option \<Rightarrow> string \<Rightarrow> ending" where
  "ending_decision rt found outcome student asked_before now =
     (case found of
        None \<Rightarrow> Refused_Ending Not_Found
      | Some record \<Rightarrow>
          (let owner = str_or rt (item_get record ''student_id'') []; current = stored_status rt record
           in if owner = [] \<or> (case student of None \<Rightarrow> False | Some s \<Rightarrow> owner \<noteq> s) then Refused_Ending Not_Found
              else if current = outcome then Ended_Already
              else if truthy (item_get record ''teacher_id'') \<or> current \<in> {IN_PROGRESS, RESOLVED}
              then Refused_Ending Already_Accepted
              else if current \<noteq> PENDING then Refused_Ending Closed
              else if \<not> due_before rt record asked_before then Refused_Ending Not_Due
              else case active_fence_condition owner (Some (int_or (item_get record ''account_fence_generation'') 1)) of
                  Inl e \<Rightarrow> Raises_Ending e
                | Inr fence \<Rightarrow>
                    Ending_Rows [fence, update_operation rt record (ending_changes outcome now)
                      (OFFER_FIELDS @ NO_CANDIDATE_FIELDS) still_pending]))"

definition persist_rows :: "'w db \<Rightarrow> op list \<Rightarrow> op list \<Rightarrow> 'w \<Rightarrow> bool \<times> 'w" where
  "persist_rows db base extra w = db_tx db (base @ extra) w"

section \<open>A teacher's moves\<close>

definition accept_condition :: "string \<Rightarrow> string \<Rightarrow> string \<Rightarrow> cond" where
  "accept_condition u offer now =
     C_And (C_Absent ''teacher_id'') (C_And (C_Eq ''escalation_status'' (PStr PENDING))
       (C_And (C_Eq ''dispatch_status'' (PStr ''dispatched'')) (C_And (C_Eq ''dispatched_teacher_id'' (PStr u))
         (C_And (C_Eq ''dispatch_id'' (PStr offer)) (C_After ''dispatch_deadline_at'' now)))))"

definition holder_condition :: "string \<Rightarrow> cond" where
  "holder_condition u =
     C_And (C_Eq ''teacher_id'' (PStr u))
       (C_Or (C_Eq ''escalation_status'' (PStr PENDING)) (C_Eq ''escalation_status'' (PStr IN_PROGRESS)))"

text \<open>\<open>_teacher_standing_conditions\<close>: the acting teacher's active fence and profile, read now.\<close>

definition teacher_standing_conditions :: "'w db \<Rightarrow> runtime \<Rightarrow> string \<Rightarrow> 'w \<Rightarrow> op list helped \<times> 'w" where
  "teacher_standing_conditions db rt u w =
     (case db_get db (''USER#'' @ u, ''PROFILE'') w of
        (Resp_Failed, w1) \<Rightarrow> (Inl (Help_Raises Provider_Error), w1)
      | (resp, w1) \<Rightarrow>
          (case require_active_account_fence db u None w1 of
             (Inl e, w2) \<Rightarrow> (Inl (if e = Account_Conflict then Help_Conflict else Help_Raises e), w2)
           | (Inr fence, w2) \<Rightarrow>
               (case resp of
                  Resp_Item p \<Rightarrow>
                    (if item_get p ''account_status'' \<noteq> PStr ''active''
                        \<or> lower (str_or rt (item_get p ''role'') []) \<notin> set ELIGIBLE_ROLES
                     then (Inl Help_Conflict, w2)
                     else case teacher_assignment_conditions u (py_str rt (item_get p ''role''))
                         (fence_generation fence) (int_or (item_get p ''version'') 0) of
                         Inl e \<Rightarrow> (Inl (Help_Raises e), w2)
                       | Inr ops \<Rightarrow> (Inr ops, w2))
                | _ \<Rightarrow> (Inl Help_Conflict, w2))))"

definition target_changes :: "item \<Rightarrow> string \<Rightarrow> string \<Rightarrow> string \<Rightarrow> bool \<Rightarrow> bool \<Rightarrow> string option \<Rightarrow> (string \<times> pyval) list" where
  "target_changes record u target now accepting replying note =
     [(''escalation_status'', PStr target), (''updated_at'', PStr now)]
     @ (if accepting then [(''teacher_id'', PStr u), (''dispatch_status'', PStr ''accepted''), (''accepted_at'', PStr now)] else [])
     @ (if target = RESOLVED then (''escalation_resolved_at'', PStr now)
          # (case note of Some (c # cs) \<Rightarrow> [(''resolution_note'', PStr (c # cs))] | _ \<Rightarrow> []) else [])
     @ (if replying \<and> \<not> truthy (item_get record ''first_teacher_action_at'') then [(''first_teacher_action_at'', PStr now)] else [])"

definition offer_stands :: "runtime \<Rightarrow> item \<Rightarrow> string \<Rightarrow> bool" where
  "offer_stands rt record u =
     (str_or rt (item_get record ''dispatch_id'') [] \<noteq> [] \<and> stored_status rt record = PENDING
      \<and> item_get record ''dispatch_status'' = PStr ''dispatched'' \<and> offered_to rt record = u
      \<and> \<not> list_has (item_get record ''previous_dispatch_teacher_ids'') u)"

definition advance ::
    "'w db \<Rightarrow> runtime \<Rightarrow> item \<Rightarrow> string \<Rightarrow> string \<Rightarrow> string option \<Rightarrow> op list \<Rightarrow> string \<Rightarrow> 'w \<Rightarrow> item helped \<times> 'w" where
  "advance db rt record u target note reply_ops now w =
     (if target \<notin> {IN_PROGRESS, RESOLVED} then (Inl (Help_Raises Value_Error), w)
      else if stored_status rt record \<notin> set OPEN_STATES \<or> (holder_of rt record \<noteq> [] \<and> holder_of rt record \<noteq> u)
      then (Inl Help_Conflict, w)
      else let accepting = (holder_of rt record = [])
           in if accepting \<and> \<not> offer_stands rt record u then (Inl Help_Conflict, w)
              else case teacher_standing_conditions db rt u w of
                  (Inl e, w1) \<Rightarrow> (Inl e, w1)
                | (Inr standing, w1) \<Rightarrow>
                    help_write db rt record (target_changes record u target now accepting (reply_ops \<noteq> []) note) []
                      (if accepting then accept_condition u (str_or rt (item_get record ''dispatch_id'') []) now
                       else holder_condition u)
                      (standing @ reply_ops) True w1)"

definition take_or_finish ::
    "'w db \<Rightarrow> runtime \<Rightarrow> item \<Rightarrow> string \<Rightarrow> string \<Rightarrow> string option \<Rightarrow> string \<Rightarrow> 'w \<Rightarrow> item helped \<times> 'w" where
  "take_or_finish db rt record u target note now w = advance db rt record u target note [] now w"

section \<open>Replying\<close>

record reply_text =
  rp_content :: string
  rp_rich :: pyval
  rp_format :: pyval
  rp_author :: pyval

fun text_of :: "pyval \<Rightarrow> string \<Rightarrow> string" where
  "text_of (PStr s) d = s"
| "text_of v d = d"

definition reply_row :: "string \<Rightarrow> string \<Rightarrow> string \<Rightarrow> reply_text \<Rightarrow> string \<Rightarrow> string list option \<Rightarrow> item" where
  "reply_row c note u rp now ids = dict_of
     ([(''PK'', PStr (conv_pk c)), (''SK'', PStr (''NOTE#'' @ note)), (''entity_type'', PStr ''conversation_teacher_note''),
       (''note_id'', PStr note), (''conversation_id'', PStr c), (''teacher_id'', PStr u),
       (''teacher_name'', PStr (text_of (rp_author rp) ''Teacher'')), (''content'', PStr (rp_content rp)),
       (''teacher_response_rich'', rp_rich rp), (''teacher_response_format'', rp_format rp), (''created_at'', PStr now)]
      @ (case ids of Some (x # xs) \<Rightarrow> [(''attachment_ids'', PList (map PStr (x # xs)))] | _ \<Rightarrow> []))"

text \<open>
  The reply's rows: the note, the message in the conversation, and the images' own operations, which
  the attachment service builds.
\<close>

definition reply_operations ::
    "string \<Rightarrow> string \<Rightarrow> int \<Rightarrow> string \<Rightarrow> string \<Rightarrow> string \<Rightarrow> reply_text \<Rightarrow> (op list \<times> string list) option \<Rightarrow> string \<Rightarrow> op list helped" where
  "reply_operations c student g note m u rp images now =
     (let ids = map_option snd images
      in case append_message c ''teacher'' m student g (rp_content rp) now
           [(''teacher_response_rich'', rp_rich rp), (''teacher_response_format'', rp_format rp),
            (''author_name'', rp_author rp),
            (''attachment_ids'', case ids of None \<Rightarrow> PNone | Some xs \<Rightarrow> PList (map PStr xs))] of
           Inl e \<Rightarrow> Inl (Help_Message e)
         | Inr message \<Rightarrow>
             (case build_conversation_write (reply_row c note u rp now ids) student g False of
                Inl e \<Rightarrow> Inl (Help_Message e)
              | Inr ops \<Rightarrow> Inr (ops ! 1 # message # (case images of None \<Rightarrow> [] | Some (iops, _) \<Rightarrow> iops))))"

definition touch_changes :: "item \<Rightarrow> string \<Rightarrow> (string \<times> pyval) list" where
  "touch_changes record now = (''updated_at'', PStr now)
     # (if truthy (item_get record ''first_teacher_action_at'') then [] else [(''first_teacher_action_at'', PStr now)])"

definition reply ::
    "'w db \<Rightarrow> runtime \<Rightarrow> item \<Rightarrow> string \<Rightarrow> reply_text \<Rightarrow> (op list \<times> string list) option \<Rightarrow> string \<Rightarrow> string \<Rightarrow> string \<Rightarrow> 'w
     \<Rightarrow> item helped \<times> 'w" where
  "reply db rt record u rp images note m now w =
     (let holds = (holder_of rt record = u);
          c = text_of (item_get record ''conversation_id'') [];
          student = text_of (item_get record ''student_id'') []
      in if \<not> holds \<and> \<not> holder_or_offered rt record u then (Inl Help_Conflict, w)
         else case require_active_account_fence db student None w of
             (Inl e, w1) \<Rightarrow> (Inl (if e = Account_Conflict then Help_Conflict else Help_Raises e), w1)
           | (Inr fence, w1) \<Rightarrow>
               (case reply_operations c student (fence_generation fence) note m u rp images now of
                  Inl e \<Rightarrow> (Inl e, w1)
                | Inr ops \<Rightarrow>
                    (if holds then
                       help_write db rt record (touch_changes record now) [] (C_Eq ''teacher_id'' (PStr u)) ops True w1
                     else advance db rt record u IN_PROGRESS None ops now w1)))"

section \<open>Taking a deleting teacher off\<close>

definition deletion_fence_condition :: "string \<Rightarrow> int \<Rightarrow> op result" where
  "deletion_fence_condition u g =
     (case account_fence_key u of
        Inl e \<Rightarrow> Inl e
      | Inr k \<Rightarrow> Inr (Check k (C_And (C_Eq ''status'' (PStr ''deletion_pending'')) (C_Eq ''generation'' (PInt g)))))"

definition scrub_changes :: "runtime \<Rightarrow> item \<Rightarrow> string \<Rightarrow> string \<Rightarrow> (string \<times> pyval) list" where
  "scrub_changes rt record u now =
     [(''previous_dispatch_teacher_ids'',
         PList (filter (\<lambda>v. v \<noteq> PStr u) (list_values (item_get record ''previous_dispatch_teacher_ids'')))),
      (''updated_at'', PStr now)]
     @ (if PStr u \<in> {item_get record ''teacher_id'', item_get record ''dispatched_teacher_id''} then
          (if stored_status rt record \<in> set OPEN_STATES
           then [(''escalation_status'', PStr PENDING), (''dispatch_status'', PStr ''unassigned'')]
           else [(''dispatch_status'', PStr ''revoked'')])
        else [])"

definition scrub_removes :: "item \<Rightarrow> string \<Rightarrow> string list" where
  "scrub_removes record u =
     (if PStr u \<in> {item_get record ''teacher_id'', item_get record ''dispatched_teacher_id''}
      then [''teacher_id'', ''accepted_at''] @ OFFER_FIELDS else [])"

definition scrub_teacher :: "'w db \<Rightarrow> runtime \<Rightarrow> item \<Rightarrow> string \<Rightarrow> int \<Rightarrow> string \<Rightarrow> 'w \<Rightarrow> item helped \<times> 'w" where
  "scrub_teacher db rt record u g now w =
     (case deletion_fence_condition u g of
        Inl e \<Rightarrow> (Inl (Help_Raises e), w)
      | Inr fence \<Rightarrow> help_write db rt record (scrub_changes rt record u now) (scrub_removes record u) C_True [fence] False w)"

section \<open>Opening\<close>

definition opening_record :: "runtime \<Rightarrow> item \<Rightarrow> string \<Rightarrow> string \<Rightarrow> int \<Rightarrow> string option \<Rightarrow> string \<Rightarrow> item" where
  "opening_record rt conversation c student g message now = dict_of
     ([(''PK'', PStr (conv_pk c)), (''SK'', PStr ''HELP''), (''entity_type'', PStr ''help_request''),
       (''schema_version'', PStr ''help-request.v1''), (''conversation_id'', PStr c), (''escalation_request_id'', PStr c),
       (''student_id'', PStr student), (''owner_id'', PStr student), (''account_fence_generation'', PInt g),
       (''version'', PInt 1), (''escalated'', PBool True), (''escalation_status'', PStr PENDING),
       (''escalated_at'', PStr now), (''created_at'', PStr now), (''updated_at'', PStr now),
       (''subject'', PStr (str_or rt (item_get conversation ''subject'') [])),
       (''grade'', PStr (str_or rt (item_get conversation ''grade'') []))]
      @ (let note = strip (case message of None \<Rightarrow> [] | Some s \<Rightarrow> s) in if note = [] then [] else [(''escalation_message'', PStr note)]))"

text \<open>
  The rows of \<open>ask\<close>: the record behind the student's fence, the system message that opens the request in
  the conversation, and a check that the conversation is still the student's. The case of the week
  joins them in one transaction.
\<close>

definition opening_rows ::
    "runtime \<Rightarrow> item \<Rightarrow> string \<Rightarrow> string \<Rightarrow> int \<Rightarrow> string option \<Rightarrow> string \<Rightarrow> string \<Rightarrow> op list helped" where
  "opening_rows rt conversation c student g message system_message now =
     (case append_message c ''system'' c student g system_message now
         [(''system_event'', PStr ''teacher_help_requested''),
          (''escalation_message'', case message of None \<Rightarrow> PNone | Some s \<Rightarrow> PStr s)] of
        Inl e \<Rightarrow> Inl (Help_Message e)
      | Inr system_put \<Rightarrow>
          (case build_conversation_write (opening_record rt conversation c student g message now) student g False of
             Inl e \<Rightarrow> Inl (Help_Message e)
           | Inr record_ops \<Rightarrow>
               Inr (record_ops @ [system_put,
                 Check (record_key c) (C_And (C_Present ''PK'') (C_Eq ''student_id'' (PStr student)))])))"

end
