(* ===== verification/Help_Life.thy ===== *)
theory Help_Life
  imports Help_Request
begin

text \<open>
  The life of a help request, as its module promises it: waiting until a teacher takes it, then in
  progress, then resolved, or ended by nobody taking it. A request is an abstract state read off its
  row; the steps are those of the module's docstrings; an invariant says what every reachable state
  keeps.
\<close>

section \<open>The abstract request\<close>

datatype phase = Waiting | Running | Finished | Taken_Back | Timed_Out

record request =
  rq_conversation :: string
  rq_phase :: phase
  rq_holder :: "string option"
  rq_offered :: "string option"
  rq_tried :: "string list"
  rq_version :: int

definition open_phase :: "phase \<Rightarrow> bool" where
  "open_phase p \<longleftrightarrow> p \<in> {Waiting, Running}"

inductive lifecycle :: "request \<Rightarrow> request \<Rightarrow> bool" where
  offering: "rq_phase r = Waiting \<Longrightarrow> rq_holder r = None \<Longrightarrow> u \<notin> set tried \<Longrightarrow> set (rq_tried r) \<subseteq> set tried \<Longrightarrow>
     lifecycle r (r\<lparr>rq_offered := Some u, rq_tried := tried, rq_version := rq_version r + 1\<rparr>)"
| nobody: "rq_phase r = Waiting \<Longrightarrow> rq_holder r = None \<Longrightarrow> set (rq_tried r) \<subseteq> set tried \<Longrightarrow>
     lifecycle r (r\<lparr>rq_offered := None, rq_tried := tried, rq_version := rq_version r + 1\<rparr>)"
| ending: "rq_phase r = Waiting \<Longrightarrow> rq_holder r = None \<Longrightarrow> p \<in> {Taken_Back, Timed_Out} \<Longrightarrow>
     lifecycle r (r\<lparr>rq_phase := p, rq_offered := None, rq_version := rq_version r + 1\<rparr>)"
| taking: "rq_phase r = Waiting \<Longrightarrow> rq_holder r = None \<Longrightarrow> rq_offered r = Some u \<Longrightarrow> p \<in> {Running, Finished} \<Longrightarrow>
     lifecycle r (r\<lparr>rq_phase := p, rq_holder := Some u, rq_version := rq_version r + 1\<rparr>)"
| moving: "open_phase (rq_phase r) \<Longrightarrow> rq_holder r = Some u \<Longrightarrow> p \<in> {Running, Finished} \<Longrightarrow>
     lifecycle r (r\<lparr>rq_phase := p, rq_version := rq_version r + 1\<rparr>)"
| replying: "rq_holder r = Some u \<Longrightarrow> lifecycle r (r\<lparr>rq_version := rq_version r + 1\<rparr>)"
| forgetting: "rq_holder r \<noteq> Some u \<Longrightarrow> rq_offered r \<noteq> Some u \<Longrightarrow>
     lifecycle r (r\<lparr>rq_tried := filter (\<lambda>x. x \<noteq> u) (rq_tried r), rq_version := rq_version r + 1\<rparr>)"
| leaving: "rq_holder r = Some u \<or> rq_offered r = Some u \<Longrightarrow>
     lifecycle r (r\<lparr>rq_phase := (if open_phase (rq_phase r) then Waiting else rq_phase r), rq_holder := None,
       rq_offered := None, rq_tried := filter (\<lambda>x. x \<noteq> u) (rq_tried r), rq_version := rq_version r + 1\<rparr>)"

text \<open>A request as it is opened.\<close>

definition opened :: "request \<Rightarrow> bool" where
  "opened r \<longleftrightarrow> rq_phase r = Waiting \<and> rq_holder r = None \<and> rq_offered r = None \<and> rq_tried r = [] \<and> rq_version r = 1"

section \<open>What every reachable request keeps\<close>

definition sound_request :: "request \<Rightarrow> bool" where
  "sound_request r \<longleftrightarrow>
     (rq_phase r = Waiting \<longrightarrow> rq_holder r = None)
     \<and> (rq_phase r = Running \<longrightarrow> rq_holder r \<noteq> None)
     \<and> (rq_holder r \<noteq> None \<longrightarrow> rq_offered r = rq_holder r)
     \<and> (rq_phase r \<in> {Taken_Back, Timed_Out} \<longrightarrow> rq_holder r = None \<and> rq_offered r = None)
     \<and> (\<forall>u. rq_offered r = Some u \<longrightarrow> u \<notin> set (rq_tried r))
     \<and> 1 \<le> rq_version r"

lemma opened_sound: "opened r \<Longrightarrow> sound_request r"
  by (auto simp: opened_def sound_request_def)

lemma lifecycle_sound: "lifecycle r r' \<Longrightarrow> sound_request r \<Longrightarrow> sound_request r'"
  by (induction rule: lifecycle.induct) (auto simp: sound_request_def open_phase_def)

lemma lifecycle_conversation: "lifecycle r r' \<Longrightarrow> rq_conversation r' = rq_conversation r"
  by (induction rule: lifecycle.induct) auto

lemma lifecycle_version: "lifecycle r r' \<Longrightarrow> rq_version r' = rq_version r + 1"
  by (induction rule: lifecycle.induct) auto

text \<open>An ended request stays ended, a finished one finished, and only the teacher's own leaving lets go of it.\<close>

lemma lifecycle_closed: "lifecycle r r' \<Longrightarrow> sound_request r \<Longrightarrow> \<not> open_phase (rq_phase r) \<Longrightarrow> rq_phase r' = rq_phase r"
  by (induction rule: lifecycle.induct) (auto simp: sound_request_def open_phase_def)

lemma lifecycle_holder:
  "lifecycle r r' \<Longrightarrow> sound_request r \<Longrightarrow> rq_holder r = Some u \<Longrightarrow> rq_holder r' = Some u \<or> rq_holder r' = None \<and> u \<notin> set (rq_tried r')"
  by (induction rule: lifecycle.induct) (auto simp: sound_request_def open_phase_def)

lemma lifecycle_taker:
  assumes "lifecycle r r'" "sound_request r" "rq_holder r' = Some u" "rq_holder r \<noteq> Some u"
  shows "rq_phase r = Waiting" and "rq_holder r = None" and "rq_offered r = Some u" and "u \<notin> set (rq_tried r)"
  using assms by (induction rule: lifecycle.induct) (auto simp: sound_request_def)

section \<open>The request a row is\<close>

definition phase_of :: "pyval \<Rightarrow> phase option" where
  "phase_of v =
     (if v = PStr PENDING then Some Waiting else if v = PStr IN_PROGRESS then Some Running
      else if v = PStr RESOLVED then Some Finished else if v = PStr WITHDRAWN then Some Taken_Back
      else if v = PStr EXPIRED then Some Timed_Out else None)"

fun teacher_at :: "pyval option \<Rightarrow> string option option" where
  "teacher_at None = Some None"
| "teacher_at (Some (PStr u)) = (if u = [] then None else Some (Some u))"
| "teacher_at (Some _) = None"

fun entry_texts :: "pyval list \<Rightarrow> string list option" where
  "entry_texts [] = Some []"
| "entry_texts (PStr s # vs) = (if s = [] then None else map_option ((#) s) (entry_texts vs))"
| "entry_texts (v # vs) = None"

fun texts_at :: "pyval \<Rightarrow> string list option" where
  "texts_at PNone = Some []"
| "texts_at (PList vs) = entry_texts vs"
| "texts_at _ = None"

fun text_at :: "pyval \<Rightarrow> string option" where
  "text_at (PStr s) = Some s"
| "text_at v = None"

lemma text_at_Some: "text_at v = Some s \<longleftrightarrow> v = PStr s"
  by (cases v) auto

definition request_in :: "item \<Rightarrow> request option" where
  "request_in i =
     (case (if i ''PK'' = None then None else phase_of (item_get i ''escalation_status''), teacher_at (i ''teacher_id''),
            teacher_at (i ''dispatched_teacher_id''), texts_at (item_get i ''previous_dispatch_teacher_ids''),
            exact_int (item_get i ''version''), text_at (item_get i ''conversation_id'')) of
        (Some p, Some h, Some off, Some tried, Some v, Some c) \<Rightarrow>
          Some \<lparr>rq_conversation = c, rq_phase = p, rq_holder = h, rq_offered = off, rq_tried = tried, rq_version = v\<rparr>
      | _ \<Rightarrow> None)"

lemma request_in_Some:
  "request_in i = Some r \<longleftrightarrow>
     i ''PK'' \<noteq> None \<and> phase_of (item_get i ''escalation_status'') = Some (rq_phase r) \<and> teacher_at (i ''teacher_id'') = Some (rq_holder r)
     \<and> teacher_at (i ''dispatched_teacher_id'') = Some (rq_offered r)
     \<and> texts_at (item_get i ''previous_dispatch_teacher_ids'') = Some (rq_tried r)
     \<and> exact_int (item_get i ''version'') = Some (rq_version r)
     \<and> item_get i ''conversation_id'' = PStr (rq_conversation r)"
  by (cases r) (auto simp: request_in_def text_at_Some split: option.splits)

lemma phase_of_words [simp]:
  "phase_of (PStr PENDING) = Some Waiting" "phase_of (PStr IN_PROGRESS) = Some Running"
  "phase_of (PStr RESOLVED) = Some Finished" "phase_of (PStr WITHDRAWN) = Some Taken_Back"
  "phase_of (PStr EXPIRED) = Some Timed_Out"
  by (simp_all add: phase_of_def help_words)

lemma phase_of_Some:
  "phase_of v = Some p \<longleftrightarrow> v = PStr (case p of Waiting \<Rightarrow> PENDING | Running \<Rightarrow> IN_PROGRESS | Finished \<Rightarrow> RESOLVED
     | Taken_Back \<Rightarrow> WITHDRAWN | Timed_Out \<Rightarrow> EXPIRED)"
  by (auto simp: phase_of_def help_words split: phase.splits if_splits)

lemma teacher_at_Some: "teacher_at x = Some h \<longleftrightarrow> (case h of None \<Rightarrow> x = None | Some u \<Rightarrow> x = Some (PStr u) \<and> u \<noteq> [])"
  by (cases x rule: teacher_at.cases) (auto split: option.splits)

lemma entry_texts_Some: "entry_texts vs = Some xs \<longleftrightarrow> [] \<notin> set xs \<and> vs = map PStr xs"
proof (induction vs arbitrary: xs)
  case (Cons v vs)
  show ?case by (cases xs; cases v) (auto simp: Cons.IH)
qed auto

lemma texts_at_Some:
  "texts_at v = Some xs \<longleftrightarrow> [] \<notin> set xs \<and> (v = PList (map PStr xs) \<or> v = PNone \<and> xs = [])"
  by (cases v) (auto simp: entry_texts_Some)

lemma texts_at_PList [simp]: "[] \<notin> set xs \<Longrightarrow> texts_at (PList (map PStr xs)) = Some xs"
  by (simp add: entry_texts_Some)

end
