(* ===== verification/Help_Steps.thy ===== *)
theory Help_Steps
  imports Help_Life
begin

text \<open>
  Help requests on the shared table: what one step may do to the request rows, the invariant of a run
  of such steps, and the one conditional update every write of the module makes as such a step. A
  row's version goes up with every step, so a record read earlier is the row a write finds whenever
  the version it was read at still stands.

  Account deletion, which ends a conversation with all its rows, is not among the steps.
\<close>

section \<open>Steps of the table\<close>

abbreviation apart :: "table \<Rightarrow> table \<Rightarrow> string \<Rightarrow> bool" where
  "apart t t' c \<equiv> (\<forall>d. d \<noteq> c \<longrightarrow> t' (help_key d) = t (help_key d))"

inductive help_step :: "table \<Rightarrow> table \<Rightarrow> bool" where
  elsewhere: "(\<And>c. t' (help_key c) = t (help_key c)) \<Longrightarrow> help_step t t'"
| asking: "t (help_key c) = None \<Longrightarrow> t' (help_key c) = Some i \<Longrightarrow> request_in i = Some r \<Longrightarrow> opened r \<Longrightarrow>
     rq_conversation r = c \<Longrightarrow> apart t t' c \<Longrightarrow> help_step t t'"
| living: "t (help_key c) = Some i \<Longrightarrow> t' (help_key c) = Some j \<Longrightarrow> request_in i = Some r \<Longrightarrow>
     request_in j = Some r' \<Longrightarrow> lifecycle r r' \<Longrightarrow> apart t t' c \<Longrightarrow> help_step t t'"

text \<open>A step also leaves every row under its own key.\<close>

definition shared_step :: "table \<Rightarrow> table \<Rightarrow> bool" where
  "shared_step t t' \<longleftrightarrow> help_step t t' \<and> (keyed t \<longrightarrow> keyed t')"

definition help_run :: "table \<Rightarrow> table \<Rightarrow> bool" where
  "help_run = shared_step\<^sup>*\<^sup>*"

lemma help_run_refl [simp]: "help_run t t"
  by (simp add: help_run_def)

lemma help_run_trans: "help_run a b \<Longrightarrow> help_run b c \<Longrightarrow> help_run a c"
  unfolding help_run_def by (rule rtranclp_trans)

lemma help_run_step: "help_step t t' \<Longrightarrow> (keyed t \<Longrightarrow> keyed t') \<Longrightarrow> help_run t t'"
  by (simp add: help_run_def shared_step_def r_into_rtranclp)

lemma help_run_induct [consumes 1, case_names start step]:
  assumes "help_run t t'" "P t" "\<And>u v. help_run t u \<Longrightarrow> help_step u v \<Longrightarrow> P u \<Longrightarrow> P v"
  shows "P t'"
  using assms(1) unfolding help_run_def
proof (induction rule: rtranclp_induct)
  case (step u v)
  then show ?case using assms(3) by (simp add: help_run_def shared_step_def)
qed (rule assms(2))

lemma help_run_keyed: "help_run t t' \<Longrightarrow> keyed t \<Longrightarrow> keyed t'"
  unfolding help_run_def by (induction rule: rtranclp_induct) (auto simp: shared_step_def)

lemma help_key_eq [simp]: "help_key c = help_key d \<longleftrightarrow> c = d"
  by (simp add: help_key_def)

text \<open>The request of a conversation, and the table's invariant.\<close>

definition request_at :: "table \<Rightarrow> string \<Rightarrow> request option" where
  "request_at t c = (case t (help_key c) of None \<Rightarrow> None | Some i \<Rightarrow> request_in i)"

definition help_ok :: "table \<Rightarrow> bool" where
  "help_ok t \<longleftrightarrow> (\<forall>c i. t (help_key c) = Some i \<longrightarrow> (\<exists>r. request_in i = Some r \<and> sound_request r \<and> rq_conversation r = c))"

lemma help_okD: "help_ok t \<Longrightarrow> t (help_key c) = Some i \<Longrightarrow>
    \<exists>r. request_in i = Some r \<and> sound_request r \<and> rq_conversation r = c"
  by (simp add: help_ok_def)

lemma help_step_ok:
  assumes "help_step t t'" "help_ok t"
  shows "help_ok t'"
  unfolding help_ok_def
proof (intro allI impI)
  fix d k
  assume d: "t' (help_key d) = Some k"
  from assms(1) show "\<exists>r. request_in k = Some r \<and> sound_request r \<and> rq_conversation r = d"
  proof cases
    case elsewhere
    with d assms(2) show ?thesis by (auto dest: help_okD)
  next
    case (asking c i r)
    with d assms(2) show ?thesis by (cases "d = c") (auto dest: help_okD opened_sound)
  next
    case (living c i j r r')
    from assms(2) living(1,3) have "sound_request r" "rq_conversation r = c" by (fastforce dest: help_okD)+
    with living d assms(2) show ?thesis
      by (cases "d = c") (auto dest: help_okD lifecycle_sound simp: lifecycle_conversation)
  qed
qed

lemma help_run_ok: "help_run t t' \<Longrightarrow> help_ok t \<Longrightarrow> help_ok t'"
  by (induction rule: help_run_induct) (auto dest: help_step_ok)

text \<open>A conversation's request over a run: nothing, or a path of its life.\<close>

lemma help_step_life:
  assumes "help_step t t'" "request_at t c = Some r"
  obtains "request_at t' c = Some r" | r' where "request_at t' c = Some r'" "lifecycle r r'"
  using assms
proof (cases rule: help_step.cases)
  case elsewhere
  with assms(2) that(1) show ?thesis by (simp add: request_at_def)
next
  case (asking d i s)
  with assms(2) that(1) show ?thesis by (cases "c = d") (auto simp: request_at_def)
next
  case (living d i j s s')
  with assms(2) that show ?thesis by (cases "c = d") (auto simp: request_at_def)
qed

lemma help_run_life:
  assumes "help_run t t'" "request_at t c = Some r"
  shows "\<exists>r'. request_at t' c = Some r' \<and> lifecycle\<^sup>*\<^sup>* r r'"
  using assms(1)
proof (induction rule: help_run_induct)
  case start
  with assms(2) show ?case by blast
next
  case (step u v)
  then obtain s where s: "request_at u c = Some s" "lifecycle\<^sup>*\<^sup>* r s" by blast
  from step(2) s(1) show ?case
    by (rule help_step_life) (use s(2) in \<open>auto intro: rtranclp.rtrancl_into_rtrancl\<close>)
qed

section \<open>Versions\<close>

definition same_or_later :: "item \<Rightarrow> item \<Rightarrow> bool" where
  "same_or_later i j \<longleftrightarrow> i = j \<or> (\<exists>r r'. request_in i = Some r \<and> request_in j = Some r' \<and> rq_version r < rq_version r')"

lemma same_or_later_trans: "same_or_later i j \<Longrightarrow> same_or_later j k \<Longrightarrow> same_or_later i k"
  unfolding same_or_later_def by (metis option.inject order_less_trans)

lemma help_step_version:
  assumes "help_step t t'" "t (help_key c) = Some i"
  shows "\<exists>j. t' (help_key c) = Some j \<and> same_or_later i j"
  using assms(1)
proof cases
  case elsewhere
  with assms(2) show ?thesis by (simp add: same_or_later_def)
next
  case (asking d i' r)
  with assms(2) show ?thesis by (cases "c = d") (auto simp: same_or_later_def)
next
  case (living d i' j r r')
  with assms(2) show ?thesis by (cases "c = d") (auto simp: same_or_later_def dest: lifecycle_version)
qed

lemma help_run_version:
  assumes "help_run t t'" "t (help_key c) = Some i"
  shows "\<exists>j. t' (help_key c) = Some j \<and> same_or_later i j"
  using assms(1)
proof (induction rule: help_run_induct)
  case start
  with assms(2) show ?case by (simp add: same_or_later_def)
next
  case (step u v)
  then show ?case by (meson help_step_version same_or_later_trans)
qed

text \<open>A record as the caller holds it mirrors a stored row: read from it, or written as it.\<close>

definition mirrors :: "item \<Rightarrow> item \<Rightarrow> bool" where
  "mirrors record i \<longleftrightarrow> (\<forall>a. item_get i a = item_get record a \<or> item_get i a = as_stored (item_get record a))"

definition read_then :: "runtime \<Rightarrow> item \<Rightarrow> table \<Rightarrow> bool" where
  "read_then rt record t \<longleftrightarrow>
     (\<exists>t0 i. help_run t0 t \<and> t0 (request_key rt record) = Some i \<and> mirrors record i \<and> request_in i \<noteq> None)"

lemma mirrors_text: "mirrors record i \<Longrightarrow> item_get record a = PStr s \<longleftrightarrow> item_get i a = PStr s"
  by (metis as_stored_PStr mirrors_def)

lemma mirrors_none: "mirrors record i \<Longrightarrow> item_get record a = PNone \<longleftrightarrow> item_get i a = PNone"
  by (metis as_stored_PNone mirrors_def)

lemma as_stored_texts: "as_stored v = PList (map PStr xs) \<longleftrightarrow> v = PList (map PStr xs)"
proof (cases v)
  case (PList vs)
  have "map as_stored vs = map PStr xs \<longleftrightarrow> vs = map PStr xs"
    by (auto simp: list_eq_iff_nth_eq)
  with PList show ?thesis by simp
qed auto

lemma mirrors_texts: "mirrors record i \<Longrightarrow> item_get i a = PList (map PStr xs) \<Longrightarrow> item_get record a = PList (map PStr xs)"
  by (metis as_stored_texts mirrors_def)

lemma mirrors_version:
  assumes "mirrors record i" "request_in i = Some r"
  shows "read_version record = rq_version r"
proof -
  from assms(2) have v: "exact_int (item_get i ''version'') = Some (rq_version r)" by (simp add: request_in_Some)
  have "stored_int (item_get record ''version'') = Some (rq_version r)"
  proof (cases "item_get i ''version'' = item_get record ''version''")
    case True
    with v show ?thesis by (simp add: exact_int_stored_int)
  next
    case False
    with assms(1) have "item_get i ''version'' = as_stored (item_get record ''version'')" by (auto simp: mirrors_def)
    with v have "exact_int (as_stored (item_get record ''version'')) = Some (rq_version r)" by simp
    then show ?thesis using False by (cases "item_get record ''version''") (auto dest: exact_int_stored_int rat_whole_SomeD)
  qed
  then show ?thesis by (simp add: read_version_def)
qed

section \<open>The row after an update\<close>

definition changed_row :: "int \<Rightarrow> (string \<times> pyval) list \<Rightarrow> string list \<Rightarrow> item \<Rightarrow> item" where
  "changed_row v changes remove i a =
     (if a = ''version'' then Some (PDec (of_int (v + 1)))
      else case map_of changes a of
          Some x \<Rightarrow> Some (as_stored x)
        | None \<Rightarrow> if a \<in> set remove then None else i a)"

definition plain_changes :: "(string \<times> pyval) list \<Rightarrow> string list \<Rightarrow> bool" where
  "plain_changes changes remove \<longleftrightarrow>
     distinct (map fst changes) \<and> {''version'', ''PK'', ''SK''} \<inter> (set (map fst changes) \<union> set remove) = {}"

lemma fold_sets:
  "distinct (map fst changes) \<Longrightarrow>
     fold (upd_apply old) (map (\<lambda>(a, x). U_Set a x) changes) i =
       (\<lambda>a. case map_of changes a of Some x \<Rightarrow> Some (as_stored x) | None \<Rightarrow> i a)"
proof (induction changes arbitrary: i)
  case (Cons p changes)
  then have "fst p \<notin> dom (map_of changes)" by (simp add: dom_map_of_conv_image_fst)
  then have "map_of changes (fst p) = None" by blast
  with Cons show ?case by (cases p) (auto simp: fun_eq_iff split: option.splits)
qed simp

lemma fold_removes:
  "fold (upd_apply old) (map U_Remove remove) i = (\<lambda>a. if a \<in> set remove then None else i a)"
  by (induction remove arbitrary: i) (auto simp: fun_eq_iff)

lemma update_row:
  assumes "plain_changes changes remove"
  shows "fold (upd_apply i) (update_upds v changes remove) i = changed_row v changes remove i"
proof -
  have "map_of changes a = None" if "a \<notin> fst ` set changes" for a
    using that by (simp add: map_of_eq_None_iff)
  moreover have "map_of changes a \<noteq> None" if "a \<in> fst ` set changes" for a
    using that by (simp add: map_of_eq_None_iff)
  ultimately show ?thesis
    using assms unfolding plain_changes_def update_upds_def fold_append comp_apply
    by (auto simp: fold_sets fold_removes fun_eq_iff changed_row_def split: option.splits)
qed

section \<open>One update among harmless operations\<close>

text \<open>Operations that leave every row under its own key.\<close>

fun upd_field :: "upd \<Rightarrow> string" where
  "upd_field (U_Set a v) = a"
| "upd_field (U_Set_If_Absent a v) = a"
| "upd_field (U_Add a n) = a"
| "upd_field (U_Remove a) = a"

definition key_safe :: "op \<Rightarrow> bool" where
  "key_safe oper = (case oper of Update k us c \<Rightarrow> {''PK'', ''SK''} \<inter> upd_field ` set us = {} | _ \<Rightarrow> True)"

lemma key_safe_simps [simp]:
  "key_safe (Put i c)" "key_safe (Check k c)" "key_safe (Update k us c) \<longleftrightarrow> {''PK'', ''SK''} \<inter> upd_field ` set us = {}"
  by (simp_all add: key_safe_def)

lemma upd_apply_other: "upd_field u \<noteq> a \<Longrightarrow> upd_apply old u i a = i a"
  by (cases u) auto

lemma fold_upd_other: "a \<notin> upd_field ` set us \<Longrightarrow> fold (upd_apply old) us i a = i a"
  by (induction us arbitrary: i) (auto simp: upd_apply_other)

lemma updated_row_key:
  assumes "{''PK'', ''SK''} \<inter> upd_field ` set us = {}" "\<And>i. old = Some i \<Longrightarrow> item_key i = Some k"
  shows "item_key (updated_row k us old) = Some k"
proof -
  define base where "base = (case old of None \<Rightarrow> dict_of [(''PK'', PStr (fst k)), (''SK'', PStr (snd k))] | Some i \<Rightarrow> i)"
  have "item_key base = Some k" using assms(2) by (auto simp: base_def item_key_def row_lookup split: option.splits)
  moreover have "updated_row k us old a = base a" if "a = ''PK'' \<or> a = ''SK''" for a
    using that assms(1) unfolding updated_row_def Let_def base_def [symmetric]
    by (intro fold_upd_other) (elim disjE; blast)
  ultimately show ?thesis by (simp add: item_key_def item_get_def)
qed

lemma keyed_write: "keyed t \<Longrightarrow> key_safe oper \<Longrightarrow> keyed (op_write oper t)"
proof (cases oper)
  case (Put i c)
  assume "keyed t"
  with Put show ?thesis by (auto simp: keyed_def item_key_stored split: option.split)
next
  case (Update k us c)
  assume "keyed t" "key_safe oper"
  with Update have "item_key (updated_row k us (t k)) = Some k"
    by (intro updated_row_key) (simp_all add: keyed_def del: split_paired_All)
  with \<open>keyed t\<close> Update show ?thesis by (simp add: keyed_def del: split_paired_All)
qed simp

lemma keyed_tx:
  assumes "tx_apply ops t = Some t'" "\<forall>oper\<in>set ops. key_safe oper" "keyed t"
  shows "keyed t'"
proof -
  have "keyed u \<Longrightarrow> \<forall>oper\<in>set os. key_safe oper \<Longrightarrow> keyed (fold op_write os u)" for os u
    by (induction os arbitrary: u) (auto simp: keyed_write)
  with assms tx_applyD(3) [OF assms(1)] show ?thesis by simp
qed

lemma update_fields: "upd_field ` set (update_upds v changes remove) \<subseteq> insert ''version'' (fst ` set changes \<union> set remove)"
proof
  fix a
  assume "a \<in> upd_field ` set (update_upds v changes remove)"
  then consider x where "(a, x) \<in> set changes" | "a = ''version''" | "a \<in> set remove"
    by (auto simp: update_upds_def)
  then show "a \<in> insert ''version'' (fst ` set changes \<union> set remove)"
  proof cases
    case (1 x)
    then have "fst (a, x) \<in> fst ` set changes" by (rule imageI)
    then show ?thesis by simp
  qed simp_all
qed

text \<open>Operations that write no request row.\<close>

definition still :: "op \<Rightarrow> bool" where
  "still oper \<longleftrightarrow> key_safe oper \<and> (case oper of Check k c \<Rightarrow> True | _ \<Rightarrow> \<forall>c. op_key oper \<noteq> Some (help_key c))"

lemma quiet_Check [simp]: "still (Check k c)"
  by (simp add: still_def)

lemma quiet_safe: "still oper \<Longrightarrow> key_safe oper"
  by (simp add: still_def)

lemma op_write_other: "op_key oper \<noteq> Some k \<Longrightarrow> op_write oper t k = t k"
  by (cases oper) (auto split: option.splits)

lemma quiet_write: "still oper \<Longrightarrow> op_write oper t (help_key c) = t (help_key c)"
  by (cases oper) (simp_all add: still_def op_write_other del: op_write.simps(1,3))

lemma fold_write_other: "Some k \<notin> op_key ` set ops \<Longrightarrow> fold op_write ops t k = t k"
  by (induction ops arbitrary: t) (auto simp: op_write_other)

lemma fold_write_at:
  "distinct (map op_key ops) \<Longrightarrow> oper \<in> set ops \<Longrightarrow> op_key oper = Some k \<Longrightarrow> fold op_write ops t k = op_write oper t k"
proof (induction ops arbitrary: t)
  case (Cons x ops)
  show ?case
  proof (cases "oper = x")
    case True
    with Cons.prems have "Some k \<notin> op_key ` set ops" by force
    with True show ?thesis by (simp add: fold_write_other)
  next
    case False
    with Cons.prems have "op_key x \<noteq> Some k" by force
    then have "op_write x t k = t k" by (rule op_write_other)
    moreover from \<open>op_key oper = Some k\<close> have "op_write oper (op_write x t) k = op_write oper t k"
      if "op_write x t k = t k" using that by (cases oper) auto
    ultimately show ?thesis using Cons False by simp
  qed
qed simp

lemma fold_write_quiet:
  "\<forall>oper\<in>set ops. still oper \<Longrightarrow> fold op_write ops t (help_key c) = t (help_key c)"
  by (induction ops arbitrary: t) (auto simp: quiet_write)

lemma still_tx:
  assumes "tx_apply ops t = Some t'" "\<forall>oper\<in>set ops. still oper"
  shows "help_run t t'"
proof (rule help_run_step [OF help_step.elsewhere])
  show "t' (help_key c) = t (help_key c)" for c
    using tx_applyD(3) [OF assms(1)] fold_write_quiet [OF assms(2)] by simp
  show "keyed t \<Longrightarrow> keyed t'" using keyed_tx [OF assms(1)] assms(2) by (auto intro: quiet_safe)
qed

lemma lone_write_tx:
  assumes tx: "tx_apply ops t = Some t'" and mem: "oper \<in> set ops" and key: "op_key oper = Some (help_key c)"
    and rest: "\<forall>x\<in>set ops. x = oper \<or> still x"
  shows "cond_holds (op_cond oper) (row_at t (help_key c))" and "t' (help_key c) = op_write oper t (help_key c)"
    and "apart t t' c"
proof -
  note tx_applyD [OF tx]
  with mem have "op_ok t oper" by blast
  with key show "cond_holds (op_cond oper) (row_at t (help_key c))" by (simp add: op_ok_def)
  from tx_applyD [OF tx] fold_write_at [OF _ mem key] show "t' (help_key c) = op_write oper t (help_key c)" by simp
  show "apart t t' c"
  proof (intro allI impI)
    fix d
    assume "d \<noteq> c"
    have "fold op_write os u (help_key d) = u (help_key d)" if "\<forall>x\<in>set os. x = oper \<or> still x" for os u
      using that
    proof (induction os arbitrary: u)
      case (Cons x os)
      from Cons.prems key \<open>d \<noteq> c\<close> have "op_write x u (help_key d) = u (help_key d)"
        by (auto intro: op_write_other quiet_write)
      with Cons show ?case by simp
    qed simp
    with rest tx_applyD(3) [OF tx] show "t' (help_key d) = t (help_key d)" by simp
  qed
qed

text \<open>The row an update of a committed transaction found, and the one it left.\<close>

lemma update_found:
  assumes tx: "tx_apply ops t = Some t'" and ok: "help_ok t"
    and mem: "update_operation rt record changes remove condition \<in> set ops"
    and rest: "\<forall>x\<in>set ops. x = update_operation rt record changes remove condition \<or> still x"
    and plain: "plain_changes changes remove"
  obtains c i r where "request_key rt record = help_key c" "t (help_key c) = Some i" "request_in i = Some r"
    "sound_request r" "rq_conversation r = c" "rq_version r = read_version record" "cond_holds condition i"
    "t' (help_key c) = Some (changed_row (read_version record) changes remove i)" "apart t t' c"
proof -
  let ?op = "update_operation rt record changes remove condition"
  obtain c where c: "request_key rt record = help_key c" by (simp add: request_key_def)
  have key: "op_key ?op = Some (help_key c)" by (simp add: update_operation_def c Let_def)
  note one = lone_write_tx [OF tx mem key rest]
  from one(1) obtain i where i: "t (help_key c) = Some i" and v: "cond_holds (C_Eq ''version'' (PInt (read_version record))) i"
      and cnd: "cond_holds condition i"
    by (auto simp: update_operation_def Let_def row_at_def split: option.splits)
  from ok i obtain r where r: "request_in i = Some r" "sound_request r" "rq_conversation r = c" by (blast dest: help_okD)
  from v have "as_stored (item_get i ''version'') = PDec (of_int (read_version record))"
    by (auto simp: item_get_def split: option.splits)
  moreover from r(1) have "exact_int (item_get i ''version'') = Some (rq_version r)" by (simp add: request_in_Some)
  ultimately have "rq_version r = read_version record" by (cases "item_get i ''version''") auto
  moreover from one(2) i have "t' (help_key c) = Some (changed_row (read_version record) changes remove i)"
    by (simp add: update_operation_def Let_def c updated_row_def update_row [OF plain])
  ultimately show thesis by (intro that [OF c i r _ cnd _ one(3)])
qed

text \<open>
  The rule of every write: the update finds a well-formed request at the version the record was read
  at, with the condition holding; when that makes the changed row a next state of the request, the
  transaction is a step.
\<close>

lemma update_tx:
  assumes tx: "tx_apply ops t = Some t'" and ok: "help_ok t"
    and mem: "update_operation rt record changes remove condition \<in> set ops"
    and rest: "\<forall>x\<in>set ops. x = update_operation rt record changes remove condition \<or> still x"
    and plain: "plain_changes changes remove"
    and next_state: "\<And>i r. t (request_key rt record) = Some i \<Longrightarrow> request_in i = Some r \<Longrightarrow> sound_request r \<Longrightarrow>
       rq_version r = read_version record \<Longrightarrow> cond_holds condition i \<Longrightarrow>
       \<exists>r'. request_in (changed_row (read_version record) changes remove i) = Some r' \<and> lifecycle r r'"
  shows "help_run t t'"
proof -
  let ?op = "update_operation rt record changes remove condition"
  obtain c i r where
    row: "request_key rt record = help_key c" "t (help_key c) = Some i" "request_in i = Some r" "sound_request r"
      "rq_version r = read_version record" "cond_holds condition i"
      "t' (help_key c) = Some (changed_row (read_version record) changes remove i)" "apart t t' c"
    by (rule update_found [OF tx ok mem rest plain])
  with next_state [of i r] obtain r' where
    r': "request_in (changed_row (read_version record) changes remove i) = Some r'" "lifecycle r r'" by auto
  have "help_step t t'" by (rule help_step.living [OF row(2,7,3) r' row(8)])
  moreover have "key_safe ?op"
    using plain update_fields [of "read_version record" changes remove]
    unfolding update_operation_def Let_def key_safe_simps plain_changes_def by auto
  with rest have "\<forall>x\<in>set ops. key_safe x" by (auto intro: quiet_safe)
  then have "keyed t \<Longrightarrow> keyed t'" by (rule keyed_tx [OF tx])
  ultimately show ?thesis by (rule help_run_step)
qed

end
