(* ===== verification/Help_Client.thy ===== *)
theory Help_Client
  imports Help_Steps
begin

text \<open>
  Every write of the help-request module, made on a table that others use at the same time, is a run
  of steps of the requests' life: what each change makes of the row it finds, and the calls around it.
\<close>

section \<open>What each change makes of the row\<close>

lemma still_pendingD:
  assumes "cond_holds still_pending i" "request_in i = Some r"
  shows "rq_phase r = Waiting" and "rq_holder r = None"
proof -
  from assms(1) have s: "item_get i ''escalation_status'' = PStr PENDING" and h: "i ''teacher_id'' = None"
    by (auto simp: still_pending_def item_get_def split: option.splits)
  from assms(2) s show "rq_phase r = Waiting" by (auto simp: request_in_Some)
  from assms(2) h show "rq_holder r = None" by (auto simp: request_in_Some)
qed

text \<open>The request of a changed row, attribute by attribute.\<close>

definition phase_after :: "(string \<times> pyval) list \<Rightarrow> phase \<Rightarrow> phase \<Rightarrow> bool" where
  "phase_after changes p p' \<longleftrightarrow>
     (case map_of changes ''escalation_status'' of None \<Rightarrow> p' = p | Some x \<Rightarrow> phase_of x = Some p')"

definition teacher_after :: "(string \<times> pyval) list \<Rightarrow> string list \<Rightarrow> string \<Rightarrow> string option \<Rightarrow> string option \<Rightarrow> bool" where
  "teacher_after changes remove a h h' \<longleftrightarrow>
     (case map_of changes a of
        None \<Rightarrow> h' = (if a \<in> set remove then None else h)
      | Some x \<Rightarrow> (\<exists>u. u \<noteq> [] \<and> x = PStr u \<and> h' = Some u))"

definition tried_after :: "(string \<times> pyval) list \<Rightarrow> string list \<Rightarrow> string list \<Rightarrow> bool" where
  "tried_after changes xs xs' \<longleftrightarrow>
     (case map_of changes ''previous_dispatch_teacher_ids'' of
        None \<Rightarrow> xs' = xs
      | Some x \<Rightarrow> x = PList (map PStr xs') \<and> [] \<notin> set xs')"

lemma request_changed:
  assumes i: "request_in i = Some r" "rq_version r = v"
    and kept: "''PK'' \<notin> set remove" "''escalation_status'' \<notin> set remove" "''previous_dispatch_teacher_ids'' \<notin> set remove"
    and same: "''conversation_id'' \<notin> set remove" "map_of changes ''conversation_id'' = None"
    and after: "phase_after changes (rq_phase r) p" "teacher_after changes remove ''teacher_id'' (rq_holder r) h"
      "teacher_after changes remove ''dispatched_teacher_id'' (rq_offered r) off" "tried_after changes (rq_tried r) xs"
  shows "request_in (changed_row v changes remove i)
    = Some \<lparr>rq_conversation = rq_conversation r, rq_phase = p, rq_holder = h, rq_offered = off, rq_tried = xs, rq_version = v + 1\<rparr>"
proof -
  let ?j = "changed_row v changes remove i"
  note fields = i(1) [unfolded request_in_Some]
  have "?j ''PK'' \<noteq> None" using fields kept(1) by (auto simp: changed_row_def split: option.splits)
  moreover have "phase_of (item_get ?j ''escalation_status'') = Some p"
    using fields after(1) kept(2)
    by (auto simp: changed_row_def item_get_def phase_after_def phase_of_Some split: option.splits)
  moreover have "teacher_at (?j ''teacher_id'') = Some h"
    using fields after(2) by (auto simp: changed_row_def teacher_after_def split: option.splits)
  moreover have "teacher_at (?j ''dispatched_teacher_id'') = Some off"
    using fields after(3) by (auto simp: changed_row_def teacher_after_def split: option.splits)
  moreover have "texts_at (item_get ?j ''previous_dispatch_teacher_ids'') = Some xs"
    using fields after(4) kept(3)
    by (auto simp: changed_row_def item_get_def tried_after_def texts_at_Some as_stored_texts split: option.splits)
  moreover have "exact_int (item_get ?j ''version'') = Some (v + 1)"
    by (simp add: changed_row_def item_get_def del: of_int_add)
  moreover have "item_get ?j ''conversation_id'' = PStr (rq_conversation r)"
    using fields same by (simp add: changed_row_def item_get_def)
  ultimately show ?thesis by (simp add: request_in_Some)
qed

lemmas after_defs = phase_after_def teacher_after_def tried_after_def

definition offered_request :: "request \<Rightarrow> string \<Rightarrow> string list \<Rightarrow> request" where
  "offered_request r u previous = r\<lparr>rq_offered := Some u, rq_tried := previous, rq_version := rq_version r + 1\<rparr>"

lemma offer_next:
  assumes i: "request_in i = Some r" "rq_version r = v" "cond_holds still_pending i"
    and u: "u \<noteq> []" "u \<notin> set previous" and p: "set (rq_tried r) \<subseteq> set previous" "[] \<notin> set previous"
  shows "request_in (changed_row v (offer_changes record u oid deadline previous now) NO_CANDIDATE_FIELDS i)
      = Some (offered_request r u previous)"
    and "lifecycle r (offered_request r u previous)"
proof -
  show "lifecycle r (offered_request r u previous)"
    unfolding offered_request_def using still_pendingD [OF i(3,1)] u(2) p(1) by (rule lifecycle.offering)
  show "request_in (changed_row v (offer_changes record u oid deadline previous now) NO_CANDIDATE_FIELDS i)
      = Some (offered_request r u previous)"
    using u(1) p(2) i(2)
    by (subst request_changed [OF i(1,2)])
      (auto simp: after_defs offer_changes_def NO_CANDIDATE_FIELDS_def offered_request_def intro!: request.equality)
qed

lemma no_candidate_next:
  assumes i: "request_in i = Some r" "rq_version r = v" "cond_holds still_pending i"
    and p: "set (rq_tried r) \<subseteq> set previous" "[] \<notin> set previous"
  shows "\<exists>r'. request_in (changed_row v (no_candidate_changes record reason previous now) OFFER_FIELDS i) = Some r'
    \<and> lifecycle r r'"
proof (intro exI conjI)
  show "lifecycle r (r\<lparr>rq_offered := None, rq_tried := previous, rq_version := rq_version r + 1\<rparr>)"
    using still_pendingD [OF i(3,1)] p(1) by (rule lifecycle.nobody)
  show "request_in (changed_row v (no_candidate_changes record reason previous now) OFFER_FIELDS i)
      = Some (r\<lparr>rq_offered := None, rq_tried := previous, rq_version := rq_version r + 1\<rparr>)"
    using p(2) i(2)
    by (subst request_changed [OF i(1,2)]) (auto simp: after_defs no_candidate_changes_def OFFER_FIELDS_def intro!: request.equality)
qed

definition ended_phase :: "string \<Rightarrow> phase" where
  "ended_phase outcome = (if outcome = WITHDRAWN then Taken_Back else Timed_Out)"

lemma ending_next:
  assumes i: "request_in i = Some r" "rq_version r = v" "cond_holds still_pending i"
    and o: "outcome \<in> {WITHDRAWN, EXPIRED}"
  shows "\<exists>r'. request_in (changed_row v (ending_changes outcome now) (OFFER_FIELDS @ NO_CANDIDATE_FIELDS) i) = Some r'
    \<and> lifecycle r r'"
proof (intro exI conjI)
  have p: "phase_of (PStr outcome) = Some (ended_phase outcome)" "ended_phase outcome \<in> {Taken_Back, Timed_Out}"
    using o by (auto simp: ended_phase_def help_words phase_of_def)
  show "lifecycle r (r\<lparr>rq_phase := ended_phase outcome, rq_offered := None, rq_version := rq_version r + 1\<rparr>)"
    using still_pendingD [OF i(3,1)] p(2) by (rule lifecycle.ending)
  show "request_in (changed_row v (ending_changes outcome now) (OFFER_FIELDS @ NO_CANDIDATE_FIELDS) i)
      = Some (r\<lparr>rq_phase := ended_phase outcome, rq_offered := None, rq_version := rq_version r + 1\<rparr>)"
    using p i(2) still_pendingD [OF i(3,1)]
    by (subst request_changed [OF i(1,2)])
      (auto simp: after_defs ending_changes_def OFFER_FIELDS_def NO_CANDIDATE_FIELDS_def intro!: request.equality)
qed

definition moved_phase :: "string \<Rightarrow> phase" where
  "moved_phase target = (if target = IN_PROGRESS then Running else Finished)"

lemma moved_phase_of:
  assumes "target \<in> {IN_PROGRESS, RESOLVED}"
  shows "phase_of (PStr target) = Some (moved_phase target)" and "moved_phase target \<in> {Running, Finished}"
  using assms by (auto simp: moved_phase_def help_words phase_of_def)

lemma target_changes_at:
  "map_of (target_changes record u target now accepting replying note) ''escalation_status'' = Some (PStr target)"
  "map_of (target_changes record u target now accepting replying note) ''teacher_id'' = (if accepting then Some (PStr u) else None)"
  "map_of (target_changes record u target now accepting replying note) ''dispatched_teacher_id'' = None"
  "map_of (target_changes record u target now accepting replying note) ''previous_dispatch_teacher_ids'' = None"
  "map_of (target_changes record u target now accepting replying note) ''conversation_id'' = None"
  by (simp_all add: target_changes_def map_add_def split: option.split list.split)

lemma held_by:
  assumes "request_in i = Some r" "cond_holds (C_Eq ''teacher_id'' (PStr u)) i"
  shows "rq_holder r = Some u"
  using assms by (auto simp: request_in_Some teacher_at_Some split: option.splits)

definition taken_request :: "request \<Rightarrow> string \<Rightarrow> string \<Rightarrow> request" where
  "taken_request r u target =
     r\<lparr>rq_phase := moved_phase target, rq_holder := Some u, rq_version := rq_version r + 1\<rparr>"

lemma accepted_offer:
  assumes "request_in i = Some r" "cond_holds (accept_condition u offer now) i"
  shows "rq_phase r = Waiting" and "rq_holder r = None" and "rq_offered r = Some u" and "u \<noteq> []"
    and "cond_holds (C_After ''dispatch_deadline_at'' now) i"
proof -
  from assms(2) have c: "cond_holds still_pending i" and d: "cond_holds (C_Eq ''dispatched_teacher_id'' (PStr u)) i"
    and "cond_holds (C_After ''dispatch_deadline_at'' now) i"
    by (simp_all add: accept_condition_def still_pending_def)
  then show "cond_holds (C_After ''dispatch_deadline_at'' now) i" by simp
  show "rq_phase r = Waiting" "rq_holder r = None" by (rule still_pendingD [OF c assms(1)])+
  from assms(1) d show "rq_offered r = Some u" "u \<noteq> []"
    by (auto simp: request_in_Some teacher_at_Some split: option.splits)
qed

lemma take_next:
  assumes i: "request_in i = Some r" "rq_version r = v" "cond_holds (accept_condition u offer now) i"
    and o: "target \<in> {IN_PROGRESS, RESOLVED}"
  shows "request_in (changed_row v (target_changes record u target now True replying note) [] i) = Some (taken_request r u target)"
    and "lifecycle r (taken_request r u target)"
proof -
  note f = accepted_offer [OF i(1,3)]
  show "lifecycle r (taken_request r u target)"
    unfolding taken_request_def using f(1-3) moved_phase_of(2) [OF o] by (rule lifecycle.taking)
  show "request_in (changed_row v (target_changes record u target now True replying note) [] i) = Some (taken_request r u target)"
    using f(4) i(2) moved_phase_of [OF o]
    by (subst request_changed [OF i(1,2)]) (auto simp: after_defs target_changes_at taken_request_def intro!: request.equality)
qed

lemma move_next:
  assumes i: "request_in i = Some r" "rq_version r = v" "cond_holds (holder_condition u) i"
    and o: "target \<in> {IN_PROGRESS, RESOLVED}"
  shows "\<exists>r'. request_in (changed_row v (target_changes record u target now False replying note) [] i) = Some r'
    \<and> lifecycle r r'"
proof (intro exI conjI)
  from i(3) have h: "rq_holder r = Some u"
    by (auto simp: holder_condition_def intro!: held_by [OF i(1)])
  moreover from i(1,3) have "open_phase (rq_phase r)"
    by (auto simp: holder_condition_def request_in_Some open_phase_def item_get_def split: option.splits)
  ultimately show "lifecycle r (r\<lparr>rq_phase := moved_phase target, rq_version := rq_version r + 1\<rparr>)"
    using moved_phase_of(2) [OF o] by (intro lifecycle.moving)
  show "request_in (changed_row v (target_changes record u target now False replying note) [] i)
      = Some (r\<lparr>rq_phase := moved_phase target, rq_version := rq_version r + 1\<rparr>)"
    using i(2) moved_phase_of [OF o]
    by (subst request_changed [OF i(1,2)]) (auto simp: after_defs target_changes_at intro!: request.equality)
qed

lemma touch_next:
  assumes i: "request_in i = Some r" "rq_version r = v" "cond_holds (C_Eq ''teacher_id'' (PStr u)) i"
  shows "\<exists>r'. request_in (changed_row v (touch_changes record now) [] i) = Some r' \<and> lifecycle r r'"
proof (intro exI conjI)
  show "lifecycle r (r\<lparr>rq_version := rq_version r + 1\<rparr>)"
    using held_by [OF i(1,3)] by (rule lifecycle.replying)
  show "request_in (changed_row v (touch_changes record now) [] i) = Some (r\<lparr>rq_version := rq_version r + 1\<rparr>)"
    using i(2) by (subst request_changed [OF i(1,2)]) (auto simp: after_defs touch_changes_def intro!: request.equality)
qed

section \<open>What a record that was read_then says of the row\<close>

lemma seen_row:
  assumes "read_then rt record t0" "help_run t0 t" "t (request_key rt record) = Some j" "request_in j = Some r"
    "rq_version r = read_version record"
  shows "mirrors record j"
proof -
  from assms(1) obtain s i r0 where s: "help_run s t0" "s (request_key rt record) = Some i" "mirrors record i"
      "request_in i = Some r0"
    by (auto simp: read_then_def)
  from help_run_version [OF help_run_trans [OF s(1) assms(2)], of "str_or rt (item_get record ''conversation_id'') []" i] s(2) assms(3)
  have "same_or_later i j" by (auto simp: request_key_def)
  with s(3,4) mirrors_version [OF s(3,4)] assms(4,5) show ?thesis by (auto simp: same_or_later_def)
qed

lemma seen_run: "read_then rt record t \<Longrightarrow> help_run t t' \<Longrightarrow> read_then rt record t'"
  unfolding read_then_def by (blast intro: help_run_trans)

lemma mirrors_request:
  assumes "mirrors record i" "request_in i = Some r"
  shows "PStr u = item_get record ''teacher_id'' \<longleftrightarrow> rq_holder r = Some u"
    and "PStr u = item_get record ''dispatched_teacher_id'' \<longleftrightarrow> rq_offered r = Some u"
    and "list_values (item_get record ''previous_dispatch_teacher_ids'') = map PStr (rq_tried r)"
    and "stored_status rt record \<in> set OPEN_STATES \<longleftrightarrow> open_phase (rq_phase r)"
    and "[] \<notin> set (rq_tried r)"
proof -
  note r = assms(2) [unfolded request_in_Some teacher_at_Some texts_at_Some]
  note same = mirrors_text [OF assms(1)]
  from r same [of "''teacher_id''" u] show "PStr u = item_get record ''teacher_id'' \<longleftrightarrow> rq_holder r = Some u"
    by (auto simp: item_get_def eq_commute [of "PStr u"] split: option.splits)
  from r same [of "''dispatched_teacher_id''" u] show "PStr u = item_get record ''dispatched_teacher_id'' \<longleftrightarrow> rq_offered r = Some u"
    by (auto simp: item_get_def eq_commute [of "PStr u"] split: option.splits)
  from r show "[] \<notin> set (rq_tried r)" by blast
  from r mirrors_texts [OF assms(1)] mirrors_none [OF assms(1), THEN iffD2]
  show "list_values (item_get record ''previous_dispatch_teacher_ids'') = map PStr (rq_tried r)" by fastforce
  from r obtain s where s: "item_get i ''escalation_status'' = PStr s" "phase_of (PStr s) = Some (rq_phase r)" by (auto simp: phase_of_Some)
  with same have "item_get record ''escalation_status'' = PStr s" by simp
  with s(2) show "stored_status rt record \<in> set OPEN_STATES \<longleftrightarrow> open_phase (rq_phase r)"
    by (auto simp: stored_status_def OPEN_STATES_def open_phase_def phase_of_def help_words split: if_splits)
qed

lemma first_ones_set [simp]: "set (first_ones xs) = set xs"
  by (induction xs) auto

lemma listed_entries: "[] \<notin> set xs \<Longrightarrow> map (py_str rt) (filter truthy (map PStr xs)) = xs"
  by (induction xs) auto

lemma previous_keeps:
  assumes "mirrors record i" "request_in i = Some r"
  shows "set (rq_tried r) \<subseteq> set (previous_teachers rt record now)" and "[] \<notin> set (previous_teachers rt record now)"
  using mirrors_request(3,5) [OF assms] listed_entries [of "rq_tried r" rt]
  by (auto simp: previous_teachers_def Let_def simp del: filter_map)

lemma filter_entries: "filter (\<lambda>v. v \<noteq> PStr u) (map PStr xs) = map PStr (filter (\<lambda>x. x \<noteq> u) xs)"
  by (induction xs) auto

lemma scrub_next:
  assumes i: "request_in i = Some r" "rq_version r = v" "mirrors record i"
  shows "\<exists>r'. request_in (changed_row v (scrub_changes rt record u now) (scrub_removes record u) i) = Some r' \<and> lifecycle r r'"
proof (cases "rq_holder r = Some u \<or> rq_offered r = Some u")
  case True
  then show ?thesis
  proof (intro exI conjI)
    show "lifecycle r (r\<lparr>rq_phase := (if open_phase (rq_phase r) then Waiting else rq_phase r), rq_holder := None,
        rq_offered := None, rq_tried := filter (\<lambda>x. x \<noteq> u) (rq_tried r), rq_version := rq_version r + 1\<rparr>)"
      using True by (rule lifecycle.leaving)
    show "request_in (changed_row v (scrub_changes rt record u now) (scrub_removes record u) i)
      = Some (r\<lparr>rq_phase := (if open_phase (rq_phase r) then Waiting else rq_phase r), rq_holder := None,
        rq_offered := None, rq_tried := filter (\<lambda>x. x \<noteq> u) (rq_tried r), rq_version := rq_version r + 1\<rparr>)"
      using True i(2) mirrors_request [OF i(3,1)]
      by (subst request_changed [OF i(1,2), where p = "if open_phase (rq_phase r) then Waiting else rq_phase r"])
        (auto simp: after_defs scrub_changes_def scrub_removes_def OFFER_FIELDS_def filter_entries intro!: request.equality)
  qed
next
  case False
  then show ?thesis
  proof (intro exI conjI)
    show "lifecycle r (r\<lparr>rq_tried := filter (\<lambda>x. x \<noteq> u) (rq_tried r), rq_version := rq_version r + 1\<rparr>)"
      using False by (intro lifecycle.forgetting) auto
    show "request_in (changed_row v (scrub_changes rt record u now) (scrub_removes record u) i)
      = Some (r\<lparr>rq_tried := filter (\<lambda>x. x \<noteq> u) (rq_tried r), rq_version := rq_version r + 1\<rparr>)"
      using False i(2) mirrors_request [OF i(3,1)]
      by (subst request_changed [OF i(1,2)])
        (auto simp: after_defs scrub_changes_def scrub_removes_def filter_entries intro!: request.equality)
  qed
qed

end
