(* ===== verification/Paid_Grant.thy ===== *)
theory Paid_Grant
  imports Relationship Allowance_Model
begin

text \<open>
  Whether a parent's purchase carries a student's allowance now (the readers of
  \<open>services/paid_entitlement_service.py\<close>): the stored grant, read strictly, and the proof that the
  relationship it rests on is current, with both accounts active. Writing grants is not modelled.
\<close>

section \<open>Strict values\<close>

text \<open>\<open>_positive_integer\<close>; a \<open>Decimal\<close> of the model is finite, as every number a table row holds is.\<close>

definition positive_integer :: "pyval \<Rightarrow> int result" where
  "positive_integer v =
     (case exact_int v of None \<Rightarrow> Inl Value_Error | Some n \<Rightarrow> if n \<le> 0 then Inl Value_Error else Inr n)"

definition text_field :: "nat \<Rightarrow> pyval \<Rightarrow> string result" where
  "text_field n v = (case required_text n v of None \<Rightarrow> Inl Value_Error | Some s \<Rightarrow> Inr s)"

definition digest_of :: "pyval \<Rightarrow> string result" where
  "digest_of v = (case sha256_text v of None \<Rightarrow> Inl Value_Error | Some s \<Rightarrow> Inr s)"

definition billing_plan :: "pyval \<Rightarrow> plan result" where
  "billing_plan v =
     (case text_field 200 v of Inl e \<Rightarrow> Inl e
      | Inr s \<Rightarrow> (case plan_of_text s of None \<Rightarrow> Inl Value_Error | Some p \<Rightarrow> Inr p))"

lemma positive_integer_Inr: "positive_integer v = Inr n \<longleftrightarrow> exact_int v = Some n \<and> 0 < n"
  by (auto simp: positive_integer_def split: option.splits if_splits)

lemma positive_integer_error: "positive_integer v = Inl e \<Longrightarrow> e = Value_Error"
  by (auto simp: positive_integer_def split: option.splits if_splits)

section \<open>The stored grant\<close>

definition GRANT_SCHEMA_VERSION :: string where
  "GRANT_SCHEMA_VERSION = ''paid_beneficiary_grant.v1''"

definition grant_key :: "string \<Rightarrow> string \<Rightarrow> key result" where
  "grant_key p b =
     (case (text_field 200 (PStr p), text_field 200 (PStr b)) of
        (Inr p', Inr b') \<Rightarrow> Inr (''PAID_GRANT#'' @ p', ''BENEFICIARY#'' @ b')
      | _ \<Rightarrow> Inl Value_Error)"

text \<open>\<open>_strong_get\<close> of this module: an answer without a row, malformed or not, is no row.\<close>

definition paid_get :: "'w db \<Rightarrow> key \<Rightarrow> 'w \<Rightarrow> item option result \<times> 'w" where
  "paid_get db k w =
     (case db_get db k w of
        (Resp_Failed, w1) \<Rightarrow> (Inl Provider_Error, w1)
      | (Resp_Item i, w1) \<Rightarrow> (Inr (Some i), w1)
      | (_, w1) \<Rightarrow> (Inr None, w1))"

definition current_grant :: "item option \<Rightarrow> string \<Rightarrow> string \<Rightarrow> item option" where
  "current_grant found p b =
     (case found of
        None \<Rightarrow> None
      | Some g \<Rightarrow>
          (if item_get g ''PK'' \<noteq> PStr (''PAID_GRANT#'' @ p) \<or> item_get g ''SK'' \<noteq> PStr (''BENEFICIARY#'' @ b)
              \<or> item_get g ''entity_type'' \<noteq> PStr ''beneficiary_grant''
              \<or> item_get g ''schema_version'' \<noteq> PStr GRANT_SCHEMA_VERSION
              \<or> item_get g ''parent_id'' \<noteq> PStr p \<or> item_get g ''beneficiary_id'' \<noteq> PStr b
              \<or> item_get g ''grant_status'' \<noteq> PStr ''active''
           then None
           else case billing_plan (item_get g ''plan_id'') of
               Inl e \<Rightarrow> None
             | Inr plan \<Rightarrow>
                 (if plan = FREE_TRIAL
                     \<or> \<not> list_all (\<lambda>f. is_ok (positive_integer (item_get g f)))
                         [''grant_version'', ''plan_version'', ''allowance_version'', ''activation_version'']
                     \<or> \<not> is_ok (digest_of (item_get g ''subscription_id_digest''))
                  then None else Some g)))"

section \<open>The relationship behind it\<close>

definition BENEFICIARY_RELATIONSHIP :: string where
  "BENEFICIARY_RELATIONSHIP = ''child''"

definition relationship_authority ::
    "'w db \<Rightarrow> runtime \<Rightarrow> string \<Rightarrow> string \<Rightarrow> 'w \<Rightarrow> verdict option result \<times> 'w" where
  "relationship_authority db rt p s w =
     (if p = [] \<or> s = [] then (Inr None, w)
      else case judge db rt p s w of
          (Inl e, w1) \<Rightarrow> (Inl e, w1)
        | (Inr v, w1) \<Rightarrow>
            (Inr (if \<not> is_current v \<or> vd_relationship v \<noteq> Some BENEFICIARY_RELATIONSHIP then None else Some v), w1))"

text \<open>Sorted by text, equal texts in their order.\<close>

fun insert_text :: "('a \<Rightarrow> string) \<Rightarrow> 'a \<Rightarrow> 'a list \<Rightarrow> 'a list" where
  "insert_text f x [] = [x]"
| "insert_text f x (y # ys) = (if text_less (f y) (f x) then y # insert_text f x ys else x # y # ys)"

definition sorted_text :: "('a \<Rightarrow> string) \<Rightarrow> 'a list \<Rightarrow> 'a list" where
  "sorted_text f xs = foldr (insert_text f) xs []"

definition beneficiary_parents ::
    "'w db \<Rightarrow> runtime \<Rightarrow> 'w link_index \<Rightarrow> string \<Rightarrow> 'w \<Rightarrow> verdict list result \<times> 'w" where
  "beneficiary_parents db rt ix s w =
     (if s = [] then (Inr [], w)
      else case parents_of db rt ix s w of
          (Inl e, w1) \<Rightarrow> (Inl e, w1)
        | (Inr vs, w1) \<Rightarrow>
            (Inr (sorted_text vd_parent (filter (\<lambda>v. vd_relationship v = Some BENEFICIARY_RELATIONSHIP) vs)), w1))"

record relationship_proof =
  pf_parent_version :: int
  pf_parent_generation :: int
  pf_student_version :: int
  pf_student_generation :: int

definition active_profile :: "item option \<Rightarrow> string \<Rightarrow> string \<Rightarrow> bool" where
  "active_profile profile u role =
     (case profile of
        None \<Rightarrow> False
      | Some i \<Rightarrow> item_get i ''user_id'' = PStr u \<and> item_get i ''role'' = PStr role
          \<and> item_get i ''account_status'' = PStr ''active'')"

text \<open>\<open>None\<close> is the module's \<open>PaidGrantConflict\<close>; an error of the service goes through.\<close>

definition conflict_of :: "err \<Rightarrow> 'a option result" where
  "conflict_of e = (if e \<in> {Value_Error, Account_Conflict} then Inr None else Inl e)"

definition proof_versions ::
    "'w db \<Rightarrow> string \<Rightarrow> string \<Rightarrow> item \<Rightarrow> item \<Rightarrow> 'w \<Rightarrow> relationship_proof option result \<times> 'w" where
  "proof_versions db p s parent student w =
     (case (positive_integer (item_get parent ''version''), positive_integer (item_get student ''version'')) of
        (Inr pv, Inr sv) \<Rightarrow>
          (case require_active_account_fence db p None w of
             (Inl e, w1) \<Rightarrow> (conflict_of e, w1)
           | (Inr pf, w1) \<Rightarrow>
               (case require_active_account_fence db s None w1 of
                  (Inl e, w2) \<Rightarrow> (conflict_of e, w2)
                | (Inr sf, w2) \<Rightarrow>
                    (case (positive_integer (item_get pf ''generation''), positive_integer (item_get sf ''generation'')) of
                       (Inr pg, Inr sg) \<Rightarrow>
                         (Inr (Some \<lparr>pf_parent_version = pv, pf_parent_generation = pg, pf_student_version = sv,
                            pf_student_generation = sg\<rparr>), w2)
                     | _ \<Rightarrow> (Inr None, w2))))
      | _ \<Rightarrow> (Inr None, w))"

definition relationship_proof_of ::
    "'w db \<Rightarrow> runtime \<Rightarrow> string \<Rightarrow> string \<Rightarrow> 'w \<Rightarrow> relationship_proof option result \<times> 'w" where
  "relationship_proof_of db rt p s w =
     (case get_user db p w of
        (Inl e, w1) \<Rightarrow> (Inl e, w1)
      | (Inr parent, w1) \<Rightarrow>
          (case get_user db s w1 of
             (Inl e, w2) \<Rightarrow> (Inl e, w2)
           | (Inr student, w2) \<Rightarrow>
               (if \<not> active_profile parent p ''parent'' \<or> \<not> active_profile student s ''student'' then (Inr None, w2)
                else case relationship_authority db rt p s w2 of
                    (Inl e, w3) \<Rightarrow> (Inl e, w3)
                  | (Inr None, w3) \<Rightarrow> (Inr None, w3)
                  | (Inr (Some v), w3) \<Rightarrow> proof_versions db p s (the parent) (the student) w3)))"

definition get_active_beneficiary_grant ::
    "'w db \<Rightarrow> runtime \<Rightarrow> string \<Rightarrow> string \<Rightarrow> 'w \<Rightarrow> item option result \<times> 'w" where
  "get_active_beneficiary_grant db rt p b w =
     (case grant_key p b of
        Inl e \<Rightarrow> (Inr None, w)
      | Inr k \<Rightarrow>
          (case paid_get db k w of
             (Inl e, w1) \<Rightarrow> (Inl e, w1)
           | (Inr found, w1) \<Rightarrow>
               (case current_grant found p b of
                  None \<Rightarrow> (Inr None, w1)
                | Some g \<Rightarrow>
                    (case relationship_proof_of db rt p b w1 of
                       (Inl e, w2) \<Rightarrow> (if e = Value_Error then Inr None else Inl e, w2)
                     | (Inr None, w2) \<Rightarrow> (Inr None, w2)
                     | (Inr (Some pf), w2) \<Rightarrow> (Inr (Some g), w2)))))"

section \<open>Calls that read\<close>

definition reading :: "('w \<Rightarrow> 'a \<times> 'w) \<Rightarrow> ('w \<Rightarrow> table) \<Rightarrow> (table \<Rightarrow> table \<Rightarrow> bool) \<Rightarrow> bool" where
  "reading f rows env \<longleftrightarrow> (\<forall>u x u'. f u = (x, u') \<longrightarrow> env (rows u) (rows u'))"

lemma readingD: "reading f rows env \<Longrightarrow> f u = (x, u') \<Longrightarrow> env (rows u) (rows u')"
  by (simp add: reading_def)

section \<open>What a grant that is returned rests on\<close>

lemma active_grantD:
  assumes "current_grant found p b = Some g"
  shows "found = Some g" and "item_get g ''parent_id'' = PStr p" and "item_get g ''beneficiary_id'' = PStr b"
    and "item_get g ''grant_status'' = PStr ''active''"
  using assms by (auto simp: current_grant_def split: option.splits if_splits sum.splits)

context store
begin

lemma paid_get_env: "paid_get db k w = (r, w') \<Longrightarrow> env (rows w) (rows w')"
  by (auto simp: paid_get_def split: prod.splits response.splits dest: get_env)

lemma relationship_authority_env: "relationship_authority db rt p s w = (r, w') \<Longrightarrow> env (rows w) (rows w')"
  by (auto simp: relationship_authority_def env_refl split: if_splits prod.splits sum.splits dest: judge_env)

lemma proof_versions_env: "proof_versions db p s i j w = (r, w') \<Longrightarrow> env (rows w) (rows w')"
  by (auto simp: proof_versions_def env_refl split: prod.splits sum.splits
      dest!: require_active_account_fence_env intro: env_trans)

lemma relationship_proof_env:
  assumes call: "relationship_proof_of db rt p s w = (r, w')"
  shows "env (rows w) (rows w')"
proof -
  from call consider x where "get_user db p w = (x, w')"
    | x y w1 where "get_user db p w = (x, w1)" "get_user db s w1 = (y, w')"
    | x y z w1 w2 where "get_user db p w = (x, w1)" "get_user db s w1 = (y, w2)" "relationship_authority db rt p s w2 = (z, w')"
    | x y z v w1 w2 w3 i j where "get_user db p w = (x, w1)" "get_user db s w1 = (y, w2)"
        "relationship_authority db rt p s w2 = (z, w3)" "proof_versions db p s i j w3 = (v, w')"
    by (auto simp: relationship_proof_of_def split: if_splits prod.splits sum.splits option.splits)
  then show ?thesis
    by cases (meson env_trans get_user_env relationship_authority_env proof_versions_env)+
qed

lemma active_beneficiary_grant_env:
  assumes call: "get_active_beneficiary_grant db rt p b w = (r, w')"
  shows "env (rows w) (rows w')"
proof -
  from call consider "w' = w" | k x where "paid_get db k w = (x, w')"
    | k x w1 y where "paid_get db k w = (x, w1)" "relationship_proof_of db rt p b w1 = (y, w')"
    by (auto simp: get_active_beneficiary_grant_def split: if_splits prod.splits sum.splits option.splits)
  then show ?thesis
    by cases (auto intro: env_refl paid_get_env env_trans relationship_proof_env)
qed

end

end
