(* ===== verification/Support_Cases.thy ===== *)
theory Support_Cases
  imports Paid_Grant
begin

text \<open>
  The weekly allowance of teacher-help cases (\<open>services/teacher_support_allowance_service.py\<close>): the
  scope a student's cases are counted in, the admission that spends a case in the caller's own
  transaction, the refund that gives it back to the week it was taken from, and what the student and
  the administrator are shown.

  The caller's transaction is an argument (\<open>persist\<close>), as in the code. A character of a hashed text
  stands for one byte of its UTF-8 form.
\<close>

section \<open>Domain digests\<close>

definition pack32 :: "nat \<Rightarrow> string" where
  "pack32 n = map (\<lambda>k. char_of (n div 256 ^ k mod 256)) [3, 2, 1, 0]"

definition framed :: "string \<Rightarrow> string" where
  "framed s = pack32 (length s) @ s"

definition domain_digest :: "codec \<Rightarrow> string \<Rightarrow> string list \<Rightarrow> string" where
  "domain_digest cd domain values = sha256 cd (domain @ concat (map framed values))"

section \<open>Receipts\<close>

definition CASE_KINDS :: "string list" where
  "CASE_KINDS = [''question'', ''conversation'']"

definition ADMISSION_SCHEMA_VERSION :: string where
  "ADMISSION_SCHEMA_VERSION = ''teacher_support_admission.v1''"

definition case_key :: "codec \<Rightarrow> string \<Rightarrow> string \<Rightarrow> key" where
  "case_key cd kind c =
     (''TEACHER_SUPPORT_CASE#'' @ domain_digest cd ''stoa.teacher-support.case.v1'' [kind, c], ''ADMISSION'')"

record case_admission =
  ad_case :: string
  ad_scope_id :: string
  ad_beneficiary :: string
  ad_plan :: plan
  ad_week :: string
  ad_start :: int
  ad_end :: int
  ad_count :: int
  ad_limit :: int
  ad_at :: int

text \<open>\<open>_parse_timestamp\<close>: an ISO text with an offset, as its instant.\<close>

definition aware_instant :: "runtime \<Rightarrow> pyval \<Rightarrow> int option" where
  "aware_instant rt v =
     (case required_text 200 v of
        None \<Rightarrow> None
      | Some s \<Rightarrow>
          (case from_iso rt (replace_z s) of
             Some (Stamp wall (Some offset)) \<Rightarrow> Some (wall - offset)
           | _ \<Rightarrow> None))"

text \<open>\<open>_admission_from_item\<close>; \<open>None\<close> for a malformed receipt.\<close>

definition admission_from_item :: "runtime \<Rightarrow> item \<Rightarrow> case_admission option" where
  "admission_from_item rt i =
     (if item_get i ''entity_type'' \<noteq> PStr ''teacher_support_admission''
         \<or> item_get i ''schema_version'' \<noteq> PStr ADMISSION_SCHEMA_VERSION then None
      else do {
        c \<leftarrow> required_text 200 (item_get i ''support_case_id'');
        scope \<leftarrow> sha256_text (item_get i ''support_scope_id'');
        b \<leftarrow> required_text 200 (item_get i ''beneficiary_id'');
        p \<leftarrow> required_text 200 (item_get i ''plan_id'');
        plan \<leftarrow> plan_of_text p;
        wk \<leftarrow> required_text 8 (item_get i ''week_identity'');
        s \<leftarrow> aware_instant rt (item_get i ''window_start'');
        e \<leftarrow> aware_instant rt (item_get i ''window_end'');
        n \<leftarrow> exact_int (item_get i ''post_admission_count'');
        check (0 \<le> n);
        cap \<leftarrow> exact_int (item_get i ''limit'');
        check (0 < cap);
        at_time \<leftarrow> aware_instant rt (item_get i ''admitted_at'');
        Some \<lparr>ad_case = c, ad_scope_id = scope, ad_beneficiary = b, ad_plan = plan, ad_week = wk, ad_start = s,
          ad_end = e, ad_count = n, ad_limit = cap, ad_at = at_time\<rparr>
      })"

datatype admission_disposition =
    Case_Admitted | Case_Replayed | Case_Plan_Denied | Case_Limit_Exceeded | Case_Conflict | Case_Retryable

type_synonym admission_result = "admission_disposition \<times> case_admission option"

definition classify_existing :: "runtime \<Rightarrow> item \<Rightarrow> string \<Rightarrow> string \<Rightarrow> string \<Rightarrow> admission_result" where
  "classify_existing rt i c kind b =
     (case admission_from_item rt i of
        None \<Rightarrow> (Case_Retryable, None)
      | Some a \<Rightarrow>
          (if ad_case a = c \<and> ad_beneficiary a = b \<and> item_get i ''case_kind'' = PStr kind
           then (Case_Replayed, Some a) else (Case_Conflict, None)))"

section \<open>The assigned figure\<close>

definition ASSIGNED_WEEKLY_TEACHER_SUPPORT_CASES :: int where
  "ASSIGNED_WEEKLY_TEACHER_SUPPORT_CASES = 7"

definition ASSIGNED_WEEKLY_CASES_MAXIMUM :: int where
  "ASSIGNED_WEEKLY_CASES_MAXIMUM = 200"

definition assigned_weekly_cases :: "item option \<Rightarrow> int" where
  "assigned_weekly_cases student =
     (case student of
        None \<Rightarrow> ASSIGNED_WEEKLY_TEACHER_SUPPORT_CASES
      | Some i \<Rightarrow>
          (case exact_int (item_get i ''weekly_cases'') of
             None \<Rightarrow> ASSIGNED_WEEKLY_TEACHER_SUPPORT_CASES
           | Some n \<Rightarrow> if n < 0 \<or> ASSIGNED_WEEKLY_CASES_MAXIMUM < n then ASSIGNED_WEEKLY_TEACHER_SUPPORT_CASES else n))"

definition assigned_allowance_key :: "string \<Rightarrow> key" where
  "assigned_allowance_key s = (''USER#'' @ s, ''TEACHER_SUPPORT_ALLOWANCE'')"

record assigned_cases =
  ac_weekly :: int
  ac_source :: string
  ac_version :: "int option"

definition read_assigned_weekly_cases :: "'w db \<Rightarrow> string \<Rightarrow> 'w \<Rightarrow> assigned_cases result \<times> 'w" where
  "read_assigned_weekly_cases db s w =
     (case text_field 200 (PStr s) of
        Inl e \<Rightarrow> (Inl e, w)
      | Inr student \<Rightarrow>
          (case strong_get db (assigned_allowance_key student) w of
             (Inl e, w1) \<Rightarrow> (Inl e, w1)
           | (Inr stored, w1) \<Rightarrow>
               (Inr \<lparr>ac_weekly = assigned_weekly_cases stored,
                  ac_source = (case stored of None \<Rightarrow> ''default'' | Some i \<Rightarrow> ''administrator''),
                  ac_version = (case stored of None \<Rightarrow> None | Some i \<Rightarrow> exact_int (item_get i ''state_version''))\<rparr>, w1)))"

text \<open>
  A conditional put of one row, answered by the client as done, refused by its condition, or failed;
  \<open>set_assigned_weekly_cases\<close> writes with it.
\<close>

datatype put_answer = Put_Done | Put_Refused | Put_Failed

type_synonym 'w putter = "op \<Rightarrow> 'w \<Rightarrow> put_answer \<times> 'w"

datatype figure_write = Figure_Written int | Figure_Version_Conflict

definition figure_version :: "item option \<Rightarrow> int" where
  "figure_version previous =
     (case previous of None \<Rightarrow> 0
      | Some i \<Rightarrow> (case exact_int (item_get i ''state_version'') of Some n \<Rightarrow> n | None \<Rightarrow> 0)) + 1"

definition assigned_row :: "codec \<Rightarrow> string \<Rightarrow> int \<Rightarrow> int \<Rightarrow> int \<Rightarrow> string \<Rightarrow> item" where
  "assigned_row cd s n version now actor = dict_of
     [(''PK'', PStr (fst (assigned_allowance_key s))), (''SK'', PStr (snd (assigned_allowance_key s))),
      (''entity_type'', PStr ''teacher_support_assigned_allowance''),
      (''schema_version'', PStr ''teacher_support_assigned_allowance.v1''), (''student_id'', PStr s),
      (''weekly_cases'', PInt n), (''state_version'', PInt version), (''updated_at'', PStr (iso cd now)),
      (''updated_by'', PStr actor)]"

definition set_assigned_weekly_cases ::
    "codec \<Rightarrow> 'w db \<Rightarrow> 'w putter \<Rightarrow> string \<Rightarrow> pyval \<Rightarrow> string \<Rightarrow> int \<Rightarrow> 'w \<Rightarrow> figure_write result \<times> 'w" where
  "set_assigned_weekly_cases cd db put s weekly actor now w =
     (case text_field 200 (PStr s) of
        Inl e \<Rightarrow> (Inl e, w)
      | Inr student \<Rightarrow>
          (case weekly of
             PInt n \<Rightarrow>
               (if n < 0 \<or> ASSIGNED_WEEKLY_CASES_MAXIMUM < n then (Inl Value_Error, w)
                else case strong_get db (assigned_allowance_key student) w of
                    (Inl e, w1) \<Rightarrow> (Inl e, w1)
                  | (Inr previous, w1) \<Rightarrow>
                      (let v = figure_version previous
                       in case put (Put (assigned_row cd student n v now actor)
                              (if previous = None then C_Absent ''PK'' else C_Eq ''state_version'' (PInt (v - 1)))) w1 of
                            (Put_Done, w2) \<Rightarrow> (Inr (Figure_Written v), w2)
                          | (Put_Refused, w2) \<Rightarrow> (Inr Figure_Version_Conflict, w2)
                          | (Put_Failed, w2) \<Rightarrow> (Inl Provider_Error, w2)))
           | _ \<Rightarrow> (Inl Value_Error, w)))"

section \<open>The scope of a student's cases\<close>

record case_scope =
  cs_beneficiary :: string
  cs_parent :: string
  cs_plan :: plan
  cs_plan_version :: int
  cs_allowance_version :: int
  cs_grant_version :: int
  cs_digest :: string
  cs_grant_id :: string
  cs_scope :: support_scope
  cs_scope_id :: string
  cs_limit :: int
  cs_grant :: item
  cs_assigned :: bool
  cs_profile_version :: "int option"
  cs_figure_version :: "int option"

definition active_student :: "'w db \<Rightarrow> string \<Rightarrow> 'w \<Rightarrow> item option result \<times> 'w" where
  "active_student db b w =
     (case get_user db b w of
        (Inl e, w1) \<Rightarrow> (Inl Dependency_Failure, w1)
      | (Inr found, w1) \<Rightarrow> (Inr (if active_profile found b ''student'' then found else None), w1))"

definition SCOPE_DOMAIN :: string where "SCOPE_DOMAIN = ''stoa.teacher-support.scope.v1''"

definition resolve_assigned_scope ::
    "codec \<Rightarrow> 'w db \<Rightarrow> string \<Rightarrow> item \<Rightarrow> 'w \<Rightarrow> case_scope option result \<times> 'w" where
  "resolve_assigned_scope cd db b student w =
     (case positive_integer (item_get student ''version'') of
        Inl e \<Rightarrow> (Inr None, w)
      | Inr profile_version \<Rightarrow>
          (case strong_get db (assigned_allowance_key b) w of
             (Inl e, w1) \<Rightarrow> (Inl e, w1)
           | (Inr raised, w1) \<Rightarrow>
               (case (case raised of
                        None \<Rightarrow> Inr None
                      | Some i \<Rightarrow>
                          (if item_get i ''entity_type'' \<noteq> PStr ''teacher_support_assigned_allowance''
                              \<or> item_get i ''schema_version'' \<noteq> PStr ''teacher_support_assigned_allowance.v1''
                           then Inl Dependency_Failure
                           else map_sum id Some (positive_integer (item_get i ''state_version'')))) of
                  Inl e \<Rightarrow> (Inl e, w1)
                | Inr figure \<Rightarrow>
                    (let cap = assigned_weekly_cases raised
                     in if cap \<le> 0 then (Inr None, w1)
                        else (Inr (Some \<lparr>cs_beneficiary = b, cs_parent = [], cs_plan = FREE_TRIAL, cs_plan_version = 1,
                          cs_allowance_version = 1, cs_grant_version = 1,
                          cs_digest = domain_digest cd ''stoa.teacher-support.assigned.v1'' [b],
                          cs_grant_id = domain_digest cd ''stoa.teacher-support.assigned-grant.v1'' [b],
                          cs_scope = Per_Beneficiary, cs_scope_id = domain_digest cd SCOPE_DOMAIN [''assigned'', b],
                          cs_limit = cap, cs_grant = Map.empty, cs_assigned = True,
                          cs_profile_version = Some profile_version, cs_figure_version = figure\<rparr>), w1)))))"

text \<open>\<open>_granting_parent\<close>: the first current parent, by id, who holds a grant.\<close>

fun first_grant :: "'w db \<Rightarrow> runtime \<Rightarrow> string \<Rightarrow> verdict list \<Rightarrow> 'w \<Rightarrow> (string \<times> item) option result \<times> 'w" where
  "first_grant db rt b [] w = (Inr None, w)"
| "first_grant db rt b (v # vs) w =
     (case get_active_beneficiary_grant db rt (vd_parent v) b w of
        (Inl e, w1) \<Rightarrow> (Inl e, w1)
      | (Inr (Some g), w1) \<Rightarrow> (Inr (Some (vd_parent v, g)), w1)
      | (Inr None, w1) \<Rightarrow> first_grant db rt b vs w1)"

definition granting_parent ::
    "'w db \<Rightarrow> runtime \<Rightarrow> 'w link_index \<Rightarrow> string \<Rightarrow> 'w \<Rightarrow> (string \<times> item) option result \<times> 'w" where
  "granting_parent db rt ix b w =
     (case beneficiary_parents db rt ix b w of
        (Inl e, w1) \<Rightarrow> (Inl e, w1)
      | (Inr vs, w1) \<Rightarrow> first_grant db rt b vs w1)"

definition plan_allowance_budget :: "plan \<Rightarrow> int \<Rightarrow> budget result" where
  "plan_allowance_budget p version =
     (if \<not> exact_count True version then Inl Value_Error
      else case LOCKED_BUDGETS p of
        (i, out, n, scope) \<Rightarrow>
          validate_locked_budget \<lparr>plan_id = p, budget_input = i, budget_output = out, teacher_support_cases = n,
            teacher_support_scope = scope, allowance_version = version\<rparr>)"

definition paid_scope :: "codec \<Rightarrow> string \<Rightarrow> string \<Rightarrow> item \<Rightarrow> case_scope option" where
  "paid_scope cd b p g =
     (case (billing_plan (item_get g ''plan_id''), positive_integer (item_get g ''plan_version''),
            positive_integer (item_get g ''allowance_version''), positive_integer (item_get g ''grant_version''),
            digest_of (item_get g ''subscription_id_digest'')) of
        (Inr plan, Inr pv, Inr av, Inr gv, Inr digest) \<Rightarrow>
          (if item_get g ''parent_id'' \<noteq> PStr p \<or> item_get g ''beneficiary_id'' \<noteq> PStr b
              \<or> item_get g ''grant_status'' \<noteq> PStr ''active'' then None
           else case plan_allowance_budget plan av of
               Inl e \<Rightarrow> None
             | Inr bud \<Rightarrow>
                 (if teacher_support_scope bud = Scope_None then None
                  else let vals = (if teacher_support_scope bud = Per_Beneficiary
                         then [p, b, digest, int_text gv, int_text pv] else [p, digest, int_text pv])
                       in Some \<lparr>cs_beneficiary = b, cs_parent = p, cs_plan = plan, cs_plan_version = pv,
                            cs_allowance_version = av, cs_grant_version = gv, cs_digest = digest,
                            cs_grant_id = domain_digest cd ''stoa.teacher-support.grant.v1'' vals,
                            cs_scope = teacher_support_scope bud,
                            cs_scope_id = domain_digest cd SCOPE_DOMAIN (scope_text (teacher_support_scope bud) # vals),
                            cs_limit = teacher_support_cases bud, cs_grant = g, cs_assigned = False,
                            cs_profile_version = None, cs_figure_version = None\<rparr>))
      | _ \<Rightarrow> None)"

definition resolve_paid_scope ::
    "codec \<Rightarrow> 'w db \<Rightarrow> runtime \<Rightarrow> 'w link_index \<Rightarrow> string \<Rightarrow> 'w \<Rightarrow> case_scope option result \<times> 'w" where
  "resolve_paid_scope cd db rt ix b w =
     (case granting_parent db rt ix b w of
        (Inl e, w1) \<Rightarrow> (Inl Dependency_Failure, w1)
      | (Inr None, w1) \<Rightarrow> (Inr None, w1)
      | (Inr (Some (p, g)), w1) \<Rightarrow> (Inr (paid_scope cd b p g), w1))"

definition resolve_scope ::
    "codec \<Rightarrow> 'w db \<Rightarrow> runtime \<Rightarrow> 'w link_index \<Rightarrow> string \<Rightarrow> 'w \<Rightarrow> case_scope option result \<times> 'w" where
  "resolve_scope cd db rt ix b w =
     (case text_field 200 (PStr b) of
        Inl e \<Rightarrow> (Inl e, w)
      | Inr u \<Rightarrow>
          (case active_student db u w of
             (Inl e, w1) \<Rightarrow> (Inl e, w1)
           | (Inr None, w1) \<Rightarrow> (Inr None, w1)
           | (Inr (Some student), w1) \<Rightarrow>
               (case resolve_paid_scope cd db rt ix u w1 of
                  (Inl e, w2) \<Rightarrow> (Inl e, w2)
                | (Inr (Some s), w2) \<Rightarrow> (Inr (Some s), w2)
                | (Inr None, w2) \<Rightarrow> resolve_assigned_scope cd db u student w2)))"

section \<open>What an admission is fenced against\<close>

fun conj_of :: "cond list \<Rightarrow> cond" where
  "conj_of [] = C_True"
| "conj_of [c] = c"
| "conj_of (c # cs) = C_And c (conj_of cs)"

definition role_condition :: "string \<Rightarrow> string \<Rightarrow> int \<Rightarrow> op" where
  "role_condition u role version =
     Check (''USER#'' @ u, ''PROFILE'')
       (conj_of [C_Eq ''role'' (PStr role), C_Eq ''account_status'' (PStr ''active''), C_Eq ''version'' (PInt version)])"

definition student_profile_condition :: "case_scope \<Rightarrow> int \<Rightarrow> op" where
  "student_profile_condition s version = role_condition (cs_beneficiary s) ''student'' version"

definition active_link_condition :: "case_scope \<Rightarrow> key \<Rightarrow> op" where
  "active_link_condition s k =
     Check k (conj_of [C_Eq ''entity_type'' (PStr ENTITY_TYPE), C_Eq ''parent_id'' (PStr (cs_parent s)),
       C_Eq ''student_id'' (PStr (cs_beneficiary s)), C_Eq ''relationship'' (PStr BENEFICIARY_RELATIONSHIP),
       C_Eq ''status'' (PStr ''active'')])"

definition relationship_conditions :: "case_scope \<Rightarrow> op list" where
  "relationship_conditions s =
     (if cs_assigned s then []
      else [active_link_condition s (parent_side_key (cs_parent s) (cs_beneficiary s)),
            active_link_condition s (student_side_key (cs_beneficiary s) (cs_parent s))])"

definition assigned_condition_operations :: "case_scope \<Rightarrow> op list result" where
  "assigned_condition_operations s =
     (case cs_profile_version s of
        None \<Rightarrow> Inl Dependency_Failure
      | Some version \<Rightarrow>
          Inr [student_profile_condition s version,
            Check (assigned_allowance_key (cs_beneficiary s))
              (case cs_figure_version s of
                 Some v \<Rightarrow> conj_of [C_Eq ''state_version'' (PInt v), C_Eq ''weekly_cases'' (PInt (cs_limit s))]
               | None \<Rightarrow> C_Absent ''PK'')])"

definition held_grant_condition :: "case_scope \<Rightarrow> op" where
  "held_grant_condition s =
     Check (''PAID_GRANT#'' @ cs_parent s, ''BENEFICIARY#'' @ cs_beneficiary s)
       (conj_of [C_Eq ''grant_status'' (PStr ''active''), C_Eq ''parent_id'' (PStr (cs_parent s)),
         C_Eq ''beneficiary_id'' (PStr (cs_beneficiary s)), C_Eq ''plan_id'' (PStr (plan_text (cs_plan s))),
         C_Eq ''plan_version'' (PInt (cs_plan_version s)), C_Eq ''allowance_version'' (PInt (cs_allowance_version s)),
         C_Eq ''grant_version'' (PInt (cs_grant_version s)), C_Eq ''subscription_id_digest'' (PStr (cs_digest s))])"

definition grant_condition_operations :: "case_scope \<Rightarrow> op list result" where
  "grant_condition_operations s =
     (if cs_assigned s then assigned_condition_operations s
      else let number = (\<lambda>f. positive_integer (item_get (cs_grant s) f))
        in case (number ''parent_account_fence_generation'', number ''student_account_fence_generation'',
                 number ''parent_profile_version'', number ''student_profile_version'') of
             (Inr pg, Inr sg, Inr pv, Inr sv) \<Rightarrow>
               (case active_fence_condition (cs_parent s) (Some pg) of
                  Inl e \<Rightarrow> Inl e
                | Inr fence \<Rightarrow>
                    Inr ([fence, held_grant_condition s, role_condition (cs_parent s) ''parent'' pv,
                      student_profile_condition s sv] @ relationship_conditions s))
           | _ \<Rightarrow> Inl Value_Error)"

section \<open>The week's counter\<close>

text \<open>
  The fields only this service writes. A plan's figure is fixed, so a counter with another is damaged;
  an assigned figure may be raised or lowered within the week.
\<close>

definition counter_of_scope :: "case_scope \<Rightarrow> counter \<Rightarrow> bool" where
  "counter_of_scope s c \<longleftrightarrow>
     (let i = c_item c
      in item_get i ''support_scope'' = PStr (scope_text (cs_scope s))
         \<and> item_get i ''plan_id'' = PStr (plan_text (cs_plan s))
         \<and> py_eq (item_get i ''plan_version'') (PInt (cs_plan_version s))
         \<and> py_eq (item_get i ''allowance_version'') (PInt (cs_allowance_version s))
         \<and> (cs_assigned s \<or> py_eq (item_get i ''limit'') (PInt (cs_limit s)))
         \<and> (cs_assigned s \<or> count c ''admitted_cases'' \<le> cs_limit s))"

definition read_case_counter ::
    "codec \<Rightarrow> 'w db \<Rightarrow> case_scope \<Rightarrow> zweek \<Rightarrow> 'w \<Rightarrow> counter option result \<times> 'w" where
  "read_case_counter cd db s wk w =
     (case read_counter cd db CASES (cs_scope_id s) wk w of
        (Inl e, w1) \<Rightarrow> (Inl Dependency_Failure, w1)
      | (Inr None, w1) \<Rightarrow> (Inr None, w1)
      | (Inr (Some c), w1) \<Rightarrow> (if counter_of_scope s c then Inr (Some c) else Inl Dependency_Failure, w1))"

definition spent_cases :: "counter option \<Rightarrow> int" where
  "spent_cases c = (case c of None \<Rightarrow> 0 | Some c' \<Rightarrow> count c' ''admitted_cases'')"

section \<open>Spending a case\<close>

text \<open>The caller's transaction: whether it committed, any exception counting as not.\<close>

type_synonym 'w persist = "op list \<Rightarrow> 'w \<Rightarrow> bool \<times> 'w"

definition admission_receipt ::
    "codec \<Rightarrow> case_scope \<Rightarrow> zweek \<Rightarrow> string \<Rightarrow> string \<Rightarrow> string \<Rightarrow> int \<Rightarrow> int \<Rightarrow> item" where
  "admission_receipt cd s wk c kind b n at_time = dict_of
     ([(''PK'', PStr (fst (case_key cd kind c))), (''SK'', PStr (snd (case_key cd kind c))),
       (''entity_type'', PStr ''teacher_support_admission''), (''schema_version'', PStr ADMISSION_SCHEMA_VERSION),
       (''support_case_id'', PStr c), (''case_kind'', PStr kind),
       (''effect_id'', PStr (domain_digest cd ''stoa.teacher-support.effect.v1'' [kind, c, b])),
       (''beneficiary_id'', PStr b)]
      @ (if cs_parent s = [] then [] else [(''parent_id'', PStr (cs_parent s))])
      @ [(''plan_id'', PStr (plan_text (cs_plan s))), (''plan_version'', PInt (cs_plan_version s)),
         (''allowance_version'', PInt (cs_allowance_version s)), (''grant_id'', PStr (cs_grant_id s)),
         (''support_scope'', PStr (scope_text (cs_scope s))), (''support_scope_id'', PStr (cs_scope_id s)),
         (''week_identity'', PStr (week_identity wk)), (''window_start'', PStr (iso cd (window_start wk))),
         (''window_end'', PStr (iso cd (window_end wk))), (''post_admission_count'', PInt n),
         (''limit'', PInt (cs_limit s)), (''state_version'', PInt 1), (''admitted_at'', PStr (iso cd at_time))])"

definition counter_fields :: "case_scope \<Rightarrow> (string \<times> pyval) list" where
  "counter_fields s =
     [(''support_scope'', PStr (scope_text (cs_scope s))), (''plan_id'', PStr (plan_text (cs_plan s))),
      (''plan_version'', PInt (cs_plan_version s)), (''allowance_version'', PInt (cs_allowance_version s)),
      (''grant_id'', PStr (cs_grant_id s)), (''limit'', PInt (cs_limit s))]"

definition admit_write ::
    "codec \<Rightarrow> runtime \<Rightarrow> case_scope \<Rightarrow> zweek \<Rightarrow> counter option \<Rightarrow> string \<Rightarrow> string \<Rightarrow> string \<Rightarrow> int \<Rightarrow> 'w persist \<Rightarrow> 'w
     \<Rightarrow> admission_result attempt \<times> 'w" where
  "admit_write cd rt s wk counter c kind b at_time persist w =
     (let n = spent_cases counter + 1; receipt = admission_receipt cd s wk c kind b n at_time
      in case write_counter cd CASES (cs_scope_id s) wk counter [(''admitted_cases'', n)] (counter_fields s) at_time of
           Inl e \<Rightarrow> (Raised e, w)
         | Inr counter_put \<Rightarrow>
             (case grant_condition_operations s of
                Inl e \<Rightarrow> (Raised e, w)
              | Inr fences \<Rightarrow>
                  (case persist (fences @ [Put receipt create_only, counter_put]) w of
                     (False, w1) \<Rightarrow> (Lost_Race, w1)
                   | (True, w1) \<Rightarrow>
                       (case admission_from_item rt receipt of
                          None \<Rightarrow> (Raised Dependency_Failure, w1)
                        | Some a \<Rightarrow> (Done (Case_Admitted, Some a), w1)))))"

definition admit_attempt ::
    "codec \<Rightarrow> 'w db \<Rightarrow> runtime \<Rightarrow> 'w link_index \<Rightarrow> zweek \<Rightarrow> string \<Rightarrow> string \<Rightarrow> string \<Rightarrow> int \<Rightarrow> 'w persist \<Rightarrow> 'w
     \<Rightarrow> admission_result attempt \<times> 'w" where
  "admit_attempt cd db rt ix wk c kind b at_time persist w =
     (case resolve_scope cd db rt ix b w of
        (Inl e, w1) \<Rightarrow> (if e = Dependency_Failure then Done (Case_Retryable, None) else Raised e, w1)
      | (Inr None, w1) \<Rightarrow> (Done (Case_Plan_Denied, None), w1)
      | (Inr (Some s), w1) \<Rightarrow>
          (case strong_get db (case_key cd kind c) w1 of
             (Inl e, w2) \<Rightarrow> (Done (Case_Retryable, None), w2)
           | (Inr (Some i), w2) \<Rightarrow> (Done (classify_existing rt i c kind b), w2)
           | (Inr None, w2) \<Rightarrow>
               (case read_case_counter cd db s wk w2 of
                  (Inl e, w3) \<Rightarrow> (Done (Case_Retryable, None), w3)
                | (Inr counter, w3) \<Rightarrow>
                    (if cs_limit s \<le> spent_cases counter then (Done (Case_Limit_Exceeded, None), w3)
                     else admit_write cd rt s wk counter c kind b at_time persist w3))))"

definition case_arguments :: "string \<Rightarrow> string \<Rightarrow> string \<Rightarrow> bool" where
  "case_arguments c kind b \<longleftrightarrow>
     required_text 200 (PStr c) \<noteq> None \<and> required_text 20 (PStr kind) \<noteq> None \<and> required_text 200 (PStr b) \<noteq> None
     \<and> kind \<in> set CASE_KINDS"

definition admit_teacher_support_case ::
    "codec \<Rightarrow> 'w db \<Rightarrow> runtime \<Rightarrow> 'w link_index \<Rightarrow> string \<Rightarrow> string \<Rightarrow> string \<Rightarrow> int \<Rightarrow> 'w persist \<Rightarrow> 'w
     \<Rightarrow> admission_result result \<times> 'w" where
  "admit_teacher_support_case cd db rt ix c kind b at_time persist w =
     (if \<not> case_arguments c kind b then (Inl Value_Error, w)
      else case strong_get db (case_key cd kind c) w of
          (Inl e, w1) \<Rightarrow> (Inr (Case_Retryable, None), w1)
        | (Inr (Some i), w1) \<Rightarrow> (Inr (classify_existing rt i c kind b), w1)
        | (Inr None, w1) \<Rightarrow>
            (case zurich_week (zurich cd) (Aware at_time) of
               Inl e \<Rightarrow> (Inl e, w1)
             | Inr wk \<Rightarrow>
                 retry DEFAULT_ATTEMPTS (admit_attempt cd db rt ix wk c kind b at_time persist) (Case_Retryable, None) w1))"

section \<open>Giving a case back\<close>

datatype refund_disposition =
    Refund_Done | Refund_Already | Refund_Not_Admitted | Refund_Conflict | Refund_Retryable

type_synonym refund_result = "refund_disposition \<times> string option"

abbreviation refund_retryable :: refund_result where
  "refund_retryable \<equiv> (Refund_Retryable, None)"

definition persisted_or_retry :: "'w persist \<Rightarrow> op list \<Rightarrow> refund_result \<Rightarrow> 'w \<Rightarrow> refund_result result \<times> 'w" where
  "persisted_or_retry persist ops r w =
     (case persist ops w of (True, w1) \<Rightarrow> (Inr r, w1) | (False, w1) \<Rightarrow> (Inr refund_retryable, w1))"

definition refunded_receipt :: "codec \<Rightarrow> item \<Rightarrow> int \<Rightarrow> string \<Rightarrow> int \<Rightarrow> item" where
  "refunded_receipt cd i version reason at_time =
     i ++ dict_of [(''refunded_at'', PStr (iso cd at_time)), (''refund_reason'', PStr reason),
       (''state_version'', PInt (version + 1))]"

text \<open>The receipt's own week, and its counter with a case to give back.\<close>

definition refund_week :: "codec \<Rightarrow> case_admission \<Rightarrow> zweek option" where
  "refund_week cd a =
     (case zurich_week (zurich cd) (Aware (ad_start a)) of
        Inl e \<Rightarrow> None
      | Inr wk \<Rightarrow> if week_identity wk \<noteq> ad_week a \<or> window_end wk \<noteq> ad_end a then None else Some wk)"

definition refund_write ::
    "codec \<Rightarrow> item \<Rightarrow> case_admission \<Rightarrow> int \<Rightarrow> zweek \<Rightarrow> counter \<Rightarrow> string \<Rightarrow> int \<Rightarrow> 'w persist \<Rightarrow> 'w
     \<Rightarrow> refund_result result \<times> 'w" where
  "refund_write cd receipt a version wk counter reason at_time persist w =
     (case write_counter cd CASES (ad_scope_id a) wk (Some counter)
         [(''admitted_cases'', count counter ''admitted_cases'' - 1)] [] at_time of
        Inl e \<Rightarrow> (Inl e, w)
      | Inr counter_put \<Rightarrow>
          persisted_or_retry persist
            [Put (refunded_receipt cd receipt version reason at_time)
               (C_And (C_Eq ''state_version'' (PInt version)) (C_Absent ''refunded_at'')), counter_put]
            (Refund_Done, Some (ad_week a)) w)"

definition refund_admitted ::
    "codec \<Rightarrow> 'w db \<Rightarrow> runtime \<Rightarrow> item \<Rightarrow> string \<Rightarrow> int \<Rightarrow> 'w persist \<Rightarrow> 'w \<Rightarrow> refund_result result \<times> 'w" where
  "refund_admitted cd db rt receipt reason at_time persist w =
     (case (admission_from_item rt receipt, positive_integer (item_get receipt ''state_version'')) of
        (Some a, Inr version) \<Rightarrow>
          (case refund_week cd a of
             None \<Rightarrow> (Inr refund_retryable, w)
           | Some wk \<Rightarrow>
               (case read_counter cd db CASES (ad_scope_id a) wk w of
                  (Inr (Some counter), w1) \<Rightarrow>
                    (if count counter ''admitted_cases'' < 1 then (Inr refund_retryable, w1)
                     else refund_write cd receipt a version wk counter reason at_time persist w1)
                | (_, w1) \<Rightarrow> (Inr refund_retryable, w1)))
      | _ \<Rightarrow> (Inr refund_retryable, w))"

definition refund_teacher_support_case ::
    "codec \<Rightarrow> 'w db \<Rightarrow> runtime \<Rightarrow> string \<Rightarrow> string \<Rightarrow> string \<Rightarrow> string \<Rightarrow> int \<Rightarrow> 'w persist \<Rightarrow> 'w
     \<Rightarrow> refund_result result \<times> 'w" where
  "refund_teacher_support_case cd db rt c kind b reason at_time persist w =
     (if \<not> case_arguments c kind b \<or> required_text 40 (PStr reason) = None then (Inl Value_Error, w)
      else case strong_get db (case_key cd kind c) w of
          (Inl e, w1) \<Rightarrow> (Inr refund_retryable, w1)
        | (Inr None, w1) \<Rightarrow>
            persisted_or_retry persist [Check (case_key cd kind c) (C_Absent ''PK'')] (Refund_Not_Admitted, None) w1
        | (Inr (Some i), w1) \<Rightarrow>
            (if item_get i ''beneficiary_id'' \<noteq> PStr b \<or> item_get i ''case_kind'' \<noteq> PStr kind
                \<or> item_get i ''support_case_id'' \<noteq> PStr c
             then (Inr (Refund_Conflict, None), w1)
             else if truthy (item_get i ''refunded_at'')
             then persisted_or_retry persist [Check (case_key cd kind c) (C_Present ''refunded_at'')]
                    (Refund_Already, let wk = str_or rt (item_get i ''week_identity'') [] in if wk = [] then None else Some wk) w1
             else refund_admitted cd db rt i reason at_time persist w1))"

section \<open>What is shown\<close>

record case_projection =
  pj_plan :: plan
  pj_scope :: support_scope
  pj_week :: string
  pj_admitted :: int
  pj_remaining :: int
  pj_limit :: int

definition get_teacher_support_projection ::
    "codec \<Rightarrow> 'w db \<Rightarrow> runtime \<Rightarrow> 'w link_index \<Rightarrow> string \<Rightarrow> int \<Rightarrow> 'w \<Rightarrow> case_projection result \<times> 'w" where
  "get_teacher_support_projection cd db rt ix b at_time w =
     (case resolve_scope cd db rt ix b w of
        (Inl e, w1) \<Rightarrow> (Inl Value_Error, w1)
      | (Inr None, w1) \<Rightarrow> (Inl Value_Error, w1)
      | (Inr (Some s), w1) \<Rightarrow>
          (case zurich_week (zurich cd) (Aware at_time) of
             Inl e \<Rightarrow> (Inl e, w1)
           | Inr wk \<Rightarrow>
               (case read_case_counter cd db s wk w1 of
                  (Inl e, w2) \<Rightarrow> (Inl Value_Error, w2)
                | (Inr counter, w2) \<Rightarrow>
                    (Inr \<lparr>pj_plan = cs_plan s, pj_scope = cs_scope s, pj_week = week_identity wk,
                       pj_admitted = spent_cases counter, pj_remaining = cs_limit s - spent_cases counter,
                       pj_limit = cs_limit s\<rparr>, w2))))"

record case_standing =
  sd_can_request :: bool
  sd_blocked :: "string option"
  sd_remaining :: int
  sd_weekly :: int
  sd_resets :: "string option"

definition get_student_teacher_support_standing ::
    "codec \<Rightarrow> 'w db \<Rightarrow> runtime \<Rightarrow> 'w link_index \<Rightarrow> string \<Rightarrow> int \<Rightarrow> 'w \<Rightarrow> case_standing result \<times> 'w" where
  "get_student_teacher_support_standing cd db rt ix b at_time w =
     (case zurich_week (zurich cd) (Aware at_time) of
        Inl e \<Rightarrow> (Inl e, w)
      | Inr wk \<Rightarrow>
          (case resolve_scope cd db rt ix b w of
             (Inl e, w1) \<Rightarrow> (Inl Value_Error, w1)
           | (Inr None, w1) \<Rightarrow>
               (Inr \<lparr>sd_can_request = False, sd_blocked = Some ''teacher_support_not_included'', sd_remaining = 0,
                  sd_weekly = 0, sd_resets = None\<rparr>, w1)
           | (Inr (Some s), w1) \<Rightarrow>
               (case read_case_counter cd db s wk w1 of
                  (Inl e, w2) \<Rightarrow> (Inl Value_Error, w2)
                | (Inr counter, w2) \<Rightarrow>
                    (let remaining = max (cs_limit s - spent_cases counter) 0
                     in (Inr \<lparr>sd_can_request = (0 < remaining),
                          sd_blocked = (if remaining = 0 then Some ''teacher_support_allowance_exhausted'' else None),
                          sd_remaining = remaining, sd_weekly = cs_limit s,
                          sd_resets = Some (iso cd (window_end wk))\<rparr>, w2)))))"

end
