(* ===== verification/Help_Calls.thy ===== *)
theory Help_Calls
  imports Help_Request Support_Cases
begin

text \<open>
  The calls of the help-request module that read the request themselves: reading one or all of them,
  asking for a teacher, ending a request nobody took with its case given back, and the sweep over the
  waiting ones.

  The clock is an argument of the environment: \<open>now\<close> is the call's stamp, as text. The telemetry and the
  notices that follow a write are left out.
\<close>

section \<open>Reading\<close>

definition get_request :: "'w db \<Rightarrow> string \<Rightarrow> 'w \<Rightarrow> item option helped \<times> 'w" where
  "get_request db c w =
     (if c = [] then (Inr None, w)
      else case db_get db (help_key c) w of
          (Resp_Failed, w1) \<Rightarrow> (Inl Help_Unavailable, w1)
        | (Resp_Item i, w1) \<Rightarrow> (Inr (if is_record i then Some i else None), w1)
        | (_, w1) \<Rightarrow> (Inr None, w1))"

text \<open>\<open>list_all\<close>: every page of a filtered scan, at most a thousand, each after the last.\<close>

type_synonym ('k, 'w) page_scan = "'k option \<Rightarrow> 'w \<Rightarrow> (item list \<times> 'k option) result \<times> 'w"

definition SCAN_PAGE_LIMIT :: nat where
  "SCAN_PAGE_LIMIT = 1000"

fun list_pages :: "('k, 'w) page_scan \<Rightarrow> nat \<Rightarrow> 'k option \<Rightarrow> item list \<Rightarrow> 'w \<Rightarrow> item list helped \<times> 'w" where
  "list_pages scan 0 cursor items w = (Inl Help_Unavailable, w)"
| "list_pages scan (Suc n) cursor items w =
     (case scan cursor w of
        (Inl e, w1) \<Rightarrow> (Inl (Help_Raises e), w1)
      | (Inr (page, following), w1) \<Rightarrow>
          (let items' = items @ filter is_record page
           in if following = None then (Inr items', w1)
              else if following = cursor then (Inl Help_Unavailable, w1)
              else list_pages scan n following items' w1))"

definition list_all_requests :: "('k, 'w) page_scan \<Rightarrow> 'w \<Rightarrow> item list helped \<times> 'w" where
  "list_all_requests scan w = list_pages scan SCAN_PAGE_LIMIT None [] w"

definition list_open :: "runtime \<Rightarrow> ('k, 'w) page_scan \<Rightarrow> 'w \<Rightarrow> item list helped \<times> 'w" where
  "list_open rt scan w =
     (case list_all_requests scan w of
        (Inl e, w1) \<Rightarrow> (Inl e, w1)
      | (Inr records, w1) \<Rightarrow> (Inr (filter (\<lambda>i. stored_status rt i = PENDING) records), w1))"

text \<open>\<open>for_student\<close>: the student's requests by conversation, the later row of one id winning.\<close>

fun student_pages ::
    "runtime \<Rightarrow> ('k, 'w) page_scan \<Rightarrow> string \<Rightarrow> nat \<Rightarrow> 'k option \<Rightarrow> (string \<rightharpoonup> item) \<Rightarrow> 'w \<Rightarrow> (string \<rightharpoonup> item) helped \<times> 'w" where
  "student_pages rt query s 0 cursor found w = (Inl Help_Unavailable, w)"
| "student_pages rt query s (Suc n) cursor found w =
     (case query cursor w of
        (Inl e, w1) \<Rightarrow> (Inl (Help_Raises e), w1)
      | (Inr (page, following), w1) \<Rightarrow>
          (let kept = filter (\<lambda>i. is_record i \<and> item_get i ''student_id'' = PStr s) page;
               found' = foldl (\<lambda>m i. m(py_str rt (item_get i ''conversation_id'') \<mapsto> i)) found kept
           in if following = None then (Inr found', w1) else student_pages rt query s n following found' w1))"

definition for_student ::
    "runtime \<Rightarrow> ('k, 'w) page_scan \<Rightarrow> string \<Rightarrow> 'w \<Rightarrow> (string \<rightharpoonup> item) helped \<times> 'w" where
  "for_student rt query s w =
     (if s = [] then (Inr Map.empty, w) else student_pages rt query s SCAN_PAGE_LIMIT None Map.empty w)"

definition overlay :: "item \<Rightarrow> (string \<times> pyval) list" where
  "overlay i = (''escalated'', PBool True)
     # map (\<lambda>f. (f, item_get i f)) [''escalated_at'', ''escalation_status'', ''escalation_message'', ''escalation_request_id'']"

definition with_requests ::
    "runtime \<Rightarrow> ('k, 'w) page_scan \<Rightarrow> item list \<Rightarrow> string \<Rightarrow> 'w \<Rightarrow> item list \<times> 'w" where
  "with_requests rt query conversations s w =
     (case for_student rt query s w of
        (r, w1) \<Rightarrow>
          (let requests = (case r of Inl e \<Rightarrow> Map.empty | Inr m \<Rightarrow> m)
           in (map (\<lambda>row. if item_get row ''entity_type'' = PStr ''conversation''
                  then (case requests (str_or rt (item_get row ''conversation_id'') []) of
                          Some i \<Rightarrow> row ++ dict_of (overlay i)
                        | None \<Rightarrow> row)
                  else row) conversations, w1)))"

section \<open>Asking\<close>

record ask_outcome =
  ak_disposition :: "admission_disposition option"
  ak_record :: "item option"
  ak_created :: bool

definition observed_at :: "help_env \<Rightarrow> string \<Rightarrow> int" where
  "observed_at he now = (case parse_timestamp (he_rt he) (PStr now) of Some t \<Rightarrow> t | None \<Rightarrow> he_clock he)"

text \<open>After the case is admitted: the first offer, best effort.\<close>

definition first_offer ::
    "'w db \<Rightarrow> help_env \<Rightarrow> ('w \<Rightarrow> item list result \<times> 'w) \<Rightarrow> item \<Rightarrow> string \<Rightarrow> string \<Rightarrow> 'w \<Rightarrow> item \<times> 'w" where
  "first_offer db he profiles record oid now w =
     (case dispatch db he profiles record oid now w of
        (Inl e, w1) \<Rightarrow> (record, w1)
      | (Inr offered, w1) \<Rightarrow> (offered, w1))"

definition ask_admitted ::
    "'w db \<Rightarrow> help_env \<Rightarrow> ('w \<Rightarrow> item list result \<times> 'w) \<Rightarrow> string \<Rightarrow> item \<Rightarrow> string \<Rightarrow> string \<Rightarrow> admission_disposition \<Rightarrow> 'w
     \<Rightarrow> ask_outcome helped \<times> 'w" where
  "ask_admitted db he profiles c record oid now d w =
     (if d = Case_Replayed then
        (case get_request db c w of
           (Inl e, w1) \<Rightarrow> (Inl e, w1)
         | (Inr None, w1) \<Rightarrow> (Inl Help_Unavailable, w1)
         | (Inr (Some i), w1) \<Rightarrow> (Inr \<lparr>ak_disposition = Some d, ak_record = Some i, ak_created = False\<rparr>, w1))
      else if d \<noteq> Case_Admitted then (Inr \<lparr>ak_disposition = Some d, ak_record = None, ak_created = False\<rparr>, w)
      else case first_offer db he profiles record oid now w of
          (offered, w1) \<Rightarrow> (Inr \<lparr>ak_disposition = Some d, ak_record = Some offered, ak_created = True\<rparr>, w1))"

definition ask ::
    "codec \<Rightarrow> 'w db \<Rightarrow> help_env \<Rightarrow> 'w link_index \<Rightarrow> ('w \<Rightarrow> item list result \<times> 'w) \<Rightarrow> item \<Rightarrow> string \<Rightarrow> string option
     \<Rightarrow> string \<Rightarrow> string \<Rightarrow> string \<Rightarrow> 'w \<Rightarrow> ask_outcome helped \<times> 'w" where
  "ask cd db he ix profiles conversation student message system_message oid now w =
     (let rt = he_rt he; c = str_or rt (item_get conversation ''conversation_id'') []
      in if c = [] \<or> item_get conversation ''student_id'' \<noteq> PStr student then (Inl Help_Conflict, w)
         else case get_request db c w of
             (Inl e, w1) \<Rightarrow> (Inl e, w1)
           | (Inr (Some i), w1) \<Rightarrow> (Inr \<lparr>ak_disposition = None, ak_record = Some i, ak_created = False\<rparr>, w1)
           | (Inr None, w1) \<Rightarrow>
               (case require_active_account_fence db student None w1 of
                  (Inl e, w2) \<Rightarrow> (Inl (Help_Raises e), w2)
                | (Inr fence, w2) \<Rightarrow>
                    (case opening_rows rt conversation c student (fence_generation fence) message system_message now of
                       Inl e \<Rightarrow> (Inl e, w2)
                     | Inr base \<Rightarrow>
                         (case admit_teacher_support_case cd db rt ix c ''conversation'' student (observed_at he now)
                             (persist_rows db base) w2 of
                            (Inl e, w3) \<Rightarrow> (Inl (Help_Raises e), w3)
                          | (Inr (d, a), w3) \<Rightarrow>
                              ask_admitted db he profiles c (opening_record rt conversation c student (fence_generation fence) message now)
                                oid now d w3))))"

section \<open>Ending a request nobody took\<close>

record ended_request =
  en_record :: item
  en_changed :: bool
  en_refund :: "refund_disposition option"
  en_week :: "string option"

definition end_refunded ::
    "'w db \<Rightarrow> string \<Rightarrow> string \<Rightarrow> item \<Rightarrow> refund_result \<Rightarrow> 'w \<Rightarrow> ended_request helped attempt \<times> 'w" where
  "end_refunded db c outcome record r w =
     (case r of (d, wk) \<Rightarrow>
        if d \<in> {Refund_Done, Refund_Already, Refund_Not_Admitted} then
          (case get_request db c w of
             (g, w1) \<Rightarrow>
               (let written = (case g of Inr (Some i) \<Rightarrow> i | _ \<Rightarrow> record(''escalation_status'' \<mapsto> PStr outcome))
                in (Done (Inr \<lparr>en_record = written, en_changed = True, en_refund = Some d, en_week = wk\<rparr>), w1)))
        else if d = Refund_Conflict then (Done (Inl (Help_Refused Not_Withdrawable)), w)
        else (Lost_Race, w))"

definition end_attempt ::
    "codec \<Rightarrow> 'w db \<Rightarrow> help_env \<Rightarrow> string \<Rightarrow> string \<Rightarrow> string option \<Rightarrow> string option \<Rightarrow> string \<Rightarrow> 'w
     \<Rightarrow> ended_request helped attempt \<times> 'w" where
  "end_attempt cd db he c outcome student asked_before now w =
     (case get_request db c w of
        (Inl e, w1) \<Rightarrow> (Done (Inl Help_Ending_Unavailable), w1)
      | (Inr found, w1) \<Rightarrow>
          (case ending_decision (he_rt he) found outcome student asked_before now of
             Refused_Ending r \<Rightarrow> (Done (Inl (Help_Refused r)), w1)
           | Ended_Already \<Rightarrow> (Done (Inr \<lparr>en_record = the found, en_changed = False, en_refund = None, en_week = None\<rparr>), w1)
           | Raises_Ending e \<Rightarrow> (Raised e, w1)
           | Ending_Rows base \<Rightarrow>
               (case refund_teacher_support_case cd db (he_rt he) c ''conversation''
                   (str_or (he_rt he) (item_get (the found) ''student_id'') []) outcome (observed_at he now)
                   (persist_rows db base) w1 of
                  (Inl e, w2) \<Rightarrow> (Raised e, w2)
                | (Inr r, w2) \<Rightarrow> end_refunded db c outcome (the found) r w2)))"

definition end_request ::
    "codec \<Rightarrow> 'w db \<Rightarrow> help_env \<Rightarrow> string \<Rightarrow> string \<Rightarrow> string option \<Rightarrow> string option \<Rightarrow> string \<Rightarrow> 'w
     \<Rightarrow> ended_request helped \<times> 'w" where
  "end_request cd db he c outcome student asked_before now w =
     (case retry DEFAULT_ATTEMPTS (end_attempt cd db he c outcome student asked_before now) (Inl Help_Ending_Unavailable) w of
        (Inl e, w1) \<Rightarrow> (Inl (Help_Raises e), w1)
      | (Inr r, w1) \<Rightarrow> (r, w1))"

definition withdraw :: "codec \<Rightarrow> 'w db \<Rightarrow> help_env \<Rightarrow> string \<Rightarrow> string \<Rightarrow> string \<Rightarrow> 'w \<Rightarrow> item helped \<times> 'w" where
  "withdraw cd db he c student now w =
     (case end_request cd db he c WITHDRAWN (Some student) None now w of (r, w1) \<Rightarrow> (map_sum id en_record r, w1))"

definition expire :: "codec \<Rightarrow> 'w db \<Rightarrow> help_env \<Rightarrow> string \<Rightarrow> string \<Rightarrow> string \<Rightarrow> 'w \<Rightarrow> item option helped \<times> 'w" where
  "expire cd db he c asked_before now w =
     (case end_request cd db he c EXPIRED None (Some asked_before) now w of
        (Inl (Help_Refused r), w1) \<Rightarrow> (Inr None, w1)
      | (Inl e, w1) \<Rightarrow> (Inl e, w1)
      | (Inr en, w1) \<Rightarrow> (Inr (if en_changed en then Some (en_record en) else None), w1))"

section \<open>The sweep\<close>

definition due_to_expire :: "runtime \<Rightarrow> item \<Rightarrow> string \<Rightarrow> bool" where
  "due_to_expire rt i cutoff =
     (if truthy (item_get i ''teacher_id'') then False
      else case parse_timestamp rt (item_get i ''escalated_at'') of
          None \<Rightarrow> True
        | Some asked \<Rightarrow> (case parse_timestamp rt (PStr cutoff) of None \<Rightarrow> False | Some cap \<Rightarrow> asked \<le> cap))"

record sweep_report =
  sw_waiting :: nat
  sw_lapsed :: nat
  sw_offered :: "(string \<times> string) list"
  sw_expired :: "string list"
  sw_completed :: bool

definition sweep_expiry ::
    "codec \<Rightarrow> 'w db \<Rightarrow> help_env \<Rightarrow> string \<Rightarrow> string \<Rightarrow> item \<Rightarrow> 'w \<Rightarrow> bool \<times> 'w" where
  "sweep_expiry cd db he cutoff now record w =
     (if \<not> due_to_expire (he_rt he) record cutoff then (False, w)
      else case expire cd db he (str_or (he_rt he) (item_get record ''conversation_id'') []) cutoff now w of
          (Inr (Some i), w1) \<Rightarrow> (True, w1)
        | (_, w1) \<Rightarrow> (False, w1))"

fun sweep_records ::
    "codec \<Rightarrow> 'w db \<Rightarrow> help_env \<Rightarrow> ('w \<Rightarrow> item list result \<times> 'w) \<Rightarrow> (string \<Rightarrow> string) \<Rightarrow> string \<Rightarrow> string \<Rightarrow> item list
     \<Rightarrow> sweep_report \<Rightarrow> 'w \<Rightarrow> sweep_report \<times> 'w" where
  "sweep_records cd db he profiles oid cutoff now [] rep w = (rep, w)"
| "sweep_records cd db he profiles oid cutoff now (record # records) rep w =
     (let rt = he_rt he; c = str_or rt (item_get record ''conversation_id'') []
      in case sweep_expiry cd db he cutoff now record w of
           (True, w1) \<Rightarrow> sweep_records cd db he profiles oid cutoff now records (rep\<lparr>sw_expired := sw_expired rep @ [c]\<rparr>) w1
         | (False, w1) \<Rightarrow>
             (if truthy (item_get record ''teacher_id'') \<or> live_offer rt record now
              then sweep_records cd db he profiles oid cutoff now records rep w1
              else let rep1 = rep\<lparr>sw_waiting := sw_waiting rep + 1,
                         sw_lapsed := sw_lapsed rep + (if item_get record ''dispatch_status'' = PStr ''dispatched'' then 1 else 0)\<rparr>
                   in case dispatch db he profiles record (oid c) now w1 of
                        (Inl e, w2) \<Rightarrow> (rep1\<lparr>sw_completed := False\<rparr>, w2)
                      | (Inr written, w2) \<Rightarrow>
                          (let word = str_or rt (item_get written ''dispatch_status'') [];
                               moved = (word \<in> {''dispatched'', ''no_candidate''}
                                 \<and> \<not> py_eq (item_get written ''version'') (item_get record ''version''))
                           in sweep_records cd db he profiles oid cutoff now records
                                (if moved then rep1\<lparr>sw_offered := sw_offered rep1 @ [(c, word)]\<rparr> else rep1) w2)))"

definition sweep ::
    "codec \<Rightarrow> 'w db \<Rightarrow> help_env \<Rightarrow> ('k, 'w) page_scan \<Rightarrow> ('w \<Rightarrow> item list result \<times> 'w) \<Rightarrow> (string \<Rightarrow> string) \<Rightarrow> string \<Rightarrow> 'w
     \<Rightarrow> sweep_report \<times> 'w" where
  "sweep cd db he scan profiles oid now w =
     (let rep = \<lparr>sw_waiting = 0, sw_lapsed = 0, sw_offered = [], sw_expired = [], sw_completed = True\<rparr>;
          cutoff = he_iso he (observed_at he now - he_expiry he * 1000000)
      in case list_open (he_rt he) scan w of
           (Inl e, w1) \<Rightarrow> (rep\<lparr>sw_completed := False\<rparr>, w1)
         | (Inr records, w1) \<Rightarrow> sweep_records cd db he profiles oid cutoff now records rep w1)"

end
