(* ===== verification/Help_Runs.thy ===== *)
theory Help_Runs
  imports Help_Client Help_Calls
begin

text \<open>
  The calls of the help-request module as clients of a shared table: each of them, with its reads and
  its transactions, is a run of the requests' life. The interface it relies on is \<open>help_client\<close>: a
  store whose other clients also move requests only through their life.
\<close>

definition sound_table :: "table \<Rightarrow> bool" where
  "sound_table t \<longleftrightarrow> help_ok t \<and> keyed t"

lemma sound_run: "help_run t t' \<Longrightarrow> sound_table t \<Longrightarrow> sound_table t'"
  by (auto simp: sound_table_def dest: help_run_ok help_run_keyed)

section \<open>Operations that are still\<close>

lemma fence_quiet: "active_fence_condition u g = Inr oper \<Longrightarrow> still oper"
  by (auto elim: active_fence_shape)

lemma assignment_quiet: "teacher_assignment_conditions u role g v = Inr ops \<Longrightarrow> x \<in> set ops \<Longrightarrow> still x"
  by (auto simp: teacher_assignment_conditions_def profile_condition_def split: sum.splits dest: fence_quiet)

lemma put_quiet: "item_key i = Some k \<Longrightarrow> snd k \<noteq> ''HELP'' \<Longrightarrow> still (Put i c)"
  by (auto simp: still_def help_key_def)

lemma message_quiet: "append_message c r m s g content created args = Inr oper \<Longrightarrow> still oper"
proof -
  assume call: "append_message c r m s g content created args = Inr oper"
  then obtain row where oper: "oper = Put row create_only" by (rule append_message_Inr)
  from call obtain m' where "op_key oper = Some (conv_pk c, msg_sk m')" by (rule append_message_key)
  with oper show "still oper" by (auto intro!: put_quiet simp: msg_sk_def)
qed

lemma deletion_fence_quiet: "deletion_fence_condition u g = Inr oper \<Longrightarrow> still oper"
  by (auto simp: deletion_fence_condition_def split: sum.splits)

section \<open>The changes are plain\<close>

lemmas plain_defs = plain_changes_def OFFER_FIELDS_def NO_CANDIDATE_FIELDS_def

lemma changes_plain [simp]:
  "plain_changes (offer_changes record u oid deadline previous now) NO_CANDIDATE_FIELDS"
  "plain_changes (no_candidate_changes record reason previous now) OFFER_FIELDS"
  "plain_changes (touch_changes record now) []"
  "plain_changes (scrub_changes rt record u now) (scrub_removes record u)"
  by (simp_all add: plain_defs offer_changes_def no_candidate_changes_def touch_changes_def scrub_changes_def scrub_removes_def)

lemma target_plain [simp]: "plain_changes (target_changes record u target now accepting replying note) []"
  by (cases accepting; cases "target = RESOLVED"; cases "replying \<and> \<not> truthy (item_get record ''first_teacher_action_at'')")
    (auto simp: plain_defs target_changes_def split: option.split list.split)

lemma ending_plain:
  "outcome \<in> {WITHDRAWN, EXPIRED} \<Longrightarrow> plain_changes (ending_changes outcome now) (OFFER_FIELDS @ NO_CANDIDATE_FIELDS)"
  by (auto simp: plain_defs ending_changes_def help_words)

lemma refusal_NoneD:
  assumes "refusal_reason rt subject previous t = None"
  shows "dt_id t \<noteq> []" and "dt_id t \<notin> set previous" and "standing_refusal t = None"
  using assms by (auto simp: refusal_reason_def standing_refusal_def split: option.splits if_splits)

lemma selected_teacher:
  assumes "selected (plan_dispatch rt subject previous now profiles) = c # cs"
  shows "dt_id (cand_teacher c) \<noteq> []" and "dt_id (cand_teacher c) \<notin> set previous"
proof -
  from assms have "c \<in> set (selected (plan_dispatch rt subject previous now profiles))" by simp
  then obtain t where "cand_teacher c = t" "refusal_reason rt subject previous t = None"
    by (auto simp: plan_selected Let_def candidate_payload_def)
  with refusal_NoneD show "dt_id (cand_teacher c) \<noteq> []" "dt_id (cand_teacher c) \<notin> set previous" by auto
qed

section \<open>The writes\<close>

locale help_client = store db rows env
  for db :: "'w db" and rows :: "'w \<Rightarrow> table" and env :: "table \<Rightarrow> table \<Rightarrow> bool" +
  assumes env_run: "env t t' \<Longrightarrow> help_run t t'"

context help_client
begin

lemma tx_help_run:
  assumes step: "\<And>t t'. help_run (rows w) t \<Longrightarrow> tx_apply ops t = Some t' \<Longrightarrow> help_run t t'"
    and call: "db_tx db ops w = (b, w')"
  shows "help_run (rows w) (rows w')"
  using call
proof (rule tx_run [where run = help_run, rotated -1])
  show "help_run t t'" if "env t t'" for t t' using that by (rule env_run)
  show "help_run a c" if "help_run a b" "help_run b c" for a b c using that by (rule help_run_trans)
  show "help_run t t'" if "env (rows w) t" "tx_apply ops t = Some t'" for t t'
    using that(2) by (rule step [OF env_run [OF that(1)]])
qed

lemma help_transact_run:
  assumes step: "\<And>t t'. help_run (rows w) t \<Longrightarrow> tx_apply ops t = Some t' \<Longrightarrow> help_run t t'"
    and call: "help_transact db ops written w = (r, w')"
  shows "help_run (rows w) (rows w')"
proof -
  from call obtain b where "db_tx db ops w = (b, w')"
    by (auto simp: help_transact_def split: prod.splits bool.splits)
  with step show ?thesis by (rule tx_help_run)
qed

lemma help_write_run:
  assumes sound: "sound_table (rows w)" and calm: "\<And>x. x \<in> set extra \<Longrightarrow> still x" and plain: "plain_changes changes remove"
    and next_state: "\<And>t i r. help_run (rows w) t \<Longrightarrow> t (request_key rt record) = Some i \<Longrightarrow> request_in i = Some r \<Longrightarrow>
       rq_version r = read_version record \<Longrightarrow> cond_holds condition i \<Longrightarrow>
       \<exists>r'. request_in (changed_row (read_version record) changes remove i) = Some r' \<and> lifecycle r r'"
    and call: "help_write db rt record changes remove condition extra fenced w = (r, w')"
  shows "help_run (rows w) (rows w')"
proof -
  let ?op = "update_operation rt record changes remove condition"
  have step: "help_run t t'" if "help_run (rows w) t" "tx_apply (pre @ ?op # extra) t = Some t'" "\<And>x. x \<in> set pre \<Longrightarrow> still x"
    for t t' pre
  proof (rule update_tx [OF that(2)])
    show "help_ok t" using sound_run [OF that(1) sound] by (simp add: sound_table_def)
  qed (use calm that plain next_state in auto)
  show ?thesis
  proof (cases fenced)
    case False
    with call have "help_transact db ([] @ ?op # extra) (written_record record changes remove) w = (r, w')"
      by (simp add: help_write_def)
    then show ?thesis by (rule help_transact_run [rotated]) (rule step [of _ "[]"], simp_all)
  next
    case True
    with call consider "w' = w" | fence where "still fence"
      "help_transact db ([fence] @ ?op # extra) (written_record record changes remove) w = (r, w')"
      by (auto simp: help_write_def Let_def split: sum.splits dest: fence_quiet)
    then show ?thesis
    proof cases
      case 2
      show ?thesis by (rule help_transact_run [OF _ 2(2)]) (rule step [of _ "[fence]"], use 2(1) in simp_all)
    qed simp
  qed
qed

lemma record_no_candidate_run:
  assumes "sound_table (rows w)" "read_then rt record (rows w)"
    and call: "record_no_candidate db rt record reason (previous_teachers rt record stamp_text) now w = (r, w')"
  shows "help_run (rows w) (rows w')"
proof -
  let ?previous = "previous_teachers rt record stamp_text"
  from call consider "w' = w" | x where "help_write db rt record (no_candidate_changes record reason ?previous now) OFFER_FIELDS
      still_pending [] False w = (x, w')"
    by (auto simp: record_no_candidate_def split: if_splits prod.splits sum.splits help_failure.splits)
  then show ?thesis
  proof cases
    case 2
    show ?thesis
    proof (rule help_write_run [OF assms(1) _ _ _ 2])
      fix t i q
      assume t: "help_run (rows w) t" "t (request_key rt record) = Some i" "request_in i = Some q"
        "rq_version q = read_version record" and p: "cond_holds still_pending i"
      from previous_keeps [OF seen_row [OF assms(2) t] t(3)]
      show "\<exists>r'. request_in (changed_row (read_version record) (no_candidate_changes record reason ?previous now) OFFER_FIELDS i) = Some r'
          \<and> lifecycle q r'" by (rule no_candidate_next [OF t(3,4) p])
    qed simp_all
  qed simp
qed

lemma make_offer_run:
  assumes "sound_table (rows w)" "read_then (he_rt he) record (rows w)"
    and u: "dt_id tch \<noteq> []" "dt_id tch \<notin> set (previous_teachers (he_rt he) record now)"
    and call: "make_offer db he record tch oid (previous_teachers (he_rt he) record now) now w = (r, w')"
  shows "help_run (rows w) (rows w')"
proof -
  let ?previous = "previous_teachers (he_rt he) record now"
  let ?changes = "offer_changes record (dt_id tch) oid (deadline_of he now) ?previous now"
  from call consider "w' = w" | extra x where "\<And>y. y \<in> set extra \<Longrightarrow> still y"
      "help_write db (he_rt he) record ?changes NO_CANDIDATE_FIELDS still_pending extra False w = (x, w')"
    by (auto simp: make_offer_def split: prod.splits sum.splits help_failure.splits dest: assignment_quiet)
  then show ?thesis
  proof cases
    case 2
    show ?thesis
    proof (rule help_write_run [OF assms(1) 2(1) _ _ 2(2)])
      fix t i q
      assume t: "help_run (rows w) t" "t (request_key (he_rt he) record) = Some i" "request_in i = Some q"
        "rq_version q = read_version record" and p: "cond_holds still_pending i"
      from previous_keeps [OF seen_row [OF assms(2) t] t(3)]
      show "\<exists>r'. request_in (changed_row (read_version record) ?changes NO_CANDIDATE_FIELDS i) = Some r' \<and> lifecycle q r'"
        using offer_next [OF t(3,4) p u] by blast
    qed simp_all
  qed simp
qed

lemma dispatch_run:
  assumes sound: "sound_table (rows w)" and read_then: "read_then (he_rt he) record (rows w)"
    and reads: "reading profiles rows env"
    and call: "dispatch db he profiles record oid now w = (r, w')"
  shows "help_run (rows w) (rows w')"
proof -
  let ?previous = "previous_teachers (he_rt he) record now"
  from call consider "w' = w" | x where "profiles w = (x, w')"
    | x w1 reason where "profiles w = (x, w1)" "record_no_candidate db (he_rt he) record reason ?previous now w1 = (r, w')"
    | x w1 ps c cs where "profiles w = (x, w1)"
        "selected (plan_dispatch (he_rt he) (item_get record ''subject'') ?previous now ps) = c # cs"
        "make_offer db he record (cand_teacher c) oid ?previous now w1 = (r, w')"
    by (auto simp: dispatch_def Let_def split: if_splits prod.splits sum.splits list.splits)
  then show ?thesis
  proof cases
    case 2
    show ?thesis by (rule env_run [OF readingD [OF reads 2]])
  next
    case 3
    have p: "help_run (rows w) (rows w1)" by (rule env_run [OF readingD [OF reads 3(1)]])
    from record_no_candidate_run [OF sound_run [OF p sound] seen_run [OF read_then p] 3(2)] p
    show ?thesis by (blast intro: help_run_trans)
  next
    case 4
    have p: "help_run (rows w) (rows w1)" by (rule env_run [OF readingD [OF reads 4(1)]])
    from make_offer_run [OF sound_run [OF p sound] seen_run [OF read_then p] selected_teacher [OF 4(2)] 4(3)] p
    show ?thesis by (blast intro: help_run_trans)
  qed simp
qed

lemma scrub_run:
  assumes sound: "sound_table (rows w)" and read_then: "read_then rt record (rows w)"
    and call: "scrub_teacher db rt record u g now w = (r, w')"
  shows "help_run (rows w) (rows w')"
proof -
  from call consider "w' = w" | fence where "still fence"
      "help_write db rt record (scrub_changes rt record u now) (scrub_removes record u) C_True [fence] False w = (r, w')"
    by (auto simp: scrub_teacher_def split: sum.splits dest: deletion_fence_quiet)
  then show ?thesis
  proof cases
    case 2
    show ?thesis
    proof (rule help_write_run [OF sound _ _ _ 2(2)])
      fix t i q
      assume t: "help_run (rows w) t" "t (request_key rt record) = Some i" "request_in i = Some q"
        "rq_version q = read_version record"
      show "\<exists>r'. request_in (changed_row (read_version record) (scrub_changes rt record u now) (scrub_removes record u) i) = Some r'
          \<and> lifecycle q r'" by (rule scrub_next [OF t(3,4) seen_row [OF read_then t]])
    qed (use 2(1) in simp_all)
  qed simp
qed

lemma standing_env:
  assumes call: "teacher_standing_conditions db rt u w = (r, w')"
  shows "env (rows w) (rows w')" and "\<And>ops x. r = Inr ops \<Longrightarrow> x \<in> set ops \<Longrightarrow> still x"
proof -
  from call consider x where "db_get db (''USER#'' @ u, ''PROFILE'') w = (x, w')"
    | x w1 f where "db_get db (''USER#'' @ u, ''PROFILE'') w = (x, w1)" "require_active_account_fence db u None w1 = (f, w')"
    by (auto simp: teacher_standing_conditions_def split: prod.splits response.splits sum.splits if_splits)
  then show "env (rows w) (rows w')"
  proof cases
    case 1
    then show ?thesis by (rule get_env)
  next
    case 2
    show ?thesis by (rule env_trans [OF get_env [OF 2(1)] require_active_account_fence_env [OF 2(2)]])
  qed
  show "still x" if "r = Inr ops" "x \<in> set ops" for ops x
    using call that
    by (auto simp: teacher_standing_conditions_def dest: assignment_quiet
        split: prod.splits response.splits sum.splits if_splits)
qed

lemma advance_run:
  assumes sound: "sound_table (rows w)" and calm: "\<And>x. x \<in> set reply_ops \<Longrightarrow> still x"
    and call: "advance db rt record u target note reply_ops now w = (r, w')"
  shows "help_run (rows w) (rows w')"
proof -
  let ?acc = "holder_of rt record = []"
  let ?changes = "target_changes record u target now ?acc (reply_ops \<noteq> []) note"
  let ?cnd = "if ?acc then accept_condition u (str_or rt (item_get record ''dispatch_id'') []) now else holder_condition u"
  from call consider "w' = w" | e where "teacher_standing_conditions db rt u w = (Inl e, w')"
    | standing w1 where "target \<in> {IN_PROGRESS, RESOLVED}" "teacher_standing_conditions db rt u w = (Inr standing, w1)"
        "help_write db rt record ?changes [] ?cnd (standing @ reply_ops) True w1 = (r, w')"
    by (auto simp: advance_def Let_def split: if_splits prod.splits sum.splits)
  then show ?thesis
  proof cases
    case 2
    show ?thesis by (rule env_run [OF standing_env(1) [OF 2]])
  next
    case 3
    have p: "help_run (rows w) (rows w1)" by (rule env_run [OF standing_env(1) [OF 3(2)]])
    have "help_run (rows w1) (rows w')"
    proof (rule help_write_run [OF sound_run [OF p sound] _ _ _ 3(3)])
      show "still x" if "x \<in> set (standing @ reply_ops)" for x
        using that calm standing_env(2) [OF 3(2)] by auto
      show "\<exists>r'. request_in (changed_row (read_version record) ?changes [] i) = Some r' \<and> lifecycle q r'"
        if "request_in i = Some q" "rq_version q = read_version record" "cond_holds ?cnd i" for i q
      proof (cases ?acc)
        case True
        with that(3) have "cond_holds (accept_condition u (str_or rt (item_get record ''dispatch_id'') []) now) i" by simp
        from take_next [OF that(1,2) this 3(1)] True show ?thesis by auto
      next
        case False
        with that(3) have "cond_holds (holder_condition u) i" by simp
        from move_next [OF that(1,2) this 3(1)] False show ?thesis by simp
      qed
    qed simp
    with p show ?thesis by (rule help_run_trans)
  qed simp
qed

lemma reply_operations_quiet:
  assumes "reply_operations c s g note m u rp images now = Inr ops" "\<And>x. x \<in> set (case images of None \<Rightarrow> [] | Some (xs, _) \<Rightarrow> xs) \<Longrightarrow> still x"
    and "x \<in> set ops"
  shows "still x"
proof -
  let ?stamped = "reply_row c note u rp now (map_option snd images) ++ dict_of [(''owner_id'', PStr s), (''student_id'', PStr s), (''account_fence_generation'', PInt g)]"
  have key: "item_key ?stamped = Some (conv_pk c, ''NOTE#'' @ note)"
    by (simp add: item_key_def row_lookup reply_row_def)
  from assms(1) obtain message pair where m: "append_message c ''teacher'' m s g (rp_content rp) now pair = Inr message"
      and ops: "ops = Put ?stamped create_only # message # (case images of None \<Rightarrow> [] | Some (xs, _) \<Rightarrow> xs)"
    by (auto simp: reply_operations_def Let_def build_conversation_write_def split: sum.splits if_splits)
  from assms(3) ops assms(2) message_quiet [OF m] put_quiet [OF key] show ?thesis by auto
qed

lemma reply_run:
  assumes sound: "sound_table (rows w)" and calm: "\<And>x. x \<in> set (case images of None \<Rightarrow> [] | Some (xs, _) \<Rightarrow> xs) \<Longrightarrow> still x"
    and call: "reply db rt record u rp images note m now w = (r, w')"
  shows "help_run (rows w) (rows w')"
proof -
  let ?s = "text_of (item_get record ''student_id'') []"
  from call consider "w' = w" | f where "require_active_account_fence db ?s None w = (f, w')"
    | f w1 c g ops where "require_active_account_fence db ?s None w = (f, w1)"
        "reply_operations c ?s g note m u rp images now = Inr ops"
        "help_write db rt record (touch_changes record now) [] (C_Eq ''teacher_id'' (PStr u)) ops True w1 = (r, w')"
    | f w1 c g ops where "require_active_account_fence db ?s None w = (f, w1)"
        "reply_operations c ?s g note m u rp images now = Inr ops"
        "advance db rt record u IN_PROGRESS None ops now w1 = (r, w')"
    by (auto simp: reply_def Let_def split: if_splits prod.splits sum.splits)
  then show ?thesis
  proof cases
    case 2
    show ?thesis by (rule env_run [OF require_active_account_fence_env [OF 2]])
  next
    case 3
    have p: "help_run (rows w) (rows w1)" by (rule env_run [OF require_active_account_fence_env [OF 3(1)]])
    have "help_run (rows w1) (rows w')"
      by (rule help_write_run [OF sound_run [OF p sound] _ _ _ 3(3)])
        (auto intro: reply_operations_quiet [OF 3(2) calm] touch_next)
    with p show ?thesis by (rule help_run_trans)
  next
    case 4
    have p: "help_run (rows w) (rows w1)" by (rule env_run [OF require_active_account_fence_env [OF 4(1)]])
    have "help_run (rows w1) (rows w')"
      by (rule advance_run [OF sound_run [OF p sound] reply_operations_quiet [OF 4(2) calm] 4(3)])
    with p show ?thesis by (rule help_run_trans)
  qed simp
qed

end

end
