(* ===== verification/Support_Shape.thy ===== *)
theory Support_Shape
  imports Support_Cases
begin

text \<open>
  What an admission or a refund of a teacher-help case does to the table: it reads, and then hands the
  caller's transaction at most one write, built from the rows it read. The two shapes below say which
  rows those were; everything about the allowance rests on them.
\<close>

section \<open>What a scope allows\<close>

lemma assigned_cases_limit: "assigned_weekly_cases i \<le> ASSIGNED_WEEKLY_CASES_MAXIMUM"
  by (auto simp: assigned_weekly_cases_def ASSIGNED_WEEKLY_CASES_MAXIMUM_def ASSIGNED_WEEKLY_TEACHER_SUPPORT_CASES_def
      split: option.splits)

lemma plan_cases_limit:
  assumes "plan_allowance_budget p v = Inr b"
  shows "teacher_support_cases b \<le> ASSIGNED_WEEKLY_CASES_MAXIMUM"
  using assms
  by (cases p) (auto simp: plan_allowance_budget_def validate_locked_budget_def ASSIGNED_WEEKLY_CASES_MAXIMUM_def
      split: if_splits)

lemma paid_scope_limit: "paid_scope cd b p g = Some s \<Longrightarrow> cs_limit s \<le> ASSIGNED_WEEKLY_CASES_MAXIMUM"
  by (auto simp: paid_scope_def Let_def split: sum.splits if_splits dest: plan_cases_limit)

lemma resolve_scope_limit:
  assumes "resolve_scope cd db rt ix b w = (Inr (Some s), w')"
  shows "cs_limit s \<le> ASSIGNED_WEEKLY_CASES_MAXIMUM"
  using assms
  by (auto simp: resolve_scope_def resolve_paid_scope_def resolve_assigned_scope_def Let_def assigned_cases_limit
      split: sum.splits option.splits prod.splits if_splits dest: paid_scope_limit)

section \<open>Reading only\<close>

context store
begin

lemma read_counter_env: "read_counter cd db kind scope wk w = (r, w') \<Longrightarrow> env (rows w) (rows w')"
  by (auto simp: read_counter_def split: prod.splits sum.splits option.splits dest: strong_get_env)

lemma read_counter_row:
  assumes "read_counter cd db kind scope wk w = (Inr c, w')"
  shows "case c of None \<Rightarrow> rows w' (counter_key kind scope wk) = None
    | Some c' \<Rightarrow> \<exists>i. rows w' (counter_key kind scope wk) = Some i \<and> validate cd kind i scope wk = Some c'"
  using assms
  by (auto simp: read_counter_def split: prod.splits sum.splits option.splits dest: strong_get_row)

lemma read_case_counter_env: "read_case_counter cd db s wk w = (r, w') \<Longrightarrow> env (rows w) (rows w')"
  by (auto simp: read_case_counter_def split: prod.splits sum.splits option.splits if_splits dest: read_counter_env)

lemma read_case_counter_row:
  assumes "read_case_counter cd db s wk w = (Inr c, w')"
  shows "case c of None \<Rightarrow> rows w' (counter_key CASES (cs_scope_id s) wk) = None
    | Some c' \<Rightarrow> \<exists>i. rows w' (counter_key CASES (cs_scope_id s) wk) = Some i
        \<and> validate cd CASES i (cs_scope_id s) wk = Some c' \<and> counter_of_scope s c'"
  using assms
  by (auto simp: read_case_counter_def split: prod.splits sum.splits option.splits if_splits dest!: read_counter_row)

lemma judged_from_env: "judged_from db' rt pairs got w = (r, w') \<Longrightarrow> db' = db \<Longrightarrow> env (rows w) (rows w')"
proof (induction db' rt pairs got w arbitrary: r w' rule: judged_from.induct)
  case (2 db' rt p s pairs got w)
  show ?case
  proof (cases "p = [] \<or> s = [] \<or> (p, s) \<in> set got")
    case True
    with 2 show ?thesis by simp
  next
    case False
    obtain x w1 where j: "judge db rt p s w = (x, w1)" by fastforce
    note e = judge_env [OF j]
    show ?thesis
    proof (cases x)
      case (Inl e')
      with 2 False j e show ?thesis by auto
    next
      case (Inr v)
      obtain y w2 where r: "judged_from db rt pairs ((p, s) # got) w1 = (y, w2)" by fastforce
      with 2 False j Inr have "env (rows w1) (rows w2)" and "w' = w2"
        by (auto split: prod.splits sum.splits)
      with e show ?thesis by (auto intro: env_trans)
    qed
  qed
qed (simp add: env_refl)

text \<open>The index query reads, like every other call of the service.\<close>

lemma parents_of_env:
  assumes "parents_of db rt ix s w = (r, w')"
    and reads: "\<And>s. reading (links_of_student ix s) rows env"
  shows "env (rows w) (rows w')"
proof -
  from assms(1) consider "w' = w" | x where "list_links_for_student ix s w = (x, w')"
    | x w1 pairs y where "list_links_for_student ix s w = (x, w1)" "judged db rt pairs w1 = (y, w')"
    by (auto simp: parents_of_def keep_verdicts_def split: if_splits prod.splits sum.splits)
  moreover have "env (rows w) (rows u)" if "list_links_for_student ix s w = (x, u)" for x u
    using that readingD [OF reads] by (auto simp: list_links_for_student_def env_refl split: sum.splits)
  moreover have "env (rows u) (rows w')" if "judged db rt pairs u = (y, w')" for pairs u y
    using judged_from_env [of db] that by (auto simp: judged_def)
  ultimately show ?thesis by cases (auto intro: env_refl env_trans)
qed

lemma first_grant_env: "first_grant db' rt b vs w = (r, w') \<Longrightarrow> db' = db \<Longrightarrow> env (rows w) (rows w')"
proof (induction db' rt b vs w arbitrary: r w' rule: first_grant.induct)
  case (2 db' rt b v vs w)
  obtain x w1 where g: "get_active_beneficiary_grant db rt (vd_parent v) b w = (x, w1)" by fastforce
  note e = active_beneficiary_grant_env [OF g]
  show ?case
  proof (cases x)
    case (Inr y)
    show ?thesis
    proof (cases y)
      case None
      with 2 g Inr have "env (rows w1) (rows w')" by auto
      with e show ?thesis by (rule env_trans)
    qed (use 2 g Inr e in auto)
  qed (use 2 g e in auto)
qed (simp add: env_refl)

lemma granting_parent_env:
  assumes "granting_parent db rt ix b w = (r, w')"
    and reads: "\<And>s. reading (links_of_student ix s) rows env"
  shows "env (rows w) (rows w')"
proof -
  have parents: "env (rows w) (rows u)" if "beneficiary_parents db rt ix b w = (x, u)" for x u
    using that parents_of_env [OF _ reads]
    by (auto simp: beneficiary_parents_def env_refl split: if_splits prod.splits sum.splits)
  from assms(1) consider x where "beneficiary_parents db rt ix b w = (x, w')"
    | x w1 vs where "beneficiary_parents db rt ix b w = (x, w1)" "first_grant db rt b vs w1 = (r, w')"
    by (auto simp: granting_parent_def split: prod.splits sum.splits)
  then show ?thesis
    by cases (auto intro: env_trans parents first_grant_env)
qed

lemma resolve_assigned_env: "resolve_assigned_scope cd db b student w = (r, w') \<Longrightarrow> env (rows w) (rows w')"
  by (auto simp: resolve_assigned_scope_def Let_def env_refl
      split: prod.splits sum.splits option.splits if_splits dest: strong_get_env)

lemma resolve_scope_env:
  assumes "resolve_scope cd db rt ix b w = (r, w')"
    and reads: "\<And>s. reading (links_of_student ix s) rows env"
  shows "env (rows w) (rows w')"
proof -
  have student: "env (rows w) (rows u)" if "active_student db b w = (x, u)" for x b w u
    using that by (auto simp: active_student_def split: prod.splits sum.splits dest: get_user_env)
  have paid: "env (rows w) (rows u)" if "resolve_paid_scope cd db rt ix b w = (x, u)" for x b w u
    using that granting_parent_env [OF _ reads]
    by (auto simp: resolve_paid_scope_def split: prod.splits sum.splits option.splits)
  from assms(1) consider "w' = w" | v x where "active_student db v w = (x, w')"
    | v x w1 y where "active_student db v w = (x, w1)" "resolve_paid_scope cd db rt ix v w1 = (y, w')"
    | v x w1 y w2 i z where "active_student db v w = (x, w1)" "resolve_paid_scope cd db rt ix v w1 = (y, w2)"
        "resolve_assigned_scope cd db v i w2 = (z, w')"
    by (auto simp: resolve_scope_def split: prod.splits sum.splits option.splits)
  then show ?thesis
    by cases (meson env_refl env_trans student paid resolve_assigned_env)+
qed

section \<open>The admission\<close>

text \<open>
  One attempt either only reads, or reads the week's counter and hands over its single write: the
  fences of the scope, the receipt created, the counter raised by one below the limit.
\<close>

lemma admit_attempt_shape:
  assumes call: "admit_attempt cd db rt ix wk c kind b at_time persist w = (r, w')"
    and reads: "\<And>s. reading (links_of_student ix s) rows env"
  obtains (read) "env (rows w) (rows w')" "\<And>a. r \<noteq> Done (Case_Admitted, a)" "r \<noteq> Lost_Race"
  | (wrote) s counter fences put u ok where "env (rows w) (rows u)"
      "case counter of None \<Rightarrow> rows u (counter_key CASES (cs_scope_id s) wk) = None
        | Some k \<Rightarrow> \<exists>i. rows u (counter_key CASES (cs_scope_id s) wk) = Some i
            \<and> validate cd CASES i (cs_scope_id s) wk = Some k \<and> counter_of_scope s k"
      "spent_cases counter < cs_limit s" "grant_condition_operations s = Inr fences"
      "write_counter cd CASES (cs_scope_id s) wk counter [(''admitted_cases'', spent_cases counter + 1)]
         (counter_fields s) at_time = Inr put"
      "persist (fences @ [Put (admission_receipt cd s wk c kind b (spent_cases counter + 1) at_time) create_only, put]) u = (ok, w')"
      "\<And>a. r = Done (Case_Admitted, a) \<Longrightarrow> ok" "cs_limit s \<le> ASSIGNED_WEEKLY_CASES_MAXIMUM"
proof -
  have replay: "classify_existing rt i c kind b \<noteq> (Case_Admitted, a)" for i a
    by (simp add: classify_existing_def split: option.split)
  obtain x w1 where s: "resolve_scope cd db rt ix b w = (x, w1)" by fastforce
  note e1 = resolve_scope_env [OF s reads]
  consider (early) "w' = w1" "\<And>a. r \<noteq> Done (Case_Admitted, a)" "r \<noteq> Lost_Race" | (scope) sc where "x = Inr (Some sc)"
    using call s by (cases x) (auto simp: admit_attempt_def split: option.splits if_splits)
  then show thesis
  proof cases
    case early
    with e1 show ?thesis by (intro read) auto
  next
    case scope
    obtain y w2 where g: "strong_get db (case_key cd kind c) w1 = (y, w2)" by fastforce
    note e2 = env_trans [OF e1 strong_get_env [OF g]]
    show ?thesis
    proof (cases "y = Inr None")
      case False
      with call s scope g e2 replay show ?thesis
        by (intro read) (auto simp: admit_attempt_def split: sum.splits option.splits)
    next
      case True
      obtain z w3 where k: "read_case_counter cd db sc wk w2 = (z, w3)" by fastforce
      note e3 = env_trans [OF e2 read_case_counter_env [OF k]]
      show ?thesis
      proof (cases z)
        case (Inl e)
        with call s scope g True k e3 show ?thesis by (intro read) (auto simp: admit_attempt_def)
      next
        case (Inr counter)
        note row = read_case_counter_row [OF k [unfolded Inr]]
        show ?thesis
        proof (cases "cs_limit sc \<le> spent_cases counter")
          case True
          with call s scope g \<open>y = Inr None\<close> k Inr e3 show ?thesis by (intro read) (auto simp: admit_attempt_def)
        next
          case False
          with call s scope g \<open>y = Inr None\<close> k Inr
          have "admit_write cd rt sc wk counter c kind b at_time persist w3 = (r, w')" by (simp add: admit_attempt_def)
          then consider "w' = w3" "\<And>a. r \<noteq> Done (Case_Admitted, a)" "r \<noteq> Lost_Race"
            | put fences ok where "write_counter cd CASES (cs_scope_id sc) wk counter
                [(''admitted_cases'', spent_cases counter + 1)] (counter_fields sc) at_time = Inr put"
                "grant_condition_operations sc = Inr fences"
                "persist (fences @ [Put (admission_receipt cd sc wk c kind b (spent_cases counter + 1) at_time) create_only, put]) w3 = (ok, w')"
                "\<And>a. r = Done (Case_Admitted, a) \<Longrightarrow> ok"
            by (auto simp: admit_write_def Let_def split: sum.splits prod.splits bool.splits option.splits)
          then show ?thesis
          proof cases
            case 1
            with e3 show ?thesis by (intro read) auto
          next
            case 2
            show ?thesis by (rule wrote [OF e3 row _ 2(2,1,3,4)]) (use False resolve_scope_limit [OF s [unfolded scope]] in auto)
          qed
        qed
      qed
    qed
  qed
qed

section \<open>The refund\<close>

text \<open>
  A refund only reads; or checks what it saw of the receipt; or rewrites the receipt it read, marked
  refunded, and lowers by one the counter it read of the receipt's own week.
\<close>

lemma refund_shape:
  assumes call: "refund_teacher_support_case cd db rt c kind b reason at_time persist w = (r, w')"
  obtains (read) "env (rows w) (rows w')" "\<And>wk. r \<noteq> Inr (Refund_Done, wk)"
  | (checked) u cnd ok where "env (rows w) (rows u)" "persist [Check (case_key cd kind c) cnd] u = (ok, w')"
      "\<And>wk. r \<noteq> Inr (Refund_Done, wk)"
  | (giving) u0 u i a v wk k put ok where "env (rows w) (rows u0)" "rows u0 (case_key cd kind c) = Some i" "env (rows u0) (rows u)"
      "\<exists>j. rows u (counter_key CASES (ad_scope_id a) wk) = Some j \<and> validate cd CASES j (ad_scope_id a) wk = Some k"
      "admission_from_item rt i = Some a" "refund_week cd a = Some wk"
      "exact_int (item_get i ''state_version'') = Some v" "\<not> truthy (item_get i ''refunded_at'')"
      "item_get i ''beneficiary_id'' = PStr b" "item_get i ''support_case_id'' = PStr c"
      "1 \<le> count k ''admitted_cases''"
      "write_counter cd CASES (ad_scope_id a) wk (Some k) [(''admitted_cases'', count k ''admitted_cases'' - 1)] [] at_time = Inr put"
      "persist [Put (refunded_receipt cd i v reason at_time)
         (C_And (C_Eq ''state_version'' (PInt v)) (C_Absent ''refunded_at'')), put] u = (ok, w')"
      "\<And>wk'. r = Inr (Refund_Done, wk') \<Longrightarrow> ok \<and> wk' = Some (ad_week a)"
proof (cases "\<not> case_arguments c kind b \<or> required_text 40 (PStr reason) = None")
  case True
  with call show ?thesis by (intro read) (auto simp: refund_teacher_support_case_def env_refl)
next
  case valid: False
  obtain x w1 where g: "strong_get db (case_key cd kind c) w = (x, w1)" by fastforce
  note e1 = strong_get_env [OF g]
  show ?thesis
  proof (cases "\<exists>i. x = Inr (Some i) \<and> item_get i ''beneficiary_id'' = PStr b \<and> item_get i ''case_kind'' = PStr kind
      \<and> item_get i ''support_case_id'' = PStr c \<and> \<not> truthy (item_get i ''refunded_at'')")
    case False
    with call g valid consider "w' = w1" "\<And>wk. r \<noteq> Inr (Refund_Done, wk)"
      | cnd out where "persisted_or_retry persist [Check (case_key cd kind c) cnd] out w1 = (r, w')" "fst out \<noteq> Refund_Done"
      by (auto simp: refund_teacher_support_case_def split: sum.splits option.splits if_splits)
    then show ?thesis
    proof cases
      case 1
      with e1 show ?thesis by (intro read) auto
    next
      case 2
      then obtain ok where p: "persist [Check (case_key cd kind c) cnd] w1 = (ok, w')"
        by (auto simp: persisted_or_retry_def split: prod.splits bool.splits)
      have "r \<noteq> Inr (Refund_Done, wk)" for wk
        using 2 by (cases out) (auto simp: persisted_or_retry_def split: prod.splits bool.splits)
      with p show ?thesis by (intro checked [OF e1])
    qed
  next
    case True
    then obtain i where i: "x = Inr (Some i)" "item_get i ''beneficiary_id'' = PStr b" "item_get i ''case_kind'' = PStr kind"
        "item_get i ''support_case_id'' = PStr c" "\<not> truthy (item_get i ''refunded_at'')" by blast
    with call g valid
    have "refund_admitted cd db rt i reason at_time persist w1 = (r, w')"
      by (auto simp: refund_teacher_support_case_def)
    then consider "w' = w1" "\<And>wk. r \<noteq> Inr (Refund_Done, wk)"
      | scope wk y where "read_counter cd db CASES scope wk w1 = (y, w')" "\<And>wk. r \<noteq> Inr (Refund_Done, wk)"
      | a v wk k w2 where "admission_from_item rt i = Some a" "exact_int (item_get i ''state_version'') = Some v"
          "refund_week cd a = Some wk" "read_counter cd db CASES (ad_scope_id a) wk w1 = (Inr (Some k), w2)"
          "1 \<le> count k ''admitted_cases''" "refund_write cd i a v wk k reason at_time persist w2 = (r, w')"
      by (auto simp: refund_admitted_def positive_integer_Inr not_less
          split: option.splits sum.splits prod.splits if_splits)
    then show ?thesis
    proof cases
      case 1
      with e1 show ?thesis by (intro read) auto
    next
      case 2
      show ?thesis by (rule read [OF env_trans [OF e1 read_counter_env [OF 2(1)]] 2(2)])
    next
      case 3
      note e2 = read_counter_env [OF 3(4)]
      from read_counter_row [OF 3(4)] have j: "\<exists>j. rows w2 (counter_key CASES (ad_scope_id a) wk) = Some j
        \<and> validate cd CASES j (ad_scope_id a) wk = Some k" by simp
      from 3(6) consider "w' = w2" "\<And>wk. r \<noteq> Inr (Refund_Done, wk)"
        | put ok where "write_counter cd CASES (ad_scope_id a) wk (Some k)
            [(''admitted_cases'', count k ''admitted_cases'' - 1)] [] at_time = Inr put"
            "persist [Put (refunded_receipt cd i v reason at_time)
               (C_And (C_Eq ''state_version'' (PInt v)) (C_Absent ''refunded_at'')), put] w2 = (ok, w')"
            "\<And>wk'. r = Inr (Refund_Done, wk') \<Longrightarrow> ok \<and> wk' = Some (ad_week a)"
        by (auto simp: refund_write_def persisted_or_retry_def split: sum.splits prod.splits bool.splits)
      then show ?thesis
      proof cases
        case 1
        show ?thesis by (rule read [OF _ 1(2)]) (use 1(1) e1 e2 in \<open>auto intro: env_trans\<close>)
      next
        case 2
        show ?thesis
          by (rule giving [OF e1 strong_get_row [OF g [unfolded i(1)]] e2 j 3(1,3,2) i(5,2,4) 3(5) 2])
      qed
    qed
  qed
qed

end

end
