(* ===== verification/Help_Serve.thy ===== *)
theory Help_Serve
  imports Help_Runs Support_Shape
begin

text \<open>
  The calls that read the request themselves, as runs of the requests' life: asking with its case
  admitted, ending with its case given back, and the sweep. What they hand to the allowance is their
  own transaction, and the allowance adds only rows of its own to it.
\<close>

section \<open>Rows of the allowance are still\<close>

lemma counter_put_quiet:
  assumes "write_counter cd CASES scope wk previous counts extra now = Inr oper"
    and "case previous of None \<Rightarrow> True | Some k \<Rightarrow> \<exists>i. validate cd CASES i scope wk = Some k"
  shows "still oper"
proof -
  from assms(2) have "from_table cd CASES scope wk previous"
    by (auto simp: from_table_def validate_counter_ok [OF _ kind_wf_CASES] split: option.splits)
  from cases_kind.written_key [OF assms(1) this] write_counter_InrD(1) [OF assms(1)]
  show ?thesis by (simp add: put_quiet counter_key_def)
qed

lemma condition_quiet:
  assumes "grant_condition_operations s = Inr ops" "x \<in> set ops"
  shows "still x"
  using assms
  by (auto simp: grant_condition_operations_def assigned_condition_operations_def student_profile_condition_def
      role_condition_def held_grant_condition_def relationship_conditions_def active_link_condition_def Let_def
      split: if_splits option.splits sum.splits dest: fence_quiet)

lemma admission_receipt_quiet: "still (Put (admission_receipt cd s wk c kind b n at_time) cnd)"
  by (rule put_quiet [where k = "case_key cd kind c"])
    (simp_all add: item_key_def row_lookup admission_receipt_def case_key_def)

lemma refunded_receipt_quiet:
  assumes "keyed t" "t (case_key cd kind c) = Some i"
  shows "still (Put (refunded_receipt cd i v reason at_time) cnd)"
proof (rule put_quiet)
  from assms have "item_key i = Some (case_key cd kind c)" by (simp add: keyed_def del: split_paired_All)
  then show "item_key (refunded_receipt cd i v reason at_time) = Some (case_key cd kind c)"
    by (simp add: refunded_receipt_def item_key_def row_lookup)
qed (simp add: case_key_def)

section \<open>The rows of an ending and of an opening\<close>

lemma ending_tx:
  assumes d: "ending_decision rt found outcome student asked_before now = Ending_Rows base"
    and outcome: "outcome \<in> {WITHDRAWN, EXPIRED}"
    and tx: "tx_apply (base @ extra) t = Some t'" and sound: "sound_table t" and calm: "\<And>x. x \<in> set extra \<Longrightarrow> still x"
  shows "help_run t t'"
proof -
  from d obtain i0 fence where fence: "still fence" and
    base: "base = [fence, update_operation rt i0 (ending_changes outcome now) (OFFER_FIELDS @ NO_CANDIDATE_FIELDS) still_pending]"
    by (auto simp: ending_decision_def Let_def split: option.splits if_splits sum.splits dest: fence_quiet)
  show ?thesis
  proof (rule update_tx [OF tx])
    show "help_ok t" using sound by (simp add: sound_table_def)
    show "update_operation rt i0 (ending_changes outcome now) (OFFER_FIELDS @ NO_CANDIDATE_FIELDS) still_pending \<in> set (base @ extra)"
      by (simp add: base)
    show "plain_changes (ending_changes outcome now) (OFFER_FIELDS @ NO_CANDIDATE_FIELDS)" by (rule ending_plain [OF outcome])
    show "\<exists>r'. request_in (changed_row (read_version i0) (ending_changes outcome now) (OFFER_FIELDS @ NO_CANDIDATE_FIELDS) i) = Some r'
        \<and> lifecycle r r'"
      if "request_in i = Some r" "rq_version r = read_version i0" "cond_holds still_pending i" for i r
      by (rule ending_next [OF that outcome])
  qed (use base fence calm in auto)
qed

definition stamped_opening :: "runtime \<Rightarrow> item \<Rightarrow> string \<Rightarrow> string \<Rightarrow> int \<Rightarrow> string option \<Rightarrow> string \<Rightarrow> item" where
  "stamped_opening rt conversation c student g message now =
     opening_record rt conversation c student g message now
       ++ dict_of [(''owner_id'', PStr student), (''student_id'', PStr student), (''account_fence_generation'', PInt g)]"

lemma dict_append:
  "item_get (dict_of (xs @ ys)) a = (if a \<in> fst ` set xs then item_get (dict_of xs) a else item_get (dict_of ys) a)"
  by (auto simp: item_get_def dict_of_def map_add_def map_of_eq_None_iff split: option.splits)
    (metis map_of_eq_None_iff option.distinct(1))+

lemma opening_fields:
  "item_get (opening_record rt conversation c student g message now) ''PK'' = PStr (conv_pk c)"
  "item_get (opening_record rt conversation c student g message now) ''SK'' = PStr ''HELP''"
  "item_get (opening_record rt conversation c student g message now) ''conversation_id'' = PStr c"
  "item_get (opening_record rt conversation c student g message now) ''escalation_status'' = PStr PENDING"
  "item_get (opening_record rt conversation c student g message now) ''version'' = PInt 1"
  "item_get (opening_record rt conversation c student g message now) ''owner_id'' = PStr student"
  "item_get (opening_record rt conversation c student g message now) ''student_id'' = PStr student"
  "item_get (opening_record rt conversation c student g message now) ''account_fence_generation'' = PInt g"
  unfolding opening_record_def dict_append by (simp_all add: row_lookup)

lemma opening_none:
  "item_get (opening_record rt conversation c student g message now) ''teacher_id'' = PNone"
  "item_get (opening_record rt conversation c student g message now) ''dispatched_teacher_id'' = PNone"
  "item_get (opening_record rt conversation c student g message now) ''previous_dispatch_teacher_ids'' = PNone"
  unfolding opening_record_def dict_append by (simp_all add: row_lookup Let_def)

lemma stamped_opening_get: "item_get (stamped_opening rt conversation c student g message now) a
      = item_get (opening_record rt conversation c student g message now) a"
  unfolding stamped_opening_def item_get_merge_Cons item_get_merge_Nil
  using opening_fields(6-8) by auto

lemma opening_request:
  "request_in (stored_item (stamped_opening rt conversation c student g message now)) =
     Some \<lparr>rq_conversation = c, rq_phase = Waiting, rq_holder = None, rq_offered = None, rq_tried = [], rq_version = 1\<rparr>"
proof -
  have none: "stored_item (stamped_opening rt conversation c student g message now) a = None"
    if "a \<in> {''teacher_id'', ''dispatched_teacher_id''}" for a
    using that by (auto simp: stored_item_None stamped_opening_get opening_none)
  have "stored_item (stamped_opening rt conversation c student g message now) ''PK'' \<noteq> None"
    by (simp add: stored_item_None stamped_opening_get opening_fields)
  then show ?thesis
    using none
    by (simp add: request_in_Some item_get_stored stamped_opening_get opening_fields opening_none rat_whole_def)
qed

lemma opening_tx:
  assumes rows: "opening_rows rt conversation c student g message system_message now = Inr base"
    and tx: "tx_apply (base @ extra) t = Some t'" and sound: "sound_table t" and calm: "\<And>x. x \<in> set extra \<Longrightarrow> still x"
  shows "help_run t t'" and "t' (help_key c) = Some (stored_item (stamped_opening rt conversation c student g message now))"
proof -
  let ?s = "stamped_opening rt conversation c student g message now"
  let ?put = "Put ?s create_only"
  from rows obtain fence system_put args where m: "append_message c ''system'' c student g system_message now args = Inr system_put"
        "active_fence_condition student (Some g) = Inr fence"
      and base: "base = [fence, ?put, system_put, Check (record_key c) (C_And (C_Present ''PK'') (C_Eq ''student_id'' (PStr student)))]"
    by (auto simp: opening_rows_def build_conversation_write_def stamped_opening_def [symmetric] Let_def
        split: sum.splits if_splits option.splits)
  from m have f: "still fence" "still system_put" by (auto dest: message_quiet fence_quiet)
  have key: "op_key ?put = Some (help_key c)"
    by (simp add: item_key_def stamped_opening_get opening_fields help_key_def conv_pk_def)
  have mem: "?put \<in> set (base @ extra)" by (simp add: base)
  have rest: "\<forall>x\<in>set (base @ extra). x = ?put \<or> still x" using f calm by (auto simp: base)
  note one = lone_write_tx [OF tx mem key rest]
  show row: "t' (help_key c) = Some (stored_item ?s)" using one(2) key by (auto split: option.splits)
  have "keyed t" using sound by (simp add: sound_table_def)
  with one(1) have none: "t (help_key c) = None" by (simp add: keyed_create_only del: cond_holds.simps)
  have "help_step t t'"
    by (rule help_step.asking [OF none row opening_request _ _ one(3)]) (simp_all add: opened_def)
  moreover have "\<forall>x\<in>set (base @ extra). key_safe x" using rest quiet_safe key_safe_simps(1) by metis
  then have "keyed t \<Longrightarrow> keyed t'" by (rule keyed_tx [OF tx])
  ultimately show "help_run t t'" by (rule help_run_step)
qed

section \<open>Calls\<close>

text \<open>The caller's transaction, started after \<open>w\<close> with still operations added to it, lives by the requests' steps.\<close>

definition calm_persist :: "('w \<Rightarrow> table) \<Rightarrow> 'w persist \<Rightarrow> 'w \<Rightarrow> bool" where
  "calm_persist rows persist w \<longleftrightarrow>
     (\<forall>ops u ok u'. help_run (rows w) (rows u) \<longrightarrow> (\<forall>x\<in>set ops. still x) \<longrightarrow> persist ops u = (ok, u') \<longrightarrow>
        help_run (rows u) (rows u'))"

lemma calm_persistD:
  "calm_persist rows persist w \<Longrightarrow> persist ops u = (ok, u') \<Longrightarrow> help_run (rows w) (rows u) \<Longrightarrow> \<forall>x\<in>set ops. still x \<Longrightarrow>
     help_run (rows u) (rows u')"
  by (simp add: calm_persist_def)

lemma calm_persist_later: "calm_persist rows persist w \<Longrightarrow> help_run (rows w) (rows u) \<Longrightarrow> calm_persist rows persist u"
  unfolding calm_persist_def using help_run_trans by metis

context help_client
begin

lemma get_request_env: "get_request db c w = (r, w') \<Longrightarrow> env (rows w) (rows w')"
  by (auto simp: get_request_def env_refl split: if_splits prod.splits response.splits dest: get_env)

lemma get_request_row: "get_request db c w = (Inr (Some i), w') \<Longrightarrow> rows w' (help_key c) = Some i"
  by (auto simp: get_request_def split: if_splits prod.splits response.splits dest: get_item)

lemma persist_rows_calm:
  assumes sound: "sound_table (rows w)"
    and step: "\<And>ops t t'. \<forall>x\<in>set ops. still x \<Longrightarrow> sound_table t \<Longrightarrow> tx_apply (base @ ops) t = Some t' \<Longrightarrow> help_run t t'"
  shows "calm_persist rows (persist_rows db base) w"
  unfolding calm_persist_def
proof (intro allI impI)
  fix ops u ok u'
  assume u: "help_run (rows w) (rows u)" and calm: "\<forall>x\<in>set ops. still x" and p: "persist_rows db base ops u = (ok, u')"
  have s: "sound_table (rows u)" by (rule sound_run [OF u sound])
  show "help_run (rows u) (rows u')"
  proof (rule tx_help_run)
    show "db_tx db (base @ ops) u = (ok, u')" using p by (simp add: persist_rows_def)
    show "help_run t t'" if "help_run (rows u) t" "tx_apply (base @ ops) t = Some t'" for t t'
      by (rule step [OF calm sound_run [OF that(1) s] that(2)])
  qed
qed

lemma refund_run:
  assumes call: "refund_teacher_support_case cd db rt c kind b reason at_time persist w = (r, w')"
    and sound: "sound_table (rows w)"
    and persist: "calm_persist rows persist w"
  shows "help_run (rows w) (rows w')"
proof (rule refund_shape [OF call])
  assume "env (rows w) (rows w')"
  then show ?thesis by (rule env_run)
next
  fix u cnd ok
  assume "env (rows w) (rows u)" and p: "persist [Check (case_key cd kind c) cnd] u = (ok, w')"
  then have e: "help_run (rows w) (rows u)" by (intro env_run)
  show ?thesis by (rule help_run_trans [OF e calm_persistD [OF persist p e]]) simp
next
  fix u0 u i a v wk k put ok
  assume e: "env (rows w) (rows u0)" "env (rows u0) (rows u)" and i: "rows u0 (case_key cd kind c) = Some i"
    and k: "\<exists>j. rows u (counter_key CASES (ad_scope_id a) wk) = Some j \<and> validate cd CASES j (ad_scope_id a) wk = Some k"
    and put: "write_counter cd CASES (ad_scope_id a) wk (Some k) [(''admitted_cases'', count k ''admitted_cases'' - 1)] [] at_time = Inr put"
    and p: "persist [Put (refunded_receipt cd i v reason at_time)
         (C_And (C_Eq ''state_version'' (PInt v)) (C_Absent ''refunded_at'')), put] u = (ok, w')"
  from env_run [OF e(1)] sound have "keyed (rows u0)" by (auto simp: sound_table_def dest: help_run_keyed)
  from refunded_receipt_quiet [OF this i] counter_put_quiet [OF put] k
  have calm: "\<forall>x\<in>set [Put (refunded_receipt cd i v reason at_time)
         (C_And (C_Eq ''state_version'' (PInt v)) (C_Absent ''refunded_at'')), put]. still x" by auto
  have e: "help_run (rows w) (rows u)" by (rule help_run_trans [OF env_run [OF e(1)] env_run [OF e(2)]])
  show ?thesis by (rule help_run_trans [OF e calm_persistD [OF persist p e calm]])
qed

lemma end_attempt_run:
  assumes call: "end_attempt cd db he c outcome student asked_before now w = (r, w')" and outcome: "outcome \<in> {WITHDRAWN, EXPIRED}"
    and sound: "sound_table (rows w)"
  shows "help_run (rows w) (rows w')"
proof -
  have final: "env (rows u) (rows u')" if "end_refunded db c outcome i0 x u = (y, u')" for i0 x u y u'
    using that by (auto simp: end_refunded_def env_refl split: prod.splits if_splits dest: get_request_env)
  from call consider g where "get_request db c w = (g, w')"
    | found w1 base x w2 b where "get_request db c w = (Inr found, w1)"
        "ending_decision (he_rt he) found outcome student asked_before now = Ending_Rows base"
        "refund_teacher_support_case cd db (he_rt he) c ''conversation'' b outcome (observed_at he now) (persist_rows db base) w1 = (x, w2)"
        "env (rows w2) (rows w')"
    by (auto simp: end_attempt_def env_refl split: prod.splits sum.splits ending.splits dest: final)
  then show ?thesis
  proof cases
    case 1
    show ?thesis by (rule env_run [OF get_request_env [OF 1]])
  next
    case 2
    have e: "help_run (rows w) (rows w1)" by (rule env_run [OF get_request_env [OF 2(1)]])
    have "help_run (rows w1) (rows w2)"
    proof (rule refund_run [OF 2(3) sound_run [OF e sound] persist_rows_calm [OF sound_run [OF e sound]]])
      fix ops t t'
      assume "\<forall>x\<in>set ops. still x" "sound_table t" "tx_apply (base @ ops) t = Some t'"
      with ending_tx [OF 2(2) outcome] show "help_run t t'" by blast
    qed
    with e env_run [OF 2(4)] show ?thesis by (blast intro: help_run_trans)
  qed
qed

lemma end_run:
  assumes call: "end_request cd db he c outcome student asked_before now w = (r, w')" and outcome: "outcome \<in> {WITHDRAWN, EXPIRED}"
    and sound: "sound_table (rows w)"
  shows "help_run (rows w) (rows w')"
proof -
  let ?R = "\<lambda>u v. sound_table (rows u) \<longrightarrow> help_run (rows u) (rows v)"
  from call obtain x where x: "retry_loop DEFAULT_ATTEMPTS (end_attempt cd db he c outcome student asked_before now) (Inl Help_Ending_Unavailable) w = (x, w')"
    by (auto simp: end_request_def retry_def DEFAULT_ATTEMPTS_def split: prod.splits sum.splits)
  have "?R w w'"
  proof (rule retry_loop_ends [where R = ?R, OF _ _ _ x])
    show "?R u v" if "end_attempt cd db he c outcome student asked_before now u = (a, v)" for u a v
      using end_attempt_run [OF that outcome] by blast
    show "?R a d" if "?R a b" "?R b d" for a b d using that sound_run help_run_trans by blast
  qed simp
  with sound show ?thesis by simp
qed

lemma withdraw_run: "withdraw cd db he c student now w = (r, w') \<Longrightarrow> sound_table (rows w) \<Longrightarrow> help_run (rows w) (rows w')"
  by (auto simp: withdraw_def split: prod.splits intro: end_run)

lemma expire_run: "expire cd db he c b now w = (r, w') \<Longrightarrow> sound_table (rows w) \<Longrightarrow> help_run (rows w) (rows w')"
  by (auto simp: expire_def split: prod.splits sum.splits help_failure.splits intro: end_run)

section \<open>Asking\<close>

lemma admit_attempt_run:
  assumes call: "admit_attempt cd db rt ix wk c kind b at_time persist w = (r, w')"
    and reads: "\<And>s. reading (links_of_student ix s) rows env"
    and persist: "calm_persist rows persist w"
  shows "help_run (rows w) (rows w')"
    and "r = Done (Case_Admitted, a) \<Longrightarrow>
      \<exists>ops u. help_run (rows w) (rows u) \<and> (\<forall>x\<in>set ops. still x) \<and> persist ops u = (True, w')"
proof -
  have "help_run (rows w) (rows w') \<and> (r = Done (Case_Admitted, a) \<longrightarrow>
      (\<exists>ops u. help_run (rows w) (rows u) \<and> (\<forall>x\<in>set ops. still x) \<and> persist ops u = (True, w')))"
    using call reads
  proof (cases rule: admit_attempt_shape)
    case read
    then show ?thesis by (auto intro: env_run)
  next
    case (wrote s counter fences put u ok)
    from wrote(2) have "case counter of None \<Rightarrow> True | Some k \<Rightarrow> \<exists>i. validate cd CASES i (cs_scope_id s) wk = Some k"
      by (auto split: option.splits)
    from counter_put_quiet [OF wrote(5) this] admission_receipt_quiet condition_quiet [OF wrote(4)]
    have calm: "\<forall>x\<in>set (fences @ [Put (admission_receipt cd s wk c kind b (spent_cases counter + 1) at_time) create_only, put]). still x"
      by auto
    note e = env_run [OF wrote(1)]
    from calm_persistD [OF persist wrote(6) e calm] have "help_run (rows u) (rows w')" .
    then have "help_run (rows w) (rows w')" by (rule help_run_trans [OF e])
    moreover have "\<exists>ops v. help_run (rows w) (rows v) \<and> (\<forall>x\<in>set ops. still x) \<and> persist ops v = (True, w')"
      if "r = Done (Case_Admitted, a)"
    proof (intro exI conjI)
      from wrote(7) [OF that] wrote(6)
      show "persist (fences @ [Put (admission_receipt cd s wk c kind b (spent_cases counter + 1) at_time) create_only, put]) u = (True, w')"
        by simp
    qed (rule e, rule calm)
    ultimately show ?thesis by simp
  qed
  then show "help_run (rows w) (rows w')" and "r = Done (Case_Admitted, a) \<Longrightarrow>
      \<exists>ops u. help_run (rows w) (rows u) \<and> (\<forall>x\<in>set ops. still x) \<and> persist ops u = (True, w')" by blast+
qed

lemma admit_run:
  assumes call: "admit_teacher_support_case cd db rt ix c kind b at_time persist w = (r, w')"
    and reads: "\<And>s. reading (links_of_student ix s) rows env"
    and persist: "calm_persist rows persist w"
  shows "help_run (rows w) (rows w')"
    and "r = Inr (Case_Admitted, a) \<Longrightarrow>
      \<exists>ops u. help_run (rows w) (rows u) \<and> (\<forall>x\<in>set ops. still x) \<and> persist ops u = (True, w')"
proof -
  let ?R = "\<lambda>u v. help_run (rows w) (rows u) \<longrightarrow> help_run (rows u) (rows v)"
  have step: "?R u v" if "admit_attempt cd db rt ix wk c kind b at_time persist u = (x, v)" for wk u x v
    using admit_attempt_run(1) [OF that reads] calm_persist_later [OF persist] by blast
  have trans: "?R u v'" if "?R u v" "?R v v'" for u v v' using that help_run_trans by blast
  have replay: "classify_existing rt i c kind b \<noteq> (Case_Admitted, a)" for i
    by (simp add: classify_existing_def split: option.split)
  from call consider "w' = w" "r \<noteq> Inr (Case_Admitted, a)"
    | x where "strong_get db (case_key cd kind c) w = (x, w')" "r \<noteq> Inr (Case_Admitted, a)"
    | x w1 wk where "strong_get db (case_key cd kind c) w = (x, w1)"
        "retry_loop DEFAULT_ATTEMPTS (admit_attempt cd db rt ix wk c kind b at_time persist) (Case_Retryable, None) w1 = (r, w')"
    by (auto simp: admit_teacher_support_case_def retry_def DEFAULT_ATTEMPTS_def replay
        split: if_splits prod.splits sum.splits option.splits)
  then have "help_run (rows w) (rows w') \<and> (r = Inr (Case_Admitted, a) \<longrightarrow>
      (\<exists>ops u. help_run (rows w) (rows u) \<and> (\<forall>x\<in>set ops. still x) \<and> persist ops u = (True, w')))"
  proof cases
    case 1
    then show ?thesis by simp
  next
    case 2
    then show ?thesis using env_run [OF strong_get_env [OF 2(1)]] by blast
  next
    case 3
    note e = env_run [OF strong_get_env [OF 3(1)]]
    have "?R w1 w'"
      by (rule retry_loop_ends [where R = ?R, OF step _ trans 3(2)]) auto
    with e have all: "help_run (rows w) (rows w')" by (blast intro: help_run_trans)
    have "r = Inr (Case_Retryable, None) \<or> (\<exists>u. ?R w1 u \<and>
        ((\<exists>e. admit_attempt cd db rt ix wk c kind b at_time persist u = (Raised e, w') \<and> r = Inl e)
         \<or> (\<exists>x. admit_attempt cd db rt ix wk c kind b at_time persist u = (Done x, w') \<and> r = Inr x)))"
      by (rule retry_loop_cases [where R = ?R, OF step _ trans 3(2)]) auto
    moreover have "\<exists>ops v. help_run (rows w) (rows v) \<and> (\<forall>x\<in>set ops. still x) \<and> persist ops v = (True, w')"
      if "?R w1 u" "admit_attempt cd db rt ix wk c kind b at_time persist u = (Done (Case_Admitted, a), w')" for u
    proof -
      from that(1) e have eu: "help_run (rows w) (rows u)" by (blast intro: help_run_trans)
      have "\<exists>ops v. help_run (rows u) (rows v) \<and> (\<forall>x\<in>set ops. still x) \<and> persist ops v = (True, w')"
        by (rule admit_attempt_run(2) [OF that(2) reads calm_persist_later [OF persist eu]]) simp
      with eu show ?thesis by (blast intro: help_run_trans)
    qed
    ultimately show ?thesis using all by auto
  qed
  then show "help_run (rows w) (rows w')" and "r = Inr (Case_Admitted, a) \<Longrightarrow>
      \<exists>ops u. help_run (rows w) (rows u) \<and> (\<forall>x\<in>set ops. still x) \<and> persist ops u = (True, w')" by blast+
qed

lemma first_offer_run:
  assumes "first_offer db he profiles i0 oid now w = (r, w')" "sound_table (rows w)" "read_then (he_rt he) i0 (rows w)"
    and "reading profiles rows env"
  shows "help_run (rows w) (rows w')"
  using assms by (auto simp: first_offer_def split: prod.splits sum.splits intro: dispatch_run)

lemma opening_seen:
  assumes rows: "opening_rows rt conversation c student g message system_message now = Inr base"
    and p: "persist_rows db base ops u = (True, u')" and sound: "sound_table (rows u)" and calm: "\<And>x. x \<in> set ops \<Longrightarrow> still x"
  shows "read_then rt (opening_record rt conversation c student g message now) (rows u')"
proof -
  let ?i = "opening_record rt conversation c student g message now"
  from p obtain t t' where t: "env (rows u) t" "tx_apply (base @ ops) t = Some t'" "env t' (rows u')"
    by (auto simp: persist_rows_def dest: tx_committed)
  from opening_tx(2) [OF rows t(2) sound_run [OF env_run [OF t(1)] sound] calm]
  have "t' (request_key rt ?i) = Some (stored_item (stamped_opening rt conversation c student g message now))"
    by (simp add: request_key_def opening_fields)
  moreover have "mirrors ?i (stored_item (stamped_opening rt conversation c student g message now))"
    by (simp add: mirrors_def item_get_stored stamped_opening_get)
  ultimately show ?thesis
    using env_run [OF t(3)] unfolding read_then_def by (fastforce simp: opening_request)
qed

lemma ask_run:
  assumes call: "ask cd db he ix profiles conversation student message system_message oid now w = (r, w')"
    and sound: "sound_table (rows w)"
    and links: "\<And>s. reading (links_of_student ix s) rows env"
    and reads: "reading profiles rows env"
  shows "help_run (rows w) (rows w')"
proof -
  let ?rt = "he_rt he"
  let ?c = "str_or ?rt (item_get conversation ''conversation_id'') []"
  from call consider "w' = w" | g where "get_request db ?c w = (g, w')"
    | g w1 f where "get_request db ?c w = (g, w1)" "require_active_account_fence db student None w1 = (f, w')"
    | g w1 f w2 gen base x w3 where "get_request db ?c w = (g, w1)" "require_active_account_fence db student None w1 = (f, w2)"
        "opening_rows ?rt conversation ?c student gen message system_message now = Inr base"
        "admit_teacher_support_case cd db ?rt ix ?c ''conversation'' student (observed_at he now) (persist_rows db base) w2 = (x, w3)"
        "w' = w3 \<or> (\<exists>d a. x = Inr (d, a) \<and>
           ask_admitted db he profiles ?c (opening_record ?rt conversation ?c student gen message now) oid now d w3 = (r, w'))"
    by (auto simp: ask_def Let_def split: if_splits prod.splits sum.splits option.splits)
  then show ?thesis
  proof cases
    case 1
    then show ?thesis by simp
  next
    case 2
    show ?thesis by (rule env_run [OF get_request_env [OF 2]])
  next
    case 3
    show ?thesis by (rule env_run [OF env_trans [OF get_request_env [OF 3(1)] require_active_account_fence_env [OF 3(2)]]])
  next
    case 4
    let ?i = "opening_record ?rt conversation ?c student gen message now"
    have e: "help_run (rows w) (rows w2)"
      by (rule env_run [OF env_trans [OF get_request_env [OF 4(1)] require_active_account_fence_env [OF 4(2)]]])
    have persist: "calm_persist rows (persist_rows db base) w2"
    proof (rule persist_rows_calm [OF sound_run [OF e sound]])
      fix ops t t'
      assume "\<forall>x\<in>set ops. still x" "sound_table t" "tx_apply (base @ ops) t = Some t'"
      with opening_tx(1) [OF 4(3)] show "help_run t t'" by blast
    qed
    note a = admit_run [OF 4(4) links persist]
    have e3: "help_run (rows w) (rows w3)" by (rule help_run_trans [OF e a(1)])
    have "help_run (rows w3) (rows w')"
    proof (cases "w' = w3")
      case False
      with 4(5) obtain d ad where d: "x = Inr (d, ad)" "ask_admitted db he profiles ?c ?i oid now d w3 = (r, w')" by blast
      show ?thesis
      proof (cases "d = Case_Admitted")
        case True
        with a(2) d(1) obtain ops u where u: "help_run (rows w2) (rows u)" "\<forall>x\<in>set ops. still x"
            "persist_rows db base ops u = (True, w3)" by blast
        from opening_seen [OF 4(3) u(3) sound_run [OF help_run_trans [OF e u(1)] sound]] u(2)
        have read_then: "read_then ?rt ?i (rows w3)" by blast
        from d(2) True obtain y where "first_offer db he profiles ?i oid now w3 = (y, w')"
          by (auto simp: ask_admitted_def split: prod.splits)
        from first_offer_run [OF this sound_run [OF e3 sound] read_then reads] show ?thesis .
      next
        case False
        with d(2) have "w' = w3 \<or> (\<exists>g. get_request db ?c w3 = (g, w'))"
          by (auto simp: ask_admitted_def split: if_splits prod.splits sum.splits option.splits)
        then show ?thesis by (auto intro: env_run get_request_env)
      qed
    qed simp
    with e3 show ?thesis by (rule help_run_trans)
  qed
qed

end

section \<open>The sweep\<close>

text \<open>What a scan documents: it reads, and every request it lists was its conversation's row at some moment of the call.\<close>

definition listing :: "('k, 'w) page_scan \<Rightarrow> runtime \<Rightarrow> ('w \<Rightarrow> table) \<Rightarrow> (table \<Rightarrow> table \<Rightarrow> bool) \<Rightarrow> bool" where
  "listing scan rt rows env \<longleftrightarrow>
     (\<forall>k u x u'. scan k u = (x, u') \<longrightarrow> env (rows u) (rows u') \<and>
        (\<forall>page f i. x = Inr (page, f) \<longrightarrow> i \<in> set page \<longrightarrow> is_record i \<longrightarrow>
           (\<exists>t. env (rows u) t \<and> env t (rows u') \<and> t (request_key rt i) = Some i)))"

lemma listingD:
  assumes "listing scan rt rows env" "scan k u = (x, u')"
  shows "env (rows u) (rows u')"
    and "x = Inr (page, f) \<Longrightarrow> i \<in> set page \<Longrightarrow> is_record i \<Longrightarrow>
      \<exists>t. env (rows u) t \<and> env t (rows u') \<and> t (request_key rt i) = Some i"
  using assms by (auto simp: listing_def)

context help_client
begin

lemma seen_row_itself:
  assumes "t (request_key rt i) = Some i" "help_ok t" "help_run t t'"
  shows "read_then rt i t'"
proof -
  from assms(1,2) have "request_in i \<noteq> None" by (auto simp: request_key_def dest: help_okD)
  with assms(1,3) show ?thesis by (auto simp: read_then_def mirrors_def)
qed

lemma list_pages_run:
  assumes "list_pages scan n k items w = (r, w')" "listing scan rt rows env" "sound_table (rows w)"
    and "\<And>i. i \<in> set items \<Longrightarrow> read_then rt i (rows w)"
  shows "help_run (rows w) (rows w') \<and> (\<forall>is i. r = Inr is \<longrightarrow> i \<in> set is \<longrightarrow> read_then rt i (rows w'))"
  using assms(1,3,4)
proof (induction n arbitrary: k items w)
  case 0
  then show ?case by auto
next
  case (Suc n)
  obtain x w1 where s: "scan k w = (x, w1)" by fastforce
  note e = env_run [OF listingD(1) [OF assms(2) s]]
  show ?case
  proof (cases x)
    case (Inl y)
    with Suc.prems(1) s e show ?thesis by auto
  next
    case (Inr pf)
    then obtain page f where x: "x = Inr (page, f)" by (cases pf) auto
    have got: "read_then rt i (rows w1)" if "i \<in> set (items @ filter is_record page)" for i
    proof (cases "i \<in> set items")
      case True
      with Suc.prems(3) e show ?thesis by (blast intro: seen_run)
    next
      case False
      with that listingD(2) [OF assms(2) s x] obtain t where t: "env (rows w) t" "env t (rows w1)" "t (request_key rt i) = Some i" by auto
      from sound_run [OF env_run [OF t(1)] Suc.prems(2)] have "help_ok t" by (simp add: sound_table_def)
      from seen_row_itself [OF t(3) this env_run [OF t(2)]] show ?thesis .
    qed
    show ?thesis
    proof (cases "f = None \<or> f = k")
      case True
      with Suc.prems(1) s x e got show ?thesis by (auto simp: Let_def split: if_splits)
    next
      case False
      with Suc.prems(1) s x have "list_pages scan n f (items @ filter is_record page) w1 = (r, w')"
        by (auto simp: Let_def)
      from Suc.IH [OF this sound_run [OF e Suc.prems(2)] got] e show ?thesis by (blast intro: help_run_trans)
    qed
  qed
qed

lemma sweep_records_run:
  assumes "sweep_records cd db he profiles oid cutoff now records rep w = (r, w')" "sound_table (rows w)"
    and "\<And>i. i \<in> set records \<Longrightarrow> read_then (he_rt he) i (rows w)" and reads: "reading profiles rows env"
  shows "help_run (rows w) (rows w')"
  using assms(1-3)
proof (induction records arbitrary: rep w)
  case (Cons i records)
  obtain b w1 where s: "sweep_expiry cd db he cutoff now i w = (b, w1)" by fastforce
  then have e: "help_run (rows w) (rows w1)"
    using Cons.prems(2)
    by (auto simp: sweep_expiry_def split: if_splits prod.splits sum.splits option.splits intro: expire_run)
  have later: "\<And>u j. help_run (rows w) (rows u) \<Longrightarrow> j \<in> set (i # records) \<Longrightarrow> read_then (he_rt he) j (rows u)"
    using Cons.prems(3) seen_run by blast
  note IH = Cons.IH [OF _ sound_run [OF _ Cons.prems(2)] later]
  from Cons.prems(1) s consider rep' where "sweep_records cd db he profiles oid cutoff now records rep' w1 = (r, w')"
    | x w2 where "dispatch db he profiles i (oid (str_or (he_rt he) (item_get i ''conversation_id'') [])) now w1 = (x, w2)"
        "w' = w2 \<or> (\<exists>rep'. sweep_records cd db he profiles oid cutoff now records rep' w2 = (r, w'))"
    by (auto simp: Let_def split: bool.splits if_splits prod.splits sum.splits)
  then show ?case
  proof cases
    case 1
    have "help_run (rows w1) (rows w')" by (rule IH [OF 1]) (use e in auto)
    with e show ?thesis by (rule help_run_trans)
  next
    case 2
    have d: "help_run (rows w1) (rows w2)"
      by (rule dispatch_run [OF sound_run [OF e Cons.prems(2)] later [OF e] reads 2(1)]) simp
    from 2(2) show ?thesis
    proof (elim disjE exE)
      fix rep'
      assume r: "sweep_records cd db he profiles oid cutoff now records rep' w2 = (r, w')"
      have "help_run (rows w2) (rows w')" by (rule IH [OF r]) (use e d help_run_trans in auto)
      with d e show ?thesis by (blast intro: help_run_trans)
    qed (use e d in \<open>auto intro: help_run_trans\<close>)
  qed
qed simp

lemma sweep_run:
  assumes "sweep cd db he scan profiles oid now w = (r, w')" "sound_table (rows w)"
    and "listing scan (he_rt he) rows env" "reading profiles rows env"
  shows "help_run (rows w) (rows w')"
proof -
  obtain x w1 where l: "list_pages scan SCAN_PAGE_LIMIT None [] w = (x, w1)" by fastforce
  from list_pages_run [OF l assms(3,2)] have e: "help_run (rows w) (rows w1)"
    and got: "\<And>is i. x = Inr is \<Longrightarrow> i \<in> set is \<Longrightarrow> read_then (he_rt he) i (rows w1)" by auto
  show ?thesis
  proof (cases x)
    case (Inl y)
    with assms(1) l e show ?thesis by (auto simp: sweep_def list_open_def list_all_requests_def Let_def)
  next
    case (Inr listed)
    with assms(1) l obtain cutoff rep where
      "sweep_records cd db he profiles oid cutoff now (filter (\<lambda>i. stored_status (he_rt he) i = PENDING) listed) rep w1 = (r, w')"
      by (auto simp: sweep_def list_open_def list_all_requests_def Let_def)
    from sweep_records_run [OF this sound_run [OF e assms(2)] _ assms(4)] got [OF Inr] e
    show ?thesis by (auto intro: help_run_trans)
  qed
qed

end

end
