(* ===== verification/Help_World.thy ===== *)
theory Help_World
  imports Help_Serve
begin

text \<open>
  Help requests on a scripted table: servers that take calls one after another, each call with its
  separate reads and transactions, while other servers run calls of their own in between. The
  interface of the clients is discharged for this table and for a table one server has to itself.
\<close>

section \<open>Calls as a server takes them\<close>

datatype help_call =
    Ask_Teacher item string "string option" string string string
  | Offer_Request string string string
  | Take_Request string string string "string option" string
  | Reply_Request string string reply_text "(op list \<times> string list) option" string string string
  | Withdraw_Request string string string
  | Expire_Request string string string
  | Scrub_Request string string int string
  | Sweep_Requests string string

text \<open>What the index, the profile scan and the request scan answer on a table.\<close>

record help_reader =
  rd_links :: "string \<Rightarrow> table \<Rightarrow> item list"
  rd_teachers :: "table \<Rightarrow> item list"
  rd_requests :: "table \<Rightarrow> string list"

record 'w help_client_env =
  hc_codec :: codec
  hc_env :: help_env
  hc_links :: "'w link_index"
  hc_teachers :: "'w \<Rightarrow> item list result \<times> 'w"
  hc_scan :: "(unit, 'w) page_scan"

definition reader_client :: "codec \<Rightarrow> help_env \<Rightarrow> help_reader \<Rightarrow> ('w \<Rightarrow> table) \<Rightarrow> 'w help_client_env" where
  "reader_client cd he rd view =
     \<lparr>hc_codec = cd, hc_env = he,
      hc_links = \<lparr>links_of_parent = (\<lambda>p w. (Inr [], w)), links_of_student = (\<lambda>s w. (Inr (rd_links rd s (view w)), w))\<rparr>,
      hc_teachers = (\<lambda>w. (Inr (rd_teachers rd (view w)), w)),
      hc_scan = (\<lambda>k w. (Inr (filter (\<lambda>i. view w (request_key (he_rt he) i) = Some i)
        (List.map_filter (\<lambda>c. view w (help_key c)) (rd_requests rd (view w))), None), w))\<rparr>"

definition on_request :: "'w db \<Rightarrow> string \<Rightarrow> (item \<Rightarrow> 'w \<Rightarrow> 'a \<times> 'w) \<Rightarrow> 'w \<Rightarrow> 'w" where
  "on_request db c f w =
     (case get_request db c w of (Inr (Some i), w1) \<Rightarrow> snd (f i w1) | (_, w1) \<Rightarrow> w1)"

fun serve_help :: "'w db \<Rightarrow> 'w help_client_env \<Rightarrow> help_call \<Rightarrow> 'w \<Rightarrow> 'w" where
  "serve_help db hc (Ask_Teacher conversation s message text oid now) w =
     snd (ask (hc_codec hc) db (hc_env hc) (hc_links hc) (hc_teachers hc) conversation s message text oid now w)"
| "serve_help db hc (Offer_Request c oid now) w =
     on_request db c (\<lambda>i. dispatch db (hc_env hc) (hc_teachers hc) i oid now) w"
| "serve_help db hc (Take_Request c u target note now) w =
     on_request db c (\<lambda>i. take_or_finish db (he_rt (hc_env hc)) i u target note now) w"
| "serve_help db hc (Reply_Request c u rp images note m now) w =
     on_request db c (\<lambda>i. reply db (he_rt (hc_env hc)) i u rp images note m now) w"
| "serve_help db hc (Withdraw_Request c s now) w = snd (withdraw (hc_codec hc) db (hc_env hc) c s now w)"
| "serve_help db hc (Expire_Request c b now) w = snd (expire (hc_codec hc) db (hc_env hc) c b now w)"
| "serve_help db hc (Scrub_Request c u g now) w =
     on_request db c (\<lambda>i. scrub_teacher db (he_rt (hc_env hc)) i u g now) w"
| "serve_help db hc (Sweep_Requests oid now) w =
     snd (sweep (hc_codec hc) db (hc_env hc) (hc_scan hc) (hc_teachers hc) (\<lambda>c. oid @ c) now w)"

text \<open>The images' own operations, built by the attachment service, write none of the requests.\<close>

fun calm_call :: "help_call \<Rightarrow> bool" where
  "calm_call (Reply_Request c u rp images note m now) =
     (\<forall>x\<in>set (case images of None \<Rightarrow> [] | Some (xs, _) \<Rightarrow> xs). still x)"
| "calm_call call = True"

context help_client
begin

lemma on_request_run:
  assumes "on_request db c f w = w'" "sound_table (rows w)"
    and "\<And>i u x u'. f i u = (x, u') \<Longrightarrow> sound_table (rows u) \<Longrightarrow> read_then rt i (rows u) \<Longrightarrow> help_run (rows u) (rows u')"
  shows "help_run (rows w) (rows w')"
proof -
  obtain g w1 where g: "get_request db c w = (g, w1)" by fastforce
  note e = env_run [OF get_request_env [OF g]]
  show ?thesis
  proof (cases "\<exists>i. g = Inr (Some i)")
    case False
    with assms(1) g e show ?thesis by (auto simp: on_request_def split: sum.splits option.splits)
  next
    case True
    then obtain i where i: "g = Inr (Some i)" by blast
    from get_request_row [OF g [unfolded i]] have row: "rows w1 (help_key c) = Some i" .
    from sound_run [OF e assms(2)] have s: "sound_table (rows w1)" .
    with row obtain r where "request_in i = Some r" "rq_conversation r = c" by (auto simp: sound_table_def dest: help_okD)
    then have "request_key rt i = help_key c" by (simp add: request_key_def request_in_Some)
    with row s have "read_then rt i (rows w1)" by (intro seen_row_itself [of "rows w1"]) (simp_all add: sound_table_def)
    with assms(3) [of i w1 "fst (f i w1)" "snd (f i w1)"] s have "help_run (rows w1) (rows (snd (f i w1)))" by simp
    with assms(1) g i e show ?thesis by (auto simp: on_request_def intro: help_run_trans)
  qed
qed

lemma serve_help_run:
  assumes "sound_table (rows w)" "calm_call call"
    and links: "\<And>s. reading (links_of_student (hc_links hc) s) rows env" and teachers: "reading (hc_teachers hc) rows env"
    and scan: "listing (hc_scan hc) (he_rt (hc_env hc)) rows env"
  shows "help_run (rows w) (rows (serve_help db hc call w))"
proof (cases call)
  case (Ask_Teacher conversation s message words oid now)
  then show ?thesis using ask_run [OF prod.collapse [symmetric] assms(1) links teachers] by simp
next
  case (Offer_Request c oid now)
  show ?thesis unfolding Offer_Request serve_help.simps
    by (rule on_request_run [OF refl assms(1)]) (rule dispatch_run [OF _ _ teachers])
next
  case (Take_Request c u target nt now)
  show ?thesis unfolding Take_Request serve_help.simps take_or_finish_def
    by (rule on_request_run [OF refl assms(1), where rt = "he_rt (hc_env hc)"])
      (rule advance_run [where reply_ops = "[]"], simp_all)
next
  case (Reply_Request c u rp images nt m now)
  show ?thesis unfolding Reply_Request serve_help.simps
    by (rule on_request_run [OF refl assms(1), where rt = "he_rt (hc_env hc)"])
      (rule reply_run, use assms(2) Reply_Request in auto)
next
  case (Withdraw_Request c s now)
  then show ?thesis using withdraw_run [OF prod.collapse [symmetric] assms(1)] by simp
next
  case (Expire_Request c b now)
  then show ?thesis using expire_run [OF prod.collapse [symmetric] assms(1)] by simp
next
  case (Scrub_Request c u g now)
  show ?thesis unfolding Scrub_Request serve_help.simps
    by (rule on_request_run [OF refl assms(1)]) (rule scrub_run)
next
  case (Sweep_Requests oid now)
  then show ?thesis using sweep_run [OF prod.collapse [symmetric] assms(1) scan teachers] by simp
qed

lemma serve_all_run:
  assumes "sound_table (rows w)" "\<forall>call\<in>set calls. calm_call call"
    and links: "\<And>s. reading (links_of_student (hc_links hc) s) rows env" and teachers: "reading (hc_teachers hc) rows env"
    and scan: "listing (hc_scan hc) (he_rt (hc_env hc)) rows env"
  shows "help_run (rows w) (rows (fold (serve_help db hc) calls w))"
  using assms(1,2)
proof (induction calls arbitrary: w)
  case (Cons call calls)
  from serve_help_run [OF Cons.prems(1) _ links teachers scan] Cons.prems(2)
  have r: "help_run (rows w) (rows (serve_help db hc call w))" by simp
  from Cons.IH [OF sound_run [OF r Cons.prems(1)]] Cons.prems(2) r show ?case by (auto intro: help_run_trans)
qed simp

end

section \<open>The interface discharged\<close>

text \<open>A table one server has to itself.\<close>

interpretation lone_help: help_client table_db "\<lambda>t. t" "(=)"
  by unfold_locales simp

lemma reader_reads:
  assumes "\<And>t. env t t"
  shows "reading (links_of_student (hc_links (reader_client cd he rd view)) s) view env"
    and "reading (hc_teachers (reader_client cd he rd view)) view env"
    and "listing (hc_scan (reader_client cd he rd view)) (he_rt (hc_env (reader_client cd he rd view))) view env"
  using assms by (auto simp: reading_def listing_def reader_client_def)

text \<open>
  What another server does in between: a whole call, run on the table by itself. On a table whose
  requests are not sound it does nothing.
\<close>

definition run_help_call :: "codec \<Rightarrow> help_env \<Rightarrow> help_reader \<Rightarrow> help_call \<Rightarrow> table \<Rightarrow> table" where
  "run_help_call cd he rd call t =
     (if sound_table t \<and> calm_call call then serve_help table_db (reader_client cd he rd (\<lambda>t. t)) call t else t)"

lemma run_help_call_run: "help_run t (run_help_call cd he rd call t)"
  using lone_help.serve_help_run [of t call "reader_client cd he rd (\<lambda>t. t)", OF _ _ reader_reads]
  by (simp add: run_help_call_def)

lemma acts_help_run: "acts (run_help_call cd he rd) t t' \<Longrightarrow> help_run t t'"
proof -
  have "help_run u (fold (run_help_call cd he rd) cs u)" for cs u
    by (induction cs arbitrary: u) (auto intro: help_run_trans run_help_call_run)
  then show "acts (run_help_call cd he rd) t t' \<Longrightarrow> help_run t t'" by (auto simp: acts_def)
qed

interpretation shared_help: help_client "world_db (run_help_call cd he rd)" tbl "acts (run_help_call cd he rd)"
  for cd he rd
  by unfold_locales (rule acts_help_run)

text \<open>One server's calls among the others'.\<close>

definition help_served :: "codec \<Rightarrow> help_env \<Rightarrow> help_reader \<Rightarrow> help_call list \<Rightarrow> help_call world \<Rightarrow> help_call world" where
  "help_served cd he rd calls w = fold (serve_help (world_db (run_help_call cd he rd)) (reader_client cd he rd tbl)) calls w"

lemma served_run:
  assumes "sound_table (tbl w)" "\<forall>call\<in>set calls. calm_call call"
  shows "help_run (tbl w) (tbl (help_served cd he rd calls w))"
  unfolding help_served_def
  by (rule shared_help.serve_all_run [OF assms reader_reads [OF acts_refl]])

end
