(* ===== verification/Help_Properties.thy ===== *)
theory Help_Properties
  imports Help_World
begin

text \<open>
  The properties of help requests, each with a concrete request on which it applies: student \<open>s1\<close>
  asked in conversation \<open>c1\<close>, teachers \<open>t1\<close> and \<open>t2\<close> are available, and other servers act on the table.
\<close>

section \<open>A request\<close>

definition asked_row :: item where
  "asked_row = stored_item (stamped_opening plain_runtime
     (dict_of [(''conversation_id'', PStr ''c1''), (''student_id'', PStr ''s1''), (''subject'', PStr ''math'')])
     ''c1'' ''s1'' 1 None ''us0'')"

definition waiting_table :: table where
  "waiting_table = Map.empty(help_key ''c1'' \<mapsto> asked_row)"

definition plain_env :: help_env where
  "plain_env = \<lparr>he_rt = plain_runtime, he_iso = (\<lambda>n. ''us'' @ int_text n), he_clock = 0,
     he_expiry = 86400\<rparr>"

definition teacher_row :: "string \<Rightarrow> int \<Rightarrow> item" where
  "teacher_row u active = dict_of [(''PK'', PStr (''USER#'' @ u)), (''SK'', PStr ''PROFILE''), (''user_id'', PStr u),
     (''role'', PStr ''teacher''), (''account_status'', PStr ''active''), (''version'', PDec 3),
     (''account_fence_generation'', PInt 1), (''subjects'', PList [PStr ''Mathematics'']),
     (''dispatch_availability'', PStr ''available''), (''dispatch_active_count'', PInt active)]"

definition plain_reader :: help_reader where
  "plain_reader = \<lparr>rd_links = (\<lambda>s t. []), rd_teachers = (\<lambda>t. [teacher_row ''t1'' 1, teacher_row ''t2'' 0]),
     rd_requests = (\<lambda>t. [''c1''])\<rparr>"

lemma asked_request:
  "request_in asked_row = Some \<lparr>rq_conversation = ''c1'', rq_phase = Waiting, rq_holder = None, rq_offered = None,
     rq_tried = [], rq_version = 1\<rparr>"
  by (simp add: asked_row_def opening_request)

lemma asked_at: "request_at waiting_table ''c1'' = Some \<lparr>rq_conversation = ''c1'', rq_phase = Waiting, rq_holder = None,
     rq_offered = None, rq_tried = [], rq_version = 1\<rparr>"
  by (simp add: request_at_def waiting_table_def asked_request)

lemma asked_key: "item_key asked_row = Some (help_key ''c1'')"
  unfolding asked_row_def item_key_stored
  by (simp add: item_key_def stamped_opening_get opening_fields help_key_def conv_pk_def)

lemma one_request_sound:
  assumes "request_in i = Some r" "sound_request r" "rq_conversation r = c" "item_key i = Some (help_key c)"
  shows "sound_table (Map.empty(help_key c \<mapsto> i))"
  using assms by (auto simp: sound_table_def help_ok_def keyed_def split: if_splits)

lemma asked_sound: "sound_table waiting_table"
  unfolding waiting_table_def by (rule one_request_sound [OF asked_request _ _ asked_key]) (simp_all add: sound_request_def)

definition busy_help :: "help_call world" where
  "busy_help = \<lparr>tbl = waiting_table,
     script = [([Offer_Request ''c1'' ''o1'' ''us5''], Answered), ([Sweep_Requests ''o'' ''us9''], Answer_Lost),
               ([Withdraw_Request ''c1'' ''s1'' ''us9''], Dropped)]\<rparr>"

section \<open>Properties\<close>

text \<open>
  C34: whatever sequence of calls a server takes - asking, offering, taking, finishing, replying,
  withdrawing, expiring, taking a deleting teacher off, sweeping - among the calls of other
  servers, with calls dropped and answers lost, the requests stay sound: one that waits has no
  holder, one in progress has one, the holder is the teacher it was offered to, an ended one has
  neither holder nor offer, and nobody is offered a request that teacher let lapse.
\<close>

theorem requests_stay_sound:
  assumes "sound_table (tbl w)" and "\<forall>call\<in>set calls. calm_call call"
  shows "sound_table (tbl (help_served cd he rd calls w))"
  by (rule sound_run [OF served_run [OF assms] assms(1)])

theorem requests_stay_sound_witness:
  "sound_table (tbl (help_served plain_codec plain_env plain_reader
     [Offer_Request ''c1'' ''o2'' ''us20'', Take_Request ''c1'' ''t2'' IN_PROGRESS None ''us30'',
      Scrub_Request ''c1'' ''t2'' 1 ''us40'', Sweep_Requests ''x'' ''us50'', Withdraw_Request ''c1'' ''s1'' ''us60''] busy_help))"
  by (rule requests_stay_sound) (simp_all add: busy_help_def asked_sound)

text \<open>
  C35: the module refines the life of a request. Over any such sequence a conversation's request only
  ever takes the steps its module promises: offered, found without a candidate, ended, taken by the
  teacher it is offered to, moved on and replied to by its holder, and let go of by a teacher whose
  account goes.
\<close>

theorem requests_live_their_life:
  assumes "sound_table (tbl w)" and "\<forall>call\<in>set calls. calm_call call" and "request_at (tbl w) c = Some r"
  shows "\<exists>r'. request_at (tbl (help_served cd he rd calls w)) c = Some r' \<and> lifecycle\<^sup>*\<^sup>* r r'"
  by (rule help_run_life [OF served_run [OF assms(1,2)] assms(3)])

theorem requests_live_their_life_witness:
  "\<exists>r'. request_at (tbl (help_served plain_codec plain_env plain_reader
       [Offer_Request ''c1'' ''o2'' ''us20'', Withdraw_Request ''c1'' ''s1'' ''us60''] busy_help)) ''c1'' = Some r'
     \<and> lifecycle\<^sup>*\<^sup>* \<lparr>rq_conversation = ''c1'', rq_phase = Waiting, rq_holder = None, rq_offered = None, rq_tried = [],
         rq_version = 1\<rparr> r'"
  by (rule requests_live_their_life) (simp_all add: busy_help_def asked_sound asked_at)

text \<open>
  C36: an ending is final, and so is an answer. A request that was withdrawn or has expired is never
  taken, offered or reopened by any later calls, and a resolved one is never reopened; it keeps the
  state it ended in, whichever teacher is taken off it.
\<close>

lemma closed_stays:
  "lifecycle\<^sup>*\<^sup>* r r' \<Longrightarrow> sound_request r \<Longrightarrow> \<not> open_phase (rq_phase r) \<Longrightarrow> rq_phase r' = rq_phase r \<and> sound_request r'"
  by (induction rule: rtranclp_induct) (auto dest: lifecycle_closed lifecycle_sound)

lemma sound_at: "sound_table t \<Longrightarrow> request_at t c = Some r \<Longrightarrow> sound_request r"
  by (auto simp: sound_table_def request_at_def split: option.splits dest!: help_okD)

theorem ending_is_final:
  assumes "sound_table (tbl w)" and "\<forall>call\<in>set calls. calm_call call"
    and "request_at (tbl w) c = Some r" and "\<not> open_phase (rq_phase r)"
  shows "\<exists>r'. request_at (tbl (help_served cd he rd calls w)) c = Some r' \<and> rq_phase r' = rq_phase r
    \<and> (rq_phase r \<noteq> Finished \<longrightarrow> rq_holder r' = None \<and> rq_offered r' = None)"
proof -
  from help_run_life [OF served_run [OF assms(1,2)] assms(3)] obtain r' where
    r': "request_at (tbl (help_served cd he rd calls w)) c = Some r'" "lifecycle\<^sup>*\<^sup>* r r'" by blast
  from closed_stays [OF r'(2) sound_at [OF assms(1,3)] assms(4)]
  have "rq_phase r' = rq_phase r" "sound_request r'" by simp_all
  with r'(1) assms(4) show ?thesis by (cases "rq_phase r") (auto simp: sound_request_def open_phase_def)
qed

definition withdrawn_row :: item where
  "withdrawn_row = asked_row(''escalation_status'' \<mapsto> PStr WITHDRAWN)"

lemma withdrawn_request:
  "request_in withdrawn_row = Some \<lparr>rq_conversation = ''c1'', rq_phase = Taken_Back, rq_holder = None, rq_offered = None,
     rq_tried = [], rq_version = 1\<rparr>"
  using asked_request by (simp add: request_in_Some withdrawn_row_def row_lookup)

theorem ending_is_final_witness:
  "\<exists>r'. request_at (tbl (help_served plain_codec plain_env plain_reader
       [Offer_Request ''c1'' ''o2'' ''us20'', Take_Request ''c1'' ''t1'' IN_PROGRESS None ''us30'']
       \<lparr>tbl = Map.empty(help_key ''c1'' \<mapsto> withdrawn_row), script = []\<rparr>)) ''c1'' = Some r'
     \<and> rq_phase r' = Taken_Back"
proof -
  let ?t = "Map.empty(help_key ''c1'' \<mapsto> withdrawn_row)"
  have "item_key withdrawn_row = Some (help_key ''c1'')"
    using asked_key by (simp add: withdrawn_row_def item_key_def row_lookup)
  then have "sound_table ?t"
    by (intro one_request_sound [OF withdrawn_request]) (simp_all add: sound_request_def)
  moreover have "request_at ?t ''c1'' = Some \<lparr>rq_conversation = ''c1'', rq_phase = Taken_Back, rq_holder = None,
      rq_offered = None, rq_tried = [], rq_version = 1\<rparr>" by (simp add: request_at_def withdrawn_request)
  ultimately show ?thesis
    using ending_is_final [of "\<lparr>tbl = ?t, script = []\<rparr>"
        "[Offer_Request ''c1'' ''o2'' ''us20'', Take_Request ''c1'' ''t1'' IN_PROGRESS None ''us30'']" "''c1''" _
        plain_codec plain_env plain_reader]
    by (auto simp: open_phase_def)
qed

end
