(* ===== verification/Help_Taking.thy ===== *)
theory Help_Taking
  imports Help_World
begin

text \<open>
  What a teacher's first move on a request and an offer answer for, whatever other servers do
  meanwhile: the moment the write committed, with the rows it found there.
\<close>

section \<open>A teacher on duty\<close>

definition on_duty :: "table \<Rightarrow> string \<Rightarrow> bool" where
  "on_duty t u \<longleftrightarrow>
     (\<exists>g. fence_active t u g)
     \<and> (\<exists>p role. t (''USER#'' @ u, ''PROFILE'') = Some p \<and> item_get p ''user_id'' = PStr u
          \<and> item_get p ''account_status'' = PStr ''active'' \<and> item_get p ''role'' = PStr role
          \<and> lower role \<in> set ELIGIBLE_ROLES)"

lemma profile_found:
  assumes "op_ok t (profile_condition u role v)"
  obtains p where "t (''USER#'' @ u, ''PROFILE'') = Some p" "item_get p ''user_id'' = PStr u"
    "item_get p ''account_status'' = PStr ''active''" "item_get p ''role'' = PStr role"
  using assms by (auto simp: profile_condition_def row_at_def item_get_def split: option.splits)

lemma assignment_on_duty:
  assumes "teacher_assignment_conditions u role g v = Inr ops" "\<And>x. x \<in> set ops \<Longrightarrow> op_ok t x"
    and "lower role \<in> set ELIGIBLE_ROLES"
  shows "on_duty t u"
proof -
  from assms(1) obtain fence where f: "active_fence_condition u (Some g) = Inr fence" and ops: "ops = [fence, profile_condition u role v]"
    by (auto simp: teacher_assignment_conditions_def split: sum.splits)
  from ops assms(2) have "op_ok t fence" "op_ok t (profile_condition u role v)" by simp_all
  from active_fence_op_ok [OF f this(1)] profile_found [OF this(2)] assms(3) show ?thesis
    unfolding on_duty_def by metis
qed

lemma standing_on_duty:
  assumes "teacher_standing_conditions db rt u w = (Inr ops, w')" "\<And>x. x \<in> set ops \<Longrightarrow> op_ok t x"
  shows "on_duty t u"
proof -
  from assms(1) obtain p g where ops: "teacher_assignment_conditions u (py_str rt (item_get p ''role'')) g
        (int_or (item_get p ''version'') 0) = Inr ops"
      and role: "lower (str_or rt (item_get p ''role'') []) \<in> set ELIGIBLE_ROLES"
    by (auto simp: teacher_standing_conditions_def split: prod.splits response.splits sum.splits if_splits)
  from role have "lower (py_str rt (item_get p ''role'')) \<in> set ELIGIBLE_ROLES"
    by (auto simp: str_or_def ELIGIBLE_ROLES_def lower_def split: if_splits)
  from assignment_on_duty [OF ops assms(2) this] show ?thesis .
qed

section \<open>Taking\<close>

text \<open>
  The moment a teacher takes a request: it waits, its live offer is this teacher's, who has not let
  it lapse before and is on duty; afterwards the teacher holds it.
\<close>

definition taken_at :: "runtime \<Rightarrow> item \<Rightarrow> string \<Rightarrow> string \<Rightarrow> string \<Rightarrow> table \<Rightarrow> table \<Rightarrow> bool" where
  "taken_at rt record u target now t t' \<longleftrightarrow>
     (\<exists>c i r. request_key rt record = help_key c \<and> t (help_key c) = Some i \<and> request_in i = Some r
        \<and> rq_phase r = Waiting \<and> rq_holder r = None \<and> rq_offered r = Some u \<and> u \<notin> set (rq_tried r)
        \<and> cond_holds (C_After ''dispatch_deadline_at'' now) i
        \<and> on_duty t u \<and> (\<exists>g. fence_active t (str_or rt (item_get record ''student_id'') []) g)
        \<and> request_at t' c = Some (taken_request r u target))"

context help_client
begin

lemma help_transact_done:
  assumes "help_transact db ops written w = (Inr x, w')"
  obtains t t' where "env (rows w) t" "tx_apply ops t = Some t'" "env t' (rows w')"
proof -
  from assms have "db_tx db ops w = (True, w')"
    by (auto simp: help_transact_def split: prod.splits bool.splits)
  from tx_committed [OF this] that show thesis by blast
qed

lemma fenced_write_done:
  assumes "help_write db rt record changes remove condition extra True w = (Inr x, w')"
  obtains fence t t' where
    "active_fence_condition (str_or rt (item_get record ''student_id'') []) (Some (int_or (item_get record ''account_fence_generation'') 1)) = Inr fence"
    "env (rows w) t" "env t' (rows w')"
    "tx_apply (fence # update_operation rt record changes remove condition # extra) t = Some t'"
proof -
  from assms obtain fence where "active_fence_condition (str_or rt (item_get record ''student_id'') [])
        (Some (int_or (item_get record ''account_fence_generation'') 1)) = Inr fence"
      "help_transact db (fence # update_operation rt record changes remove condition # extra)
        (written_record record changes remove) w = (Inr x, w')"
    by (cases "active_fence_condition (str_or rt (item_get record ''student_id'') [])
        (Some (int_or (item_get record ''account_fence_generation'') 1))") (simp_all add: help_write_def)
  then show thesis by (elim help_transact_done) (rule that)
qed

lemma take_or_finish_steps:
  assumes "take_or_finish db rt record u target nt now w = (Inr x, w')" "holder_of rt record = []"
  obtains standing w1 where "target \<in> {IN_PROGRESS, RESOLVED}" "teacher_standing_conditions db rt u w = (Inr standing, w1)"
    "help_write db rt record (target_changes record u target now True False nt) []
       (accept_condition u (str_or rt (item_get record ''dispatch_id'') []) now) standing True w1 = (Inr x, w')"
proof -
  obtain s w1 where s: "teacher_standing_conditions db rt u w = (s, w1)" by fastforce
  with assms that show thesis
    by (cases s) (simp_all add: take_or_finish_def advance_def split: if_splits)
qed

lemma taking:
  assumes call: "take_or_finish db rt record u target nt now w = (Inr x, w')" and free: "holder_of rt record = []"
    and sound: "sound_table (rows w)"
  shows "\<exists>t t'. env (rows w) t \<and> env t' (rows w') \<and> taken_at rt record u target now t t'"
proof -
  let ?changes = "target_changes record u target now True False nt"
  let ?cnd = "accept_condition u (str_or rt (item_get record ''dispatch_id'') []) now"
  obtain standing w1 where target: "target \<in> {IN_PROGRESS, RESOLVED}"
      and s: "teacher_standing_conditions db rt u w = (Inr standing, w1)"
      and wr: "help_write db rt record ?changes [] ?cnd standing True w1 = (Inr x, w')"
    by (rule take_or_finish_steps [OF call free])
  obtain fence t t' where fence: "active_fence_condition (str_or rt (item_get record ''student_id'') [])
        (Some (int_or (item_get record ''account_fence_generation'') 1)) = Inr fence"
      and e: "env (rows w1) t" "env t' (rows w')"
      and tx: "tx_apply (fence # update_operation rt record ?changes [] ?cnd # standing) t = Some t'"
    by (rule fenced_write_done [OF wr])
  have to: "env (rows w) t" by (rule env_trans [OF standing_env(1) [OF s] e(1)])
  have ok: "help_ok t" using sound_run [OF env_run [OF to] sound] by (simp add: sound_table_def)
  note holds = tx_applyD(2) [OF tx]
  obtain c i r where row: "request_key rt record = help_key c" "t (help_key c) = Some i" "request_in i = Some r"
      "sound_request r" "rq_version r = read_version record" "cond_holds ?cnd i"
      "t' (help_key c) = Some (changed_row (read_version record) ?changes [] i)"
  proof (rule update_found [OF tx ok])
    show "\<forall>y\<in>set (fence # update_operation rt record ?changes [] ?cnd # standing).
        y = update_operation rt record ?changes [] ?cnd \<or> still y"
      using fence_quiet [OF fence] standing_env(2) [OF s] by auto
  qed simp_all
  note offer = accepted_offer [OF row(3,6)]
  moreover from offer(3) row(4) have "u \<notin> set (rq_tried r)" by (simp add: sound_request_def)
  moreover have "on_duty t u" by (rule standing_on_duty [OF s]) (use holds in auto)
  moreover have "fence_active t (str_or rt (item_get record ''student_id'') []) (int_or (item_get record ''account_fence_generation'') 1)"
    by (rule active_fence_op_ok [OF fence]) (use holds in auto)
  moreover from take_next(1) [OF row(3,5,6) target, of "record" False nt] row(7)
  have "request_at t' c = Some (taken_request r u target)" by (simp add: request_at_def)
  ultimately have "taken_at rt record u target now t t'" unfolding taken_at_def using row(1-3) by blast
  with to e(2) show ?thesis by blast
qed

end

end
