(* ===== verification/Help_Offer.thy ===== *)
theory Help_Offer
  imports Help_Taking
begin

text \<open>
  What an offer comes to on a table nobody else changes: when anybody may have the request, the best of
  them gets it.
\<close>

section \<open>The conditions of the write hold\<close>

lemma pending_holds:
  assumes "request_in i = Some r" "rq_phase r = Waiting" "rq_holder r = None"
  shows "cond_holds still_pending i" and "stored_status rt i = PENDING" and "item_get i ''teacher_id'' = PNone"
proof -
  from assms(1,2) have s: "item_get i ''escalation_status'' = PStr PENDING"
    by (auto simp: request_in_Some phase_of_def split: if_splits)
  then have "i ''escalation_status'' = Some (PStr PENDING)" by (auto simp: item_get_def split: option.splits)
  moreover from assms(1,3) have "i ''teacher_id'' = None" by (auto simp: request_in_Some teacher_at_Some)
  ultimately show "cond_holds still_pending i" "item_get i ''teacher_id'' = PNone"
    by (simp_all add: still_pending_def item_get_def)
  from s show "stored_status rt i = PENDING" by (simp add: stored_status_def help_words)
qed

text \<open>The profile a plan was made of, as it is stored.\<close>

definition profile_current :: "table \<Rightarrow> dispatch_teacher \<Rightarrow> bool" where
  "profile_current t p \<longleftrightarrow>
     strip (dt_id p) \<noteq> [] \<and> fence_active t (dt_id p) (dt_generation p)
     \<and> (case t (''USER#'' @ dt_id p, ''PROFILE'') of
          None \<Rightarrow> False
        | Some q \<Rightarrow> q ''PK'' \<noteq> None \<and> q ''SK'' \<noteq> None \<and> item_get q ''user_id'' = PStr (dt_id p) \<and> item_get q ''role'' = PStr (dt_role p)
            \<and> item_get q ''account_status'' = PStr ''active'' \<and> as_stored (item_get q ''version'') = PDec (of_int (dt_profile_version p)))"

lemma assignment_holds:
  assumes "profile_current t p" "1 \<le> dt_generation p"
  obtains fc where
    "teacher_assignment_conditions (dt_id p) (dt_role p) (dt_generation p) (dt_profile_version p)
       = Inr [Check (''USER#'' @ strip (dt_id p), ''ACCOUNT_FENCE'') fc, profile_condition (dt_id p) (dt_role p) (dt_profile_version p)]"
    "op_ok t (Check (''USER#'' @ strip (dt_id p), ''ACCOUNT_FENCE'') fc)" "op_ok t (profile_condition (dt_id p) (dt_role p) (dt_profile_version p))"
proof -
  from assms have "fence_active t (dt_id p) (dt_generation p)" "strip (dt_id p) \<noteq> []" by (simp_all add: profile_current_def)
  then obtain c where c: "active_fence_condition (dt_id p) (Some (dt_generation p)) = Inr (Check (''USER#'' @ strip (dt_id p), ''ACCOUNT_FENCE'') c)"
      "op_ok t (Check (''USER#'' @ strip (dt_id p), ''ACCOUNT_FENCE'') c)"
    by (rule fence_condition_holds [OF _ assms(2)])
  have "op_ok t (profile_condition (dt_id p) (dt_role p) (dt_profile_version p))"
    using assms(1)
    by (auto simp: profile_current_def profile_condition_def row_at_def item_get_def split: option.splits)
  with c that show thesis by (simp add: teacher_assignment_conditions_def)
qed

text \<open>And only then do they hold.\<close>

lemma assignment_fails:
  assumes "teacher_assignment_conditions (dt_id p) (dt_role p) (dt_generation p) (dt_profile_version p) = Inr extra"
    and "\<not> profile_current t p"
  shows "tx_apply (oper # extra) t = None"
proof -
  from assms(1) obtain fence where f: "active_fence_condition (dt_id p) (Some (dt_generation p)) = Inr fence"
      and extra: "extra = [fence, profile_condition (dt_id p) (dt_role p) (dt_profile_version p)]"
    by (auto simp: teacher_assignment_conditions_def split: sum.splits)
  from f have named: "strip (dt_id p) \<noteq> []"
    by (auto simp: active_fence_condition_def account_fence_key_def required_user_def split: if_splits sum.splits)
  have "profile_current t p" if ok: "op_ok t fence" "op_ok t (profile_condition (dt_id p) (dt_role p) (dt_profile_version p))"
  proof -
    have "fence_active t (dt_id p) (dt_generation p)" using active_fence_op_ok [OF f ok(1)] .
    with ok(2) named show ?thesis
      by (auto simp: profile_current_def profile_condition_def row_at_def item_get_def db_eq_def split: option.splits)
  qed
  with assms(2) show ?thesis by (auto simp: tx_apply_def extra)
qed

lemma exact_stored: "exact_int v = Some n \<Longrightarrow> as_stored v = PDec (of_int n)"
  by (cases v) (auto dest: rat_whole_SomeD)

lemma offer_transaction:
  assumes row: "t (request_key rt i) = Some i" "request_in i = Some r" and waits: "rq_phase r = Waiting" "rq_holder r = None"
    and p: "profile_current t p" "1 \<le> dt_generation p"
    and plain: "plain_changes changes remove"
  obtains extra where
    "teacher_assignment_conditions (dt_id p) (dt_role p) (dt_generation p) (dt_profile_version p) = Inr extra"
    "\<exists>t'. tx_apply (update_operation rt i changes remove still_pending # extra) t = Some t'
       \<and> t' (request_key rt i) = Some (changed_row (read_version i) changes remove i)"
proof -
  let ?op = "update_operation rt i changes remove still_pending"
  obtain fc where a: "teacher_assignment_conditions (dt_id p) (dt_role p) (dt_generation p) (dt_profile_version p)
        = Inr [Check (''USER#'' @ strip (dt_id p), ''ACCOUNT_FENCE'') fc, profile_condition (dt_id p) (dt_role p) (dt_profile_version p)]"
      and ok: "op_ok t (Check (''USER#'' @ strip (dt_id p), ''ACCOUNT_FENCE'') fc)" "op_ok t (profile_condition (dt_id p) (dt_role p) (dt_profile_version p))"
    by (rule assignment_holds [OF p])
  have "read_version i = rq_version r" by (rule mirrors_version [OF _ row(2)]) (simp add: mirrors_def)
  with row(2) have "cond_holds (C_Eq ''version'' (PInt (read_version i))) i"
    by (subst cond_eq_get) (auto simp: request_in_Some dest: exact_stored)
  with pending_holds(1) [OF row(2) waits] row have "op_ok t ?op"
    by (simp add: update_operation_def Let_def row_at_def request_in_Some)
  with ok have "tx_apply [?op, Check (''USER#'' @ strip (dt_id p), ''ACCOUNT_FENCE'') fc, profile_condition (dt_id p) (dt_role p) (dt_profile_version p)] t
      = Some (op_write ?op t)"
    by (simp add: tx_apply_def update_operation_def Let_def profile_condition_def request_key_def help_key_def)
  moreover from row(1) have "op_write ?op t (request_key rt i) = Some (changed_row (read_version i) changes remove i)"
    by (simp add: update_operation_def Let_def updated_row_def update_row [OF plain])
  ultimately show thesis using that [OF a] by simp
qed

section \<open>The offer\<close>

lemma plan_chooses:
  assumes "p \<in> set ps" "refusal_reason rt subject previous (normalize_teacher_profile rt p) = None"
  obtains c cs where "selected (plan_dispatch rt subject previous now ps) = c # cs"
    "c \<in> set (ranked_candidates rt subject previous now ps)" "cand_refusal c = None"
    "\<forall>d\<in>set (ranked_candidates rt subject previous now ps). cand_refusal d = None \<longrightarrow> cand_score c \<le> cand_score d"
proof -
  let ?cs = "ranked_candidates rt subject previous now ps"
  have sel: "set (selected (plan_dispatch rt subject previous now ps)) = {c \<in> set ?cs. cand_refusal c = None}"
    by (auto simp: plan_dispatch_def Let_def)
  from assms have "candidate_payload rt now None (normalize_teacher_profile rt p) \<in> set (selected (plan_dispatch rt subject previous now ps))"
    unfolding plan_selected Let_def by blast
  then obtain c cs where c: "selected (plan_dispatch rt subject previous now ps) = c # cs"
    by (cases "selected (plan_dispatch rt subject previous now ps)") auto
  with plan_best [OF c] sel have "\<forall>d\<in>set ?cs. cand_refusal d = None \<longrightarrow> cand_score c \<le> cand_score d"
    by (metis (mono_tags, lifting) mem_Collect_eq order_refl set_ConsD)
  moreover from c sel have "c \<in> {c \<in> set ?cs. cand_refusal c = None}" by (metis list.set_intros(1))
  ultimately show thesis using that [OF c] by simp
qed

text \<open>Every teacher a plan selects is ready, as far as the profile it was read from says.\<close>

lemma selected_profile:
  assumes "c \<in> set (ranked_candidates rt subject previous now ps)" "cand_refusal c = None"
  obtains p where "p \<in> set ps" "cand_teacher c = normalize_teacher_profile rt p"
    "refusal_reason rt subject previous (cand_teacher c) = None" "1 \<le> dt_generation (cand_teacher c)"
proof -
  from assms(1) obtain p where p: "p \<in> set ps" and c: "c = candidate_payload rt now
      (refusal_reason rt subject previous (normalize_teacher_profile rt p)) (normalize_teacher_profile rt p)"
    by (auto simp: ranked_candidates_def Let_def)
  from c assms(2) have r: "refusal_reason rt subject previous (cand_teacher c) = None" "cand_teacher c = normalize_teacher_profile rt p"
    by (simp_all add: candidate_payload_def)
  from refusal_NoneD(3) [OF r(1)] have "1 \<le> dt_generation (cand_teacher c)"
    by (simp add: standing_refusal_def split: if_splits)
  with that p r show thesis by blast
qed

text \<open>The computed rank of a teacher a plan may select is near the exact one.\<close>

lemma ranked_close:
  assumes "c \<in> set (ranked_candidates rt subject previous now ps)" "cand_refusal c = None"
  shows "\<bar>cand_score c - exact_rank rt now (cand_teacher c)\<bar> \<le> 51 / 10000"
proof -
  from assms(1) obtain p where c: "c = candidate_payload rt now
      (refusal_reason rt subject previous (normalize_teacher_profile rt p)) (normalize_teacher_profile rt p)"
    by (auto simp: ranked_candidates_def Let_def)
  with assms(2) have r: "refusal_reason rt subject previous (normalize_teacher_profile rt p) = None"
    by (simp add: candidate_payload_def)
  have "0 \<le> dt_active (normalize_teacher_profile rt p)" by (simp add: normalize_teacher_profile_def)
  from score_close [OF r this, where refusal = None] show ?thesis by (simp add: c r) (simp add: candidate_payload_def)
qed

lemma quiet_offer:
  fixes w :: "'c world"
  assumes row: "tbl w (help_key c) = Some i" "request_in i = Some r" "rq_conversation r = c"
    and waits: "rq_phase r = Waiting" "rq_holder r = None" "\<not> live_offer (he_rt he) i now"
    and silent: "script w = []" and profiles: "profiles w = (Inr ps, w)"
    and someone: "p \<in> set ps" "refusal_reason (he_rt he) (item_get i ''subject'') (previous_teachers (he_rt he) i now)
       (normalize_teacher_profile (he_rt he) p) = None"
  shows "\<exists>k x w'. dispatch (world_db act) he profiles i oid now w = (x, w')
    \<and> k \<in> set (ranked_candidates (he_rt he) (item_get i ''subject'') (previous_teachers (he_rt he) i now) now ps)
    \<and> cand_refusal k = None
    \<and> (\<forall>d\<in>set (ranked_candidates (he_rt he) (item_get i ''subject'') (previous_teachers (he_rt he) i now) now ps).
        cand_refusal d = None \<longrightarrow> cand_score k \<le> cand_score d
          \<and> exact_rank (he_rt he) now (cand_teacher k) \<le> exact_rank (he_rt he) now (cand_teacher d) + 11 / 1000)
    \<and> (if profile_current (tbl w) (cand_teacher k)
       then (\<exists>y. x = Inr y) \<and> request_at (tbl w') c
         = Some (offered_request r (dt_id (cand_teacher k)) (previous_teachers (he_rt he) i now))
       else w' = w)"
proof -
  let ?rt = "he_rt he"
  let ?previous = "previous_teachers ?rt i now"
  obtain k cs where k: "selected (plan_dispatch ?rt (item_get i ''subject'') ?previous now ps) = k # cs"
      "k \<in> set (ranked_candidates ?rt (item_get i ''subject'') ?previous now ps)" "cand_refusal k = None"
      "\<forall>d\<in>set (ranked_candidates ?rt (item_get i ''subject'') ?previous now ps). cand_refusal d = None \<longrightarrow> cand_score k \<le> cand_score d"
    by (rule plan_chooses [OF someone])
  obtain q where q: "q \<in> set ps" "cand_teacher k = normalize_teacher_profile ?rt q"
      "refusal_reason ?rt (item_get i ''subject'') ?previous (cand_teacher k) = None" "1 \<le> dt_generation (cand_teacher k)"
    by (rule selected_profile [OF k(2,3)])
  let ?u = "cand_teacher k"
  let ?changes = "offer_changes i (dt_id ?u) oid (deadline_of he now) ?previous now"
  have key: "request_key ?rt i = help_key c" using row by (simp add: request_key_def request_in_Some)
  have pending: "stored_status ?rt i = PENDING" "\<not> truthy (item_get i ''teacher_id'')"
    using pending_holds(2,3) [OF row(2) waits(1,2)] by simp_all
  have offer: "dispatch (world_db act) he profiles i oid now w = make_offer (world_db act) he i ?u oid ?previous now w"
    using pending waits(3) by (simp add: dispatch_def profiles k(1))
  have best: "\<forall>d\<in>set (ranked_candidates ?rt (item_get i ''subject'') ?previous now ps). cand_refusal d = None \<longrightarrow>
      cand_score k \<le> cand_score d \<and> exact_rank ?rt now (cand_teacher k) \<le> exact_rank ?rt now (cand_teacher d) + 11 / 1000"
  proof (intro ballI impI conjI)
    fix d
    assume d: "d \<in> set (ranked_candidates ?rt (item_get i ''subject'') ?previous now ps)" "cand_refusal d = None"
    with k(4) show s: "cand_score k \<le> cand_score d" by blast
    from ranked_close [OF k(2,3)] ranked_close [OF d] s
    show "exact_rank ?rt now (cand_teacher k) \<le> exact_rank ?rt now (cand_teacher d) + 11 / 1000" by linarith
  qed
  have "if profile_current (tbl w) ?u
      then \<exists>y w'. make_offer (world_db act) he i ?u oid ?previous now w = (Inr y, w')
        \<and> request_at (tbl w') c = Some (offered_request r (dt_id ?u) ?previous)
      else \<exists>x. make_offer (world_db act) he i ?u oid ?previous now w = (x, w)"
  proof (cases "profile_current (tbl w) ?u")
    case current: True
    obtain extra where extra: "teacher_assignment_conditions (dt_id ?u) (dt_role ?u) (dt_generation ?u) (dt_profile_version ?u) = Inr extra"
        and tx: "\<exists>t'. tx_apply (update_operation ?rt i ?changes NO_CANDIDATE_FIELDS still_pending # extra) (tbl w) = Some t'
          \<and> t' (request_key ?rt i) = Some (changed_row (read_version i) ?changes NO_CANDIDATE_FIELDS i)"
      by (rule offer_transaction [where rt = ?rt, OF _ row(2) waits(1,2) current q(4)
          changes_plain(1) [of i "dt_id ?u" oid "deadline_of he now" ?previous now]]) (simp_all add: row key)
    from tx obtain t' where t': "tx_apply (update_operation ?rt i ?changes NO_CANDIDATE_FIELDS still_pending # extra) (tbl w) = Some t'"
        "t' (help_key c) = Some (changed_row (read_version i) ?changes NO_CANDIDATE_FIELDS i)" by (auto simp: key)
    have call: "make_offer (world_db act) he i ?u oid ?previous now w
        = (Inr (written_record i ?changes NO_CANDIDATE_FIELDS), w\<lparr>tbl := t'\<rparr>)"
      using t'(1) silent
      by (simp add: make_offer_def extra help_write_def help_transact_def world_db_def world_tx_def next_event_def Let_def)
    have m: "mirrors i i" by (simp add: mirrors_def)
    from offer_next(1) [OF row(2) mirrors_version [OF m row(2), symmetric] pending_holds(1) [OF row(2) waits(1,2)]
        refusal_NoneD(1,2) [OF q(3)] previous_keeps [OF m row(2)]]
    have "request_at t' c = Some (offered_request r (dt_id ?u) ?previous)" by (simp add: request_at_def t'(2))
    with call current show ?thesis by simp
  next
    case False
    have "\<exists>x. make_offer (world_db act) he i ?u oid ?previous now w = (x, w)"
    proof (cases "teacher_assignment_conditions (dt_id ?u) (dt_role ?u) (dt_generation ?u) (dt_profile_version ?u)")
      case (Inr extra)
      with assignment_fails [OF Inr False] silent show ?thesis
        by (simp add: make_offer_def help_write_def help_transact_def world_db_def world_tx_def next_event_def Let_def)
    qed (simp add: make_offer_def)
    with False show ?thesis by simp
  qed
  with offer k(2,3) best show ?thesis by (auto split: if_splits)
qed

section \<open>A take of a live offer\<close>

text \<open>On a table nobody else changes, a teacher on duty takes the offer they hold.\<close>

lemma standing_answers:
  assumes r: "reads_as db w t" and p: "profile_current t p" "1 \<le> dt_generation p" "lower (dt_role p) \<in> set ELIGIBLE_ROLES" "dt_role p \<noteq> []"
  obtains fc where "teacher_standing_conditions db rt (dt_id p) w
      = (Inr [Check (''USER#'' @ strip (dt_id p), ''ACCOUNT_FENCE'') fc, profile_condition (dt_id p) (dt_role p) (dt_profile_version p)], w)"
    "op_ok t (Check (''USER#'' @ strip (dt_id p), ''ACCOUNT_FENCE'') fc)" "op_ok t (profile_condition (dt_id p) (dt_role p) (dt_profile_version p))"
proof -
  from p(1) obtain q where q: "t (''USER#'' @ dt_id p, ''PROFILE'') = Some q" "item_get q ''account_status'' = PStr ''active''"
      "item_get q ''role'' = PStr (dt_role p)" "int_or (item_get q ''version'') 0 = dt_profile_version p"
      "fence_active t (dt_id p) (dt_generation p)" "strip (dt_id p) \<noteq> []"
    by (auto simp: profile_current_def int_or_def dest: py_int_as_stored split: option.splits)
  obtain fence where fence: "require_active_account_fence db (dt_id p) None w = (Inr fence, w)" "fence_generation fence = dt_generation p"
    by (rule fence_read_passes [OF q(5) p(2) q(6) r])
  obtain fc where a: "teacher_assignment_conditions (dt_id p) (dt_role p) (dt_generation p) (dt_profile_version p)
        = Inr [Check (''USER#'' @ strip (dt_id p), ''ACCOUNT_FENCE'') fc, profile_condition (dt_id p) (dt_role p) (dt_profile_version p)]"
      and ok: "op_ok t (Check (''USER#'' @ strip (dt_id p), ''ACCOUNT_FENCE'') fc)" "op_ok t (profile_condition (dt_id p) (dt_role p) (dt_profile_version p))"
    by (rule assignment_holds [OF p(1,2)])
  show thesis
  proof (rule that [OF _ ok])
    show "teacher_standing_conditions db rt (dt_id p) w
      = (Inr [Check (''USER#'' @ strip (dt_id p), ''ACCOUNT_FENCE'') fc, profile_condition (dt_id p) (dt_role p) (dt_profile_version p)], w)"
      using q(1-4) p(3,4) a
      by (simp add: teacher_standing_conditions_def reads_as_get [OF r] fence str_or_def)
  qed
qed

lemma quiet_take:
  assumes reads: "reads_as db w t" and tx: "\<And>ops t'. tx_apply ops t = Some t' \<Longrightarrow> \<exists>w'. db_tx db ops w = (True, w')"
    and row: "t (request_key rt i) = Some i" "request_in i = Some r"
    and offer: "rq_phase r = Waiting" "rq_holder r = None" "rq_offered r = Some (dt_id p)" "dt_id p \<notin> set (rq_tried r)"
      "item_get i ''dispatch_status'' = PStr ''dispatched''" "item_get i ''dispatch_id'' = PStr oid" "oid \<noteq> []"
      "cond_holds (C_After ''dispatch_deadline_at'' now) i"
    and p: "profile_current t p" "1 \<le> dt_generation p" "lower (dt_role p) \<in> set ELIGIBLE_ROLES" "dt_role p \<noteq> []"
    and s: "item_get i ''student_id'' = PStr s" "strip s \<noteq> []" "strip s \<noteq> strip (dt_id p)"
      "int_or (item_get i ''account_fence_generation'') 1 = g" "1 \<le> g" "fence_active t s g"
    and target: "target \<in> {IN_PROGRESS, RESOLVED}"
  shows "\<exists>x w'. take_or_finish db rt i (dt_id p) target nt now w = (Inr x, w')"
proof -
  let ?u = "dt_id p"
  let ?changes = "target_changes i ?u target now True False nt"
  let ?op = "update_operation rt i ?changes [] (accept_condition ?u oid now)"
  obtain fc where standing: "teacher_standing_conditions db rt ?u w
        = (Inr [Check (''USER#'' @ strip ?u, ''ACCOUNT_FENCE'') fc, profile_condition ?u (dt_role p) (dt_profile_version p)], w)"
      "op_ok t (Check (''USER#'' @ strip ?u, ''ACCOUNT_FENCE'') fc)" "op_ok t (profile_condition ?u (dt_role p) (dt_profile_version p))"
    by (rule standing_answers [OF reads p])
  obtain sc where student: "active_fence_condition s (Some g) = Inr (Check (''USER#'' @ strip s, ''ACCOUNT_FENCE'') sc)"
      "op_ok t (Check (''USER#'' @ strip s, ''ACCOUNT_FENCE'') sc)"
    by (rule fence_condition_holds [OF s(6,5,2)])
  note waits = pending_holds [OF row(2) offer(1,2)]
  have u: "?u \<noteq> []" "offered_to rt i = ?u"
    using row(2) offer(3) by (auto simp: request_in_Some teacher_at_Some offered_to_def item_get_def split: option.splits)
  have m: "mirrors i i" by (simp add: mirrors_def)
  have tried: "\<not> list_has (item_get i ''previous_dispatch_teacher_ids'') ?u"
    using mirrors_request(3) [OF m row(2)] offer(4) by (cases "item_get i ''previous_dispatch_teacher_ids''") auto
  have "stored_status rt i = PENDING" by (rule waits(2))
  moreover have "holder_of rt i = []" using waits(3) by (simp add: holder_of_def)
  ultimately have adv: "take_or_finish db rt i ?u target nt now w = help_write db rt i ?changes [] (accept_condition ?u oid now)
      [Check (''USER#'' @ strip ?u, ''ACCOUNT_FENCE'') fc, profile_condition ?u (dt_role p) (dt_profile_version p)] True w"
    using target u offer tried standing(1)
    by (auto simp: take_or_finish_def advance_def OPEN_STATES_def offer_stands_def)
  have version: "read_version i = rq_version r" by (rule mirrors_version [OF m row(2)])
  with row(2) have "cond_holds (C_Eq ''version'' (PInt (read_version i))) i"
    by (subst cond_eq_get) (auto simp: request_in_Some dest: exact_stored)
  moreover have "cond_holds (C_Eq ''dispatched_teacher_id'' (PStr ?u)) i"
    using row(2) offer(3) by (auto simp: request_in_Some teacher_at_Some split: option.splits)
  ultimately have "op_ok t ?op"
    using waits(1) row offer(5,6,8) unfolding accept_condition_def still_pending_def
    by (simp add: update_operation_def Let_def row_at_def request_in_Some item_get_def split: option.splits)
  with standing student s(3) have "tx_apply [Check (''USER#'' @ strip s, ''ACCOUNT_FENCE'') sc, ?op,
      Check (''USER#'' @ strip ?u, ''ACCOUNT_FENCE'') fc, profile_condition ?u (dt_role p) (dt_profile_version p)] t \<noteq> None"
    by (simp add: tx_apply_def update_operation_def Let_def profile_condition_def request_key_def help_key_def)
  with tx obtain w' where "db_tx db [Check (''USER#'' @ strip s, ''ACCOUNT_FENCE'') sc, ?op,
      Check (''USER#'' @ strip ?u, ''ACCOUNT_FENCE'') fc, profile_condition ?u (dt_role p) (dt_profile_version p)] w = (True, w')"
    by blast
  then show ?thesis
    using s(1,2,4) student(1) by (cases "s = []") (simp_all add: adv help_write_def help_transact_def)
qed

end
