(* ===== verification/Help_Scan.thy ===== *)
theory Help_Scan
  imports Help_Dispatch
begin

text \<open>
  The profile scan against a reference: over the pages of a table read in key order, however long they are,
  the loop ends and collects the first profiles, up to the limit, that can be dispatched at all.
\<close>

section \<open>Pages\<close>

text \<open>
  A scan of the rows in key order. The service examines one row at least and no more than the limit; how
  many, where a page ends on its size, is an argument, as is whether the last page still names a place to
  go on. What it returns of them is what the filter lets through, so a page may well be empty.
\<close>

record paging =
  page_rows :: "nat \<Rightarrow> nat \<Rightarrow> nat"
  last_cursor :: bool

definition examined :: "paging \<Rightarrow> nat \<Rightarrow> nat \<Rightarrow> nat" where
  "examined pg n k = max 1 (min n (page_rows pg n k))"

definition page_scan :: "paging \<Rightarrow> item list \<Rightarrow> (nat, 'w) scan" where
  "page_scan pg rows flt n cursor w =
     (let k = (case cursor of None \<Rightarrow> 0 | Some k \<Rightarrow> k);
          m = k + examined pg n k
      in (Inr (filter (cond_holds flt) (take (examined pg n k) (drop k rows)),
            if m < length rows \<or> (last_cursor pg \<and> k < length rows) then Some m else None), w))"

definition accepts :: "'w acceptance \<Rightarrow> (item \<Rightarrow> item option) \<Rightarrow> 'w \<Rightarrow> bool" where
  "accepts accept f w \<longleftrightarrow> (\<forall>x. accept x w = (Inr (f x), w))"

lemma take_accepted_all:
  assumes "accepts accept f w" "length got < cap"
  shows "take_accepted accept cap page got w = (Inr (take cap (got @ List.map_filter f page)), w)"
  using assms(2)
proof (induction page arbitrary: got)
  case (Cons x xs)
  from assms(1) have x: "accept x w = (Inr (f x), w)" by (simp add: accepts_def)
  show ?case
  proof (cases "f x")
    case None
    with Cons x show ?thesis by (simp add: map_filter_simps Let_def)
  next
    case (Some y)
    show ?thesis
    proof (cases "cap \<le> length (got @ [y])")
      case True
      with Cons.prems have "cap = length (got @ [y])" by simp
      with x Some show ?thesis by (simp add: map_filter_simps Let_def)
    next
      case False
      with Cons.IH [of "got @ [y]"] x Some show ?thesis by (simp add: map_filter_simps Let_def)
    qed
  qed
qed (simp add: map_filter_simps)

lemma map_filter_append: "List.map_filter f (xs @ ys) = List.map_filter f xs @ List.map_filter f ys"
  by (simp add: List.map_filter_def)

lemma map_filter_short: "length (List.map_filter f xs) \<le> length xs"
  by (simp add: List.map_filter_def)

lemma scan_collects:
  assumes "accepts accept f w" "length got \<le> cap" "k = (case cursor of None \<Rightarrow> 0 | Some k \<Rightarrow> k)"
  shows "scan_filtered (page_scan pg rows) flt accept cap cursor got w
    = Some (Inr (take cap (got @ List.map_filter f (filter (cond_holds flt) (drop k rows)))), w)"
  using assms(2,3)
proof (induction "length rows - k" arbitrary: cursor got k rule: less_induct)
  case less
  show ?case
  proof (cases "cap \<le> length got")
    case True
    with less.prems show ?thesis by (subst scan_filtered.simps) simp
  next
    case False
    let ?n = "cap - length got"
    let ?m = "examined pg ?n k"
    let ?page = "filter (cond_holds flt) (take ?m (drop k rows))"
    let ?got = "take cap (got @ List.map_filter f ?page)"
    have m: "1 \<le> ?m" "?m \<le> ?n" using False by (auto simp: examined_def)
    have step: "take_accepted accept cap ?page got w = (Inr ?got, w)"
      using take_accepted_all [OF assms(1), of got cap] False by simp
    have rest: "List.map_filter f (filter (cond_holds flt) (drop k rows))
        = List.map_filter f ?page @ List.map_filter f (filter (cond_holds flt) (drop (k + ?m) rows))"
      by (metis add.commute append_take_drop_id drop_drop filter_append map_filter_append)
    have "length ?page \<le> ?m" by (rule order_trans [OF length_filter_le]) simp
    then have got: "?got = got @ List.map_filter f ?page"
      using map_filter_short [of f ?page] m(2) less.prems(1) by simp
    let ?on = "?m + k < length rows \<or> (last_cursor pg \<and> k < length rows)"
    have page: "page_scan pg rows flt ?n cursor w = (Inr (?page, if ?on then Some (k + ?m) else None), w)"
      using less.prems(2) by (simp add: page_scan_def Let_def add.commute)
    show ?thesis
    proof (cases ?on)
      case True
      have new: "Some (k + ?m) \<noteq> cursor" using m(1) less.prems(2) by (cases cursor) auto
      have "scan_filtered (page_scan pg rows) flt accept cap cursor got w
          = scan_filtered (page_scan pg rows) flt accept cap (Some (k + ?m)) ?got w"
        by (subst scan_filtered.simps)
          (use False new True in \<open>simp only: page step prod.case sum.case if_True if_False option.distinct simp_thms\<close>)
      also have "\<dots> = Some (Inr (take cap (?got @ List.map_filter f (filter (cond_holds flt) (drop (k + ?m) rows)))), w)"
        using True m(1) by (intro less.hyps) auto
      finally show ?thesis by (simp only: got rest append_assoc)
    next
      case last: False
      then have "drop (k + ?m) rows = []" by simp
      with rest have rest: "List.map_filter f (filter (cond_holds flt) (drop k rows)) = List.map_filter f ?page"
        by (simp add: map_filter_simps)
      show ?thesis unfolding rest
        by (subst scan_filtered.simps)
          (use False last in \<open>simp only: page step prod.case sum.case if_False if_True simp_thms\<close>)
    qed
  qed
qed

section \<open>Profiles that can be dispatched\<close>

definition ready_profile :: "runtime \<Rightarrow> table \<Rightarrow> item \<Rightarrow> item option" where
  "ready_profile rt t p =
     (let u = str_or rt (item_get p ''user_id'') []
      in if strip u = [] \<or> lower (str_or rt (item_get p ''role'') []) \<notin> set ELIGIBLE_ROLES
            \<or> item_get p ''account_status'' \<noteq> PStr ''active'' \<or> int_or (item_get p ''version'') 0 \<le> 0
         then None
         else case t (''USER#'' @ strip u, ''ACCOUNT_FENCE'') of
             None \<Rightarrow> None
           | Some fence \<Rightarrow>
               (if item_get fence ''status'' = PStr ''active'' \<and> 1 \<le> fence_generation fence
                then Some (p(''account_fence_generation'' \<mapsto> PInt (fence_generation fence))) else None))"

lemma eligible_ready:
  assumes "reads_as db w t"
  shows "accepts (eligible_profile db rt) (ready_profile rt t) w"
  unfolding accepts_def
proof
  fix p
  let ?u = "str_or rt (item_get p ''user_id'') []"
  have "strip [] = []" by (simp add: strip_def)
  show "eligible_profile db rt p w = (Inr (ready_profile rt t p), w)"
  proof (cases "strip ?u = []")
    case True
    then show ?thesis
      by (simp add: eligible_profile_def ready_profile_def require_active_account_fence_def get_account_fence_def
          account_fence_key_def required_user_def Let_def)
  next
    case False
    then have "?u \<noteq> []" using \<open>strip [] = []\<close> by metis
    with False show ?thesis
      by (auto simp: eligible_profile_def ready_profile_def require_active_account_fence_def get_account_fence_def
          account_fence_key_def required_user_def Let_def reads_as_get [OF assms] fence_generation_def row_lookup
          split: option.split)
  qed
qed

lemma listed_profiles:
  assumes "reads_as db w t"
  shows "list_teacher_profiles db rt (page_scan pg rows) w
    = Some (Inr (take 200 (List.map_filter (ready_profile rt t) (filter (\<lambda>p. item_get p ''SK'' = PStr ''PROFILE'') rows))), w)"
proof -
  have "cond_holds (C_Eq ''SK'' (PStr ''PROFILE'')) = (\<lambda>p. item_get p ''SK'' = PStr ''PROFILE'')"
    by (auto simp: fun_eq_iff item_get_def db_eq_def split: option.splits)
  with scan_collects [OF eligible_ready [OF assms], of "[]" 200 0 None pg rows "C_Eq ''SK'' (PStr ''PROFILE'')" rt]
  show ?thesis by (simp add: list_teacher_profiles_def scan_filtered_items_def)
qed

end
