(* ===== verification/Help_Staff.thy ===== *)
theory Help_Staff
  imports Help_Properties Help_Offer Help_Scan
begin

text \<open>
  The properties of teachers on help requests: who takes one, who is offered one, and which profiles are
  looked at. In the concrete instances student \<open>s1\<close> asked in \<open>c1\<close>, and teachers \<open>t1\<close> and \<open>t2\<close>, the busier
  and the free one, are on duty.
\<close>

section \<open>Two teachers on duty\<close>

definition offered_row :: item where
  "offered_row = asked_row(''dispatch_status'' \<mapsto> PStr ''dispatched'', ''dispatched_teacher_id'' \<mapsto> PStr ''t2'',
     ''dispatch_id'' \<mapsto> PStr ''o1'', ''dispatch_deadline_at'' \<mapsto> PStr ''us90'')"

definition active_fence_row :: "string \<Rightarrow> item" where
  "active_fence_row u = dict_of [(''PK'', PStr (''USER#'' @ u)), (''SK'', PStr ''ACCOUNT_FENCE''), (''status'', PStr ''active''), (''generation'', PDec 1)]"

definition duty_table :: "item \<Rightarrow> table" where
  "duty_table i = Map.empty(help_key ''c1'' \<mapsto> i, (''USER#t1'', ''PROFILE'') \<mapsto> teacher_row ''t1'' 1,
     (''USER#t2'', ''PROFILE'') \<mapsto> teacher_row ''t2'' 0, (''USER#t1'', ''ACCOUNT_FENCE'') \<mapsto> active_fence_row ''t1'',
     (''USER#t2'', ''ACCOUNT_FENCE'') \<mapsto> active_fence_row ''t2'', (''USER#s1'', ''ACCOUNT_FENCE'') \<mapsto> active_fence_row ''s1'')"

lemma asked_fields:
  "item_get asked_row ''student_id'' = PStr ''s1''" "item_get asked_row ''subject'' = PStr ''math''"
  "item_get asked_row ''account_fence_generation'' = PDec 1"
  "item_get asked_row ''previous_dispatch_teacher_ids'' = PNone"
  by (simp_all add: asked_row_def stamped_opening_get opening_record_def row_lookup strip_def)

lemma teacher_words:
  "lower ''teacher'' = ''teacher''" "lower ''active'' = ''active''" "lower ''available'' = ''available''"
  "normal_subject_id plain_runtime (PStr ''Mathematics'') = ''math''" "normal_subject_id plain_runtime (PStr ''math'') = ''math''"
  "strip ''Mathematics'' = ''Mathematics''"
  by code_simp+

lemma normal: "normalize_teacher_profile plain_runtime (teacher_row u n) =
  \<lparr>dt_id = u, dt_role = ''teacher'', dt_account_status = ''active'', dt_profile_version = 3, dt_generation = 1,
   dt_subjects = [''math''], dt_availability = ''available'', dt_max_active = 3, dt_active = max 0 n, dt_sla_bucket = ''unknown'', dt_last_dispatched = PNone\<rparr>"
  by (simp add: normalize_teacher_profile_def teacher_row_def row_lookup teacher_words int_or_def stored_teacher_subjects_def
     TEACHER_SUBJECT_FIELDS_def subject_texts_def stored_teacher_availability_def TEACHER_AVAILABILITY_FIELDS_def first_true_def Account_Fence.truncate_def)

lemma fit: "refusal_reason plain_runtime (item_get asked_row ''subject'') [] (normalize_teacher_profile plain_runtime (teacher_row ''t2'' 0)) = None"
  by (simp add: refusal_reason_def normal asked_fields standing_refusal_def ELIGIBLE_ROLES_def AVAILABLE_STATES_def PAUSED_STATES_def teacher_words)

lemma strips: "strip ''t1'' = ''t1''" "strip ''t2'' = ''t2''" "strip ''s1'' = ''s1''"
  by code_simp+

lemma duty_rows:
  "duty_table i (''USER#t1'', ''PROFILE'') = Some (teacher_row ''t1'' 1)" "duty_table i (''USER#t2'', ''PROFILE'') = Some (teacher_row ''t2'' 0)"
  "duty_table i (''USER#t1'', ''ACCOUNT_FENCE'') = Some (active_fence_row ''t1'')" "duty_table i (''USER#t2'', ''ACCOUNT_FENCE'') = Some (active_fence_row ''t2'')"
  "duty_table i (''USER#s1'', ''ACCOUNT_FENCE'') = Some (active_fence_row ''s1'')"
  by (simp_all add: duty_table_def)

lemma teacher_fields: "teacher_row u n ''PK'' \<noteq> None" "teacher_row u n ''SK'' \<noteq> None" 
  "item_get (teacher_row u n) ''user_id'' = PStr u" "item_get (teacher_row u n) ''role'' = PStr ''teacher''"
  "item_get (teacher_row u n) ''account_status'' = PStr ''active''" "item_get (teacher_row u n) ''version'' = PDec 3"
  by (simp_all add: teacher_row_def row_lookup dict_of_def)

lemma teacher_sk: "item_get (teacher_row u n) ''SK'' = PStr ''PROFILE''"
  by (simp add: teacher_row_def row_lookup)

lemma profiles: "profile_current (duty_table i) (normalize_teacher_profile plain_runtime (teacher_row ''t1'' 1))"
  "profile_current (duty_table i) (normalize_teacher_profile plain_runtime (teacher_row ''t2'' 0))"
  by (simp_all add: profile_current_def normal fence_active_def duty_rows teacher_fields strips active_fence_row_def row_lookup)

lemma offered_request_row: "request_in offered_row = Some \<lparr>rq_conversation = ''c1'', rq_phase = Waiting, rq_holder = None,
    rq_offered = Some ''t2'', rq_tried = [], rq_version = 1\<rparr>"
  using asked_request by (simp add: request_in_Some offered_row_def row_lookup)

lemma key_upd: "keyed t \<Longrightarrow> item_key i = Some k \<Longrightarrow> keyed (t(k \<mapsto> i))"
  by (simp add: keyed_def)

lemma help_ok_upd: "help_ok t \<Longrightarrow> snd k \<noteq> ''HELP'' \<Longrightarrow> help_ok (t(k \<mapsto> i))"
  by (auto simp: help_ok_def help_key_def)

lemma sound_upd: "sound_table t \<Longrightarrow> item_key i = Some k \<Longrightarrow> snd k \<noteq> ''HELP'' \<Longrightarrow> sound_table (t(k \<mapsto> i))"
  by (simp add: sound_table_def key_upd help_ok_upd)

lemma duty_sound: "sound_table (duty_table offered_row)"
proof -
  have "item_key offered_row = Some (help_key ''c1'')"
    using asked_key by (simp add: offered_row_def item_key_def row_lookup)
  then have s: "sound_table (Map.empty(help_key ''c1'' \<mapsto> offered_row))"
    by (intro one_request_sound [OF offered_request_row]) (simp_all add: sound_request_def)
  show ?thesis unfolding duty_table_def
    by (intro sound_upd s) (simp_all add: item_key_def teacher_row_def active_fence_row_def row_lookup)
qed

lemma duty_take: "\<exists>x w'. take_or_finish table_db plain_runtime offered_row ''t2'' IN_PROGRESS None ''us50'' (duty_table offered_row) = (Inr x, w')"
proof -
  let ?p = "normalize_teacher_profile plain_runtime (teacher_row ''t2'' 0)"
  have "\<exists>x w'. take_or_finish table_db plain_runtime offered_row (dt_id ?p) IN_PROGRESS None ''us50'' (duty_table offered_row) = (Inr x, w')"
  proof (rule quiet_take [where oid = "''o1''" and s = "''s1''" and g = 1, OF _ _ _ offered_request_row])
    show "reads_as table_db (duty_table offered_row) (duty_table offered_row)" by (simp add: reads_as_def table_db_def table_get_def)
    show "\<exists>w'. db_tx table_db ops (duty_table offered_row) = (True, w')" if "tx_apply ops (duty_table offered_row) = Some t'" for ops t'
      using that by (simp add: table_db_def table_tx_def)
    show "(duty_table offered_row) (request_key plain_runtime offered_row) = Some offered_row"
      using asked_request by (simp add: request_key_def offered_row_def row_lookup request_in_Some duty_table_def help_key_def)
    show "fence_active (duty_table offered_row) ''s1'' 1" by (simp add: fence_active_def strips duty_rows active_fence_row_def row_lookup)
    show "cond_holds (C_After ''dispatch_deadline_at'' ''us50'') offered_row" by (simp add: offered_row_def row_lookup)
    show "profile_current (duty_table offered_row) ?p" by (rule profiles(2))
  qed (simp_all add: offered_row_def row_lookup asked_fields normal teacher_words ELIGIBLE_ROLES_def strips int_or_def Account_Fence.truncate_def)
  then show ?thesis by (simp add: normal)
qed

lemma duty_waiting:
  "duty_table asked_row (help_key ''c1'') = Some asked_row" "\<not> live_offer plain_runtime asked_row now"
  "item_get asked_row ''dispatch_status'' = PNone"
proof -
  show "duty_table asked_row (help_key ''c1'') = Some asked_row" by (simp add: duty_table_def help_key_def)
  show s: "item_get asked_row ''dispatch_status'' = PNone"
    by (simp add: asked_row_def stamped_opening_get opening_record_def row_lookup strip_def)
  then show "\<not> live_offer plain_runtime asked_row now" by (simp add: live_offer_def)
qed

lemma asked_previous: "previous_teachers plain_runtime asked_row now = []"
  using mirrors_request(3) [OF _ asked_request, of asked_row] duty_waiting(3)
  by (simp add: mirrors_def previous_teachers_def)

lemma asked_not_ready: "ready_profile plain_runtime t asked_row = None"
proof -
  have "item_get asked_row ''account_status'' = PNone"
    by (simp add: asked_row_def stamped_opening_get opening_record_def row_lookup strip_def)
  then show ?thesis by (simp add: ready_profile_def Let_def)
qed

lemma staff_ready: "\<exists>p. ready_profile plain_runtime (duty_table i) (teacher_row ''t2'' 0) = Some p"
  by (simp add: ready_profile_def teacher_fields teacher_words strips duty_rows active_fence_row_def row_lookup fence_generation_def
      int_or_def Account_Fence.truncate_def ELIGIBLE_ROLES_def)

section \<open>Properties\<close>

text \<open>
  C37: a teacher takes only what they are offered. Whatever other servers do meanwhile, when a teacher's
  first move on a request nobody holds succeeds, there was a moment in the call at which the request
  waited, its offer to this very teacher had not run out, the teacher had not let it lapse before and
  was on duty - an active account with an eligible role - and the student's account was active; and
  right after it the request is that teacher's.
\<close>

theorem take_is_of_a_live_offer:
  assumes "help_client db rows env" and "sound_table (rows w)" and "holder_of rt record = []"
    and "take_or_finish db rt record u target nt now w = (Inr x, w')"
  shows "\<exists>t t'. env (rows w) t \<and> env t' (rows w') \<and> taken_at rt record u target now t t'"
  by (rule help_client.taking [OF assms(1,4,3,2)])

theorem take_is_of_a_live_offer_witness:
  "\<exists>w'. taken_at plain_runtime offered_row ''t2'' IN_PROGRESS ''us50'' (duty_table offered_row) w'"
proof -
  from duty_take obtain x w' where
    "take_or_finish table_db plain_runtime offered_row ''t2'' IN_PROGRESS None ''us50'' (duty_table offered_row) = (Inr x, w')" by blast
  from take_is_of_a_live_offer [OF lone_help.help_client_axioms duty_sound _ this]
  show ?thesis using offered_request_row by (auto simp: holder_of_def item_get_def request_in_Some teacher_at_Some)
qed

text \<open>
  C38: a waiting student is offered to the best teacher there is. On a table nobody else changes, if any
  of the profiles may have the request - active, available, not full, of the right subject, not one who
  let it lapse - one of those that may have it is chosen, with the least rank among them all: the least
  computed one, and so the least of a hundred times the load, twenty times the penalty for late replies
  and the penalty for a recent offer, but for the two digits it is rounded to. If the chosen teacher's
  account and stored profile still are what the plan read, the request is offered to that teacher, and the
  teacher of a lapsed offer is recorded as tried; if they are not (as with a role stored as \<open>Teacher\<close>),
  nothing is written and nobody else is asked.
\<close>

theorem offer_reaches_the_best:
  fixes w :: "'c world"
  assumes "tbl w (help_key c) = Some i" and "request_in i = Some r" and "rq_conversation r = c"
    and "rq_phase r = Waiting" and "rq_holder r = None" and "\<not> live_offer (he_rt he) i now"
    and "script w = []" and "profiles w = (Inr ps, w)"
    and "p \<in> set ps" and "refusal_reason (he_rt he) (item_get i ''subject'') (previous_teachers (he_rt he) i now)
       (normalize_teacher_profile (he_rt he) p) = None"
  shows "\<exists>k x w'. dispatch (world_db act) he profiles i oid now w = (x, w')
    \<and> k \<in> set (ranked_candidates (he_rt he) (item_get i ''subject'') (previous_teachers (he_rt he) i now) now ps)
    \<and> cand_refusal k = None
    \<and> (\<forall>d\<in>set (ranked_candidates (he_rt he) (item_get i ''subject'') (previous_teachers (he_rt he) i now) now ps).
        cand_refusal d = None \<longrightarrow> cand_score k \<le> cand_score d
          \<and> exact_rank (he_rt he) now (cand_teacher k) \<le> exact_rank (he_rt he) now (cand_teacher d) + 11 / 1000)
    \<and> (if profile_current (tbl w) (cand_teacher k)
       then (\<exists>y. x = Inr y) \<and> request_at (tbl w') c
         = Some (offered_request r (dt_id (cand_teacher k)) (previous_teachers (he_rt he) i now))
       else w' = w)"
  using assms by (rule quiet_offer)

text \<open>Two free teachers, one busier: the free one is offered the request.\<close>

theorem offer_reaches_the_best_witness:
  "\<exists>x w'. dispatch (world_db (\<lambda>_ t. t)) plain_env (\<lambda>w. (Inr [teacher_row ''t1'' 1, teacher_row ''t2'' 0], w)) asked_row ''o1'' ''us5''
       \<lparr>tbl = duty_table asked_row, script = ([] :: (unit list \<times> fate) list)\<rparr> = (Inr x, w')
     \<and> (\<exists>r'. request_at (tbl w') ''c1'' = Some r' \<and> rq_offered r' = Some ''t2'')"
proof -
  let ?w = "\<lparr>tbl = duty_table asked_row, script = ([] :: (unit list \<times> fate) list)\<rparr>"
  let ?ps = "[teacher_row ''t1'' 1, teacher_row ''t2'' 0]"
  let ?ranked = "ranked_candidates (he_rt plain_env) (item_get asked_row ''subject'')
     (previous_teachers (he_rt plain_env) asked_row ''us5'') ''us5'' ?ps"
  have fit: "refusal_reason (he_rt plain_env) (item_get asked_row ''subject'') (previous_teachers (he_rt plain_env) asked_row ''us5'')
      (normalize_teacher_profile (he_rt plain_env) (teacher_row ''t2'' 0)) = None"
    using fit by (simp add: plain_env_def asked_previous)
  have live: "\<not> live_offer (he_rt plain_env) asked_row ''us5''" using duty_waiting(2) by (simp add: plain_env_def)
  from offer_reaches_the_best [OF _ asked_request _ _ _ live, of ?w "''c1''" "\<lambda>w. (Inr ?ps, w)" ?ps "teacher_row ''t2'' 0" "\<lambda>_ t. t" "''o1''"]
  obtain k x w' where call: "dispatch (world_db (\<lambda>_ t. t)) plain_env (\<lambda>w. (Inr ?ps, w)) asked_row ''o1'' ''us5'' ?w = (x, w')"
      and k: "k \<in> set ?ranked"
      and least: "\<forall>d\<in>set ?ranked. cand_refusal d = None \<longrightarrow>
        exact_rank (he_rt plain_env) ''us5'' (cand_teacher k) \<le> exact_rank (he_rt plain_env) ''us5'' (cand_teacher d) + 11 / 1000"
      and offered: "if profile_current (tbl ?w) (cand_teacher k)
        then (\<exists>y. x = Inr y) \<and> request_at (tbl w') ''c1'' = Some (offered_request \<lparr>rq_conversation = ''c1'', rq_phase = Waiting,
         rq_holder = None, rq_offered = None, rq_tried = [], rq_version = 1\<rparr> (dt_id (cand_teacher k)) (previous_teachers (he_rt plain_env) asked_row ''us5''))
        else w' = ?w"
    using fit duty_waiting(1) by auto
  let ?t = "\<lambda>u n. normalize_teacher_profile plain_runtime (teacher_row u n)"
  have who: "cand_teacher k \<in> {?t ''t1'' 1, ?t ''t2'' 0}"
    using k by (auto simp: ranked_candidates_def Let_def candidate_payload_def plain_env_def)
  have "\<exists>d\<in>set ?ranked. cand_refusal d = None \<and> cand_teacher d = ?t ''t2'' 0"
    using fit by (auto simp: ranked_candidates_def Let_def candidate_payload_def plain_env_def)
  with least have "exact_rank plain_runtime ''us5'' (cand_teacher k) \<le> exact_rank plain_runtime ''us5'' (?t ''t2'' 0) + 11 / 1000"
    by (auto simp: plain_env_def)
  moreover have "exact_rank plain_runtime ''us5'' (?t ''t1'' 1) = 220 / 3" "exact_rank plain_runtime ''us5'' (?t ''t2'' 0) = 40"
    by (simp_all add: exact_rank_def normal sla_penalty_def recency_penalty_def parse_timestamp_def)
  ultimately have "cand_teacher k = ?t ''t2'' 0" using who by auto
  with offered profiles(2) [of asked_row] call show ?thesis by (auto simp: normal offered_request_def)
qed

text \<open>
  C39: the search for teachers ends and misses nobody. Over the pages of any table, read while nobody
  changes the accounts - however many rows the service examines for a page, empty pages and a last one that
  still names a cursor among them - the scan loop returns, and what it returns is the first two hundred of
  all the profile rows that can be dispatched, in the table's order, each stamped with its account's
  generation; rows that are no profile are never among them.
\<close>

theorem profile_search_is_complete:
  assumes "reads_as db w t"
  shows "list_teacher_profiles db rt (page_scan pg rows) w
    = Some (Inr (take 200 (List.map_filter (ready_profile rt t) (filter (\<lambda>p. item_get p ''SK'' = PStr ''PROFILE'') rows))), w)"
  by (rule listed_profiles [OF assms])

text \<open>Pages of one row; a row like a profile under another key is passed over.\<close>

theorem profile_search_is_complete_witness:
  "\<exists>ps. list_teacher_profiles table_db plain_runtime (page_scan \<lparr>page_rows = \<lambda>n k. 1, last_cursor = True\<rparr>
       [(teacher_row ''t1'' 0)(''SK'' \<mapsto> PStr ''SETTINGS''), asked_row, teacher_row ''t2'' 0]) (duty_table asked_row)
     = Some (Inr ps, duty_table asked_row) \<and> length ps = 1"
proof -
  have "reads_as table_db (duty_table asked_row) (duty_table asked_row)"
    by (simp add: reads_as_def table_db_def table_get_def)
  from profile_search_is_complete [OF this, of plain_runtime "\<lparr>page_rows = \<lambda>n k. 1, last_cursor = True\<rparr>"
      "[(teacher_row ''t1'' 0)(''SK'' \<mapsto> PStr ''SETTINGS''), asked_row, teacher_row ''t2'' 0]"]
  show ?thesis using asked_not_ready staff_ready [of asked_row] by (auto simp: map_filter_simps row_lookup teacher_sk)
qed

end
