(* ===== verification/Case_Steps.thy ===== *)
theory Case_Steps
  imports Support_Shape Help_Steps Ledger_Rows
begin

text \<open>
  Teacher-help cases on the shared table as atomic steps: a case is spent - its receipt created and the
  week's counter raised by one - or given back - its receipt marked refunded and that week's counter
  lowered by one. Every week's counter is then the number of receipts of that week not given back, and
  never above the most that any plan or administrator allows.
\<close>

section \<open>Rows\<close>

definition receipt_at :: "string \<Rightarrow> key" where
  "receipt_at d = (''TEACHER_SUPPORT_CASE#'' @ d, ''ADMISSION'')"

definition cases_at :: "string \<Rightarrow> string \<Rightarrow> key" where
  "cases_at s wid = (''TEACHER_SUPPORT#'' @ s, ''WEEK#'' @ wid)"

lemma case_keys [simp]:
  "receipt_at d = receipt_at e \<longleftrightarrow> d = e" "cases_at s wid = cases_at r w \<longleftrightarrow> s = r \<and> wid = w"
  "receipt_at d \<noteq> cases_at s wid" "cases_at s wid \<noteq> receipt_at d"
  by (auto simp: receipt_at_def cases_at_def)

definition case_row :: "key \<Rightarrow> bool" where
  "case_row k \<longleftrightarrow> (\<exists>d. k = receipt_at d) \<or> (\<exists>s wid. k = cases_at s wid)"

lemma case_row_simps [simp]: "case_row (receipt_at d)" "case_row (cases_at s wid)"
  by (auto simp: case_row_def)

lemma cases_key: "counter_key CASES s wk = cases_at s (week_identity wk)"
  by (simp add: counter_key_def CASES_def cases_at_def)

lemma receipt_key: "case_key cd kind c = receipt_at (domain_digest cd ''stoa.teacher-support.case.v1'' [kind, c])"
  by (simp add: case_key_def receipt_at_def)

text \<open>A receipt that still counts in its week, and what the counter of a week says.\<close>

definition counts_in :: "item \<Rightarrow> string \<Rightarrow> string \<Rightarrow> bool" where
  "counts_in i s wid \<longleftrightarrow>
     i ''refunded_at'' = None \<and> item_get i ''support_scope_id'' = PStr s \<and> item_get i ''week_identity'' = PStr wid"

definition spent_in :: "table \<Rightarrow> string \<Rightarrow> string \<Rightarrow> string set" where
  "spent_in t s wid = {d. \<exists>i. t (receipt_at d) = Some i \<and> counts_in i s wid}"

definition case_number :: "table \<Rightarrow> string \<Rightarrow> string \<Rightarrow> int" where
  "case_number t s wid = (case t (cases_at s wid) of None \<Rightarrow> 0 | Some i \<Rightarrow> num_of (item_get i ''admitted_cases''))"

definition cases_ok :: "table \<Rightarrow> bool" where
  "cases_ok t \<longleftrightarrow> (\<forall>s wid. finite (spent_in t s wid) \<and> case_number t s wid = int (card (spent_in t s wid))
     \<and> int (card (spent_in t s wid)) \<le> ASSIGNED_WEEKLY_CASES_MAXIMUM)"

section \<open>Steps\<close>

definition only_at :: "key set \<Rightarrow> table \<Rightarrow> table \<Rightarrow> bool" where
  "only_at ks t t' \<longleftrightarrow> (\<forall>k. case_row k \<longrightarrow> k \<notin> ks \<longrightarrow> t' k = t k)"

inductive case_step :: "table \<Rightarrow> table \<Rightarrow> bool" where
  elsewhere: "only_at {} t t' \<Longrightarrow> case_step t t'"
| spend: "t (receipt_at d) = None \<Longrightarrow> t' (receipt_at d) = Some i \<Longrightarrow> counts_in i s wid \<Longrightarrow>
     t' (cases_at s wid) = Some j \<Longrightarrow> num_of (item_get j ''admitted_cases'') = case_number t s wid + 1 \<Longrightarrow>
     kept t t' (cases_at s wid) \<Longrightarrow> only_at {receipt_at d, cases_at s wid} t t' \<Longrightarrow>
     case_number t s wid < ASSIGNED_WEEKLY_CASES_MAXIMUM \<Longrightarrow> case_step t t'"
| give_back: "t (receipt_at d) = Some i \<Longrightarrow> counts_in i s wid \<Longrightarrow> t' (receipt_at d) = Some i' \<Longrightarrow>
     i' ''refunded_at'' \<noteq> None \<Longrightarrow> kept t t' (receipt_at d) \<Longrightarrow>
     t' (cases_at s wid) = Some j \<Longrightarrow> num_of (item_get j ''admitted_cases'') = case_number t s wid - 1 \<Longrightarrow>
     kept t t' (cases_at s wid) \<Longrightarrow> only_at {receipt_at d, cases_at s wid} t t' \<Longrightarrow> case_step t t'"

lemma case_step_kept:
  assumes "case_step t t'" "case_row k"
  shows "kept t t' k"
  using assms(1)
proof cases
  case elsewhere
  with assms(2) have "t' k = t k" unfolding only_at_def by blast
  then show ?thesis by (simp add: kept_def)
next
  case (spend d i s wid j)
  consider "k = receipt_at d" | "k = cases_at s wid" | "t' k = t k"
    using spend(7) assms(2) unfolding only_at_def by blast
  then show ?thesis by cases (use spend in \<open>simp_all add: kept_def\<close>)
next
  case (give_back d i s wid i' j)
  consider "k = receipt_at d" | "k = cases_at s wid" | "t' k = t k"
    using give_back(9) assms(2) unfolding only_at_def by blast
  then show ?thesis by cases (use give_back in \<open>simp_all add: kept_def\<close>)
qed

lemma only_at_spent:
  assumes "only_at {receipt_at d, cases_at s wid} t t'"
  shows "e \<noteq> d \<Longrightarrow> e \<in> spent_in t' r w \<longleftrightarrow> e \<in> spent_in t r w"
    and "(r, w) \<noteq> (s, wid) \<Longrightarrow> case_number t' r w = case_number t r w"
proof -
  show "e \<in> spent_in t' r w \<longleftrightarrow> e \<in> spent_in t r w" if "e \<noteq> d"
  proof -
    have "t' (receipt_at e) = t (receipt_at e)"
      using assms that unfolding only_at_def by (elim allE [of _ "receipt_at e"]) simp
    then show ?thesis by (simp add: spent_in_def)
  qed
  show "case_number t' r w = case_number t r w" if "(r, w) \<noteq> (s, wid)"
  proof -
    have "t' (cases_at r w) = t (cases_at r w)"
      using assms that unfolding only_at_def by (elim allE [of _ "cases_at r w"]) auto
    then show ?thesis by (simp add: case_number_def)
  qed
qed

lemma counts_in_unique: "counts_in i s wid \<Longrightarrow> counts_in i r w \<longleftrightarrow> r = s \<and> w = wid"
  by (auto simp: counts_in_def)

lemma case_step_ok:
  assumes "case_step t t'" "cases_ok t"
  shows "cases_ok t'"
  using assms(1)
proof cases
  case elsewhere
  then have "t' (receipt_at d) = t (receipt_at d)" "t' (cases_at s wid) = t (cases_at s wid)" for d s wid
    unfolding only_at_def by (metis case_row_simps empty_iff)+
  then have "spent_in t' s wid = spent_in t s wid" "case_number t' s wid = case_number t s wid" for s wid
    by (simp_all add: spent_in_def case_number_def)
  with assms(2) show ?thesis by (simp add: cases_ok_def)
next
  case (spend d i s wid j)
  have fresh: "d \<notin> spent_in t r w" for r w using spend(1) by (simp add: spent_in_def)
  have d: "d \<in> spent_in t' r w \<longleftrightarrow> r = s \<and> w = wid" for r w
    using spend(2) counts_in_unique [OF spend(3)] by (simp add: spent_in_def)
  have set: "spent_in t' r w = (if (r, w) = (s, wid) then insert d (spent_in t r w) else spent_in t r w)" for r w
  proof (rule set_eqI)
    show "e \<in> spent_in t' r w \<longleftrightarrow> e \<in> (if (r, w) = (s, wid) then insert d (spent_in t r w) else spent_in t r w)" for e
      using only_at_spent(1) [OF spend(7), of e r w] d [of r w] fresh [of r w] by (cases "e = d") auto
  qed
  have num: "case_number t' r w = (if (r, w) = (s, wid) then case_number t s wid + 1 else case_number t r w)" for r w
    using only_at_spent(2) [OF spend(7), of r w] spend(4,5) by (auto simp: case_number_def)
  from assms(2) fresh spend(8) show ?thesis unfolding cases_ok_def set num by auto
next
  case (give_back d i s wid i' j)
  have d: "d \<in> spent_in t r w \<longleftrightarrow> r = s \<and> w = wid" for r w
    using give_back(1) counts_in_unique [OF give_back(2)] by (simp add: spent_in_def)
  have gone: "d \<notin> spent_in t' r w" for r w using give_back(3,4) by (simp add: spent_in_def counts_in_def)
  have set: "spent_in t' r w = (if (r, w) = (s, wid) then spent_in t r w - {d} else spent_in t r w)" for r w
  proof (rule set_eqI)
    show "e \<in> spent_in t' r w \<longleftrightarrow> e \<in> (if (r, w) = (s, wid) then spent_in t r w - {d} else spent_in t r w)" for e
      using only_at_spent(1) [OF give_back(9), of e r w] d [of r w] gone [of r w] by (cases "e = d") auto
  qed
  have num: "case_number t' r w = (if (r, w) = (s, wid) then case_number t s wid - 1 else case_number t r w)" for r w
    using only_at_spent(2) [OF give_back(9), of r w] give_back(6,7) by (auto simp: case_number_def)
  have "0 < card (spent_in t s wid)" if "finite (spent_in t s wid)"
    using d that by (auto simp: card_gt_0_iff)
  with assms(2) d show ?thesis unfolding cases_ok_def set num
    by (auto simp: card_Diff_singleton of_nat_diff Suc_leI intro: order_trans [of _ "int (card (spent_in t s wid))"])
qed

section \<open>Runs\<close>

definition case_run :: "table \<Rightarrow> table \<Rightarrow> bool" where
  "case_run = (\<lambda>t t'. case_step t t' \<and> (keyed t \<longrightarrow> keyed t'))\<^sup>*\<^sup>*"

lemma case_run_refl [simp]: "case_run t t"
  by (simp add: case_run_def)

lemma case_run_trans: "case_run a b \<Longrightarrow> case_run b c \<Longrightarrow> case_run a c"
  unfolding case_run_def by (rule rtranclp_trans)

lemma case_run_step: "case_step t t' \<Longrightarrow> (keyed t \<Longrightarrow> keyed t') \<Longrightarrow> case_run t t'"
  by (simp add: case_run_def r_into_rtranclp)

lemma case_run_ok: "case_run t t' \<Longrightarrow> cases_ok t \<Longrightarrow> cases_ok t'"
  unfolding case_run_def by (induction rule: rtranclp_induct) (auto dest: case_step_ok)

lemma case_run_keyed: "case_run t t' \<Longrightarrow> keyed t \<Longrightarrow> keyed t'"
  unfolding case_run_def by (induction rule: rtranclp_induct) auto

lemma case_run_kept: "case_run t t' \<Longrightarrow> case_row k \<Longrightarrow> kept t t' k"
  unfolding case_run_def
  by (induction rule: rtranclp_induct) (auto dest: case_step_kept intro: kept_trans)

section \<open>Two writes among others\<close>

text \<open>Operations of the caller that write no row of the allowance.\<close>

definition off_cases :: "op \<Rightarrow> bool" where
  "off_cases oper \<longleftrightarrow> key_safe oper \<and> (case oper of Check k c \<Rightarrow> True | _ \<Rightarrow> \<forall>k. case_row k \<longrightarrow> op_key oper \<noteq> Some k)"

lemma off_cases_Check [simp]: "off_cases (Check k c)"
  by (simp add: off_cases_def)

lemma off_cases_write: "off_cases oper \<Longrightarrow> case_row k \<Longrightarrow> op_write oper t k = t k"
  by (cases oper) (simp_all add: off_cases_def op_write_other del: op_write.simps(1,3) split_paired_All)

lemma fold_off_cases: "\<forall>x\<in>set ops. off_cases x \<Longrightarrow> case_row k \<Longrightarrow> fold op_write ops t k = t k"
  by (induction ops arbitrary: t) (auto simp: off_cases_write)

lemma off_cases_tx:
  assumes "tx_apply ops t = Some t'" "\<forall>x\<in>set ops. off_cases x"
  shows "case_run t t'"
proof (rule case_run_step [OF case_step.elsewhere])
  show "only_at {} t t'"
    using tx_applyD(3) [OF assms(1)] fold_off_cases [OF assms(2)] by (simp add: only_at_def)
  show "keyed t \<Longrightarrow> keyed t'"
    by (rule keyed_tx [OF assms(1)]) (use assms(2) in \<open>auto simp: off_cases_def\<close>)
qed

lemma two_puts:
  assumes tx: "tx_apply (base @ [Put a ca, Put b cb]) t = Some t'" and off: "\<forall>x\<in>set base. off_cases x"
    and a: "item_key a = Some ka" and b: "item_key b = Some kb"
  shows "cond_holds ca (row_at t ka)" and "op_ok t (Put b cb)" and "t' ka = Some (stored_item a)"
    and "t' kb = Some (stored_item b)" and "only_at {ka, kb} t t'" and "keyed t \<Longrightarrow> keyed t'" and "ka \<noteq> kb"
proof -
  note d = tx_applyD [OF tx]
  let ?ops = "base @ [Put a ca, Put b cb]"
  from d(2) have ok: "op_ok t (Put a ca)" "op_ok t (Put b cb)" by simp_all
  from ok(1) a show "cond_holds ca (row_at t ka)" by (simp add: op_ok_Put)
  show "op_ok t (Put b cb)" by (rule ok(2))
  show "t' ka = Some (stored_item a)"
    using fold_write_at [OF d(1), of "Put a ca" ka t] a d(3) by simp
  show "t' kb = Some (stored_item b)"
    using fold_write_at [OF d(1), of "Put b cb" kb t] b d(3) by simp
  show ne: "ka \<noteq> kb" using d(1) a b by auto
  show "only_at {ka, kb} t t'"
    unfolding only_at_def
  proof (intro allI impI)
    fix k
    assume k: "case_row k" "k \<notin> {ka, kb}"
    then have "fold op_write [Put a ca, Put b cb] (fold op_write base t) k = fold op_write base t k"
      using a b by simp
    with fold_off_cases [OF off k(1)] d(3) show "t' k = t k" by simp
  qed
  show "keyed t \<Longrightarrow> keyed t'"
    by (rule keyed_tx [OF tx]) (use off in \<open>auto simp: off_cases_def\<close>)
qed

end
