(* ===== verification/Case_Client.thy ===== *)
theory Case_Client
  imports Case_Steps
begin

text \<open>
  Admissions and refunds as clients of a shared table: whatever the caller adds to their transaction, as
  long as it writes no row of the allowance, and whatever other clients of the allowance do meanwhile,
  each call is a run of the atomic steps. The interface is \<open>case_client\<close>.
\<close>

section \<open>One counter write as a step\<close>

definition read_as :: "codec \<Rightarrow> table \<Rightarrow> string \<Rightarrow> zweek \<Rightarrow> counter option \<Rightarrow> bool" where
  "read_as cd t s wk counter \<longleftrightarrow>
     (case counter of
        None \<Rightarrow> t (counter_key CASES s wk) = None
      | Some k \<Rightarrow> \<exists>i. t (counter_key CASES s wk) = Some i \<and> validate cd CASES i s wk = Some k)"

lemma read_as_number:
  assumes "read_as cd t s wk counter"
  shows "case_number t s (week_identity wk) = spent_cases counter"
proof (cases counter)
  case None
  with assms show ?thesis by (simp add: read_as_def case_number_def cases_key spent_cases_def)
next
  case (Some k)
  with assms obtain i where i: "t (cases_at s (week_identity wk)) = Some i" "validate cd CASES i s wk = Some k"
    by (auto simp: read_as_def cases_key)
  have "''admitted_cases'' \<in> set (count_fields CASES)" by (simp add: CASES_def)
  from validate_SomeD(5) [OF i(2) kind_wf_CASES this] have "num_of (item_get i ''admitted_cases'') = count k ''admitted_cases''"
    by (blast intro: num_of_range)
  with i(1) Some show ?thesis by (simp add: case_number_def spent_cases_def)
qed

lemma counter_committed:
  assumes read: "read_as cd u s wk counter" and kept: "kept u t (counter_key CASES s wk)" and keyed: "keyed t"
    and put: "write_counter cd CASES s wk counter [(''admitted_cases'', n)] extra at_time = Inr put" and ok: "op_ok t put"
  obtains row where "put = Put row (version_condition counter)" "item_key row = Some (cases_at s (week_identity wk))"
    "num_of (item_get (stored_item row) ''admitted_cases'') = n" "case_number t s (week_identity wk) = spent_cases counter"
    "\<forall>t'. t' (cases_at s (week_identity wk)) = Some (stored_item row) \<longrightarrow> kept t t' (cases_at s (week_identity wk))"
proof -
  let ?k = "cases_at s (week_identity wk)"
  let ?row = "written_row cd CASES s wk counter [(''admitted_cases'', n)] extra at_time"
  have prev: "case counter of None \<Rightarrow> u ?k = None
      | Some c \<Rightarrow> \<exists>i. u ?k = Some i \<and> row_version i = Some (c_version c) \<and> counter_ok cd CASES s wk c"
    using read validate_row_version(1) [OF _ kind_wf_CASES] validate_counter_ok [OF _ kind_wf_CASES]
    by (fastforce simp: read_as_def cases_key split: option.splits)
  then have ft: "from_table cd CASES s wk counter" by (auto simp: from_table_def split: option.splits)
  have same: "t ?k = u ?k"
    by (rule cases_kind.write_commits_on_read [OF put prev cases_key [symmetric] kept [unfolded cases_key] keyed ok])
  have version: "row_version (stored_item ?row) = Some (next_version counter)"
    by (simp add: row_version_def item_get_stored cases_kind.written_get)
  show thesis
  proof (rule that)
    show "put = Put ?row (version_condition counter)" by (rule write_counter_InrD(1) [OF put])
    show "item_key ?row = Some ?k" using cases_kind.written_key [OF put ft] by (simp add: cases_key)
    show "num_of (item_get (stored_item ?row) ''admitted_cases'') = n"
      by (simp add: cases_kind.written_get)
    have "read_as cd t s wk counter" using read same by (cases counter) (simp_all add: read_as_def cases_key)
    then show "case_number t s (week_identity wk) = spent_cases counter" by (rule read_as_number)
    show "\<forall>t'. t' ?k = Some (stored_item ?row) \<longrightarrow> kept t t' ?k"
      using prev same version
      by (auto simp: kept_def row_le_def next_version_def split: option.splits)
  qed
qed

text \<open>Spending: a new receipt and the counter one higher.\<close>

lemma spend_tx:
  assumes read: "read_as cd u s wk counter" and kept: "kept u t (counter_key CASES s wk)" and keyed: "keyed t"
    and put: "write_counter cd CASES s wk counter [(''admitted_cases'', spent_cases counter + 1)] extra at_time = Inr put"
    and tx: "tx_apply (base @ [Put receipt create_only, put]) t = Some t'" and off: "\<forall>x\<in>set base. off_cases x"
    and key: "item_key receipt = Some (receipt_at d)" and counts: "counts_in (stored_item receipt) s (week_identity wk)"
    and room: "spent_cases counter < ASSIGNED_WEEKLY_CASES_MAXIMUM"
  shows "case_run t t'"
proof -
  let ?wid = "week_identity wk"
  have ok: "op_ok t put" using tx_applyD(2) [OF tx] by simp
  obtain row where row: "put = Put row (version_condition counter)" "item_key row = Some (cases_at s ?wid)"
      "num_of (item_get (stored_item row) ''admitted_cases'') = spent_cases counter + 1"
      "case_number t s ?wid = spent_cases counter"
      "\<forall>t'. t' (cases_at s ?wid) = Some (stored_item row) \<longrightarrow> kept t t' (cases_at s ?wid)"
    by (rule counter_committed [OF read kept keyed put ok])
  note two = two_puts [OF tx [unfolded row(1)] off key row(2)]
  from two(1) keyed have absent: "t (receipt_at d) = None" by (simp only: keyed_create_only)
  have row_kept: "kept t t' (cases_at s ?wid)" using row(5) two(4) by blast
  from case_step.spend [OF absent two(3) counts two(4) _ row_kept two(5)] row(3,4) room
  have "case_step t t'" by simp
  then show ?thesis by (rule case_run_step) (rule two(6))
qed

text \<open>Giving back: the receipt as it was read, now refunded, and the counter one lower.\<close>

lemma give_back_tx:
  assumes read: "read_as cd u s wk counter" and kept: "kept u t (counter_key CASES s wk)" and keyed: "keyed t" "keyed u0"
    and put: "write_counter cd CASES s wk counter [(''admitted_cases'', spent_cases counter - 1)] [] at_time = Inr put"
    and i: "u0 (receipt_at d) = Some i" and ikept: "kept u0 t (receipt_at d)" and v: "exact_int (item_get i ''state_version'') = Some v"
    and names: "item_get i ''support_scope_id'' = PStr s" "item_get i ''week_identity'' = PStr (week_identity wk)"
    and tx: "tx_apply (base @ [Put (refunded_receipt cd i v reason at_time)
         (C_And (C_Eq ''state_version'' (PInt v)) (C_Absent ''refunded_at'')), put]) t = Some t'"
    and off: "\<forall>x\<in>set base. off_cases x"
  shows "case_run t t'"
proof -
  let ?wid = "week_identity wk"
  let ?new = "refunded_receipt cd i v reason at_time"
  have ok: "op_ok t put" using tx_applyD(2) [OF tx] by simp
  obtain row where row: "put = Put row (version_condition counter)" "item_key row = Some (cases_at s ?wid)"
      "num_of (item_get (stored_item row) ''admitted_cases'') = spent_cases counter - 1"
      "case_number t s ?wid = spent_cases counter"
      "\<forall>t'. t' (cases_at s ?wid) = Some (stored_item row) \<longrightarrow> kept t t' (cases_at s ?wid)"
    by (rule counter_committed [OF read kept keyed(1) put ok])
  have version: "row_version i = Some v" using v by (simp add: row_version_def exact_int_stored_int)
  from keyed(2) i have "item_key i = Some (receipt_at d)" unfolding keyed_def by blast
  then have key: "item_key ?new = Some (receipt_at d)" by (simp add: refunded_receipt_def item_key_def row_lookup)
  note two = two_puts [OF tx [unfolded row(1)] off key row(2)]
  from two(1) have cnd: "cond_holds (C_Eq ''state_version'' (PInt v)) (row_at t (receipt_at d))"
      "cond_holds (C_Absent ''refunded_at'') (row_at t (receipt_at d))" by (simp_all only: cond_holds_And)
  have same: "t (receipt_at d) = Some i" by (rule version_cas [OF ikept i version cnd(1)])
  with cnd(2) names have counts: "counts_in i s ?wid" by (simp add: row_at_def counts_in_def)
  have refunded: "stored_item ?new ''refunded_at'' \<noteq> None"
    by (simp add: stored_item_None refunded_receipt_def row_lookup)
  have "row_version (stored_item ?new) = Some (v + 1)"
    by (simp add: row_version_def refunded_receipt_def row_lookup del: of_int_add)
  with same version two(3) have receipt_kept: "kept t t' (receipt_at d)" by (simp add: kept_def row_le_def)
  have row_kept: "kept t t' (cases_at s ?wid)" using row(5) two(4) by blast
  from case_step.give_back [OF same counts two(3) refunded receipt_kept two(4) _ row_kept two(5)] row(3,4)
  have "case_step t t'" by simp
  then show ?thesis by (rule case_run_step) (rule two(6))
qed

section \<open>The rows of a call\<close>

lemma fence_off: "active_fence_condition u g = Inr oper \<Longrightarrow> off_cases oper"
  by (auto elim: active_fence_shape)

lemma scope_fences_off:
  assumes "grant_condition_operations s = Inr ops"
  shows "\<forall>x\<in>set ops. off_cases x"
  using assms
  by (auto simp: grant_condition_operations_def assigned_condition_operations_def student_profile_condition_def
      role_condition_def held_grant_condition_def relationship_conditions_def active_link_condition_def Let_def
      split: if_splits option.splits sum.splits dest: fence_off)

lemma admission_receipt_row:
  "item_key (admission_receipt cd s wk c kind b n at_time) = Some (case_key cd kind c)"
  "counts_in (stored_item (admission_receipt cd s wk c kind b n at_time)) (cs_scope_id s) (week_identity wk)"
  by (simp_all add: item_key_def row_lookup admission_receipt_def counts_in_def stored_item_None)

lemma admission_names:
  assumes "admission_from_item rt i = Some a"
  shows "item_get i ''support_scope_id'' = PStr (ad_scope_id a)" and "item_get i ''week_identity'' = PStr (ad_week a)"
  using assms
  by (auto simp: admission_from_item_def bind_eq_Some_conv split: if_splits dest: sha256_text_SomeD required_text_SomeD)

lemma refund_week_identity: "refund_week cd a = Some wk \<Longrightarrow> week_identity wk = ad_week a"
  by (auto simp: refund_week_def split: sum.splits if_splits)

section \<open>Calls\<close>

locale case_client = store db rows env
  for db :: "'w db" and rows :: "'w \<Rightarrow> table" and env :: "table \<Rightarrow> table \<Rightarrow> bool" +
  assumes env_cases: "env t t' \<Longrightarrow> case_run t t'"

context case_client
begin

lemma persisted_run:
  assumes step: "\<And>t t'. case_run (rows u) t \<Longrightarrow> tx_apply (base @ ops) t = Some t' \<Longrightarrow> case_run t t'"
    and call: "persist_rows db base ops u = (ok, u')"
  shows "case_run (rows u) (rows u')"
  using call unfolding persist_rows_def
proof (rule tx_run [where run = case_run, rotated -1])
  show "case_run t t'" if "env t t'" for t t' using that by (rule env_cases)
  show "case_run a c" if "case_run a b" "case_run b c" for a b c using that by (rule case_run_trans)
  show "case_run t t'" if "env (rows u) t" "tx_apply (base @ ops) t = Some t'" for t t'
    using that(2) by (rule step [OF env_cases [OF that(1)]])
qed

text \<open>A counter read earlier, at the moment a write commits.\<close>

lemma later:
  assumes "case_run u t" "keyed u"
  shows "keyed t" and "kept u t (counter_key CASES s wk)" and "kept u t (receipt_at d)"
  using case_run_keyed [OF assms] case_run_kept [OF assms(1)] by (simp_all add: cases_key)

lemma admit_attempt_run:
  assumes call: "admit_attempt cd db rt ix wk c kind b at_time (persist_rows db base) w = (r, w')"
    and reads: "\<And>s. reading (links_of_student ix s) rows env" and keyed: "keyed (rows w)" and off: "\<forall>x\<in>set base. off_cases x"
  shows "case_run (rows w) (rows w')"
  using call reads
proof (cases rule: admit_attempt_shape)
  case read
  then show ?thesis by (intro env_cases)
next
  case (wrote s counter fences put u ok)
  note first = env_cases [OF wrote(1)]
  have keyed: "keyed (rows u)" by (rule case_run_keyed [OF first keyed])
  have seen: "read_as cd (rows u) (cs_scope_id s) wk counter"
    using wrote(2) by (auto simp: read_as_def split: option.splits)
  have "case_run (rows u) (rows w')"
  proof (rule persisted_run [OF _ wrote(6)])
    fix t t'
    assume t: "case_run (rows u) t"
      and tx: "tx_apply (base @ fences @ [Put (admission_receipt cd s wk c kind b (spent_cases counter + 1) at_time) create_only, put]) t = Some t'"
    show "case_run t t'"
      by (rule spend_tx [OF seen later(2,1) [OF t keyed] wrote(5) tx [folded append_assoc] _
            admission_receipt_row(1) [unfolded receipt_key] admission_receipt_row(2)])
        (use off scope_fences_off [OF wrote(4)] wrote(3,8) in auto)
  qed
  with first show ?thesis by (rule case_run_trans)
qed

lemma admit_run:
  assumes call: "admit_teacher_support_case cd db rt ix c kind b at_time (persist_rows db base) w = (r, w')"
    and reads: "\<And>s. reading (links_of_student ix s) rows env" and keyed: "keyed (rows w)" and off: "\<forall>x\<in>set base. off_cases x"
  shows "case_run (rows w) (rows w')"
proof -
  from call consider "w' = w" | x where "strong_get db (case_key cd kind c) w = (x, w')"
    | x w1 wk where "strong_get db (case_key cd kind c) w = (x, w1)"
        "retry DEFAULT_ATTEMPTS (admit_attempt cd db rt ix wk c kind b at_time (persist_rows db base)) (Case_Retryable, None) w1 = (r, w')"
    by (auto simp: admit_teacher_support_case_def split: if_splits prod.splits sum.splits option.splits)
  then show ?thesis
  proof cases
    case 2
    show ?thesis by (rule env_cases [OF strong_get_env [OF 2]])
  next
    case 3
    have first: "case_run (rows w) (rows w1)" by (rule env_cases [OF strong_get_env [OF 3(1)]])
    have loop: "retry_loop DEFAULT_ATTEMPTS (admit_attempt cd db rt ix wk c kind b at_time (persist_rows db base)) (Case_Retryable, None) w1
        = (r, w')" using 3(2) by (simp add: retry_def DEFAULT_ATTEMPTS_def)
    have "keyed (rows w1) \<longrightarrow> case_run (rows w1) (rows w')"
      by (rule retry_loop_ends [OF _ _ _ loop, where R = "\<lambda>w w'. keyed (rows w) \<longrightarrow> case_run (rows w) (rows w')"])
        (auto intro: admit_attempt_run [OF _ reads _ off] case_run_trans dest: case_run_keyed)
    with first case_run_keyed [OF first keyed] show ?thesis by (auto intro: case_run_trans)
  qed simp
qed

lemma refund_run:
  assumes call: "refund_teacher_support_case cd db rt c kind b reason at_time (persist_rows db base) w = (r, w')"
    and keyed: "keyed (rows w)" and off: "\<forall>x\<in>set base. off_cases x"
  shows "case_run (rows w) (rows w')"
  using call
proof (cases rule: refund_shape)
  case read
  then show ?thesis by (intro env_cases)
next
  case (checked u cnd ok)
  have "case_run (rows u) (rows w')"
  proof (rule persisted_run [OF _ checked(2)])
    fix t t'
    assume "tx_apply (base @ [Check (case_key cd kind c) cnd]) t = Some t'"
    then show "case_run t t'" by (rule off_cases_tx) (use off in auto)
  qed
  with env_cases [OF checked(1)] show ?thesis by (rule case_run_trans)
next
  case (giving u0 u i a v wk k put ok)
  note first = env_cases [OF giving(1)] and second = env_cases [OF giving(3)]
  have keyed: "keyed (rows u0)" "keyed (rows u)"
    using case_run_keyed [OF first keyed] case_run_keyed [OF second] by simp_all
  have seen: "read_as cd (rows u) (ad_scope_id a) wk (Some k)" using giving(4) by (simp add: read_as_def)
  have put: "write_counter cd CASES (ad_scope_id a) wk (Some k) [(''admitted_cases'', spent_cases (Some k) - 1)] [] at_time = Inr put"
    using giving(12) by (simp add: spent_cases_def)
  have names: "item_get i ''support_scope_id'' = PStr (ad_scope_id a)" "item_get i ''week_identity'' = PStr (week_identity wk)"
    using admission_names [OF giving(5)] refund_week_identity [OF giving(6)] by simp_all
  have "case_run (rows u) (rows w')"
  proof (rule persisted_run [OF _ giving(13)])
    fix t t'
    assume t: "case_run (rows u) t" and tx: "tx_apply (base @ [Put (refunded_receipt cd i v reason at_time)
         (C_And (C_Eq ''state_version'' (PInt v)) (C_Absent ''refunded_at'')), put]) t = Some t'"
    show "case_run t t'"
      by (rule give_back_tx [OF seen later(2,1) [OF t keyed(2)] keyed(1) put giving(2) [unfolded receipt_key]
            later(3) [OF case_run_trans [OF second t] keyed(1)] giving(7) names tx off])
  qed
  with case_run_trans [OF first second] show ?thesis by (rule case_run_trans)
qed

end

end
