(* ===== verification/Case_World.thy ===== *)
theory Case_World
  imports Case_Client Help_World
begin

text \<open>
  Admissions and refunds on a scripted table, among the calls of other servers: the interface of the
  allowance's clients is discharged there and on a table one server has to itself, and its property is
  stated with a concrete week.
\<close>

section \<open>Calls as a server takes them\<close>

text \<open>
  Kind and id of the case, the student, the operations of the caller's own transaction, the moment; a
  refund also has its reason. What runs between two calls is the caller's, not the allowance's.
\<close>

datatype case_call =
    Spend_Case string string string "op list" int
  | Refund_Case string string string string "op list" int

fun own_writes :: "case_call \<Rightarrow> op list" where
  "own_writes (Spend_Case c kind b base at_time) = base"
| "own_writes (Refund_Case c kind b reason base at_time) = base"

definition calm_case :: "case_call \<Rightarrow> bool" where
  "calm_case call \<longleftrightarrow> (\<forall>x\<in>set (own_writes call). off_cases x)"

record 'w case_server =
  sv_codec :: codec
  sv_rt :: runtime
  sv_links :: "'w link_index"

definition link_reader :: "(string \<Rightarrow> table \<Rightarrow> item list) \<Rightarrow> ('w \<Rightarrow> table) \<Rightarrow> 'w link_index" where
  "link_reader rd view =
     \<lparr>links_of_parent = (\<lambda>p w. (Inr [], w)), links_of_student = (\<lambda>s w. (Inr (rd s (view w)), w))\<rparr>"

definition case_server_of :: "codec \<Rightarrow> runtime \<Rightarrow> (string \<Rightarrow> table \<Rightarrow> item list) \<Rightarrow> ('w \<Rightarrow> table) \<Rightarrow> 'w case_server" where
  "case_server_of cd rt rd view = \<lparr>sv_codec = cd, sv_rt = rt, sv_links = link_reader rd view\<rparr>"

fun serve_case :: "'w db \<Rightarrow> 'w case_server \<Rightarrow> case_call \<Rightarrow> 'w \<Rightarrow> 'w" where
  "serve_case db sv (Spend_Case c kind b base at_time) w =
     snd (admit_teacher_support_case (sv_codec sv) db (sv_rt sv) (sv_links sv) c kind b at_time (persist_rows db base) w)"
| "serve_case db sv (Refund_Case c kind b reason base at_time) w =
     snd (refund_teacher_support_case (sv_codec sv) db (sv_rt sv) c kind b reason at_time (persist_rows db base) w)"

context case_client
begin

lemma serve_case_run:
  assumes "keyed (rows w)" "calm_case call" and "\<And>s. reading (links_of_student (sv_links sv) s) rows env"
  shows "case_run (rows w) (rows (serve_case db sv call w))"
proof (cases call)
  case (Spend_Case c kind b base at_time)
  with assms(2) show ?thesis
    using admit_run [OF prod.collapse [symmetric] assms(3,1)] by (simp add: calm_case_def)
next
  case (Refund_Case c kind b reason base at_time)
  with assms(2) show ?thesis
    using refund_run [OF prod.collapse [symmetric] assms(1)] by (simp add: calm_case_def)
qed

lemma serve_cases_run:
  assumes "keyed (rows w)" "\<forall>call\<in>set calls. calm_case call"
    and "\<And>s. reading (links_of_student (sv_links sv) s) rows env"
  shows "case_run (rows w) (rows (fold (serve_case db sv) calls w))"
  using assms(1,2)
proof (induction calls arbitrary: w)
  case (Cons call calls)
  from serve_case_run [OF Cons.prems(1) _ assms(3)] Cons.prems(2)
  have r: "case_run (rows w) (rows (serve_case db sv call w))" by simp
  from Cons.IH [OF case_run_keyed [OF r Cons.prems(1)]] Cons.prems(2) r show ?case by (auto intro: case_run_trans)
qed simp

end

section \<open>The interface discharged\<close>

interpretation lone_cases: case_client table_db "\<lambda>t. t" "(=)"
  by unfold_locales simp

lemma link_reader_reads:
  assumes "\<And>t. env t t"
  shows "reading (links_of_student (sv_links (case_server_of cd rt rd view)) s) view env"
  using assms by (auto simp: reading_def case_server_of_def link_reader_def)

definition run_case_call :: "codec \<Rightarrow> runtime \<Rightarrow> (string \<Rightarrow> table \<Rightarrow> item list) \<Rightarrow> case_call \<Rightarrow> table \<Rightarrow> table" where
  "run_case_call cd rt rd call t =
     (if keyed t \<and> calm_case call then serve_case table_db (case_server_of cd rt rd (\<lambda>t. t)) call t else t)"

lemma run_case_call_run: "case_run t (run_case_call cd rt rd call t)"
  using lone_cases.serve_case_run [of t call "case_server_of cd rt rd (\<lambda>t. t)", OF _ _ link_reader_reads]
  by (simp add: run_case_call_def)

lemma acts_case_run: "acts (run_case_call cd rt rd) t t' \<Longrightarrow> case_run t t'"
proof -
  have "case_run u (fold (run_case_call cd rt rd) cs u)" for cs u
    by (induction cs arbitrary: u) (auto intro: case_run_trans run_case_call_run)
  then show "acts (run_case_call cd rt rd) t t' \<Longrightarrow> case_run t t'" by (auto simp: acts_def)
qed

interpretation shared_cases: case_client "world_db (run_case_call cd rt rd)" tbl "acts (run_case_call cd rt rd)"
  for cd rt rd
  by unfold_locales (rule acts_case_run)

definition cases_served ::
    "codec \<Rightarrow> runtime \<Rightarrow> (string \<Rightarrow> table \<Rightarrow> item list) \<Rightarrow> case_call list \<Rightarrow> case_call world \<Rightarrow> case_call world" where
  "cases_served cd rt rd calls w = fold (serve_case (world_db (run_case_call cd rt rd)) (case_server_of cd rt rd tbl)) calls w"

lemma cases_served_run:
  assumes "keyed (tbl w)" "\<forall>call\<in>set calls. calm_case call"
  shows "case_run (tbl w) (tbl (cases_served cd rt rd calls w))"
  unfolding cases_served_def
  by (rule shared_cases.serve_cases_run [OF assms link_reader_reads [OF acts_refl]])

section \<open>A week with one case spent\<close>

definition spent_receipt :: item where
  "spent_receipt = dict_of [(''PK'', PStr ''TEACHER_SUPPORT_CASE#d1''), (''SK'', PStr ''ADMISSION''),
     (''support_scope_id'', PStr ''s1''), (''week_identity'', PStr ''2026-W10''), (''state_version'', PDec 1)]"

definition spent_week :: item where
  "spent_week = dict_of [(''PK'', PStr ''TEACHER_SUPPORT#s1''), (''SK'', PStr ''WEEK#2026-W10''),
     (''admitted_cases'', PDec 1), (''version'', PDec 1)]"

definition spent_table :: table where
  "spent_table = Map.empty(receipt_at ''d1'' \<mapsto> spent_receipt, cases_at ''s1'' ''2026-W10'' \<mapsto> spent_week)"

lemma spent_receipt_names:
  "item_get spent_receipt ''support_scope_id'' = PStr ''s1''" "item_get spent_receipt ''week_identity'' = PStr ''2026-W10''"
  by (simp_all add: spent_receipt_def row_lookup)

lemma spent_keys:
  "item_key spent_receipt = Some (receipt_at ''d1'')" "item_key spent_week = Some (cases_at ''s1'' ''2026-W10'')"
  by (simp_all add: item_key_def spent_receipt_def spent_week_def row_lookup receipt_at_def cases_at_def)

lemma spent_table_keyed: "keyed spent_table"
  using spent_keys by (auto simp: keyed_def spent_table_def split: if_splits)

lemma spent_table_ok: "cases_ok spent_table"
proof -
  have "spent_receipt ''refunded_at'' = None" by (simp add: spent_receipt_def dict_of_def)
  then have "spent_in spent_table s wid = (if s = ''s1'' \<and> wid = ''2026-W10'' then {''d1''} else {})" for s wid
    by (auto simp: spent_in_def spent_table_def counts_in_def spent_receipt_names split: if_splits)
  moreover have "case_number spent_table s wid = (if s = ''s1'' \<and> wid = ''2026-W10'' then 1 else 0)" for s wid
    by (simp add: case_number_def spent_table_def spent_week_def row_lookup num_of_def rat_whole_def)
  ultimately show ?thesis by (simp add: cases_ok_def ASSIGNED_WEEKLY_CASES_MAXIMUM_def)
qed

text \<open>
  C40: cases are conserved. Whatever admissions and refunds servers run among one another's - calls
  dropped, answers lost, transactions that fail to commit, whatever else their callers write in them -
  every week's counter stays the number of receipts of that week which have not been given back, so no
  case is charged twice, charged without a receipt, or given back twice; and it never exceeds the most
  any plan or administrator may allow.
\<close>

theorem cases_conserved:
  assumes "keyed (tbl w)" and "cases_ok (tbl w)" and "\<forall>call\<in>set calls. calm_case call"
  shows "cases_ok (tbl (cases_served cd rt rd calls w))"
  by (rule case_run_ok [OF cases_served_run [OF assms(1,3)] assms(2)])

theorem cases_conserved_witness:
  "cases_ok (tbl (cases_served plain_codec plain_runtime (\<lambda>s t. [])
     [Spend_Case ''c1'' ''question'' ''b1'' [Check (''a'', ''b'') C_True] 0,
      Refund_Case ''c1'' ''question'' ''b1'' ''withdrawn'' [] 5]
     \<lparr>tbl = spent_table, script = [([Refund_Case ''c1'' ''question'' ''b1'' ''withdrawn'' [] 5], Answer_Lost),
        ([Spend_Case ''c2'' ''question'' ''b1'' [] 3], Dropped)]\<rparr>))"
  by (rule cases_conserved) (simp_all add: spent_table_keyed spent_table_ok calm_case_def)

end
