(* ===== verification/Rate_Limit.thy ===== *)
theory Rate_Limit
  imports Support_Cases Help_Dispatch
begin

text \<open>
  Rate admission (\<open>services/rate_limit.py\<close>): a daily quota per account and kind, where each logical
  operation is charged once under its own receipt; and a fixed window per network source, counted
  before the work it guards, with the address it counts under.
\<close>

section \<open>Kinds and keys\<close>

datatype rate_kind = Chat | Hint

fun kind_text :: "rate_kind \<Rightarrow> string" where
  "kind_text Chat = ''chat''"
| "kind_text Hint = ''hint''"

fun kind_upper :: "rate_kind \<Rightarrow> string" where
  "kind_upper Chat = ''CHAT''"
| "kind_upper Hint = ''HINT''"

definition rate_kind_of :: "string \<Rightarrow> rate_kind result" where
  "rate_kind_of v =
     (case required_field v of
        Inl e \<Rightarrow> Inl e
      | Inr t \<Rightarrow>
          if lower t = ''chat'' then Inr Chat else if lower t = ''hint'' then Inr Hint else Inl Value_Error)"

definition digest_arg :: "string \<Rightarrow> string result" where
  "digest_arg v =
     (case required_field v of Inl e \<Rightarrow> Inl e | Inr d \<Rightarrow> if sha_text d then Inr d else Inl Value_Error)"

text \<open>The UTC date of an instant, \<open>strftime("%Y-%m-%d")\<close>.\<close>

definition utc_date :: "int \<Rightarrow> string" where
  "utc_date now =
     (case date_of now of (y, m, d) \<Rightarrow>
        padded 4 (nat y) @ ''-'' @ padded 2 (nat m) @ ''-'' @ padded 2 (nat d))"

text \<open>\<open>quota_period or ...\<close>: a missing or empty period is the day of the instant.\<close>

definition quota_period :: "string option \<Rightarrow> int \<Rightarrow> string result" where
  "quota_period given now =
     required_field (case given of None \<Rightarrow> utc_date now | Some p \<Rightarrow> if p = [] then utc_date now else p)"

definition build_rate_operation_id ::
    "codec \<Rightarrow> string \<Rightarrow> string \<Rightarrow> string \<Rightarrow> string option \<Rightarrow> int \<Rightarrow> string result" where
  "build_rate_operation_id cd kind owner caller_id period today =
     (case rate_kind_of kind of
        Inl e \<Rightarrow> Inl e
      | Inr k \<Rightarrow>
          (case (required_field owner, required_field caller_id, quota_period period today) of
             (Inr u, Inr c, Inr p) \<Rightarrow>
               Inr (domain_digest cd ''stoa.rate-admission.operation.v1'' [kind_text k, u, p, c])
           | _ \<Rightarrow> Inl Value_Error))"

definition rate_payload_digest :: "codec \<Rightarrow> string \<Rightarrow> string \<Rightarrow> string result" where
  "rate_payload_digest cd kind resource =
     (case (rate_kind_of kind, required_field resource) of
        (Inr k, Inr r) \<Rightarrow> Inr (domain_digest cd ''stoa.rate-admission.payload.v1'' [kind_text k, r])
      | _ \<Rightarrow> Inl Value_Error)"

definition rate_counter_key :: "string \<Rightarrow> rate_kind \<Rightarrow> string \<Rightarrow> key" where
  "rate_counter_key u k p = (''USAGE#'' @ u, kind_upper k @ ''#'' @ p)"

definition operation_key :: "string \<Rightarrow> rate_kind \<Rightarrow> string \<Rightarrow> key" where
  "operation_key u k oid = (''USAGE#'' @ u, kind_upper k @ ''_QUOTA_OP#'' @ oid)"

section \<open>What is stored\<close>

text \<open>\<open>_stored_nonnegative_int\<close>\<close>

definition stored_nonnegative_int :: "pyval \<Rightarrow> int option" where
  "stored_nonnegative_int v = (case exact_int v of None \<Rightarrow> None | Some n \<Rightarrow> if 0 \<le> n then Some n else None)"

text \<open>\<open>item.get(name, 0)\<close>: an absent attribute counts as nothing.\<close>

definition get_or_zero :: "item \<Rightarrow> string \<Rightarrow> pyval" where
  "get_or_zero i a = (case i a of None \<Rightarrow> PInt 0 | Some v \<Rightarrow> v)"

record counter_seen =
  seen_count :: int
  seen_expiry :: int
  count_exists :: bool
  expiry_exists :: bool

definition counter_state :: "'w db \<Rightarrow> key \<Rightarrow> 'w \<Rightarrow> counter_seen result \<times> 'w" where
  "counter_state db k w =
     (case strong_get db k w of
        (Inl e, w1) \<Rightarrow> (Inl e, w1)
      | (Inr found, w1) \<Rightarrow>
          (let i = (case found of None \<Rightarrow> Map.empty | Some i \<Rightarrow> i)
           in case (stored_nonnegative_int (get_or_zero i ''count''), stored_nonnegative_int (get_or_zero i ''expires_at'')) of
                (Some n, Some x) \<Rightarrow>
                  (Inr \<lparr>seen_count = n, seen_expiry = x, count_exists = (i ''count'' \<noteq> None),
                     expiry_exists = (i ''expires_at'' \<noteq> None)\<rparr>, w1)
              | _ \<Rightarrow> (Inl Dependency_Failure, w1)))"

section \<open>Answers\<close>

datatype rate_disposition = Rate_Admitted | Rate_Replayed | Rate_Limited | Rate_Conflict | Rate_Retryable

fun disposition_text :: "rate_disposition \<Rightarrow> string" where
  "disposition_text Rate_Admitted = ''admitted''"
| "disposition_text Rate_Replayed = ''replayed''"
| "disposition_text Rate_Limited = ''limit_exceeded''"
| "disposition_text Rate_Conflict = ''idempotency_conflict''"
| "disposition_text Rate_Retryable = ''retryable''"

record rate_result =
  rr_disposition :: rate_disposition
  rr_owner :: string
  rr_kind :: rate_kind
  rr_operation :: string
  rr_period :: string
  rr_counter_key :: string
  rr_value :: int
  rr_limit :: int
  rr_expires :: int
  rr_decision :: string

text \<open>One logical operation, its arguments checked.\<close>

record rate_op =
  ro_owner :: string
  ro_kind :: rate_kind
  ro_id :: string
  ro_digest :: string
  ro_period :: string
  ro_limit :: int
  ro_now :: int

abbreviation op_counter :: "rate_op \<Rightarrow> key" where
  "op_counter ro \<equiv> rate_counter_key (ro_owner ro) (ro_kind ro) (ro_period ro)"

abbreviation op_receipt :: "rate_op \<Rightarrow> key" where
  "op_receipt ro \<equiv> operation_key (ro_owner ro) (ro_kind ro) (ro_id ro)"

definition rate_answer :: "rate_op \<Rightarrow> rate_disposition \<Rightarrow> int \<Rightarrow> int \<Rightarrow> int \<Rightarrow> string option \<Rightarrow> rate_result" where
  "rate_answer ro d n cap x decision =
     \<lparr>rr_disposition = d, rr_owner = ro_owner ro, rr_kind = ro_kind ro, rr_operation = ro_id ro,
      rr_period = ro_period ro, rr_counter_key = fst (op_counter ro) @ ''/'' @ snd (op_counter ro),
      rr_value = n, rr_limit = cap, rr_expires = x,
      rr_decision = (case decision of None \<Rightarrow> disposition_text d | Some s \<Rightarrow> s)\<rparr>"

definition RATE_SCHEMA :: string where
  "RATE_SCHEMA = ''rate-admission-operation.v2''"

text \<open>A stored receipt that reads as an admission of this very operation.\<close>

definition receipt_valid :: "item \<Rightarrow> rate_op \<Rightarrow> bool" where
  "receipt_valid i ro \<longleftrightarrow>
     item_get i ''entity_type'' = PStr ''rate_admission_operation'' \<and> item_get i ''schema_version'' = PStr RATE_SCHEMA
     \<and> item_get i ''owner_id'' = PStr (ro_owner ro) \<and> item_get i ''kind'' = PStr (kind_text (ro_kind ro))
     \<and> item_get i ''operation_id'' = PStr (ro_id ro) \<and> item_get i ''quota_period'' = PStr (ro_period ro)
     \<and> item_get i ''status'' = PStr ''admitted'' \<and> is_pstr (item_get i ''payload_digest'')
     \<and> item_get i ''decision'' = PStr ''admitted''
     \<and> (case stored_nonnegative_int (item_get i ''counter_value_after'') of None \<Rightarrow> False | Some n \<Rightarrow> 0 < n)
     \<and> (case stored_nonnegative_int (item_get i ''limit'') of None \<Rightarrow> False | Some n \<Rightarrow> 0 < n)
     \<and> stored_nonnegative_int (item_get i ''receipt_expires_at'') \<noteq> None"

text \<open>\<open>value or d\<close> for a count that may be missing or nothing.\<close>

definition or_else :: "int option \<Rightarrow> int \<Rightarrow> int" where
  "or_else v d = (case v of None \<Rightarrow> d | Some n \<Rightarrow> if n = 0 then d else n)"

definition classify_operation :: "item \<Rightarrow> rate_op \<Rightarrow> rate_result" where
  "classify_operation i ro =
     rate_answer ro
       (if \<not> receipt_valid i ro then Rate_Retryable
        else if item_get i ''payload_digest'' \<noteq> PStr (ro_digest ro) then Rate_Conflict else Rate_Replayed)
       (or_else (stored_nonnegative_int (item_get i ''counter_value_after'')) 0)
       (or_else (stored_nonnegative_int (item_get i ''limit'')) (ro_limit ro))
       (or_else (stored_nonnegative_int (item_get i ''receipt_expires_at'')) 0)
       (Some (if receipt_valid i ro then ''admitted'' else ''retryable''))"

section \<open>One admission\<close>

definition OPERATION_TTL_SECONDS :: int where
  "OPERATION_TTL_SECONDS = 172800"

text \<open>\<open>int(now.timestamp())\<close>: the whole seconds of an instant in microseconds.\<close>

definition whole_seconds :: "int \<Rightarrow> int" where
  "whole_seconds now = Account_Fence.truncate (of_int now / 1000000)"

definition operation_row :: "codec \<Rightarrow> rate_op \<Rightarrow> int \<Rightarrow> int \<Rightarrow> int \<Rightarrow> item" where
  "operation_row cd ro g n x = dict_of
     [(''PK'', PStr (fst (op_receipt ro))), (''SK'', PStr (snd (op_receipt ro))),
      (''entity_type'', PStr ''rate_admission_operation''), (''schema_version'', PStr RATE_SCHEMA),
      (''operation_id'', PStr (ro_id ro)), (''owner_id'', PStr (ro_owner ro)), (''kind'', PStr (kind_text (ro_kind ro))),
      (''quota_period'', PStr (ro_period ro)), (''payload_digest'', PStr (ro_digest ro)), (''status'', PStr ''admitted''),
      (''decision'', PStr ''admitted''), (''counter_value_after'', PInt n), (''limit'', PInt (ro_limit ro)),
      (''receipt_expires_at'', PInt x), (''account_fence_generation'', PInt g), (''created_at'', PStr (iso cd (ro_now ro))),
      (''expires_at'', PInt (whole_seconds (ro_now ro) + OPERATION_TTL_SECONDS))]"

definition counter_update :: "rate_op \<Rightarrow> int \<Rightarrow> counter_seen \<Rightarrow> op" where
  "counter_update ro g seen =
     Update (op_counter ro)
       [U_Set ''count'' (PInt (seen_count seen + 1)),
        U_Set_If_Absent ''expires_at'' (PInt (whole_seconds (ro_now ro) + OPERATION_TTL_SECONDS)),
        U_Set_If_Absent ''entity_type'' (PStr ''rate_counter''), U_Set_If_Absent ''owner_id'' (PStr (ro_owner ro)),
        U_Set_If_Absent ''quota_period'' (PStr (ro_period ro)), U_Set ''account_fence_generation'' (PInt g)]
       (if count_exists seen then C_Eq ''count'' (PInt (seen_count seen)) else C_Absent ''count'')"

definition receipt_expiry :: "rate_op \<Rightarrow> counter_seen \<Rightarrow> int" where
  "receipt_expiry ro seen =
     (if expiry_exists seen then seen_expiry seen else whole_seconds (ro_now ro) + OPERATION_TTL_SECONDS)"

text \<open>
  One round of the loop: the receipt, the counter, and when there is room the transaction. It ends in
  an answer, gives up, or asks for another round with the counter it saw.
\<close>

datatype rate_round = Answer rate_result | Give_Up counter_seen | Again counter_seen | Fails err

definition rate_commit :: "codec \<Rightarrow> 'w db \<Rightarrow> rate_op \<Rightarrow> int \<Rightarrow> op \<Rightarrow> counter_seen \<Rightarrow> 'w \<Rightarrow> rate_round \<times> 'w" where
  "rate_commit cd db ro g fence seen w =
     (case db_tx db [fence, Put (operation_row cd ro g (seen_count seen + 1) (receipt_expiry ro seen)) create_only,
                     counter_update ro g seen] w of
        (True, w1) \<Rightarrow>
          (Answer (rate_answer ro Rate_Admitted (seen_count seen + 1) (ro_limit ro) (receipt_expiry ro seen) None), w1)
      | (False, w1) \<Rightarrow>
          (case strong_get db (op_receipt ro) w1 of
             (Inl e, w2) \<Rightarrow> (Give_Up seen, w2)
           | (Inr (Some i), w2) \<Rightarrow> (Answer (classify_operation i ro), w2)
           | (Inr None, w2) \<Rightarrow> (Again seen, w2)))"

definition rate_attempt :: "codec \<Rightarrow> 'w db \<Rightarrow> rate_op \<Rightarrow> int \<Rightarrow> counter_seen \<Rightarrow> 'w \<Rightarrow> rate_round \<times> 'w" where
  "rate_attempt cd db ro g last_seen w =
     (case strong_get db (op_receipt ro) w of
        (Inl e, w1) \<Rightarrow> (Give_Up last_seen, w1)
      | (Inr (Some i), w1) \<Rightarrow> (Answer (classify_operation i ro), w1)
      | (Inr None, w1) \<Rightarrow>
          (case counter_state db (op_counter ro) w1 of
             (Inl e, w2) \<Rightarrow> (Give_Up last_seen, w2)
           | (Inr seen, w2) \<Rightarrow>
               (if ro_limit ro \<le> seen_count seen
                then (Answer (rate_answer ro Rate_Limited (seen_count seen) (ro_limit ro) (seen_expiry seen) None), w2)
                else case active_fence_condition (ro_owner ro) (Some g) of
                    Inl e \<Rightarrow> (Fails e, w2)
                  | Inr fence \<Rightarrow> rate_commit cd db ro g fence seen w2)))"

fun rate_loop :: "nat \<Rightarrow> codec \<Rightarrow> 'w db \<Rightarrow> rate_op \<Rightarrow> int \<Rightarrow> counter_seen \<Rightarrow> 'w \<Rightarrow> rate_result result \<times> 'w" where
  "rate_loop 0 cd db ro g seen w =
     (Inr (rate_answer ro Rate_Retryable (seen_count seen) (ro_limit ro) (seen_expiry seen) None), w)"
| "rate_loop (Suc n) cd db ro g seen w =
     (case rate_attempt cd db ro g seen w of
        (Answer r, w1) \<Rightarrow> (Inr r, w1)
      | (Fails e, w1) \<Rightarrow> (Inl e, w1)
      | (Give_Up seen', w1) \<Rightarrow>
          (Inr (rate_answer ro Rate_Retryable (seen_count seen') (ro_limit ro) (seen_expiry seen') None), w1)
      | (Again seen', w1) \<Rightarrow> rate_loop n cd db ro g seen' w1)"

text \<open>The generation the write is fenced with: the caller's, or the one of the account's active fence.\<close>

definition fence_for :: "'w db \<Rightarrow> string \<Rightarrow> int option \<Rightarrow> 'w \<Rightarrow> int result \<times> 'w" where
  "fence_for db u generation w =
     (case generation of
        Some g \<Rightarrow> (if g \<le> 0 then Inl Value_Error else Inr g, w)
      | None \<Rightarrow>
          (case require_active_account_fence db u None w of
             (Inl e, w1) \<Rightarrow> (Inl e, w1)
           | (Inr fence, w1) \<Rightarrow> (Inr (fence_generation fence), w1)))"

definition admit_operation :: "codec \<Rightarrow> 'w db \<Rightarrow> rate_op \<Rightarrow> int option \<Rightarrow> 'w \<Rightarrow> rate_result result \<times> 'w" where
  "admit_operation cd db ro generation w =
     (case strong_get db (op_receipt ro) w of
        (Inl e, w1) \<Rightarrow> (Inr (rate_answer ro Rate_Retryable 0 (ro_limit ro) 0 None), w1)
      | (Inr (Some i), w1) \<Rightarrow> (Inr (classify_operation i ro), w1)
      | (Inr None, w1) \<Rightarrow>
          (case counter_state db (op_counter ro) w1 of
             (Inl e, w2) \<Rightarrow> (Inr (rate_answer ro Rate_Retryable 0 (ro_limit ro) 0 None), w2)
           | (Inr seen, w2) \<Rightarrow>
               (case fence_for db (ro_owner ro) generation w2 of
                  (Inl Provider_Error, w3) \<Rightarrow> (Inl Provider_Error, w3)
                | (Inl e, w3) \<Rightarrow>
                    (Inr (rate_answer ro Rate_Retryable (seen_count seen) (ro_limit ro) (seen_expiry seen) None), w3)
                | (Inr g, w3) \<Rightarrow> rate_loop 3 cd db ro g seen w3)))"

definition rate_op_of ::
    "string \<Rightarrow> string \<Rightarrow> string \<Rightarrow> string \<Rightarrow> int \<Rightarrow> string option \<Rightarrow> int \<Rightarrow> rate_op result" where
  "rate_op_of owner kind oid digest cap period now =
     (case (required_field owner, rate_kind_of kind, digest_arg oid, digest_arg digest) of
        (Inr u, Inr k, Inr i, Inr d) \<Rightarrow>
          (if cap \<le> 0 then Inl Value_Error
           else case quota_period period now of
               Inl e \<Rightarrow> Inl e
             | Inr p \<Rightarrow> Inr \<lparr>ro_owner = u, ro_kind = k, ro_id = i, ro_digest = d, ro_period = p, ro_limit = cap, ro_now = now\<rparr>)
      | _ \<Rightarrow> Inl Value_Error)"

definition check_and_record_operation ::
    "codec \<Rightarrow> 'w db \<Rightarrow> string \<Rightarrow> string \<Rightarrow> string \<Rightarrow> string \<Rightarrow> int \<Rightarrow> string option \<Rightarrow> int option \<Rightarrow> int \<Rightarrow> 'w
     \<Rightarrow> rate_result result \<times> 'w" where
  "check_and_record_operation cd db owner kind oid digest cap period generation now w =
     (case rate_op_of owner kind oid digest cap period now of
        Inl e \<Rightarrow> (Inl e, w)
      | Inr ro \<Rightarrow> admit_operation cd db ro generation w)"

section \<open>Hints\<close>

datatype hint_answer = Hint_Counted rate_result | Hint_Daily_Limit int | Hint_Operation_Conflict | Hint_Unavailable

definition counter_receipt_or_raise :: "rate_result \<Rightarrow> hint_answer" where
  "counter_receipt_or_raise r =
     (case rr_disposition r of
        Rate_Admitted \<Rightarrow> Hint_Counted r
      | Rate_Replayed \<Rightarrow> Hint_Counted r
      | Rate_Limited \<Rightarrow> Hint_Daily_Limit (rr_limit r)
      | Rate_Conflict \<Rightarrow> Hint_Operation_Conflict
      | Rate_Retryable \<Rightarrow> Hint_Unavailable)"

text \<open>The day is read from the clock before the instant of the admission is; \<open>daily\<close> is the configured limit.\<close>

definition check_and_record_hint ::
    "codec \<Rightarrow> 'w db \<Rightarrow> int \<Rightarrow> string \<Rightarrow> string \<Rightarrow> string \<Rightarrow> int option \<Rightarrow> int \<Rightarrow> int \<Rightarrow> 'w \<Rightarrow> hint_answer result \<times> 'w" where
  "check_and_record_hint cd db daily student challenge oid cap today now w =
     (let p = utc_date today
      in case (build_rate_operation_id cd ''hint'' student oid (Some p) today, rate_payload_digest cd ''hint'' challenge) of
           (Inr i, Inr d) \<Rightarrow>
             (case check_and_record_operation cd db student ''hint'' i d (case cap of None \<Rightarrow> daily | Some n \<Rightarrow> n)
                (Some p) None now w of
                (Inl e, w1) \<Rightarrow> (Inl e, w1)
              | (Inr r, w1) \<Rightarrow> (Inr (counter_receipt_or_raise r), w1))
         | _ \<Rightarrow> (Inl Value_Error, w))"

section \<open>The address a source is counted under\<close>

record web_request =
  peer_host :: "string option"
  forwarded_for :: "string option"

definition peer_of :: "web_request \<Rightarrow> string" where
  "peer_of rq = (case peer_host rq of None \<Rightarrow> [] | Some h \<Rightarrow> strip h)"

text \<open>\<open>raw.split(",")\<close>\<close>

fun split_commas :: "string \<Rightarrow> string list" where
  "split_commas [] = [[]]"
| "split_commas (c # cs) =
     (if c = CHR '','' then [] # split_commas cs
      else case split_commas cs of [] \<Rightarrow> [[c]] | part # parts \<Rightarrow> (c # part) # parts)"

definition forwarded_chain :: "web_request \<Rightarrow> string list" where
  "forwarded_chain rq =
     filter (\<lambda>s. s \<noteq> []) (map strip (split_commas (case forwarded_for rq of None \<Rightarrow> [] | Some h \<Rightarrow> h)))"

definition source_address :: "web_request \<Rightarrow> int \<Rightarrow> string option" where
  "source_address rq hops =
     (if hops < 0 then None
      else if hops = 0 then Some (peer_of rq)
      else let chain = forwarded_chain rq
           in if int (length chain) < hops + 1 then None
              else if peer_of rq \<noteq> [] \<and> last chain \<noteq> peer_of rq then None
              else Some (chain ! (length chain - 1 - nat hops)))"

definition client_source_digest :: "codec \<Rightarrow> web_request \<Rightarrow> int \<Rightarrow> string option" where
  "client_source_digest cd rq hops =
     map_option (\<lambda>s. sha256 cd (if s = [] then ''unknown'' else s)) (source_address rq hops)"

section \<open>Source windows\<close>

definition upper_char :: "char \<Rightarrow> char" where
  "upper_char c = (let n = of_char c :: nat in if 97 \<le> n \<and> n \<le> 122 then char_of (n - 32) else c)"

definition upper :: "string \<Rightarrow> string" where
  "upper s = map upper_char s"

definition source_window_key :: "string \<Rightarrow> string \<Rightarrow> int \<Rightarrow> key result" where
  "source_window_key scope digest start =
     (case (required_field scope, digest_arg digest) of
        (Inr b, Inr d) \<Rightarrow> Inr (''SOURCEWINDOW#'' @ upper b @ ''#'' @ d, ''WINDOW#'' @ int_text start)
      | _ \<Rightarrow> Inl Value_Error)"

definition window_begin :: "int \<Rightarrow> int \<Rightarrow> int" where
  "window_begin seconds now = whole_seconds now - whole_seconds now mod seconds"

definition source_window_count :: "'w db \<Rightarrow> string \<Rightarrow> string \<Rightarrow> int \<Rightarrow> int \<Rightarrow> 'w \<Rightarrow> int option result \<times> 'w" where
  "source_window_count db scope digest seconds now w =
     (if seconds \<le> 0 then (Inl Value_Error, w)
      else case source_window_key scope digest (window_begin seconds now) of
          Inl e \<Rightarrow> (Inl e, w)
        | Inr k \<Rightarrow>
            (case strong_get db k w of
               (Inl e, w1) \<Rightarrow> (Inr None, w1)
             | (Inr None, w1) \<Rightarrow> (Inr (Some 0), w1)
             | (Inr (Some i), w1) \<Rightarrow> (Inr (stored_nonnegative_int (item_get i ''count'')), w1)))"

text \<open>
  \<open>update_item\<close> with the new attributes returned: the client answers with them, or with nothing it can
  use (an exception, or an answer without them).
\<close>

type_synonym 'w updater = "op \<Rightarrow> 'w \<Rightarrow> item option \<times> 'w"

definition window_charge :: "key \<Rightarrow> int \<Rightarrow> op" where
  "window_charge k expires =
     Update k [U_Set ''entity_type'' (PStr ''source_rate_window''), U_Set ''expires_at'' (PInt expires), U_Add ''count'' 1] C_True"

definition admit_source_window ::
    "'w updater \<Rightarrow> string \<Rightarrow> string \<Rightarrow> int \<Rightarrow> int \<Rightarrow> int \<Rightarrow> 'w \<Rightarrow> bool result \<times> 'w" where
  "admit_source_window update scope digest cap seconds now w =
     (if cap \<le> 0 \<or> seconds \<le> 0 then (Inl Value_Error, w)
      else let start = window_begin seconds now
           in case source_window_key scope digest start of
                Inl e \<Rightarrow> (Inl e, w)
              | Inr k \<Rightarrow>
                  (case update (window_charge k (start + 2 * seconds)) w of
                     (None, w1) \<Rightarrow> (Inr False, w1)
                   | (Some attributes, w1) \<Rightarrow>
                       (Inr (case stored_nonnegative_int (item_get attributes ''count'') of
                               None \<Rightarrow> False
                             | Some n \<Rightarrow> 0 < n \<and> n \<le> cap), w1)))"

end
