(* ===== verification/Rate_Steps.thy ===== *)
theory Rate_Steps
  imports Rate_Limit Help_Steps Ledger_Rows
begin

text \<open>
  Rate admissions on the shared table as atomic steps. Each step creates one operation's receipt with
  the next number of its day and raises the day's counter to that number; so a day's receipts hold the
  numbers 1 to the counter's, each once and none above the limit it was admitted under.

  This is said of hints. The counters of chats under the same partition are written by another part of
  the program as well (\<open>services/ask_question/_store.py\<close> claims a message's place without a number on its
  receipt, and gives it back), so a chat's rows are foreign here: any write of them is a step.
\<close>

section \<open>Rows\<close>

lemma kind_upper_inject [simp]: "kind_upper k = kind_upper j \<longleftrightarrow> k = j"
  by (cases k; cases j) simp_all

lemma kind_upper_append [simp]: "kind_upper k @ a = kind_upper j @ b \<longleftrightarrow> k = j \<and> a = b"
  by (cases k; cases j) auto

lemma rate_keys [simp]:
  "rate_counter_key u k p = rate_counter_key v j q \<longleftrightarrow> u = v \<and> k = j \<and> p = q"
  "operation_key u k oid = operation_key v j pid \<longleftrightarrow> u = v \<and> k = j \<and> oid = pid"
  "rate_counter_key u k p \<noteq> operation_key v j oid" "operation_key v j oid \<noteq> rate_counter_key u k p"
  by (auto simp: rate_counter_key_def operation_key_def)

definition hint_row :: "key \<Rightarrow> bool" where
  "hint_row x \<longleftrightarrow> take 6 (fst x) = ''USAGE#'' \<and> take 4 (snd x) = ''HINT''"

lemma hint_row_simps [simp]:
  "hint_row (rate_counter_key u k p) \<longleftrightarrow> k = Hint" "hint_row (operation_key u k oid) \<longleftrightarrow> k = Hint"
  by (cases k; simp add: hint_row_def rate_counter_key_def operation_key_def)+

definition field_of :: "table \<Rightarrow> key \<Rightarrow> string \<Rightarrow> int" where
  "field_of t x a = (case t x of None \<Rightarrow> 0 | Some i \<Rightarrow> num_of (item_get i a))"

text \<open>A day's counter, the operations with a receipt of that day, and a receipt's number and limit.\<close>

abbreviation day_count :: "table \<Rightarrow> string \<Rightarrow> rate_kind \<Rightarrow> string \<Rightarrow> int" where
  "day_count t u k p \<equiv> field_of t (rate_counter_key u k p) ''count''"

abbreviation ticket :: "table \<Rightarrow> string \<Rightarrow> rate_kind \<Rightarrow> string \<Rightarrow> int" where
  "ticket t u k oid \<equiv> field_of t (operation_key u k oid) ''counter_value_after''"

abbreviation ticket_limit :: "table \<Rightarrow> string \<Rightarrow> rate_kind \<Rightarrow> string \<Rightarrow> int" where
  "ticket_limit t u k oid \<equiv> field_of t (operation_key u k oid) ''limit''"

definition charged :: "table \<Rightarrow> string \<Rightarrow> rate_kind \<Rightarrow> string \<Rightarrow> string set" where
  "charged t u k p = {oid. \<exists>i. t (operation_key u k oid) = Some i \<and> item_get i ''quota_period'' = PStr p}"

definition rates_ok :: "table \<Rightarrow> bool" where
  "rates_ok t \<longleftrightarrow> (\<forall>u p. 0 \<le> day_count t u Hint p \<and> bij_betw (ticket t u Hint) (charged t u Hint p) {1..day_count t u Hint p}
     \<and> (\<forall>oid\<in>charged t u Hint p. ticket t u Hint oid \<le> ticket_limit t u Hint oid))"

text \<open>What that means for a day on which every admission was held to the same limit.\<close>

lemma rates_ok_bound:
  assumes ok: "rates_ok t" and cap: "\<forall>oid\<in>charged t u Hint p. ticket_limit t u Hint oid \<le> L" and L: "0 \<le> L"
  shows "finite (charged t u Hint p)" and "int (card (charged t u Hint p)) \<le> L"
    and "day_count t u Hint p = int (card (charged t u Hint p))"
proof -
  let ?n = "day_count t u Hint p" and ?C = "charged t u Hint p" and ?ticket = "ticket t u Hint"
  from ok have n: "0 \<le> ?n" and bij: "bij_betw ?ticket ?C {1..?n}"
    and low: "\<forall>oid\<in>?C. ?ticket oid \<le> ticket_limit t u Hint oid" by (simp_all add: rates_ok_def)
  show "finite ?C" using bij_betw_finite [OF bij] by simp
  show card: "?n = int (card ?C)" using bij_betw_same_card [OF bij] n by simp
  have "?n \<le> L"
  proof (cases "?n = 0")
    case False
    with n have "?n \<in> ?ticket ` ?C" using bij by (simp add: bij_betw_def)
    then obtain oid where oid: "oid \<in> ?C" and n: "?n = ?ticket oid" by (rule imageE)
    from bspec [OF low oid] bspec [OF cap oid] show ?thesis unfolding n by (rule order_trans)
  qed (use L in simp)
  with card show "int (card ?C) \<le> L" by simp
qed

section \<open>Steps\<close>

definition same_rates :: "key set \<Rightarrow> table \<Rightarrow> table \<Rightarrow> bool" where
  "same_rates xs t t' \<longleftrightarrow> (\<forall>x. hint_row x \<longrightarrow> x \<notin> xs \<longrightarrow> t' x = t x)"

inductive rate_step :: "table \<Rightarrow> table \<Rightarrow> bool" where
  elsewhere: "same_rates {} t t' \<Longrightarrow> rate_step t t'"
| charge: "t (operation_key u Hint oid) = None \<Longrightarrow> t' (operation_key u Hint oid) = Some i \<Longrightarrow>
     item_get i ''quota_period'' = PStr p \<Longrightarrow> ticket t' u Hint oid = day_count t u Hint p + 1 \<Longrightarrow>
     ticket t' u Hint oid \<le> ticket_limit t' u Hint oid \<Longrightarrow> day_count t' u Hint p = day_count t u Hint p + 1 \<Longrightarrow>
     same_rates {operation_key u Hint oid, rate_counter_key u Hint p} t t' \<Longrightarrow> rate_step t t'"

lemma same_rates_at:
  assumes "same_rates xs t t'" "hint_row x" "x \<notin> xs"
  shows "field_of t' x a = field_of t x a" and "t' x = t x"
proof -
  show "t' x = t x" using assms unfolding same_rates_def by blast
  then show "field_of t' x a = field_of t x a" by (simp add: field_of_def)
qed

lemma same_rates_charged:
  assumes "same_rates xs t t'" "operation_key v Hint pid \<notin> xs"
  shows "pid \<in> charged t' v Hint q \<longleftrightarrow> pid \<in> charged t v Hint q"
  using same_rates_at(2) [OF assms(1) _ assms(2)] by (simp add: charged_def)

lemma rate_step_ok:
  assumes "rate_step t t'" "rates_ok t"
  shows "rates_ok t'"
  using assms(1)
proof cases
  case elsewhere
  have "charged t' u Hint p = charged t u Hint p" for u p
    using same_rates_charged [OF elsewhere] by (intro set_eqI) simp
  with assms(2) show ?thesis by (simp add: rates_ok_def same_rates_at(1) [OF elsewhere])
next
  case (charge u oid i p)
  note same = charge(7)
  let ?mine = "{operation_key u Hint oid, rate_counter_key u Hint p}"
  have fresh: "oid \<notin> charged t u Hint q" for q using charge(1) by (simp add: charged_def)
  have mine: "oid \<in> charged t' u Hint q \<longleftrightarrow> q = p" for q using charge(2,3) by (auto simp: charged_def)
  have set: "charged t' v Hint q = (if (v, q) = (u, p) then insert oid (charged t v Hint q) else charged t v Hint q)" for v q
  proof (rule set_eqI)
    fix pid
    show "pid \<in> charged t' v Hint q \<longleftrightarrow> pid \<in> (if (v, q) = (u, p) then insert oid (charged t v Hint q) else charged t v Hint q)"
    proof (cases "(v, pid) = (u, oid)")
      case True
      with mine fresh show ?thesis by auto
    next
      case False
      then have "operation_key v Hint pid \<notin> ?mine" by auto
      from same_rates_charged [OF same this] False show ?thesis by auto
    qed
  qed
  have others: "field_of t' (operation_key v Hint pid) a = field_of t (operation_key v Hint pid) a"
    if "pid \<in> charged t v Hint q" for v pid q a
  proof (rule same_rates_at(1) [OF same])
    show "operation_key v Hint pid \<notin> ?mine" using that fresh by auto
  qed simp
  have count: "day_count t' v Hint q = (if (v, q) = (u, p) then day_count t u Hint p + 1 else day_count t v Hint q)" for v q
  proof (cases "(v, q) = (u, p)")
    case False
    then show ?thesis using same_rates_at(1) [OF same, of "rate_counter_key v Hint q"] by auto
  qed (use charge(6) in simp)
  show ?thesis
    unfolding rates_ok_def
  proof (intro allI)
    fix v q
    let ?n = "day_count t v Hint q"
    from assms(2) have n: "0 \<le> ?n" and bij: "bij_betw (ticket t v Hint) (charged t v Hint q) {1..?n}"
      and low: "\<forall>pid\<in>charged t v Hint q. ticket t v Hint pid \<le> ticket_limit t v Hint pid" by (simp_all add: rates_ok_def)
    have old: "bij_betw (ticket t' v Hint) (charged t v Hint q) {1..?n}"
      using bij by (rule bij_betw_cong [THEN iffD2, rotated]) (rule others)
    show "0 \<le> day_count t' v Hint q \<and> bij_betw (ticket t' v Hint) (charged t' v Hint q) {1..day_count t' v Hint q}
       \<and> (\<forall>pid\<in>charged t' v Hint q. ticket t' v Hint pid \<le> ticket_limit t' v Hint pid)"
    proof (cases "(v, q) = (u, p)")
      case False
      then have "charged t' v Hint q = charged t v Hint q" "day_count t' v Hint q = ?n"
        using set [of v q] count [of v q] by (simp_all only: if_False)
      with n old low others show ?thesis by simp
    next
      case True
      let ?m = "day_count t u Hint p"
      have "bij_betw (ticket t' u Hint) (insert oid (charged t u Hint p)) (insert (?m + 1) {1..?m})"
        using old True charge(4) notIn_Un_bij_betw [of oid "charged t u Hint p" "ticket t' u Hint" "{1..?m}"] fresh by simp
      moreover have "insert (?m + 1) {1..?m} = {1..?m + 1}" using n True by auto
      ultimately show ?thesis using True n low others charge(5) by (simp add: set count)
    qed
  qed
qed

section \<open>Runs\<close>

definition rate_run :: "table \<Rightarrow> table \<Rightarrow> bool" where
  "rate_run = (\<lambda>t t'. rate_step t t' \<and> (keyed t \<longrightarrow> keyed t'))\<^sup>*\<^sup>*"

lemma rate_run_refl [simp]: "rate_run t t"
  by (simp add: rate_run_def)

lemma rate_run_trans: "rate_run a b \<Longrightarrow> rate_run b c \<Longrightarrow> rate_run a c"
  unfolding rate_run_def by (rule rtranclp_trans)

lemma rate_run_step: "rate_step t t' \<Longrightarrow> (keyed t \<Longrightarrow> keyed t') \<Longrightarrow> rate_run t t'"
  by (simp add: rate_run_def r_into_rtranclp)

lemma rate_run_ok: "rate_run t t' \<Longrightarrow> rates_ok t \<Longrightarrow> rates_ok t'"
  unfolding rate_run_def by (induction rule: rtranclp_induct) (auto dest: rate_step_ok)

lemma rate_run_keyed: "rate_run t t' \<Longrightarrow> keyed t \<Longrightarrow> keyed t'"
  unfolding rate_run_def by (induction rule: rtranclp_induct) auto

section \<open>The transaction of an admission\<close>

text \<open>What the counter said when it was read: at the moment the write commits it still says so.\<close>

definition seen_ok :: "counter_seen \<Rightarrow> bool" where
  "seen_ok seen \<longleftrightarrow> 0 \<le> seen_count seen \<and> (\<not> count_exists seen \<longrightarrow> seen_count seen = 0)"

lemma counter_state_seen: "counter_state db x w = (Inr seen, w') \<Longrightarrow> seen_ok seen"
  by (auto simp: counter_state_def Let_def seen_ok_def stored_nonnegative_int_def get_or_zero_def
      split: prod.splits sum.splits option.splits if_splits)

lemma counter_condition_count:
  assumes "seen_ok seen" "cond_holds (if count_exists seen then C_Eq ''count'' (PInt (seen_count seen)) else C_Absent ''count'') (row_at t x)"
  shows "field_of t x ''count'' = seen_count seen"
proof (cases "count_exists seen")
  case True
  with assms(2) obtain i v where i: "t x = Some i" "i ''count'' = Some v" "as_stored v = PDec (of_int (seen_count seen))"
    by (auto simp: row_at_def split: option.splits)
  then have "num_of v = seen_count seen" by (metis num_of_as_stored num_of_PInt as_stored.simps(1))
  with i show ?thesis by (simp add: field_of_def item_get_def)
next
  case False
  with assms show ?thesis by (auto simp: field_of_def seen_ok_def row_at_def item_get_def num_of_def split: option.splits)
qed

lemma operation_row_fields:
  "item_key (operation_row cd ro g n x) = Some (op_receipt ro)"
  "item_get (operation_row cd ro g n x) ''quota_period'' = PStr (ro_period ro)"
  "item_get (operation_row cd ro g n x) ''counter_value_after'' = PInt n"
  "item_get (operation_row cd ro g n x) ''limit'' = PInt (ro_limit ro)"
  by (simp_all add: item_key_def row_lookup operation_row_def)

lemma charge_tx:
  assumes tx: "tx_apply [fence, Put (operation_row cd ro g (seen_count seen + 1) x) create_only, counter_update ro g seen] t = Some t'"
    and fence: "active_fence_condition u h = Inr fence" and seen: "seen_ok seen" and room: "seen_count seen < ro_limit ro"
    and keyed: "keyed t"
  shows "rate_run t t'"
proof -
  let ?put = "Put (operation_row cd ro g (seen_count seen + 1) x) create_only" and ?upd = "counter_update ro g seen"
  let ?ops = "[fence, ?put, ?upd]"
  note d = tx_applyD [OF tx]
  obtain c where c: "fence = Check (''USER#'' @ strip u, ''ACCOUNT_FENCE'') c" by (rule active_fence_shape [OF fence])
  from d(2) have ok: "op_ok t ?put" "op_ok t ?upd" by simp_all
  from ok(1) keyed have absent: "t (op_receipt ro) = None"
    by (simp only: op_ok_Put [OF operation_row_fields(1)] keyed_create_only)
  from ok(2) have count: "field_of t (op_counter ro) ''count'' = seen_count seen"
    by (intro counter_condition_count [OF seen]) (simp add: counter_update_def split: if_splits)
  have new: "t' (op_receipt ro) = Some (stored_item (operation_row cd ro g (seen_count seen + 1) x))"
    using fold_write_at [OF d(1), of ?put "op_receipt ro" t] d(3) by (simp add: operation_row_fields(1))
  have upd: "t' (op_counter ro) = Some (updated_row (op_counter ro)
      [U_Set ''count'' (PInt (seen_count seen + 1)),
       U_Set_If_Absent ''expires_at'' (PInt (whole_seconds (ro_now ro) + OPERATION_TTL_SECONDS)),
       U_Set_If_Absent ''entity_type'' (PStr ''rate_counter''), U_Set_If_Absent ''owner_id'' (PStr (ro_owner ro)),
       U_Set_If_Absent ''quota_period'' (PStr (ro_period ro)), U_Set ''account_fence_generation'' (PInt g)] (t (op_counter ro)))"
    using fold_write_at [OF d(1), of ?upd "op_counter ro" t] d(3) by (simp add: counter_update_def)
  have same: "same_rates {op_receipt ro, op_counter ro} t t'"
    unfolding same_rates_def d(3)
    by (intro allI impI fold_write_other) (auto simp: c operation_row_fields(1) counter_update_def hint_row_def)
  have "rate_step t t'"
  proof (cases "ro_kind ro")
    case Hint
    have "day_count t' (ro_owner ro) Hint (ro_period ro) = seen_count seen + 1"
      using Hint by (simp add: field_of_def upd [unfolded Hint] updated_row_def Let_def item_get_def num_of_def del: of_int_add)
    moreover have "ticket t' (ro_owner ro) Hint (ro_id ro) = seen_count seen + 1"
        "ticket_limit t' (ro_owner ro) Hint (ro_id ro) = ro_limit ro"
      using Hint by (simp_all add: field_of_def new [unfolded Hint] operation_row_fields)
    ultimately show ?thesis
      using room count same absent new Hint
      by (intro rate_step.charge [where t = t and t' = t' and u = "ro_owner ro" and oid = "ro_id ro"
            and p = "ro_period ro" and i = "stored_item (operation_row cd ro g (seen_count seen + 1) x)"])
        (simp_all add: operation_row_fields)
  next
    case Chat
    have "same_rates {} t t'" unfolding same_rates_def
    proof (intro allI impI)
      fix x
      assume x: "hint_row x"
      with Chat have "x \<notin> {op_receipt ro, op_counter ro}" by auto
      with same x show "t' x = t x" unfolding same_rates_def by blast
    qed
    then show ?thesis by (rule rate_step.elsewhere)
  qed
  moreover have "keyed t'"
    by (rule keyed_tx [OF tx _ keyed]) (simp add: c counter_update_def)
  ultimately show ?thesis by (intro rate_run_step)
qed

end
