(* ===== verification/Rate_World.thy ===== *)
theory Rate_World
  imports Rate_Steps
begin

text \<open>
  Rate admissions as clients of a shared table, the interface discharged on a scripted one, and the
  properties of the daily quota, of the source windows and of the address they count under.
\<close>

section \<open>Admissions as runs\<close>

locale rate_client = store db rows env
  for db :: "'w db" and rows :: "'w \<Rightarrow> table" and env :: "table \<Rightarrow> table \<Rightarrow> bool" +
  assumes env_rates: "env t t' \<Longrightarrow> rate_run t t'"

context rate_client
begin

lemma read_run: "strong_get db k w = (r, w') \<Longrightarrow> rate_run (rows w) (rows w')"
  by (rule env_rates [OF strong_get_env])

lemma counter_state_run: "counter_state db k w = (r, w') \<Longrightarrow> rate_run (rows w) (rows w')"
  by (auto simp: counter_state_def Let_def split: prod.splits sum.splits option.splits dest: read_run)

lemma rate_commit_run:
  assumes call: "rate_commit cd db ro g fence seen w = (r, w')" and keyed: "keyed (rows w)"
    and fence: "active_fence_condition u h = Inr fence" and seen: "seen_ok seen" and room: "seen_count seen < ro_limit ro"
  shows "rate_run (rows w) (rows w')"
proof -
  obtain ok w1 where tx: "db_tx db [fence, Put (operation_row cd ro g (seen_count seen + 1) (receipt_expiry ro seen)) create_only,
      counter_update ro g seen] w = (ok, w1)" by fastforce
  have "rate_run (rows w) (rows w1)"
  proof (rule tx_run [OF env_rates rate_run_trans _ tx])
    fix t t'
    assume e: "env (rows w) t" and "tx_apply [fence, Put (operation_row cd ro g (seen_count seen + 1) (receipt_expiry ro seen))
        create_only, counter_update ro g seen] t = Some t'"
    from rate_run_keyed [OF env_rates [OF e] keyed] this(2)
    show "rate_run t t'" by (intro charge_tx [OF _ fence seen room])
  qed
  moreover have "rate_run (rows w1) (rows w')"
    using call tx by (auto simp: rate_commit_def split: bool.splits prod.splits sum.splits option.splits dest: read_run)
  ultimately show ?thesis by (rule rate_run_trans)
qed

lemma rate_attempt_run:
  assumes call: "rate_attempt cd db ro g seen w = (r, w')" and keyed: "keyed (rows w)"
  shows "rate_run (rows w) (rows w')"
proof -
  obtain x w1 where x: "strong_get db (op_receipt ro) w = (x, w1)" by fastforce
  obtain y w2 where y: "counter_state db (op_counter ro) w1 = (y, w2)" by fastforce
  note r1 = read_run [OF x] and r2 = rate_run_trans [OF read_run [OF x] counter_state_run [OF y]]
  have k2: "keyed (rows w2)" by (rule rate_run_keyed [OF r2 keyed])
  from call x y consider "w' = w1" | "w' = w2"
    | s fence where "y = Inr s" "seen_count s < ro_limit ro" "active_fence_condition (ro_owner ro) (Some g) = Inr fence"
        "rate_commit cd db ro g fence s w2 = (r, w')"
    by (auto simp: rate_attempt_def not_le split: sum.splits option.splits if_splits)
  then show ?thesis
  proof cases
    case 3
    have "rate_run (rows w2) (rows w')"
      by (rule rate_commit_run [OF 3(4) k2 3(3) counter_state_seen [OF y [unfolded 3(1)]] 3(2)])
    with r2 show ?thesis by (rule rate_run_trans)
  qed (use r1 r2 in simp_all)
qed

lemma rate_loop_run: "rate_loop n cd db ro g seen w = (r, w') \<Longrightarrow> keyed (rows w) \<Longrightarrow> rate_run (rows w) (rows w')"
proof (induction n arbitrary: seen w)
  case (Suc n)
  obtain x w1 where x: "rate_attempt cd db ro g seen w = (x, w1)" by fastforce
  note r = rate_attempt_run [OF x Suc.prems(2)]
  from Suc.prems(1) x consider "w' = w1" | seen' where "rate_loop n cd db ro g seen' w1 = (r, w')"
    by (auto split: rate_round.splits)
  then show ?case
  proof cases
    case 2
    from Suc.IH [OF 2 rate_run_keyed [OF r Suc.prems(2)]] r show ?thesis by (blast intro: rate_run_trans)
  qed (use r in simp)
qed simp

lemma fence_for_run: "fence_for db u g w = (r, w') \<Longrightarrow> rate_run (rows w) (rows w')"
  by (auto simp: fence_for_def split: option.splits prod.splits sum.splits if_splits
      dest!: require_active_account_fence_env intro: env_rates)

lemma admit_operation_run:
  assumes call: "admit_operation cd db ro g w = (r, w')" and keyed: "keyed (rows w)"
  shows "rate_run (rows w) (rows w')"
proof -
  obtain x w1 where x: "strong_get db (op_receipt ro) w = (x, w1)" by fastforce
  obtain y w2 where y: "counter_state db (op_counter ro) w1 = (y, w2)" by fastforce
  obtain z w3 where z: "fence_for db (ro_owner ro) g w2 = (z, w3)" by fastforce
  note r1 = read_run [OF x]
  note r2 = rate_run_trans [OF r1 counter_state_run [OF y]]
  note r3 = rate_run_trans [OF r2 fence_for_run [OF z]]
  from call x y z consider "w' = w1" | "w' = w2" | "w' = w3"
    | n seen where "rate_loop 3 cd db ro n seen w3 = (r, w')"
    by (auto simp: admit_operation_def split: sum.splits option.splits err.splits)
  then show ?thesis
  proof cases
    case 4
    from r3 rate_loop_run [OF 4 rate_run_keyed [OF r3 keyed]] show ?thesis by (rule rate_run_trans)
  qed (use r1 r2 r3 in simp_all)
qed

lemma check_and_record_run:
  "check_and_record_operation cd db u kind oid d cap p g now w = (r, w') \<Longrightarrow> keyed (rows w) \<Longrightarrow> rate_run (rows w) (rows w')"
  by (auto simp: check_and_record_operation_def split: sum.splits dest: admit_operation_run)

lemma check_and_record_hint_run:
  "check_and_record_hint cd db daily s c oid cap today now w = (r, w') \<Longrightarrow> keyed (rows w) \<Longrightarrow> rate_run (rows w) (rows w')"
  by (auto simp: check_and_record_hint_def Let_def split: sum.splits prod.splits dest: check_and_record_run)

end

section \<open>Servers on one table\<close>

datatype rate_call =
    Rate_Call string string string string int "string option" "int option" int
  | Hint_Call string string string "int option" int int

fun serve_rate :: "'w db \<Rightarrow> codec \<Rightarrow> int \<Rightarrow> rate_call \<Rightarrow> 'w \<Rightarrow> 'w" where
  "serve_rate db cd daily (Rate_Call u kind oid d cap p g now) w = snd (check_and_record_operation cd db u kind oid d cap p g now w)"
| "serve_rate db cd daily (Hint_Call s c oid cap today now) w = snd (check_and_record_hint cd db daily s c oid cap today now w)"

context rate_client
begin

lemma serve_rate_run: "keyed (rows w) \<Longrightarrow> rate_run (rows w) (rows (serve_rate db cd daily call w))"
  by (cases call) (auto intro: check_and_record_run [OF prod.collapse [symmetric]]
      check_and_record_hint_run [OF prod.collapse [symmetric]])

lemma serve_rates_run: "keyed (rows w) \<Longrightarrow> rate_run (rows w) (rows (fold (serve_rate db cd daily) calls w))"
proof (induction calls arbitrary: w)
  case (Cons call calls)
  note r = serve_rate_run [OF Cons.prems, of cd daily call]
  from r Cons.IH [OF rate_run_keyed [OF r Cons.prems]] show ?case by (auto intro: rate_run_trans)
qed simp

end

interpretation lone_rates: rate_client table_db "\<lambda>t. t" "(=)"
  by unfold_locales simp

text \<open>
  What others do between two calls of a server: an admission of another server, or a write or a removal
  of any row of the table that is not a hint's - a chat message's place and counter among them.
\<close>

datatype rate_command = Admission rate_call | Other_Write item | Other_Removal key

fun run_rate_call :: "codec \<Rightarrow> int \<Rightarrow> rate_command \<Rightarrow> table \<Rightarrow> table" where
  "run_rate_call cd daily (Admission call) t = (if keyed t then serve_rate table_db cd daily call t else t)"
| "run_rate_call cd daily (Other_Write i) t =
     (case item_key i of None \<Rightarrow> t | Some k \<Rightarrow> if hint_row k then t else t(k \<mapsto> stored_item i))"
| "run_rate_call cd daily (Other_Removal k) t = (if hint_row k then t else t(k := None))"

lemma run_rate_call_run: "rate_run t (run_rate_call cd daily c t)"
proof (cases c)
  case (Admission call)
  then show ?thesis using lone_rates.serve_rate_run [of t cd daily call] by simp
next
  case (Other_Write i)
  then show ?thesis
    by (auto simp: same_rates_def keyed_def item_key_stored split: option.split
        intro!: rate_run_step rate_step.elsewhere)
next
  case (Other_Removal k)
  then show ?thesis by (auto simp: same_rates_def keyed_def intro!: rate_run_step rate_step.elsewhere)
qed

lemma acts_rate_run: "acts (run_rate_call cd daily) t t' \<Longrightarrow> rate_run t t'"
proof -
  have "rate_run u (fold (run_rate_call cd daily) cs u)" for cs u
    by (induction cs arbitrary: u) (auto intro: rate_run_trans run_rate_call_run)
  then show "acts (run_rate_call cd daily) t t' \<Longrightarrow> rate_run t t'" by (auto simp: acts_def)
qed

interpretation shared_rates: rate_client "world_db (run_rate_call cd daily)" tbl "acts (run_rate_call cd daily)"
  for cd daily
  by unfold_locales (rule acts_rate_run)

definition rates_served :: "codec \<Rightarrow> int \<Rightarrow> rate_call list \<Rightarrow> rate_command world \<Rightarrow> rate_command world" where
  "rates_served cd daily calls w = fold (serve_rate (world_db (run_rate_call cd daily)) cd daily) calls w"

section \<open>Windows, one call after another\<close>

text \<open>
  The table's \<open>update_item\<close>, alone on a row at a time as the service runs it: it answers with the row,
  is dropped, or is applied with its answer lost.
\<close>

definition fated_update :: "fate \<Rightarrow> table updater" where
  "fated_update f oper t =
     (case tx_apply [oper] t of
        None \<Rightarrow> (None, t)
      | Some t' \<Rightarrow>
          (case f of
             Dropped \<Rightarrow> (None, t)
           | Answer_Lost \<Rightarrow> (None, t')
           | Answered \<Rightarrow> (case op_key oper of None \<Rightarrow> None | Some k \<Rightarrow> t' k, t')))"

record window_call =
  wc_scope :: string
  wc_digest :: string
  wc_cap :: int
  wc_seconds :: int
  wc_now :: int
  wc_fate :: fate

definition window_key :: "window_call \<Rightarrow> key result" where
  "window_key c = source_window_key (wc_scope c) (wc_digest c) (window_begin (wc_seconds c) (wc_now c))"

fun window_answers :: "window_call list \<Rightarrow> table \<Rightarrow> bool result list" where
  "window_answers [] t = []"
| "window_answers (c # cs) t =
     (case admit_source_window (fated_update (wc_fate c)) (wc_scope c) (wc_digest c) (wc_cap c) (wc_seconds c) (wc_now c) t of
        (r, t') \<Rightarrow> r # window_answers cs t')"

text \<open>What one window's row has counted, whatever is stored there.\<close>

definition window_number :: "table \<Rightarrow> key \<Rightarrow> rat" where
  "window_number t k = (case t k of None \<Rightarrow> 0 | Some i \<Rightarrow> (case py_num (item_get i ''count'') of None \<Rightarrow> 0 | Some q \<Rightarrow> q))"

lemma window_charge_tx:
  "tx_apply [window_charge k x] t = Some (op_write (window_charge k x) t)"
  by (simp add: tx_apply_def window_charge_def)

lemma charged_count:
  "\<exists>i. op_write (window_charge k x) t k = Some i \<and> item_get i ''count'' = PDec (window_number t k + 1)"
  by (cases "t k") (auto simp: window_charge_def updated_row_def Let_def item_get_def window_number_def num_plus_def
      dict_of_def split: option.splits)

lemma charged_number:
  "window_number (op_write (window_charge k x) t) j = (if j = k then window_number t k + 1 else window_number t j)"
proof (cases "j = k")
  case True
  obtain i where "op_write (window_charge k x) t k = Some i" "item_get i ''count'' = PDec (window_number t k + 1)"
    using charged_count by blast
  with True show ?thesis by (simp add: window_number_def)
qed (simp add: window_number_def window_charge_def)

text \<open>One call: another window's number stays; this one's rises by one or stays; an admission is a rise within the limit.\<close>

lemma one_window_call:
  assumes "admit_source_window (fated_update f) s d cap secs now t = (r, t')"
  shows "window_number t' k = window_number t k \<and> r \<noteq> Inr True
    \<or> source_window_key s d (window_begin secs now) \<noteq> Inr k \<and> window_number t' k = window_number t k
    \<or> source_window_key s d (window_begin secs now) = Inr k \<and> window_number t' k = window_number t k + 1
      \<and> (r = Inr True \<longrightarrow> 0 < window_number t' k \<and> window_number t' k \<le> of_int cap
          \<and> (\<exists>n. window_number t' k = of_int n))"
proof -
  consider (still) "t' = t" "r \<noteq> Inr True"
    | (charge) x x' where "source_window_key s d (window_begin secs now) = Inr x" "t' = op_write (window_charge x x') t"
        "r = Inr True \<longrightarrow> (\<exists>i n. t' x = Some i \<and> stored_nonnegative_int (item_get i ''count'') = Some n \<and> 0 < n \<and> n \<le> cap)"
    using assms
    by (fastforce simp: admit_source_window_def Let_def fated_update_def window_charge_tx window_charge_def [THEN arg_cong, of op_key]
        split: if_splits sum.splits prod.splits option.splits fate.splits)
  then show ?thesis
  proof cases
    case (charge x x')
    show ?thesis
    proof (cases "x = k")
      case True
      obtain i where i: "t' k = Some i" "item_get i ''count'' = PDec (window_number t k + 1)"
        using charged_count [of k x' t] charge(2) True by auto
      have "window_number t' k = window_number t k + 1" using charge(2) True by (simp add: charged_number)
      moreover have "0 < window_number t' k \<and> window_number t' k \<le> of_int cap \<and> (\<exists>n. window_number t' k = of_int n)" if "r = Inr True"
      proof -
        from that charge(3) True i(1) obtain n where n: "stored_nonnegative_int (item_get i ''count'') = Some n" "0 < n" "n \<le> cap" by auto
        then have "exact_int (item_get i ''count'') = Some n" by (auto simp: stored_nonnegative_int_def split: option.splits if_splits)
        from exact_int_py_num [OF this] i have "window_number t' k = of_int n" by (simp add: window_number_def)
        with n show ?thesis by auto
      qed
      ultimately show ?thesis using charge(1) True by blast
    next
      case False
      with charge show ?thesis by (simp add: charged_number)
    qed
  qed simp
qed

end
