(* ===== verification/Rate_Properties.thy ===== *)
theory Rate_Properties
  imports Rate_World
begin

text \<open>The properties of rate admission: the daily quota, the source windows, the address they count under.\<close>

section \<open>The daily quota\<close>

definition charged_receipt :: item where
  "charged_receipt = stored_item (operation_row plain_codec
     \<lparr>ro_owner = ''s1'', ro_kind = Hint, ro_id = ''o1'', ro_digest = ''d1'', ro_period = ''2026-03-02'', ro_limit = 5, ro_now = 0\<rparr> 1 1 9)"

definition charged_day :: item where
  "charged_day = dict_of [(''PK'', PStr ''USAGE#s1''), (''SK'', PStr ''HINT#2026-03-02''), (''count'', PDec 1)]"

definition charged_table :: table where
  "charged_table = Map.empty(operation_key ''s1'' Hint ''o1'' \<mapsto> charged_receipt,
     rate_counter_key ''s1'' Hint ''2026-03-02'' \<mapsto> charged_day)"

lemma charged_receipt_fields:
  "item_key charged_receipt = Some (operation_key ''s1'' Hint ''o1'')"
  "item_get charged_receipt ''quota_period'' = PStr ''2026-03-02''"
  "num_of (item_get charged_receipt ''counter_value_after'') = 1" "num_of (item_get charged_receipt ''limit'') = 5"
  by (simp_all add: charged_receipt_def item_key_stored operation_row_fields)

lemma charged_day_fields:
  "item_key charged_day = Some (rate_counter_key ''s1'' Hint ''2026-03-02'')" "num_of (item_get charged_day ''count'') = 1"
  by (simp_all add: charged_day_def item_key_def row_lookup rate_counter_key_def num_of_def rat_whole_def)

lemma charged_keyed: "keyed charged_table"
  using charged_receipt_fields(1) charged_day_fields(1) by (auto simp: keyed_def charged_table_def split: if_splits)

lemma charged_ok: "rates_ok charged_table"
proof -
  have set: "charged charged_table u k p = (if (u, k, p) = (''s1'', Hint, ''2026-03-02'') then {''o1''} else {})" for u k p
    using charged_receipt_fields(2) by (auto simp: charged_def charged_table_def split: if_splits)
  have count: "day_count charged_table u k p = (if (u, k, p) = (''s1'', Hint, ''2026-03-02'') then 1 else 0)" for u k p
    using charged_day_fields(2) by (auto simp: field_of_def charged_table_def)
  have "ticket charged_table ''s1'' Hint ''o1'' = 1" "ticket_limit charged_table ''s1'' Hint ''o1'' = 5"
    using charged_receipt_fields(3,4) by (simp_all add: field_of_def charged_table_def)
  then show ?thesis unfolding rates_ok_def set count by (auto simp: bij_betw_def)
qed

text \<open>
  C9: the daily quota of hints is exact. Whatever admissions servers run among one another's - calls
  dropped, answers lost, the same operation sent again and again - and whatever other parts of the
  program write to any row that is not a hint's, the receipts of an account's hints of a day hold the
  numbers 1 to the counter's, each exactly once, and none of them above the limit it was admitted
  under. So no hint is charged twice, and no limit is ever passed. (As long as nothing takes hint rows
  away: they expire after two days, and go with a deleted account. Chats are counted by other code
  too and are not claimed.)
\<close>

theorem daily_quota_is_exact:
  assumes "keyed (tbl w)" and "rates_ok (tbl w)"
  shows "rates_ok (tbl (rates_served cd daily calls w))"
  unfolding rates_served_def by (rule rate_run_ok [OF shared_rates.serve_rates_run [OF assms(1)] assms(2)])

theorem daily_quota_is_exact_witness:
  "rates_ok (tbl (rates_served plain_codec 5
     [Hint_Call ''s1'' ''ch1'' ''a'' None 1772445600000000 1772445600000001,
      Rate_Call ''s1'' ''chat'' (replicate 64 CHR ''0'') (replicate 64 CHR ''1'') 3 None (Some 1) 1772445600000002]
     \<lparr>tbl = charged_table, script = [([Admission (Hint_Call ''s1'' ''ch2'' ''b'' (Some 1) 0 1),
        Other_Write (dict_of [(''PK'', PStr ''USAGE#s1''), (''SK'', PStr ''CHAT#2026-03-02''), (''count'', PDec 0)])], Answer_Lost),
        ([Other_Removal (''USAGE#s1'', ''CHAT_QUOTA_OP#o''), Admission (Hint_Call ''s1'' ''ch3'' ''c'' None 0 2)], Dropped)]\<rparr>))"
  by (rule daily_quota_is_exact) (simp_all add: charged_keyed charged_ok)

section \<open>Source windows\<close>

definition admitted_in :: "key \<Rightarrow> int \<Rightarrow> window_call \<times> bool result \<Rightarrow> bool" where
  "admitted_in k L = (\<lambda>(c, r). window_key c = Inr k \<and> wc_cap c \<le> L \<and> r = Inr True)"

lemma window_admissions:
  "of_nat (length (filter (admitted_in k L) (zip cs (window_answers cs t)))) \<le> max 0 (of_int L - max 0 (window_number t k))"
proof (induction cs arbitrary: t)
  case (Cons c cs)
  obtain r t' where call: "admit_source_window (fated_update (wc_fate c)) (wc_scope c) (wc_digest c) (wc_cap c) (wc_seconds c)
      (wc_now c) t = (r, t')" by fastforce
  note IH = Cons.IH [of t']
  let ?q = "window_number t k" and ?q' = "window_number t' k"
  show ?case
  proof (cases "admitted_in k L (c, r)")
    case True
    then have "source_window_key (wc_scope c) (wc_digest c) (window_begin (wc_seconds c) (wc_now c)) = Inr k" "r = Inr True"
      by (simp_all add: admitted_in_def window_key_def)
    with one_window_call [OF call, of k] have q: "?q' = ?q + 1" "0 < ?q'" "?q' \<le> of_int (wc_cap c)" "\<exists>n. ?q' = of_int n"
      by blast+
    from q(4) obtain n where n: "?q' = of_int n" by blast
    with q(2) have "1 \<le> n" by simp
    then have "1 \<le> ?q'" using n by simp
    moreover from q(3) True have "?q' \<le> of_int L"
      by (auto simp: admitted_in_def intro: order_trans)
    ultimately show ?thesis using IH q(1) True by (simp add: call)
  next
    case False
    from one_window_call [OF call, of k] have "?q \<le> ?q'" by auto
    then have "max 0 (of_int L - max 0 ?q') \<le> max 0 (of_int L - max 0 ?q)" by simp
    with IH False show ?thesis by (simp add: call)
  qed
qed simp

text \<open>
  C16: a window admits at most its limit. Of any calls of any servers, one after another and whatever
  becomes of their answers, no more than \<open>L\<close> of those which count in the same window under a limit of
  at most \<open>L\<close> are admitted - whatever the row of the window holds to begin with.
\<close>

theorem source_window_holds_its_limit:
  "int (length (filter (admitted_in k L) (zip cs (window_answers cs t)))) \<le> max 0 L"
proof -
  have "rat_of_nat (length (filter (admitted_in k L) (zip cs (window_answers cs t)))) \<le> max 0 (of_int L - max 0 (window_number t k))"
    by (rule window_admissions)
  also have "\<dots> \<le> max 0 (of_int L)" by simp
  finally show ?thesis by (simp add: max_def split: if_splits)
qed

section \<open>The address\<close>

text \<open>What a proxy sends on: the header it got, if any, with the address it heard from.\<close>

definition hop :: "string option \<Rightarrow> string \<Rightarrow> string option" where
  "hop h a = Some (case h of None \<Rightarrow> a | Some s \<Rightarrow> s @ '', '' @ a)"

definition plain_address :: "string \<Rightarrow> bool" where
  "plain_address a \<longleftrightarrow> a \<noteq> [] \<and> (\<forall>c\<in>set a. c \<noteq> CHR '','' \<and> \<not> py_space c)"

text \<open>A request that came through the proxies, each telling whom it heard from, whatever header the caller sent.\<close>

definition through_proxies :: "string option \<Rightarrow> string \<Rightarrow> string list \<Rightarrow> web_request" where
  "through_proxies forged client proxies =
     \<lparr>peer_host = Some (last (client # proxies)), forwarded_for = foldl hop forged (client # proxies)\<rparr>"

lemma split_commas_not_Nil [simp]: "split_commas s \<noteq> []"
  by (cases s) (auto split: list.splits)

lemma split_commas_comma: "split_commas (a @ CHR '','' # b) = split_commas a @ split_commas b"
  by (induction a) (auto split: list.splits)

lemma split_commas_plain: "\<forall>c\<in>set a. c \<noteq> CHR '','' \<Longrightarrow> split_commas a = [a]"
  by (induction a) auto

definition header_chain :: "string option \<Rightarrow> string list" where
  "header_chain h = filter (\<lambda>s. s \<noteq> []) (map strip (split_commas (case h of None \<Rightarrow> [] | Some s \<Rightarrow> s)))"

lemma strip_space: "strip (CHR '' '' # a) = strip a"
proof -
  have "py_space CHR '' ''" by (simp add: py_space_def)
  then show ?thesis by (simp add: strip_def)
qed

lemma header_chain_hop: "plain_address a \<Longrightarrow> header_chain (hop h a) = header_chain h @ [a]"
proof -
  assume a: "plain_address a"
  then have s: "strip a = a" by (intro strip_visible) (auto simp: plain_address_def)
  have parts: "split_commas a = [a]" "split_commas (CHR '' '' # a) = [CHR '' '' # a]"
    using a by (simp_all add: plain_address_def split_commas_plain)
  have "header_chain None = []" by (simp add: header_chain_def strip_def)
  with a s parts show ?thesis
    by (cases h) (simp_all add: hop_def header_chain_def split_commas_comma [of _ "CHR '' '' # a", simplified] strip_space plain_address_def)
qed

lemma header_chain_hops: "\<forall>a\<in>set as. plain_address a \<Longrightarrow> header_chain (foldl hop h as) = header_chain h @ as"
  by (induction as arbitrary: h) (simp_all add: header_chain_hop)

text \<open>
  C8: forged addresses are ignored. Behind as many proxies as were declared - none included - the
  address counted under is the one the first proxy heard from, whatever forwarding header the caller
  sent along.
\<close>

theorem forged_addresses_are_ignored:
  assumes "\<forall>a\<in>set (client # proxies). plain_address a"
  shows "client_source_digest cd (through_proxies forged client proxies) (int (length proxies)) = Some (sha256 cd client)"
proof -
  let ?rq = "through_proxies forged client proxies" and ?n = "length proxies"
  have chain: "forwarded_chain ?rq = header_chain forged @ client # proxies"
    using header_chain_hops [OF assms, of forged] by (simp add: forwarded_chain_def header_chain_def through_proxies_def)
  have "plain_address (last (client # proxies))" using assms by simp
  then have peer: "peer_of ?rq = last (client # proxies)"
    by (simp add: peer_of_def through_proxies_def strip_visible plain_address_def)
  have "(header_chain forged @ client # proxies) ! (length (header_chain forged @ client # proxies) - 1 - ?n) = client"
    by (simp add: nth_append)
  then have "source_address ?rq (int ?n) = Some client"
    unfolding source_address_def Let_def chain peer by simp
  with assms show ?thesis by (simp add: client_source_digest_def plain_address_def)
qed

theorem forged_addresses_are_ignored_witness:
  "client_source_digest plain_codec (through_proxies (Some ''10.0.0.1, 8.8.8.8'') ''203.0.113.7'' [''172.16.0.1'', ''172.16.0.2'']) 2
     = Some (sha256 plain_codec ''203.0.113.7'')"
  using forged_addresses_are_ignored [of "''203.0.113.7''" "[''172.16.0.1'', ''172.16.0.2'']" plain_codec "Some ''10.0.0.1, 8.8.8.8''"]
  by (simp add: plain_address_def py_space_def)

end
