(* ===== verification/Access_Audit.thy ===== *)
theory Access_Audit
  imports Access_Gateway Support_Cases
begin

text \<open>
  The gateway's durable evidence (\<open>db/repositories/security_audit_repo.py\<close>): append-only events made
  of allowlisted scalars, keyed fingerprints in place of identities, keys that rotate, and one
  aggregate row per window for an actor's refused attempts.

  HMAC-SHA256 is an argument, like the digests of a \<open>codec\<close>; the validation of the configured keys is
  configuration and not modelled. A row of the table is never without attributes.
\<close>

section \<open>Events\<close>

definition SAFE_AUDIT_FIELDS :: "string list" where
  "SAFE_AUDIT_FIELDS =
     [''event_id'', ''event_type'', ''actor_id'', ''actor_fingerprint'', ''actor_role'', ''target_id'', ''target_type'',
      ''resource_type'', ''action'', ''purpose'', ''result_code'', ''version'', ''reason_code'', ''evidence_reference'',
      ''correlation_id'', ''command_id'', ''created_at'', ''decision_kind'', ''resource_fingerprint'', ''audit_key_id'',
      ''probe_bucket'', ''probe_count'', ''threshold_reached'', ''first_seen_at'', ''last_seen_at'', ''expires_at'']"

definition AUTHORIZATION_EVENT_TYPES :: "string list" where
  "AUTHORIZATION_EVENT_TYPES =
     [''authorization_denied'', ''authorization_sensitive_allowed'', ''authorization_probe_aggregated'',
      ''break_glass_notification_recorded'', ''break_glass_review_required'']"

text \<open>A field's value as the row carries it: a whole number as an \<open>int\<close>, a text, or a truth value.\<close>

definition project_value :: "pyval \<Rightarrow> pyval option" where
  "project_value v =
     (case v of
        PStr s \<Rightarrow> Some v
      | PBool b \<Rightarrow> Some v
      | _ \<Rightarrow> map_option PInt (stored_int v))"

fun project_fields :: "string list \<Rightarrow> item \<Rightarrow> item \<Rightarrow> item option" where
  "project_fields [] ev acc = Some acc"
| "project_fields (f # fs) ev acc =
     (if item_get ev f = PNone then project_fields fs ev acc
      else case project_value (item_get ev f) of
          None \<Rightarrow> None
        | Some v \<Rightarrow> project_fields fs ev (acc(f \<mapsto> v)))"

definition project_audit_event :: "runtime \<Rightarrow> item \<Rightarrow> item result" where
  "project_audit_event rt ev =
     (case project_fields SAFE_AUDIT_FIELDS ev Map.empty of
        None \<Rightarrow> Inl Value_Error
      | Some safe \<Rightarrow>
          if strip (str_or rt (item_get safe ''event_id'') []) = [] \<or> strip (str_or rt (item_get safe ''event_type'') []) = []
          then Inl Value_Error else Inr safe)"

definition audit_pk :: "string \<Rightarrow> string" where
  "audit_pk stream = ''SECURITY_AUDIT#'' @ stream"

definition event_key :: "string \<Rightarrow> string \<Rightarrow> key" where
  "event_key stream eid = (audit_pk stream, ''EVENT#'' @ eid)"

datatype append_outcome = Appended item | Duplicate_Event | Not_Appended err

definition event_row :: "runtime \<Rightarrow> string \<Rightarrow> item \<Rightarrow> item" where
  "event_row rt stream safe =
     dict_of [(''PK'', PStr (audit_pk stream)), (''SK'', PStr (''EVENT#'' @ py_str rt (item_get safe ''event_id''))),
       (''entity_type'', PStr ''security_audit_event'')] ++ safe"

definition append_event :: "runtime \<Rightarrow> 'w putter \<Rightarrow> string \<Rightarrow> item \<Rightarrow> 'w \<Rightarrow> append_outcome \<times> 'w" where
  "append_event rt put stream ev w =
     (case project_audit_event rt ev of
        Inl e \<Rightarrow> (Not_Appended e, w)
      | Inr safe \<Rightarrow>
          (case put (Put (event_row rt stream safe) create_only) w of
             (Put_Done, w1) \<Rightarrow> (Appended (event_row rt stream safe), w1)
           | (Put_Refused, w1) \<Rightarrow> (Duplicate_Event, w1)
           | (Put_Failed, w1) \<Rightarrow> (Not_Appended Provider_Error, w1)))"

definition append_authorization_event :: "runtime \<Rightarrow> 'w putter \<Rightarrow> string \<Rightarrow> item \<Rightarrow> 'w \<Rightarrow> append_outcome \<times> 'w" where
  "append_authorization_event rt put stream ev w =
     (if item_get ev ''event_type'' \<notin> PStr ` set AUTHORIZATION_EVENT_TYPES then (Not_Appended Value_Error, w)
      else append_event rt put stream ev w)"

record break_glass_evidence =
  bg_stream :: string
  bg_event_id :: string
  bg_actor_id :: string
  bg_resource_type :: string
  bg_action :: string
  bg_purpose :: string
  bg_incident_id :: string
  bg_notification :: string
  bg_review :: string
  bg_correlation_id :: string
  bg_created_at :: string

definition break_glass_common :: "break_glass_evidence \<Rightarrow> item" where
  "break_glass_common bg = dict_of
     [(''actor_id'', PStr (bg_actor_id bg)), (''resource_type'', PStr (bg_resource_type bg)),
      (''action'', PStr (bg_action bg)), (''purpose'', PStr (bg_purpose bg)),
      (''reason_code'', PStr ''incident_break_glass''), (''correlation_id'', PStr (bg_correlation_id bg)),
      (''created_at'', PStr (bg_created_at bg))]"

definition break_glass_event :: "break_glass_evidence \<Rightarrow> string \<Rightarrow> string \<Rightarrow> string \<Rightarrow> item" where
  "break_glass_event bg suffix typ reference =
     break_glass_common bg ++ dict_of
       [(''event_id'', PStr (bg_event_id bg @ suffix)), (''event_type'', PStr typ),
        (''target_id'', PStr (bg_incident_id bg)), (''evidence_reference'', PStr reference)]"

text \<open>The first event that is not appended ends the call.\<close>

definition append_break_glass_evidence ::
    "runtime \<Rightarrow> 'w putter \<Rightarrow> break_glass_evidence \<Rightarrow> 'w \<Rightarrow> append_outcome \<times> 'w" where
  "append_break_glass_evidence rt put bg w =
     (if \<exists>v\<in>set [bg_event_id bg, bg_actor_id bg, bg_resource_type bg, bg_action bg, bg_purpose bg, bg_incident_id bg,
          bg_notification bg, bg_review bg, bg_correlation_id bg, bg_created_at bg]. strip v = []
      then (Not_Appended Value_Error, w)
      else case append_authorization_event rt put (bg_stream bg)
               (break_glass_event bg '':notification'' ''break_glass_notification_recorded'' (bg_notification bg)) w of
          (Appended i, w1) \<Rightarrow>
            append_authorization_event rt put (bg_stream bg)
              (break_glass_event bg '':review'' ''break_glass_review_required'' (bg_review bg)) w1
        | (r, w1) \<Rightarrow> (r, w1))"

section \<open>Keyed identities\<close>

record audit_key =
  ak_id :: string
  ak_secret :: string

record audit_env =
  au_codec :: codec
  au_rt :: runtime
  au_hmac :: "string \<Rightarrow> string \<Rightarrow> string"
  au_active :: audit_key
  au_previous :: "audit_key list"
  au_window :: int
  au_ttl :: int
  au_count_cap :: int
  au_id_cap :: nat

definition audit_keys :: "audit_env \<Rightarrow> audit_key list" where
  "audit_keys au = au_active au # au_previous au"

definition canonical_parts :: "string list \<Rightarrow> string" where
  "canonical_parts parts = concat (map framed parts)"

definition keyed_fingerprint :: "audit_env \<Rightarrow> audit_key \<Rightarrow> string list \<Rightarrow> string" where
  "keyed_fingerprint au k parts = au_hmac au (ak_secret k) (canonical_parts parts)"

definition actor_fingerprint :: "audit_env \<Rightarrow> audit_key \<Rightarrow> string \<Rightarrow> string" where
  "actor_fingerprint au k actor_id = keyed_fingerprint au k [''actor'', actor_id]"

definition resource_fingerprint :: "audit_env \<Rightarrow> audit_key \<Rightarrow> audit_entry \<Rightarrow> string" where
  "resource_fingerprint au k e =
     keyed_fingerprint au k [ae_resource_type e, ae_resource_id e, ae_student_id e, text_or_empty (ae_owner_id e),
       ae_scope_discriminator e]"

definition decision_event_id :: "audit_env \<Rightarrow> audit_key \<Rightarrow> audit_entry \<Rightarrow> string" where
  "decision_event_id au k e =
     sha256 (au_codec au) (canonical_parts
       [ae_correlation_id e, ae_actor_id e, ae_policy_version e, ae_resource_type e, ae_action e, ae_purpose e,
        ae_result e, ae_decision_kind e, resource_fingerprint au k e, ak_id k])"

definition decision_key :: "audit_env \<Rightarrow> audit_key \<Rightarrow> audit_entry \<Rightarrow> key" where
  "decision_key au k e = event_key (actor_fingerprint au k (ae_actor_id e)) (decision_event_id au k e)"

section \<open>Persisting a decision\<close>

definition audit_get :: "'w db \<Rightarrow> key \<Rightarrow> 'w \<Rightarrow> item option result \<times> 'w" where
  "audit_get db k w =
     (case db_get db k w of
        (Resp_Failed, w1) \<Rightarrow> (Inl Provider_Error, w1)
      | (Resp_Malformed, w1) \<Rightarrow> (Inl Dependency_Failure, w1)
      | (Resp_None, w1) \<Rightarrow> (Inr None, w1)
      | (Resp_Item i, w1) \<Rightarrow> (Inr (Some i), w1))"

definition audit_record_of :: "audit_env \<Rightarrow> audit_key \<Rightarrow> audit_entry \<Rightarrow> bool \<Rightarrow> audit_record" where
  "audit_record_of au k e replayed =
     \<lparr>ar_event_id = decision_event_id au k e, ar_resource_fingerprint = resource_fingerprint au k e,
      ar_audit_key_id = ak_id k, ar_replayed = replayed\<rparr>"

text \<open>The event under an earlier key, if that decision was recorded before the keys rotated.\<close>

fun recorded_before :: "'w db \<Rightarrow> audit_env \<Rightarrow> audit_key list \<Rightarrow> audit_entry \<Rightarrow> 'w \<Rightarrow> audit_record option result \<times> 'w" where
  "recorded_before db au [] e w = (Inr None, w)"
| "recorded_before db au (k # ks) e w =
     (case audit_get db (decision_key au k e) w of
        (Inl x, w1) \<Rightarrow> (Inl x, w1)
      | (Inr (Some i), w1) \<Rightarrow> (Inr (Some (audit_record_of au k e True)), w1)
      | (Inr None, w1) \<Rightarrow> recorded_before db au ks e w1)"

definition decision_event :: "audit_env \<Rightarrow> audit_entry \<Rightarrow> int \<Rightarrow> item" where
  "decision_event au e now =
     (let k = au_active au
      in dict_of
        [(''event_id'', PStr (decision_event_id au k e)),
         (''event_type'', PStr (if ae_result e = ''allowed'' then ''authorization_sensitive_allowed'' else ''authorization_denied'')),
         (''actor_fingerprint'', PStr (actor_fingerprint au k (ae_actor_id e))), (''actor_role'', PStr (ae_actor_role e)),
         (''resource_type'', PStr (ae_resource_type e)), (''action'', PStr (ae_action e)), (''purpose'', PStr (ae_purpose e)),
         (''result_code'', PStr (ae_result e)), (''version'', PStr (ae_policy_version e)),
         (''decision_kind'', PStr (ae_decision_kind e)), (''resource_fingerprint'', PStr (resource_fingerprint au k e)),
         (''audit_key_id'', PStr (ak_id k)),
         (''evidence_reference'', case ae_evidence_reference e of None \<Rightarrow> PNone | Some s \<Rightarrow> PStr s),
         (''correlation_id'', PStr (ae_correlation_id e)), (''created_at'', PStr (iso (au_codec au) now))])"

definition persist_authorization_decision ::
    "'w db \<Rightarrow> 'w putter \<Rightarrow> audit_env \<Rightarrow> ('w \<Rightarrow> int) \<Rightarrow> audit_entry \<Rightarrow> 'w \<Rightarrow> audit_record result \<times> 'w" where
  "persist_authorization_decision db put au clock e w =
     (let k = au_active au; now = clock w
      in case recorded_before db au (au_previous au) e w of
           (Inl x, w1) \<Rightarrow> (Inl x, w1)
         | (Inr (Some r), w1) \<Rightarrow> (Inr r, w1)
         | (Inr None, w1) \<Rightarrow>
             (case append_authorization_event (au_rt au) put (actor_fingerprint au k (ae_actor_id e)) (decision_event au e now) w1 of
                (Appended i, w2) \<Rightarrow> (Inr (audit_record_of au k e False), w2)
              | (Duplicate_Event, w2) \<Rightarrow> (Inr (audit_record_of au k e True), w2)
              | (Not_Appended x, w2) \<Rightarrow> (Inl x, w2)))"

section \<open>Counting refused attempts\<close>

text \<open>
  \<open>_string_set\<close> and \<open>_nonnegative_int\<close>, on a stored value. The second takes an \<open>int\<close> only: a number
  that comes back as a \<open>Decimal\<close> is refused.
\<close>

definition string_set :: "pyval \<Rightarrow> string list result" where
  "string_set v =
     (case v of
        PNone \<Rightarrow> Inr []
      | PList vs \<Rightarrow>
          if list_all is_pstr vs then Inr (remdups (List.map_filter (\<lambda>x. case x of PStr s \<Rightarrow> Some s | _ \<Rightarrow> None) vs))
          else Inl Dependency_Failure
      | _ \<Rightarrow> Inl Dependency_Failure)"

fun nonnegative_int :: "pyval \<Rightarrow> int result" where
  "nonnegative_int PNone = Inr 0"
| "nonnegative_int (PInt n) = (if n < 0 then Inl Dependency_Failure else Inr n)"
| "nonnegative_int v = Inl Dependency_Failure"

record probe =
  pb_record :: audit_record
  pb_entry :: audit_entry
  pb_key :: audit_key
  pb_now :: int

definition probe_bucket :: "audit_env \<Rightarrow> int \<Rightarrow> int" where
  "probe_bucket au now =
     (let epoch = Account_Fence.truncate (of_int now / 1000000) in epoch - epoch mod au_window au)"

definition aggregate_id :: "audit_env \<Rightarrow> probe \<Rightarrow> string" where
  "aggregate_id au pb =
     (let e = pb_entry pb
      in sha256 (au_codec au) (canonical_parts
           [ae_actor_id e, ae_resource_type e, ae_action e, ae_purpose e, ae_result e, ae_policy_version e,
            ar_audit_key_id (pb_record pb), int_text (probe_bucket au (pb_now pb))]))"

definition probe_key :: "audit_env \<Rightarrow> probe \<Rightarrow> key" where
  "probe_key au pb = (audit_pk (actor_fingerprint au (pb_key pb) (ae_actor_id (pb_entry pb))), ''PROBE#'' @ aggregate_id au pb)"

definition probe_event :: "audit_env \<Rightarrow> probe \<Rightarrow> pyval \<Rightarrow> int \<Rightarrow> item" where
  "probe_event au pb first_seen n =
     (let e = pb_entry pb; now_text = iso (au_codec au) (pb_now pb); bucket = probe_bucket au (pb_now pb)
      in dict_of
        [(''event_id'', PStr (aggregate_id au pb)), (''event_type'', PStr ''authorization_probe_aggregated''),
         (''actor_fingerprint'', PStr (actor_fingerprint au (pb_key pb) (ae_actor_id e))),
         (''resource_type'', PStr (ae_resource_type e)), (''action'', PStr (ae_action e)), (''purpose'', PStr (ae_purpose e)),
         (''result_code'', PStr (ae_result e)), (''version'', PStr (ae_policy_version e)),
         (''audit_key_id'', PStr (ar_audit_key_id (pb_record pb))), (''probe_bucket'', PStr (int_text bucket)),
         (''probe_count'', PInt n), (''threshold_reached'', PBool (min 10 (au_count_cap au) \<le> n)),
         (''first_seen_at'', if truthy first_seen then first_seen else PStr now_text), (''last_seen_at'', PStr now_text),
         (''expires_at'', PInt (bucket + au_ttl au))])"

definition probe_row :: "audit_env \<Rightarrow> probe \<Rightarrow> item \<Rightarrow> int \<Rightarrow> string list \<Rightarrow> item" where
  "probe_row au pb safe version seen =
     dict_of [(''PK'', PStr (fst (probe_key au pb))), (''SK'', PStr (snd (probe_key au pb))),
       (''entity_type'', PStr ''authorization_probe_aggregate'')]
     ++ safe ++ dict_of [(''probe_version'', PInt version), (''decision_event_ids'', PList (map PStr seen))]"

text \<open>One round: the aggregate as it is, an answer without a write, or one conditional put.\<close>

datatype probe_step = Probe_Answer item | Probe_Fails err | Probe_Write op item

definition probe_decision :: "audit_env \<Rightarrow> probe \<Rightarrow> item option \<Rightarrow> probe_step" where
  "probe_decision au pb found =
     (let existing = (case found of None \<Rightarrow> Map.empty | Some i \<Rightarrow> i); eid = ar_event_id (pb_record pb)
      in case (string_set (item_get existing ''decision_event_ids''), nonnegative_int (item_get existing ''probe_count'')) of
           (Inr seen, Inr n) \<Rightarrow>
             (if eid \<in> set seen \<or> au_id_cap au \<le> length seen \<or> au_count_cap au \<le> n then Probe_Answer existing
              else case nonnegative_int (item_get existing ''probe_version'') of
                  Inl e \<Rightarrow> Probe_Fails e
                | Inr v \<Rightarrow>
                    (case project_audit_event (au_rt au)
                        (probe_event au pb (item_get existing ''first_seen_at'') (min (n + 1) (au_count_cap au))) of
                       Inl e \<Rightarrow> Probe_Fails e
                     | Inr safe \<Rightarrow>
                         (let row = probe_row au pb safe (v + 1) (sorted_text id (eid # seen))
                          in Probe_Write (Put row (case found of None \<Rightarrow> create_only
                               | Some i \<Rightarrow> C_Eq ''probe_version'' (PInt v))) row)))
         | _ \<Rightarrow> Probe_Fails Dependency_Failure)"

fun probe_loop :: "nat \<Rightarrow> 'w db \<Rightarrow> 'w putter \<Rightarrow> audit_env \<Rightarrow> probe \<Rightarrow> 'w \<Rightarrow> item result \<times> 'w" where
  "probe_loop 0 db put au pb w = (Inl Dependency_Failure, w)"
| "probe_loop (Suc n) db put au pb w =
     (case audit_get db (probe_key au pb) w of
        (Inl e, w1) \<Rightarrow> (Inl e, w1)
      | (Inr found, w1) \<Rightarrow>
          (case probe_decision au pb found of
             Probe_Answer i \<Rightarrow> (Inr i, w1)
           | Probe_Fails e \<Rightarrow> (Inl e, w1)
           | Probe_Write oper row \<Rightarrow>
               (case put oper w1 of
                  (Put_Done, w2) \<Rightarrow> (Inr row, w2)
                | (Put_Refused, w2) \<Rightarrow> probe_loop n db put au pb w2
                | (Put_Failed, w2) \<Rightarrow> (Inl Provider_Error, w2))))"

text \<open>A record whose key is not among the configured ones raises.\<close>

definition aggregate_authorization_probe ::
    "'w db \<Rightarrow> 'w putter \<Rightarrow> audit_env \<Rightarrow> ('w \<Rightarrow> int) \<Rightarrow> audit_record \<Rightarrow> audit_entry \<Rightarrow> 'w \<Rightarrow> item result \<times> 'w" where
  "aggregate_authorization_probe db put au clock r e w =
     (case filter (\<lambda>k. ak_id k = ar_audit_key_id r) (audit_keys au) of
        [] \<Rightarrow> (Inl Value_Error, w)
      | k # _ \<Rightarrow> probe_loop 3 db put au \<lparr>pb_record = r, pb_entry = e, pb_key = k, pb_now = clock w\<rparr> w)"

section \<open>The sink of the gateway\<close>

definition dynamo_sink :: "'w db \<Rightarrow> 'w putter \<Rightarrow> audit_env \<Rightarrow> ('w \<Rightarrow> int) \<Rightarrow> ('w \<Rightarrow> string \<times> 'w) \<Rightarrow> 'w audit_sink" where
  "dynamo_sink db put au clock fresh =
     \<lparr>fresh_id = fresh, sink_persist = persist_authorization_decision db put au clock,
      sink_aggregate = (\<lambda>r e w. case aggregate_authorization_probe db put au clock r e w of
         (Inl x, w1) \<Rightarrow> (Inl x, w1) | (Inr i, w1) \<Rightarrow> (Inr (), w1))\<rparr>"

section \<open>What the events are made of\<close>

text \<open>A projection keeps the listed fields, in the row's own form, and nothing else.\<close>

lemma project_fields_get:
  "project_fields fs ev acc = Some safe \<Longrightarrow>
     item_get safe a = (if a \<in> set fs \<and> item_get ev a \<noteq> PNone then the (project_value (item_get ev a)) else item_get acc a)"
proof (induction fs arbitrary: acc)
  case (Cons f fs)
  then show ?case by (cases "item_get ev f = PNone") (auto simp: row_lookup split: option.splits)
qed simp

lemma project_fields_None:
  "project_fields fs ev acc = Some safe \<Longrightarrow> a \<notin> set fs \<Longrightarrow> safe a = acc a"
  by (induction fs arbitrary: acc) (auto split: if_splits option.splits)

lemma project_audit_event_get:
  assumes "project_audit_event rt ev = Inr safe"
  shows "item_get safe a = (if a \<in> set SAFE_AUDIT_FIELDS \<and> item_get ev a \<noteq> PNone then the (project_value (item_get ev a)) else PNone)"
    and "a \<notin> set SAFE_AUDIT_FIELDS \<Longrightarrow> safe a = None"
proof -
  from assms have p: "project_fields SAFE_AUDIT_FIELDS ev Map.empty = Some safe"
    by (auto simp: project_audit_event_def split: option.splits if_splits)
  from project_fields_get [OF p] show "item_get safe a =
      (if a \<in> set SAFE_AUDIT_FIELDS \<and> item_get ev a \<noteq> PNone then the (project_value (item_get ev a)) else PNone)"
    by (simp add: item_get_def)
  show "a \<notin> set SAFE_AUDIT_FIELDS \<Longrightarrow> safe a = None" using project_fields_None [OF p] by simp
qed

end
