(* ===== verification/Put_Store.thy ===== *)
theory Put_Store
  imports Support_Cases
begin

text \<open>
  One conditional put outside a transaction (\<open>put_item\<close>), as several repositories use it: done, refused
  by its condition, or failed without telling. The locale \<open>put_store\<close> states what the service promises
  of it; both tables of \<open>Table_Store\<close> keep it.
\<close>

section \<open>One put\<close>

lemma put_tx:
  assumes "tx_apply [Put i c] t = Some t'" "item_key i = Some k"
  shows "cond_holds c (row_at t k)" and "t' = t(k \<mapsto> stored_item i)" and "keyed t \<Longrightarrow> keyed t'"
proof -
  note d = tx_applyD [OF assms(1)]
  show "cond_holds c (row_at t k)" using d(2) by (simp add: op_ok_Put [OF assms(2)])
  show t': "t' = t(k \<mapsto> stored_item i)" using d(3) assms(2) by simp
  show "keyed t \<Longrightarrow> keyed t'" using assms(2) by (auto simp: t' keyed_def item_key_stored)
qed

lemma refused_create:
  assumes "tx_apply [Put i create_only] t = None" "item_key i = Some k" "keyed t"
  shows "t k \<noteq> None"
proof
  assume "t k = None"
  then have "op_ok t (Put i create_only)" using assms(2,3) by (simp only: op_ok_Put keyed_create_only)
  with assms(1) show False by (simp add: tx_apply_def)
qed

text \<open>Rows that stay as they are once they are there.\<close>

definition kept_rows :: "(key \<Rightarrow> bool) \<Rightarrow> table \<Rightarrow> table \<Rightarrow> bool" where
  "kept_rows K t t' \<longleftrightarrow> (\<forall>k i. K k \<longrightarrow> t k = Some i \<longrightarrow> t' k = Some i)"

lemma kept_rows_refl [simp]: "kept_rows K t t"
  by (simp add: kept_rows_def)

lemma kept_rows_trans: "kept_rows K a b \<Longrightarrow> kept_rows K b c \<Longrightarrow> kept_rows K a c"
  unfolding kept_rows_def by blast

lemma kept_rowsD: "kept_rows K t t' \<Longrightarrow> K k \<Longrightarrow> t k = Some i \<Longrightarrow> t' k = Some i"
  unfolding kept_rows_def by blast

lemma kept_rows_upd: "\<not> K k \<or> t k = None \<Longrightarrow> kept_rows K t (t(k \<mapsto> i))"
  unfolding kept_rows_def by auto

section \<open>The service\<close>

locale put_store = store db rows env
  for db :: "'w db" and rows :: "'w \<Rightarrow> table" and env :: "table \<Rightarrow> table \<Rightarrow> bool" +
  fixes put :: "'w putter"
  assumes put_done: "put oper w = (Put_Done, w') \<Longrightarrow>
        \<exists>t t'. env (rows w) t \<and> tx_apply [oper] t = Some t' \<and> env t' (rows w')"
    and put_refused: "put oper w = (Put_Refused, w') \<Longrightarrow>
        \<exists>t. env (rows w) t \<and> tx_apply [oper] t = None \<and> env t (rows w')"
    and put_failed: "put oper w = (Put_Failed, w') \<Longrightarrow>
        env (rows w) (rows w') \<or> (\<exists>t t'. env (rows w) t \<and> tx_apply [oper] t = Some t' \<and> env t' (rows w'))"

context put_store
begin

lemma put_runs:
  assumes env: "\<And>t t'. env t t' \<Longrightarrow> run t t'" and trans: "\<And>a b c. run a b \<Longrightarrow> run b c \<Longrightarrow> run a c"
    and call: "put oper w = (r, w')" and step: "\<And>t t'. env (rows w) t \<Longrightarrow> tx_apply [oper] t = Some t' \<Longrightarrow> run t t'"
  shows "run (rows w) (rows w')"
proof -
  from put_done put_refused put_failed call
  consider "env (rows w) (rows w')" | t where "env (rows w) t" "env t (rows w')"
    | t t' where "env (rows w) t" "tx_apply [oper] t = Some t'" "env t' (rows w')"
    by (cases r) blast+
  then show ?thesis
  proof cases
    case 3
    show ?thesis by (rule trans [OF env [OF 3(1)] trans [OF step [OF 3(1,2)] env [OF 3(3)]]])
  qed (blast intro: env trans)+
qed

end

section \<open>The two tables\<close>

definition table_put :: "table putter" where
  "table_put oper t = (case tx_apply [oper] t of None \<Rightarrow> (Put_Refused, t) | Some t' \<Rightarrow> (Put_Done, t'))"

interpretation alone_put: put_store table_db "\<lambda>t. t" "(=)" table_put
  by unfold_locales (auto simp: table_put_def split: option.splits)

text \<open>A conditional put on the scripted table: answered, dropped, or done or refused with its answer lost.\<close>

definition world_put :: "('c \<Rightarrow> table \<Rightarrow> table) \<Rightarrow> 'c world putter" where
  "world_put act oper w =
     (case next_event act w of
        (Dropped, w1) \<Rightarrow> (Put_Failed, w1)
      | (f, w1) \<Rightarrow>
          (case tx_apply [oper] (tbl w1) of
             None \<Rightarrow> (if f = Answered then Put_Refused else Put_Failed, w1)
           | Some t \<Rightarrow> (if f = Answered then Put_Done else Put_Failed, w1\<lparr>tbl := t\<rparr>)))"

interpretation scripted_put: put_store "world_db act" tbl "acts act" "world_put act" for act :: "'c \<Rightarrow> table \<Rightarrow> table"
proof unfold_locales
  fix oper and w w' :: "'c world"
  show "world_put act oper w = (Put_Done, w') \<Longrightarrow>
      \<exists>t t'. acts act (tbl w) t \<and> tx_apply [oper] t = Some t' \<and> acts act t' (tbl w')"
    by (auto simp: world_put_def acts_refl split: prod.splits fate.splits option.splits if_splits dest!: next_event_acts)
  show "world_put act oper w = (Put_Refused, w') \<Longrightarrow>
      \<exists>t. acts act (tbl w) t \<and> tx_apply [oper] t = None \<and> acts act t (tbl w')"
    by (auto simp: world_put_def acts_refl split: prod.splits fate.splits option.splits if_splits dest!: next_event_acts)
  show "world_put act oper w = (Put_Failed, w') \<Longrightarrow>
      acts act (tbl w) (tbl w') \<or> (\<exists>t t'. acts act (tbl w) t \<and> tx_apply [oper] t = Some t' \<and> acts act t' (tbl w'))"
    by (auto simp: world_put_def acts_refl split: prod.splits fate.splits option.splits if_splits dest!: next_event_acts)
qed

end
