(* ===== verification/Access_Trail.thy ===== *)
theory Access_Trail
  imports Access_Audit Put_Store
begin

text \<open>
  The evidence on the shared table: an event, once appended, stays as it is whatever the sinks of any
  servers do; and an aggregate row, once stored, can never be counted up again, since its number comes
  back as a \<open>Decimal\<close>. The interface is \<open>audit_client\<close>.
\<close>

section \<open>Rows\<close>

definition probe_at :: "string \<Rightarrow> string \<Rightarrow> key" where
  "probe_at stream x = (audit_pk stream, ''PROBE#'' @ x)"

lemma audit_keys_eq [simp]:
  "event_key s x = event_key r y \<longleftrightarrow> s = r \<and> x = y" "probe_at s x = probe_at r y \<longleftrightarrow> s = r \<and> x = y"
  "event_key s x \<noteq> probe_at r y" "probe_at r y \<noteq> event_key s x"
  by (auto simp: event_key_def probe_at_def audit_pk_def)

text \<open>An aggregate row as the sink leaves it: counted once, and the threshold judged by that.\<close>

definition probes_ok :: "audit_env \<Rightarrow> table \<Rightarrow> bool" where
  "probes_ok au t \<longleftrightarrow> (\<forall>s x i. t (probe_at s x) = Some i \<longrightarrow>
     item_get i ''probe_count'' = PDec (of_int (min 1 (au_count_cap au)))
     \<and> item_get i ''threshold_reached'' = PBool (min 10 (au_count_cap au) \<le> min 1 (au_count_cap au)))"

definition audit_ok :: "audit_env \<Rightarrow> table \<Rightarrow> bool" where
  "audit_ok au t \<longleftrightarrow> keyed t \<and> probes_ok au t"

definition events_kept :: "table \<Rightarrow> table \<Rightarrow> bool" where
  "events_kept t t' \<longleftrightarrow> (\<forall>s x i. t (event_key s x) = Some i \<longrightarrow> t' (event_key s x) = Some i)"

text \<open>What any sink does to the table over time.\<close>

definition audit_run :: "audit_env \<Rightarrow> table \<Rightarrow> table \<Rightarrow> bool" where
  "audit_run au t t' \<longleftrightarrow> (audit_ok au t \<longrightarrow> audit_ok au t' \<and> events_kept t t')"

lemma events_keptD: "events_kept t t' \<Longrightarrow> t (event_key s x) = Some i \<Longrightarrow> t' (event_key s x) = Some i"
  unfolding events_kept_def by blast

lemma audit_run_refl [simp]: "audit_run au t t"
  by (simp add: audit_run_def events_kept_def)

lemma audit_run_trans: "audit_run au a b \<Longrightarrow> audit_run au b c \<Longrightarrow> audit_run au a c"
  unfolding audit_run_def events_kept_def by blast

lemma audit_runD:
  assumes "audit_run au t t'" "audit_ok au t"
  shows "audit_ok au t'" and "events_kept t t'"
  using assms by (simp_all add: audit_run_def)

section \<open>One put\<close>

lemma put_event_run:
  assumes tx: "tx_apply [Put i create_only] t = Some t'" and key: "item_key i = Some (event_key s x)"
  shows "audit_run au t t'"
proof -
  note p = put_tx [OF tx key]
  show ?thesis
    unfolding audit_run_def audit_ok_def
  proof (intro impI, elim conjE, intro conjI)
    assume t: "keyed t" "probes_ok au t"
    show "keyed t'" by (rule p(3) [OF t(1)])
    show "probes_ok au t'" using t(2) by (simp add: probes_ok_def p(2))
    from p(1) t(1) have "t (event_key s x) = None" by (simp only: keyed_create_only)
    then show "events_kept t t'" by (auto simp: events_kept_def p(2))
  qed
qed

text \<open>Keys and fields of the rows the sink builds.\<close>

lemma item_get_below: "safe a = None \<Longrightarrow> item_get (m ++ safe) a = item_get m a"
  by (simp add: item_get_def map_add_def)

lemma item_get_above: "safe a \<noteq> None \<Longrightarrow> item_get (m ++ safe) a = item_get safe a"
  by (auto simp: item_get_def map_add_def)

lemma item_get_Some: "item_get safe a \<noteq> PNone \<Longrightarrow> safe a \<noteq> None"
  by (cases "safe a") (auto simp: item_get_def)

lemma event_row_key:
  assumes "project_audit_event rt ev = Inr safe"
  shows "item_key (event_row rt s safe) = Some (event_key s (py_str rt (item_get safe ''event_id'')))"
proof -
  have "safe ''PK'' = None" "safe ''SK'' = None"
    by (rule project_audit_event_get(2) [OF assms], simp add: SAFE_AUDIT_FIELDS_def)+
  then show ?thesis by (simp add: item_key_def event_row_def item_get_below row_lookup event_key_def)
qed

lemma event_row_text:
  assumes "project_audit_event rt ev = Inr safe" "item_get ev a = PStr v" "a \<in> set SAFE_AUDIT_FIELDS"
  shows "item_get (stored_item (event_row rt s safe)) a = PStr v" and "item_get safe a = PStr v"
proof -
  show v: "item_get safe a = PStr v" using project_audit_event_get(1) [OF assms(1), of a] assms(2,3) by (simp add: project_value_def)
  then show "item_get (stored_item (event_row rt s safe)) a = PStr v"
    using item_get_above [of safe a] item_get_Some [of safe a] by (simp add: item_get_stored event_row_def)
qed

section \<open>Sinks as clients\<close>

locale audit_client = put_store db rows env put
  for db :: "'w db" and rows :: "'w \<Rightarrow> table" and env :: "table \<Rightarrow> table \<Rightarrow> bool" and put :: "'w putter" +
  fixes au :: audit_env
  assumes env_audit: "env t t' \<Longrightarrow> audit_run au t t'"

context audit_client
begin

lemma put_run:
  assumes "put oper w = (r, w')" "\<And>t t'. env (rows w) t \<Longrightarrow> tx_apply [oper] t = Some t' \<Longrightarrow> audit_run au t t'"
  shows "audit_run au (rows w) (rows w')"
  by (rule put_runs [OF env_audit audit_run_trans assms])

lemma audit_get_run: "audit_get db k w = (r, w') \<Longrightarrow> audit_run au (rows w) (rows w')"
  by (auto simp: audit_get_def split: prod.splits response.splits dest!: get_env intro: env_audit)

lemma audit_get_row: "audit_get db k w = (Inr r, w') \<Longrightarrow> rows w' k = r"
  by (auto simp: audit_get_def split: prod.splits response.splits dest: get_item get_none)

lemma append_event_run:
  assumes "append_event rt put s ev w = (r, w')"
  shows "audit_run au (rows w) (rows w')"
proof (cases "project_audit_event rt ev")
  case (Inr safe)
  obtain x w1 where p: "put (Put (event_row rt s safe) create_only) w = (x, w1)" by fastforce
  from put_run [OF p put_event_run [OF _ event_row_key [OF Inr]]] assms Inr p show ?thesis
    by (auto simp: append_event_def split: put_answer.splits)
qed (use assms in \<open>simp add: append_event_def\<close>)

lemma append_event_row:
  assumes call: "append_event rt put s ev w = (r, w')" and ok: "audit_ok au (rows w)"
    and safe: "project_audit_event rt ev = Inr safe"
  shows "r = Appended i \<Longrightarrow> rows w' (event_key s (py_str rt (item_get safe ''event_id''))) = Some (stored_item (event_row rt s safe))"
    and "r = Duplicate_Event \<Longrightarrow> rows w' (event_key s (py_str rt (item_get safe ''event_id''))) \<noteq> None"
proof -
  let ?row = "event_row rt s safe" and ?k = "event_key s (py_str rt (item_get safe ''event_id''))"
  note key = event_row_key [OF safe, of s]
  obtain x w1 where p: "put (Put ?row create_only) w = (x, w1)" by fastforce
  { assume "r = Appended i"
    with call safe p have "put (Put ?row create_only) w = (Put_Done, w')"
      by (auto simp: append_event_def split: put_answer.splits)
    from put_done [OF this] obtain t t' where
      t: "env (rows w) t" "tx_apply [Put ?row create_only] t = Some t'" "env t' (rows w')" by blast
    note r1 = env_audit [OF t(1)]
    have ok': "audit_ok au t'"
      by (rule audit_runD(1) [OF put_event_run [OF t(2) key] audit_runD(1) [OF r1 ok]])
    have "t' ?k = Some (stored_item ?row)" using put_tx(2) [OF t(2) key] by simp
    from events_keptD [OF audit_runD(2) [OF env_audit [OF t(3)] ok'] this]
    show "rows w' ?k = Some (stored_item ?row)" . }
  { assume "r = Duplicate_Event"
    with call safe p have "put (Put ?row create_only) w = (Put_Refused, w')"
      by (auto simp: append_event_def split: put_answer.splits)
    from put_refused [OF this] obtain t where
      t: "env (rows w) t" "tx_apply [Put ?row create_only] t = None" "env t (rows w')" by blast
    have ok': "audit_ok au t" by (rule audit_runD(1) [OF env_audit [OF t(1)] ok])
    then have "t ?k \<noteq> None" using refused_create [OF t(2) key] by (simp add: audit_ok_def)
    then obtain j where "t ?k = Some j" by blast
    from events_keptD [OF audit_runD(2) [OF env_audit [OF t(3)] ok'] this]
    show "rows w' ?k \<noteq> None" by simp }
qed

lemma append_authorization_run:
  "append_authorization_event rt put s ev w = (r, w') \<Longrightarrow> audit_run au (rows w) (rows w')"
  by (auto simp: append_authorization_event_def split: if_splits dest: append_event_run)

lemma break_glass_run:
  "append_break_glass_evidence rt put bg w = (r, w') \<Longrightarrow> audit_run au (rows w) (rows w')"
  by (auto simp: append_break_glass_evidence_def split: if_splits prod.splits append_outcome.splits
      dest!: append_authorization_run intro: audit_run_trans)

lemma recorded_before_run: "recorded_before db' au' ks e w = (r, w') \<Longrightarrow> db' = db \<Longrightarrow> audit_run au (rows w) (rows w')"
proof (induction db' au' ks e w arbitrary: r w' rule: recorded_before.induct)
  case (2 db' au' k ks e w)
  obtain x w1 where x: "audit_get db (decision_key au' k e) w = (x, w1)" by fastforce
  note first = audit_get_run [OF x]
  show ?case
  proof (cases "x = Inr None")
    case True
    with 2 x have "audit_run au (rows w1) (rows w')" by simp
    with first show ?thesis by (rule audit_run_trans)
  qed (use 2 x first in \<open>auto split: sum.splits option.splits\<close>)
qed simp

lemma recorded_before_row:
  "recorded_before db' au' ks e w = (Inr (Some r), w') \<Longrightarrow> db' = db \<Longrightarrow>
     \<exists>k\<in>set ks. r = audit_record_of au' k e True \<and> rows w' (decision_key au' k e) \<noteq> None"
  by (induction db' au' ks e w arbitrary: r w' rule: recorded_before.induct)
    (fastforce split: prod.splits sum.splits option.splits dest: audit_get_row)+

lemma persist_run:
  assumes "persist_authorization_decision db put au' clock e w = (r, w')"
  shows "audit_run au (rows w) (rows w')"
proof -
  obtain x w1 where x: "recorded_before db au' (au_previous au') e w = (x, w1)" by fastforce
  note first = recorded_before_run [OF x refl]
  show ?thesis
  proof (cases "x = Inr None")
    case True
    with assms x have "audit_run au (rows w1) (rows w')"
      by (auto simp: persist_authorization_decision_def Let_def split: prod.splits append_outcome.splits dest: append_authorization_run)
    with first show ?thesis by (rule audit_run_trans)
  qed (use assms x first in \<open>auto simp: persist_authorization_decision_def Let_def split: sum.splits option.splits\<close>)
qed

end

section \<open>What a persisted decision leaves\<close>

text \<open>The event of a decision under the active key: its row says what was decided, of whom, and about what.\<close>

definition event_tells :: "audit_env \<Rightarrow> audit_entry \<Rightarrow> item \<Rightarrow> bool" where
  "event_tells au e i \<longleftrightarrow>
     item_get i ''result_code'' = PStr (ae_result e) \<and> item_get i ''action'' = PStr (ae_action e)
     \<and> item_get i ''purpose'' = PStr (ae_purpose e) \<and> item_get i ''resource_type'' = PStr (ae_resource_type e)
     \<and> item_get i ''actor_fingerprint'' = PStr (actor_fingerprint au (au_active au) (ae_actor_id e))
     \<and> item_get i ''resource_fingerprint'' = PStr (resource_fingerprint au (au_active au) e)"

lemma decision_event_fields:
  "item_get (decision_event au e now) ''event_id'' = PStr (decision_event_id au (au_active au) e)"
  "item_get (decision_event au e now) ''event_type''
     = PStr (if ae_result e = ''allowed'' then ''authorization_sensitive_allowed'' else ''authorization_denied'')"
  "item_get (decision_event au e now) ''result_code'' = PStr (ae_result e)"
  "item_get (decision_event au e now) ''action'' = PStr (ae_action e)"
  "item_get (decision_event au e now) ''purpose'' = PStr (ae_purpose e)"
  "item_get (decision_event au e now) ''resource_type'' = PStr (ae_resource_type e)"
  "item_get (decision_event au e now) ''actor_fingerprint'' = PStr (actor_fingerprint au (au_active au) (ae_actor_id e))"
  "item_get (decision_event au e now) ''resource_fingerprint'' = PStr (resource_fingerprint au (au_active au) e)"
  by (simp_all add: decision_event_def Let_def row_lookup)

lemma decision_row:
  assumes "project_audit_event rt (decision_event au e now) = Inr safe"
  shows "py_str rt (item_get safe ''event_id'') = decision_event_id au (au_active au) e"
    and "event_tells au e (stored_item (event_row rt s safe))"
proof -
  note told = event_row_text [OF assms decision_event_fields(1)] event_row_text(1) [OF assms decision_event_fields(3)]
    event_row_text(1) [OF assms decision_event_fields(4)] event_row_text(1) [OF assms decision_event_fields(5)]
    event_row_text(1) [OF assms decision_event_fields(6)] event_row_text(1) [OF assms decision_event_fields(7)]
    event_row_text(1) [OF assms decision_event_fields(8)]
  show "py_str rt (item_get safe ''event_id'') = decision_event_id au (au_active au) e"
    using told(2) by (simp add: SAFE_AUDIT_FIELDS_def)
  show "event_tells au e (stored_item (event_row rt s safe))"
    unfolding event_tells_def by (intro conjI told) (simp_all add: SAFE_AUDIT_FIELDS_def)
qed

definition evidenced :: "audit_env \<Rightarrow> audit_entry \<Rightarrow> audit_record \<Rightarrow> table \<Rightarrow> bool" where
  "evidenced au e r t \<longleftrightarrow>
     (\<exists>k\<in>set (audit_keys au). ar_audit_key_id r = ak_id k \<and> ar_event_id r = decision_event_id au k e
        \<and> (\<exists>i. t (decision_key au k e) = Some i \<and> (\<not> ar_replayed r \<longrightarrow> event_tells au e i)))"

lemma evidenced_kept: "events_kept t t' \<Longrightarrow> evidenced au e r t \<Longrightarrow> evidenced au e r t'"
  unfolding evidenced_def decision_key_def by (blast dest: events_keptD)

lemma evidenced_of:
  assumes "k \<in> set (audit_keys au)" "t (decision_key au k e) = Some i" "\<not> b \<Longrightarrow> event_tells au e i"
  shows "evidenced au e (audit_record_of au k e b) t"
  using assms by (auto simp: evidenced_def audit_record_of_def)

context audit_client
begin

lemma persist_evidenced:
  assumes call: "persist_authorization_decision db put au clock e w = (Inr r, w')" and ok: "audit_ok au (rows w)"
  shows "evidenced au e r (rows w')"
proof -
  let ?k = "au_active au"
  let ?s = "actor_fingerprint au ?k (ae_actor_id e)" and ?ev = "decision_event au e (clock w)"
  obtain x w1 where x: "recorded_before db au (au_previous au) e w = (x, w1)" by fastforce
  from call x consider (old) "x = Inr (Some r)" "w' = w1"
    | (new) i where "x = Inr None" "append_authorization_event (au_rt au) put ?s ?ev w1 = (Appended i, w')"
        "r = audit_record_of au ?k e False"
    | (again) "x = Inr None" "append_authorization_event (au_rt au) put ?s ?ev w1 = (Duplicate_Event, w')"
        "r = audit_record_of au ?k e True"
    by (auto simp: persist_authorization_decision_def Let_def split: sum.splits option.splits prod.splits append_outcome.splits)
  then show ?thesis
  proof cases
    case old
    from recorded_before_row [OF x [unfolded old(1)] refl] obtain k i where
      k: "k \<in> set (au_previous au)" "r = audit_record_of au k e True" "rows w1 (decision_key au k e) = Some i" by blast
    from evidenced_of [of k au "rows w1" e i True] k(1,3) show ?thesis unfolding k(2) old(2) by (simp add: audit_keys_def)
  next
    case new
    note ok1 = audit_runD(1) [OF recorded_before_run [OF x refl] ok]
    from new(2) obtain safe where safe: "project_audit_event (au_rt au) ?ev = Inr safe"
        and app: "append_event (au_rt au) put ?s ?ev w1 = (Appended i, w')"
      by (auto simp: append_authorization_event_def append_event_def split: if_splits sum.splits)
    from append_event_row(1) [OF app ok1 safe refl] decision_row(1) [OF safe] decision_row(2) [OF safe, of ?s]
    show ?thesis unfolding new(3) by (intro evidenced_of) (simp_all add: audit_keys_def decision_key_def)
  next
    case again
    note ok1 = audit_runD(1) [OF recorded_before_run [OF x refl] ok]
    from again(2) obtain safe where safe: "project_audit_event (au_rt au) ?ev = Inr safe"
        and app: "append_event (au_rt au) put ?s ?ev w1 = (Duplicate_Event, w')"
      by (auto simp: append_authorization_event_def append_event_def split: if_splits sum.splits)
    from append_event_row(2) [OF app ok1 safe refl] decision_row(1) [OF safe]
    obtain i where "rows w' (decision_key au ?k e) = Some i" by (auto simp: decision_key_def)
    then show ?thesis unfolding again(3) by (intro evidenced_of) (simp_all add: audit_keys_def)
  qed
qed

end

end
