(* ===== verification/Access_Evidence.thy ===== *)
theory Access_Evidence
  imports Access_Trail Access_Properties
begin

text \<open>
  The audit sink on a scripted table, and what follows for the gateway: access leaves evidence that
  stays, and the aggregate of an actor's refused attempts never counts past the first.
\<close>

section \<open>The aggregate\<close>

text \<open>A row that came back from the table is never counted up: its number is no \<open>int\<close>.\<close>

lemma probe_stuck:
  assumes "item_get i ''probe_count'' = PDec q"
  shows "probe_decision au pb (Some i) = Probe_Fails Dependency_Failure"
  using assms by (simp add: probe_decision_def Let_def split: sum.split)

lemma probe_first:
  assumes "probe_decision au pb None = Probe_Write oper row"
  obtains safe where "project_audit_event (au_rt au) (probe_event au pb PNone (min 1 (au_count_cap au))) = Inr safe"
    "row = probe_row au pb safe 1 [ar_event_id (pb_record pb)]" "oper = Put row create_only"
proof -
  have none: "string_set PNone = Inr []" "item_get Map.empty a = PNone" for a
    by (simp_all add: item_get_def string_set_def)
  have one: "sorted_text id [x] = [x]" for x by (simp add: sorted_text_def)
  from assms that show thesis
    by (auto simp: probe_decision_def Let_def none one split: if_splits sum.splits)
qed

lemma probe_row_facts:
  assumes "project_audit_event rt (probe_event au pb v n) = Inr safe"
  shows "item_key (probe_row au pb safe m seen) = Some (probe_key au pb)"
    and "item_get (stored_item (probe_row au pb safe m seen)) ''probe_count'' = PDec (of_int n)"
    and "item_get (stored_item (probe_row au pb safe m seen)) ''threshold_reached'' = PBool (min 10 (au_count_cap au) \<le> n)"
proof -
  note get = project_audit_event_get(1) [OF assms]
  have names: "item_get safe ''probe_count'' = PInt n" "item_get safe ''threshold_reached'' = PBool (min 10 (au_count_cap au) \<le> n)"
    using get [of "''probe_count''"] get [of "''threshold_reached''"]
    by (simp_all add: SAFE_AUDIT_FIELDS_def probe_event_def Let_def row_lookup project_value_def)
  have above: "item_get (probe_row au pb safe m seen) a = item_get safe a"
    if "item_get safe a \<noteq> PNone" "a \<noteq> ''probe_version''" "a \<noteq> ''decision_event_ids''" for a
    using that item_get_above [of safe a] item_get_Some [of safe a]
    by (simp add: probe_row_def row_lookup)
  have "safe ''PK'' = None" "safe ''SK'' = None"
    by (rule project_audit_event_get(2) [OF assms], simp add: SAFE_AUDIT_FIELDS_def)+
  then show "item_key (probe_row au pb safe m seen) = Some (probe_key au pb)"
    by (simp add: item_key_def probe_row_def row_lookup item_get_below)
  show "item_get (stored_item (probe_row au pb safe m seen)) ''probe_count'' = PDec (of_int n)"
    using above [of "''probe_count''"] names(1) by (simp add: item_get_stored)
  show "item_get (stored_item (probe_row au pb safe m seen)) ''threshold_reached'' = PBool (min 10 (au_count_cap au) \<le> n)"
    using above [of "''threshold_reached''"] names(2) by (simp add: item_get_stored)
qed

lemma probe_key_at: "probe_key au pb = probe_at (actor_fingerprint au (pb_key pb) (ae_actor_id (pb_entry pb))) (aggregate_id au pb)"
  by (simp add: probe_key_def probe_at_def)

lemma probe_put_run:
  assumes tx: "tx_apply [Put (probe_row au pb safe m seen) create_only] t = Some t'"
    and safe: "project_audit_event rt (probe_event au pb v (min 1 (au_count_cap au))) = Inr safe"
  shows "audit_run au t t'"
proof -
  note facts = probe_row_facts [OF safe, of m seen]
  note p = put_tx [OF tx facts(1)]
  show ?thesis
    unfolding audit_run_def audit_ok_def
  proof (intro impI, elim conjE, intro conjI)
    assume t: "keyed t" "probes_ok au t"
    show "keyed t'" by (rule p(3) [OF t(1)])
    show "probes_ok au t'" using t(2) facts(2,3) by (simp add: probes_ok_def p(2) probe_key_at)
    show "events_kept t t'" by (simp add: events_kept_def p(2) probe_key_at)
  qed
qed

context audit_client
begin

lemma probe_loop_run:
  "probe_loop n db put au pb w = (r, w') \<Longrightarrow> audit_ok au (rows w) \<Longrightarrow> audit_run au (rows w) (rows w')"
proof (induction n arbitrary: w)
  case (Suc n)
  obtain x w1 where x: "audit_get db (probe_key au pb) w = (x, w1)" by fastforce
  note first = audit_get_run [OF x]
  note ok1 = audit_runD(1) [OF first Suc.prems(2)]
  show ?case
  proof (cases "\<exists>oper row. x = Inr None \<and> probe_decision au pb None = Probe_Write oper row")
    case False
    have "\<nexists>oper row. probe_decision au pb (Some i) = Probe_Write oper row" if "x = Inr (Some i)" for i
    proof -
      have "rows w1 (probe_key au pb) = Some i" using audit_get_row [OF x [unfolded that]] .
      with ok1 have "item_get i ''probe_count'' = PDec (of_int (min 1 (au_count_cap au)))"
        unfolding audit_ok_def probes_ok_def probe_key_at by blast
      from probe_stuck [OF this] show ?thesis by simp
    qed
    with False Suc.prems(1) x first show ?thesis
      by (cases x; cases "projr x") (auto split: probe_step.splits)
  next
    case True
    then obtain oper row where d: "x = Inr None" "probe_decision au pb None = Probe_Write oper row" by blast
    from probe_first [OF d(2)] obtain safe where safe:
        "project_audit_event (au_rt au) (probe_event au pb PNone (min 1 (au_count_cap au))) = Inr safe"
        "row = probe_row au pb safe 1 [ar_event_id (pb_record pb)]" "oper = Put row create_only" .
    obtain y w2 where y: "put oper w1 = (y, w2)" by fastforce
    have second: "audit_run au (rows w1) (rows w2)"
      by (rule put_run [OF y]) (rule probe_put_run [OF _ safe(1)], simp add: safe(2,3))
    note both = audit_run_trans [OF first second]
    have "y = Put_Refused \<Longrightarrow> audit_run au (rows w2) (rows w')"
      using Suc.prems(1) x d y by (intro Suc.IH audit_runD(1) [OF second ok1]) simp
    with Suc.prems(1) x d y both show ?thesis by (cases y) (auto intro: audit_run_trans)
  qed
qed simp

lemma aggregate_run:
  "aggregate_authorization_probe db put au clock r e w = (x, w') \<Longrightarrow> audit_ok au (rows w) \<Longrightarrow> audit_run au (rows w) (rows w')"
  by (auto simp: aggregate_authorization_probe_def split: list.splits dest: probe_loop_run)

end

section \<open>The gateway's own reads\<close>

context store
begin

lemma gateway_reads:
  "help_get db c w = (r, w') \<Longrightarrow> env (rows w) (rows w')"
  "get_teacher_assignment db u s w = (r, w') \<Longrightarrow> env (rows w) (rows w')"
  "get_teacher_curriculum_assignment db u w = (r', w') \<Longrightarrow> env (rows w) (rows w')"
  by (auto simp: help_get_def get_teacher_assignment_def get_teacher_curriculum_assignment_def env_refl
      split: if_splits prod.splits response.splits sum.splits option.splits dest: get_env strong_get_env)

lemma request_of_env: "request_of db r v w = (x, w') \<Longrightarrow> env (rows w) (rows w')"
  by (auto simp: request_of_def env_refl split: resource_type.splits if_splits dest: gateway_reads(1))

lemma facts_for_env: "facts_for db rt a r v w = (x, w') \<Longrightarrow> env (rows w) (rows w')"
proof -
  assume call: "facts_for db rt a r v w = (x, w')"
  have parent: "env (rows u) (rows u')" if "parent_facts_for db rt p s u = (y, u')" for p s u y u'
    using that by (auto simp: parent_facts_for_def split: prod.splits sum.splits dest!: judge_env get_user_env intro: env_trans)
  have curriculum: "env (rows u) (rows u')" if "curriculum_facts_for db p u = (y, u')" for p u y u'
    using that by (auto simp: curriculum_facts_for_def split: prod.splits sum.splits dest!: gateway_reads(3) get_user_env intro: env_trans)
  have teacher: "env (rows u) (rows u')" if c: "teacher_facts_for db p q v u = (y, u')" for p q u y u'
  proof -
    obtain r1 u1 where 1: "request_of db q v u = (r1, u1)" by fastforce
    obtain r2 u2 where 2: "get_teacher_assignment db p (student_id q) u1 = (r2, u2)" by fastforce
    obtain r3 u3 where 3: "get_user db p u2 = (r3, u3)" by fastforce
    obtain r4 u4 where 4: "get_user db (student_id q) u3 = (r4, u4)" by fastforce
    note e1 = request_of_env [OF 1]
    note e2 = env_trans [OF e1 gateway_reads(2) [OF 2]]
    note e3 = env_trans [OF e2 get_user_env [OF 3]]
    note e4 = env_trans [OF e3 get_user_env [OF 4]]
    from c 1 2 3 4 e1 e2 e3 e4 show ?thesis by (auto simp: teacher_facts_for_def split: sum.splits)
  qed
  from call show ?thesis
    by (auto simp: facts_for_def wrap_facts_def env_refl split: canonical_role.splits if_splits prod.splits sum.splits
        dest: parent curriculum teacher)
qed

end

section \<open>Sinks of many servers\<close>

datatype audit_call =
    Persist_Decision audit_entry int
  | Count_Probe audit_record audit_entry int
  | Break_Glass break_glass_evidence
  | Append_Event string item

fun serve_audit :: "'w db \<Rightarrow> 'w putter \<Rightarrow> audit_env \<Rightarrow> audit_call \<Rightarrow> 'w \<Rightarrow> 'w" where
  "serve_audit db put au (Persist_Decision e now) w = snd (persist_authorization_decision db put au (\<lambda>_. now) e w)"
| "serve_audit db put au (Count_Probe r e now) w = snd (aggregate_authorization_probe db put au (\<lambda>_. now) r e w)"
| "serve_audit db put au (Break_Glass bg) w = snd (append_break_glass_evidence (au_rt au) put bg w)"
| "serve_audit db put au (Append_Event s ev) w = snd (append_event (au_rt au) put s ev w)"

context audit_client
begin

lemma serve_audit_run: "audit_ok au (rows w) \<Longrightarrow> audit_run au (rows w) (rows (serve_audit db put au call w))"
  by (cases call) (auto intro: persist_run [OF prod.collapse [symmetric]] aggregate_run [OF prod.collapse [symmetric]]
      break_glass_run [OF prod.collapse [symmetric]] append_event_run [OF prod.collapse [symmetric]])

lemma serve_audits_run: "audit_ok au (rows w) \<Longrightarrow> audit_run au (rows w) (rows (fold (serve_audit db put au) calls w))"
proof (induction calls arbitrary: w)
  case (Cons call calls)
  note r = serve_audit_run [OF Cons.prems, of call]
  from audit_run_trans [OF r Cons.IH [OF audit_runD(1) [OF r Cons.prems]]] show ?case by simp
qed simp

end

interpretation lone_audit: audit_client table_db "\<lambda>t. t" "(=)" table_put au for au
  by unfold_locales simp

definition run_audit_call :: "audit_env \<Rightarrow> audit_call \<Rightarrow> table \<Rightarrow> table" where
  "run_audit_call au call t = (if audit_ok au t then serve_audit table_db table_put au call t else t)"

lemma run_audit_call_run: "audit_run au t (run_audit_call au call t)"
  using lone_audit.serve_audit_run [of au t call] by (simp add: run_audit_call_def)

lemma acts_audit_run: "acts (run_audit_call au) t t' \<Longrightarrow> audit_run au t t'"
proof -
  have "audit_run au u (fold (run_audit_call au) cs u)" for cs u
    by (induction cs arbitrary: u) (auto intro: audit_run_trans run_audit_call_run)
  then show "acts (run_audit_call au) t t' \<Longrightarrow> audit_run au t t'" by (auto simp: acts_def)
qed

interpretation shared_audit: audit_client "world_db (run_audit_call au)" tbl "acts (run_audit_call au)"
    "world_put (run_audit_call au)" au for au
  by unfold_locales (rule acts_audit_run)

definition audits_served :: "audit_env \<Rightarrow> audit_call list \<Rightarrow> audit_call world \<Rightarrow> audit_call world" where
  "audits_served au calls w = fold (serve_audit (world_db (run_audit_call au)) (world_put (run_audit_call au)) au) calls w"

lemma audits_served_run: "audit_ok au (tbl w) \<Longrightarrow> audit_run au (tbl w) (tbl (audits_served au calls w))"
  unfolding audits_served_def by (rule shared_audit.serve_audits_run)

text \<open>The sink of one server of this world, and a resolver that only reads its table.\<close>

definition world_sink :: "audit_env \<Rightarrow> string \<Rightarrow> (audit_call world \<Rightarrow> int) \<Rightarrow> audit_call world audit_sink" where
  "world_sink au fresh clock = dynamo_sink (world_db (run_audit_call au)) (world_put (run_audit_call au)) au clock (\<lambda>w. (fresh, w))"

section \<open>Properties\<close>

lemma access_evidenced:
  assumes call: "authorize_and_resolve (world_db (run_audit_call au)) rt now (world_sink au fresh clock) resolver a sp rid corr w = (Inr x, w')"
    and needed: "requires_durable_evidence a (ar_ref x) (sp_action sp) (sp_purpose sp)"
    and ok: "audit_ok au (tbl w)" and reads: "reading (resolver rid) tbl (acts (run_audit_call au))"
  obtains e r where "evidenced au e r (tbl w')" "audit_ok au (tbl w')" "ae_result e = ''allowed''" "ae_actor_id e = user_id a"
    "ae_resource_type e = resource_text (resource_type (ar_ref x))" "ae_resource_id e = resource_id (ar_ref x)"
    "ae_student_id e = student_id (ar_ref x)" "ae_action e = action_text (sp_action sp)" "ae_purpose e = purpose_text (sp_purpose sp)"
proof (rule authorize_and_resolve_Inr [OF call])
  fix l w1
  assume l: "resolver rid w = (Reply l, w1)"
    and run: "authorize_loaded (world_db (run_audit_call au)) rt now (world_sink au fresh clock) a sp corr (ar_ref x) (ar_value x) w1 = (Inr x, w')"
  have ok1: "audit_ok au (tbl w1)" by (rule audit_runD(1) [OF acts_audit_run [OF readingD [OF reads l]] ok])
  from run show thesis
  proof (rule authorize_loaded_Inr)
    fix f w2 d
    let ?e = "evaluate rt (now w2) a (ar_ref x) f (sp_action sp) (sp_purpose sp) (Some corr)"
    assume f: "facts_for (world_db (run_audit_call au)) rt a (ar_ref x) (ar_value x) w1 = (Inr f, w2)" and allow: "allowed ?e"
      and rec: "record_authorization_decision (world_sink au fresh clock) a (ar_ref x) (sp_action sp) (sp_purpose sp) ?e corr ''policy'' w2 = (Inr d, w')"
    have ok2: "audit_ok au (tbl w2)" by (rule audit_runD(1) [OF acts_audit_run [OF scripted.facts_for_env [OF f]] ok1])
    from record_decision_Inr(3) [OF rec allow needed] obtain c w3 r
      where n: "normalize_correlation_id (world_sink au fresh clock) corr w2 = (c, w3)"
        and p: "sink_persist (world_sink au fresh clock) (audit_entry_of a (ar_ref x) (sp_action sp) (sp_purpose sp) ?e c ''policy'') w3 = (Inr r, w')"
      by blast
    let ?en = "audit_entry_of a (ar_ref x) (sp_action sp) (sp_purpose sp) ?e c ''policy''"
    from n have "w3 = w2" by (auto simp: normalize_correlation_id_def world_sink_def dynamo_sink_def split: if_splits)
    with p have p: "persist_authorization_decision (world_db (run_audit_call au)) (world_put (run_audit_call au)) au clock ?en w2 = (Inr r, w')"
      by (simp add: world_sink_def dynamo_sink_def)
    show thesis
      by (rule that [OF shared_audit.persist_evidenced [OF p ok2] audit_runD(1) [OF shared_audit.persist_run [OF p] ok2]])
        (simp_all add: audit_entry_fields(1) [OF allow] audit_entry_fields(2-))
  qed
qed

section \<open>A ring of one key\<close>

definition sample_ring :: audit_env where
  "sample_ring = \<lparr>au_codec = plain_codec, au_rt = plain_runtime, au_hmac = (\<lambda>k m. take 4 k), au_active = \<lparr>ak_id = ''k1'', ak_secret = ''fourteen''\<rparr>,
     au_previous = [], au_window = 300, au_ttl = 86400, au_count_cap = 100, au_id_cap = 256\<rparr>"

lemma project_fields_total:
  "\<forall>f\<in>set fs. item_get ev f = PNone \<or> (\<exists>v. project_value (item_get ev f) = Some v) \<Longrightarrow> \<exists>safe. project_fields fs ev acc = Some safe"
  by (induction fs arbitrary: acc) (auto split: option.splits)

lemma text_dict:
  "\<forall>(a, v)\<in>set kvs. v = PNone \<or> (\<exists>s. v = PStr s) \<Longrightarrow> item_get (dict_of kvs) f = PNone \<or> (\<exists>s. item_get (dict_of kvs) f = PStr s)"
proof (induction kvs)
  case (Cons kv kvs)
  then show ?case by (cases kv; cases "f = fst kv") (auto simp: row_lookup)
qed (simp add: row_lookup)

lemma decision_projected:
  assumes "strip (decision_event_id au (au_active au) e) \<noteq> []"
  shows "\<exists>safe. project_audit_event rt (decision_event au e now) = Inr safe"
proof -
  let ?ev = "decision_event au e now"
  have "item_get ?ev f = PNone \<or> (\<exists>s. item_get ?ev f = PStr s)" for f
    unfolding decision_event_def Let_def by (rule text_dict) (simp split: option.split)
  then have "\<forall>f. item_get ?ev f = PNone \<or> (\<exists>v. project_value (item_get ?ev f) = Some v)"
    by (fastforce simp: project_value_def)
  then obtain safe where p: "project_fields SAFE_AUDIT_FIELDS ?ev Map.empty = Some safe"
    using project_fields_total [of SAFE_AUDIT_FIELDS ?ev Map.empty] by blast
  have "item_get safe ''event_id'' = PStr (decision_event_id au (au_active au) e)"
      "item_get safe ''event_type'' = item_get ?ev ''event_type''"
    using project_fields_get [OF p, of "''event_id''"] project_fields_get [OF p, of "''event_type''"]
    by (simp_all add: SAFE_AUDIT_FIELDS_def decision_event_fields project_value_def)
  moreover have "strip ''authorization_sensitive_allowed'' \<noteq> []" "strip ''authorization_denied'' \<noteq> []" by code_simp+
  ultimately show ?thesis using assms p
    by (auto simp: project_audit_event_def decision_event_fields)
qed

text \<open>On an undisturbed table without events a decision is appended at once.\<close>

lemma empty_audit: "audit_ok au Map.empty"
  by (simp add: audit_ok_def keyed_def probes_ok_def)

lemma first_decision:
  "\<exists>r w'. persist_authorization_decision (world_db (run_audit_call sample_ring)) (world_put (run_audit_call sample_ring)) sample_ring
      clock e \<lparr>tbl = Map.empty, script = []\<rparr> = (Inr r, w')"
proof -
  let ?ev = "decision_event sample_ring e (clock \<lparr>tbl = Map.empty, script = []\<rparr>)"
  have "sha_text (decision_event_id sample_ring (au_active sample_ring) e)"
    by (simp add: decision_event_id_def sample_ring_def plain.sha256_shape)
  then have "strip (decision_event_id sample_ring (au_active sample_ring) e) \<noteq> []" by (auto simp: strip_sha_text sha_text_def)
  from decision_projected [OF this] obtain safe where safe: "project_audit_event plain_runtime ?ev = Inr safe" by blast
  let ?row = "event_row plain_runtime (actor_fingerprint sample_ring (au_active sample_ring) (ae_actor_id e)) safe"
  have "op_ok Map.empty (Put ?row create_only)"
    by (simp add: op_ok_def event_row_key [OF safe] row_at_def)
  then have "world_put (run_audit_call sample_ring) (Put ?row create_only) \<lparr>tbl = Map.empty, script = []\<rparr>
      = (Put_Done, \<lparr>tbl = op_write (Put ?row create_only) Map.empty, script = []\<rparr>)"
    by (simp add: world_put_def next_event_def tx_apply_def)
  then show ?thesis
    using safe
    by (simp add: persist_authorization_decision_def Let_def append_authorization_event_def append_event_def decision_event_fields(2)
        AUTHORIZATION_EVENT_TYPES_def sample_ring_def)
qed

text \<open>
  C7: access leaves lasting evidence. When the gateway, with the repository's own audit sink, hands a
  resource to a handler for an effect that needs evidence, the table holds the event of an allowed
  decision of this actor, about this resource, for this action and purpose, under a key of the
  configured ring; and it holds it still after any calls of any sinks, this server's and the others'.
\<close>

theorem access_leaves_lasting_evidence:
  assumes "authorize_and_resolve (world_db (run_audit_call au)) rt now (world_sink au fresh clock) resolver a sp rid corr w = (Inr x, w')"
    and "requires_durable_evidence a (ar_ref x) (sp_action sp) (sp_purpose sp)"
    and "audit_ok au (tbl w)" and "reading (resolver rid) tbl (acts (run_audit_call au))"
  shows "\<exists>e r. evidenced au e r (tbl (audits_served au calls w')) \<and> ae_result e = ''allowed'' \<and> ae_actor_id e = user_id a
    \<and> ae_resource_type e = resource_text (resource_type (ar_ref x)) \<and> ae_resource_id e = resource_id (ar_ref x)
    \<and> ae_student_id e = student_id (ar_ref x) \<and> ae_action e = action_text (sp_action sp)
    \<and> ae_purpose e = purpose_text (sp_purpose sp)"
proof (rule access_evidenced [OF assms])
  fix e r
  assume e: "evidenced au e r (tbl w')" "audit_ok au (tbl w')"
  from evidenced_kept [OF audit_runD(2) [OF audits_served_run [OF e(2)] e(2)] e(1)]
  show "ae_result e = ''allowed'' \<Longrightarrow> ae_actor_id e = user_id a \<Longrightarrow> ae_resource_type e = resource_text (resource_type (ar_ref x))
    \<Longrightarrow> ae_resource_id e = resource_id (ar_ref x) \<Longrightarrow> ae_student_id e = student_id (ar_ref x)
    \<Longrightarrow> ae_action e = action_text (sp_action sp) \<Longrightarrow> ae_purpose e = purpose_text (sp_purpose sp) \<Longrightarrow> ?thesis" by blast
qed

lemma evidenced_access:
  "\<exists>w'. authorize_and_resolve (world_db (run_audit_call sample_ring)) plain_runtime (\<lambda>_. 0) (world_sink sample_ring ''id'' (\<lambda>_. 0))
     sample_resolver sample_admin sample_spec ''r1'' ''corr'' \<lparr>tbl = Map.empty, script = []\<rparr> = (Inr sample_report, w')"
proof -
  have ref: "make_ref (plain_ref RES_REPORT ''r1'' ''s1'') = Inr (plain_ref RES_REPORT ''r1'' ''s1'')" by code_simp
  have may: "fst (permits plain_runtime 0 sample_admin (plain_ref RES_REPORT ''r1'' ''s1'') no_facts ACT_READ FOR_SAFETY_REVIEW)"
    by code_simp
  have who: "role sample_admin = ROLE_ADMIN" by (simp add: sample_admin_def)
  have id: "opaque_id (strip ''corr'')" by code_simp
  obtain r w' where p: "persist_authorization_decision (world_db (run_audit_call sample_ring)) (world_put (run_audit_call sample_ring))
      sample_ring (\<lambda>_. 0) (audit_entry_of sample_admin (plain_ref RES_REPORT ''r1'' ''s1'') ACT_READ FOR_SAFETY_REVIEW
        (evaluate plain_runtime 0 sample_admin (plain_ref RES_REPORT ''r1'' ''s1'') no_facts ACT_READ FOR_SAFETY_REVIEW (Some ''corr''))
        (strip ''corr'') ''policy'') \<lparr>tbl = Map.empty, script = []\<rparr> = (Inr r, w')"
    using first_decision by blast
  have allow: "allowed (evaluate plain_runtime 0 sample_admin (plain_ref RES_REPORT ''r1'' ''s1'') no_facts ACT_READ FOR_SAFETY_REVIEW (Some ''corr''))"
    using may by (simp add: evaluate_simps)
  show ?thesis
    using p allow id
    by (simp add: authorize_and_resolve_def sample_resolver_def resolved_ref_def row_lookup ref sample_spec_def
        authorize_loaded_def facts_for_def who record_authorization_decision_def normalize_correlation_id_def world_sink_def
        dynamo_sink_def sample_report_def Let_def)
qed

theorem access_leaves_lasting_evidence_witness:
  "\<exists>w' e r. authorize_and_resolve (world_db (run_audit_call sample_ring)) plain_runtime (\<lambda>_. 0) (world_sink sample_ring ''id'' (\<lambda>_. 0))
      sample_resolver sample_admin sample_spec ''r1'' ''corr'' \<lparr>tbl = Map.empty, script = []\<rparr> = (Inr sample_report, w')
    \<and> evidenced sample_ring e r (tbl (audits_served sample_ring [Append_Event ''x'' Map.empty] w')) \<and> ae_result e = ''allowed''"
proof -
  obtain w' where w': "authorize_and_resolve (world_db (run_audit_call sample_ring)) plain_runtime (\<lambda>_. 0)
      (world_sink sample_ring ''id'' (\<lambda>_. 0)) sample_resolver sample_admin sample_spec ''r1'' ''corr''
      \<lparr>tbl = Map.empty, script = []\<rparr> = (Inr sample_report, w')" using evidenced_access by blast
  have needed: "requires_durable_evidence sample_admin (ar_ref sample_report) (sp_action sample_spec) (sp_purpose sample_spec)"
    by code_simp
  have "reading (sample_resolver ''r1'') tbl (acts (run_audit_call sample_ring))"
    by (simp add: reading_def sample_resolver_def acts_refl)
  from access_leaves_lasting_evidence [OF w' needed _ this, of "[Append_Event ''x'' Map.empty]"] w' empty_audit show ?thesis by auto
qed

text \<open>
  C13: refused attempts never add up. Over any calls of any sinks, every aggregate row of refused
  attempts counts one attempt and has its threshold unreached, however often the actor was refused in
  its window: a row read back carries its number as a \<open>Decimal\<close>, which the sink takes for damage.
\<close>

theorem refused_attempts_never_add_up:
  assumes "audit_ok au (tbl w)" and "1 < au_count_cap au" and "tbl (audits_served au calls w) (probe_at s x) = Some i"
  shows "item_get i ''probe_count'' = PDec 1 \<and> item_get i ''threshold_reached'' = PBool False"
proof -
  from audit_runD(1) [OF audits_served_run [OF assms(1)] assms(1)] assms(3)
  have "item_get i ''probe_count'' = PDec (of_int (min 1 (au_count_cap au)))
     \<and> item_get i ''threshold_reached'' = PBool (min 10 (au_count_cap au) \<le> min 1 (au_count_cap au))"
    unfolding audit_ok_def probes_ok_def by blast
  with assms(2) show ?thesis by (simp add: min_def)
qed

definition probed_entry :: audit_entry where
  "probed_entry = \<lparr>ae_correlation_id = ''c2'', ae_actor_id = ''u1'', ae_actor_role = ''parent'', ae_policy_version = ''v1'',
     ae_resource_type = ''student'', ae_resource_id = ''guess'', ae_student_id = ''guess'', ae_owner_id = None,
     ae_scope_discriminator = [], ae_action = ''read'', ae_purpose = ''parent_oversight'', ae_result = ''resource_not_found'',
     ae_decision_kind = ''policy'', ae_evidence_reference = None\<rparr>"

definition second_record :: audit_record where
  "second_record = \<lparr>ar_event_id = ''e2'', ar_resource_fingerprint = ''f'', ar_audit_key_id = ''k1'', ar_replayed = False\<rparr>"

definition second_probe :: probe where
  "second_probe = \<lparr>pb_record = second_record, pb_entry = probed_entry, pb_key = au_active sample_ring, pb_now = 0\<rparr>"

definition first_probe_row :: item where
  "first_probe_row = dict_of [(''PK'', PStr (fst (probe_key sample_ring second_probe))), (''SK'', PStr (snd (probe_key sample_ring second_probe))),
     (''probe_count'', PDec 1), (''threshold_reached'', PBool False), (''probe_version'', PDec 1),
     (''decision_event_ids'', PList [PStr ''e1''])]"

definition probed_world :: "audit_call world" where
  "probed_world = \<lparr>tbl = Map.empty(probe_key sample_ring second_probe \<mapsto> first_probe_row), script = []\<rparr>"

lemma probed_ok: "audit_ok sample_ring (tbl probed_world)"
proof -
  have "keyed (tbl probed_world)"
    by (simp add: probed_world_def keyed_def item_key_def first_probe_row_def row_lookup)
  moreover have "probes_ok sample_ring (tbl probed_world)"
    by (auto simp: probes_ok_def probed_world_def first_probe_row_def row_lookup sample_ring_def split: if_splits)
  ultimately show ?thesis by (simp add: audit_ok_def)
qed

lemma second_probe_lost: "audits_served sample_ring [Count_Probe second_record probed_entry 0] probed_world = probed_world"
proof -
  have "item_get first_probe_row ''probe_count'' = PDec 1" by (simp add: first_probe_row_def row_lookup)
  note stuck = probe_stuck [OF this]
  have get: "audit_get (world_db (run_audit_call sample_ring)) (probe_key sample_ring second_probe) probed_world = (Inr (Some first_probe_row), probed_world)"
    by (simp add: audit_get_def world_db_def world_get_def next_event_def probed_world_def)
  have "probe_loop 3 (world_db (run_audit_call sample_ring)) (world_put (run_audit_call sample_ring)) sample_ring second_probe probed_world
      = (Inl Dependency_Failure, probed_world)"
    by (simp add: eval_nat_numeral get stuck)
  moreover have "filter (\<lambda>k. ak_id k = ar_audit_key_id second_record) (audit_keys sample_ring) = [au_active sample_ring]"
    by (simp add: second_record_def audit_keys_def sample_ring_def)
  ultimately show ?thesis by (simp add: audits_served_def aggregate_authorization_probe_def second_probe_def)
qed

theorem refused_attempts_never_add_up_witness:
  "\<exists>i. tbl (audits_served sample_ring [Count_Probe second_record probed_entry 0] probed_world) (probe_key sample_ring second_probe) = Some i
     \<and> item_get i ''probe_count'' = PDec 1 \<and> item_get i ''threshold_reached'' = PBool False"
proof -
  have "tbl (audits_served sample_ring [Count_Probe second_record probed_entry 0] probed_world) (probe_key sample_ring second_probe)
      = Some first_probe_row" unfolding second_probe_lost by (simp add: probed_world_def)
  moreover from refused_attempts_never_add_up [OF probed_ok _ this [unfolded probe_key_at]]
  have "item_get first_probe_row ''probe_count'' = PDec 1 \<and> item_get first_probe_row ''threshold_reached'' = PBool False"
    by (simp add: sample_ring_def)
  ultimately show ?thesis by blast
qed

end
