(* ===== verification/Account_Number.thy ===== *)
theory Account_Number
  imports Put_Store
begin

text \<open>
  Account numbers (\<open>services/account_numbering_service.py\<close>, \<open>db/repositories/account_number_repo.py\<close>): a
  role letter, the year's two digits and a sequence, reserved for good by one conditional write; the
  cursor only says where to start looking.
\<close>

section \<open>Numbers\<close>

definition ROLE_NUMBER_PREFIXES :: "string \<rightharpoonup> char" where
  "ROLE_NUMBER_PREFIXES =
     map_of [(''student'', CHR ''S''), (''teacher'', CHR ''T''), (''parent'', CHR ''P''), (''admin'', CHR ''A'')]"

definition NUMBER_PREFIX_ROLES :: "char \<rightharpoonup> string" where
  "NUMBER_PREFIX_ROLES =
     map_of [(CHR ''S'', ''student''), (CHR ''T'', ''teacher''), (CHR ''P'', ''parent''), (CHR ''A'', ''admin'')]"

definition MAX_SEQUENCE :: int where
  "MAX_SEQUENCE = 9999"

definition MAX_CLAIM_ATTEMPTS :: nat where
  "MAX_CLAIM_ATTEMPTS = 2000"

definition format_account_number :: "string \<Rightarrow> int \<Rightarrow> int \<Rightarrow> string result" where
  "format_account_number role year n =
     (if n < 1 \<or> MAX_SEQUENCE < n then Inl Value_Error
      else case ROLE_NUMBER_PREFIXES role of
          None \<Rightarrow> Inl Value_Error
        | Some p \<Rightarrow> Inr (p # padded 2 (nat (year mod 100)) @ ''-'' @ padded 4 (nat n)))"

text \<open>\<open>ACCOUNT_NUMBER_PATTERN.match\<close>: \<open>$\<close> also matches before a final line feed.\<close>

definition number_pattern :: "string \<Rightarrow> bool" where
  "number_pattern s \<longleftrightarrow>
     (length s = 8 \<or> length s = 9 \<and> s ! 8 = char_of (10 :: nat))
     \<and> s ! 0 \<in> set ''STPA'' \<and> s ! 3 = CHR ''-''
     \<and> list_all ascii_digit (take 2 (drop 1 s) @ take 4 (drop 4 s))"

definition role_for_account_number :: "string \<Rightarrow> string result" where
  "role_for_account_number s =
     (if number_pattern s then case NUMBER_PREFIX_ROLES (s ! 0) of None \<Rightarrow> Inl Value_Error | Some r \<Rightarrow> Inr r
      else Inl Value_Error)"

section \<open>Claims and the cursor\<close>

definition claim_key :: "string \<Rightarrow> key" where
  "claim_key number = (''ACCOUNT_NUMBER#'' @ number, ''ACCOUNT_NUMBER'')"

definition allocation_hint_key :: "string \<Rightarrow> int \<Rightarrow> key" where
  "allocation_hint_key role year = (''ACCOUNT_NUMBER_SEQUENCE#'' @ role @ ''#'' @ int_text year, ''ACCOUNT_NUMBER_SEQUENCE'')"

text \<open>\<open>_get_item\<close>: an exception of the client goes through, a malformed answer is a bad value.\<close>

definition number_get :: "'w db \<Rightarrow> key \<Rightarrow> 'w \<Rightarrow> item option result \<times> 'w" where
  "number_get db k w =
     (case db_get db k w of
        (Resp_Failed, w1) \<Rightarrow> (Inl Provider_Error, w1)
      | (Resp_Malformed, w1) \<Rightarrow> (Inl Value_Error, w1)
      | (Resp_None, w1) \<Rightarrow> (Inr None, w1)
      | (Resp_Item i, w1) \<Rightarrow> (Inr (Some i), w1))"

definition claim_row :: "string \<Rightarrow> string \<Rightarrow> int \<Rightarrow> int \<Rightarrow> string \<Rightarrow> string \<Rightarrow> item" where
  "claim_row number role year n account at_time = dict_of
     [(''PK'', PStr (fst (claim_key number))), (''SK'', PStr (snd (claim_key number))),
      (''entity_type'', PStr ''account_number''), (''account_number'', PStr number), (''role'', PStr role),
      (''year'', PInt year), (''sequence'', PInt n), (''account_id'', PStr account), (''created_at'', PStr at_time)]"

definition claim_account_number ::
    "'w putter \<Rightarrow> string \<Rightarrow> string \<Rightarrow> int \<Rightarrow> int \<Rightarrow> string \<Rightarrow> string \<Rightarrow> 'w \<Rightarrow> bool result \<times> 'w" where
  "claim_account_number put number role year n account at_time w =
     (case put (Put (claim_row number role year n account at_time) create_only) w of
        (Put_Done, w1) \<Rightarrow> (Inr True, w1)
      | (Put_Refused, w1) \<Rightarrow> (Inr False, w1)
      | (Put_Failed, w1) \<Rightarrow> (Inl Provider_Error, w1))"

definition read_allocation_hint :: "'w db \<Rightarrow> string \<Rightarrow> int \<Rightarrow> 'w \<Rightarrow> int result \<times> 'w" where
  "read_allocation_hint db role year w =
     (case number_get db (allocation_hint_key role year) w of
        (Inl e, w1) \<Rightarrow> (Inl e, w1)
      | (Inr None, w1) \<Rightarrow> (Inr 0, w1)
      | (Inr (Some i), w1) \<Rightarrow> (Inr (case stored_int (item_get i ''last_sequence'') of None \<Rightarrow> 0 | Some n \<Rightarrow> max n 0), w1))"

definition hint_row :: "string \<Rightarrow> int \<Rightarrow> int \<Rightarrow> item" where
  "hint_row role year n = dict_of
     [(''PK'', PStr (fst (allocation_hint_key role year))), (''SK'', PStr (snd (allocation_hint_key role year))),
      (''entity_type'', PStr ''account_number_sequence''), (''role'', PStr role), (''year'', PInt year),
      (''last_sequence'', PInt n)]"

definition advance_allocation_hint :: "'w putter \<Rightarrow> string \<Rightarrow> int \<Rightarrow> int \<Rightarrow> 'w \<Rightarrow> unit result \<times> 'w" where
  "advance_allocation_hint put role year n w =
     (case put (Put (hint_row role year n) (C_Or (C_Absent ''PK'') (C_Below ''last_sequence'' n))) w of
        (Put_Failed, w1) \<Rightarrow> (Inl Provider_Error, w1)
      | (_, w1) \<Rightarrow> (Inr (), w1))"

section \<open>Allocating and resolving\<close>

datatype number_failure = Number_Error err | Numbers_Exhausted | Allocation_Failed

fun claim_from ::
    "nat \<Rightarrow> 'w db \<Rightarrow> 'w putter \<Rightarrow> string \<Rightarrow> int \<Rightarrow> string \<Rightarrow> string \<Rightarrow> int \<Rightarrow> 'w \<Rightarrow> (number_failure + string) \<times> 'w" where
  "claim_from 0 db put role year account at_time n w = (Inl Allocation_Failed, w)"
| "claim_from (Suc k) db put role year account at_time n w =
     (if MAX_SEQUENCE < n then (Inl Numbers_Exhausted, w)
      else case format_account_number role year n of
          Inl e \<Rightarrow> (Inl (Number_Error e), w)
        | Inr number \<Rightarrow>
            (case claim_account_number put number role year n account at_time w of
               (Inl e, w1) \<Rightarrow> (Inl (Number_Error e), w1)
             | (Inr True, w1) \<Rightarrow>
                 (case advance_allocation_hint put role year n w1 of
                    (Inl e, w2) \<Rightarrow> (Inl (Number_Error e), w2)
                  | (Inr _, w2) \<Rightarrow> (Inr number, w2))
             | (Inr False, w1) \<Rightarrow>
                 (case read_allocation_hint db role year w1 of
                    (Inl e, w2) \<Rightarrow> (Inl (Number_Error e), w2)
                  | (Inr h, w2) \<Rightarrow> claim_from k db put role year account at_time (max (n + 1) (h + 1)) w2)))"

definition allocate_account_number ::
    "'w db \<Rightarrow> 'w putter \<Rightarrow> string \<Rightarrow> string \<Rightarrow> int \<Rightarrow> string \<Rightarrow> 'w \<Rightarrow> (number_failure + string) \<times> 'w" where
  "allocate_account_number db put role account year at_time w =
     (if ROLE_NUMBER_PREFIXES role = None \<or> account = [] then (Inl (Number_Error Value_Error), w)
      else case read_allocation_hint db role year w of
          (Inl e, w1) \<Rightarrow> (Inl (Number_Error e), w1)
        | (Inr h, w1) \<Rightarrow> claim_from MAX_CLAIM_ATTEMPTS db put role year account at_time (h + 1) w1)"

definition resolve_account_id :: "'w db \<Rightarrow> string \<Rightarrow> 'w \<Rightarrow> string option result \<times> 'w" where
  "resolve_account_id db number w =
     (case number_get db (claim_key number) w of
        (Inl e, w1) \<Rightarrow> (Inl e, w1)
      | (Inr None, w1) \<Rightarrow> (Inr None, w1)
      | (Inr (Some i), w1) \<Rightarrow>
          (Inr (case item_get i ''account_id'' of PStr s \<Rightarrow> if s = [] then None else Some s | _ \<Rightarrow> None), w1))"

section \<open>A number tells its role\<close>

lemma digits_ascii: "list_all ascii_digit (padded k n)"
  using digit_padded [of k n] by (simp add: digit_def ascii_digit_def list_all_iff)

lemma format_round_trip:
  assumes "format_account_number role year n = Inr s"
  shows "role_for_account_number s = Inr role" and "1 \<le> n" and "n \<le> MAX_SEQUENCE"
proof -
  from assms obtain p where n: "1 \<le> n" "n \<le> MAX_SEQUENCE" and p: "ROLE_NUMBER_PREFIXES role = Some p"
    and s: "s = p # padded 2 (nat (year mod 100)) @ ''-'' @ padded 4 (nat n)"
    by (auto simp: format_account_number_def split: if_splits option.splits)
  show "1 \<le> n" "n \<le> MAX_SEQUENCE" by (rule n)+
  have len: "length (padded 2 (nat (year mod 100))) = 2" "length (padded 4 (nat n)) = 4"
    using n by (auto intro!: length_padded simp: nat_less_iff MAX_SEQUENCE_def)
  then obtain a b where y: "padded 2 (nat (year mod 100)) = [a, b]"
    by (auto simp: length_Suc_conv numeral_2_eq_2)
  from len obtain c d e f where q: "padded 4 (nat n) = [c, d, e, f]"
    by (auto simp: length_Suc_conv eval_nat_numeral)
  have digits: "list_all ascii_digit [a, b]" "list_all ascii_digit [c, d, e, f]"
    using digits_ascii [of 2 "nat (year mod 100)"] digits_ascii [of 4 "nat n"] y q by simp_all
  have "p \<in> set ''STPA'' \<and> NUMBER_PREFIX_ROLES p = Some role"
    using p by (auto simp: ROLE_NUMBER_PREFIXES_def NUMBER_PREFIX_ROLES_def split: if_splits)
  then show "role_for_account_number s = Inr role"
    using digits by (auto simp: role_for_account_number_def number_pattern_def s y q)
qed

end
