(* ===== verification/Account_World.thy ===== *)
theory Account_World
  imports Account_Number
begin

text \<open>
  Account numbers on the shared table: whatever servers allocate at the same time, a claim stays as it
  was written, so a number belongs to one account for good.
\<close>

section \<open>Runs\<close>

definition is_claim :: "key \<Rightarrow> bool" where
  "is_claim k \<longleftrightarrow> (\<exists>number. k = claim_key number)"

lemma is_claim_simps [simp]: "is_claim (claim_key s)" "\<not> is_claim (allocation_hint_key r y)"
  by (auto simp: is_claim_def claim_key_def allocation_hint_key_def)

definition number_run :: "table \<Rightarrow> table \<Rightarrow> bool" where
  "number_run t t' \<longleftrightarrow> (keyed t \<longrightarrow> keyed t' \<and> kept_rows is_claim t t')"

lemma number_run_refl [simp]: "number_run t t"
  by (simp add: number_run_def)

lemma number_run_trans: "number_run a b \<Longrightarrow> number_run b c \<Longrightarrow> number_run a c"
  by (auto simp: number_run_def intro: kept_rows_trans)

lemma number_run_row: "number_run t t' \<Longrightarrow> keyed t \<Longrightarrow> t (claim_key s) = Some i \<Longrightarrow> t' (claim_key s) = Some i"
  using kept_rowsD [of is_claim t t' "claim_key s" i] by (simp add: number_run_def)

lemma row_keys:
  "item_key (claim_row number role year n account at_time) = Some (claim_key number)"
  "item_key (hint_row role year n) = Some (allocation_hint_key role year)"
  by (simp_all add: item_key_def claim_row_def hint_row_def row_lookup)

lemma number_put_run:
  assumes tx: "tx_apply [Put i c] t = Some t'" and key: "item_key i = Some k" and once: "c = create_only \<or> \<not> is_claim k"
  shows "number_run t t'"
  unfolding number_run_def
proof (intro impI conjI)
  assume keyed: "keyed t"
  note p = put_tx [OF tx key]
  show "keyed t'" by (rule p(3) [OF keyed])
  have "\<not> is_claim k \<or> t k = None" using once p(1) by (auto simp only: keyed_create_only [OF keyed])
  then show "kept_rows is_claim t t'" unfolding p(2) by (rule kept_rows_upd)
qed

section \<open>Allocations as clients\<close>

locale number_client = put_store db rows env put
  for db :: "'w db" and rows :: "'w \<Rightarrow> table" and env :: "table \<Rightarrow> table \<Rightarrow> bool" and put :: "'w putter" +
  assumes env_numbers: "env t t' \<Longrightarrow> number_run t t'"

context number_client
begin

lemma put_run:
  assumes call: "put (Put i c) w = (r, w')" and "item_key i = Some k" "c = create_only \<or> \<not> is_claim k"
  shows "number_run (rows w) (rows w')"
proof (rule put_runs [where run = number_run, OF _ _ call])
  show "number_run t t'" if "env t t'" for t t' using that by (rule env_numbers)
  show "number_run x z" if "number_run x y" "number_run y z" for x y z using that by (rule number_run_trans)
  show "number_run t t'" if "tx_apply [Put i c] t = Some t'" for t t' using that by (rule number_put_run [OF _ assms(2,3)])
qed

lemma hint_run: "read_allocation_hint db role year w = (r, w') \<Longrightarrow> number_run (rows w) (rows w')"
  by (auto simp: read_allocation_hint_def number_get_def split: prod.splits sum.splits option.splits response.splits
      dest!: get_env intro: env_numbers)

lemma advance_run: "advance_allocation_hint put role year n w = (r, w') \<Longrightarrow> number_run (rows w) (rows w')"
  by (auto simp: advance_allocation_hint_def split: prod.splits put_answer.splits dest!: put_run [OF _ row_keys(2)])

lemma claim_run: "claim_account_number put number role year n account at_time w = (r, w') \<Longrightarrow> number_run (rows w) (rows w')"
  by (auto simp: claim_account_number_def split: prod.splits put_answer.splits dest!: put_run [OF _ row_keys(1)])

lemma claim_mine:
  assumes call: "claim_account_number put number role year n account at_time w = (Inr True, w')" and keyed: "keyed (rows w)"
  shows "rows w' (claim_key number) = Some (stored_item (claim_row number role year n account at_time))"
proof -
  let ?row = "claim_row number role year n account at_time"
  from call have "put (Put ?row create_only) w = (Put_Done, w')"
    by (auto simp: claim_account_number_def split: prod.splits put_answer.splits)
  from put_done [OF this] obtain t t' where
    t: "env (rows w) t" "tx_apply [Put ?row create_only] t = Some t'" "env t' (rows w')" by blast
  have "keyed t" using env_numbers [OF t(1)] keyed by (simp add: number_run_def)
  note p = put_tx [OF t(2) row_keys(1)]
  from p(3) [OF \<open>keyed t\<close>] p(2) show ?thesis by (intro number_run_row [OF env_numbers [OF t(3)]]) simp_all
qed

lemma claim_from_run:
  "claim_from k db put role year account at_time n w = (r, w') \<Longrightarrow> number_run (rows w) (rows w')"
proof (induction k arbitrary: n w)
  case (Suc k)
  show ?case
  proof (cases "MAX_SEQUENCE < n \<or> is_ok (format_account_number role year n) = False")
    case True
    with Suc.prems show ?thesis by (auto split: sum.splits if_splits)
  next
    case False
    then obtain number where number: "\<not> MAX_SEQUENCE < n" "format_account_number role year n = Inr number" by (auto simp: is_ok_iff)
    obtain c w1 where c: "claim_account_number put number role year n account at_time w = (c, w1)" by fastforce
    obtain a w2 where a: "advance_allocation_hint put role year n w1 = (a, w2)" by fastforce
    obtain h w3 where h: "read_allocation_hint db role year w1 = (h, w3)" by fastforce
    note r1 = claim_run [OF c]
    note r2 = number_run_trans [OF r1 advance_run [OF a]] and r3 = number_run_trans [OF r1 hint_run [OF h]]
    from Suc.prems number c a h consider "w' = w1" | "w' = w2" | "w' = w3"
      | m where "claim_from k db put role year account at_time m w3 = (r, w')"
      by (auto split: sum.splits bool.splits)
    then show ?thesis
    proof cases
      case 4
      from r3 Suc.IH [OF 4] show ?thesis by (rule number_run_trans)
    qed (use r1 r2 r3 in simp_all)
  qed
qed simp

end

text \<open>Whose a number is, as far as the table tells.\<close>

definition held_by :: "table \<Rightarrow> string \<Rightarrow> string \<Rightarrow> bool" where
  "held_by t number account \<longleftrightarrow> (\<exists>i. t (claim_key number) = Some i \<and> item_get i ''account_id'' = PStr account)"

lemma held_by_run: "number_run t t' \<Longrightarrow> keyed t \<Longrightarrow> held_by t number account \<Longrightarrow> held_by t' number account"
  unfolding held_by_def by (blast intro: number_run_row)

lemma held_by_unique: "held_by t number a \<Longrightarrow> held_by t number b \<Longrightarrow> a = b"
  by (auto simp: held_by_def)

lemma claim_row_held: "t (claim_key number) = Some (stored_item (claim_row number role year n account at_time)) \<Longrightarrow> held_by t number account"
  by (simp add: held_by_def item_get_stored claim_row_def row_lookup)

context number_client
begin

lemma claim_from_mine:
  "claim_from k db put role year account at_time n w = (Inr number, w') \<Longrightarrow> keyed (rows w) \<Longrightarrow>
     held_by (rows w') number account \<and> role_for_account_number number = Inr role"
proof (induction k arbitrary: n w)
  case (Suc k)
  from Suc.prems(1) obtain s where ok: "\<not> MAX_SEQUENCE < n" "format_account_number role year n = Inr s"
    by (auto split: sum.splits if_splits)
  obtain c w1 where c: "claim_account_number put s role year n account at_time w = (c, w1)" by fastforce
  obtain a w2 where a: "advance_allocation_hint put role year n w1 = (a, w2)" by fastforce
  obtain h w3 where h: "read_allocation_hint db role year w1 = (h, w3)" by fastforce
  have k1: "keyed (rows w1)" using claim_run [OF c] Suc.prems(2) by (simp add: number_run_def)
  have k3: "keyed (rows w3)" using hint_run [OF h] k1 by (simp add: number_run_def)
  consider (won) "c = Inr True" | (taken) "c = Inr False" | (failed) e where "c = Inl e" by (cases c) auto
  then show ?case
  proof cases
    case won
    have "held_by (rows w1) s account" by (rule claim_row_held) (rule claim_mine [OF c [unfolded won] Suc.prems(2)])
    from held_by_run [OF advance_run [OF a] k1 this] have "held_by (rows w2) s account" .
    moreover have "number = s" "w' = w2" using Suc.prems(1) ok c a won by (simp_all split: sum.splits)
    ultimately show ?thesis using format_round_trip(1) [OF ok(2)] by simp
  next
    case taken
    then obtain m where "claim_from k db put role year account at_time m w3 = (Inr number, w')"
      using Suc.prems(1) ok c h by (simp split: sum.splits)
    then show ?thesis by (rule Suc.IH [OF _ k3])
  next
    case failed
    then show ?thesis using Suc.prems(1) ok c by simp
  qed
qed simp

lemma allocate_run: "allocate_account_number db put role account year at_time w = (r, w') \<Longrightarrow> number_run (rows w) (rows w')"
proof -
  assume call: "allocate_account_number db put role account year at_time w = (r, w')"
  obtain h w1 where h: "read_allocation_hint db role year w = (h, w1)" by fastforce
  note first = hint_run [OF h]
  from call h consider "w' = w" | "w' = w1" | n where "claim_from MAX_CLAIM_ATTEMPTS db put role year account at_time n w1 = (r, w')"
    unfolding allocate_account_number_def by (cases h; simp split: if_splits; blast)
  then show ?thesis
  proof cases
    case 3
    from first claim_from_run [OF 3] show ?thesis by (rule number_run_trans)
  qed (use first in simp_all)
qed

lemma allocate_mine:
  assumes call: "allocate_account_number db put role account year at_time w = (Inr number, w')" and keyed: "keyed (rows w)"
  shows "held_by (rows w') number account" and "role_for_account_number number = Inr role" and "account \<noteq> []"
proof -
  from call obtain h w1 where h: "read_allocation_hint db role year w = (Inr h, w1)" and acc: "account \<noteq> []"
    and c: "claim_from MAX_CLAIM_ATTEMPTS db put role year account at_time (h + 1) w1 = (Inr number, w')"
    by (auto simp: allocate_account_number_def split: if_splits prod.splits sum.splits)
  have "keyed (rows w1)" using hint_run [OF h] keyed by (simp add: number_run_def)
  from claim_from_mine [OF c this] acc show "held_by (rows w') number account" "role_for_account_number number = Inr role" "account \<noteq> []"
    by simp_all
qed

lemma resolve_held:
  assumes "resolve_account_id db number w = (Inr r, w')" "held_by (rows w') number account" "account \<noteq> []"
  shows "r = Some account"
proof -
  from assms(2) obtain i where i: "rows w' (claim_key number) = Some i" "item_get i ''account_id'' = PStr account"
    by (auto simp: held_by_def)
  have "number_get db (claim_key number) w = (Inr x, w') \<Longrightarrow> x = Some i" for x
    using i(1) by (auto simp: number_get_def split: prod.splits response.splits dest: get_item get_none)
  with assms(1,3) i(2) show ?thesis
    by (auto simp: resolve_account_id_def split: prod.splits sum.splits option.splits)
qed

lemma resolve_run: "resolve_account_id db number w = (r, w') \<Longrightarrow> number_run (rows w) (rows w')"
  by (auto simp: resolve_account_id_def number_get_def split: prod.splits sum.splits option.splits response.splits
      dest!: get_env intro: env_numbers)

end

section \<open>Servers on one table\<close>

datatype number_call = Allocate string string int string | Look_Up string

fun serve_number :: "'w db \<Rightarrow> 'w putter \<Rightarrow> number_call \<Rightarrow> 'w \<Rightarrow> 'w" where
  "serve_number db put (Allocate role account year at_time) w = snd (allocate_account_number db put role account year at_time w)"
| "serve_number db put (Look_Up number) w = snd (resolve_account_id db number w)"

context number_client
begin

lemma serve_number_run: "number_run (rows w) (rows (serve_number db put call w))"
  by (cases call) (auto intro: allocate_run [OF prod.collapse [symmetric]] resolve_run [OF prod.collapse [symmetric]])

lemma serve_numbers_run: "number_run (rows w) (rows (fold (serve_number db put) calls w))"
  by (induction calls arbitrary: w) (auto intro: number_run_trans [OF serve_number_run])

end

interpretation lone_numbers: number_client table_db "\<lambda>t. t" "(=)" table_put
  by unfold_locales simp

lemma acts_number_run: "acts (serve_number table_db table_put) t t' \<Longrightarrow> number_run t t'"
  using lone_numbers.serve_numbers_run by (auto simp: acts_def)

interpretation shared_numbers: number_client "world_db (serve_number table_db table_put)" tbl
    "acts (serve_number table_db table_put)" "world_put (serve_number table_db table_put)"
  by unfold_locales (rule acts_number_run)

definition numbers_db :: "number_call world db" where
  "numbers_db = world_db (serve_number table_db table_put)"

definition numbers_put :: "number_call world putter" where
  "numbers_put = world_put (serve_number table_db table_put)"

text \<open>
  C10: an account number is permanent. A number that an allocation returns tells the account's role; and
  from then on, after any calls of any servers, whoever looks it up and is answered gets this account -
  so no two accounts are ever given the same number, however many servers allocate at once, whatever
  the cursor says, and whether or not answers get lost.
\<close>

theorem account_numbers_are_permanent:
  assumes "keyed (tbl w)" and "allocate_account_number numbers_db numbers_put role account year at_time w = (Inr number, w1)"
    and "resolve_account_id numbers_db number (fold (serve_number numbers_db numbers_put) calls w1) = (Inr r, w2)"
  shows "r = Some account \<and> role_for_account_number number = Inr role"
proof -
  note first = assms(2) [unfolded numbers_db_def numbers_put_def] and last = assms(3) [unfolded numbers_db_def numbers_put_def]
  note mine = shared_numbers.allocate_mine [OF first assms(1)]
  have k1: "keyed (tbl w1)" using shared_numbers.allocate_run [OF first] assms(1) by (simp add: number_run_def)
  have "number_run (tbl w1) (tbl w2)"
    by (rule number_run_trans [OF shared_numbers.serve_numbers_run shared_numbers.resolve_run [OF last]])
  from shared_numbers.resolve_held [OF last held_by_run [OF this k1 mine(1)] mine(3)] mine(2) show ?thesis by simp
qed

section \<open>The first number\<close>

definition quiet_numbers :: "table \<Rightarrow> number_call world" where
  "quiet_numbers t = \<lparr>tbl = t, script = []\<rparr>"

lemma quiet_numbers_get:
  "db_get numbers_db k (quiet_numbers t) = (case t k of None \<Rightarrow> Resp_None | Some i \<Rightarrow> Resp_Item i, quiet_numbers t)"
  by (simp add: numbers_db_def world_db_def world_get_def next_event_def quiet_numbers_def)

lemma quiet_numbers_put:
  "numbers_put oper (quiet_numbers t) =
     (case tx_apply [oper] t of None \<Rightarrow> (Put_Refused, quiet_numbers t) | Some t' \<Rightarrow> (Put_Done, quiet_numbers t'))"
  by (simp add: numbers_put_def world_put_def next_event_def quiet_numbers_def split: option.split)

lemma quiet_create:
  assumes "item_key i = Some k" "t k = None" "cond_holds c Map.empty"
  shows "tx_apply [Put i c] t = Some (t(k \<mapsto> stored_item i))"
  using assms by (simp add: tx_apply_def op_ok_def row_at_def)

lemma first_number:
  "\<exists>w1. allocate_account_number numbers_db numbers_put ''student'' ''u1'' 2026 ''t0'' (quiet_numbers Map.empty) = (Inr ''S26-0001'', w1)
     \<and> fst (resolve_account_id numbers_db ''S26-0001'' w1) = Inr (Some ''u1'')"
proof -
  let ?row = "claim_row ''S26-0001'' ''student'' 2026 1 ''u1'' ''t0''" and ?hint = "hint_row ''student'' 2026 1"
  let ?t = "Map.empty(claim_key ''S26-0001'' \<mapsto> stored_item ?row)"
  have f: "format_account_number ''student'' 2026 1 = Inr ''S26-0001''" by code_simp
  have r: "ROLE_NUMBER_PREFIXES ''student'' \<noteq> None" by (simp add: ROLE_NUMBER_PREFIXES_def)
  have apart: "allocation_hint_key ''student'' 2026 \<noteq> claim_key ''S26-0001''" by (simp add: claim_key_def allocation_hint_key_def)
  have claim: "tx_apply [Put ?row create_only] Map.empty = Some ?t"
    by (rule quiet_create) (simp_all add: row_keys)
  have hint: "tx_apply [Put ?hint (C_Or (C_Absent ''PK'') (C_Below ''last_sequence'' 1))] ?t
      = Some (?t(allocation_hint_key ''student'' 2026 \<mapsto> stored_item ?hint))"
    by (rule quiet_create) (simp_all add: row_keys apart)
  have n: "MAX_CLAIM_ATTEMPTS = Suc 1999" by (simp add: MAX_CLAIM_ATTEMPTS_def)
  have "allocate_account_number numbers_db numbers_put ''student'' ''u1'' 2026 ''t0'' (quiet_numbers Map.empty)
      = (Inr ''S26-0001'', quiet_numbers (?t(allocation_hint_key ''student'' 2026 \<mapsto> stored_item ?hint)))"
    using r unfolding allocate_account_number_def n claim_from.simps
    by (simp add: read_allocation_hint_def number_get_def quiet_numbers_get f claim_account_number_def quiet_numbers_put claim
        advance_allocation_hint_def hint MAX_SEQUENCE_def)
  moreover have "fst (resolve_account_id numbers_db ''S26-0001'' (quiet_numbers (?t(allocation_hint_key ''student'' 2026 \<mapsto> stored_item ?hint))))
      = Inr (Some ''u1'')"
    by (simp add: resolve_account_id_def number_get_def quiet_numbers_get claim_key_def allocation_hint_key_def item_get_stored
        claim_row_def row_lookup)
  ultimately show ?thesis by blast
qed

theorem account_numbers_are_permanent_witness:
  "\<exists>w1. allocate_account_number numbers_db numbers_put ''student'' ''u1'' 2026 ''t0'' (quiet_numbers Map.empty) = (Inr ''S26-0001'', w1)
     \<and> fst (resolve_account_id numbers_db ''S26-0001'' w1) = Inr (Some ''u1'')
     \<and> role_for_account_number ''S26-0001'' = Inr ''student''"
proof -
  from first_number obtain w1 where a: "allocate_account_number numbers_db numbers_put ''student'' ''u1'' 2026 ''t0''
      (quiet_numbers Map.empty) = (Inr ''S26-0001'', w1)" and r: "fst (resolve_account_id numbers_db ''S26-0001'' w1) = Inr (Some ''u1'')"
    by blast
  from r have "resolve_account_id numbers_db ''S26-0001'' (fold (serve_number numbers_db numbers_put) [] w1)
      = (Inr (Some ''u1''), snd (resolve_account_id numbers_db ''S26-0001'' w1))" by (simp add: prod_eq_iff)
  from account_numbers_are_permanent [OF _ a this] a r show ?thesis by (auto simp: quiet_numbers_def keyed_def)
qed

end
