(* ===== verification/Link_Race.thy ===== *)
theory Link_Race
  imports Link_Properties
begin

text \<open>
  Why \<open>no_self_granted_link\<close> needs that nobody asks meanwhile: \<open>_answer_pending\<close> judges who may confirm on
  one read, and \<open>transition_link\<close> reads again and writes under the condition that the status is still
  \<open>pending\<close>. A request that runs out between the two, and is asked for again by the very side that is
  confirming, is still \<open>pending\<close>; so the confirmation activates the confirmer's own request.
\<close>

section \<open>The request, the second request, and what the confirmation makes of it\<close>

text \<open>The parent asked at 0; fourteen days are 1209600000000 microseconds.\<close>

definition parent_asked :: link where
  "parent_asked = asked\<lparr>lk_initiator := ''parent'', lk_created_by := ''p1'', lk_updated_by := ''p1''\<rparr>"

definition student_asked :: link where
  "student_asked = asked_at ''us1209600000000''"

definition self_granted :: link where
  "self_granted = student_asked\<lparr>lk_status := ''active'', lk_updated_by := ''s1'', lk_stamp := ''us1209599999999''\<rparr>"

abbreviation race_table :: table where
  "race_table \<equiv> pair_put parent_asked family_table"

lemma race_clock:
  "moment_of plain_runtime (PStr ''us1209599999999'') = Some (Stamp 1209599999999 (Some 0))"
  "moment_of plain_runtime (PStr ''us1209600000000'') = Some (Stamp 1209600000000 (Some 0))"
  "strip ''us1209599999999'' = ''us1209599999999''" "strip ''us1209600000000'' = ''us1209600000000''"
proof -
  have n: "text_int ''1209599999999'' = 1209599999999" "text_int ''1209600000000'' = 1209600000000"
    by (simp_all add: text_int_def text_nat_def)
  show s: "strip ''us1209599999999'' = ''us1209599999999''" "strip ''us1209600000000'' = ''us1209600000000''" by code_simp+
  show "moment_of plain_runtime (PStr ''us1209599999999'') = Some (Stamp 1209599999999 (Some 0))"
    by (simp add: moment_of_def plain_runtime_def s(1) n(1))
  show "moment_of plain_runtime (PStr ''us1209600000000'') = Some (Stamp 1209600000000 (Some 0))"
    by (simp add: moment_of_def plain_runtime_def s(2) n(2))
qed

lemma race_dates: "date_of 1209599999999 = (1970, 1, 14)" "date_of 1209600000000 = (1970, 1, 15)"
proof -
  have y: "year_of 719176 = 1970" "year_of 719177 = 1970" by (simp_all add: year_of_def)
  have o: "ordinal_of 1209599999999 = 719176" "ordinal_of 1209600000000 = 719177" by (simp_all add: ordinal_of_def)
  have d: "days_before_year 1970 = 719162" by (simp add: days_before_year_def)
  show "date_of 1209599999999 = (1970, 1, 14)" "date_of 1209600000000 = (1970, 1, 15)"
    by (simp_all add: date_of_def date_of_ordinal_def o y d month_lengths_def)
qed

lemma race_birthdays: "normalize_date_of_birth (PStr ''1940-02-29'') (1970, 1, 14) = Some (1940, 2, 29)"
  "normalize_date_of_birth (PStr ''1940-02-29'') (1970, 1, 15) = Some (1940, 2, 29)"
  by code_simp+

lemma race_adults:
  "\<not> minor_among [family_table (profile_key ''p1''), family_table (profile_key ''s1'')] (moment_of plain_runtime (PStr ''us1209599999999'')) 18"
  "\<not> minor_among [family_table (profile_key ''p1''), family_table (profile_key ''s1'')] (moment_of plain_runtime (PStr ''us1209600000000'')) 18"
  by (simp_all add: minor_among_def account_is_minor_def is_minor_def family_table_def profile_key_def account_row_def
      row_lookup race_clock race_dates race_birthdays)

section \<open>The second request\<close>

text \<open>It is an ordinary one: the first has gone unanswered for fourteen days.\<close>

lemma second_request:
  "request_link table_db plain_runtime 18 None ''s1'' (Some ''p1'') None ''child'' ''us1209600000000'' race_table
     = (Inr student_asked, pair_put student_asked race_table)"
proof -
  let ?f = "stored_item (side_item (parent_side_key ''p1'' ''s1'') parent_asked)"
  have "item_get ?f ''status'' = PStr ''pending''" "settled_at plain_runtime ?f = Some (Stamp 0 (Some 0))"
    by (simp_all add: settled_at_def row_lookup parent_asked_def asked_def sample_clock)
  then have turn: "refuse_unless_reclaimable plain_runtime ?f (moment_of plain_runtime (PStr ''us1209600000000'')) = None"
    by (simp add: refuse_unless_reclaimable_def pending_expired_def PENDING_REQUEST_TTL_def race_clock)
  show ?thesis unfolding student_asked_def
    by (rule family_request [where old = parent_asked and w' = "\<lambda>t. t",
          OF _ _ _ _ _ _ _ _ turn race_adults(2) table_reads_as table_tx_ok])
      (simp_all add: parent_asked_def asked_def race_clock family_names)
qed

lemma second_request_command:
  "run_link_command (Pair_Reclaim student_asked ''pending'' ''us0'') race_table = pair_put student_asked race_table"
proof -
  have "pair_key student_asked = pair_key parent_asked" "mirror_key student_asked = mirror_key parent_asked"
    by (simp_all add: student_asked_def asked_at_def parent_asked_def asked_def)
  moreover have "side_status race_table (pair_key parent_asked) ''pending''" "side_status race_table (mirror_key parent_asked) ''pending''"
    "side_stamp race_table (pair_key parent_asked) ''us0''" "side_stamp race_table (mirror_key parent_asked) ''us0''"
    using pair_put_sides [of parent_asked family_table]
    by (simp_all add: side_status_def side_stamp_def row_at_def row_lookup) (simp_all add: parent_asked_def asked_def)
  ultimately show ?thesis by (simp add: if_step_def) (simp add: student_asked_def asked_at_def asked_def)
qed

section \<open>The confirmation\<close>

text \<open>The student confirms a microsecond before; the second request falls after the third of its reads.\<close>

definition race :: "link_command world" where
  "race = \<lparr>tbl = race_table, script = [([], Answered), ([], Answered), ([], Answered),
     ([Pair_Reclaim student_asked ''pending'' ''us0''], Answered)]\<rparr>"

lemma race_read:
  "db_get link_db k \<lparr>tbl = t, script = (cs, Answered) # s\<rparr> =
     (let t' = fold run_link_command cs t in (case t' k of None \<Rightarrow> Resp_None | Some i \<Rightarrow> Resp_Item i, \<lparr>tbl = t', script = s\<rparr>))"
  by (simp add: world_db_def world_get_def next_event_def Let_def)

lemma race_confirms:
  "confirm_link link_db plain_runtime 18 ''p1'' ''s1'' ''s1'' ''us1209599999999'' race
     = (Inr self_granted, \<lparr>tbl = pair_put self_granted (pair_put student_asked race_table), script = []\<rparr>)"
proof -
  let ?e = "([], Answered) :: link_command list \<times> fate" and ?r = "([Pair_Reclaim student_asked ''pending'' ''us0''], Answered)"
  let ?t = race_table and ?u = "pair_put student_asked race_table"
  let ?w1 = "\<lparr>tbl = ?t, script = [?e, ?e, ?r]\<rparr>" and ?w3 = "\<lparr>tbl = ?t, script = [?r]\<rparr>"
  let ?w4 = "\<lparr>tbl = ?u, script = []\<rparr> :: link_command world"
  let ?clock = "moment_of plain_runtime (PStr ''us1209599999999'')"
  let ?f = "stored_item (side_item (parent_side_key ''p1'' ''s1'') parent_asked)"
  let ?g = "stored_item (side_item (parent_side_key ''p1'' ''s1'') student_asked)"
  let ?h = "stored_item (side_item (student_side_key ''s1'' ''p1'') student_asked)"
  have rows: "?t (parent_side_key ''p1'' ''s1'') = Some ?f" "?u (parent_side_key ''p1'' ''s1'') = Some ?g"
    "?u (student_side_key ''s1'' ''p1'') = Some ?h"
    using pair_put_sides [of parent_asked family_table] pair_put_sides [of student_asked race_table]
    by (simp_all add: parent_asked_def student_asked_def asked_at_def asked_def)
  have "item_get ?f ''status'' = PStr ''pending''" "settled_at plain_runtime ?f = Some (Stamp 0 (Some 0))"
    by (simp_all add: settled_at_def row_lookup parent_asked_def asked_def sample_clock)
  then have 1: "pending_link link_db plain_runtime ''p1'' ''s1'' ?clock race = (Inr ?f, ?w1)"
    by (simp add: pending_link_def get_parent_side_link_def keyed_get_def required_field_def family_names link_get_def
        race_def race_read rows(1) pending_expired_def PENDING_REQUEST_TTL_def race_clock)
  have 2: "confirmer_side plain_runtime ?f = Inr ''s1''" "item_get ?f ''created_by'' = PStr ''p1''"
    by (simp_all add: confirmer_side_def row_lookup) (simp_all add: parent_asked_def asked_def)
  have people: "?t (profile_key u) = family_table (profile_key u)" for u
    by (simp add: pair_put_other profile_key_def parent_side_key_def student_side_key_def)
  have get: "get_user link_db u \<lparr>tbl = ?t, script = ?e # s\<rparr> = (Inr (family_table (profile_key u)), \<lparr>tbl = ?t, script = s\<rparr>)" for u s
    by (simp add: get_user_def race_read people split: option.split)
  have 3: "capable_consent link_db 18 True ''p1'' ''s1'' ?clock ?w1 = (Inr (), ?w3)"
    using race_adults(1) by (simp add: capable_consent_def get)
  have w4: "reads_as link_db ?w4 ?u" using silent_reads_as [of ?w4 run_link_command] by simp
  note sides = quiet_sides [OF w4 family_names(1,2), unfolded rows]
  have "get_parent_side_link link_db ''p1'' ''s1'' ?w3 = (Inr (Some ?g), ?w4)"
    using second_request_command
    by (simp add: get_parent_side_link_def keyed_get_def required_field_def family_names link_get_def race_read rows(2))
  then have both: "both_sides_stored link_db ''p1'' ''s1'' ?w3 = (Inr (?g, ?h), ?w4)"
    by (simp add: both_sides_stored_def sides)
  have body: "transition_body plain_runtime ''p1'' ''s1'' ''active'' ''s1'' ''us1209599999999'' ?g = Inr self_granted"
    by (simp add: transition_body_def required_field_def family_names race_clock row_lookup link_body_def
        KNOWN_INITIATORS_def self_granted_def student_asked_def asked_at_def asked_def)
  have wr: "fenced_write link_db self_granted (status_condition ''pending'') ?w4
      = (Inr self_granted, \<lparr>tbl = pair_put self_granted ?u, script = []\<rparr>)"
  proof (rule quiet_fenced_write [where g = 1 and h = 1 and w' = "\<lambda>t. \<lparr>tbl = t, script = []\<rparr>",
        OF _ _ _ _ _ _ _ _ _ w4 silent_tx_ok])
    show "fence_active ?u (lk_parent self_granted) 1" "fence_active ?u (lk_student self_granted) 1"
      using family_is_ready
      by (simp_all add: fence_active_def family_ready_def family_names pair_put_other parent_side_key_def
          student_side_key_def self_granted_def student_asked_def asked_at_def asked_def)
    have "cond_holds (status_condition ''pending'') (stored_item (side_item k student_asked))" for k
      by (simp add: status_condition_def side_item_def dict_of_def link_attributes_def stored_item_def student_asked_def
          asked_at_def asked_def)
    then show "cond_holds (status_condition ''pending'') (row_at ?u (pair_key self_granted))"
      "cond_holds (status_condition ''pending'') (row_at ?u (mirror_key self_granted))"
      using rows by (simp_all add: row_at_def self_granted_def student_asked_def asked_at_def asked_def)
  qed (simp_all add: self_granted_def student_asked_def asked_at_def asked_def family_names)
  have st: "item_get ?g ''status'' = PStr ''pending''" "item_get ?h ''status'' = PStr ''pending''"
    by (simp_all add: row_lookup student_asked_def asked_at_def asked_def)
  have 4: "transition_link link_db plain_runtime ''p1'' ''s1'' ''pending'' ''active'' ''s1'' ''us1209599999999'' ?w3
      = (Inr self_granted, \<lparr>tbl = pair_put self_granted ?u, script = []\<rparr>)"
    by (simp add: transition_link_def required_field_def checked_status_def family_names strip_known
        KNOWN_STATUSES_def both st body wr)
  show ?thesis
    by (simp add: confirm_link_def answer_pending_def 1 2 3 4 from_repo_def Let_def)
qed

text \<open>
  The student's own request, asked while the parent's was being confirmed, is activated by the student:
  nobody but the student ever agreed to it.
\<close>

theorem reasked_request_confirms_itself:
  "\<exists>b w'. confirm_link link_db plain_runtime 18 ''p1'' ''s1'' ''s1'' ''us1209599999999'' race = (Inr b, w')
     \<and> snd (request_link table_db plain_runtime 18 None ''s1'' (Some ''p1'') None ''child'' ''us1209600000000'' race_table)
       = run_link_command (Pair_Reclaim student_asked ''pending'' ''us0'') race_table
     \<and> lk_status b = ''active'' \<and> lk_initiator b = ''student'' \<and> lk_created_by b = ''s1'' \<and> lk_updated_by b = ''s1''
     \<and> links_consented (tbl race) \<and> \<not> links_consented (tbl w')"
proof -
  let ?w = "\<lparr>tbl = pair_put self_granted (pair_put student_asked race_table), script = []\<rparr> :: link_command world"
  have "consent_ok parent_asked" by (simp add: consent_ok_def parent_asked_def asked_def)
  with family_facts(3) have "links_consented (tbl race)" by (simp add: race_def pair_put_consented)
  moreover have "tbl ?w (parent_side_key ''p1'' ''s1'') = Some (stored_item (side_item (parent_side_key ''p1'' ''s1'') self_granted))"
    using pair_put_sides(1) [of self_granted "pair_put student_asked race_table"]
    by (simp add: self_granted_def student_asked_def asked_at_def asked_def)
  moreover have "\<not> consent_row (stored_item (side_item k self_granted))" for k
    by (simp add: consent_row_def row_lookup self_granted_def student_asked_def asked_at_def asked_def)
  ultimately have "links_consented (tbl race) \<and> \<not> links_consented (tbl ?w)"
    by (metis links_consented_def own_row_def)
  then show ?thesis
    using race_confirms second_request second_request_command
    by (auto simp: self_granted_def student_asked_def asked_at_def asked_def)
qed

end
