(* ===== verification/Spec2Isabelle.thy ===== *)
theory Spec2Isabelle
  imports Ledger_World Access_Properties Help_Staff Case_World Rate_Properties Access_Evidence Account_World Link_Race
begin

text \<open>
  A verification development for the stoa backend: the parts of its own that decide money-like
  allowances, family relationships, help requests and access to student data. The sources are
  named relative to \<open>src/stoa\<close>.

  \<^bold>\<open>The system.\<close> All state is in one DynamoDB table, read strongly row by row and changed by
  atomic conditional transactions. Requests run side by side in many processes, so every
  component is a protocol of reads, a decision, and one conditional write. The token ledger
  charges what a student's questions cost against a weekly budget; the teacher-support allowance
  counts a student's cases with teachers, and is spent and refunded inside the transactions that
  open and end a help request; a request is planned for, offered to and taken by teachers. Rate
  admission caps hints and anonymous sources. Every account has a number of its own. Parent links decide which parent may see which
  student. The authorization gateway resolves an actor, judges one action
  on one resource, stores the evidence, and only then hands the resource to a handler; it asks
  the relationship judge about parents and the help request about teachers. Account fences make
  every write stop once an account is being deleted.

  \<^bold>\<open>Theories and the code they model.\<close>
  \<^item> \<open>Prelude\<close>, \<open>Py_Value\<close>, \<open>Codec\<close>, \<open>Runtime\<close>: Python values, their truth, numbers and texts, ISO
    stamps and birthdays (\<open>models/user.py\<close>), digests. What the model cannot determine (SHA-256,
    \<open>datetime.fromisoformat\<close>, the time-zone data) is an argument: a \<open>codec\<close>, a \<open>runtime\<close>.
  \<^item> \<open>Table_Store\<close>: rows, conditions, updates, transactions, and the locale \<open>store\<close> with what the
    service documents, other clients acting between any two calls (\<open>env\<close>). The repository's own
    double, \<open>tests/fakes/dynamodb.py\<close>, is the source of the condition semantics.
  \<^item> \<open>Account_Fence\<close>: \<open>db/repositories/account_deletion_repo.py\<close>, the fence and its condition.
  \<^item> \<open>Zurich_Week\<close>, \<open>Weekly_Counter\<close>: \<open>db/repositories/weekly_counter.py\<close>, the Zurich calendar week, a
    counter's validation, its versioned write and the retry loop.
  \<^item> \<open>Allowance_Model\<close>, \<open>Allowance_Ledger\<close>: \<open>models/allowance.py\<close> and
    \<open>db/repositories/allowance_repo.py\<close>; reserve, record, finalize, restore and release, each with
    all of its re-reads. \<open>Ledger_Rows\<close>, \<open>Ledger_Steps\<close>: the ledger as atomic steps on the table.
    \<open>Ledger_Client\<close>: every call is a run of those steps. \<open>Ledger_Invariant\<close>, \<open>Ledger_Outcome\<close>,
    \<open>Ledger_Quiet\<close>, \<open>Ledger_Accept\<close>, \<open>Ledger_Day\<close>: conservation, finality, answers, undisturbed runs.
    \<open>Ledger_World\<close>: a table with scripted interference, on which the locales are interpreted.
  \<^item> \<open>Parent_Link\<close>, \<open>Relationship\<close>, \<open>Link_Service\<close>: \<open>db/repositories/parent_link_repo.py\<close>,
    \<open>services/current_relationship.py\<close>, \<open>services/parent_link_service.py\<close>. \<open>Link_Steps\<close>,
    \<open>Link_Client\<close>, \<open>Link_World\<close>: the link state machine and its clients. \<open>Link_Consent\<close>, \<open>Link_Life\<close>,
    \<open>Link_Properties\<close>: who made a link, what a whole life of it reads like, the properties.
    \<open>Link_Race\<close>: the interleaving in which a side confirms its own request.
  \<^item> \<open>Access_Words\<close>, \<open>Access_Identity\<close>, \<open>Access_Policy\<close>, \<open>Access_Gateway\<close>, \<open>Access_Matrix\<close>,
    \<open>Access_Properties\<close>: \<open>security/authorization.py\<close>, \<open>security/identity.py\<close>, \<open>security/errors.py\<close>,
    \<open>security/events.py\<close>. \<open>Help_Rights\<close>: the states and rights of \<open>services/help_requests.py\<close>.
  \<^item> \<open>Access_Audit\<close>: \<open>db/repositories/security_audit_repo.py\<close>, the sink of the gateway's evidence.
    \<open>Access_Trail\<close>: its writes on the table; \<open>Access_Evidence\<close>: the gateway and its sink together.
  \<^item> \<open>Py_Float\<close>: \<open>float\<close> results and \<open>round\<close>, exact up to the range of the exponent. \<open>Help_Dispatch\<close>:
    \<open>services/teacher_dispatch_service.py\<close>, the rank in \<open>float\<close> arithmetic and the filtered profile
    scan, and the readers of \<open>db/repositories/user_repo.py\<close>. \<open>Session_Message\<close>: the message row a reply adds
    (\<open>services/learning_session\<close>). \<open>Help_Request\<close>: \<open>services/help_requests.py\<close>, from the
    question asked to the sweep. \<open>Help_Life\<close>: the abstract life of a request. \<open>Help_Steps\<close>,
    \<open>Help_Client\<close>, \<open>Help_Calls\<close>, \<open>Help_Runs\<close>, \<open>Help_Serve\<close>, \<open>Help_World\<close>: each call as a run of steps of
    that life. \<open>Help_Taking\<close>, \<open>Help_Offer\<close>, \<open>Help_Scan\<close>: what a take rests on, what an offer on an
    undisturbed table chooses, what the profile scan finds. \<open>Help_Properties\<close>, \<open>Help_Staff\<close>: the properties.
  \<^item> \<open>Paid_Grant\<close>: the readers of \<open>services/paid_entitlement_service.py\<close>. \<open>Support_Cases\<close>:
    \<open>services/teacher_support_allowance_service.py\<close>. \<open>Support_Shape\<close>: which rows an admission or a refund
    read and wrote. \<open>Case_Steps\<close>, \<open>Case_Client\<close>, \<open>Case_World\<close>: cases spent and given back as atomic steps.
  \<^item> \<open>Rate_Limit\<close>: \<open>services/rate_limit.py\<close>. \<open>Rate_Steps\<close>, \<open>Rate_World\<close>, \<open>Rate_Properties\<close>: admissions of
    hints as atomic steps (the counters of chat messages are written by \<open>services/ask_question\<close> too,
    and count as rows of others), source windows one call after another, the address behind proxies.
  \<^item> \<open>Put_Store\<close>: single conditional puts, shared by the sink and by \<open>Account_Number\<close>, \<open>Account_World\<close>:
    \<open>services/account_numbering_service.py\<close>, \<open>db/repositories/account_number_repo.py\<close>.

  \<^bold>\<open>State and effects.\<close> A row is a partial map from attribute names to Python values. A
  function of the code becomes a function of the client (\<open>db\<close>) and the world, returning its
  result and the world after it; exceptions are values of \<open>err\<close>, of a component's failure type, or of
  a security code. A loop with a fixed number of attempts is a recursion on that number.

  \<^bold>\<open>What the lemmas show.\<close> For each protocol: the shape of its writes; that each call, under any
  interference its \<open>env\<close> allows, is a run of atomic steps; invariants of those steps by rule
  induction; and, on a table left alone, what the call answers and leaves. The properties (each
  after its \<open>C\<close> number) are in this theory, \<open>Link_Properties\<close>, \<open>Access_Properties\<close>, \<open>Access_Evidence\<close>,
  \<open>Help_Properties\<close>, \<open>Help_Staff\<close>, \<open>Case_World\<close>, \<open>Rate_Properties\<close> and \<open>Account_World\<close>. Two theorems show a
  defect: the aggregates of refused attempts never count past one (\<open>Access_Evidence\<close>), and a link's
  confirmation is judged on one read and written on the status of another, so that a request asked for again
  in between is confirmed by its own side (\<open>Link_Race\<close>).

  \<^bold>\<open>Bounds.\<close> An optimistic write is tried at most four times (\<open>DEFAULT_ATTEMPTS\<close>), as in the code; the
  properties hold for every number of attempts and on giving up. Counts stay within
  \<open>MAX_EXACT_COUNT\<close>, which the code enforces before each write. A rate admission and an aggregate are
  tried three times, the loops are recursions
  on those numbers, and giving up is one of their answers. The profile scan goes on while the service
  names new places to read on from; it is a partial function, shown to return for every table.

  \<^bold>\<open>Not modelled.\<close> HTTP routers and framework wiring; third-party services (Cognito, Stripe, Bedrock,
  S3, SES) and the code whose work is calling them; scans and index queries, which are arguments
  where a modelled function uses one; texts of the message catalogue; telemetry. The manifest
  lists every other component with its reason.
\<close>

section \<open>Calls of the token ledger\<close>

text \<open>
  One call of a function of \<open>allowance_repo.py\<close>, with the model objects its type annotations ask
  for (a validated week and budget), whatever it returns.
\<close>

inductive ledger_call :: "codec \<Rightarrow> 'w db \<Rightarrow> 'w \<Rightarrow> 'w \<Rightarrow> bool" for cd db where
  call_reserve: "week_ok cd (rq_week rq) \<Longrightarrow> budget_ok (rq_budget rq) \<Longrightarrow>
     reserve_allowance cd db rq at_time generation w = (r, w') \<Longrightarrow> ledger_call cd db w w'"
| call_record: "record_provider_usage cd db us at_time w = (r, w') \<Longrightarrow> ledger_call cd db w w'"
| call_finalize: "finalize_allowance cd db st at_time w = (r, w') \<Longrightarrow> ledger_call cd db w w'"
| call_restore: "restore_allowance cd db st at_time w = (r, w') \<Longrightarrow> ledger_call cd db w w'"
| call_release: "release_unknown_cost cd db b e at_time w = (r, w') \<Longrightarrow> ledger_call cd db w w'"

inductive_cases ledger_callE: "ledger_call cd db w w'"

lemma ledger_call_run:
  assumes "ledger_client db rows env cd" "ledger_call cd db w w'" "keyed (rows w)"
  shows "ledger_run cd (rows w) (rows w')"
  using assms(2,3)
  by cases (auto simp: record_provider_usage_def finalize_allowance_def restore_allowance_def
      dest: ledger_client.reserve_allowance_run [OF assms(1)] ledger_client.record_usage_run [OF assms(1)]
        ledger_client.complete_allowance_run [OF assms(1)] ledger_client.release_unknown_cost_run [OF assms(1)])

lemma ledger_calls_run:
  assumes "ledger_client db rows env cd" "(ledger_call cd db)\<^sup>*\<^sup>* w w'" "keyed (rows w)"
  shows "ledger_run cd (rows w) (rows w')"
  using assms(2)
proof (induction rule: rtranclp_induct)
  case (step u v)
  have "keyed (rows u)" using ledger_run_facts(1) [OF step.IH assms(3)] .
  from ledger_call_run [OF assms(1) step.hyps(2) this] step.IH show ?case by (auto intro: ledger_run_trans)
qed simp

section \<open>Properties of the token ledger\<close>

text \<open>The concrete worlds the witnesses run in.\<close>

lemma plain_client: "ledger_client ledger_db tbl (acts (run_command plain_codec)) plain_codec"
  by (rule plain_ledger.ledger_client_axioms)

definition after_storm :: "command world" where
  "after_storm = snd (reserve_allowance plain_codec ledger_db sample_request (Aware sample_now) (Some 1) stormy)"

definition after_grant :: "command world" where
  "after_grant = quiet (reserved_table plain_codec sample_request 1 sample_now None fenced)"

lemma sample_request_ok: "request_ok plain_codec sample_request"
proof -
  have "sha_text sample_effect"
    using plain.sha256_shape [of "''7''"] by (simp add: sample_effect_def plain_codec_def text_nat_def)
  moreover have "required_text 200 (PStr ''ada'') \<noteq> None"
    by (simp add: required_text_def strip_def py_space_def)
  ultimately show ?thesis
    using sample_week_ok sample_budget_ok
    by (simp add: request_ok_def sample_request_def exact_count_def MAX_EXACT_COUNT_def)
qed

lemma fenced_keyed: "keyed fenced"
  using fenced_inv by (simp add: ledger_inv_def)

lemma after_storm_call: "ledger_call plain_codec ledger_db stormy after_storm"
proof -
  obtain r w' where "reserve_allowance plain_codec ledger_db sample_request (Aware sample_now) (Some 1) stormy = (r, w')"
    by force
  moreover from this have "after_storm = w'" by (simp add: after_storm_def)
  ultimately show ?thesis
    by (intro call_reserve [where rq = sample_request]) (auto simp: sample_request_def sample_week_ok sample_budget_ok)
qed

lemma after_storm_calls: "(ledger_call plain_codec ledger_db)\<^sup>*\<^sup>* stormy after_storm"
  using after_storm_call by (rule r_into_rtranclp)

lemma stormy_inv: "ledger_inv (tbl stormy)" "keyed (tbl stormy)" "tbl stormy = fenced"
  using fenced_inv fenced_keyed by (simp_all add: stormy_def)

lemma sample_counter: "counter_on plain_codec (rq_beneficiary sample_request) (rq_week sample_request) fenced = Some None"
  by (simp add: counter_on_def fenced_def counter_key_TOKENS partition_key_def)

lemma sample_room: "reserve_room sample_request None"
  by (simp add: reserve_room_def prior_count_def next_version_def sample_request_def sample_budget_def MAX_EXACT_COUNT_def)

lemma sample_fence: "fence_active fenced (rq_beneficiary sample_request) 1"
  by (simp add: fence_active_def fenced_def fence_row_def row_lookup strip_def py_space_def sample_request_def)

lemma sample_absent:
  "fenced (effect_key (rq_beneficiary sample_request) (rq_effect sample_request)) = None"
  "fenced (usage_evidence_key plain_codec sample_usage) = None"
  "fenced (evidence_key (rq_beneficiary sample_request) (evidence_id plain_codec (rq_effect sample_request))) = None"
  by (simp_all add: fenced_def effect_key_def evidence_key_def usage_evidence_key_def partition_key_def)

lemma sample_ranges: "datetime_range sample_now" "(1::int) \<le> MAX_EXACT_COUNT" "next_version None < MAX_EXACT_COUNT"
  by (simp_all add: datetime_range_def sample_now_def MAX_EXACT_COUNT_def next_version_def)

lemma padded_sha: "n < 10 ^ 64 \<Longrightarrow> sha_text (padded 64 n)"
  using length_padded [of n 64] digit_padded [of 64 n] digit_hex by (auto simp: sha_text_def list_all_iff)

lemma sample_usage_ok: "usage_ok sample_usage"
  using sample_request_ok
  by (simp add: usage_ok_def request_ok_def sample_usage_def sample_request_def padded_sha exact_count_def MAX_EXACT_COUNT_def)

lemma sample_settle_ok: "settle_ok sample_settle"
  using sample_request_ok by (simp add: settle_ok_def request_ok_def sample_settle_def sample_request_def delivered_def)

lemma sample_same: "same_effect sample_request sample_usage sample_settle"
  by (simp add: same_effect_def sample_request_def sample_usage_def sample_settle_def)

lemma sample_costs:
  "prior_count None ''provider_cost_input_tokens'' + us_input sample_usage \<le> MAX_EXACT_COUNT"
  "prior_count None ''provider_cost_output_tokens'' + us_output sample_usage \<le> MAX_EXACT_COUNT"
  "prior_count None ''provider_cost_input_tokens'' + rq_input sample_request \<le> MAX_EXACT_COUNT"
  "prior_count None ''provider_cost_output_tokens'' + rq_output sample_request \<le> MAX_EXACT_COUNT"
  "us_input sample_usage \<le> rq_input sample_request" "us_output sample_usage \<le> rq_output sample_request"
  by (simp_all add: prior_count_def sample_usage_def sample_request_def MAX_EXACT_COUNT_def)

lemmas sample_day = plain.token_life [OF sample_same sample_request_ok sample_usage_ok sample_settle_ok fenced_keyed
  sample_fence order_refl sample_ranges(2) sample_absent(1,2) sample_counter sample_room sample_ranges(3)
  sample_costs(5,6,1,2) sample_ranges(1,1), of "run_command plain_codec"]

lemmas sample_release = plain.release_life [OF sample_request_ok fenced_keyed
  sample_fence order_refl sample_ranges(2) sample_absent(1,3) sample_counter sample_room sample_ranges(3)
  sample_costs(3,4) sample_ranges(1,1), of "run_command plain_codec"]

lemma sample_grant:
  "reserve_allowance plain_codec ledger_db sample_request (Aware sample_now) (Some 1) (quiet fenced)
    = (Inr (R_Admitted, Some (granted sample_request 1)), after_grant)"
  using plain.reserve_quiet [OF sample_request_ok fenced_keyed sample_fence order_refl sample_ranges(2) sample_absent(1)
      sample_counter sample_room, of "run_command plain_codec" sample_now]
  by (simp add: after_grant_def next_version_def)

text \<open>Each call of that day, with the table it is made on.\<close>

lemma sample_calls:
  obtains t1 t2 t3 r x y where
    "reserve_allowance plain_codec ledger_db sample_request (Aware sample_now) (Some 1) (quiet fenced) = (Inr (R_Admitted, Some r), quiet t1)"
    "record_provider_usage plain_codec ledger_db sample_usage (Aware sample_now) (quiet t1) = (Inr (P_Recorded, Some x), quiet t2)"
    "complete_allowance plain_codec ledger_db sample_settle (Aware sample_now) (quiet t2) = (Inr (F_Finalized, Some y), quiet t3)"
    "keyed t1" "keyed t2"
proof -
  obtain t1 t2 t3 r x y where calls:
    "reserve_allowance plain_codec ledger_db sample_request (Aware sample_now) (Some 1) (quiet fenced) = (Inr (R_Admitted, Some r), quiet t1)"
    "record_usage plain_codec ledger_db sample_usage (Aware sample_now) (quiet t1) = (Inr (P_Recorded, Some x), quiet t2)"
    "complete_allowance plain_codec ledger_db sample_settle (Aware sample_now) (quiet t2)
       = (Inr (if st_restore sample_settle then F_Restored else F_Finalized, Some y), quiet t3)"
    by (rule sample_day [of sample_now]) blast
  have usage: "sample_usage\<lparr>us_unknown_cost := False\<rparr> = sample_usage" by (simp add: sample_usage_def)
  have k1: "keyed t1"
    using ledger_run_facts(1) [OF plain_ledger.reserve_allowance_run [OF calls(1)]] fenced_keyed sample_week_ok sample_budget_ok
    by (simp add: sample_request_def)
  have k2: "keyed t2" using ledger_run_facts(1) [OF plain_ledger.record_usage_run [OF calls(2)]] k1 by simp
  from calls(3) have "complete_allowance plain_codec ledger_db sample_settle (Aware sample_now) (quiet t2)
      = (Inr (F_Finalized, Some y), quiet t3)" by (simp add: sample_settle_def)
  with calls(1,2) k1 k2 show ?thesis
    by (intro that [of r t1 x t2 y t3]) (simp_all add: record_provider_usage_def usage)
qed

text \<open>
  C1: conservation. After any number of calls, made amid the calls of any other clients and with any
  answers lost, each weekly counter equals what the rows beside it add up to: its reserved tokens the
  open reservations, its finalized tokens the finalized debits, its provider cost the usage on the
  evidence rows. Nothing is lost, nothing is counted twice.
\<close>

theorem ledger_conserved:
  assumes "ledger_client db rows env cd" and "ledger_inv (rows w)" and "(ledger_call cd db)\<^sup>*\<^sup>* w w'"
  shows "counter_num (reserved_field d) b wid (rows w') = total (held b wid d) (rows w')
    \<and> counter_num (finalized_field d) b wid (rows w') = total (spent b wid d) (rows w')
    \<and> counter_num (cost_field d) b wid (rows w') = total (cost b wid d) (rows w')"
proof -
  have "keyed (rows w)" using assms(2) by (simp add: ledger_inv_def)
  from ledger_run_inv [OF ledger_calls_run [OF assms(1,3) this] assms(2)]
  show ?thesis by (simp add: ledger_inv_def balanced_def)
qed

theorem ledger_conserved_witness:
  "counter_num (reserved_field Input_Tokens) ''ada'' ''2025-W24'' (tbl after_storm)
     = total (held ''ada'' ''2025-W24'' Input_Tokens) (tbl after_storm)"
  using ledger_conserved [where d = Input_Tokens, OF plain_client stormy_inv(1) after_storm_calls] by blast

text \<open>
  C2: the budget holds. After any number of calls, under races and lost answers, the finalized and
  the reserved tokens of a week together stay within the budget the week's counter records.
\<close>

theorem ledger_within_budget:
  assumes "ledger_client db rows env cd" and "ledger_inv (rows w)" and "(ledger_call cd db)\<^sup>*\<^sup>* w w'"
  shows "counter_num (finalized_field d) b wid (rows w') + counter_num (reserved_field d) b wid (rows w')
    \<le> counter_num (budget_field d) b wid (rows w')"
proof -
  have "keyed (rows w)" using assms(2) by (simp add: ledger_inv_def)
  from ledger_run_inv [OF ledger_calls_run [OF assms(1,3) this] assms(2)]
  show ?thesis by (simp add: ledger_inv_def within_budget_def)
qed

theorem ledger_within_budget_witness:
  "counter_num (finalized_field Input_Tokens) ''ada'' ''2025-W24'' (tbl after_storm)
     + counter_num (reserved_field Input_Tokens) ''ada'' ''2025-W24'' (tbl after_storm)
     \<le> counter_num (budget_field Input_Tokens) ''ada'' ''2025-W24'' (tbl after_storm)"
  by (rule ledger_within_budget [OF plain_client stormy_inv(1) after_storm_calls])

text \<open>
  C3: linearization of a reservation. Whatever races and lost answers the function meets, all it did
  to the table is a run of atomic ledger steps: its two optimistic reads, its version conditions, its
  retries and its re-reads never commit on a stale counter or a stale effect.
\<close>

theorem reserve_refines_ledger:
  assumes "ledger_client db rows env cd" and "keyed (rows w)" and "week_ok cd (rq_week rq)" and "budget_ok (rq_budget rq)"
  shows "ledger_run cd (rows w) (rows (snd (reserve_allowance cd db rq at_time generation w)))"
  using ledger_client.reserve_allowance_run [OF assms(1) prod.collapse [symmetric] assms(2-4)] .

theorem reserve_refines_ledger_witness: "ledger_run plain_codec fenced (tbl after_storm)"
  using reserve_refines_ledger [where rq = sample_request and at_time = "Aware sample_now" and generation = "Some 1",
      OF plain_client stormy_inv(2)] sample_week_ok sample_budget_ok
  by (simp add: stormy_inv(3) after_storm_def sample_request_def)

text \<open>
  C4: linearization of a settlement. Finalizing or restoring, under races and lost answers, is a run
  of atomic ledger steps too: what is debited was judged against the evidence, the effect and the
  counter as they were when the transaction committed.
\<close>

theorem settle_refines_ledger:
  assumes "ledger_client db rows env cd" and "keyed (rows w)"
  shows "ledger_run cd (rows w) (rows (snd (complete_allowance cd db st at_time w)))"
  using ledger_client.complete_allowance_run [OF assms(1) prod.collapse [symmetric] assms(2)] .

theorem settle_refines_ledger_witness:
  "ledger_run plain_codec fenced (tbl (snd (complete_allowance plain_codec ledger_db sample_settle (Aware sample_now) stormy)))"
  using settle_refines_ledger [where st = sample_settle and at_time = "Aware sample_now", OF plain_client stormy_inv(2)]
  by (simp only: stormy_inv(3))

text \<open>
  C5: an effect is reserved at most once. A reservation is reported admitted only if the effect did
  not exist when the call began; admitted or replayed, the stored effect carries the digest of
  exactly this request when the call returns.
\<close>

theorem reserve_exactly_once:
  assumes "ledger_client db rows env cd" and "keyed (rows w)" and "week_ok cd (rq_week rq)" and "budget_ok (rq_budget rq)"
    and "reserve_allowance cd db rq at_time generation w = (Inr (d, x), w')"
  shows "(d = R_Admitted \<longrightarrow> rows w (effect_key (rq_beneficiary rq) (rq_effect rq)) = None)
    \<and> (d = R_Admitted \<or> d = R_Replayed \<longrightarrow> holds_reservation cd rq (rows w'))"
  using ledger_client.reserve_allowance_answer [OF assms(1,5,2,3,4)]
  by (simp add: ledger_client.reservation_answer_def [OF assms(1)])

theorem reserve_exactly_once_witness: "holds_reservation plain_codec sample_request (tbl after_grant)"
  using reserve_exactly_once [OF plain_client _ _ _ sample_grant] fenced_keyed sample_week_ok sample_budget_ok
  by (simp add: sample_request_def)

text \<open>
  C6: a settled effect is final. Once an effect is finalized or restored, no later call and no other
  client changes its row.
\<close>

theorem settled_is_final:
  assumes "ledger_client db rows env cd" and "keyed (rows w)" and "(ledger_call cd db)\<^sup>*\<^sup>* w w'"
    and "settled_row_at (rows w) (effect_key b e) i"
  shows "settled_row_at (rows w') (effect_key b e) i"
  using ledger_run_settled [OF ledger_calls_run [OF assms(1,3,2)] assms(4)] .

definition settled_world :: "command world" where
  "settled_world = \<lparr>tbl = Map.empty(effect_key ''ada'' sample_effect \<mapsto>
       dict_of [(''PK'', PStr (fst (effect_key ''ada'' sample_effect))), (''SK'', PStr (snd (effect_key ''ada'' sample_effect))),
         (''state'', PStr ''finalized'')]), script = []\<rparr>"

theorem settled_is_final_witness:
  "settled_row_at (tbl (snd (restore_allowance plain_codec ledger_db sample_settle (Aware sample_now) settled_world)))
     (effect_key ''ada'' sample_effect)
     (dict_of [(''PK'', PStr (fst (effect_key ''ada'' sample_effect))), (''SK'', PStr (snd (effect_key ''ada'' sample_effect))),
         (''state'', PStr ''finalized'')])"
proof -
  have "ledger_call plain_codec ledger_db settled_world
      (snd (restore_allowance plain_codec ledger_db sample_settle (Aware sample_now) settled_world))"
    by (rule call_restore) (rule prod.collapse [symmetric])
  moreover have "keyed (tbl settled_world)"
    by (simp add: settled_world_def keyed_def item_key_def row_lookup effect_key_def)
  ultimately show ?thesis
    using settled_is_final [OF plain_client, of settled_world]
    by (simp add: settled_world_def settled_row_at_def settled_row_def row_lookup r_into_rtranclp)
qed

text \<open>
  A settlement that is reported happened. When finalizing or restoring answers finalized,
  restored or replayed, the effect is settled in the table with the digest of this very settlement.
\<close>

theorem settlement_recorded:
  assumes "ledger_client db rows env cd" and "keyed (rows w)"
    and "complete_allowance cd db st at_time w = (Inr (d, x), w')" and "d \<in> {F_Finalized, F_Restored, F_Replayed}"
  shows "holds_settlement cd st (rows w')"
  using ledger_client.complete_allowance_answer [OF assms(1,3,2)] assms(4)
  by (auto simp: ledger_client.success_def [OF assms(1)])

theorem settlement_recorded_witness:
  "\<exists>w x w'. complete_allowance plain_codec ledger_db sample_settle (Aware sample_now) w = (Inr (F_Finalized, x), w')
     \<and> holds_settlement plain_codec sample_settle (tbl w')"
proof -
  obtain t2 t3 y where call: "complete_allowance plain_codec ledger_db sample_settle (Aware sample_now) (quiet t2)
      = (Inr (F_Finalized, Some y), quiet t3)" and k: "keyed t2"
    by (rule sample_calls) blast
  have "holds_settlement plain_codec sample_settle (tbl (quiet t3 :: command world))"
    using settlement_recorded [OF plain_client _ call] k by simp
  with call show ?thesis by blast
qed

text \<open>
  Usage that is reported recorded is on an evidence row with the digest of exactly this
  observation, and the row is never changed afterwards.
\<close>

theorem usage_recorded:
  assumes "ledger_client db rows env cd" and "keyed (rows w)"
    and "record_provider_usage cd db us at_time w = (Inr (d, x), w')" and "d \<in> {P_Recorded, P_Replayed}"
    and "(ledger_call cd db)\<^sup>*\<^sup>* w' w''"
  shows "holds_usage cd (us\<lparr>us_unknown_cost := False\<rparr>) (rows w'')"
proof -
  from assms(3) have r: "record_usage cd db (us\<lparr>us_unknown_cost := False\<rparr>) at_time w = (Inr (d, x), w')"
    by (simp add: record_provider_usage_def)
  have key: "keyed (rows w')"
    using ledger_client.record_usage_run [OF assms(1) r assms(2)] assms(2) by (rule ledger_run_facts)
  have "holds_usage cd (us\<lparr>us_unknown_cost := False\<rparr>) (rows w')"
    using ledger_client.record_usage_answer [OF assms(1) r assms(2)] assms(4)
    by (auto simp: ledger_client.recorded_def [OF assms(1)])
  with ledger_calls_run [OF assms(1,5) key] key show ?thesis by (rule holds_usage_run)
qed

theorem usage_recorded_witness:
  "\<exists>w x w'. record_provider_usage plain_codec ledger_db sample_usage (Aware sample_now) w = (Inr (P_Recorded, x), w')
     \<and> holds_usage plain_codec (sample_usage\<lparr>us_unknown_cost := False\<rparr>) (tbl w')"
proof -
  obtain t1 t2 x where call: "record_provider_usage plain_codec ledger_db sample_usage (Aware sample_now) (quiet t1)
      = (Inr (P_Recorded, Some x), quiet t2)" and k: "keyed t1"
    by (rule sample_calls) blast
  have "holds_usage plain_codec (sample_usage\<lparr>us_unknown_cost := False\<rparr>) (tbl (quiet t2 :: command world))"
    using usage_recorded [OF plain_client _ call _ rtranclp.rtrancl_refl] k by simp
  with call show ?thesis by blast
qed

text \<open>
  A release settles. When releasing a reservation of unknown cost answers released, the effect is
  settled as an undelivered one.
\<close>

theorem release_settles:
  assumes "ledger_client db rows env cd" and "keyed (rows w)"
    and "release_unknown_cost cd db b e at_time w = (Inr L_Released, w')"
  shows "holds_settlement cd (undelivered b e) (rows w')"
  using assms by (metis ledger_client.release_unknown_cost_answer)

theorem release_settles_witness:
  "\<exists>w w'. release_unknown_cost plain_codec ledger_db (rq_beneficiary sample_request) (rq_effect sample_request) (Aware sample_now) w
       = (Inr L_Released, w')
     \<and> holds_settlement plain_codec (undelivered (rq_beneficiary sample_request) (rq_effect sample_request)) (tbl w')"
proof -
  obtain t1 t2 r where
    "reserve_allowance plain_codec ledger_db sample_request (Aware sample_now) (Some 1) (quiet fenced) = (Inr (R_Admitted, Some r), quiet t1)"
    and call: "release_unknown_cost plain_codec ledger_db (rq_beneficiary sample_request) (rq_effect sample_request) (Aware sample_now) (quiet t1)
      = (Inr L_Released, quiet t2)"
    by (rule sample_release) blast
  moreover from this(1) have "keyed t1"
    using ledger_run_facts(1) [OF plain_ledger.reserve_allowance_run] fenced_keyed sample_week_ok sample_budget_ok
    by (fastforce simp: sample_request_def)
  ultimately have "holds_settlement plain_codec (undelivered (rq_beneficiary sample_request) (rq_effect sample_request)) (tbl (quiet t2 :: command world))"
    using release_settles [OF plain_client _ call] by simp
  with call show ?thesis by blast
qed

text \<open>
  C33: a request within the budget is granted. On an undisturbed table with an active account fence,
  a new effect whose tokens fit what is left of the week is admitted on the first attempt, with
  exactly the reservation asked for, and the table gains the effect and the counter's next version.
\<close>

theorem reserve_grants:
  assumes "codec_laws cd" and "request_ok cd rq" and "keyed t"
    and "fence_active t (rq_beneficiary rq) g" and "1 \<le> g" and "g \<le> MAX_EXACT_COUNT"
    and "t (effect_key (rq_beneficiary rq) (rq_effect rq)) = None"
    and "counter_on cd (rq_beneficiary rq) (rq_week rq) t = Some previous" and "reserve_room rq previous"
  shows "reserve_allowance cd (world_db act) rq (Aware now) (Some g) (quiet t) =
    (Inr (R_Admitted, Some (granted rq (next_version previous))), quiet (reserved_table cd rq g now previous t))"
  using assms by (rule codec_laws.reserve_quiet)

theorem reserve_grants_witness:
  "reserve_allowance plain_codec ledger_db sample_request (Aware sample_now) (Some 1) (quiet fenced)
    = (Inr (R_Admitted, Some (granted sample_request (next_version None))),
       quiet (reserved_table plain_codec sample_request 1 sample_now None fenced))"
  by (rule reserve_grants [OF plain.codec_laws_axioms sample_request_ok fenced_keyed sample_fence order_refl sample_ranges(2)
      sample_absent(1) sample_counter sample_room])

text \<open>
  C11: what one effect costs. On an undisturbed table, an effect that is reserved, recorded and
  settled adds its recorded usage to the week's provider cost, adds it to the finalized tokens
  exactly when the result was delivered, and leaves nothing reserved.
\<close>

theorem token_life_accounted:
  assumes "codec_laws cd" and "same_effect rq us st" and "request_ok cd rq" and "usage_ok us" and "settle_ok st"
    and "keyed t" and "fence_active t (rq_beneficiary rq) g" and "1 \<le> g" and "g \<le> MAX_EXACT_COUNT"
    and "t (effect_key (rq_beneficiary rq) (rq_effect rq)) = None" and "t (usage_evidence_key cd us) = None"
    and "counter_on cd (rq_beneficiary rq) (rq_week rq) t = Some previous" and "reserve_room rq previous"
    and "next_version previous < MAX_EXACT_COUNT"
    and "us_input us \<le> rq_input rq" and "us_output us \<le> rq_output rq"
    and "prior_count previous ''provider_cost_input_tokens'' + us_input us \<le> MAX_EXACT_COUNT"
    and "prior_count previous ''provider_cost_output_tokens'' + us_output us \<le> MAX_EXACT_COUNT"
    and "datetime_range now" and "datetime_range seen_at"
  shows "\<exists>t1 t2 t3 r x y.
      reserve_allowance cd (world_db act) rq (Aware now) (Some g) (quiet t) = (Inr (R_Admitted, Some r), quiet t1)
    \<and> record_usage cd (world_db act) us (Aware seen_at) (quiet t1) = (Inr (P_Recorded, Some x), quiet t2)
    \<and> complete_allowance cd (world_db act) st (Aware done_at) (quiet t2)
        = (Inr (if st_restore st then F_Restored else F_Finalized, Some y), quiet t3)
    \<and> (\<forall>d. counter_num (reserved_field d) (rq_beneficiary rq) (week_identity (rq_week rq)) t3
          = prior_count previous (reserved_field d)
        \<and> counter_num (finalized_field d) (rq_beneficiary rq) (week_identity (rq_week rq)) t3
          = prior_count previous (finalized_field d) + (if st_restore st then 0 else used us d)
        \<and> counter_num (cost_field d) (rq_beneficiary rq) (week_identity (rq_week rq)) t3
          = prior_count previous (cost_field d) + used us d)"
  by (rule codec_laws.token_life [OF assms, of act done_at]) blast

theorem token_life_accounted_witness:
  "\<exists>t1 t2 t3 r x y.
      reserve_allowance plain_codec ledger_db sample_request (Aware sample_now) (Some 1) (quiet fenced) = (Inr (R_Admitted, Some r), quiet t1)
    \<and> record_usage plain_codec ledger_db sample_usage (Aware sample_now) (quiet t1) = (Inr (P_Recorded, Some x), quiet t2)
    \<and> complete_allowance plain_codec ledger_db sample_settle (Aware sample_now) (quiet t2)
        = (Inr (if st_restore sample_settle then F_Restored else F_Finalized, Some y), quiet t3)
    \<and> (\<forall>d. counter_num (reserved_field d) (rq_beneficiary sample_request) (week_identity (rq_week sample_request)) t3
          = prior_count None (reserved_field d)
        \<and> counter_num (finalized_field d) (rq_beneficiary sample_request) (week_identity (rq_week sample_request)) t3
          = prior_count None (finalized_field d) + (if st_restore sample_settle then 0 else used sample_usage d)
        \<and> counter_num (cost_field d) (rq_beneficiary sample_request) (week_identity (rq_week sample_request)) t3
          = prior_count None (cost_field d) + used sample_usage d)"
  by (rule token_life_accounted [OF plain.codec_laws_axioms sample_same sample_request_ok sample_usage_ok sample_settle_ok fenced_keyed
      sample_fence order_refl sample_ranges(2) sample_absent(1,2) sample_counter sample_room sample_ranges(3)
      sample_costs(5,6,1,2) sample_ranges(1,1)])

text \<open>
  C12: no write for an account in deletion. If any calls, with whatever other clients do meanwhile,
  change a row of an account's \<open>ALLOWANCE#\<close> partition, then the account's fence was active in a
  table on the way: where it never is, nothing of the ledger is written.
\<close>

theorem ledger_writes_are_fenced:
  assumes "ledger_client db rows env cd" and "keyed (rows w)" and "(ledger_call cd db)\<^sup>*\<^sup>* w w'"
    and "rows w' (partition_key b, s) \<noteq> rows w (partition_key b, s)"
  shows "\<exists>u g. ledger_run cd (rows w) u \<and> fence_active u b g"
  by (rule ledger_run_fenced [OF ledger_calls_run [OF assms(1,3,2)] assms(4)]) simp

theorem ledger_writes_are_fenced_witness:
  "\<exists>u g. ledger_run plain_codec fenced u \<and> fence_active u ''ada'' g"
proof -
  have "(ledger_call plain_codec ledger_db)\<^sup>*\<^sup>* (quiet fenced) after_grant"
    by (intro r_into_rtranclp call_reserve [OF _ _ sample_grant])
      (simp_all add: sample_request_def sample_week_ok sample_budget_ok)
  moreover have "tbl after_grant (partition_key ''ada'', ''EFFECT#'' @ sample_effect)
      \<noteq> tbl (quiet fenced) (partition_key ''ada'', ''EFFECT#'' @ sample_effect)"
    using sample_absent(1)
    by (simp add: after_grant_def reserved_table_def sample_request_def effect_key_def counter_key_TOKENS)
  ultimately show ?thesis
    using ledger_writes_are_fenced [OF plain_client, of "quiet fenced" after_grant "''ada''"] fenced_keyed
    by (simp add: after_grant_def)
qed

section \<open>Properties of the weekly counter and the calendar\<close>

text \<open>
  What a counter write stores is read back. The row a write puts passes the strict validation of
  the same scope and week, with the given counts, the other counts as they were, and a version one
  higher.
\<close>

theorem counter_write_reads_back:
  assumes "kind_wf kind" and "write_counter cd kind scope wk previous counts extra now = Inr oper"
    and "from_table cd kind scope wk previous" and "next_version previous \<le> MAX_EXACT_COUNT"
  shows "\<exists>row c. oper = Put row (version_condition previous)
    \<and> validate cd kind (stored_item row) scope wk = Some c
    \<and> c_version c = next_version previous
    \<and> (\<forall>f \<in> set (count_fields kind). count c f = new_count previous counts f)"
  using counted_kind.write_reads_back [OF counted_kind.intro [OF assms(1)] assms(2-4)]
    write_counter_InrD(1) [OF assms(2)]
  unfolding reads_back_def by blast

theorem counter_write_reads_back_witness:
  "\<exists>oper row c. write_counter plain_codec CASES ''ada'' sample_week None [(''admitted_cases'', 1)] [] sample_now = Inr oper
    \<and> oper = Put row (version_condition None)
    \<and> validate plain_codec CASES (stored_item row) ''ada'' sample_week = Some c
    \<and> c_version c = 1 \<and> count c ''admitted_cases'' = 1"
proof -
  let ?row = "written_row plain_codec CASES ''ada'' sample_week None [(''admitted_cases'', 1)] [] sample_now"
  have w: "write_counter plain_codec CASES ''ada'' sample_week None [(''admitted_cases'', 1)] [] sample_now
      = Inr (Put ?row (version_condition None))"
    by (rule write_counter_Inr) (simp_all add: CASES_def MAX_EXACT_COUNT_def)
  have "from_table plain_codec CASES ''ada'' sample_week None" "next_version None \<le> MAX_EXACT_COUNT"
    by (simp_all add: from_table_def next_version_def MAX_EXACT_COUNT_def)
  from counter_write_reads_back [OF kind_wf_CASES w this] w show ?thesis
    by (auto simp: CASES_def next_version_def new_count_def)
qed

text \<open>
  C14: compare-and-set. A counter write that passes its condition does so on the very row that was
  read, as long as every writer in between kept to versions: no update is lost.
\<close>

theorem counter_compare_and_set:
  assumes "kind_wf kind" and "write_counter cd kind scope wk previous counts extra now = Inr oper"
    and "case previous of None \<Rightarrow> t (counter_key kind scope wk) = None
        | Some c \<Rightarrow> \<exists>i. t (counter_key kind scope wk) = Some i \<and> validate cd kind i scope wk = Some c"
    and "kept t t' (counter_key kind scope wk)" and "keyed t'" and "op_ok t' oper"
  shows "t' (counter_key kind scope wk) = t (counter_key kind scope wk)"
proof (rule counted_kind.write_commits_on_read [OF counted_kind.intro [OF assms(1)] assms(2) _ refl assms(4-6)])
  show "case previous of None \<Rightarrow> t (counter_key kind scope wk) = None
      | Some c \<Rightarrow> \<exists>i. t (counter_key kind scope wk) = Some i \<and> row_version i = Some (c_version c) \<and> counter_ok cd kind scope wk c"
    using assms(3) validate_row_version(1) [OF _ assms(1)] validate_counter_ok [OF _ assms(1)]
    by (auto split: option.splits)
qed

theorem counter_compare_and_set_witness:
  "fenced (counter_key CASES ''ada'' sample_week) = Map.empty (counter_key CASES ''ada'' sample_week)"
proof -
  have w: "write_counter plain_codec CASES ''ada'' sample_week None [(''admitted_cases'', 1)] [] sample_now
      = Inr (Put (written_row plain_codec CASES ''ada'' sample_week None [(''admitted_cases'', 1)] [] sample_now) (version_condition None))"
    by (rule write_counter_Inr) (simp_all add: CASES_def MAX_EXACT_COUNT_def)
  have ft: "from_table plain_codec CASES ''ada'' sample_week None" by (simp add: from_table_def)
  have absent: "fenced (counter_key CASES ''ada'' sample_week) = None"
    by (simp add: fenced_def counter_key_def CASES_def)
  show ?thesis
    by (rule counter_compare_and_set [OF kind_wf_CASES w _ _ fenced_keyed])
      (simp_all add: kept_def op_ok_Put [OF cases_kind.written_key [OF w ft]] version_condition_def row_at_def absent)
qed

text \<open>
  C15: weeks partition time. The week of an instant contains it, and it is the week of every other
  instant in its window: no instant falls between two weeks or into both, the clock changes of the
  zone included.
\<close>

theorem zurich_weeks_partition:
  assumes "zurich_zone z" and "zurich_week z (Aware t) = Inr wk"
  shows "window_start wk \<le> t \<and> t < window_end wk
    \<and> (\<forall>u. (zurich_week z (Aware u) = Inr wk) = (window_start wk \<le> u \<and> u < window_end wk))"
  using zurich_week_window [OF assms] zurich_week_window [OF assms(1)] zurich_week_unique [OF assms]
  by blast

lemma sample_week_of_now: "zurich_week zurich_2025 (Aware sample_now) = Inr sample_week"
proof -
  have m: "739411 = ordinal_of (to_wall zurich_2025 sample_now) - weekday (ordinal_of (to_wall zurich_2025 sample_now))"
    by (simp add: sample_now_def to_wall_def zurich_2025_def ordinal_of_def weekday_def)
  have iso: "isocalendar 739411 = (2025, 24)" using sample_isocalendar by (simp add: ordinal_of_def)
  have z: "zurich_zone zurich_2025" using plain.zone_rules by (simp add: zurich_plain)
  show ?thesis
    unfolding zurich_week_unfold [OF z m iso] by (simp add: sample_week_def from_wall_def zurich_2025_def)
qed

theorem zurich_weeks_partition_witness:
  "window_start sample_week \<le> sample_now \<and> sample_now < window_end sample_week
    \<and> (\<forall>u. (zurich_week zurich_2025 (Aware u) = Inr sample_week)
          = (window_start sample_week \<le> u \<and> u < window_end sample_week))"
  by (rule zurich_weeks_partition [OF _ sample_week_of_now]) (use plain.zone_rules in \<open>simp add: zurich_plain\<close>)

text \<open>
  No two weeks share a counter. Two validated weeks with the same identity text, and so the same
  counter key, have the same ISO year and week.
\<close>

theorem week_identity_tells_weeks_apart:
  assumes "week_ok cd a" and "week_ok cd b" and "counter_key kind scope a = counter_key kind scope b"
  shows "iso_year a = iso_year b \<and> iso_week a = iso_week b"
  using assms week_okD [OF assms(1)] week_okD [OF assms(2)]
  by (intro week_identity_inject) (simp_all add: counter_key_def)

theorem week_identity_tells_weeks_apart_witness:
  "iso_year sample_week = iso_year sample_week \<and> iso_week sample_week = iso_week sample_week"
  by (rule week_identity_tells_weeks_apart [OF sample_week_ok sample_week_ok refl])

end
